(* ===== verification/Ts_Prelude.thy ===== *)
theory Ts_Prelude
  imports Main "HOL-Library.Char_ord" "HOL-Library.List_Lexorder"
begin

text \<open>
  What every component shares: the error value a rejected promise or a thrown exception
  carries, the computation type of an \<open>async\<close> function (a state transformer that ends in
  an error or in a value), the control constructs the code uses (\<open>await\<close> in sequence,
  \<open>try/catch\<close>, \<open>finally\<close>), promises with a settling time, and the collections of
  simplification rules the component theories extend.
\<close>

section \<open>Errors and computations\<close>

text \<open>
  \<open>err_code\<close> is the \<open>code\<close> property a Postgres error object has (\<open>undefined\<close> for a
  plain \<open>Error\<close>); \<open>err_message\<close> is \<open>error.message\<close>.
\<close>

datatype js_error = JsError (err_message: string) (err_code: "string option")

type_synonym ('s, 'a) io = "'s \<Rightarrow> (js_error + 'a) \<times> 's"

named_theorems io_simps \<open>unfolding rules of the computation constructs\<close>
named_theorems law_simps \<open>rules that evaluate service calls under the laws of an interface\<close>

definition io_return :: "'a \<Rightarrow> ('s, 'a) io" where
  "io_return a = (\<lambda>s. (Inr a, s))"

definition io_throw :: "js_error \<Rightarrow> ('s, 'a) io" where
  "io_throw e = (\<lambda>s. (Inl e, s))"

text \<open>Sequencing of synchronous code that may throw.\<close>

fun res_bind :: "js_error + 'a \<Rightarrow> ('a \<Rightarrow> js_error + 'b) \<Rightarrow> js_error + 'b" where
  "res_bind (Inl e) f = Inl e"
| "res_bind (Inr a) f = f a"

text \<open>Sequencing: \<open>const a = await m; ... f(a)\<close>. A rejection skips the rest.\<close>

definition io_bind :: "('s, 'a) io \<Rightarrow> ('a \<Rightarrow> ('s, 'b) io) \<Rightarrow> ('s, 'b) io" where
  "io_bind m f = (\<lambda>s. case m s of (Inl e, t) \<Rightarrow> (Inl e, t) | (Inr a, t) \<Rightarrow> f a t)"

text \<open>\<open>try { m } catch (e) { h e }\<close>: effects of \<open>m\<close> before the throw stay.\<close>

definition io_catch :: "('s, 'a) io \<Rightarrow> (js_error \<Rightarrow> ('s, 'a) io) \<Rightarrow> ('s, 'a) io" where
  "io_catch m h = (\<lambda>s. case m s of (Inl e, t) \<Rightarrow> h e t | (Inr a, t) \<Rightarrow> (Inr a, t))"

text \<open>\<open>try { m } finally { f }\<close>: an error of the finaliser replaces the outcome.\<close>

definition io_finally :: "('s, 'a) io \<Rightarrow> ('s, unit) io \<Rightarrow> ('s, 'a) io" where
  "io_finally m f = (\<lambda>s. case m s of (r, t) \<Rightarrow>
     (case f t of (Inl e, u) \<Rightarrow> (Inl e, u) | (Inr _, u) \<Rightarrow> (r, u)))"

text \<open>
  \<open>Promise.all([m, n])\<close>: both computations run to their end, the first one first; the result
  is the pair of values or the first error.
\<close>

definition io_all2 :: "('s, 'a) io \<Rightarrow> ('s, 'b) io \<Rightarrow> ('s, 'a \<times> 'b) io" where
  "io_all2 m n = (\<lambda>s. case m s of (r, t) \<Rightarrow> (case n t of (q, u) \<Rightarrow>
     (case r of Inl e \<Rightarrow> Inl e | Inr a \<Rightarrow> (case q of Inl e \<Rightarrow> Inl e | Inr b \<Rightarrow> Inr (a, b)), u)))"

definition io_get :: "('s \<Rightarrow> 'a) \<Rightarrow> ('s, 'a) io" where
  "io_get g = (\<lambda>s. (Inr (g s), s))"

definition io_modify :: "('s \<Rightarrow> 's) \<Rightarrow> ('s, unit) io" where
  "io_modify g = (\<lambda>s. (Inr (), g s))"

lemma io_return_apply [simp, io_simps]: "io_return a s = (Inr a, s)"
  by (simp add: io_return_def)

lemma io_throw_apply [simp, io_simps]: "io_throw e s = (Inl e, s)"
  by (simp add: io_throw_def)

lemma io_get_apply [simp, io_simps]: "io_get g s = (Inr (g s), s)"
  by (simp add: io_get_def)

lemma io_modify_apply [simp, io_simps]: "io_modify g s = (Inr (), g s)"
  by (simp add: io_modify_def)

lemma io_bind_apply [io_simps]:
  "io_bind m f s = (case m s of (Inl e, t) \<Rightarrow> (Inl e, t) | (Inr a, t) \<Rightarrow> f a t)"
  by (simp add: io_bind_def)

lemma io_catch_apply [io_simps]:
  "io_catch m h s = (case m s of (Inl e, t) \<Rightarrow> h e t | (Inr a, t) \<Rightarrow> (Inr a, t))"
  by (simp add: io_catch_def)

lemma io_finally_apply [io_simps]:
  "io_finally m f s = (case m s of (r, t) \<Rightarrow>
     (case f t of (Inl e, u) \<Rightarrow> (Inl e, u) | (Inr _, u) \<Rightarrow> (r, u)))"
  by (simp add: io_finally_def)

text \<open>Synchronous code that may throw, inside an \<open>async\<close> function.\<close>

definition lift_result :: "js_error + 'a \<Rightarrow> ('s, 'a) io" where
  "lift_result r = (case r of Inl e \<Rightarrow> io_throw e | Inr a \<Rightarrow> io_return a)"

text \<open>The monad laws: \<open>await\<close> sequences can be regrouped.\<close>

lemma io_bind_return [simp]: "io_bind m io_return = m"
  by (rule ext) (simp add: io_bind_def split: prod.splits sum.splits)

lemma io_return_bind [simp]: "io_bind (io_return a) f = f a"
  by (rule ext) (simp add: io_bind_def)

lemma io_throw_bind [simp]: "io_bind (io_throw e) f = io_throw e"
  by (rule ext) (simp add: io_bind_def)

lemma io_bind_assoc: "io_bind (io_bind m f) g = io_bind m (\<lambda>a. io_bind (f a) g)"
  by (rule ext) (simp add: io_bind_def split: prod.splits sum.splits)

lemma io_bind_ok: "m s = (Inr a, t) \<Longrightarrow> io_bind m f s = f a t"
  by (simp add: io_bind_def)

lemma io_bind_err: "m s = (Inl e, t) \<Longrightarrow> io_bind m f s = (Inl e, t)"
  by (simp add: io_bind_def)

lemma io_catch_ok: "m s = (Inr a, t) \<Longrightarrow> io_catch m h s = (Inr a, t)"
  by (simp add: io_catch_def)

lemma io_catch_err: "m s = (Inl e, t) \<Longrightarrow> io_catch m h s = h e t"
  by (simp add: io_catch_def)

text \<open>
  A frame rule: a projection of the state that each part leaves alone is left alone by the
  composition.
\<close>

definition keeps :: "('s \<Rightarrow> 'p) \<Rightarrow> ('s, 'a) io \<Rightarrow> bool" where
  "keeps p m \<longleftrightarrow> (\<forall>s. p (snd (m s)) = p s)"

named_theorems keeps_intros \<open>frame rules of the computation constructs\<close>

lemma keepsI: "(\<And>s. p (snd (m s)) = p s) \<Longrightarrow> keeps p m"
  by (simp add: keeps_def)

lemma keepsD: "keeps p m \<Longrightarrow> m s = (r, t) \<Longrightarrow> p t = p s"
  by (metis keeps_def snd_conv)

lemma keeps_return [keeps_intros]: "keeps p (io_return a)"
  by (simp add: keeps_def)

lemma keeps_throw [keeps_intros]: "keeps p (io_throw e)"
  by (simp add: keeps_def)

lemma keeps_get [keeps_intros]: "keeps p (io_get g)"
  by (simp add: keeps_def)

lemma keeps_modify [keeps_intros]: "(\<And>s. p (g s) = p s) \<Longrightarrow> keeps p (io_modify g)"
  by (simp add: keeps_def)

lemma keeps_bind [keeps_intros]:
  "keeps p m \<Longrightarrow> (\<And>a. keeps p (f a)) \<Longrightarrow> keeps p (io_bind m f)"
  by (auto simp: keeps_def io_bind_def split: prod.splits sum.splits)
    (metis snd_conv)+

text \<open>The rest of a computation that has read the state, run on that state.\<close>

lemma keeps_get_bind: "(\<And>s. p (snd (f (g s) s)) = p s) \<Longrightarrow> keeps p (io_bind (io_get g) f)"
  by (simp add: keeps_def io_bind_def)

lemma keeps_applied: "keeps p m \<Longrightarrow> p (snd (m s)) = p s"
  by (simp add: keeps_def)

lemma keeps_catch [keeps_intros]:
  "keeps p m \<Longrightarrow> (\<And>e. keeps p (h e)) \<Longrightarrow> keeps p (io_catch m h)"
  by (auto simp: keeps_def io_catch_def split: prod.splits sum.splits)
    (metis snd_conv)+

lemma keeps_finally [keeps_intros]:
  "keeps p m \<Longrightarrow> keeps p f \<Longrightarrow> keeps p (io_finally m f)"
  by (auto simp: keeps_def io_finally_def case_prod_unfold split: sum.splits)

lemma keeps_all2 [keeps_intros]: "keeps p m \<Longrightarrow> keeps p n \<Longrightarrow> keeps p (io_all2 m n)"
  by (simp add: keeps_def io_all2_def case_prod_unfold)

lemma keeps_if [keeps_intros]:
  "(b \<Longrightarrow> keeps p m) \<Longrightarrow> (\<not> b \<Longrightarrow> keeps p n) \<Longrightarrow> keeps p (if b then m else n)"
  by simp

text \<open>A computation that cannot be rejected.\<close>

definition never_throws :: "('s, 'a) io \<Rightarrow> bool" where
  "never_throws m \<longleftrightarrow> (\<forall>s. \<exists>a t. m s = (Inr a, t))"

lemma never_throwsD: "never_throws m \<Longrightarrow> \<exists>a t. m s = (Inr a, t)"
  by (simp add: never_throws_def)

lemma never_throws_return [simp]: "never_throws (io_return a)"
  by (simp add: never_throws_def)

lemma never_throws_modify [simp]: "never_throws (io_modify g)"
  by (simp add: never_throws_def)

lemma never_throws_get [simp]: "never_throws (io_get g)"
  by (simp add: never_throws_def)

lemma never_throws_bind:
  "never_throws m \<Longrightarrow> (\<And>a. never_throws (f a)) \<Longrightarrow> never_throws (io_bind m f)"
  unfolding never_throws_def io_bind_def by (metis (no_types, lifting) case_prod_conv sum.simps(6))

lemma never_throws_catch: "(\<And>e. never_throws (h e)) \<Longrightarrow> never_throws (io_catch m h)"
  unfolding never_throws_def io_catch_def
  by (auto split: prod.splits sum.splits)

text \<open>
  Where an error comes from: \<open>errors_from f m\<close> says that a rejection of \<open>m\<close> is a rejection
  of its part \<open>f\<close>, with the state \<open>f\<close> left behind.
\<close>

definition errors_from :: "('s, 'b) io \<Rightarrow> ('s, 'a) io \<Rightarrow> bool" where
  "errors_from f m \<longleftrightarrow> (\<forall>s e t. m s = (Inl e, t) \<longrightarrow> (\<exists>s1. f s1 = (Inl e, t)))"

named_theorems errors_from_intros \<open>where errors of the computation constructs come from\<close>

lemma errors_from_self [errors_from_intros]: "errors_from f f"
  by (auto simp: errors_from_def)

lemma errors_from_never: "never_throws m \<Longrightarrow> errors_from f m"
  unfolding errors_from_def never_throws_def by (metis prod.inject sum.distinct(1))

lemma errors_from_return [errors_from_intros]: "errors_from f (io_return a)"
  by (simp add: errors_from_def)

lemma errors_from_bind [errors_from_intros]:
  "errors_from f m \<Longrightarrow> (\<And>a. errors_from f (g a)) \<Longrightarrow> errors_from f (io_bind m g)"
  unfolding errors_from_def
  by (auto simp: io_bind_apply split: prod.splits sum.splits)

lemma errors_from_if [errors_from_intros]:
  "errors_from f m \<Longrightarrow> errors_from f n \<Longrightarrow> errors_from f (if b then m else n)"
  by simp

text \<open>
  Weakest preconditions: \<open>wp m Q E s\<close> says that \<open>m\<close> started in \<open>s\<close> ends in a value and a
  state with \<open>Q\<close>, or in an error and a state with \<open>E\<close>. The equations compute it along the
  code; a primitive has a rule of its own in \<open>wp_intros\<close>.
\<close>

definition wp :: "('s, 'a) io \<Rightarrow> ('a \<Rightarrow> 's \<Rightarrow> bool) \<Rightarrow> (js_error \<Rightarrow> 's \<Rightarrow> bool) \<Rightarrow> 's \<Rightarrow> bool" where
  "wp m Q E s = (case m s of (Inl e, t) \<Rightarrow> E e t | (Inr a, t) \<Rightarrow> Q a t)"

named_theorems wp_simps \<open>weakest preconditions of the computation constructs\<close>
named_theorems wp_intros \<open>weakest precondition rules of the primitives\<close>

lemma wp_return [wp_simps]: "wp (io_return a) Q E = Q a"
  by (rule ext) (simp add: wp_def)

lemma wp_throw [wp_simps]: "wp (io_throw e) Q E = E e"
  by (rule ext) (simp add: wp_def)

lemma wp_get [wp_simps]: "wp (io_get g) Q E = (\<lambda>s. Q (g s) s)"
  by (rule ext) (simp add: wp_def)

lemma wp_modify [wp_simps]: "wp (io_modify g) Q E = (\<lambda>s. Q () (g s))"
  by (rule ext) (simp add: wp_def)

lemma wp_bind [wp_simps]: "wp (io_bind m f) Q E = wp m (\<lambda>a. wp (f a) Q E) E"
  by (rule ext) (simp add: wp_def io_bind_def split: prod.split sum.split)

lemma wp_catch [wp_simps]: "wp (io_catch m h) Q E = wp m Q (\<lambda>e. wp (h e) Q E)"
  by (rule ext) (simp add: wp_def io_catch_def split: prod.split sum.split)

lemma wp_finally [wp_simps]:
  "wp (io_finally m f) Q E = wp m (\<lambda>a. wp f (\<lambda>u. Q a) E) (\<lambda>e. wp f (\<lambda>u. E e) E)"
  by (rule ext) (simp add: wp_def io_finally_def split: prod.split sum.split)

lemma wp_all2 [wp_simps]:
  "wp (io_all2 m n) Q E = wp m (\<lambda>a. wp n (\<lambda>b. Q (a, b)) E) (\<lambda>e. wp n (\<lambda>b. E e) (\<lambda>e'. E e))"
  by (rule ext) (simp add: wp_def io_all2_def split: prod.split sum.split)

lemma wp_if [wp_simps]: "wp (if b then m else n) Q E = (if b then wp m Q E else wp n Q E)"
  by simp

lemma wp_lift_result: "wp (lift_result r) Q E = (\<lambda>s. case r of Inl e \<Rightarrow> E e s | Inr a \<Rightarrow> Q a s)"
  by (rule ext) (simp add: lift_result_def wp_simps split: sum.split)

lemma wp_mono:
  assumes "wp m Q E s" and "\<And>a t. Q a t \<Longrightarrow> Q' a t" and "\<And>e t. E e t \<Longrightarrow> E' e t"
  shows "wp m Q' E' s"
  using assms by (auto simp: wp_def split: prod.splits sum.splits)

lemma wpI: "(\<And>a t. m s = (Inr a, t) \<Longrightarrow> Q a t) \<Longrightarrow> (\<And>e t. m s = (Inl e, t) \<Longrightarrow> E e t) \<Longrightarrow> wp m Q E s"
  by (auto simp: wp_def split: prod.splits sum.splits)

lemma wp_ok: "wp m Q E s \<Longrightarrow> m s = (Inr a, t) \<Longrightarrow> Q a t"
  by (simp add: wp_def)

lemma wp_err: "wp m Q E s \<Longrightarrow> m s = (Inl e, t) \<Longrightarrow> E e t"
  by (simp add: wp_def)

lemma wp_outcome: "wp m Q E s \<Longrightarrow> m s = (out, t) \<Longrightarrow> (case out of Inl e \<Rightarrow> E e t | Inr a \<Rightarrow> Q a t)"
  by (auto simp: wp_def split: sum.split)

lemma keeps_wp: "keeps p m \<longleftrightarrow> (\<forall>s. wp m (\<lambda>a t. p t = p s) (\<lambda>e t. p t = p s) s)"
  by (simp add: keeps_def wp_def case_prod_unfold split: sum.split)

text \<open>A computation that cannot fail and leaves a projection alone.\<close>

lemma wp_never_keeps:
  assumes "never_throws m" and "keeps p m" and "\<And>a t. p t = p s \<Longrightarrow> Q a t"
  shows "wp m Q E s"
proof -
  obtain a t where "m s = (Inr a, t)" using never_throwsD[OF assms(1), of s] by blast
  with keepsD[OF assms(2) this] assms(3) show ?thesis by (simp add: wp_def)
qed

section \<open>Promises\<close>

text \<open>
  A promise handed out by a client library settles after some time with an error or a
  value. How long it takes and what it says is the library's business; the code only awaits
  it or races it against a timer.
\<close>

record 'a promise =
  settle_ms :: nat
  outcome :: "js_error + 'a"

text \<open>Lifts a service call that answers with a promise to a computation that awaits it.\<close>

definition await :: "('s \<Rightarrow> 'a promise \<times> 's) \<Rightarrow> ('s, 'a) io" where
  "await call = (\<lambda>s. case call s of (p, t) \<Rightarrow> (outcome p, t))"

lemma await_apply [io_simps]: "await call s = (outcome (fst (call s)), snd (call s))"
  by (simp add: await_def split: prod.splits)

section \<open>Lists, options and maps\<close>

text \<open>\<open>xs.join(sep)\<close>.\<close>

fun join :: "string \<Rightarrow> string list \<Rightarrow> string" where
  "join sep [] = []"
| "join sep [x] = x"
| "join sep (x # y # ys) = x @ sep @ join sep (y # ys)"

lemma append_sep_inj:
  assumes "x @ c # xs = y @ c # ys" and "c \<notin> set x" and "c \<notin> set y"
  shows "x = y \<and> xs = ys"
  using assms
proof (induction x arbitrary: y)
  case Nil
  then show ?case by (cases y) auto
next
  case (Cons a x)
  then show ?case by (cases y) auto
qed

lemma append_sep_iff:
  "c \<notin> set x \<Longrightarrow> c \<notin> set y \<Longrightarrow> x @ c # xs = y @ c # ys \<longleftrightarrow> x = y \<and> xs = ys"
  using append_sep_inj[of x c xs y ys] by blast

lemma join_Cons: "ys \<noteq> [] \<Longrightarrow> join sep (x # ys) = x @ sep @ join sep ys"
  by (cases ys) auto

lemma in_set_join_single:
  "c \<in> set (join [c] (x # y # ys))"
  by simp

lemma join_inj:
  assumes "join [c] xs = join [c] ys"
    and "\<forall>x\<in>set xs. c \<notin> set x" and "\<forall>y\<in>set ys. c \<notin> set y"
    and "xs \<noteq> []" and "ys \<noteq> []"
  shows "xs = ys"
  using assms
proof (induction xs arbitrary: ys)
  case Nil
  then show ?case by simp
next
  case (Cons x xs)
  from Cons.prems(5) obtain y ys' where ys: "ys = y # ys'" by (cases ys) auto
  show ?case
  proof (cases xs; cases ys')
    fix a as b bs assume xs: "xs = a # as" and ys': "ys' = b # bs"
    with Cons.prems ys have "x @ c # join [c] xs = y @ c # join [c] ys'" by simp
    with Cons.prems(2,3) ys have "x = y" and "join [c] xs = join [c] ys'"
      using append_sep_inj[of x c "join [c] xs" y "join [c] ys'"] by auto
    with Cons.IH[of ys'] Cons.prems(2,3) xs ys ys' show ?thesis by simp
  next
    assume "xs = []" and "ys' = []"
    with Cons.prems ys show ?thesis by simp
  next
    fix b bs assume "xs = []" and "ys' = b # bs"
    with Cons.prems ys show ?thesis by auto
  next
    fix a as assume "xs = a # as" and "ys' = []"
    with Cons.prems ys show ?thesis by auto
  qed
qed

lemma in_set_insort_map: "x \<in> set (sort xs) \<longleftrightarrow> x \<in> set xs"
  by simp

end
