(* ===== verification/Js_Text.thy ===== *)
theory Js_Text
  imports Ts_Prelude
begin

text \<open>
  The operations of the JavaScript standard library on strings and numbers that the code
  uses: \<open>trim\<close>, \<open>toLowerCase\<close>, \<open>startsWith\<close>, \<open>slice\<close>, \<open>split\<close>, \<open>Number.parseInt\<close>,
  \<open>String\<close> and \<open>encodeURIComponent\<close>. A JavaScript string is a sequence of UTF-16 code
  units; here it is a \<open>string\<close>, so the model covers the texts whose code units are below
  256 (Latin-1), and every function is defined on all of them. Numbers are unbounded
  integers: the code computes on counters, sizes and cents far below 2^53, where doubles
  are exact.
\<close>

section \<open>White space, case, prefixes\<close>

text \<open>The white space and line terminators of ECMAScript below U+0100.\<close>

definition is_js_space :: "char \<Rightarrow> bool" where
  "is_js_space c = ((of_char c :: nat) \<in> {9, 10, 11, 12, 13, 32, 160})"

definition js_trim :: "string \<Rightarrow> string" where
  "js_trim s = rev (dropWhile is_js_space (rev (dropWhile is_js_space s)))"

text \<open>\<open>toLowerCase\<close> on Latin-1: A-Z, and U+00C0 to U+00DE except the multiplication sign.\<close>

definition lower_char :: "char \<Rightarrow> char" where
  "lower_char c = (let n = (of_char c :: nat) in
     if (65 \<le> n \<and> n \<le> 90) \<or> (192 \<le> n \<and> n \<le> 222 \<and> n \<noteq> 215) then char_of (n + 32) else c)"

definition js_lower :: "string \<Rightarrow> string" where
  "js_lower s = map lower_char s"

fun starts_with :: "string \<Rightarrow> string \<Rightarrow> bool" where
  "starts_with s [] = True"
| "starts_with [] (p # ps) = False"
| "starts_with (c # s) (p # ps) = (c = p \<and> starts_with s ps)"

lemma starts_with_iff: "starts_with s p \<longleftrightarrow> (\<exists>rest. s = p @ rest)"
  by (induction s p rule: starts_with.induct) auto

text \<open>\<open>s.split(c)\<close> for a one-character separator: never the empty list.\<close>

fun js_split :: "char \<Rightarrow> string \<Rightarrow> string list" where
  "js_split c [] = [[]]"
| "js_split c (x # xs) =
     (if x = c then [] # js_split c xs
      else (case js_split c xs of [] \<Rightarrow> [[x]] | y # ys \<Rightarrow> (x # y) # ys))"

lemma js_split_nonempty [simp]: "js_split c s \<noteq> []"
  by (induction c s rule: js_split.induct) (auto split: list.splits)

lemma join_js_split: "join [c] (js_split c s) = s"
proof (induction c s rule: js_split.induct)
  case (2 c x xs)
  then show ?case
    by (cases "js_split c xs" rule: list.exhaust; cases "tl (js_split c xs)")
      (auto simp: join_Cons)
qed simp

lemma js_split_no_sep: "\<forall>p\<in>set (js_split c s). c \<notin> set p"
  by (induction c s rule: js_split.induct) (auto split: list.splits)

lemma js_split_idle: "c \<notin> set s \<Longrightarrow> js_split c s = [s]"
  by (induction c s rule: js_split.induct) auto

lemma lower_char_idem: "lower_char (lower_char c) = lower_char c"
proof -
  have "(of_char c :: nat) < 256" by simp
  then show ?thesis by (auto simp: lower_char_def Let_def of_char_of)
qed

lemma js_lower_idem [simp]: "js_lower (js_lower s) = js_lower s"
  by (simp add: js_lower_def lower_char_idem)

lemma js_lower_length [simp]: "length (js_lower s) = length s"
  by (simp add: js_lower_def)

lemma hd_dropWhile_space: "dropWhile P xs \<noteq> [] \<Longrightarrow> \<not> P (hd (dropWhile P xs))"
  by (rule hd_dropWhile)

section \<open>Decimal numbers\<close>

definition digit_char :: "nat \<Rightarrow> char" where
  "digit_char d = char_of (48 + d)"

definition is_digit :: "char \<Rightarrow> bool" where
  "is_digit c = (48 \<le> (of_char c :: nat) \<and> (of_char c :: nat) \<le> 57)"

definition digit_val :: "char \<Rightarrow> nat" where
  "digit_val c = of_char c - 48"

fun nat_to_string :: "nat \<Rightarrow> string" where
  "nat_to_string n =
     (if n < 10 then [digit_char n] else nat_to_string (n div 10) @ [digit_char (n mod 10)])"

declare nat_to_string.simps [simp del]

text \<open>\<open>String(n)\<close> for an integer (below 10^21, where JavaScript switches to exponents).\<close>

definition int_to_string :: "int \<Rightarrow> string" where
  "int_to_string n =
     (if n < 0 then CHR ''-'' # nat_to_string (nat (- n)) else nat_to_string (nat n))"

definition digits_val :: "string \<Rightarrow> nat" where
  "digits_val ds = foldl (\<lambda>v c. 10 * v + digit_val c) 0 ds"

text \<open>
  \<open>Number.parseInt(s, 10)\<close>: leading white space and one sign are skipped, the longest run
  of digits is read, whatever follows is ignored; no digit gives \<open>NaN\<close>, here \<open>None\<close>.
\<close>

definition parse_digits :: "string \<Rightarrow> int option" where
  "parse_digits s =
     (let ds = takeWhile is_digit s in if ds = [] then None else Some (int (digits_val ds)))"

definition parseInt :: "string \<Rightarrow> int option" where
  "parseInt s =
     (case dropWhile is_js_space s of
        [] \<Rightarrow> None
      | c # cs \<Rightarrow>
          if c = CHR ''-'' then map_option uminus (parse_digits cs)
          else if c = CHR ''+'' then parse_digits cs
          else parse_digits (c # cs))"

lemma of_char_digit_char: "d < 10 \<Longrightarrow> (of_char (digit_char d) :: nat) = 48 + d"
  by (simp add: digit_char_def of_char_of)

lemma is_digit_digit_char [simp]: "d < 10 \<Longrightarrow> is_digit (digit_char d)"
  by (simp add: is_digit_def of_char_digit_char)

lemma digit_val_digit_char [simp]: "d < 10 \<Longrightarrow> digit_val (digit_char d) = d"
  by (simp add: digit_val_def of_char_digit_char)

lemma is_digit_not_space: "is_digit c \<Longrightarrow> \<not> is_js_space c"
  by (auto simp: is_digit_def is_js_space_def)

lemma is_digit_not_sign: "is_digit c \<Longrightarrow> c \<noteq> CHR ''-'' \<and> c \<noteq> CHR ''+''"
  by (auto simp: is_digit_def)

lemma digits_val_snoc: "digits_val (ds @ [c]) = 10 * digits_val ds + digit_val c"
  by (simp add: digits_val_def)

lemma nat_to_string_digits: "\<forall>c\<in>set (nat_to_string n). is_digit c"
proof (induction n rule: nat_to_string.induct)
  case (1 n)
  then show ?case by (subst nat_to_string.simps) auto
qed

lemma nat_to_string_nonempty [simp]: "nat_to_string n \<noteq> []"
  by (subst nat_to_string.simps) simp

lemma digits_val_nat_to_string [simp]: "digits_val (nat_to_string n) = n"
proof (induction n rule: nat_to_string.induct)
  case (1 n)
  show ?case
  proof (cases "n < 10")
    case True
    then show ?thesis by (subst nat_to_string.simps) (simp add: digits_val_def)
  next
    case False
    with 1 show ?thesis by (subst nat_to_string.simps) (simp add: digits_val_snoc)
  qed
qed

lemma takeWhile_nat_to_string: "takeWhile is_digit (nat_to_string n) = nat_to_string n"
  using nat_to_string_digits[of n] by (simp add: takeWhile_eq_all_conv)

lemma nat_to_string_Cons: "\<exists>c cs. nat_to_string n = c # cs \<and> is_digit c"
  by (cases "nat_to_string n") (use nat_to_string_digits[of n] in auto)

lemma parse_digits_nat_to_string: "parse_digits (nat_to_string n) = Some (int n)"
  by (simp add: parse_digits_def takeWhile_nat_to_string)

text \<open>Printing and reading back: what the version counters and cached counts rely on.\<close>

lemma parseInt_int_to_string [simp]: "parseInt (int_to_string n) = Some n"
proof (cases "n < 0")
  case True
  then show ?thesis
    by (simp add: int_to_string_def parseInt_def is_js_space_def parse_digits_nat_to_string)
next
  case False
  obtain c cs where c: "nat_to_string (nat n) = c # cs" "is_digit c"
    using nat_to_string_Cons by blast
  have "parse_digits (c # cs) = Some n"
    using parse_digits_nat_to_string[of "nat n"] c False by simp
  with False c show ?thesis
    by (simp add: int_to_string_def parseInt_def is_digit_not_space is_digit_not_sign)
qed

lemma int_to_string_inj: "int_to_string m = int_to_string n \<Longrightarrow> m = n"
  by (metis option.inject parseInt_int_to_string)

lemma int_to_string_eq [simp]: "int_to_string m = int_to_string n \<longleftrightarrow> m = n"
  using int_to_string_inj by blast

lemma int_to_string_nonempty [simp]: "int_to_string n \<noteq> []"
  by (simp add: int_to_string_def)

lemma int_to_string_chars:
  "c \<in> set (int_to_string n) \<Longrightarrow> is_digit c \<or> c = CHR ''-''"
  by (auto simp: int_to_string_def nat_to_string_digits split: if_splits)

lemma parseInt_empty: "parseInt [] = None"
  by (simp add: parseInt_def)

end
