(* ===== verification/Shared_Lib.thy ===== *)
theory Shared_Lib
  imports Js_Text
begin

text \<open>
  \<open>packages/shared/src/index.ts\<close>: the order statuses and their state machine, the data
  types two services exchange, the service names, and the readers of environment variables
  every service configures itself with. The environment is a map from names to values.
\<close>

section \<open>Order statuses\<close>

datatype order_status = Pending | Confirmed | Shipped | Delivered | Cancelled

definition orderStatuses :: "order_status list" where
  "orderStatuses = [Pending, Confirmed, Shipped, Delivered, Cancelled]"

fun status_name :: "order_status \<Rightarrow> string" where
  "status_name Pending = ''pending''"
| "status_name Confirmed = ''confirmed''"
| "status_name Shipped = ''shipped''"
| "status_name Delivered = ''delivered''"
| "status_name Cancelled = ''cancelled''"

fun orderStatusTransitions :: "order_status \<Rightarrow> order_status list" where
  "orderStatusTransitions Pending = [Confirmed, Cancelled]"
| "orderStatusTransitions Confirmed = [Shipped, Cancelled]"
| "orderStatusTransitions Shipped = [Delivered]"
| "orderStatusTransitions Delivered = []"
| "orderStatusTransitions Cancelled = []"

definition isAllowedOrderStatusTransition :: "order_status \<Rightarrow> order_status \<Rightarrow> bool" where
  "isAllowedOrderStatusTransition frm to =
     (if frm = to then True else to \<in> set (orderStatusTransitions frm))"

text \<open>\<open>z.enum(orderStatuses)\<close>: a text is a status exactly when it is one of the names.\<close>

definition parse_status :: "string \<Rightarrow> order_status option" where
  "parse_status s = find (\<lambda>st. status_name st = s) orderStatuses"

instantiation order_status :: linorder
begin

fun status_rank :: "order_status \<Rightarrow> nat" where
  "status_rank Pending = 0"
| "status_rank Confirmed = 1"
| "status_rank Shipped = 2"
| "status_rank Delivered = 3"
| "status_rank Cancelled = 4"

definition less_eq_order_status :: "order_status \<Rightarrow> order_status \<Rightarrow> bool" where
  "less_eq_order_status a b = (status_rank a \<le> status_rank b)"

definition less_order_status :: "order_status \<Rightarrow> order_status \<Rightarrow> bool" where
  "less_order_status a b = (status_rank a < status_rank b)"

instance
proof
  fix a b c :: order_status
  show "(a < b) = (a \<le> b \<and> \<not> b \<le> a)"
    by (auto simp: less_eq_order_status_def less_order_status_def)
  show "a \<le> a" by (simp add: less_eq_order_status_def)
  show "a \<le> b \<Longrightarrow> b \<le> c \<Longrightarrow> a \<le> c" by (simp add: less_eq_order_status_def)
  show "a \<le> b \<Longrightarrow> b \<le> a \<Longrightarrow> a = b"
    by (cases a; cases b) (simp_all add: less_eq_order_status_def)
  show "a \<le> b \<or> b \<le> a" by (auto simp: less_eq_order_status_def)
qed

end

lemma set_orderStatuses: "set orderStatuses = UNIV"
proof -
  have "s \<in> set orderStatuses" for s by (cases s) (simp_all add: orderStatuses_def)
  then show ?thesis by auto
qed

lemma parse_status_name [simp]: "parse_status (status_name s) = Some s"
  by (cases s) (simp_all add: parse_status_def orderStatuses_def)

lemma parse_status_SomeD: "parse_status t = Some s \<Longrightarrow> t = status_name s"
  by (auto simp: parse_status_def find_Some_iff)

lemma status_name_inj: "status_name a = status_name b \<longleftrightarrow> a = b"
  by (metis option.inject parse_status_name)

text \<open>A change along the table, as a step relation; a terminal status has no step.\<close>

inductive status_step :: "order_status \<Rightarrow> order_status \<Rightarrow> bool" where
  status_step: "to \<in> set (orderStatusTransitions frm) \<Longrightarrow> status_step frm to"

inductive_simps status_step_simps: "status_step frm to"
inductive_cases status_step_from_Delivered: "status_step Delivered to"
inductive_cases status_step_from_Cancelled: "status_step Cancelled to"

lemma allowed_iff_step: "isAllowedOrderStatusTransition a b \<longleftrightarrow> a = b \<or> status_step a b"
  by (auto simp: isAllowedOrderStatusTransition_def status_step_simps)

lemma status_step_increases: "status_step a b \<Longrightarrow> a < b"
  by (cases a; cases b) (simp_all add: status_step_simps less_order_status_def)

lemma status_steps_increase: "status_step\<^sup>*\<^sup>* a b \<Longrightarrow> a \<le> b"
  by (induction rule: rtranclp_induct) (auto dest: status_step_increases)

lemma status_steps_from_terminal:
  assumes "orderStatusTransitions a = []" and "status_step\<^sup>*\<^sup>* a b"
  shows "b = a"
  using assms(2,1)
proof (induction rule: converse_rtranclp_induct)
  case (step y z)
  then show ?case by (simp add: status_step_simps)
qed simp

section \<open>Data the services exchange\<close>

record order_item =
  sku :: string
  quantity :: int
  unitPriceCents :: int

text \<open>\<open>eventType\<close> is the literal \<open>order.created\<close> for every event of this type.\<close>

record order_created_event =
  eventId :: string
  orderId :: string
  occurredAt :: string
  correlationId :: "string option"

definition service_api :: string where "service_api = ''api-service''"
definition service_outbox :: string where "service_outbox = ''outbox-publisher''"
definition service_worker :: string where "service_worker = ''worker-service''"

section \<open>Environment variables\<close>

type_synonym environment = "string \<Rightarrow> string option"

text \<open>\<open>!value || value.trim() === ""\<close>: unset, empty and blank count alike.\<close>

definition env_blank :: "string option \<Rightarrow> bool" where
  "env_blank v = (case v of None \<Rightarrow> True | Some s \<Rightarrow> s = [] \<or> js_trim s = [])"

definition requiredEnv :: "environment \<Rightarrow> string \<Rightarrow> js_error + string" where
  "requiredEnv env name =
     (if env_blank (env name)
      then Inl (JsError (''Missing required environment variable: '' @ name) None)
      else Inr (the (env name)))"

definition optionalIntEnv :: "environment \<Rightarrow> string \<Rightarrow> int \<Rightarrow> js_error + int" where
  "optionalIntEnv env name defaultValue =
     (if env_blank (env name) then Inr defaultValue
      else (case parseInt (the (env name)) of
          None \<Rightarrow> Inl (JsError (''Invalid integer environment variable: '' @ name) None)
        | Some parsed \<Rightarrow> Inr parsed))"

definition optionalBoolEnv :: "environment \<Rightarrow> string \<Rightarrow> bool \<Rightarrow> bool" where
  "optionalBoolEnv env name defaultValue =
     (if env_blank (env name) then defaultValue else js_lower (the (env name)) = ''true'')"

lemma dropWhile_space_int: "dropWhile is_js_space (int_to_string n) = int_to_string n"
proof -
  obtain c cs where c: "int_to_string n = c # cs" by (cases "int_to_string n") auto
  then have "is_digit c \<or> c = CHR ''-''" using int_to_string_chars[of c n] by simp
  then have "\<not> is_js_space c" using is_digit_not_space by (auto simp: is_js_space_def)
  with c show ?thesis by simp
qed

lemma js_trim_all_space: "js_trim s = [] \<longleftrightarrow> (\<forall>c\<in>set s. is_js_space c)"
proof -
  have "js_trim s = [] \<longleftrightarrow> (\<forall>c\<in>set (dropWhile is_js_space s). is_js_space c)"
    by (simp add: js_trim_def dropWhile_eq_Nil_conv)
  also have "\<dots> \<longleftrightarrow> dropWhile is_js_space s = []"
    by (metis empty_iff empty_set hd_dropWhile hd_in_set)
  finally show ?thesis by (simp add: dropWhile_eq_Nil_conv)
qed

lemma int_to_string_not_blank [simp]: "\<not> env_blank (Some (int_to_string n))"
  by (cases "int_to_string n")
    (use int_to_string_chars[of _ n] is_digit_not_space in
      \<open>force simp: env_blank_def js_trim_all_space is_js_space_def\<close>)+

lemma optionalIntEnv_printed:
  "env name = Some (int_to_string n) \<Longrightarrow> optionalIntEnv env name d = Inr n"
  by (simp add: optionalIntEnv_def)

lemma optionalIntEnv_unset: "env name = None \<Longrightarrow> optionalIntEnv env name d = Inr d"
  by (simp add: optionalIntEnv_def env_blank_def)

end
