(* ===== verification/Pagination.thy ===== *)
theory Pagination
  imports Shared_Lib
begin

text \<open>
  \<open>packages/api-service/src/utils/pagination.ts\<close>: the page fields of a list query, the
  offset of a page and the metadata of a list response. \<open>Math.ceil(total / pageSize)\<close> is
  the integer ceiling: counts are far below 2^53.
\<close>

record pagination_params =
  page :: int
  pageSize :: int

record pagination_meta =
  meta_page :: int
  meta_pageSize :: int
  meta_total :: int
  meta_totalPages :: int
  meta_hasNext :: bool
  meta_hasPrev :: bool

text \<open>
  \<open>paginationQueryFields\<close>: an absent field takes its default; a present one has been coerced
  to a number by the schema library (\<open>None\<close> when it is not an integer) and must be in range.
\<close>

definition page_field :: "int option option \<Rightarrow> int option" where
  "page_field raw = (case raw of
     None \<Rightarrow> Some 1
   | Some None \<Rightarrow> None
   | Some (Some n) \<Rightarrow> if 1 \<le> n then Some n else None)"

definition pageSize_field :: "int option option \<Rightarrow> int option" where
  "pageSize_field raw = (case raw of
     None \<Rightarrow> Some 20
   | Some None \<Rightarrow> None
   | Some (Some n) \<Rightarrow> if 1 \<le> n \<and> n \<le> 100 then Some n else None)"

definition paginationOffset :: "pagination_params \<Rightarrow> int" where
  "paginationOffset params = (page params - 1) * pageSize params"

definition math_ceil_div :: "int \<Rightarrow> int \<Rightarrow> int" where
  "math_ceil_div a b = - ((- a) div b)"

definition buildPaginationMeta :: "int \<Rightarrow> pagination_params \<Rightarrow> pagination_meta" where
  "buildPaginationMeta rows_total params =
     (let totalPages = (if rows_total = 0 then 0 else math_ceil_div rows_total (pageSize params))
      in \<lparr> meta_page = page params,
           meta_pageSize = pageSize params,
           meta_total = rows_total,
           meta_totalPages = totalPages,
           meta_hasNext = (page params < totalPages),
           meta_hasPrev = (page params > 1) \<rparr>)"

text \<open>\<open>ORDER BY ... LIMIT pageSize OFFSET offset\<close> on the ordered rows.\<close>

definition page_rows :: "'a list \<Rightarrow> pagination_params \<Rightarrow> 'a list" where
  "page_rows rows params = take (nat (pageSize params)) (drop (nat (paginationOffset params)) rows)"

definition params_ok :: "pagination_params \<Rightarrow> bool" where
  "params_ok params = (1 \<le> page params \<and> 1 \<le> pageSize params \<and> pageSize params \<le> 100)"

lemma fields_give_params_ok:
  "page_field p = Some a \<Longrightarrow> pageSize_field s = Some b \<Longrightarrow> params_ok \<lparr>page = a, pageSize = b\<rparr>"
  by (auto simp: page_field_def pageSize_field_def params_ok_def split: option.splits if_splits)

lemma math_ceil_div_bounds:
  assumes "0 < b"
  shows "(math_ceil_div a b - 1) * b < a" and "a \<le> math_ceil_div a b * b"
proof -
  have "- a = ((- a) div b) * b + (- a) mod b" by simp
  moreover have "0 \<le> (- a) mod b" "(- a) mod b < b" using assms by simp_all
  ultimately have "((- a) div b) * b \<le> - a" "- a < ((- a) div b) * b + b" by linarith+
  then show "(math_ceil_div a b - 1) * b < a" "a \<le> math_ceil_div a b * b"
    by (simp_all add: math_ceil_div_def algebra_simps)
qed

lemma less_ceil_iff:
  assumes "0 < (b :: int)"
  shows "p < math_ceil_div a b \<longleftrightarrow> p * b < a"
proof
  assume "p < math_ceil_div a b"
  then have "p * b \<le> (math_ceil_div a b - 1) * b" using assms by (simp add: mult_right_mono)
  with math_ceil_div_bounds(1)[OF assms, of a] show "p * b < a" by linarith
next
  assume "p * b < a"
  with math_ceil_div_bounds(2)[OF assms, of a] have "p * b < math_ceil_div a b * b" by linarith
  with assms show "p < math_ceil_div a b" by simp
qed

lemma ceil_zero: "math_ceil_div 0 b = 0"
  by (simp add: math_ceil_div_def)

lemma totalPages_eq:
  "meta_totalPages (buildPaginationMeta rows_total params) = math_ceil_div rows_total (pageSize params)"
  by (simp add: buildPaginationMeta_def Let_def ceil_zero)

lemma hasNext_iff:
  "0 < pageSize params \<Longrightarrow>
   meta_hasNext (buildPaginationMeta rows_total params) \<longleftrightarrow> page params * pageSize params < rows_total"
  by (simp add: buildPaginationMeta_def Let_def less_ceil_iff mult_less_0_iff)

lemma offset_next:
  "paginationOffset params + pageSize params = page params * pageSize params"
  by (simp add: paginationOffset_def algebra_simps)

lemma offset_nonneg: "params_ok params \<Longrightarrow> 0 \<le> paginationOffset params"
  by (simp add: paginationOffset_def params_ok_def)

text \<open>The first \<open>k\<close> pages are the first \<open>k * pageSize\<close> rows.\<close>

lemma pages_prefix:
  assumes "1 \<le> ps"
  shows "concat (map (\<lambda>i. page_rows rows \<lparr>page = int i + 1, pageSize = ps\<rparr>) [0..<k])
    = take (k * nat ps) rows"
proof (induction k)
  case (Suc k)
  have "nat (paginationOffset \<lparr>page = int k + 1, pageSize = ps\<rparr>) = k * nat ps"
    using assms by (simp add: paginationOffset_def nat_mult_distrib)
  then have "page_rows rows \<lparr>page = int k + 1, pageSize = ps\<rparr> = take (nat ps) (drop (k * nat ps) rows)"
    by (simp add: page_rows_def)
  moreover have "take (Suc k * nat ps) rows = take (k * nat ps) rows @ take (nat ps) (drop (k * nat ps) rows)"
    by (metis add.commute mult_Suc take_add)
  ultimately show ?case using Suc by simp
qed simp

lemma page_rows_nonempty:
  assumes "1 \<le> ps" and "1 \<le> p"
  shows "page_rows rows \<lparr>page = p, pageSize = ps\<rparr> \<noteq> [] \<longleftrightarrow> (p - 1) * ps < int (length rows)"
proof -
  have "0 \<le> (p - 1) * ps" using assms by simp
  then have "length rows \<le> nat ((p - 1) * ps) \<longleftrightarrow> int (length rows) \<le> (p - 1) * ps" by linarith
  then show ?thesis using assms by (simp add: page_rows_def paginationOffset_def not_le)
qed

text \<open>C16: Paging through a list shows every row once and in order: the pages 1 to \<open>totalPages\<close> of the
  rows, one after the other, are the rows; \<open>hasNext\<close> of a page says that the next page has a row.\<close>

theorem pages_cover_rows:
  assumes "1 \<le> ps"
  shows "concat (map (\<lambda>i. page_rows rows \<lparr>page = int i + 1, pageSize = ps\<rparr>)
      [0..<nat (meta_totalPages (buildPaginationMeta (int (length rows)) \<lparr>page = p, pageSize = ps\<rparr>))]) = rows \<and>
    (\<forall>q\<ge>1. meta_hasNext (buildPaginationMeta (int (length rows)) \<lparr>page = q, pageSize = ps\<rparr>) \<longleftrightarrow>
      page_rows rows \<lparr>page = q + 1, pageSize = ps\<rparr> \<noteq> [])"
proof (intro conjI allI impI)
  let ?t = "math_ceil_div (int (length rows)) ps"
  have le: "int (length rows) \<le> ?t * ps" using math_ceil_div_bounds(2)[of ps] assms by simp
  then have "0 \<le> ?t * ps" by linarith
  with assms have "0 \<le> ?t" by (simp add: zero_le_mult_iff)
  with assms have "int (nat ?t * nat ps) = ?t * ps" by simp
  with le have "length rows \<le> nat ?t * nat ps" by linarith
  then show "concat (map (\<lambda>i. page_rows rows \<lparr>page = int i + 1, pageSize = ps\<rparr>)
      [0..<nat (meta_totalPages (buildPaginationMeta (int (length rows)) \<lparr>page = p, pageSize = ps\<rparr>))]) = rows"
    by (simp add: pages_prefix[OF assms] totalPages_eq)
next
  fix q :: int assume "1 \<le> q"
  then show "meta_hasNext (buildPaginationMeta (int (length rows)) \<lparr>page = q, pageSize = ps\<rparr>) \<longleftrightarrow>
      page_rows rows \<lparr>page = q + 1, pageSize = ps\<rparr> \<noteq> []"
    using assms page_rows_nonempty[OF assms, of "q + 1" rows] by (simp add: hasNext_iff)
qed

theorem pages_cover_rows_witness:
  "concat (map (\<lambda>i. page_rows [1, 2, 3 :: int] \<lparr>page = int i + 1, pageSize = 2\<rparr>)
      [0..<nat (meta_totalPages (buildPaginationMeta 3 \<lparr>page = 1, pageSize = 2\<rparr>))]) = [1, 2, 3]"
  using pages_cover_rows[of 2 "[1, 2, 3 :: int]" 1] by simp

end
