(* ===== verification/Api_Config.thy ===== *)
theory Api_Config
  imports Shared_Lib
begin

text \<open>
  \<open>packages/api-service/src/config.ts\<close>: the configuration record and \<open>loadConfig\<close>, which
  reads the environment in the order of the source and throws at the first variable that is
  missing or not a number.
\<close>

record api_config =
  port :: int
  databaseUrl :: string
  redisUrl :: string
  jwtAccessSecret :: string
  jwtRefreshSecret :: string
  accessTokenTtlSeconds :: int
  refreshTokenTtlSeconds :: int
  cacheEnabled :: bool
  cacheTtlSeconds :: int
  cacheTimeoutMs :: int
  cacheListCountTtlSeconds :: int
  rateLimitRequests :: int
  rateLimitWindowSeconds :: int
  failedLoginIpLimit :: int
  failedLoginIpWindowSeconds :: int
  failedLoginAccountLimit :: int
  failedLoginAccountWindowSeconds :: int
  accountLockSeconds :: int
  shutdownDrainMs :: int
  allowLoadTestClientIdentity :: bool
  loadTestClientIdHeader :: string
  corsAllowedOrigins :: "string list"
  dbPoolMax :: int
  dbStatementTimeoutMs :: int
  dbIdleInTransactionTimeoutMs :: int
  dbConnectionTimeoutMs :: int

text \<open>\<open>process.env[name] ?? d\<close>.\<close>

definition env_or :: "environment \<Rightarrow> string \<Rightarrow> string \<Rightarrow> string" where
  "env_or env name d = (case env name of None \<Rightarrow> d | Some v \<Rightarrow> v)"

definition parse_origins :: "string \<Rightarrow> string list" where
  "parse_origins s = filter (\<lambda>origin. origin \<noteq> []) (map js_trim (js_split CHR '','' s))"

definition loadConfig :: "environment \<Rightarrow> js_error + api_config" where
  "loadConfig env =
     res_bind (optionalIntEnv env ''API_PORT'' 3000) (\<lambda>a_port.
     res_bind (requiredEnv env ''DATABASE_URL'') (\<lambda>a_db.
     res_bind (requiredEnv env ''REDIS_URL'') (\<lambda>a_redis.
     res_bind (requiredEnv env ''JWT_ACCESS_SECRET'') (\<lambda>a_access.
     res_bind (requiredEnv env ''JWT_REFRESH_SECRET'') (\<lambda>a_refresh.
     res_bind (optionalIntEnv env ''ACCESS_TOKEN_TTL_SECONDS'' 900) (\<lambda>a_attl.
     res_bind (optionalIntEnv env ''REFRESH_TOKEN_TTL_SECONDS'' 604800) (\<lambda>a_rttl.
     res_bind (optionalIntEnv env ''CACHE_TTL_SECONDS'' 60) (\<lambda>a_cttl.
     res_bind (optionalIntEnv env ''CACHE_TIMEOUT_MS'' 200) (\<lambda>a_cto.
     res_bind (optionalIntEnv env ''CACHE_LIST_COUNT_TTL_SECONDS'' 300) (\<lambda>a_cnt.
     res_bind (optionalIntEnv env ''RATE_LIMIT_REQUESTS'' 100) (\<lambda>a_rl.
     res_bind (optionalIntEnv env ''RATE_LIMIT_WINDOW_SECONDS'' 60) (\<lambda>a_rlw.
     res_bind (optionalIntEnv env ''AUTH_FAILED_LOGIN_IP_LIMIT'' 10) (\<lambda>a_ipl.
     res_bind (optionalIntEnv env ''AUTH_FAILED_LOGIN_IP_WINDOW_SECONDS'' 60) (\<lambda>a_ipw.
     res_bind (optionalIntEnv env ''AUTH_FAILED_LOGIN_ACCOUNT_LIMIT'' 5) (\<lambda>a_acl.
     res_bind (optionalIntEnv env ''AUTH_FAILED_LOGIN_ACCOUNT_WINDOW_SECONDS'' 900) (\<lambda>a_acw.
     res_bind (optionalIntEnv env ''AUTH_ACCOUNT_LOCK_SECONDS'' 900) (\<lambda>a_lock.
     res_bind (optionalIntEnv env ''SHUTDOWN_DRAIN_MS'' 30000) (\<lambda>a_drain.
     res_bind (optionalIntEnv env ''DB_POOL_MAX'' 20) (\<lambda>a_pool.
     res_bind (optionalIntEnv env ''DB_STATEMENT_TIMEOUT_MS'' 5000) (\<lambda>a_stmt.
     res_bind (optionalIntEnv env ''DB_IDLE_IN_TRANSACTION_TIMEOUT_MS'' 10000) (\<lambda>a_idle.
     res_bind (optionalIntEnv env ''DB_CONNECTION_TIMEOUT_MS'' 5000) (\<lambda>a_conn.
     Inr \<lparr>
       port = a_port,
       databaseUrl = a_db,
       redisUrl = a_redis,
       jwtAccessSecret = a_access,
       jwtRefreshSecret = a_refresh,
       accessTokenTtlSeconds = a_attl,
       refreshTokenTtlSeconds = a_rttl,
       cacheEnabled = optionalBoolEnv env ''CACHE_ENABLED'' True,
       cacheTtlSeconds = a_cttl,
       cacheTimeoutMs = a_cto,
       cacheListCountTtlSeconds = a_cnt,
       rateLimitRequests = a_rl,
       rateLimitWindowSeconds = a_rlw,
       failedLoginIpLimit = a_ipl,
       failedLoginIpWindowSeconds = a_ipw,
       failedLoginAccountLimit = a_acl,
       failedLoginAccountWindowSeconds = a_acw,
       accountLockSeconds = a_lock,
       shutdownDrainMs = a_drain,
       allowLoadTestClientIdentity = optionalBoolEnv env ''ALLOW_LOAD_TEST_CLIENT_IDENTITY'' True,
       loadTestClientIdHeader = js_lower (env_or env ''LOAD_TEST_CLIENT_ID_HEADER'' ''x-load-test-client-id''),
       corsAllowedOrigins = parse_origins (env_or env ''CORS_ALLOWED_ORIGINS'' []),
       dbPoolMax = a_pool,
       dbStatementTimeoutMs = a_stmt,
       dbIdleInTransactionTimeoutMs = a_idle,
       dbConnectionTimeoutMs = a_conn
     \<rparr>))))))))))))))))))))))"

definition required_names :: "string list" where
  "required_names = [''DATABASE_URL'', ''REDIS_URL'', ''JWT_ACCESS_SECRET'', ''JWT_REFRESH_SECRET'']"

definition int_names :: "string list" where
  "int_names =
     [''API_PORT'', ''ACCESS_TOKEN_TTL_SECONDS'', ''REFRESH_TOKEN_TTL_SECONDS'', ''CACHE_TTL_SECONDS'',
      ''CACHE_TIMEOUT_MS'', ''CACHE_LIST_COUNT_TTL_SECONDS'', ''RATE_LIMIT_REQUESTS'',
      ''RATE_LIMIT_WINDOW_SECONDS'', ''AUTH_FAILED_LOGIN_IP_LIMIT'',
      ''AUTH_FAILED_LOGIN_IP_WINDOW_SECONDS'', ''AUTH_FAILED_LOGIN_ACCOUNT_LIMIT'',
      ''AUTH_FAILED_LOGIN_ACCOUNT_WINDOW_SECONDS'', ''AUTH_ACCOUNT_LOCK_SECONDS'',
      ''SHUTDOWN_DRAIN_MS'', ''DB_POOL_MAX'', ''DB_STATEMENT_TIMEOUT_MS'',
      ''DB_IDLE_IN_TRANSACTION_TIMEOUT_MS'', ''DB_CONNECTION_TIMEOUT_MS'']"

text \<open>What makes a variable acceptable to each reader.\<close>

definition int_ok :: "environment \<Rightarrow> string \<Rightarrow> bool" where
  "int_ok env name = (env_blank (env name) \<or> parseInt (the (env name)) \<noteq> None)"

lemma res_bind_Inr_iff: "(\<exists>b. res_bind m f = Inr b) \<longleftrightarrow> (\<exists>a. m = Inr a \<and> (\<exists>b. f a = Inr b))"
  by (cases m) auto

lemma requiredEnv_Inr_iff: "requiredEnv env name = Inr v \<longleftrightarrow> \<not> env_blank (env name) \<and> v = the (env name)"
  by (auto simp: requiredEnv_def)

lemma optionalIntEnv_Inr: "(\<exists>v. optionalIntEnv env name d = Inr v) \<longleftrightarrow> int_ok env name"
  by (auto simp: optionalIntEnv_def int_ok_def split: option.splits)

lemma optionalIntEnv_ok_ex: "int_ok env name \<Longrightarrow> \<exists>v. optionalIntEnv env name d = Inr v"
  by (simp add: optionalIntEnv_Inr)

lemma requiredEnv_ex: "(\<exists>v. requiredEnv env name = Inr v) \<longleftrightarrow> \<not> env_blank (env name)"
  by (auto simp: requiredEnv_def)

lemma loadConfig_ok_iff:
  "(\<exists>cfg. loadConfig env = Inr cfg) \<longleftrightarrow>
     (\<forall>name\<in>set required_names. \<not> env_blank (env name)) \<and> (\<forall>name\<in>set int_names. int_ok env name)"
  unfolding loadConfig_def
  by (simp only: res_bind_Inr_iff requiredEnv_ex optionalIntEnv_Inr ex_simps simp_thms sum.inject
      required_names_def int_names_def list.set ball_simps) blast

text \<open>The service starts exactly when the four required variables are set and not blank and each
  of the eighteen numeric variables is unset, blank or starts with an integer; every other
  environment makes \<open>loadConfig\<close> throw.\<close>

theorem loadConfig_succeeds_iff:
  "(\<exists>cfg. loadConfig env = Inr cfg) \<longleftrightarrow>
     list_all (\<lambda>name. \<not> env_blank (env name)) required_names \<and> list_all (int_ok env) int_names"
  unfolding list_all_iff by (rule loadConfig_ok_iff)

end
