(* ===== verification/Js_Json.thy ===== *)
theory Js_Json
  imports Js_Text
begin

text \<open>
  \<open>JSON.stringify\<close> and \<open>JSON.parse\<close> of the JavaScript standard library, as far as the
  code uses them: response bodies put in Redis, idempotency records, event payloads. An
  object is the list of its properties in insertion order. Numbers are integers (statuses,
  cents, page numbers); a literal with a fraction or an exponent is kept as its text
  (\<open>JDec\<close>), which no value the code writes contains. The main result is the round trip
  \<open>JSON_parse_stringify\<close>.
\<close>

datatype json =
    JNull
  | JBool bool
  | JNum int
  | JDec string
  | JStr string
  | JArr "json list"
  | JObj "(string \<times> json) list"

section \<open>JSON.stringify\<close>

definition hex_lower :: "nat \<Rightarrow> char" where
  "hex_lower d = (if d < 10 then char_of (48 + d) else char_of (87 + d))"

definition escape_char :: "char \<Rightarrow> string" where
  "escape_char c = (let n = (of_char c :: nat) in
     if n = 34 then [CHR 0x5C, CHR 0x22]
     else if n = 92 then [CHR 0x5C, CHR 0x5C]
     else if n = 8 then [CHR 0x5C, CHR ''b'']
     else if n = 9 then [CHR 0x5C, CHR ''t'']
     else if n = 10 then [CHR 0x5C, CHR ''n'']
     else if n = 12 then [CHR 0x5C, CHR ''f'']
     else if n = 13 then [CHR 0x5C, CHR ''r'']
     else if n < 32 then [CHR 0x5C, CHR ''u'', CHR ''0'', CHR ''0'', hex_lower (n div 16), hex_lower (n mod 16)]
     else [c])"

definition quote_string :: "string \<Rightarrow> string" where
  "quote_string s = CHR 0x22 # concat (map escape_char s) @ [CHR 0x22]"

fun JSON_stringify :: "json \<Rightarrow> string" where
  "JSON_stringify JNull = ''null''"
| "JSON_stringify (JBool b) = (if b then ''true'' else ''false'')"
| "JSON_stringify (JNum n) = int_to_string n"
| "JSON_stringify (JDec t) = t"
| "JSON_stringify (JStr s) = quote_string s"
| "JSON_stringify (JArr xs) = ''['' @ join '','' (map JSON_stringify xs) @ '']''"
| "JSON_stringify (JObj ps) =
     ''{'' @ join '','' (map (\<lambda>(k, v). quote_string k @ '':'' @ JSON_stringify v) ps) @ ''}''"

section \<open>JSON.parse\<close>

definition is_json_space :: "char \<Rightarrow> bool" where
  "is_json_space c = ((of_char c :: nat) \<in> {9, 10, 13, 32})"

definition skip_ws :: "string \<Rightarrow> string" where
  "skip_ws s = dropWhile is_json_space s"

definition hex_val :: "char \<Rightarrow> nat option" where
  "hex_val c = (let n = of_char c in
     if 48 \<le> n \<and> n \<le> 57 then Some (n - 48)
     else if 97 \<le> n \<and> n \<le> 102 then Some (n - 87)
     else if 65 \<le> n \<and> n \<le> 70 then Some (n - 55)
     else None)"

definition hex4 :: "char \<Rightarrow> char \<Rightarrow> char \<Rightarrow> char \<Rightarrow> nat option" where
  "hex4 a b x y = (case (hex_val a, hex_val b, hex_val x, hex_val y) of
     (Some a', Some b', Some x', Some y') \<Rightarrow> Some (4096 * a' + 256 * b' + 16 * x' + y')
   | _ \<Rightarrow> None)"

definition unescape :: "char \<Rightarrow> char option" where
  "unescape e =
     (if e = CHR 0x22 \<or> e = CHR 0x5C \<or> e = CHR ''/'' then Some e
      else if e = CHR ''b'' then Some (char_of (8 :: nat))
      else if e = CHR ''t'' then Some (char_of (9 :: nat))
      else if e = CHR ''n'' then Some (char_of (10 :: nat))
      else if e = CHR ''f'' then Some (char_of (12 :: nat))
      else if e = CHR ''r'' then Some (char_of (13 :: nat))
      else None)"

text \<open>The rest of a string literal after its opening quote, and the text behind it.\<close>

fun parse_chars :: "string \<Rightarrow> (string \<times> string) option" where
  "parse_chars [] = None"
| "parse_chars (c # r) =
     (if c = CHR 0x22 then Some ([], r)
      else if c = CHR 0x5C then
        (case r of
           [] \<Rightarrow> None
         | e # r1 \<Rightarrow>
             if e = CHR ''u'' then
               (case r1 of
                  a # b # x # y # r2 \<Rightarrow>
                    (case hex4 a b x y of
                       None \<Rightarrow> None
                     | Some n \<Rightarrow>
                         if n < 256 then map_option (apfst (Cons (char_of n))) (parse_chars r2)
                         else None)
                | _ \<Rightarrow> None)
             else
               (case unescape e of
                  None \<Rightarrow> None
                | Some d \<Rightarrow> map_option (apfst (Cons d)) (parse_chars r1)))
      else if (of_char c :: nat) < 32 then None
      else map_option (apfst (Cons c)) (parse_chars r))"

text \<open>A number literal: sign, digits without a leading zero, then a fraction and an exponent.\<close>

definition parse_frac :: "string \<Rightarrow> (string \<times> string) option" where
  "parse_frac s = (case s of
     c # t \<Rightarrow> if c = CHR ''.'' then
         (if takeWhile is_digit t = [] then None
          else Some (c # takeWhile is_digit t, dropWhile is_digit t))
       else Some ([], s)
   | [] \<Rightarrow> Some ([], s))"

definition parse_exp :: "string \<Rightarrow> (string \<times> string) option" where
  "parse_exp s = (case s of
     c # t \<Rightarrow> if c = CHR ''e'' \<or> c = CHR ''E'' then
         (let sgn = takeWhile (\<lambda>d. d = CHR ''+'' \<or> d = CHR ''-'') (take 1 t);
              u = drop (length sgn) t
          in if takeWhile is_digit u = [] then None
             else Some (c # sgn @ takeWhile is_digit u, dropWhile is_digit u))
       else Some ([], s)
   | [] \<Rightarrow> Some ([], s))"

definition parse_number :: "string \<Rightarrow> (json \<times> string) option" where
  "parse_number s =
     (let neg = (s \<noteq> [] \<and> hd s = CHR ''-'');
          r = (if neg then tl s else s);
          ds = takeWhile is_digit r
      in if ds = [] \<or> (hd ds = CHR ''0'' \<and> 1 < length ds) then None
         else (case parse_frac (dropWhile is_digit r) of
             None \<Rightarrow> None
           | Some (f, r1) \<Rightarrow>
               (case parse_exp r1 of
                  None \<Rightarrow> None
                | Some (e, r2) \<Rightarrow>
                    Some (if f = [] \<and> e = []
                          then JNum (if neg then - int (digits_val ds) else int (digits_val ds))
                          else JDec ((if neg then ''-'' else []) @ ds @ f @ e), r2))))"

text \<open>Setting a property: an existing key keeps its place, a new one goes to the end.\<close>

fun obj_put :: "string \<Rightarrow> json \<Rightarrow> (string \<times> json) list \<Rightarrow> (string \<times> json) list" where
  "obj_put k v [] = [(k, v)]"
| "obj_put k v ((l, w) # ps) = (if k = l then (k, v) # ps else (l, w) # obj_put k v ps)"

definition obj_of_pairs :: "(string \<times> json) list \<Rightarrow> (string \<times> json) list" where
  "obj_of_pairs ps = foldl (\<lambda>obj (k, v). obj_put k v obj) [] ps"

text \<open>
  Recursive descent; the first argument bounds the nesting and the length, and
  \<open>JSON_parse\<close> starts it at the length of the text, which every value uses up one
  character at a time.
\<close>

fun parse_value :: "nat \<Rightarrow> string \<Rightarrow> (json \<times> string) option"
  and parse_elems :: "nat \<Rightarrow> string \<Rightarrow> (json list \<times> string) option"
  and parse_members :: "nat \<Rightarrow> string \<Rightarrow> ((string \<times> json) list \<times> string) option" where
  "parse_value 0 s = None"
| "parse_value (Suc n) s =
     (case s of
        [] \<Rightarrow> None
      | c # r \<Rightarrow>
          if c = CHR 0x22 then map_option (apfst JStr) (parse_chars r)
          else if c = CHR ''['' then
            (case skip_ws r of
               [] \<Rightarrow> None
             | d # r1 \<Rightarrow> if d = CHR '']'' then Some (JArr [], r1)
                 else map_option (apfst JArr) (parse_elems n (d # r1)))
          else if c = CHR ''{'' then
            (case skip_ws r of
               [] \<Rightarrow> None
             | d # r1 \<Rightarrow> if d = CHR ''}'' then Some (JObj [], r1)
                 else map_option (apfst (\<lambda>ps. JObj (obj_of_pairs ps))) (parse_members n (d # r1)))
          else if starts_with s ''null'' then Some (JNull, drop 4 s)
          else if starts_with s ''true'' then Some (JBool True, drop 4 s)
          else if starts_with s ''false'' then Some (JBool False, drop 5 s)
          else parse_number s)"
| "parse_elems 0 s = None"
| "parse_elems (Suc n) s =
     (case parse_value n s of
        None \<Rightarrow> None
      | Some (v, r) \<Rightarrow>
          (case skip_ws r of
             [] \<Rightarrow> None
           | c # r1 \<Rightarrow>
               if c = CHR '','' then map_option (apfst (Cons v)) (parse_elems n (skip_ws r1))
               else if c = CHR '']'' then Some ([v], r1)
               else None))"
| "parse_members 0 s = None"
| "parse_members (Suc n) s =
     (case s of
        [] \<Rightarrow> None
      | q # r \<Rightarrow>
          if q \<noteq> CHR 0x22 then None
          else (case parse_chars r of
             None \<Rightarrow> None
           | Some (k, r1) \<Rightarrow>
               (case skip_ws r1 of
                  [] \<Rightarrow> None
                | c # r2 \<Rightarrow>
                    if c \<noteq> CHR '':'' then None
                    else (case parse_value n (skip_ws r2) of
                       None \<Rightarrow> None
                     | Some (v, r3) \<Rightarrow>
                         (case skip_ws r3 of
                            [] \<Rightarrow> None
                          | d # r4 \<Rightarrow>
                              if d = CHR '','' then
                                map_option (apfst (Cons (k, v))) (parse_members n (skip_ws r4))
                              else if d = CHR ''}'' then Some ([(k, v)], r4)
                              else None)))))"

text \<open>\<open>None\<close> is a \<open>SyntaxError\<close>.\<close>

definition JSON_parse :: "string \<Rightarrow> json option" where
  "JSON_parse s =
     (case parse_value (Suc (length s)) (skip_ws s) of
        Some (j, r) \<Rightarrow> if skip_ws r = [] then Some j else None
      | None \<Rightarrow> None)"

section \<open>The round trip\<close>

lemma of_char_eqI: "(of_char c :: nat) = of_char d \<Longrightarrow> c = d"
  by simp

lemma char_of_consts:
  "char_of (34 :: nat) = CHR 0x22" "char_of (92 :: nat) = CHR 0x5C" "char_of (48 :: nat) = CHR ''0''"
  by (rule of_char_eqI, simp add: of_char_of)+

lemma hex_val_hex_lower: "d < 16 \<Longrightarrow> hex_val (hex_lower d) = Some d"
  by (simp add: hex_val_def hex_lower_def of_char_of Let_def)

lemma hex4_hex_lower:
  "n < 256 \<Longrightarrow> hex4 CHR ''0'' CHR ''0'' (hex_lower (n div 16)) (hex_lower (n mod 16)) = Some n"
proof -
  assume n: "n < 256"
  have "hex_val CHR ''0'' = Some 0" by (simp add: hex_val_def)
  with n show ?thesis by (simp add: hex4_def hex_val_hex_lower)
qed

text \<open>One escaped character is read back as the character.\<close>

lemma parse_chars_escape:
  "parse_chars (escape_char c @ r) = map_option (apfst (Cons c)) (parse_chars r)"
proof -
  let ?n = "of_char c :: nat"
  have c: "c = char_of ?n" by simp
  consider (special) "?n \<in> {34, 92, 8, 9, 10, 12, 13}" | (control) "?n \<notin> {34, 92, 8, 9, 10, 12, 13}" "?n < 32"
    | (plain) "?n \<notin> {34, 92}" "32 \<le> ?n"
    by (cases "?n < 32") auto
  then show ?thesis
  proof cases
    case special
    then have "c = char_of (34 :: nat) \<or> c = char_of (92 :: nat) \<or> c = char_of (8 :: nat) \<or>
      c = char_of (9 :: nat) \<or> c = char_of (10 :: nat) \<or> c = char_of (12 :: nat) \<or> c = char_of (13 :: nat)"
      using c by (metis insertE emptyE)
    then show ?thesis
      by (elim disjE) (simp_all add: escape_char_def unescape_def of_char_of Let_def char_of_consts)
  next
    case control
    then show ?thesis
      by (simp add: escape_char_def Let_def hex4_hex_lower)
  next
    case plain
    then have "c \<noteq> CHR 0x22" "c \<noteq> CHR 0x5C" by auto
    with plain show ?thesis by (simp add: escape_char_def Let_def)
  qed
qed

lemma parse_chars_quoted:
  "parse_chars (concat (map escape_char s) @ CHR 0x22 # r) = Some (s, r)"
  by (induction s) (simp_all add: parse_chars_escape)

text \<open>What may follow a value inside a text: nothing, or a delimiter.\<close>

definition ok_rest :: "string \<Rightarrow> bool" where
  "ok_rest r = (r = [] \<or> hd r \<in> {CHR '','', CHR '']'', CHR ''}''})"

lemma takeWhile_digits_append:
  "\<forall>c\<in>set ds. is_digit c \<Longrightarrow> r = [] \<or> \<not> is_digit (hd r) \<Longrightarrow> takeWhile is_digit (ds @ r) = ds"
  by (cases r) (auto simp: takeWhile_append)

lemma dropWhile_digits_append:
  "\<forall>c\<in>set ds. is_digit c \<Longrightarrow> r = [] \<or> \<not> is_digit (hd r) \<Longrightarrow> dropWhile is_digit (ds @ r) = r"
  by (cases r) (auto simp: dropWhile_append)

lemma ok_rest_not_digit: "ok_rest r \<Longrightarrow> r = [] \<or> \<not> is_digit (hd r)"
  by (auto simp: ok_rest_def is_digit_def)

lemma ok_rest_frac_exp: "ok_rest r \<Longrightarrow> parse_frac r = Some ([], r) \<and> parse_exp r = Some ([], r)"
  by (cases r) (auto simp: ok_rest_def parse_frac_def parse_exp_def)

lemma no_leading_zero: "hd (nat_to_string n) = CHR ''0'' \<Longrightarrow> n = 0"
proof (induction n rule: nat_to_string.induct)
  case (1 n)
  show ?case
  proof (cases "n < 10")
    case True
    have "nat_to_string n = [digit_char n]" using True by (subst nat_to_string.simps) simp
    with 1(2) have "(of_char (digit_char n) :: nat) = of_char (CHR ''0'')" by simp
    with True show ?thesis by (simp add: of_char_digit_char)
  next
    case False
    then have "nat_to_string n = nat_to_string (n div 10) @ [digit_char (n mod 10)]"
      by (subst nat_to_string.simps) simp
    with 1(2) have "hd (nat_to_string (n div 10)) = CHR ''0''" by simp
    with 1(1) False have "n div 10 = 0" by simp
    with False show ?thesis by simp
  qed
qed

lemma nat_to_string_zero: "nat_to_string 0 = ''0''"
  by (subst nat_to_string.simps) (simp add: digit_char_def char_of_consts)

lemma parse_number_nat:
  assumes "ok_rest r"
  shows "parse_number (nat_to_string n @ r) = Some (JNum (int n), r)"
proof -
  let ?ds = "nat_to_string n"
  obtain c cs where c: "?ds = c # cs" "is_digit c" using nat_to_string_Cons by blast
  have "\<not> (hd ?ds = CHR ''0'' \<and> 1 < length ?ds)"
    using no_leading_zero[of n] by (auto simp: nat_to_string_zero)
  moreover have "takeWhile is_digit (?ds @ r) = ?ds" "dropWhile is_digit (?ds @ r) = r"
    using ok_rest_not_digit[OF assms] nat_to_string_digits[of n]
    by (simp_all only: takeWhile_digits_append dropWhile_digits_append)
  moreover have "hd (?ds @ r) \<noteq> CHR ''-''" using c is_digit_not_sign by simp
  ultimately show ?thesis
    using ok_rest_frac_exp[OF assms] by (simp add: parse_number_def Let_def)
qed

lemma parse_number_int:
  assumes "ok_rest r"
  shows "parse_number (int_to_string i @ r) = Some (JNum i, r)"
proof (cases "i < 0")
  case False
  with parse_number_nat[OF assms, of "nat i"] show ?thesis by (simp add: int_to_string_def)
next
  case True
  let ?ds = "nat_to_string (nat (- i))"
  have "\<not> (hd ?ds = CHR ''0'' \<and> 1 < length ?ds)"
    using no_leading_zero[of "nat (- i)"] True by auto
  moreover have "takeWhile is_digit (?ds @ r) = ?ds" "dropWhile is_digit (?ds @ r) = r"
    using ok_rest_not_digit[OF assms] nat_to_string_digits[of "nat (- i)"]
    by (simp_all only: takeWhile_digits_append dropWhile_digits_append)
  ultimately show ?thesis
    using ok_rest_frac_exp[OF assms] True by (simp add: parse_number_def int_to_string_def Let_def)
qed

text \<open>The values a program can build: keys of an object are distinct, numbers are integers.\<close>

fun json_wf :: "json \<Rightarrow> bool" where
  "json_wf (JDec t) = False"
| "json_wf (JArr xs) = (\<forall>x\<in>set xs. json_wf x)"
| "json_wf (JObj ps) = (distinct (map fst ps) \<and> (\<forall>p\<in>set ps. json_wf (snd p)))"
| "json_wf j = True"

lemma obj_put_fresh: "k \<notin> fst ` set ps \<Longrightarrow> obj_put k v ps = ps @ [(k, v)]"
  by (induction k v ps rule: obj_put.induct) auto

lemma obj_of_pairs_distinct:
  "distinct (map fst ps) \<Longrightarrow> obj_of_pairs ps = ps"
proof (induction ps rule: rev_induct)
  case (snoc p ps)
  then show ?case by (cases p) (simp add: obj_of_pairs_def obj_put_fresh)
qed (simp add: obj_of_pairs_def)

text \<open>No printed value starts with white space or is empty.\<close>

definition value_start :: "char \<Rightarrow> bool" where
  "value_start c = (\<not> is_json_space c \<and> c \<noteq> CHR '']'' \<and> c \<noteq> CHR ''}'')"

lemma int_to_string_start: "\<exists>c cs. int_to_string i = c # cs \<and> (is_digit c \<or> c = CHR ''-'')"
  by (cases "int_to_string i") (use int_to_string_chars[of _ i] in auto)

lemma digit_value_start: "is_digit c \<Longrightarrow> value_start c"
  by (auto simp: value_start_def is_json_space_def is_digit_def)

lemma stringify_start:
  "json_wf j \<Longrightarrow> \<exists>c cs. JSON_stringify j = c # cs \<and> value_start c"
proof (cases j)
  case (JNum i)
  moreover have "value_start CHR ''-''" by (simp add: value_start_def is_json_space_def)
  ultimately show ?thesis using int_to_string_start[of i] digit_value_start by auto
qed (auto simp: value_start_def is_json_space_def quote_string_def)

lemma skip_ws_start: "value_start c \<Longrightarrow> skip_ws (c # cs) = c # cs"
  by (simp add: skip_ws_def value_start_def)

lemma skip_ws_stringify: "json_wf j \<Longrightarrow> skip_ws (JSON_stringify j @ r) = JSON_stringify j @ r"
  using stringify_start[of j] by (auto simp: skip_ws_start)

lemma stringify_length: "json_wf j \<Longrightarrow> 0 < length (JSON_stringify j)"
  using stringify_start[of j] by auto

text \<open>
  The printed forms of lists of elements and members, with their closing bracket: the texts
  the two list parsers read.
\<close>

definition elems_text :: "json list \<Rightarrow> string" where
  "elems_text xs = join '','' (map JSON_stringify xs) @ '']''"

definition members_text :: "(string \<times> json) list \<Rightarrow> string" where
  "members_text ps =
     join '','' (map (\<lambda>(k, v). quote_string k @ '':'' @ JSON_stringify v) ps) @ ''}''"

lemma elems_text_simps [simp]:
  "elems_text [x] = JSON_stringify x @ '']''"
  "elems_text (x # y # ys) = JSON_stringify x @ CHR '','' # elems_text (y # ys)"
  by (simp_all add: elems_text_def)

lemma members_text_simps [simp]:
  "members_text [(k, v)] = quote_string k @ CHR '':'' # JSON_stringify v @ ''}''"
  "members_text ((k, v) # p # ps) =
     quote_string k @ CHR '':'' # JSON_stringify v @ CHR '','' # members_text (p # ps)"
  by (simp_all add: members_text_def)

lemma parse_value_number:
  assumes "is_digit c \<or> c = CHR ''-''"
  shows "parse_value (Suc n) (c # s) = parse_number (c # s)"
proof -
  have "c \<notin> {CHR 0x22, CHR ''['', CHR ''{'', CHR ''n'', CHR ''t'', CHR ''f''}"
    using assms by (auto simp: is_digit_def)
  then show ?thesis by simp
qed

lemma parse_value_int: "ok_rest r \<Longrightarrow> parse_value (Suc n) (int_to_string i @ r) = Some (JNum i, r)"
  using int_to_string_start[of i] parse_number_int[of r i] parse_value_number by fastforce

lemma parse_value_quoted: "parse_value (Suc n) (quote_string t @ r) = Some (JStr t, r)"
  by (simp add: quote_string_def parse_chars_quoted)

lemma ok_rest_delims [simp]:
  "ok_rest []" "ok_rest (CHR '','' # r)" "ok_rest (CHR '']'' # r)" "ok_rest (CHR ''}'' # r)"
  by (simp_all add: ok_rest_def)

lemma skip_ws_delims [simp]:
  "skip_ws (CHR '','' # r) = CHR '','' # r" "skip_ws (CHR '']'' # r) = CHR '']'' # r"
  "skip_ws (CHR ''}'' # r) = CHR ''}'' # r" "skip_ws (CHR '':'' # r) = CHR '':'' # r"
  by (simp_all add: skip_ws_def is_json_space_def)

lemma parse_value_literals:
  "4 \<le> n \<Longrightarrow> parse_value n (''null'' @ r) = Some (JNull, r)"
  "4 \<le> n \<Longrightarrow> parse_value n (''true'' @ r) = Some (JBool True, r)"
  "5 \<le> n \<Longrightarrow> parse_value n (''false'' @ r) = Some (JBool False, r)"
  by (cases n; simp)+

text \<open>What the induction on the value gives for one value, and for the two kinds of lists.\<close>

definition reads_back :: "json \<Rightarrow> bool" where
  "reads_back j = (\<forall>n r. length (JSON_stringify j) \<le> n \<longrightarrow> ok_rest r \<longrightarrow>
     parse_value n (JSON_stringify j @ r) = Some (j, r))"

lemma reads_backD:
  "reads_back j \<Longrightarrow> length (JSON_stringify j) \<le> n \<Longrightarrow> ok_rest r \<Longrightarrow>
   parse_value n (JSON_stringify j @ r) = Some (j, r)"
  by (simp add: reads_back_def)

lemma elems_text_start:
  "xs \<noteq> [] \<Longrightarrow> \<forall>x\<in>set xs. json_wf x \<Longrightarrow> \<exists>c cs. elems_text xs = c # cs \<and> value_start c"
  by (cases xs rule: list.exhaust; cases "tl xs")
    (use stringify_start in \<open>fastforce+\<close>)

lemma parse_elems_text:
  assumes "\<forall>x\<in>set xs. json_wf x \<and> reads_back x" and "xs \<noteq> []" and "length (elems_text xs) \<le> n"
  shows "parse_elems n (elems_text xs @ r) = Some (xs, r)"
  using assms
proof (induction xs arbitrary: n)
  case (Cons x xs)
  have x: "json_wf x" "reads_back x" using Cons.prems(1) by auto
  show ?case
  proof (cases xs)
    case Nil
    with Cons.prems(3) obtain m where "n = Suc m" "length (JSON_stringify x) \<le> m"
      by (cases n) auto
    with Nil reads_backD[OF x(2)] show ?thesis by simp
  next
    case (Cons y ys)
    with Cons.prems(3) obtain m where m: "n = Suc m" "length (JSON_stringify x) \<le> m"
      "length (elems_text xs) \<le> m"
      by (cases n) auto
    obtain c cs where "elems_text xs = c # cs" "value_start c"
      using elems_text_start[of xs] Cons Cons.prems(1) by auto
    then have "skip_ws (elems_text xs @ r) = elems_text xs @ r" by (simp add: skip_ws_start)
    with m Cons.IH[of m] Cons.prems(1) Cons reads_backD[OF x(2), of m] show ?thesis by simp
  qed
qed simp

lemma members_text_start: "ps \<noteq> [] \<Longrightarrow> \<exists>cs. members_text ps = CHR 0x22 # cs"
  by (cases ps rule: list.exhaust; cases "tl ps")
    (auto simp: members_text_def quote_string_def)

lemma skip_ws_quote: "skip_ws (CHR 0x22 # cs) = CHR 0x22 # cs"
  by (simp add: skip_ws_def is_json_space_def)

lemma parse_members_text:
  assumes "\<forall>p\<in>set ps. json_wf (snd p) \<and> reads_back (snd p)" and "ps \<noteq> []"
    and "length (members_text ps) \<le> n"
  shows "parse_members n (members_text ps @ r) = Some (ps, r)"
  using assms
proof (induction ps arbitrary: n)
  case (Cons p ps)
  obtain k v where p: "p = (k, v)" by (cases p)
  have v: "json_wf v" "reads_back v" using Cons.prems(1) p by auto
  show ?case
  proof (cases ps)
    case Nil
    with p Cons.prems(3) obtain m where "n = Suc m" "length (JSON_stringify v) \<le> m"
      by (cases n) (auto simp: quote_string_def)
    with Nil p reads_backD[OF v(2)] skip_ws_stringify[OF v(1)] show ?thesis
      by (simp add: quote_string_def parse_chars_quoted)
  next
    case (Cons q qs)
    with p Cons.prems(3) obtain m where m: "n = Suc m" "length (JSON_stringify v) \<le> m"
      "length (members_text ps) \<le> m"
      by (cases n) (auto simp: quote_string_def)
    obtain cs where "members_text ps = CHR 0x22 # cs" using members_text_start[of ps] Cons by auto
    then have "skip_ws (members_text ps @ r) = members_text ps @ r" by (simp add: skip_ws_quote)
    with m Cons.IH[of m] Cons.prems(1) Cons p reads_backD[OF v(2), of m] skip_ws_stringify[OF v(1)]
    show ?thesis
      by (simp add: quote_string_def parse_chars_quoted)
  qed
qed simp

lemma stringify_reads_back: "json_wf j \<Longrightarrow> reads_back j"
proof (induction j)
  case (JNum i)
  show ?case unfolding reads_back_def
  proof (intro allI impI)
    fix n r assume n: "length (JSON_stringify (JNum i)) \<le> n" and r: "ok_rest r"
    from n obtain m where "n = Suc m" by (cases n) auto
    with parse_value_int[OF r] show "parse_value n (JSON_stringify (JNum i) @ r) = Some (JNum i, r)"
      by simp
  qed
next
  case (JStr t)
  show ?case unfolding reads_back_def
  proof (intro allI impI)
    fix n r assume "length (JSON_stringify (JStr t)) \<le> n"
    then obtain m where "n = Suc m" by (cases n) (auto simp: quote_string_def)
    then show "parse_value n (JSON_stringify (JStr t) @ r) = Some (JStr t, r)"
      using parse_value_quoted[of m t r] by simp
  qed
next
  case (JArr xs)
  show ?case unfolding reads_back_def
  proof (intro allI impI)
    fix n r assume n: "length (JSON_stringify (JArr xs)) \<le> n"
    then obtain m where m: "n = Suc m" "length (elems_text xs) \<le> m"
      by (cases n) (auto simp: elems_text_def)
    have printed: "JSON_stringify (JArr xs) = CHR ''['' # elems_text xs" by (simp add: elems_text_def)
    show "parse_value n (JSON_stringify (JArr xs) @ r) = Some (JArr xs, r)"
    proof (cases "xs = []")
      case True
      with m show ?thesis by simp
    next
      case False
      have all: "\<forall>x\<in>set xs. json_wf x \<and> reads_back x" using JArr by auto
      obtain c cs where "elems_text xs = c # cs" "value_start c"
        using elems_text_start[OF False] all by auto
      with m printed parse_elems_text[OF all False m(2), of r] show ?thesis
        by (simp add: skip_ws_start value_start_def del: JSON_stringify.simps)
    qed
  qed
next
  case (JObj ps)
  show ?case unfolding reads_back_def
  proof (intro allI impI)
    fix n r assume n: "length (JSON_stringify (JObj ps)) \<le> n"
    then obtain m where m: "n = Suc m" "length (members_text ps) \<le> m"
      by (cases n) (auto simp: members_text_def)
    have printed: "JSON_stringify (JObj ps) = CHR ''{'' # members_text ps" by (simp add: members_text_def)
    show "parse_value n (JSON_stringify (JObj ps) @ r) = Some (JObj ps, r)"
    proof (cases "ps = []")
      case True
      with m show ?thesis by simp
    next
      case False
      have all: "\<forall>p\<in>set ps. json_wf (snd p) \<and> reads_back (snd p)"
        using JObj by (auto intro: snds.intros)
      obtain cs where "members_text ps = CHR 0x22 # cs" using members_text_start[OF False] by auto
      with m printed parse_members_text[OF all False m(2), of r] JObj.prems show ?thesis
        by (simp add: skip_ws_quote obj_of_pairs_distinct del: JSON_stringify.simps)
    qed
  qed
next
  case JNull
  then show ?case using parse_value_literals(1) by (simp add: reads_back_def)
next
  case (JBool b)
  then show ?case using parse_value_literals(2,3) by (cases b) (simp_all add: reads_back_def)
qed simp

theorem JSON_parse_stringify: "json_wf j \<Longrightarrow> JSON_parse (JSON_stringify j) = Some j"
  using reads_backD[OF stringify_reads_back, of j "Suc (length (JSON_stringify j))" "[]"]
    skip_ws_stringify[of j "[]"]
  by (simp add: JSON_parse_def skip_ws_def)

lemma JSON_stringify_inj:
  "json_wf a \<Longrightarrow> json_wf b \<Longrightarrow> JSON_stringify a = JSON_stringify b \<Longrightarrow> a = b"
  by (metis JSON_parse_stringify option.inject)

section \<open>Reading properties\<close>

text \<open>\<open>v.k\<close>: \<open>undefined\<close> (here \<open>None\<close>) for a missing property and for a non-object.\<close>

fun json_prop :: "string \<Rightarrow> json \<Rightarrow> json option" where
  "json_prop k (JObj ps) = map_of ps k"
| "json_prop k j = None"

end
