(* ===== verification/Api_Context.thy ===== *)
theory Api_Context
  imports Api_Config Js_Json
begin

text \<open>
  The context every handler of the API service runs in (\<open>types.ts\<close>) and the small helpers
  of \<open>utils/\<close>: \<open>withTimeout\<close>, \<open>createWarnOncePerMinute\<close>, the error responses.

  The Redis server and the clock are outside the repository. They are the record
  \<open>services\<close>, a parameter of every definition that calls them: each command takes the state
  \<open>'e\<close> of the outside world and hands back a promise and the next state, so a command may
  fail, be slow, or take effect although its answer is an error. What the code relies on is
  stated by the locale \<open>redis_kv\<close> (the documented effect of the commands on the live keys).
\<close>

record 'e services =
  redis_get :: "string \<Rightarrow> 'e \<Rightarrow> string option promise \<times> 'e"
  redis_set :: "string \<Rightarrow> string \<Rightarrow> int \<Rightarrow> 'e \<Rightarrow> unit promise \<times> 'e"
  redis_set_nx :: "string \<Rightarrow> string \<Rightarrow> int \<Rightarrow> 'e \<Rightarrow> bool promise \<times> 'e"
  redis_del :: "string \<Rightarrow> 'e \<Rightarrow> int promise \<times> 'e"
  redis_incr :: "string \<Rightarrow> 'e \<Rightarrow> int promise \<times> 'e"
  redis_expire :: "string \<Rightarrow> int \<Rightarrow> 'e \<Rightarrow> unit promise \<times> 'e"
  redis_ttl :: "string \<Rightarrow> 'e \<Rightarrow> int promise \<times> 'e"
  redis_ping :: "'e \<Rightarrow> unit promise \<times> 'e"
  date_now :: "'e \<Rightarrow> int"

text \<open>
  The state a handler works on: the outside world, the headers of the reply being built, and
  the process's own table of warning times with the warnings it logged.
\<close>

record 'e api_state =
  ext :: 'e
  reply_headers :: "string \<Rightarrow> string option"
  warn_timestamps :: "string \<Rightarrow> int option"
  warn_log :: "(string \<times> string) list"

definition ext_call ::
  "('e \<Rightarrow> 'a promise \<times> 'e) \<Rightarrow> ('e, 'm) api_state_scheme \<Rightarrow> 'a promise \<times> ('e, 'm) api_state_scheme" where
  "ext_call call s = (case call (ext s) of (p, e) \<Rightarrow> (p, s\<lparr>ext := e\<rparr>))"

definition set_header :: "string \<Rightarrow> string \<Rightarrow> (('e, 'm) api_state_scheme, unit) io" where
  "set_header name v = io_modify (\<lambda>s. s\<lparr>reply_headers := (reply_headers s)(name \<mapsto> v)\<rparr>)"

section \<open>withTimeout\<close>

text \<open>Node runs a timer with a delay below 1 or above 2^31 - 1 after 1 ms.\<close>

definition timer_ms :: "int \<Rightarrow> int" where
  "timer_ms ms = (if ms < 1 \<or> 2147483647 < ms then 1 else ms)"

definition timeout_error :: "int \<Rightarrow> js_error" where
  "timeout_error ms = JsError (''Operation timed out after '' @ int_to_string ms @ '' ms'') None"

definition withTimeout :: "('s \<Rightarrow> 'a promise \<times> 's) \<Rightarrow> int \<Rightarrow> ('s, 'a) io" where
  "withTimeout call timeoutMs = (\<lambda>s. case call s of (p, t) \<Rightarrow>
     (if int (settle_ms p) < timer_ms timeoutMs then outcome p else Inl (timeout_error timeoutMs), t))"

lemma withTimeout_cases:
  assumes "withTimeout call ms s = (r, t)"
  obtains (settled) p where "call s = (p, t)" "int (settle_ms p) < timer_ms ms" "r = outcome p"
  | (late) p where "call s = (p, t)" "timer_ms ms \<le> int (settle_ms p)" "r = Inl (timeout_error ms)"
  using assms by (fastforce simp: withTimeout_def split: prod.splits if_splits)

section \<open>warnOncePerMinute\<close>

definition warnOncePerMinute ::
  "'e services \<Rightarrow> string \<Rightarrow> string \<Rightarrow> js_error \<Rightarrow> (('e, 'm) api_state_scheme, unit) io" where
  "warnOncePerMinute S key message err = io_modify (\<lambda>s.
     let now = date_now S (ext s);
         last = (case warn_timestamps s key of None \<Rightarrow> 0 | Some t \<Rightarrow> t)
     in if now - last < 60000 then s
        else s\<lparr>warn_timestamps := (warn_timestamps s)(key \<mapsto> now),
               warn_log := warn_log s @ [(err_message err, message)]\<rparr>)"

lemma warnOncePerMinute_never_throws [simp]: "never_throws (warnOncePerMinute S key message err)"
  by (simp add: warnOncePerMinute_def)

lemma set_header_never_throws [simp]: "never_throws (set_header name v)"
  by (simp add: set_header_def)

lemma warn_apply:
  "\<exists>s'. warnOncePerMinute S key message err s = (Inr (), s') \<and> ext s' = ext s \<and>
     reply_headers s' = reply_headers s"
  by (simp add: warnOncePerMinute_def Let_def)

lemma warnOncePerMinute_ext [simp]: "ext (snd (warnOncePerMinute S key message err s)) = ext s"
  by (simp add: warnOncePerMinute_def Let_def)

lemma warnOncePerMinute_result [simp]: "fst (warnOncePerMinute S key message err s) = Inr ()"
  by (simp add: warnOncePerMinute_def)

lemma set_header_ext [simp]: "ext (snd (set_header name v s)) = ext s"
  by (simp add: set_header_def)

lemma set_header_result [simp]: "fst (set_header name v s) = Inr ()"
  by (simp add: set_header_def)

section \<open>Responses\<close>

record response =
  resp_status :: int
  resp_body :: json

definition error_body :: "string \<Rightarrow> string \<Rightarrow> json" where
  "error_body code message =
     JObj [(''error'', JObj [(''code'', JStr code), (''message'', JStr message)])]"

definition error_response :: "int \<Rightarrow> string \<Rightarrow> string \<Rightarrow> response" where
  "error_response st code message = \<lparr>resp_status = st, resp_body = error_body code message\<rparr>"

definition validationError :: "string \<Rightarrow> response" where
  "validationError message = error_response 400 ''VALIDATION_ERROR'' message"

text \<open>An issue of the schema library: the path to the field and the message.\<close>

definition normalizeZodError :: "(string list \<times> string) list \<Rightarrow> string" where
  "normalizeZodError issues =
     join ''; '' (map (\<lambda>(path, message).
       (if join ''.'' path = [] then ''body'' else join ''.'' path) @ '': '' @ message) issues)"

lemma json_wf_error_body [simp]: "json_wf (error_body code message)"
  by (simp add: error_body_def)

section \<open>What the code relies on in Redis\<close>

text \<open>
  \<open>store e\<close> is the set of live keys with their values in the outside state \<open>e\<close>. A command
  that answers has its documented effect; a command that ends in an error has had its effect
  or none.
\<close>

locale redis_kv =
  fixes S :: "'e services"
    and store :: "'e \<Rightarrow> string \<Rightarrow> string option"
  assumes get_value: "redis_get S k e = (pg, e') \<Longrightarrow> outcome pg = Inr v \<Longrightarrow> v = store e k"
    and get_store: "redis_get S k e = (pg, e') \<Longrightarrow> store e' = store e"
    and set_ok: "redis_set S k w ttl e = (pu, e') \<Longrightarrow> outcome pu = Inr u \<Longrightarrow> store e' = (store e)(k \<mapsto> w)"
    and set_err: "redis_set S k w ttl e = (pu, e') \<Longrightarrow> outcome pu = Inl x \<Longrightarrow>
      store e' = store e \<or> store e' = (store e)(k \<mapsto> w)"
    and nx_ok: "redis_set_nx S k w ttl e = (pb, e') \<Longrightarrow> outcome pb = Inr b \<Longrightarrow>
      b = (store e k = None) \<and> store e' = (if b then (store e)(k \<mapsto> w) else store e)"
    and nx_err: "redis_set_nx S k w ttl e = (pb, e') \<Longrightarrow> outcome pb = Inl x \<Longrightarrow>
      store e' = store e \<or> (store e k = None \<and> store e' = (store e)(k \<mapsto> w))"
    and del_ok: "redis_del S k e = (pn, e') \<Longrightarrow> outcome pn = Inr n \<Longrightarrow> store e' = (store e)(k := None)"
    and del_err: "redis_del S k e = (pn, e') \<Longrightarrow> outcome pn = Inl x \<Longrightarrow>
      store e' = store e \<or> store e' = (store e)(k := None)"
    and incr_ok: "redis_incr S k e = (pn, e') \<Longrightarrow> outcome pn = Inr n \<Longrightarrow>
      (store e k = None \<longrightarrow> n = 1) \<and>
      (\<forall>c. store e k = Some (int_to_string c) \<longrightarrow> n = c + 1) \<and>
      store e' = (store e)(k \<mapsto> int_to_string n)"
    and incr_err: "redis_incr S k e = (pn, e') \<Longrightarrow> outcome pn = Inl x \<Longrightarrow>
      store e' = store e \<or>
      (\<exists>n. (store e k = None \<longrightarrow> n = 1) \<and> (\<forall>c. store e k = Some (int_to_string c) \<longrightarrow> n = c + 1) \<and>
           store e' = (store e)(k \<mapsto> int_to_string n))"

text \<open>The commands of the rate limiter that do not touch the values.\<close>

locale redis_expiring = redis_kv +
  assumes expire_store: "redis_expire S k ttl e = (pu, e') \<Longrightarrow> 0 < ttl \<Longrightarrow> store e' = store e"
    and ttl_store: "redis_ttl S k e = (pn, e') \<Longrightarrow> store e' = store e"

end
