(* ===== verification/Pg_Connection.thy ===== *)
theory Pg_Connection
  imports Ts_Prelude
begin

text \<open>
  A connection of the \<open>pg\<close> library to a Postgres server that holds tables of type \<open>'d\<close>. A
  connection is idle, in a transaction (the tables as the transaction sees them) or in a
  failed transaction, where every statement but the end of the transaction is refused. Which
  statements fail for reasons of the server or the network is the script \<open>pg_script\<close>, a part of
  the state that no code writes: for each coming request to the server it says whether it
  works, or with which error it ends and whether it took effect.

  Statements are functions of the time of the transaction and the tables; each component
  translates its own SQL. The clock of the database is a part of the state.
\<close>

section \<open>Connections\<close>

text \<open>The errors of the server: the code of the SQL standard is \<open>error.code\<close>.\<close>

definition pg_error :: "string \<Rightarrow> string \<Rightarrow> js_error" where
  "pg_error code message = JsError message (Some code)"

definition txn_aborted :: js_error where
  "txn_aborted = pg_error ''25P02'' ''current transaction is aborted, commands ignored until end of transaction block''"

datatype 'd pg_txn = Idle | InTxn 'd | Aborted

datatype pg_fate = PgOk | PgFail js_error bool

record 'd pg_world =
  committed :: 'd
  conn :: "'d pg_txn"
  pg_script :: "pg_fate list"
  db_now :: int
  uuids_used :: nat
  clients_out :: int

type_synonym ('d, 'a) pg_statement = "int \<Rightarrow> 'd \<Rightarrow> js_error + ('a \<times> 'd)"

definition next_fate :: "'d pg_world \<Rightarrow> pg_fate \<times> 'd pg_world" where
  "next_fate w = (case pg_script w of [] \<Rightarrow> (PgOk, w) | f # fs \<Rightarrow> (f, w\<lparr>pg_script := fs\<rparr>))"

text \<open>\<open>pool.connect()\<close>: a connection that is in no transaction. \<open>clients_out\<close> counts the
  connections taken from the pool and not given back.\<close>

definition pg_connect :: "'d pg_world \<Rightarrow> (js_error + unit) \<times> 'd pg_world" where
  "pg_connect w = (case next_fate w of
     (PgOk, w') \<Rightarrow> (Inr (), w'\<lparr>conn := Idle, clients_out := clients_out w' + 1\<rparr>)
   | (PgFail e b, w') \<Rightarrow> (Inl e, w'))"

definition pg_begin :: "'d pg_world \<Rightarrow> (js_error + unit) \<times> 'd pg_world" where
  "pg_begin w = (case next_fate w of
     (PgOk, w') \<Rightarrow> (Inr (), w'\<lparr>conn := (case conn w' of Idle \<Rightarrow> InTxn (committed w') | c \<Rightarrow> c)\<rparr>)
   | (PgFail e b, w') \<Rightarrow> (Inl e, w'))"

text \<open>
  A statement of the connection. A statement that ends in an error, its own or of the server,
  leaves the transaction failed. Outside a transaction it commits by itself.
\<close>

definition pg_run :: "('d, 'a) pg_statement \<Rightarrow> 'd pg_world \<Rightarrow> (js_error + 'a) \<times> 'd pg_world" where
  "pg_run stmt w = (case next_fate w of
     (PgOk, w') \<Rightarrow>
       (case conn w' of
          Idle \<Rightarrow> (case stmt (db_now w') (committed w') of
                    Inl e \<Rightarrow> (Inl e, w')
                  | Inr (a, d) \<Rightarrow> (Inr a, w'\<lparr>committed := d\<rparr>))
        | InTxn d0 \<Rightarrow> (case stmt (db_now w') d0 of
                    Inl e \<Rightarrow> (Inl e, w'\<lparr>conn := Aborted\<rparr>)
                  | Inr (a, d) \<Rightarrow> (Inr a, w'\<lparr>conn := InTxn d\<rparr>))
        | Aborted \<Rightarrow> (Inl txn_aborted, w'))
   | (PgFail e applied, w') \<Rightarrow>
       (Inl e, case conn w' of
          Idle \<Rightarrow> (if applied
                    then (case stmt (db_now w') (committed w') of
                            Inl e \<Rightarrow> w' | Inr (a, d) \<Rightarrow> w'\<lparr>committed := d\<rparr>)
                    else w')
        | c \<Rightarrow> w'\<lparr>conn := Aborted\<rparr>))"

text \<open>
  \<open>COMMIT\<close> makes the tables of the transaction the committed ones; in a failed transaction it
  rolls back without an error. If its answer is lost it may or may not have committed.
\<close>

definition pg_commit :: "'d pg_world \<Rightarrow> (js_error + unit) \<times> 'd pg_world" where
  "pg_commit w = (case next_fate w of
     (PgOk, w') \<Rightarrow> (Inr (), case conn w' of
        InTxn d \<Rightarrow> w'\<lparr>committed := d, conn := Idle\<rparr> | c \<Rightarrow> w'\<lparr>conn := Idle\<rparr>)
   | (PgFail e applied, w') \<Rightarrow> (Inl e, case conn w' of
        InTxn d \<Rightarrow> if applied then w'\<lparr>committed := d, conn := Idle\<rparr> else w'\<lparr>conn := Idle\<rparr>
      | c \<Rightarrow> w'\<lparr>conn := Idle\<rparr>))"

definition pg_rollback :: "'d pg_world \<Rightarrow> (js_error + unit) \<times> 'd pg_world" where
  "pg_rollback w = (case next_fate w of
     (PgOk, w') \<Rightarrow> (Inr (), w'\<lparr>conn := Idle\<rparr>)
   | (PgFail e b, w') \<Rightarrow> (Inl e, w'\<lparr>conn := Idle\<rparr>))"

text \<open>\<open>pool.query\<close>: a statement on a connection of its own.\<close>

definition pg_pool :: "('d, 'a) pg_statement \<Rightarrow> 'd pg_world \<Rightarrow> (js_error + 'a) \<times> 'd pg_world" where
  "pg_pool stmt w = (case next_fate w of
     (PgOk, w') \<Rightarrow> (case stmt (db_now w') (committed w') of
                    Inl e \<Rightarrow> (Inl e, w')
                  | Inr (a, d) \<Rightarrow> (Inr a, w'\<lparr>committed := d\<rparr>))
   | (PgFail e applied, w') \<Rightarrow>
       (Inl e, if applied
               then (case stmt (db_now w') (committed w') of
                       Inl e \<Rightarrow> w' | Inr (a, d) \<Rightarrow> w'\<lparr>committed := d\<rparr>)
               else w'))"

section \<open>Rules for the connection\<close>

lemma next_fate_fields:
  assumes "next_fate w = (f, w')"
  shows "committed w' = committed w" "conn w' = conn w" "db_now w' = db_now w"
    "uuids_used w' = uuids_used w" "clients_out w' = clients_out w"
  using assms by (auto simp: next_fate_def split: list.splits)

lemma next_fate_done: "pg_script w = [] \<Longrightarrow> next_fate w = (PgOk, w)"
  by (simp add: next_fate_def)

text \<open>\<open>pg_same w w'\<close>: only the connection and the script may differ.\<close>

definition pg_same :: "'d pg_world \<Rightarrow> 'd pg_world \<Rightarrow> bool" where
  "pg_same w w' \<longleftrightarrow> committed w' = committed w \<and> db_now w' = db_now w \<and>
     uuids_used w' = uuids_used w \<and> clients_out w' = clients_out w \<and> (pg_script w = [] \<longrightarrow> pg_script w' = [])"

lemma pg_same_refl [simp]: "pg_same w w"
  by (simp add: pg_same_def)

lemma pg_same_trans: "pg_same w w' \<Longrightarrow> pg_same w' w'' \<Longrightarrow> pg_same w w''"
  by (simp add: pg_same_def)

lemma next_fate_same: "next_fate w = (f, w') \<Longrightarrow> pg_same w w' \<and> conn w' = conn w"
  by (auto simp: next_fate_def pg_same_def split: list.splits)

lemma pg_same_conn [simp]: "pg_same w (w'\<lparr>conn := c\<rparr>) = pg_same w w'"
  by (simp add: pg_same_def)

text \<open>The rules for the connection itself, whatever state it is a part of.\<close>

lemma pg_connect_rule:
  assumes "\<And>w'. pg_same (w\<lparr>clients_out := clients_out w + 1\<rparr>) w' \<Longrightarrow> conn w' = Idle \<Longrightarrow> Q () w'"
    and "\<And>e w'. pg_same w w' \<Longrightarrow> pg_script w \<noteq> [] \<Longrightarrow> E e w'"
  shows "wp pg_connect Q E w"
  unfolding wp_def pg_connect_def
  by (auto simp: next_fate_def pg_same_def split: list.split pg_fate.split intro!: assms)

lemma pg_begin_rule:
  assumes "conn w = Idle"
    and "\<And>w'. pg_same w w' \<Longrightarrow> conn w' = InTxn (committed w) \<Longrightarrow> Q () w'"
    and "\<And>e w'. pg_same w w' \<Longrightarrow> conn w' = Idle \<Longrightarrow> pg_script w \<noteq> [] \<Longrightarrow> E e w'"
  shows "wp pg_begin Q E w"
  unfolding wp_def pg_begin_def
  by (auto simp: next_fate_def pg_same_def assms(1) split: list.split pg_fate.split intro!: assms(2,3))

lemma pg_run_txn_rule:
  assumes "conn w = InTxn d"
    and "\<And>a d' w'. stmt (db_now w) d = Inr (a, d') \<Longrightarrow> pg_same w w' \<Longrightarrow> conn w' = InTxn d' \<Longrightarrow> Q a w'"
    and "\<And>e w'. pg_same w w' \<Longrightarrow> conn w' = Aborted \<Longrightarrow>
      pg_script w \<noteq> [] \<or> stmt (db_now w) d = Inl e \<Longrightarrow> E e w'"
  shows "wp (pg_run stmt) Q E w"
proof -
  obtain f w1 where f: "next_fate w = (f, w1)" by (cases "next_fate w")
  note same = next_fate_same[OF f]
  show ?thesis
  proof (cases f)
    case PgOk
    show ?thesis
    proof (cases "stmt (db_now w) d")
      case (Inl e)
      with PgOk f same assms show ?thesis
        by (simp add: wp_def pg_run_def) (simp add: pg_same_def)
    next
      case (Inr ad)
      obtain a d' where "ad = (a, d')" by (cases ad)
      with PgOk Inr f same assms show ?thesis
        by (simp add: wp_def pg_run_def) (simp add: pg_same_def)
    qed
  next
    case (PgFail e b)
    have "pg_script w \<noteq> []" using f PgFail by (auto simp: next_fate_def)
    with PgFail f same assms show ?thesis by (simp add: wp_def pg_run_def)
  qed
qed

lemma pg_run_aborted_rule:
  assumes "conn w = Aborted" and "\<And>e w'. pg_same w w' \<Longrightarrow> conn w' = Aborted \<Longrightarrow> E e w'"
  shows "wp (pg_run stmt) Q E w"
proof -
  obtain f w1 where f: "next_fate w = (f, w1)" by (cases "next_fate w")
  from next_fate_same[OF f] assms show ?thesis by (cases f) (simp_all add: wp_def pg_run_def f)
qed

lemma pg_commit_rule:
  assumes "conn w = InTxn d"
    and "\<And>w'. pg_same (w\<lparr>committed := d\<rparr>) w' \<Longrightarrow> conn w' = Idle \<Longrightarrow> Q () w'"
    and "\<And>e w'. pg_same (w\<lparr>committed := d\<rparr>) w' \<or> pg_same w w' \<Longrightarrow> conn w' = Idle \<Longrightarrow>
      pg_script w \<noteq> [] \<Longrightarrow> E e w'"
  shows "wp pg_commit Q E w"
  unfolding wp_def pg_commit_def
  by (auto simp: next_fate_def pg_same_def assms(1) split: list.split pg_fate.split intro!: assms(2,3))

lemma pg_rollback_rule:
  assumes "\<And>w'. pg_same w w' \<Longrightarrow> conn w' = Idle \<Longrightarrow> Q () w'"
    and "\<And>e w'. pg_same w w' \<Longrightarrow> conn w' = Idle \<Longrightarrow> pg_script w \<noteq> [] \<Longrightarrow> E e w'"
  shows "wp pg_rollback Q E w"
  unfolding wp_def pg_rollback_def
  by (auto simp: next_fate_def pg_same_def split: list.split pg_fate.split intro!: assms)

text \<open>A statement that only reads, on a connection of the pool.\<close>

lemma pg_pool_read_rule:
  assumes "\<And>now d a d'. stmt now d = Inr (a, d') \<Longrightarrow> d' = d"
    and "\<And>a w'. stmt (db_now w) (committed w) = Inr (a, committed w) \<Longrightarrow>
      pg_same w w' \<Longrightarrow> conn w' = conn w \<Longrightarrow> Q a w'"
    and "\<And>e w'. pg_same w w' \<Longrightarrow> conn w' = conn w \<Longrightarrow> E e w'"
  shows "wp (pg_pool stmt) Q E w"
proof -
  obtain g w1 where f: "next_fate w = (g, w1)" by (cases "next_fate w")
  note same = next_fate_same[OF f]
  then have now: "db_now w1 = db_now w" "committed w1 = committed w" by (simp_all add: pg_same_def)
  have unchanged: "w1\<lparr>committed := committed w\<rparr> = w1" by (simp flip: now(2))
  show ?thesis
  proof (cases "stmt (db_now w) (committed w)")
    case (Inl e)
    with f same now assms(3) show ?thesis by (cases g) (simp_all add: wp_def pg_pool_def)
  next
    case (Inr ad)
    obtain a where ad: "ad = (a, committed w)" using assms(1) Inr by (cases ad) blast
    with f same now assms(2,3) Inr show ?thesis
      by (cases g) (simp_all add: wp_def pg_pool_def unchanged)
  qed
qed

text \<open>Any statement on a connection of the pool: its effect may be there although the answer is lost.\<close>

lemma pg_pool_rule:
  assumes "\<And>a d w'. stmt (db_now w) (committed w) = Inr (a, d) \<Longrightarrow> pg_same (w\<lparr>committed := d\<rparr>) w' \<Longrightarrow> Q a w'"
    and "\<And>e w'. pg_same w w' \<Longrightarrow> E e w'"
    and "\<And>e a d w'. stmt (db_now w) (committed w) = Inr (a, d) \<Longrightarrow> pg_same (w\<lparr>committed := d\<rparr>) w' \<Longrightarrow> E e w'"
  shows "wp (pg_pool stmt) Q E w"
proof -
  obtain g w1 where f: "next_fate w = (g, w1)" by (cases "next_fate w")
  note same = next_fate_same[OF f, THEN conjunct1]
  have after: "pg_same (w\<lparr>committed := d\<rparr>) (w1\<lparr>committed := d\<rparr>)" for d using same by (simp add: pg_same_def)
  have now: "db_now w1 = db_now w" "committed w1 = committed w" using same by (simp_all add: pg_same_def)
  show ?thesis
  proof (cases "stmt (db_now w) (committed w)")
    case (Inl e)
    with f same now assms(2) show ?thesis by (cases g) (simp_all add: wp_def pg_pool_def)
  next
    case (Inr ad)
    obtain a d where "ad = (a, d)" by (cases ad)
    with f same now assms Inr after show ?thesis by (cases g) (simp_all add: wp_def pg_pool_def)
  qed
qed

end
