(* ===== verification/Database.thy ===== *)
theory Database
  imports Api_Context Pg_Connection
begin

text \<open>
  The tables of \<open>infra/postgres\<close> and the statements the code runs on them. A table is the list
  of its rows in insertion order. Statements are functions of the time of the transaction and
  the tables, with the constraints of the schema: each component translates its own SQL.
  \<open>randomUUID\<close> is a part of the state.
\<close>

section \<open>Tables\<close>

record user_row =
  us_id :: string
  us_email :: string
  us_password_hash :: string
  us_failed_login_count :: int
  us_locked_until :: "int option"

record refresh_token_row =
  rt_id :: string
  rt_user_id :: string
  rt_token_hash :: string
  rt_expires_at :: int
  rt_revoked_at :: "int option"

record order_row =
  o_id :: string
  o_user_id :: string
  o_customer_email :: string
  o_items :: "order_item list"
  o_total_cents :: int
  o_status :: order_status
  o_created_at :: int
  o_updated_at :: int

text \<open>\<open>event_type\<close> is \<open>created\<close> where \<open>from_status\<close> is null, and \<open>status_changed\<close> else.\<close>

record order_event_row =
  ev_id :: string
  ev_order_id :: string
  ev_event_type :: string
  ev_from_status :: "order_status option"
  ev_to_status :: order_status
  ev_actor_user_id :: string
  ev_occurred_at :: int

record outbox_row =
  ob_id :: string
  ob_event_type :: string
  ob_aggregate_type :: string
  ob_aggregate_id :: string
  ob_payload :: order_created_event
  ob_attempts :: int
  ob_last_error :: "string option"
  ob_next_attempt_at :: int
  ob_occurred_at :: int
  ob_published_at :: "int option"

record processed_row =
  pr_event_id :: string
  pr_event_type :: string
  pr_processed_at :: "int option"
  pr_expires_at :: int

record database =
  users :: "user_row list"
  refresh_tokens :: "refresh_token_row list"
  orders :: "order_row list"
  order_events :: "order_event_row list"
  outbox_events :: "outbox_row list"
  processed_events :: "processed_row list"

definition empty_database :: database where
  "empty_database = \<lparr>users = [], refresh_tokens = [], orders = [], order_events = [],
     outbox_events = [], processed_events = []\<rparr>"

definition unique_violation :: js_error where
  "unique_violation = pg_error ''23505'' ''duplicate key value violates unique constraint''"
definition foreign_key_violation :: js_error where
  "foreign_key_violation = pg_error ''23503'' ''insert or update on table violates foreign key constraint''"
definition check_violation :: js_error where
  "check_violation = pg_error ''23514'' ''new row violates check constraint''"
definition out_of_range :: js_error where
  "out_of_range = pg_error ''22003'' ''value is out of range for type integer''"
definition bad_text :: js_error where
  "bad_text = pg_error ''22021'' ''invalid byte sequence for encoding''"
text \<open>The column type \<open>integer\<close> has 32 bits; \<open>text\<close> and \<open>jsonb\<close> cannot hold the null character.\<close>

definition int4_ok :: "int \<Rightarrow> bool" where
  "int4_ok n = (- 2147483648 \<le> n \<and> n \<le> 2147483647)"

definition text_ok :: "string \<Rightarrow> bool" where
  "text_ok t = (CHR 0x00 \<notin> set t)"

text \<open>A \<open>uuid\<close> parameter is compared without regard to case; the server shows it in lower case.\<close>

definition uuid_in :: "string \<Rightarrow> string" where
  "uuid_in t = js_lower t"

section \<open>The state of a handler\<close>

text \<open>The connections of \<open>Pg_Connection\<close>, over these tables.\<close>

type_synonym 'a statement = "(database, 'a) pg_statement"

record 'e app_state = "'e api_state" +
  pg :: "database pg_world"

definition on_pg :: "(database pg_world \<Rightarrow> (js_error + 'a) \<times> database pg_world) \<Rightarrow> (('e, 'm) app_state_scheme, 'a) io" where
  "on_pg f s = (case f (pg s) of (r, w) \<Rightarrow> (r, s\<lparr>pg := w\<rparr>))"

text \<open>\<open>client.release()\<close>.\<close>

definition pg_release :: "(('e, 'm) app_state_scheme, unit) io" where
  "pg_release = io_modify (\<lambda>s. s\<lparr>pg := (pg s)\<lparr>clients_out := clients_out (pg s) - 1\<rparr>\<rparr>)"

text \<open>\<open>client.query("ROLLBACK").catch(() => undefined)\<close>.\<close>

definition rollback_quietly :: "(('e, 'm) app_state_scheme, unit) io" where
  "rollback_quietly = io_catch (on_pg pg_rollback) (\<lambda>e. io_return ())"

text \<open>\<open>randomUUID()\<close>: the values \<open>uuid n\<close> of a generator, one after the other.\<close>

definition randomUUID :: "(nat \<Rightarrow> string) \<Rightarrow> (('e, 'm) app_state_scheme, string) io" where
  "randomUUID uuid = io_bind (io_get (\<lambda>s. uuid (uuids_used (pg s))))
     (\<lambda>u. io_bind (io_modify (\<lambda>s. s\<lparr>pg := (pg s)\<lparr>uuids_used := uuids_used (pg s) + 1\<rparr>\<rparr>)) (\<lambda>x. io_return u))"

section \<open>Rules for the connection\<close>

text \<open>The same rules inside the state of a handler.\<close>

lemma wp_on_pg: "wp (on_pg f) Q E s = wp f (\<lambda>a w. Q a (s\<lparr>pg := w\<rparr>)) (\<lambda>e w. E e (s\<lparr>pg := w\<rparr>)) (pg s)"
  by (simp add: wp_def on_pg_def split: prod.split sum.split)

lemma wp_connect:
  assumes "\<And>w. pg_same ((pg s)\<lparr>clients_out := clients_out (pg s) + 1\<rparr>) w \<Longrightarrow> conn w = Idle \<Longrightarrow> Q () (s\<lparr>pg := w\<rparr>)"
    and "\<And>e w. pg_same (pg s) w \<Longrightarrow> pg_script (pg s) \<noteq> [] \<Longrightarrow> E e (s\<lparr>pg := w\<rparr>)"
  shows "wp (on_pg pg_connect) Q E s"
  unfolding wp_on_pg by (rule pg_connect_rule) (simp_all add: assms)

lemma wp_begin:
  assumes "conn (pg s) = Idle"
    and "\<And>w. pg_same (pg s) w \<Longrightarrow> conn w = InTxn (committed (pg s)) \<Longrightarrow> Q () (s\<lparr>pg := w\<rparr>)"
    and "\<And>e w. pg_same (pg s) w \<Longrightarrow> conn w = Idle \<Longrightarrow> pg_script (pg s) \<noteq> [] \<Longrightarrow> E e (s\<lparr>pg := w\<rparr>)"
  shows "wp (on_pg pg_begin) Q E s"
  unfolding wp_on_pg by (rule pg_begin_rule) (simp_all add: assms)

lemma wp_run_txn:
  assumes "conn (pg s) = InTxn d"
    and "\<And>a d' w. stmt (db_now (pg s)) d = Inr (a, d') \<Longrightarrow> pg_same (pg s) w \<Longrightarrow> conn w = InTxn d' \<Longrightarrow> Q a (s\<lparr>pg := w\<rparr>)"
    and "\<And>e w. pg_same (pg s) w \<Longrightarrow> conn w = Aborted \<Longrightarrow>
      pg_script (pg s) \<noteq> [] \<or> stmt (db_now (pg s)) d = Inl e \<Longrightarrow> E e (s\<lparr>pg := w\<rparr>)"
  shows "wp (on_pg (pg_run stmt)) Q E s"
  unfolding wp_on_pg by (rule pg_run_txn_rule[OF assms(1)]) (simp_all add: assms)

lemma wp_commit:
  assumes "conn (pg s) = InTxn d"
    and "\<And>w. pg_same ((pg s)\<lparr>committed := d\<rparr>) w \<Longrightarrow> conn w = Idle \<Longrightarrow> Q () (s\<lparr>pg := w\<rparr>)"
    and "\<And>e w. pg_same ((pg s)\<lparr>committed := d\<rparr>) w \<or> pg_same (pg s) w \<Longrightarrow> conn w = Idle \<Longrightarrow>
      pg_script (pg s) \<noteq> [] \<Longrightarrow> E e (s\<lparr>pg := w\<rparr>)"
  shows "wp (on_pg pg_commit) Q E s"
  unfolding wp_on_pg by (rule pg_commit_rule[OF assms(1)]) (simp_all add: assms)

lemma wp_rollback:
  assumes "\<And>w. pg_same (pg s) w \<Longrightarrow> conn w = Idle \<Longrightarrow> Q () (s\<lparr>pg := w\<rparr>)"
    and "\<And>e w. pg_same (pg s) w \<Longrightarrow> conn w = Idle \<Longrightarrow> pg_script (pg s) \<noteq> [] \<Longrightarrow> E e (s\<lparr>pg := w\<rparr>)"
  shows "wp (on_pg pg_rollback) Q E s"
  unfolding wp_on_pg by (rule pg_rollback_rule) (simp_all add: assms)

lemma wp_rollback_quietly:
  assumes "\<And>w. pg_same (pg s) w \<Longrightarrow> conn w = Idle \<Longrightarrow> Q () (s\<lparr>pg := w\<rparr>)"
  shows "wp rollback_quietly Q E s"
  unfolding rollback_quietly_def wp_simps by (rule wp_rollback) (simp_all add: assms)

lemma wp_pool_read:
  assumes "\<And>now d a d'. stmt now d = Inr (a, d') \<Longrightarrow> d' = d"
    and "\<And>a w. stmt (db_now (pg s)) (committed (pg s)) = Inr (a, committed (pg s)) \<Longrightarrow>
      pg_same (pg s) w \<Longrightarrow> conn w = conn (pg s) \<Longrightarrow> Q a (s\<lparr>pg := w\<rparr>)"
    and "\<And>e w. pg_same (pg s) w \<Longrightarrow> conn w = conn (pg s) \<Longrightarrow> E e (s\<lparr>pg := w\<rparr>)"
  shows "wp (on_pg (pg_pool stmt)) Q E s"
  unfolding wp_on_pg by (rule pg_pool_read_rule) (use assms in \<open>blast+\<close>)

lemma wp_randomUUID [wp_simps]:
  "wp (randomUUID uuid) Q E = (\<lambda>s.
     Q (uuid (uuids_used (pg s))) (s\<lparr>pg := (pg s)\<lparr>uuids_used := uuids_used (pg s) + 1\<rparr>\<rparr>))"
  by (simp add: randomUUID_def wp_simps)

lemma wp_release [wp_simps]:
  "wp pg_release Q E = (\<lambda>s. Q () (s\<lparr>pg := (pg s)\<lparr>clients_out := clients_out (pg s) - 1\<rparr>\<rparr>))"
  by (simp add: pg_release_def wp_simps)

end
