(* ===== verification/Js_Date.thy ===== *)
theory Js_Date
  imports Js_Text
begin

text \<open>
  \<open>Date.prototype.toISOString\<close>: the calendar date of a number of milliseconds since 1970, in
  the proleptic Gregorian calendar, as ECMAScript prints it. (Times beyond 8.64e15 ms, where
  the source language throws, are not reached: the code prints the current time and times of
  the database.)
\<close>

definition pad :: "nat \<Rightarrow> int \<Rightarrow> string" where
  "pad w n = (let t = int_to_string n in replicate (w - length t) CHR ''0'' @ t)"

text \<open>Year, month and day of a day number, by 400-year eras that start on the first of March.\<close>

definition civil_from_days :: "int \<Rightarrow> int \<times> int \<times> int" where
  "civil_from_days days =
     (let z = days + 719468;
          era = z div 146097;
          doe = z mod 146097;
          yoe = (doe - doe div 1460 + doe div 36524 - doe div 146096) div 365;
          doy = doe - (365 * yoe + yoe div 4 - yoe div 100);
          mp = (5 * doy + 2) div 153;
          d = doy - (153 * mp + 2) div 5 + 1;
          m = (if mp < 10 then mp + 3 else mp - 9)
      in (yoe + era * 400 + (if m \<le> 2 then 1 else 0), m, d))"

definition year_text :: "int \<Rightarrow> string" where
  "year_text y = (if 0 \<le> y \<and> y \<le> 9999 then pad 4 y
     else if y < 0 then ''-'' @ pad 6 (- y) else ''+'' @ pad 6 y)"

definition toISOString :: "int \<Rightarrow> string" where
  "toISOString ms =
     (let days = ms div 86400000; t = ms mod 86400000
      in case civil_from_days days of (y, m, d) \<Rightarrow>
           year_text y @ ''-'' @ pad 2 m @ ''-'' @ pad 2 d @ ''T'' @
           pad 2 (t div 3600000) @ '':'' @ pad 2 (t div 60000 mod 60) @ '':'' @
           pad 2 (t div 1000 mod 60) @ ''.'' @ pad 3 (t mod 1000) @ ''Z'')"

lemma civil_epoch: "civil_from_days 0 = (1970, 1, 1)"
  by code_simp

lemma civil_leap_day: "civil_from_days 19782 = (2024, 2, 29)"
  by code_simp

lemma pad_chars: "c \<in> set (pad w n) \<Longrightarrow> is_digit c \<or> c = CHR ''-''"
  by (auto simp: pad_def Let_def is_digit_def dest: int_to_string_chars)

lemma toISOString_chars:
  assumes "c \<in> set (toISOString ms)"
  shows "is_digit c \<or> c \<in> set ''+-T:.Z''"
proof -
  have year: "c \<in> set (year_text y) \<Longrightarrow> is_digit c \<or> c \<in> set ''+-''" for y
    by (auto simp: year_text_def dest: pad_chars split: if_splits)
  show ?thesis
    using assms by (auto simp: toISOString_def Let_def split: prod.splits dest!: pad_chars year)
qed

end
