(* ===== verification/Broker.thy ===== *)
theory Broker
  imports Database Js_Date
begin

text \<open>
  The messages the two services exchange over RabbitMQ, and a client of the broker as the
  publisher sees it. The broker is outside the repository: for each coming operation the
  script \<open>amqp_script\<close> says whether it succeeds, or with which error it ends, whether it took
  effect at the broker all the same, and what became of the channel and the connection.
\<close>

record amqp_message =
  am_routing_key :: string
  am_content :: string
  am_message_id :: "string option"
  am_type :: "string option"
  am_headers :: "(string \<times> json) list"

datatype amqp_loss = KeepsOpen | ChannelCloses | ConnectionCloses

datatype amqp_fate = AmqpOk | AmqpFail js_error bool amqp_loss

text \<open>
  \<open>OrderCreatedEvent\<close> as the column \<open>payload jsonb\<close> gives it back: \<open>jsonb\<close> orders the keys of an
  object by length and then bytewise. A missing correlation id is a missing key.
\<close>

definition event_json :: "order_created_event \<Rightarrow> json" where
  "event_json e = JObj ([(''eventId'', JStr (eventId e)), (''orderId'', JStr (orderId e)),
     (''eventType'', JStr ''order.created''), (''occurredAt'', JStr (occurredAt e))] @
     (case correlationId e of None \<Rightarrow> [] | Some c \<Rightarrow> [(''correlationId'', JStr c)]))"

lemma event_json_wf [simp]: "json_wf (event_json e)"
  by (cases "correlationId e") (simp_all add: event_json_def)

end
