(* ===== verification/Http_Request.thy ===== *)
theory Http_Request
  imports Api_Context
begin

text \<open>
  What the handlers read of a request (the web framework parses it) and the parts of the code
  that only look at a request: the client identity (\<open>client-identity.ts\<close>).
\<close>

text \<open>A header occurs once, or several times (node joins most repeated headers itself).\<close>

datatype header_value = HeaderOne string | HeaderMany "string list"

record http_request =
  req_method :: string
  req_url :: string
  req_route :: "string option"
  req_ip :: string
  req_id :: string
  req_correlationId :: "string option"
  req_headers :: "string \<Rightarrow> header_value option"

text \<open>\<open>x || y\<close> on texts.\<close>

definition js_or :: "string \<Rightarrow> string \<Rightarrow> string" where
  "js_or x y = (if x = [] then y else x)"

definition getClientIdentifier :: "http_request \<Rightarrow> api_config \<Rightarrow> string" where
  "getClientIdentifier request cfg =
     (let forwarded =
        (case req_headers request ''x-forwarded-for'' of
           Some (HeaderOne x) \<Rightarrow>
             if js_trim x \<noteq> [] then js_or (js_trim (hd (js_split CHR '','' x))) (req_ip request)
             else req_ip request
         | _ \<Rightarrow> req_ip request)
      in if allowLoadTestClientIdentity cfg
         then (case req_headers request (loadTestClientIdHeader cfg) of
                 Some (HeaderOne x) \<Rightarrow>
                   if js_trim x \<noteq> [] then ''load-test:'' @ take 128 (js_trim x) else forwarded
               | _ \<Rightarrow> forwarded)
         else forwarded)"

record auth_user =
  user_id :: string
  user_email :: string

end
