(* ===== verification/Order_Store.thy ===== *)
theory Order_Store
  imports Database Pagination Js_Date Http_Request
begin

text \<open>
  The SQL of \<open>routes/orders.routes.ts\<close> on the tables, the rows as JSON, and the schemas of
  \<open>schemas/order.schemas.ts\<close> as functions from a parsed body to the data the handlers get.
\<close>

section \<open>Rows as JSON\<close>

definition order_item_json :: "order_item \<Rightarrow> json" where
  "order_item_json item = JObj [(''sku'', JStr (sku item)), (''quantity'', JNum (quantity item)),
     (''unitPriceCents'', JNum (unitPriceCents item))]"

definition order_json :: "order_row \<Rightarrow> json" where
  "order_json row = JObj
     [(''id'', JStr (o_id row)), (''user_id'', JStr (o_user_id row)),
      (''customer_email'', JStr (o_customer_email row)),
      (''items'', JArr (map order_item_json (o_items row))),
      (''total_cents'', JNum (o_total_cents row)), (''status'', JStr (status_name (o_status row))),
      (''created_at'', JStr (toISOString (o_created_at row))),
      (''updated_at'', JStr (toISOString (o_updated_at row)))]"

lemma order_item_json_wf [simp]: "json_wf (order_item_json item)"
  by (simp add: order_item_json_def)

lemma order_json_wf [simp]: "json_wf (order_json row)"
  by (simp add: order_json_def)

lemma order_json_user [simp]: "json_prop ''user_id'' (order_json row) = Some (JStr (o_user_id row))"
  by (simp add: order_json_def)

section \<open>Statements\<close>

text \<open>
  \<open>INSERT INTO orders ... VALUES ($1, $2, lower($3), $4::jsonb, $5, 'pending') RETURNING ...\<close>.
\<close>

definition insert_order ::
  "string \<Rightarrow> string \<Rightarrow> string \<Rightarrow> order_item list \<Rightarrow> int \<Rightarrow> order_row statement" where
  "insert_order oid userId email items total_cents now d =
     (if \<not> int4_ok total_cents then Inl out_of_range
      else if \<not> (text_ok email \<and> list_all (\<lambda>item. text_ok (sku item)) items) then Inl bad_text
      else if total_cents < 0 then Inl check_violation
      else if uuid_in oid \<in> o_id ` set (orders d) then Inl unique_violation
      else if uuid_in userId \<notin> us_id ` set (users d) then Inl foreign_key_violation
      else let row = \<lparr>o_id = uuid_in oid, o_user_id = uuid_in userId, o_customer_email = js_lower email,
                      o_items = items, o_total_cents = total_cents, o_status = Pending,
                      o_created_at = now, o_updated_at = now\<rparr>
           in Inr (row, d\<lparr>orders := orders d @ [row]\<rparr>))"

definition insert_order_event ::
  "string \<Rightarrow> string \<Rightarrow> string \<Rightarrow> order_status option \<Rightarrow> order_status \<Rightarrow> string \<Rightarrow> unit statement" where
  "insert_order_event evid oid etype frm to actor now d =
     (if etype \<notin> {''created'', ''status_changed''} then Inl check_violation
      else if uuid_in evid \<in> ev_id ` set (order_events d) then Inl unique_violation
      else if uuid_in oid \<notin> o_id ` set (orders d) \<or> uuid_in actor \<notin> us_id ` set (users d)
      then Inl foreign_key_violation
      else Inr ((), d\<lparr>order_events := order_events d @
             [\<lparr>ev_id = uuid_in evid, ev_order_id = uuid_in oid, ev_event_type = etype,
               ev_from_status = frm, ev_to_status = to, ev_actor_user_id = uuid_in actor,
               ev_occurred_at = now\<rparr>]\<rparr>))"

text \<open>\<open>next_attempt_at\<close> takes its default \<open>now()\<close>.\<close>

definition event_text_ok :: "order_created_event \<Rightarrow> bool" where
  "event_text_ok e = (text_ok (eventId e) \<and> text_ok (orderId e) \<and> text_ok (occurredAt e) \<and>
     (case correlationId e of None \<Rightarrow> True | Some c \<Rightarrow> text_ok c))"

definition insert_outbox_event ::
  "string \<Rightarrow> string \<Rightarrow> order_created_event \<Rightarrow> int \<Rightarrow> unit statement" where
  "insert_outbox_event obId aggregateId payload occurred now d =
     (if \<not> event_text_ok payload then Inl bad_text
      else if uuid_in obId \<in> ob_id ` set (outbox_events d) then Inl unique_violation
      else Inr ((), d\<lparr>outbox_events := outbox_events d @
             [\<lparr>ob_id = uuid_in obId, ob_event_type = ''order.created'', ob_aggregate_type = ''order'',
               ob_aggregate_id = uuid_in aggregateId, ob_payload = payload, ob_attempts = 0,
               ob_last_error = None, ob_next_attempt_at = now, ob_occurred_at = occurred,
               ob_published_at = None\<rparr>]\<rparr>))"

text \<open>\<open>SELECT ... FROM orders WHERE id = $1\<close>, also with \<open>FOR UPDATE\<close>: the first row.\<close>

definition find_order :: "string \<Rightarrow> database \<Rightarrow> order_row option" where
  "find_order oid d = find (\<lambda>row. o_id row = uuid_in oid) (orders d)"

definition select_order :: "string \<Rightarrow> order_row option statement" where
  "select_order oid now d = Inr (find_order oid d, d)"

text \<open>\<open>UPDATE orders SET status = $2, updated_at = now() WHERE id = $1 RETURNING ...\<close>.\<close>

definition update_order_status :: "string \<Rightarrow> order_status \<Rightarrow> order_row option statement" where
  "update_order_status oid to now d =
     (let d' = d\<lparr>orders := map (\<lambda>row. if o_id row = uuid_in oid
                 then row\<lparr>o_status := to, o_updated_at := now\<rparr> else row) (orders d)\<rparr>
      in Inr (find_order oid d', d'))"

section \<open>Schemas\<close>

text \<open>\<open>/^[^\s@]+@[^\s@]+\.[^\s@]+$/\<close>.\<close>

definition plain_char :: "char \<Rightarrow> bool" where
  "plain_char c = (\<not> is_js_space c \<and> c \<noteq> CHR ''@'')"

definition emailSchema :: "string \<Rightarrow> bool" where
  "emailSchema s = (case js_split CHR ''@'' s of
     [local, domain] \<Rightarrow> local \<noteq> [] \<and> list_all plain_char local \<and> list_all plain_char domain \<and>
        CHR ''.'' \<in> set (butlast (tl domain))
   | _ \<Rightarrow> False)"

record create_order_data =
  co_customerEmail :: string
  co_items :: "order_item list"

definition orderItemSchema :: "json \<Rightarrow> order_item option" where
  "orderItemSchema j = (case j of
     JObj ps \<Rightarrow>
       (case (map_of ps ''sku'', map_of ps ''quantity'', map_of ps ''unitPriceCents'') of
          (Some (JStr s), Some (JNum q), Some (JNum p)) \<Rightarrow>
            if 1 \<le> length s \<and> length s \<le> 64 \<and> 1 \<le> q \<and> q \<le> 1000 \<and> 0 \<le> p \<and> p \<le> 100000000
            then Some \<lparr>sku = s, quantity = q, unitPriceCents = p\<rparr> else None
        | _ \<Rightarrow> None)
   | _ \<Rightarrow> None)"

definition createOrderSchema :: "json \<Rightarrow> create_order_data option" where
  "createOrderSchema j = (case j of
     JObj ps \<Rightarrow>
       (case (map_of ps ''customerEmail'', map_of ps ''items'') of
          (Some (JStr email), Some (JArr items)) \<Rightarrow>
            (let parsed = map orderItemSchema items
             in if emailSchema email \<and> 1 \<le> length items \<and> length items \<le> 100 \<and> None \<notin> set parsed
                then Some \<lparr>co_customerEmail = email, co_items = map the parsed\<rparr> else None)
        | _ \<Rightarrow> None)
   | _ \<Rightarrow> None)"

definition create_order_json :: "create_order_data \<Rightarrow> json" where
  "create_order_json dat = JObj [(''customerEmail'', JStr (co_customerEmail dat)),
     (''items'', JArr (map order_item_json (co_items dat)))]"

definition patchOrderSchema :: "json \<Rightarrow> order_status option" where
  "patchOrderSchema j = (case json_prop ''status'' j of Some (JStr s) \<Rightarrow> parse_status s | _ \<Rightarrow> None)"

text \<open>\<open>z.string().uuid()\<close>: 8-4-4-4-12 hexadecimal digits of either case.\<close>

definition is_hex :: "char \<Rightarrow> bool" where
  "is_hex c = (let n = (of_char c :: nat) in
     (48 \<le> n \<and> n \<le> 57) \<or> (65 \<le> n \<and> n \<le> 70) \<or> (97 \<le> n \<and> n \<le> 102))"

definition orderIdParamsSchema :: "string \<Rightarrow> bool" where
  "orderIdParamsSchema s = (map length (js_split CHR ''-'' s) = [8, 4, 4, 4, 12] \<and>
     list_all (list_all is_hex) (js_split CHR ''-'' s))"

text \<open>
  A parsed item: bounds that make the total of an order at most 10^13, far above what the
  column \<open>integer\<close> holds.
\<close>

definition items_ok :: "order_item list \<Rightarrow> bool" where
  "items_ok items = (1 \<le> length items \<and> length items \<le> 100 \<and>
     list_all (\<lambda>i. 1 \<le> length (sku i) \<and> length (sku i) \<le> 64 \<and> 1 \<le> quantity i \<and> quantity i \<le> 1000 \<and>
        0 \<le> unitPriceCents i \<and> unitPriceCents i \<le> 100000000) items)"

lemma orderItemSchema_ok:
  "orderItemSchema j = Some i \<Longrightarrow> 1 \<le> length (sku i) \<and> length (sku i) \<le> 64 \<and> 1 \<le> quantity i \<and>
     quantity i \<le> 1000 \<and> 0 \<le> unitPriceCents i \<and> unitPriceCents i \<le> 100000000"
  by (auto simp: orderItemSchema_def split: json.splits option.splits if_splits)

lemma createOrderSchema_parsed:
  assumes "createOrderSchema j = Some dat"
  obtains items where "co_items dat = map the (map orderItemSchema items)"
    and "None \<notin> set (map orderItemSchema items)" and "1 \<le> length items" and "length items \<le> 100"
    and "emailSchema (co_customerEmail dat)"
  using assms unfolding createOrderSchema_def Let_def
  by (simp split: json.splits option.splits if_splits) (metis create_order_data.select_convs list.map_comp)

lemma createOrderSchema_items_ok:
  assumes "createOrderSchema j = Some dat"
  shows "items_ok (co_items dat)"
proof (rule createOrderSchema_parsed[OF assms])
  fix items assume items: "co_items dat = map the (map orderItemSchema items)"
    and some: "None \<notin> set (map orderItemSchema items)" and "1 \<le> length items" and "length items \<le> 100"
  have "1 \<le> length (sku i) \<and> length (sku i) \<le> 64 \<and> 1 \<le> quantity i \<and> quantity i \<le> 1000 \<and>
      0 \<le> unitPriceCents i \<and> unitPriceCents i \<le> 100000000" if "i \<in> set (co_items dat)" for i
  proof -
    obtain x where x: "x \<in> set items" "i = the (orderItemSchema x)" using \<open>i \<in> set (co_items dat)\<close> items by auto
    then have "orderItemSchema x = Some i" using some by (cases "orderItemSchema x") (auto simp: image_iff)
    then show ?thesis by (rule orderItemSchema_ok)
  qed
  with items \<open>1 \<le> length items\<close> \<open>length items \<le> 100\<close> show ?thesis
    by (simp add: items_ok_def list_all_iff)
qed

text \<open>\<open>data.items.reduce((total, item) => total + item.quantity * item.unitPriceCents, 0)\<close>.\<close>

definition totalCents :: "order_item list \<Rightarrow> int" where
  "totalCents items = foldl (\<lambda>total item. total + quantity item * unitPriceCents item) 0 items"

lemma foldl_total: "foldl (\<lambda>total item. total + f item) (a :: int) items = a + sum_list (map f items)"
  by (induction items arbitrary: a) auto

lemma totalCents_sum: "totalCents items = (\<Sum>item\<leftarrow>items. quantity item * unitPriceCents item)"
  by (simp add: totalCents_def foldl_total)

end
