(* ===== verification/Worker_Service.thy ===== *)
theory Worker_Service
  imports Broker Api_Config Order_Store
begin

text \<open>
  \<open>packages/worker-service/src/index.ts\<close>: consuming order events with de-duplication in
  \<open>processed_events\<close>, the retry and dead-letter queues, and the reconnect loop. The variables
  of the module are the record \<open>worker\<close>; what the worker tells the broker (acks, messages sent
  to queues) and the notifications it performs are kept as lists. Each channel object has a
  number, because a delivery can only be acknowledged on the channel it came from.
\<close>

section \<open>State\<close>

record worker_config =
  wc_port :: int
  wc_databaseUrl :: string
  wc_rabbitmqUrl :: string
  wc_exchange :: string
  wc_queue :: string
  wc_processingTimeoutMs :: int
  wc_retryDelayMs :: int
  wc_prefetch :: int
  wc_maxRetries :: int

definition load_worker_config :: "environment \<Rightarrow> js_error + worker_config" where
  "load_worker_config env =
     res_bind (optionalIntEnv env ''WORKER_PORT'' 3002) (\<lambda>a_port.
     res_bind (requiredEnv env ''DATABASE_URL'') (\<lambda>a_db.
     res_bind (requiredEnv env ''RABBITMQ_URL'') (\<lambda>a_mq.
     res_bind (optionalIntEnv env ''WORKER_PROCESSING_TIMEOUT_MS'' 30000) (\<lambda>a_time.
     res_bind (optionalIntEnv env ''WORKER_RETRY_DELAY_MS'' 5000) (\<lambda>a_delay.
     res_bind (optionalIntEnv env ''WORKER_PREFETCH'' 20) (\<lambda>a_pre.
     res_bind (optionalIntEnv env ''WORKER_MAX_RETRIES'' 3) (\<lambda>a_max.
     res_bind (optionalIntEnv env ''DB_POOL_MAX'' 5) (\<lambda>a_pool.
     res_bind (optionalIntEnv env ''DB_STATEMENT_TIMEOUT_MS'' 15000) (\<lambda>a_stmt.
     res_bind (optionalIntEnv env ''DB_IDLE_IN_TRANSACTION_TIMEOUT_MS'' 30000) (\<lambda>a_idle.
     res_bind (optionalIntEnv env ''DB_CONNECTION_TIMEOUT_MS'' 5000) (\<lambda>a_conn.
     Inr \<lparr> wc_port = a_port, wc_databaseUrl = a_db, wc_rabbitmqUrl = a_mq,
           wc_exchange = env_or env ''RABBITMQ_EXCHANGE'' ''orders'',
           wc_queue = env_or env ''RABBITMQ_ORDER_CREATED_QUEUE'' ''order.created'',
           wc_processingTimeoutMs = a_time, wc_retryDelayMs = a_delay, wc_prefetch = a_pre,
           wc_maxRetries = a_max \<rparr>)))))))))))"

record delivery =
  dl_channel :: nat
  dl_tag :: nat
  dl_message :: amqp_message

record worker =
  wk_pg :: "database pg_world"
  wk_channel :: "nat option"
  wk_channels_made :: nat
  wk_consumerTag :: bool
  wk_shuttingDown :: bool
  inFlight :: int
  wk_script :: "amqp_fate list"
  notified :: "order_created_event list"
  acked :: "(nat \<times> nat) list"
  sent :: "(string \<times> amqp_message) list"
  delays :: "int list"

definition on_wk :: "(database pg_world \<Rightarrow> (js_error + 'a) \<times> database pg_world) \<Rightarrow> (worker, 'a) io" where
  "on_wk f s = (case f (wk_pg s) of (r, w) \<Rightarrow> (r, s\<lparr>wk_pg := w\<rparr>))"

definition retryQueue :: "worker_config \<Rightarrow> string" where
  "retryQueue cfg = wc_queue cfg @ ''.retry''"

definition deadLetterQueue :: "worker_config \<Rightarrow> string" where
  "deadLetterQueue cfg = wc_queue cfg @ ''.dlq''"

section \<open>Reading a message\<close>

definition bad_json :: js_error where
  "bad_json = JsError ''Unexpected token in JSON'' None"

definition null_parsed :: js_error where
  "null_parsed = JsError ''Cannot read properties of null (reading 'eventType')'' None"

definition invalid_payload :: js_error where
  "invalid_payload = JsError ''Invalid order.created event payload'' None"

definition parseEvent :: "amqp_message \<Rightarrow> js_error + order_created_event" where
  "parseEvent m = (case JSON_parse (am_content m) of
     None \<Rightarrow> Inl bad_json
   | Some parsed \<Rightarrow>
       if parsed = JNull then Inl null_parsed
       else (case (json_prop ''eventType'' parsed, json_prop ''eventId'' parsed,
                   json_prop ''orderId'' parsed, json_prop ''occurredAt'' parsed) of
               (Some (JStr t), Some (JStr e), Some (JStr i), Some (JStr at)) \<Rightarrow>
                 if t = ''order.created''
                 then Inr \<lparr>eventId = e, orderId = i, occurredAt = at,
                        correlationId = (case json_prop ''correlationId'' parsed of Some (JStr c) \<Rightarrow> Some c | _ \<Rightarrow> None)\<rparr>
                 else Inl invalid_payload
             | _ \<Rightarrow> Inl invalid_payload))"

section \<open>Processing an event\<close>

text \<open>
  \<open>INSERT INTO processed_events ... ON CONFLICT (event_id) DO NOTHING RETURNING event_id\<close>: the
  number of rows. An id that is not a UUID in the usual notation is refused.
\<close>

definition bad_uuid :: js_error where
  "bad_uuid = pg_error ''22P02'' ''invalid input syntax for type uuid''"

definition insert_processed :: "string \<Rightarrow> string \<Rightarrow> int statement" where
  "insert_processed evid etype now d =
     (if \<not> orderIdParamsSchema evid then Inl bad_uuid
      else if uuid_in evid \<in> pr_event_id ` set (processed_events d) then Inr (0, d)
      else Inr (1, d\<lparr>processed_events := processed_events d @
             [\<lparr>pr_event_id = uuid_in evid, pr_event_type = etype, pr_processed_at = None,
               pr_expires_at = now + 24 * 3600000\<rparr>]\<rparr>))"

definition set_processed :: "string \<Rightarrow> unit statement" where
  "set_processed evid now d = Inr ((), d\<lparr>processed_events :=
     map (\<lambda>r. if pr_event_id r = uuid_in evid then r\<lparr>pr_processed_at := Some now\<rparr> else r) (processed_events d)\<rparr>)"

definition delete_processed :: "string \<Rightarrow> unit statement" where
  "delete_processed evid now d =
     Inr ((), d\<lparr>processed_events := filter (\<lambda>r. pr_event_id r \<noteq> uuid_in evid) (processed_events d)\<rparr>)"

datatype process_result = Processed | Duplicate

definition simulateNotificationWork :: "order_created_event \<Rightarrow> (worker, unit) io" where
  "simulateNotificationWork event = io_modify (\<lambda>s. s\<lparr>notified := notified s @ [event]\<rparr>)"

definition processEvent :: "order_created_event \<Rightarrow> (worker, process_result) io" where
  "processEvent event =
     io_bind (on_wk (pg_pool (insert_processed (eventId event) ''order.created''))) (\<lambda>rowCount.
       if rowCount = 0 then io_return Duplicate
       else io_catch
         (io_bind (simulateNotificationWork event) (\<lambda>u.
          io_bind (on_wk (pg_pool (set_processed (eventId event)))) (\<lambda>u.
          io_return Processed)))
         (\<lambda>error. io_bind (on_wk (pg_pool (delete_processed (eventId event)))) (\<lambda>u. io_throw error)))"

text \<open>
  The race against the timer: \<open>elapsed\<close> is the time the processing takes in this run. When the
  timer wins, the processing still runs to its end; only its outcome is dropped.
\<close>

definition timed_out :: "worker_config \<Rightarrow> js_error" where
  "timed_out cfg = JsError (''Message processing exceeded '' @ int_to_string (wc_processingTimeoutMs cfg) @ '' ms'') None"

definition withProcessingTimeout :: "worker_config \<Rightarrow> nat \<Rightarrow> (worker, 'a) io \<Rightarrow> (worker, 'a) io" where
  "withProcessingTimeout cfg elapsed m s = (case m s of (r, t) \<Rightarrow>
     (if int elapsed < timer_ms (wc_processingTimeoutMs cfg) then r else Inl (timed_out cfg), t))"

section \<open>Acknowledging, retrying, dead-lettering\<close>

text \<open>\<open>channel.ack(message)\<close> on the current channel object; a \<open>TypeError\<close> if there is none.\<close>

definition null_channel :: js_error where
  "null_channel = JsError ''Cannot read properties of null (reading 'ack')'' None"

definition channel_ack :: "delivery \<Rightarrow> (worker, unit) io" where
  "channel_ack dl = io_bind (io_get wk_channel) (\<lambda>channel. case channel of
     None \<Rightarrow> io_throw null_channel
   | Some c \<Rightarrow> io_modify (\<lambda>s. s\<lparr>acked := acked s @ [(c, dl_tag dl)]\<rparr>))"

definition sendToQueue :: "string \<Rightarrow> amqp_message \<Rightarrow> (worker, unit) io" where
  "sendToQueue q m = io_modify (\<lambda>s. s\<lparr>sent := sent s @ [(q, m)]\<rparr>)"

text \<open>
  \<open>Number(v ?? 0)\<close>: \<open>None\<close> is \<open>NaN\<close>. Texts are read as decimal integers; other notations of
  numbers, arrays and objects do not occur as this header and count as \<open>NaN\<close>.
\<close>

definition number_text :: "string \<Rightarrow> int option" where
  "number_text s = (let t = js_trim s in
     if t = [] then Some 0
     else (case parseInt t of
             None \<Rightarrow> None
           | Some n \<Rightarrow> if t = int_to_string n then Some n else None))"

definition header_number :: "json option \<Rightarrow> int option" where
  "header_number v = (case v of
     None \<Rightarrow> Some 0
   | Some JNull \<Rightarrow> Some 0
   | Some (JNum n) \<Rightarrow> Some n
   | Some (JBool b) \<Rightarrow> Some (if b then 1 else 0)
   | Some (JStr s) \<Rightarrow> number_text s
   | _ \<Rightarrow> None)"

definition number_json :: "int option \<Rightarrow> json" where
  "number_json n = (case n of None \<Rightarrow> JDec ''NaN'' | Some i \<Rightarrow> JNum i)"

definition next_headers :: "(string \<times> json) list \<Rightarrow> string \<Rightarrow> (string \<times> json) list" where
  "next_headers headers message =
     obj_put ''x-last-error'' (JStr message)
       (obj_put ''x-retry-count'' (number_json (map_option (\<lambda>n. n + 1) (header_number (map_of headers ''x-retry-count''))))
          headers)"

definition requeueOrDeadLetter :: "worker_config \<Rightarrow> delivery \<Rightarrow> js_error \<Rightarrow> (worker, unit) io" where
  "requeueOrDeadLetter cfg dl error =
     io_bind (io_get wk_channel) (\<lambda>channel.
       if channel = None then io_return ()
       else
         let m = dl_message dl;
             retryCount = header_number (map_of (am_headers m) ''x-retry-count'');
             next = m\<lparr>am_headers := next_headers (am_headers m) (err_message error)\<rparr>;
             exhausted = (case retryCount of None \<Rightarrow> False | Some n \<Rightarrow> wc_maxRetries cfg \<le> n)
         in io_bind (sendToQueue (if exhausted then deadLetterQueue cfg else retryQueue cfg) next)
              (\<lambda>u. channel_ack dl))"

text \<open>
  What happens to the connection while a message is being processed: the channel variable as
  the handlers of the connection leave it.
\<close>

record run_env =
  elapsed_ms :: nat
  channel_after :: "nat option \<Rightarrow> nat option"

definition during_processing :: "run_env \<Rightarrow> (worker, unit) io" where
  "during_processing env = io_modify (\<lambda>s. s\<lparr>wk_channel := channel_after env (wk_channel s)\<rparr>)"

definition handle_body :: "worker_config \<Rightarrow> run_env \<Rightarrow> delivery \<Rightarrow> (worker, unit) io" where
  "handle_body cfg env dl =
     io_bind (lift_result (parseEvent (dl_message dl))) (\<lambda>event.
     io_bind (withProcessingTimeout cfg (elapsed_ms env)
        (io_finally (processEvent event) (during_processing env))) (\<lambda>result.
     channel_ack dl))"

definition handleMessage :: "worker_config \<Rightarrow> run_env \<Rightarrow> delivery option \<Rightarrow> (worker, unit) io" where
  "handleMessage cfg env message =
     io_bind (io_get wk_channel) (\<lambda>channel.
       case message of
         None \<Rightarrow> io_return ()
       | Some dl \<Rightarrow>
           if channel = None then io_return ()
           else io_bind (io_modify (\<lambda>s. s\<lparr>inFlight := inFlight s + 1\<rparr>)) (\<lambda>u.
             io_finally
               (io_catch (handle_body cfg env dl) (\<lambda>error. requeueOrDeadLetter cfg dl error))
               (io_modify (\<lambda>s. s\<lparr>inFlight := inFlight s - 1\<rparr>))))"

section \<open>Connecting\<close>

definition wk_lose :: "amqp_loss \<Rightarrow> worker \<Rightarrow> worker" where
  "wk_lose l s = (case l of ConnectionCloses \<Rightarrow> s\<lparr>wk_channel := None, wk_consumerTag := False\<rparr> | _ \<Rightarrow> s)"

definition wk_call :: "(worker, unit) io" where
  "wk_call s = (case wk_script s of
     [] \<Rightarrow> (Inr (), s)
   | AmqpOk # fs \<Rightarrow> (Inr (), s\<lparr>wk_script := fs\<rparr>)
   | AmqpFail e applied l # fs \<Rightarrow> (Inl e, wk_lose l (s\<lparr>wk_script := fs\<rparr>)))"

fun wk_calls :: "nat \<Rightarrow> (worker, unit) io" where
  "wk_calls 0 = io_return ()"
| "wk_calls (Suc n) = io_bind wk_call (\<lambda>u. wk_calls n)"

text \<open>
  \<open>connect\<close> and \<open>createChannel\<close>, then, with the variable \<open>channel\<close> already set, the exchange,
  the three queues, the binding and the prefetch.
\<close>

definition setupRabbit :: "(worker, unit) io" where
  "setupRabbit =
     io_bind (io_get wk_channel) (\<lambda>channel.
       if channel \<noteq> None then io_return ()
       else
         io_bind (wk_calls 2) (\<lambda>u.
         io_bind (io_modify (\<lambda>s. s\<lparr>wk_channel := Some (wk_channels_made s), wk_channels_made := wk_channels_made s + 1\<rparr>)) (\<lambda>u.
         wk_calls 6)))"

definition startConsumer :: "(worker, unit) io" where
  "startConsumer = io_bind setupRabbit (\<lambda>u. io_bind wk_call (\<lambda>u. io_modify (\<lambda>s. s\<lparr>wk_consumerTag := True\<rparr>)))"

partial_function (option) reconnect_from :: "int \<Rightarrow> worker \<Rightarrow> worker option" where
  "reconnect_from delayMs s =
     (if wk_shuttingDown s \<or> wk_channel s \<noteq> None then Some s
      else (case io_bind setupRabbit (\<lambda>u. startConsumer) s of
              (Inr u, t) \<Rightarrow> Some t
            | (Inl e, t) \<Rightarrow> reconnect_from (min (delayMs * 2) 30000) (t\<lparr>delays := delays t @ [delayMs]\<rparr>)))"

definition reconnectLoop :: "worker \<Rightarrow> worker option" where
  "reconnectLoop s = reconnect_from 1000 s"

text \<open>The readiness answer about the broker, and the start of \<open>shutdown\<close>.\<close>

definition broker_ready :: "worker \<Rightarrow> bool" where
  "broker_ready s = (wk_channel s \<noteq> None \<and> wk_consumerTag s)"

text \<open>\<open>GET /health/live\<close> and \<open>GET /health/ready\<close>: a failed query is caught, and both answers are reported.\<close>

definition wk_get_live :: response where
  "wk_get_live = \<lparr>resp_status = 200, resp_body = JObj [(''status'', JStr ''ok'')]\<rparr>"

definition wk_get_ready :: "(worker, response) io" where
  "wk_get_ready =
     io_bind (io_catch (io_bind (on_wk (pg_pool (\<lambda>now d. Inr ((), d)))) (\<lambda>u. io_return True)) (\<lambda>e. io_return False)) (\<lambda>datastore.
     io_bind (io_get broker_ready) (\<lambda>broker.
       let shown = (\<lambda>ok. JStr (if ok then ''ok'' else ''failed'')); ready = datastore \<and> broker in
       io_return \<lparr>resp_status = if ready then 200 else 503,
         resp_body = JObj [(''status'', JStr (if ready then ''ready'' else ''not_ready'')),
           (''dependencies'', JObj [(''Datastore'', shown datastore), (''Message_Broker'', shown broker)])]\<rparr>))"

end
