(* ===== verification/Outbox_Publisher.thy ===== *)
theory Outbox_Publisher
  imports Broker Api_Config
begin

text \<open>
  \<open>packages/outbox-publisher/src/index.ts\<close>: the poll that reads due outbox rows in a
  transaction, publishes each with a confirm, and marks it published or schedules the next
  attempt. The metrics other than the gauge are left out.
\<close>

section \<open>State\<close>

record publisher_config =
  pc_port :: int
  pc_databaseUrl :: string
  pc_rabbitmqUrl :: string
  pc_exchange :: string
  pc_batchSize :: int
  pc_pollIntervalMs :: int

definition load_publisher_config :: "environment \<Rightarrow> js_error + publisher_config" where
  "load_publisher_config env =
     res_bind (optionalIntEnv env ''OUTBOX_PORT'' 3001) (\<lambda>a_port.
     res_bind (requiredEnv env ''DATABASE_URL'') (\<lambda>a_db.
     res_bind (requiredEnv env ''RABBITMQ_URL'') (\<lambda>a_mq.
     res_bind (optionalIntEnv env ''OUTBOX_BATCH_SIZE'' 100) (\<lambda>a_batch.
     res_bind (optionalIntEnv env ''OUTBOX_POLL_INTERVAL_MS'' 1000) (\<lambda>a_poll.
     res_bind (optionalIntEnv env ''DB_POOL_MAX'' 5) (\<lambda>a_pool.
     res_bind (optionalIntEnv env ''DB_STATEMENT_TIMEOUT_MS'' 10000) (\<lambda>a_stmt.
     res_bind (optionalIntEnv env ''DB_IDLE_IN_TRANSACTION_TIMEOUT_MS'' 30000) (\<lambda>a_idle.
     res_bind (optionalIntEnv env ''DB_CONNECTION_TIMEOUT_MS'' 5000) (\<lambda>a_conn.
     Inr \<lparr> pc_port = a_port, pc_databaseUrl = a_db, pc_rabbitmqUrl = a_mq,
           pc_exchange = env_or env ''RABBITMQ_EXCHANGE'' ''orders'',
           pc_batchSize = a_batch, pc_pollIntervalMs = a_poll \<rparr>)))))))))"

text \<open>
  The variables of the module. \<open>channel\<close> holds \<open>null\<close> (\<open>None\<close>) or a channel object, which may
  have been closed (\<open>Some False\<close>). \<open>confirmed\<close> is what the broker has accepted. \<open>row_locks\<close>
  are the outbox rows other publishers hold locked.
\<close>

record publisher =
  pub_pg :: "database pg_world"
  pub_connection :: bool
  pub_channel :: "bool option"
  pub_shuttingDown :: bool
  pub_timer :: bool
  pub_crashed :: "js_error option"
  unpublishedGauge :: int
  amqp_script :: "amqp_fate list"
  confirmed :: "amqp_message list"
  row_locks :: "string list"

definition on_pub :: "(database pg_world \<Rightarrow> (js_error + 'a) \<times> database pg_world) \<Rightarrow> (publisher, 'a) io" where
  "on_pub f s = (case f (pub_pg s) of (r, w) \<Rightarrow> (r, s\<lparr>pub_pg := w\<rparr>))"

text \<open>What an event handler of the connection does to the variables when something closes.\<close>

definition lose :: "amqp_loss \<Rightarrow> publisher \<Rightarrow> publisher" where
  "lose l s = (case l of
     KeepsOpen \<Rightarrow> s
   | ChannelCloses \<Rightarrow> s\<lparr>pub_channel := map_option (\<lambda>_. False) (pub_channel s)\<rparr>
   | ConnectionCloses \<Rightarrow> s\<lparr>pub_channel := None, pub_connection := False\<rparr>)"

definition amqp_call :: "(publisher \<Rightarrow> publisher) \<Rightarrow> (publisher, unit) io" where
  "amqp_call effect s = (case amqp_script s of
     [] \<Rightarrow> (Inr (), effect s)
   | AmqpOk # fs \<Rightarrow> (Inr (), effect (s\<lparr>amqp_script := fs\<rparr>))
   | AmqpFail e applied l # fs \<Rightarrow>
       (Inl e, lose l (if applied then effect (s\<lparr>amqp_script := fs\<rparr>) else s\<lparr>amqp_script := fs\<rparr>)))"

section \<open>Publishing\<close>

definition backoffSeconds :: "int \<Rightarrow> int" where
  "backoffSeconds attempts = min 60 (max 1 (2 ^ nat (min attempts 6)))"

text \<open>\<open>amqp.connect\<close>, \<open>createConfirmChannel\<close>, \<open>assertExchange\<close>.\<close>

definition connectRabbit :: "(publisher, unit) io" where
  "connectRabbit =
     io_bind (io_get pub_channel) (\<lambda>channel.
       if channel \<noteq> None then io_return ()
       else
         io_bind (amqp_call (\<lambda>s. s)) (\<lambda>u.
         io_bind (io_modify (\<lambda>s. s\<lparr>pub_connection := True\<rparr>)) (\<lambda>u.
         io_bind (amqp_call (\<lambda>s. s)) (\<lambda>u.
         io_bind (io_modify (\<lambda>s. s\<lparr>pub_channel := Some True\<rparr>)) (\<lambda>u.
         amqp_call (\<lambda>s. s))))))"

definition message_of :: "outbox_row \<Rightarrow> amqp_message" where
  "message_of row =
     (let e = ob_payload row in
      \<lparr> am_routing_key = ob_event_type row,
        am_content = JSON_stringify (event_json e),
        am_message_id = Some (eventId e),
        am_type = Some (ob_event_type row),
        am_headers =
          [(''x-correlation-id'', JStr (case correlationId e of Some c \<Rightarrow> c | None \<Rightarrow> eventId e)),
           (''x-event-type'', JStr (ob_event_type row))] \<rparr>)"

definition channel_closed :: js_error where
  "channel_closed = JsError ''Channel closed'' None"

text \<open>Publishing on a closed channel object throws; otherwise the confirm decides.\<close>

definition publish :: "outbox_row \<Rightarrow> (publisher, unit) io" where
  "publish row =
     io_bind connectRabbit (\<lambda>u.
     io_bind (io_get pub_channel) (\<lambda>channel.
       if channel = Some False then io_throw channel_closed
       else amqp_call (\<lambda>s. s\<lparr>confirmed := confirmed s @ [message_of row]\<rparr>)))"

section \<open>Statements\<close>

text \<open>
  \<open>SELECT ... WHERE published_at IS NULL AND next_attempt_at <= now() ORDER BY occurred_at ASC
  LIMIT $1 FOR UPDATE SKIP LOCKED\<close>.
\<close>

definition due :: "int \<Rightarrow> outbox_row \<Rightarrow> bool" where
  "due now row = (ob_published_at row = None \<and> ob_next_attempt_at row \<le> now)"

definition bad_limit :: js_error where
  "bad_limit = pg_error ''2201W'' ''LIMIT must not be negative''"

definition select_due :: "string list \<Rightarrow> int \<Rightarrow> outbox_row list statement" where
  "select_due locked batchSize now d =
     (if batchSize < 0 then Inl bad_limit
      else Inr (take (nat batchSize) (sort_key ob_occurred_at
             (filter (\<lambda>row. due now row \<and> ob_id row \<notin> set locked) (outbox_events d))), d))"

definition update_outbox :: "string \<Rightarrow> (outbox_row \<Rightarrow> outbox_row) \<Rightarrow> database \<Rightarrow> database" where
  "update_outbox i f d = d\<lparr>outbox_events := map (\<lambda>row. if ob_id row = i then f row else row) (outbox_events d)\<rparr>"

definition mark_published :: "string \<Rightarrow> unit statement" where
  "mark_published i now d =
     Inr ((), update_outbox i (\<lambda>row. row\<lparr>ob_published_at := Some now, ob_last_error := None\<rparr>) d)"

text \<open>Times are in milliseconds.\<close>

definition record_failure :: "string \<Rightarrow> int \<Rightarrow> string \<Rightarrow> int \<Rightarrow> unit statement" where
  "record_failure i attempts message seconds now d =
     (if \<not> int4_ok attempts then Inl out_of_range
      else if \<not> text_ok message then Inl bad_text
      else Inr ((), update_outbox i (\<lambda>row. row\<lparr>ob_attempts := attempts, ob_last_error := Some message,
             ob_next_attempt_at := now + seconds * 1000\<rparr>) d))"

definition count_unpublished :: "int statement" where
  "count_unpublished now d = Inr (int (length (filter (\<lambda>row. ob_published_at row = None) (outbox_events d))), d)"

section \<open>The poll\<close>

definition refreshUnpublishedGauge :: "(publisher, unit) io" where
  "refreshUnpublishedGauge = io_bind (on_pub (pg_pool count_unpublished)) (\<lambda>n.
     io_modify (\<lambda>s. s\<lparr>unpublishedGauge := n\<rparr>))"

fun publish_rows :: "outbox_row list \<Rightarrow> (publisher, unit) io" where
  "publish_rows [] = io_return ()"
| "publish_rows (row # rows) =
     io_bind
       (io_catch
         (io_bind (publish row) (\<lambda>u. on_pub (pg_run (mark_published (ob_id row)))))
         (\<lambda>error. let nextAttempt = ob_attempts row + 1 in
            on_pub (pg_run (record_failure (ob_id row) nextAttempt (err_message error) (backoffSeconds nextAttempt)))))
       (\<lambda>u. publish_rows rows)"

definition pub_release :: "(publisher, unit) io" where
  "pub_release = io_modify (\<lambda>s. s\<lparr>pub_pg := (pub_pg s)\<lparr>clients_out := clients_out (pub_pg s) - 1\<rparr>\<rparr>)"

definition poll_txn :: "publisher_config \<Rightarrow> (publisher, unit) io" where
  "poll_txn cfg =
     io_bind (on_pub pg_begin) (\<lambda>u.
     io_bind (io_get row_locks) (\<lambda>locked.
     io_bind (on_pub (pg_run (select_due locked (pc_batchSize cfg)))) (\<lambda>rows.
     io_bind (publish_rows rows) (\<lambda>u. on_pub pg_commit))))"

definition pollOnce :: "publisher_config \<Rightarrow> (publisher, unit) io" where
  "pollOnce cfg =
     io_bind (on_pub pg_connect) (\<lambda>u.
       io_finally
         (io_catch (poll_txn cfg) (\<lambda>error. on_pub pg_rollback))
         (io_bind pub_release (\<lambda>u. io_catch refreshUnpublishedGauge (\<lambda>error. io_return ()))))"

text \<open>
  \<open>schedulePoll\<close> sets a timer unless the service is shutting down. When it fires, the poll runs
  and the timer is set again; a rejected poll is an unhandled rejection, which ends the process.
\<close>

definition schedulePoll :: "publisher \<Rightarrow> publisher" where
  "schedulePoll s = (if pub_shuttingDown s then s else s\<lparr>pub_timer := True\<rparr>)"

definition timer_fires :: "publisher_config \<Rightarrow> publisher \<Rightarrow> publisher" where
  "timer_fires cfg s = (case pollOnce cfg (s\<lparr>pub_timer := False\<rparr>) of
     (Inl e, t) \<Rightarrow> (schedulePoll t)\<lparr>pub_crashed := Some e\<rparr>
   | (Inr u, t) \<Rightarrow> schedulePoll t)"

text \<open>The first steps of \<open>shutdown\<close>: no poll starts afterwards.\<close>

definition pub_shutdown :: "publisher \<Rightarrow> publisher" where
  "pub_shutdown s = s\<lparr>pub_shuttingDown := True, pub_timer := False\<rparr>"

end
