(* ===== verification/Order_Query.thy ===== *)
theory Order_Query
  imports Order_Store
begin

text \<open>
  \<open>listOrdersQuerySchema\<close> of \<open>schemas/order.schemas.ts\<close>: how the query string of
  \<open>GET /v1/orders\<close> becomes a typed query. \<open>z.coerce.number()\<close> is \<open>Number(x)\<close>, whose
  reading of texts is translated here for numbers that are integers. The syntax of date-times
  (\<open>z.string().datetime\<close>), \<open>Date.parse\<close> on it and the reading of a text as \<open>timestamptz\<close>
  by the database are the parameter \<open>time_texts\<close>.
\<close>

record time_texts =
  tt_datetime :: "string \<Rightarrow> bool"
  tt_getTime :: "string \<Rightarrow> int option"
  tt_timestamptz :: "string \<Rightarrow> int option"

record list_orders_query =
  lq_page :: int
  lq_pageSize :: int
  lq_status :: "order_status option"
  lq_customerEmail :: "string option"
  lq_createdAfter :: "string option"
  lq_createdBefore :: "string option"

section \<open>\<open>Number\<close>\<close>

text \<open>
  The value of a decimal literal as sign, digits and a power of ten; only integral values matter
  (\<open>.int()\<close>). Values from \<open>2^1024 - 2^970\<close> on round to infinity, which is no integer. Texts
  with more digits than a double holds are read exactly here and rounded by JavaScript.
\<close>

definition integral :: "bool \<Rightarrow> nat \<Rightarrow> int \<Rightarrow> int option" where
  "integral neg digits e =
     (let magnitude = (if 0 \<le> e then Some (int digits * 10 ^ nat e)
                       else if 10 ^ nat (- e) dvd int digits then Some (int digits div 10 ^ nat (- e)) else None)
      in case magnitude of
           None \<Rightarrow> None
         | Some v \<Rightarrow> if v < 2 ^ 1024 - 2 ^ 970 then Some (if neg then - v else v) else None)"

definition exponent :: "string \<Rightarrow> int option" where
  "exponent t = (case t of
     [] \<Rightarrow> Some 0
   | c # rest \<Rightarrow>
       if c = CHR ''e'' \<or> c = CHR ''E''
       then (case rest of
               [] \<Rightarrow> None
             | d # ds \<Rightarrow>
                 if d = CHR ''-'' \<or> d = CHR ''+''
                 then (if ds \<noteq> [] \<and> list_all is_digit ds
                       then Some ((if d = CHR ''-'' then -1 else 1) * int (digits_val ds)) else None)
                 else if list_all is_digit rest then Some (int (digits_val rest)) else None)
       else None)"

definition decimal_text :: "bool \<Rightarrow> string \<Rightarrow> int option" where
  "decimal_text neg t =
     (let whole = takeWhile is_digit t; after = dropWhile is_digit t;
          point = (after \<noteq> [] \<and> hd after = CHR ''.'');
          frac = (if point then takeWhile is_digit (tl after) else []);
          rest = (if point then dropWhile is_digit (tl after) else after)
      in if whole = [] \<and> frac = [] then None
         else (case exponent rest of
                 None \<Rightarrow> None
               | Some e \<Rightarrow> integral neg (digits_val (whole @ frac)) (e - int (length frac))))"

definition hex_val :: "char \<Rightarrow> nat" where
  "hex_val c = (let n = (of_char c :: nat) in
     if n \<le> 57 then n - 48 else if n \<le> 70 then n - 55 else n - 87)"

text \<open>\<open>0x\<close>, \<open>0o\<close>, \<open>0b\<close>: digits below the base, without a sign.\<close>

definition radix_text :: "nat \<Rightarrow> string \<Rightarrow> int option" where
  "radix_text base ds =
     (if ds \<noteq> [] \<and> list_all (\<lambda>c. is_hex c \<and> hex_val c < base) ds
      then integral False (foldl (\<lambda>v c. base * v + hex_val c) 0 ds) 0 else None)"

definition number_of_text :: "string \<Rightarrow> int option" where
  "number_of_text s = (case js_trim s of
     [] \<Rightarrow> Some 0
   | c # cs \<Rightarrow>
       if c = CHR ''-'' then decimal_text True cs
       else if c = CHR ''+'' then decimal_text False cs
       else if c = CHR ''0'' \<and> cs \<noteq> [] \<and> hd cs \<in> set ''xX'' then radix_text 16 (tl cs)
       else if c = CHR ''0'' \<and> cs \<noteq> [] \<and> hd cs \<in> set ''oO'' then radix_text 8 (tl cs)
       else if c = CHR ''0'' \<and> cs \<noteq> [] \<and> hd cs \<in> set ''bB'' then radix_text 2 (tl cs)
       else decimal_text False (c # cs))"

text \<open>
  \<open>Number(x)\<close> on what the query parser makes: a text, or the list of the texts of a
  repeated parameter, which is read as the texts joined by commas.
\<close>

definition coerce_number :: "json \<Rightarrow> int option" where
  "coerce_number j = (case j of
     JStr s \<Rightarrow> number_of_text s
   | JNum n \<Rightarrow> Some n
   | JNull \<Rightarrow> Some 0
   | JBool b \<Rightarrow> Some (if b then 1 else 0)
   | JArr xs \<Rightarrow> if list_all (\<lambda>x. case x of JStr s \<Rightarrow> True | _ \<Rightarrow> False) xs
       then number_of_text (join '','' (map (\<lambda>x. case x of JStr s \<Rightarrow> s | _ \<Rightarrow> []) xs)) else None
   | _ \<Rightarrow> None)"

section \<open>The schema\<close>

text \<open>\<open>.optional()\<close>: absent is fine, present must pass.\<close>

definition optional_field :: "(json \<Rightarrow> 'a option) \<Rightarrow> json option \<Rightarrow> 'a option option" where
  "optional_field schema field = (case field of None \<Rightarrow> Some None | Some j \<Rightarrow> map_option Some (schema j))"

definition text_schema :: "(string \<Rightarrow> bool) \<Rightarrow> json \<Rightarrow> string option" where
  "text_schema ok j = (case j of JStr s \<Rightarrow> if ok s then Some s else None | _ \<Rightarrow> None)"

definition status_schema :: "json \<Rightarrow> order_status option" where
  "status_schema j = (case j of JStr s \<Rightarrow> parse_status s | _ \<Rightarrow> None)"

text \<open>The refinement: \<open>!createdAfter || !createdBefore || after.getTime() <= before.getTime()\<close>.\<close>

definition range_ok :: "time_texts \<Rightarrow> string option \<Rightarrow> string option \<Rightarrow> bool" where
  "range_ok T after before = (case (after, before) of
     (Some a, Some b) \<Rightarrow> a = [] \<or> b = [] \<or>
       (case (tt_getTime T a, tt_getTime T b) of (Some x, Some y) \<Rightarrow> x \<le> y | _ \<Rightarrow> False)
   | _ \<Rightarrow> True)"

definition listOrdersQuerySchema :: "time_texts \<Rightarrow> json \<Rightarrow> list_orders_query option" where
  "listOrdersQuerySchema T raw = (case raw of
     JObj ps \<Rightarrow>
       (case (page_field (map_option coerce_number (map_of ps ''page'')),
              pageSize_field (map_option coerce_number (map_of ps ''pageSize'')),
              optional_field status_schema (map_of ps ''status''),
              optional_field (text_schema emailSchema) (map_of ps ''customerEmail''),
              optional_field (text_schema (tt_datetime T)) (map_of ps ''createdAfter''),
              optional_field (text_schema (tt_datetime T)) (map_of ps ''createdBefore'')) of
          (Some p, Some n, Some st, Some email, Some after, Some before) \<Rightarrow>
            if range_ok T after before
            then Some \<lparr>lq_page = p, lq_pageSize = n, lq_status = st, lq_customerEmail = email,
                       lq_createdAfter = after, lq_createdBefore = before\<rparr>
            else None
        | _ \<Rightarrow> None)
   | _ \<Rightarrow> None)"

lemma optional_textD:
  "optional_field (text_schema ok) f = Some x \<Longrightarrow> x = Some t \<Longrightarrow> ok t"
  by (auto simp: optional_field_def text_schema_def split: option.splits json.splits if_splits)

text \<open>What a parsed query satisfies.\<close>

definition query_wf :: "time_texts \<Rightarrow> list_orders_query \<Rightarrow> bool" where
  "query_wf T q \<longleftrightarrow> 1 \<le> lq_page q \<and> 1 \<le> lq_pageSize q \<and> lq_pageSize q \<le> 100 \<and>
     (\<forall>e. lq_customerEmail q = Some e \<longrightarrow> emailSchema e) \<and>
     (\<forall>t. lq_createdAfter q = Some t \<or> lq_createdBefore q = Some t \<longrightarrow> tt_datetime T t) \<and>
     range_ok T (lq_createdAfter q) (lq_createdBefore q)"

lemma listOrdersQuerySchema_wf: "listOrdersQuerySchema T raw = Some q \<Longrightarrow> query_wf T q"
  unfolding listOrdersQuerySchema_def query_wf_def
  by (auto simp: page_field_def pageSize_field_def split: json.splits option.splits if_splits dest: optional_textD)

end
