(* ===== verification/Js_Uri.thy ===== *)
theory Js_Uri
  imports Js_Text
begin

text \<open>
  \<open>encodeURIComponent\<close> of the JavaScript standard library, and the fact the cache keys
  rest on: it is injective, and its result contains only unreserved characters and percent
  escapes, so no separator of a cache key can occur in an encoded value.
\<close>

definition is_unreserved :: "char \<Rightarrow> bool" where
  "is_unreserved c = (let n = (of_char c :: nat) in
     (65 \<le> n \<and> n \<le> 90) \<or> (97 \<le> n \<and> n \<le> 122) \<or> (48 \<le> n \<and> n \<le> 57) \<or>
     n \<in> {33, 39, 40, 41, 42, 45, 46, 95, 126})"

definition hex_digit :: "nat \<Rightarrow> char" where
  "hex_digit d = (if d < 10 then char_of (48 + d) else char_of (55 + d))"

definition pct :: "nat \<Rightarrow> string" where
  "pct b = [CHR ''%'', hex_digit (b div 16), hex_digit (b mod 16)]"

text \<open>One code unit: unreserved as it is, otherwise the percent-escaped bytes of its UTF-8 form.\<close>

definition encode_char :: "char \<Rightarrow> string" where
  "encode_char c = (let n = of_char c in
     if is_unreserved c then [c]
     else if n < 128 then pct n
     else pct (192 + n div 64) @ pct (128 + n mod 64))"

definition encodeURIComponent :: "string \<Rightarrow> string" where
  "encodeURIComponent s = concat (map encode_char s)"

lemma encodeURIComponent_simps [simp]:
  "encodeURIComponent [] = []"
  "encodeURIComponent (c # s) = encode_char c @ encodeURIComponent s"
  by (simp_all add: encodeURIComponent_def)

lemma of_char_hex_digit: "d < 16 \<Longrightarrow> (of_char (hex_digit d) :: nat) = (if d < 10 then 48 + d else 55 + d)"
  by (simp add: hex_digit_def of_char_of)

lemma hex_digit_inj:
  assumes "d < 16" and "e < 16"
  shows "hex_digit d = hex_digit e \<longleftrightarrow> d = e"
proof
  assume "hex_digit d = hex_digit e"
  then have "(of_char (hex_digit d) :: nat) = of_char (hex_digit e)" by simp
  with assms show "d = e" by (simp add: of_char_hex_digit split: if_splits)
qed simp

lemma pct_inj: "b < 256 \<Longrightarrow> d < 256 \<Longrightarrow> pct b = pct d \<longleftrightarrow> b = d"
proof -
  assume b: "b < 256" and d: "d < 256"
  have "pct b = pct d \<longleftrightarrow> b div 16 = d div 16 \<and> b mod 16 = d mod 16"
    using b d by (simp add: pct_def hex_digit_inj)
  also have "\<dots> \<longleftrightarrow> b = d" by (metis div_mult_mod_eq)
  finally show ?thesis .
qed

lemma length_pct [simp]: "length (pct b) = 3"
  by (simp add: pct_def)

lemma pct_hd: "pct b = CHR ''%'' # tl (pct b)"
  by (simp add: pct_def)

lemma unreserved_not_percent: "is_unreserved c \<Longrightarrow> c \<noteq> CHR ''%''"
  by (auto simp: is_unreserved_def)

lemma of_char_less: "(of_char c :: nat) < 256"
  by simp

lemma of_char_inj_nat: "(of_char c :: nat) = of_char d \<longleftrightarrow> c = d"
  by simp

text \<open>\<open>encode_char\<close> is a prefix code: where two encodings start the same text, they are equal.\<close>

lemma encode_char_cases:
  obtains (unreserved) "is_unreserved c" "encode_char c = [c]"
  | (ascii) "\<not> is_unreserved c" "(of_char c :: nat) < 128" "encode_char c = pct (of_char c)"
  | (latin) "\<not> is_unreserved c" "128 \<le> (of_char c :: nat)"
      "encode_char c = pct (192 + of_char c div 64) @ pct (128 + of_char c mod 64)"
  by (cases "is_unreserved c"; cases "(of_char c :: nat) < 128")
    (auto simp: encode_char_def Let_def)

lemma latin_lead: "(n::nat) < 256 \<Longrightarrow> 192 + n div 64 < 256"
  by simp

lemma encode_char_append_inj:
  assumes "encode_char c @ xs = encode_char d @ ys"
  shows "c = d \<and> xs = ys"
proof -
  let ?n = "of_char c :: nat" and ?m = "of_char d :: nat"
  have n: "?n < 256" and m: "?m < 256" by simp_all
  have pre: "pct b = pct e \<and> us = vs" if "pct b @ us = pct e @ vs" for b e us vs
    using that by (simp add: append_eq_append_conv)
  show ?thesis
  proof (cases c rule: encode_char_cases)
    case unreserved
    then show ?thesis using assms unreserved_not_percent[OF unreserved(1)]
      by (cases d rule: encode_char_cases) (auto simp: pct_def)
  next
    case c: ascii
    show ?thesis
    proof (cases d rule: encode_char_cases)
      case unreserved
      then show ?thesis using assms c unreserved_not_percent[OF unreserved(1)] by (auto simp: pct_def)
    next
      case ascii
      with assms c pre[of ?n xs ?m ys] show ?thesis by (simp add: pct_inj)
    next
      case latin
      with assms c pre[of ?n xs "192 + ?m div 64" "pct (128 + ?m mod 64) @ ys"]
      have "?n = 192 + ?m div 64" using m by (simp add: pct_inj)
      with c show ?thesis by simp
    qed
  next
    case c: latin
    show ?thesis
    proof (cases d rule: encode_char_cases)
      case unreserved
      then show ?thesis using assms c unreserved_not_percent[OF unreserved(1)] by (auto simp: pct_def)
    next
      case ascii
      with assms c pre[of "192 + ?n div 64" "pct (128 + ?n mod 64) @ xs" ?m ys]
      have "192 + ?n div 64 = ?m" using n by (simp add: pct_inj)
      with ascii show ?thesis by simp
    next
      case latin
      have lead: "192 + ?n div 64 = 192 + ?m div 64"
        and rest: "pct (128 + ?n mod 64) @ xs = pct (128 + ?m mod 64) @ ys"
        using assms c latin pre[of "192 + ?n div 64" "pct (128 + ?n mod 64) @ xs"
            "192 + ?m div 64" "pct (128 + ?m mod 64) @ ys"] n m
        by (simp_all add: pct_inj)
      have trail: "128 + ?n mod 64 = 128 + ?m mod 64" and "xs = ys"
        using pre[OF rest] by (auto simp: pct_inj)
      moreover have "?n = ?m" using lead trail by (metis add_left_cancel div_mult_mod_eq)
      ultimately show ?thesis by simp
    qed
  qed
qed

lemma encode_char_nonempty: "encode_char c \<noteq> []"
  by (cases c rule: encode_char_cases) (auto simp: pct_def)

lemma encodeURIComponent_inj: "encodeURIComponent s = encodeURIComponent t \<longleftrightarrow> s = t"
proof (induction s arbitrary: t)
  case Nil
  then show ?case by (cases t) (auto simp: encode_char_nonempty)
next
  case (Cons c s)
  show ?case
  proof (cases t)
    case Nil
    then show ?thesis by (simp add: encode_char_nonempty)
  next
    case (Cons d t')
    then show ?thesis using Cons.IH[of t'] encode_char_append_inj[of c _ d] by auto
  qed
qed

text \<open>The characters of an encoded text.\<close>

definition uri_char :: "char \<Rightarrow> bool" where
  "uri_char c = (is_unreserved c \<or> c = CHR ''%'')"

lemma hex_digit_unreserved: "d < 16 \<Longrightarrow> is_unreserved (hex_digit d)"
  by (simp add: is_unreserved_def of_char_hex_digit Let_def)

lemma pct_uri_chars: "b < 256 \<Longrightarrow> c \<in> set (pct b) \<Longrightarrow> uri_char c"
  by (auto simp: pct_def uri_char_def hex_digit_unreserved)

lemma encode_char_uri: "x \<in> set (encode_char c) \<Longrightarrow> uri_char x"
proof (cases c rule: encode_char_cases)
  case unreserved
  then show "x \<in> set (encode_char c) \<Longrightarrow> uri_char x" by (simp add: uri_char_def)
next
  case ascii
  then have "(of_char c :: nat) < 256" by simp
  with ascii show "x \<in> set (encode_char c) \<Longrightarrow> uri_char x"
    using pct_uri_chars[of "of_char c" x] by simp
next
  case latin
  have "192 + (of_char c :: nat) div 64 < 256" by (simp add: latin_lead)
  with latin show "x \<in> set (encode_char c) \<Longrightarrow> uri_char x"
    by (auto intro: pct_uri_chars[of "192 + of_char c div 64"] pct_uri_chars[of "128 + of_char c mod 64"])
qed

lemma encodeURIComponent_chars: "c \<in> set (encodeURIComponent s) \<Longrightarrow> uri_char c"
  using encode_char_uri by (induction s) auto

lemma uri_char_separators: "\<not> uri_char CHR '':''" "\<not> uri_char CHR ''=''" "\<not> uri_char CHR '',''"
  by (simp_all add: uri_char_def is_unreserved_def)

lemma encodeURIComponent_no_sep:
  "CHR '':'' \<notin> set (encodeURIComponent s)" "CHR ''='' \<notin> set (encodeURIComponent s)"
  using encodeURIComponent_chars uri_char_separators by blast+

text \<open>The asterisk is unreserved, so the text \<open>*\<close> encodes to itself.\<close>

lemma encode_star: "encodeURIComponent ''*'' = ''*''"
  by (simp add: encode_char_def is_unreserved_def)

lemma encode_eq_star: "encodeURIComponent s = ''*'' \<longleftrightarrow> s = ''*''"
  using encodeURIComponent_inj[of s "''*''"] by (simp only: encode_star)

end
