(* ===== verification/Cache_Keys.thy ===== *)
theory Cache_Keys
  imports Api_Context Js_Uri
begin

text \<open>
  The cache keys of \<open>packages/api-service/src/utils/cache.ts\<close>: the namespaces, the version
  key of a namespace, and the keys of list pages and of counts. The lemmas say which texts
  can coincide: keys of one kind are equal only for the same version and the same shown
  parameters, and the three kinds never coincide.
\<close>

definition ns_ordersList :: string where "ns_ordersList = ''orders-list''"
definition ns_order :: string where "ns_order = ''order''"

text \<open>A value of a query object; objects are their properties in insertion order.\<close>

datatype js_value = JsUndefined | JsNull | JsNumber int | JsString string

type_synonym js_object = "(string \<times> js_value) list"

fun js_String :: "js_value \<Rightarrow> string" where
  "js_String JsUndefined = ''undefined''"
| "js_String JsNull = ''null''"
| "js_String (JsNumber n) = int_to_string n"
| "js_String (JsString s) = s"

fun js_prop :: "js_object \<Rightarrow> string \<Rightarrow> js_value" where
  "js_prop q k = (case map_of q k of None \<Rightarrow> JsUndefined | Some v \<Rightarrow> v)"

definition namespaceVersionKey :: "string \<Rightarrow> string" where
  "namespaceVersionKey namespace = ''cache:ver:'' @ namespace"

definition encode_param :: "js_value \<Rightarrow> string" where
  "encode_param raw =
     (if raw = JsUndefined \<or> raw = JsNull then ''*'' else encodeURIComponent (js_String raw))"

definition query_parts :: "js_object \<Rightarrow> string list" where
  "query_parts query =
     map (\<lambda>key. key @ ''='' @ encode_param (js_prop query key)) (sort (map fst query))"

definition buildListCacheKey :: "string \<Rightarrow> int \<Rightarrow> js_object \<Rightarrow> string" where
  "buildListCacheKey namespace version query =
     namespace @ '':v'' @ int_to_string version @ '':'' @ join '':'' (query_parts query)"

definition buildCountCacheKey :: "string \<Rightarrow> int \<Rightarrow> js_object \<Rightarrow> string" where
  "buildCountCacheKey namespace version query =
     namespace @ '':count:v'' @ int_to_string version @ '':'' @ join '':'' (query_parts query)"

section \<open>Which keys coincide\<close>

text \<open>What the key shows of a value: nothing for \<open>undefined\<close> and \<open>null\<close>, else its text.\<close>

definition shown :: "js_value \<Rightarrow> string option" where
  "shown raw = (if raw = JsUndefined \<or> raw = JsNull then None else Some (js_String raw))"

definition no_colon :: "string \<Rightarrow> bool" where
  "no_colon s = (CHR '':'' \<notin> set s)"

text \<open>
  Property names of query objects are identifiers of the source; a text value that is a
  lone asterisk is shown like a missing one, so it is excluded here.
\<close>

definition query_ok :: "js_object \<Rightarrow> bool" where
  "query_ok query = (distinct (map fst query) \<and>
     (\<forall>(k, v)\<in>set query. CHR '':'' \<notin> set k \<and> CHR ''='' \<notin> set k \<and> shown v \<noteq> Some ''*''))"

lemma encode_param_eq:
  "shown v \<noteq> Some ''*'' \<Longrightarrow> shown w \<noteq> Some ''*'' \<Longrightarrow> encode_param v = encode_param w \<longleftrightarrow> shown v = shown w"
  by (auto simp: encode_param_def shown_def encodeURIComponent_inj encode_eq_star
      dest: sym[of "''*''"])

lemma encode_param_star: "encode_param (JsString ''*'') = encode_param JsNull"
  by (simp add: encode_param_def encode_star del: encodeURIComponent_simps)

lemma encode_param_no_colon: "CHR '':'' \<notin> set (encode_param v)"
  using encodeURIComponent_no_sep(1) by (simp add: encode_param_def del: encodeURIComponent_simps)

lemma int_to_string_no_colon: "CHR '':'' \<notin> set (int_to_string n)"
  using int_to_string_chars[of "CHR '':''" n] by (auto simp: is_digit_def)

lemma query_ok_keys: "query_ok q \<Longrightarrow> k \<in> fst ` set q \<Longrightarrow> CHR '':'' \<notin> set k \<and> CHR ''='' \<notin> set k"
  by (force simp: query_ok_def)

lemma query_ok_shown: "query_ok q \<Longrightarrow> shown (js_prop q k) \<noteq> Some ''*''"
  by (auto simp: query_ok_def shown_def dest!: map_of_SomeD split: option.splits)

lemma query_parts_no_colon: "query_ok q \<Longrightarrow> \<forall>p\<in>set (query_parts q). CHR '':'' \<notin> set p"
  using query_ok_keys[of q] encode_param_no_colon by (auto simp: query_parts_def)

lemma query_parts_nonempty: "[] \<notin> set (query_parts q)"
  by (auto simp: query_parts_def)

text \<open>The parts determine the sorted property names and what is shown of every value.\<close>

lemma query_parts_inj:
  assumes "query_ok q" and "query_ok r" and "query_parts q = query_parts r"
  shows "sort (map fst q) = sort (map fst r)" and "shown (js_prop q k) = shown (js_prop r k)"
proof -
  let ?f = "\<lambda>q key. key @ ''='' @ encode_param (js_prop q key)"
  let ?ks = "sort (map fst q)" and ?ls = "sort (map fst r)"
  have eq: "map (?f q) ?ks = map (?f r) ?ls" using assms(3) by (simp add: query_parts_def)
  then have len: "length ?ks = length ?ls" by (rule map_eq_imp_length_eq)
  have nth: "?ks ! i = ?ls ! i \<and> encode_param (js_prop q (?ks ! i)) = encode_param (js_prop r (?ls ! i))"
    if i: "i < length ?ks" for i
  proof -
    have "map (?f q) ?ks ! i = map (?f r) ?ls ! i" by (simp only: eq)
    with i len have fields: "(?ks ! i) @ CHR ''='' # encode_param (js_prop q (?ks ! i)) =
        (?ls ! i) @ CHR ''='' # encode_param (js_prop r (?ls ! i))" by simp
    have "?ks ! i \<in> fst ` set q" "?ls ! i \<in> fst ` set r"
      using i len nth_mem[of i ?ks] nth_mem[of i ?ls] by auto
    then have "CHR ''='' \<notin> set (?ks ! i)" "CHR ''='' \<notin> set (?ls ! i)"
      using query_ok_keys[OF assms(1)] query_ok_keys[OF assms(2)] by blast+
    from append_sep_inj[OF fields this] show ?thesis .
  qed
  then show names: "?ks = ?ls" using len by (simp add: list_eq_iff_nth_eq)
  show "shown (js_prop q k) = shown (js_prop r k)"
  proof (cases "k \<in> set ?ks")
    case True
    then obtain i where "i < length ?ks" "k = ?ks ! i" by (metis in_set_conv_nth)
    with nth names have "encode_param (js_prop q k) = encode_param (js_prop r k)" by metis
    with encode_param_eq[OF query_ok_shown[OF assms(1), of k] query_ok_shown[OF assms(2), of k]]
    show ?thesis by blast
  next
    case False
    then have "k \<notin> fst ` set q" "k \<notin> fst ` set r" using names by (metis set_sort set_map)+
    then have "map_of q k = None" "map_of r k = None" by (simp_all add: map_of_eq_None_iff)
    then show ?thesis by simp
  qed
qed

text \<open>A key is its colon-separated fields; a namespace has no colon.\<close>

lemma join_parts_inj:
  assumes "query_ok q" and "query_ok r"
    and "join '':'' (query_parts q) = join '':'' (query_parts r)"
  shows "query_parts q = query_parts r"
proof (cases "query_parts q = [] \<or> query_parts r = []")
  case True
  have empty: "join '':'' ps = [] \<longleftrightarrow> ps = []" if "[] \<notin> set ps" for ps
    using that by (cases ps rule: list.exhaust; cases "tl ps") auto
  from True assms(3) empty[OF query_parts_nonempty, of q] empty[OF query_parts_nonempty, of r]
  show ?thesis by auto
next
  case False
  with join_inj[OF assms(3)] query_parts_no_colon[OF assms(1)] query_parts_no_colon[OF assms(2)]
  show ?thesis by blast
qed

lemma key_fields_inj:
  "no_colon ns \<Longrightarrow> no_colon ns' \<Longrightarrow>
   ns @ CHR '':'' # CHR ''v'' # int_to_string v @ CHR '':'' # rest =
     ns' @ CHR '':'' # CHR ''v'' # int_to_string v' @ CHR '':'' # rest' \<longleftrightarrow>
   ns = ns' \<and> v = v' \<and> rest = rest'"
  by (simp add: no_colon_def append_sep_iff int_to_string_no_colon)

lemma listKey_fields:
  "buildListCacheKey ns v q =
     ns @ CHR '':'' # CHR ''v'' # int_to_string v @ CHR '':'' # join '':'' (query_parts q)"
  by (simp add: buildListCacheKey_def)

lemma countKey_fields:
  "buildCountCacheKey ns v q =
     ns @ CHR '':'' # ''count'' @ CHR '':'' # CHR ''v'' # int_to_string v @ CHR '':'' # join '':'' (query_parts q)"
  by (simp add: buildCountCacheKey_def)

lemma no_colon_count: "no_colon ''count''"
  by (simp add: no_colon_def)

lemma listKey_inj:
  assumes "no_colon ns" and "no_colon ns'" and "query_ok q" and "query_ok r"
    and "buildListCacheKey ns v q = buildListCacheKey ns' v' r"
  shows "ns = ns' \<and> v = v' \<and> query_parts q = query_parts r"
  using assms(5) join_parts_inj[OF assms(3,4)]
  by (simp only: listKey_fields key_fields_inj[OF assms(1,2)])

lemma countKey_tail:
  "no_colon ns \<Longrightarrow> no_colon ns' \<Longrightarrow> buildCountCacheKey ns v q = buildCountCacheKey ns' v' r \<longleftrightarrow>
   ns = ns' \<and> v = v' \<and> join '':'' (query_parts q) = join '':'' (query_parts r)"
  using key_fields_inj[OF no_colon_count no_colon_count, of v _ v']
  by (simp only: countKey_fields append_sep_iff no_colon_def simp_thms)

lemma countKey_inj:
  assumes "no_colon ns" and "no_colon ns'" and "query_ok q" and "query_ok r"
    and "buildCountCacheKey ns v q = buildCountCacheKey ns' v' r"
  shows "ns = ns' \<and> v = v' \<and> query_parts q = query_parts r"
  using assms(5) join_parts_inj[OF assms(3,4)] by (simp only: countKey_tail[OF assms(1,2)])

lemma listKey_version:
  "no_colon ns \<Longrightarrow> buildListCacheKey ns v q = buildListCacheKey ns v' r \<Longrightarrow> v = v'"
  by (simp only: listKey_fields key_fields_inj)

lemma countKey_version:
  "no_colon ns \<Longrightarrow> buildCountCacheKey ns v q = buildCountCacheKey ns v' r \<Longrightarrow> v = v'"
  by (simp only: countKey_tail)

lemma listKey_not_countKey:
  assumes "no_colon ns" and "no_colon ns'"
  shows "buildListCacheKey ns v q \<noteq> buildCountCacheKey ns' v' r"
proof
  assume "buildListCacheKey ns v q = buildCountCacheKey ns' v' r"
  note append_sep_inj[OF this[unfolded listKey_fields countKey_fields]
      assms[unfolded no_colon_def]]
  then show False by simp
qed

lemma versionKey_inj [simp]: "namespaceVersionKey ns = namespaceVersionKey ns' \<longleftrightarrow> ns = ns'"
  by (simp add: namespaceVersionKey_def)

text \<open>A version key is no page key and no count key, unless a namespace is called \<open>cache\<close>.\<close>

lemma versionKey_fields: "namespaceVersionKey ns = ''cache'' @ CHR '':'' # (''ver:'' @ ns)"
  by (simp add: namespaceVersionKey_def)

lemma no_colon_cache: "CHR '':'' \<notin> set ''cache''"
  by simp

lemma versionKey_not_listKey:
  assumes "no_colon ns" and "ns \<noteq> ''cache''"
  shows "namespaceVersionKey ns' \<noteq> buildListCacheKey ns v q"
  using append_sep_inj[OF _ no_colon_cache, of _ ns] assms
  unfolding versionKey_fields listKey_fields no_colon_def by blast

lemma versionKey_not_countKey:
  assumes "no_colon ns" and "ns \<noteq> ''cache''"
  shows "namespaceVersionKey ns' \<noteq> buildCountCacheKey ns v q"
  using append_sep_inj[OF _ no_colon_cache, of _ ns] assms
  unfolding versionKey_fields countKey_fields no_colon_def by blast

section \<open>Keys as functions of what is shown\<close>

lemma sort_names_eq:
  assumes "distinct xs" and "distinct ys" and "set xs = set (ys :: string list)"
  shows "sort xs = sort ys"
  using sorted_distinct_set_unique[of "sort xs" "sort ys"] assms by simp

lemma query_parts_cong:
  assumes "query_ok q" and "query_ok r" and "fst ` set q = fst ` set r"
    and "\<forall>k. shown (js_prop q k) = shown (js_prop r k)"
  shows "query_parts q = query_parts r"
proof -
  have names: "sort (map fst q) = sort (map fst r)"
    using assms(1-3) by (intro sort_names_eq) (auto simp: query_ok_def)
  have "encode_param (js_prop q k) = encode_param (js_prop r k)" for k
    using encode_param_eq[OF query_ok_shown[OF assms(1), of k] query_ok_shown[OF assms(2), of k]] assms(4)
    by blast
  then show ?thesis by (simp add: query_parts_def names del: js_prop.simps)
qed

text \<open>Two list queries over the same properties get the same page key exactly when the
  namespace version is the same and every property shows the same text: the order in which the
  properties were set does not matter, a missing value and \<open>null\<close> are one, and any other
  difference in any filter, page number or user id leads to a different key.\<close>

theorem list_key_iff_same_query:
  assumes "no_colon ns" and "query_ok q" and "query_ok r" and "fst ` set q = fst ` set r"
  shows "buildListCacheKey ns v q = buildListCacheKey ns v' r \<longleftrightarrow>
    v = v' \<and> (\<forall>k. shown (js_prop q k) = shown (js_prop r k))"
proof
  assume "buildListCacheKey ns v q = buildListCacheKey ns v' r"
  with listKey_inj[OF assms(1,1,2,3)] query_parts_inj(2)[OF assms(2,3)]
  show "v = v' \<and> (\<forall>k. shown (js_prop q k) = shown (js_prop r k))" by blast
next
  assume "v = v' \<and> (\<forall>k. shown (js_prop q k) = shown (js_prop r k))"
  with query_parts_cong[OF assms(2-4)] show "buildListCacheKey ns v q = buildListCacheKey ns v' r"
    by (simp add: buildListCacheKey_def)
qed

theorem list_key_iff_same_query_witness:
  "buildListCacheKey ''orders-list'' 3 [(''page'', JsNumber 1), (''userId'', JsString ''u1'')] =
     buildListCacheKey ''orders-list'' 3 [(''userId'', JsString ''u1''), (''page'', JsNumber 1)] \<and>
   buildListCacheKey ''orders-list'' 3 [(''page'', JsNumber 1), (''userId'', JsString ''u1'')] \<noteq>
     buildListCacheKey ''orders-list'' 3 [(''userId'', JsString ''u2''), (''page'', JsNumber 1)]"
proof -
  let ?q = "[(''page'', JsNumber 1), (''userId'', JsString ''u1'')]"
  let ?r = "[(''userId'', JsString ''u1''), (''page'', JsNumber 1)]"
  let ?t = "[(''userId'', JsString ''u2''), (''page'', JsNumber 1)]"
  have star: "int_to_string 1 \<noteq> ''*''"
    using int_to_string_chars[of "CHR ''*''" 1] by (auto simp: is_digit_def)
  have ns: "no_colon ''orders-list''" by (simp add: no_colon_def)
  have q: "query_ok ?q" and r: "query_ok ?r" and t: "query_ok ?t"
    using star by (simp_all add: query_ok_def shown_def)
  have names: "fst ` set ?q = fst ` set ?r" "fst ` set ?q = fst ` set ?t" by auto
  have "\<forall>k. shown (js_prop ?q k) = shown (js_prop ?r k)" by (simp add: shown_def)
  then have "buildListCacheKey ''orders-list'' 3 ?q = buildListCacheKey ''orders-list'' 3 ?r"
    using list_key_iff_same_query[OF ns q r names(1), of 3 3] by blast
  moreover have "shown (js_prop ?q ''userId'') \<noteq> shown (js_prop ?t ''userId'')"
    by (simp add: shown_def)
  then have "buildListCacheKey ''orders-list'' 3 ?q \<noteq> buildListCacheKey ''orders-list'' 3 ?t"
    using list_key_iff_same_query[OF ns q t names(2), of 3 3] by blast
  ultimately show ?thesis by simp
qed

end
