(* ===== verification/Redis_Model.thy ===== *)
theory Redis_Model
  imports Api_Context
begin

text \<open>
  Two providers of the Redis interface. The first is the in-memory stand-in the unit tests
  of the API service run against (\<open>packages/api-service/test/_helpers.mjs\<close>). The second is
  a server with a clock, expiry times and a script that says for each coming command whether
  it is answered, how late, and, if its answer is an error, whether it took effect. Both are
  shown to satisfy the laws of \<open>redis_kv\<close>.
\<close>

definition answer :: "'a \<Rightarrow> 'a promise" where
  "answer a = \<lparr>settle_ms = 0, outcome = Inr a\<rparr>"

lemma answer_simps [simp]: "settle_ms (answer a) = 0" "outcome (answer a) = Inr a"
  by (simp_all add: answer_def)

section \<open>The in-memory stand-in\<close>

type_synonym kv = "string \<Rightarrow> string option"

definition stub_get :: "string \<Rightarrow> kv \<Rightarrow> string option promise \<times> kv" where
  "stub_get key m = (answer (m key), m)"

definition stub_set :: "string \<Rightarrow> string \<Rightarrow> int \<Rightarrow> kv \<Rightarrow> unit promise \<times> kv" where
  "stub_set key v seconds m = (answer (), m(key \<mapsto> v))"

definition stub_set_nx :: "string \<Rightarrow> string \<Rightarrow> int \<Rightarrow> kv \<Rightarrow> bool promise \<times> kv" where
  "stub_set_nx key v seconds m =
     (if m key \<noteq> None then (answer False, m) else (answer True, m(key \<mapsto> v)))"

definition stub_del :: "string \<Rightarrow> kv \<Rightarrow> int promise \<times> kv" where
  "stub_del key m = (answer (if m key \<noteq> None then 1 else 0), m(key := None))"

definition stub_incr :: "string \<Rightarrow> kv \<Rightarrow> int promise \<times> kv" where
  "stub_incr key m =
     (let current = parseInt (case m key of None \<Rightarrow> ''0'' | Some s \<Rightarrow> s);
          next = (case current of None \<Rightarrow> 0 | Some c \<Rightarrow> c) + 1
      in (answer next, m(key \<mapsto> int_to_string next)))"

text \<open>The stand-in has no \<open>expire\<close>, \<open>ttl\<close> and \<open>ping\<close>: calling them is a \<open>TypeError\<close>.\<close>

definition missing_method :: "string \<Rightarrow> kv \<Rightarrow> 'a promise \<times> kv" where
  "missing_method name m =
     (\<lparr>settle_ms = 0, outcome = Inl (JsError (name @ '' is not a function'') None)\<rparr>, m)"

definition stub_services :: "kv services" where
  "stub_services =
     \<lparr> redis_get = stub_get, redis_set = stub_set, redis_set_nx = stub_set_nx, redis_del = stub_del,
       redis_incr = stub_incr,
       redis_expire = (\<lambda>key seconds. missing_method ''redis.expire''),
       redis_ttl = (\<lambda>key. missing_method ''redis.ttl''),
       redis_ping = missing_method ''redis.ping'',
       date_now = (\<lambda>m. 0) \<rparr>"

lemma parseInt_zero: "parseInt ''0'' = Some 0"
  using parseInt_int_to_string[of 0] nat_to_string_zero by (simp add: int_to_string_def)

lemmas stub_defs = stub_services_def stub_get_def stub_set_def stub_set_nx_def stub_del_def
  stub_incr_def missing_method_def

interpretation stub: redis_kv stub_services "\<lambda>m. m"
  by unfold_locales (auto simp: stub_defs Let_def parseInt_zero split: if_splits)

section \<open>A server with expiry and faults\<close>

datatype fate = Answered nat | Lost nat js_error bool

record redis_server =
  rs_data :: "string \<Rightarrow> (string \<times> int option) option"
  rs_now :: int
  rs_script :: "fate list"

definition live :: "redis_server \<Rightarrow> kv" where
  "live sv k = (case rs_data sv k of
     None \<Rightarrow> None
   | Some (v, None) \<Rightarrow> Some v
   | Some (v, Some t) \<Rightarrow> if rs_now sv < t then Some v else None)"

definition store_key :: "string \<Rightarrow> (string \<times> int option) option \<Rightarrow> redis_server \<Rightarrow> redis_server" where
  "store_key k x sv = sv\<lparr>rs_data := (rs_data sv)(k := x)\<rparr>"

text \<open>Runs the effect of a command according to the script.\<close>

definition run_command ::
  "(redis_server \<Rightarrow> (js_error + 'a) \<times> redis_server) \<Rightarrow> redis_server \<Rightarrow> 'a promise \<times> redis_server" where
  "run_command effect sv = (case rs_script sv of
     [] \<Rightarrow> (case effect sv of (r, sv') \<Rightarrow> (\<lparr>settle_ms = 0, outcome = r\<rparr>, sv'))
   | Answered d # fs \<Rightarrow>
       (case effect (sv\<lparr>rs_script := fs\<rparr>) of (r, sv') \<Rightarrow> (\<lparr>settle_ms = d, outcome = r\<rparr>, sv'))
   | Lost d e applied # fs \<Rightarrow>
       (let sv0 = sv\<lparr>rs_script := fs\<rparr>
        in (\<lparr>settle_ms = d, outcome = Inl e\<rparr>, if applied then snd (effect sv0) else sv0)))"

definition bad_expire :: js_error where
  "bad_expire = JsError ''ERR invalid expire time'' None"

definition server_get :: "string \<Rightarrow> redis_server \<Rightarrow> string option promise \<times> redis_server" where
  "server_get k = run_command (\<lambda>sv. (Inr (live sv k), sv))"

definition server_set :: "string \<Rightarrow> string \<Rightarrow> int \<Rightarrow> redis_server \<Rightarrow> unit promise \<times> redis_server" where
  "server_set k v seconds = run_command (\<lambda>sv.
     if seconds \<le> 0 then (Inl bad_expire, sv)
     else (Inr (), store_key k (Some (v, Some (rs_now sv + seconds * 1000))) sv))"

definition server_set_nx :: "string \<Rightarrow> string \<Rightarrow> int \<Rightarrow> redis_server \<Rightarrow> bool promise \<times> redis_server" where
  "server_set_nx k v seconds = run_command (\<lambda>sv.
     if seconds \<le> 0 then (Inl bad_expire, sv)
     else if live sv k \<noteq> None then (Inr False, sv)
     else (Inr True, store_key k (Some (v, Some (rs_now sv + seconds * 1000))) sv))"

definition server_del :: "string \<Rightarrow> redis_server \<Rightarrow> int promise \<times> redis_server" where
  "server_del k = run_command (\<lambda>sv.
     (Inr (if live sv k \<noteq> None then 1 else 0), store_key k None sv))"

definition not_integer :: js_error where
  "not_integer = JsError ''ERR value is not an integer or out of range'' None"

definition incr_effect :: "string \<Rightarrow> redis_server \<Rightarrow> (js_error + int) \<times> redis_server" where
  "incr_effect k sv = (case live sv k of
     None \<Rightarrow> (Inr 1, store_key k (Some (int_to_string 1, None)) sv)
   | Some s \<Rightarrow>
       (case parseInt s of
          None \<Rightarrow> (Inl not_integer, sv)
        | Some c \<Rightarrow>
            if int_to_string c = s
            then (Inr (c + 1), store_key k (Some (int_to_string (c + 1), snd (the (rs_data sv k)))) sv)
            else (Inl not_integer, sv)))"

definition server_incr :: "string \<Rightarrow> redis_server \<Rightarrow> int promise \<times> redis_server" where
  "server_incr k = run_command (incr_effect k)"

definition server_expire :: "string \<Rightarrow> int \<Rightarrow> redis_server \<Rightarrow> unit promise \<times> redis_server" where
  "server_expire k seconds = run_command (\<lambda>sv.
     (Inr (), case live sv k of
        None \<Rightarrow> sv
      | Some v \<Rightarrow> store_key k (if seconds \<le> 0 then None else Some (v, Some (rs_now sv + seconds * 1000))) sv))"

definition server_ttl :: "string \<Rightarrow> redis_server \<Rightarrow> int promise \<times> redis_server" where
  "server_ttl k = run_command (\<lambda>sv.
     (Inr (if live sv k = None then - 2
           else (case snd (the (rs_data sv k)) of None \<Rightarrow> - 1 | Some t \<Rightarrow> (t - rs_now sv + 500) div 1000)), sv))"

definition server_ping :: "redis_server \<Rightarrow> unit promise \<times> redis_server" where
  "server_ping = run_command (\<lambda>sv. (Inr (), sv))"

definition server_services :: "redis_server services" where
  "server_services =
     \<lparr> redis_get = server_get, redis_set = server_set, redis_set_nx = server_set_nx,
       redis_del = server_del, redis_incr = server_incr, redis_expire = server_expire,
       redis_ttl = server_ttl, redis_ping = server_ping, date_now = rs_now \<rparr>"

lemma live_script [simp]: "live (sv\<lparr>rs_script := fs\<rparr>) = live sv"
  by (rule ext) (simp add: live_def split: option.splits prod.splits)

lemma live_store_key:
  "live (store_key k x sv) =
     (live sv)(k := (case x of None \<Rightarrow> None | Some (v, None) \<Rightarrow> Some v
        | Some (v, Some t) \<Rightarrow> if rs_now sv < t then Some v else None))"
  by (rule ext) (simp add: live_def store_key_def split: option.splits prod.splits)

lemma live_expiring [simp]:
  "0 < seconds \<Longrightarrow> live (store_key k (Some (v, Some (rs_now sv + seconds * 1000))) sv) = (live sv)(k \<mapsto> v)"
  by (simp add: live_store_key)

lemma live_removed [simp]: "live (store_key k None sv) = (live sv)(k := None)"
  by (simp add: live_store_key)

lemma live_persistent [simp]: "live (store_key k (Some (v, None)) sv) = (live sv)(k \<mapsto> v)"
  by (simp add: live_store_key)

lemma live_keep_expiry:
  "live sv k = Some s \<Longrightarrow> live (store_key k (Some (v, snd (the (rs_data sv k)))) sv) = (live sv)(k \<mapsto> v)"
  by (auto simp: live_store_key live_def split: option.splits if_splits)

lemma live_keep_expiry_script:
  "live sv k = Some s \<Longrightarrow>
   live (store_key k (Some (v, snd (the (rs_data sv k)))) (sv\<lparr>rs_script := fs\<rparr>)) = (live sv)(k \<mapsto> v)"
  using live_keep_expiry[of "sv\<lparr>rs_script := fs\<rparr>" k s v] by simp

text \<open>What a command did: its effect with the effect's answer, its effect without it, or nothing.\<close>

lemma run_command_cases:
  assumes "run_command effect sv = (p, sv')"
  obtains (answered) fs r where "effect (sv\<lparr>rs_script := fs\<rparr>) = (r, sv')" "outcome p = r"
  | (lost) fs e where "sv' = sv\<lparr>rs_script := fs\<rparr>" "outcome p = Inl e"
  | (applied) fs e where "sv' = snd (effect (sv\<lparr>rs_script := fs\<rparr>))" "outcome p = Inl e"
proof (cases "rs_script sv")
  case Nil
  then have "sv = sv\<lparr>rs_script := []\<rparr>" by simp
  with Nil assms answered[of "[]" "outcome p"] show ?thesis
    by (auto simp: run_command_def split: prod.splits)
next
  case (Cons f fs)
  with assms show ?thesis
    by (cases f) (auto simp: run_command_def Let_def split: prod.splits if_splits intro: answered lost applied)
qed

text \<open>
  A law of the interface for one command follows from two facts about its effect: what it
  does when it answers, and that its effect is one of the two outcomes the law allows.
\<close>

lemma run_command_ok:
  assumes "run_command effect sv = (p, sv')" and "outcome p = Inr a"
  obtains fs where "effect (sv\<lparr>rs_script := fs\<rparr>) = (Inr a, sv')"
  using assms(1)
proof (cases rule: run_command_cases)
  case (answered fs r)
  with assms(2) that show ?thesis by simp
qed (use assms(2) in auto)

lemma run_command_keeps:
  assumes "run_command effect sv = (p, sv')" and "\<And>sv. live (snd (effect sv)) = live sv"
  shows "live sv' = live sv"
  using assms(1) by (cases rule: run_command_cases) (metis assms(2) live_script snd_conv)+

lemma run_command_changes:
  assumes "run_command effect sv = (p, sv')"
    and "\<And>sv. live (snd (effect sv)) = live sv \<or> Q (live sv) (live (snd (effect sv)))"
  shows "live sv' = live sv \<or> Q (live sv) (live sv')"
  using assms(1) by (cases rule: run_command_cases) (metis assms(2) live_script snd_conv)+

lemma incr_effect_live:
  "live (snd (incr_effect k sv)) = live sv \<or>
   (\<exists>n. (live sv k = None \<longrightarrow> n = 1) \<and> (\<forall>c. live sv k = Some (int_to_string c) \<longrightarrow> n = c + 1) \<and>
        live (snd (incr_effect k sv)) = (live sv)(k \<mapsto> int_to_string n))"
  by (auto simp: incr_effect_def live_keep_expiry split: option.splits)

lemmas server_defs = server_services_def server_get_def server_set_def server_set_nx_def
  server_del_def server_incr_def server_expire_def server_ttl_def

lemma live_is_empty: "(live sv k = None) = (\<forall>v. live sv k \<noteq> Some v)"
  by auto

interpretation server: redis_expiring server_services live
proof (unfold_locales, goal_cases)
  case 1
  then show ?case by (auto simp: server_defs elim!: run_command_ok)
next
  case 2
  then show ?case by (auto simp: server_defs elim!: run_command_keeps)
next
  case 3
  then show ?case by (auto simp: server_defs live_store_key elim!: run_command_ok split: if_splits)
next
  case (4 k w ttl e pu e' x)
  then show ?case
    using run_command_changes[of _ e pu e' "\<lambda>m m'. m' = m(k \<mapsto> w)"]
    by (simp add: server_defs)
next
  case 5
  then show ?case by (auto simp: server_defs live_store_key elim!: run_command_ok split: if_splits)
next
  case (6 k w ttl e pb e' x)
  then show ?case
    using run_command_changes[of _ e pb e' "\<lambda>m m'. m k = None \<and> m' = m(k \<mapsto> w)"]
    by (simp add: server_defs)
next
  case 7
  then show ?case by (auto simp: server_defs elim!: run_command_ok)
next
  case (8 k e pn e' x)
  then show ?case
    using run_command_changes[of _ e pn e' "\<lambda>m m'. m' = m(k := None)"]
    by (simp add: server_defs)
next
  case 9
  then show ?case
    by (auto simp: server_defs incr_effect_def live_keep_expiry_script elim!: run_command_ok
        split: option.splits if_splits)
next
  case (10 k e pn e' x)
  then show ?case
    using run_command_changes[of "incr_effect k" e pn e' "\<lambda>m m'. \<exists>n. (m k = None \<longrightarrow> n = 1) \<and>
      (\<forall>c. m k = Some (int_to_string c) \<longrightarrow> n = c + 1) \<and> m' = m(k \<mapsto> int_to_string n)"]
      incr_effect_live
    by (simp add: server_defs)
next
  case (11 k ttl e pu e')
  then show ?case by (auto simp: server_defs fun_upd_idem elim!: run_command_keeps split: option.splits)
next
  case 12
  then show ?case by (auto simp: server_defs elim!: run_command_keeps)
qed

section \<open>A configuration and a start state\<close>

definition demo_config :: api_config where
  "demo_config =
     \<lparr> port = 3000, databaseUrl = ''postgres://db'', redisUrl = ''redis://cache'',
       jwtAccessSecret = ''access'', jwtRefreshSecret = ''refresh'', accessTokenTtlSeconds = 900,
       refreshTokenTtlSeconds = 604800, cacheEnabled = True, cacheTtlSeconds = 60, cacheTimeoutMs = 200,
       cacheListCountTtlSeconds = 300, rateLimitRequests = 100, rateLimitWindowSeconds = 60,
       failedLoginIpLimit = 10, failedLoginIpWindowSeconds = 60, failedLoginAccountLimit = 5,
       failedLoginAccountWindowSeconds = 900, accountLockSeconds = 900, shutdownDrainMs = 30000,
       allowLoadTestClientIdentity = True, loadTestClientIdHeader = ''x-load-test-client-id'',
       corsAllowedOrigins = [], dbPoolMax = 20, dbStatementTimeoutMs = 5000,
       dbIdleInTransactionTimeoutMs = 10000, dbConnectionTimeoutMs = 5000 \<rparr>"

definition demo_state :: "'e \<Rightarrow> 'e api_state" where
  "demo_state e = \<lparr>ext = e, reply_headers = (\<lambda>_. None), warn_timestamps = (\<lambda>_. None), warn_log = []\<rparr>"

definition connection_lost :: js_error where
  "connection_lost = JsError ''Connection is closed.'' None"

end
