(* ===== verification/Cache_Aside.thy ===== *)
theory Cache_Aside
  imports Cache_Keys Redis_Model
begin

text \<open>
  \<open>packages/api-service/src/utils/cache.ts\<close>: the Redis primitives with their timeout, the
  version counter of a namespace, the three cache-aside wrappers and the two invalidations.
  A fetcher is any computation on the handler's state. A value of the generic type \<open>T\<close> is
  its JSON form, which is what Redis holds and what the client receives.
\<close>

section \<open>Primitives\<close>

definition cacheGet ::
  "'e services \<Rightarrow> api_config \<Rightarrow> string \<Rightarrow> (('e, 'm) api_state_scheme, string option) io" where
  "cacheGet S cfg key = withTimeout (ext_call (redis_get S key)) (cacheTimeoutMs cfg)"

definition cacheSet ::
  "'e services \<Rightarrow> api_config \<Rightarrow> string \<Rightarrow> string \<Rightarrow> int \<Rightarrow> (('e, 'm) api_state_scheme, unit) io" where
  "cacheSet S cfg key v ttlSeconds =
     withTimeout (ext_call (redis_set S key v ttlSeconds)) (cacheTimeoutMs cfg)"

definition cacheDelete ::
  "'e services \<Rightarrow> api_config \<Rightarrow> string \<Rightarrow> (('e, 'm) api_state_scheme, unit) io" where
  "cacheDelete S cfg key =
     io_bind (withTimeout (ext_call (redis_del S key)) (cacheTimeoutMs cfg)) (\<lambda>n. io_return ())"

text \<open>\<open>!raw\<close> holds for \<open>null\<close> and for the empty text.\<close>

definition version_of_raw :: "string option \<Rightarrow> int" where
  "version_of_raw raw = (case raw of
     None \<Rightarrow> 0
   | Some s \<Rightarrow> if s = [] then 0
       else (case parseInt s of None \<Rightarrow> 0 | Some parsed \<Rightarrow> if 0 \<le> parsed then parsed else 0))"

definition cacheGetNamespaceVersion ::
  "'e services \<Rightarrow> api_config \<Rightarrow> string \<Rightarrow> (('e, 'm) api_state_scheme, int) io" where
  "cacheGetNamespaceVersion S cfg namespace =
     io_bind (withTimeout (ext_call (redis_get S (namespaceVersionKey namespace))) (cacheTimeoutMs cfg))
       (\<lambda>raw. io_return (version_of_raw raw))"

definition cacheBumpNamespaceVersion ::
  "'e services \<Rightarrow> api_config \<Rightarrow> string \<Rightarrow> (('e, 'm) api_state_scheme, int) io" where
  "cacheBumpNamespaceVersion S cfg namespace =
     withTimeout (ext_call (redis_incr S (namespaceVersionKey namespace))) (cacheTimeoutMs cfg)"

definition syntax_error :: js_error where
  "syntax_error = JsError ''Unexpected token in JSON'' None"

definition parse_json :: "string \<Rightarrow> ('s, json) io" where
  "parse_json s = (case JSON_parse s of None \<Rightarrow> io_throw syntax_error | Some j \<Rightarrow> io_return j)"

section \<open>Read-through wrappers\<close>

record list_cache_options =
  lc_namespace :: string
  lc_query :: js_object
  lc_ttlSeconds :: "int option"

record entity_cache_options =
  ec_key :: string
  ec_namespace :: string
  ec_ttlSeconds :: "int option"

text \<open>
  How the read part of a wrapper ends: the function returned a value, or control goes on
  to the fetcher with the variable \<open>cacheKey\<close> set or \<open>null\<close>.
\<close>

datatype 'a cache_read = Returned 'a | Continue "string option"

definition listCacheRead ::
  "'e services \<Rightarrow> api_config \<Rightarrow> list_cache_options \<Rightarrow> (('e, 'm) api_state_scheme, json cache_read) io" where
  "listCacheRead S cfg options =
     io_catch
       (io_bind (cacheGetNamespaceVersion S cfg (lc_namespace options)) (\<lambda>version.
          let cacheKey = buildListCacheKey (lc_namespace options) version (lc_query options) in
          io_bind (cacheGet S cfg cacheKey) (\<lambda>cached.
            case cached of
              Some s \<Rightarrow>
                io_bind (set_header ''X-Cache'' ''HIT'') (\<lambda>_.
                io_bind (parse_json s) (\<lambda>v. io_return (Returned v)))
            | None \<Rightarrow> io_return (Continue (Some cacheKey)))))
       (\<lambda>err.
          io_bind (warnOncePerMinute S (''cache-read-'' @ lc_namespace options)
            (lc_namespace options @ '' cache read failed; serving from datastore'') err)
          (\<lambda>_. io_return (Continue None)))"

definition listCacheWrite ::
  "'e services \<Rightarrow> api_config \<Rightarrow> list_cache_options \<Rightarrow> string option \<Rightarrow> json \<Rightarrow>
   (('e, 'm) api_state_scheme, unit) io" where
  "listCacheWrite S cfg options cacheKey result = (case cacheKey of
     None \<Rightarrow> io_return ()
   | Some key \<Rightarrow>
       io_catch
         (io_bind (cacheSet S cfg key (JSON_stringify result)
             (case lc_ttlSeconds options of None \<Rightarrow> cacheTtlSeconds cfg | Some ttl \<Rightarrow> ttl))
           (\<lambda>_. set_header ''X-Cache'' ''MISS''))
         (\<lambda>err. warnOncePerMinute S (''cache-write-'' @ lc_namespace options)
            (lc_namespace options @ '' cache write failed; response still served'') err))"

definition withListCache ::
  "'e services \<Rightarrow> api_config \<Rightarrow> list_cache_options \<Rightarrow> (('e, 'm) api_state_scheme, json) io \<Rightarrow>
   (('e, 'm) api_state_scheme, json) io" where
  "withListCache S cfg options fetcher =
     (if \<not> cacheEnabled cfg then fetcher
      else io_bind (listCacheRead S cfg options) (\<lambda>r.
        case r of
          Returned v \<Rightarrow> io_return v
        | Continue cacheKey \<Rightarrow>
            io_bind fetcher (\<lambda>result.
            io_bind (listCacheWrite S cfg options cacheKey result) (\<lambda>_.
            io_return result))))"

definition entityCacheRead ::
  "'e services \<Rightarrow> api_config \<Rightarrow> entity_cache_options \<Rightarrow> (('e, 'm) api_state_scheme, json option) io" where
  "entityCacheRead S cfg options =
     io_catch
       (io_bind (cacheGet S cfg (ec_key options)) (\<lambda>cached.
          case cached of
            Some s \<Rightarrow>
              io_bind (set_header ''X-Cache'' ''HIT'') (\<lambda>_.
              io_bind (parse_json s) (\<lambda>v. io_return (Some v)))
          | None \<Rightarrow> io_return None))
       (\<lambda>err.
          io_bind (warnOncePerMinute S (''cache-read-'' @ ec_namespace options)
            (ec_namespace options @ '' cache read failed; serving from datastore'') err)
          (\<lambda>_. io_return None))"

definition entityCacheWrite ::
  "'e services \<Rightarrow> api_config \<Rightarrow> entity_cache_options \<Rightarrow> json \<Rightarrow> (('e, 'm) api_state_scheme, unit) io" where
  "entityCacheWrite S cfg options result =
     io_catch
       (io_bind (cacheSet S cfg (ec_key options) (JSON_stringify result)
           (case ec_ttlSeconds options of None \<Rightarrow> cacheTtlSeconds cfg | Some ttl \<Rightarrow> ttl))
         (\<lambda>_. set_header ''X-Cache'' ''MISS''))
       (\<lambda>err. warnOncePerMinute S (''cache-write-'' @ ec_namespace options)
          (ec_namespace options @ '' cache write failed; response still served'') err)"

text \<open>The fetcher answers \<open>null\<close> (\<open>None\<close>) for a missing entity, which is not cached.\<close>

definition withEntityCache ::
  "'e services \<Rightarrow> api_config \<Rightarrow> entity_cache_options \<Rightarrow> (('e, 'm) api_state_scheme, json option) io \<Rightarrow>
   (('e, 'm) api_state_scheme, json option) io" where
  "withEntityCache S cfg options fetcher =
     (if \<not> cacheEnabled cfg then fetcher
      else io_bind (entityCacheRead S cfg options) (\<lambda>r.
        case r of
          Some v \<Rightarrow> io_return (Some v)
        | None \<Rightarrow>
            io_bind fetcher (\<lambda>result.
              case result of
                None \<Rightarrow> io_return None
              | Some v \<Rightarrow>
                  io_bind (entityCacheWrite S cfg options v) (\<lambda>_. io_return (Some v)))))"

definition countCacheRead ::
  "'e services \<Rightarrow> api_config \<Rightarrow> list_cache_options \<Rightarrow> (('e, 'm) api_state_scheme, int cache_read) io" where
  "countCacheRead S cfg options =
     io_catch
       (io_bind (cacheGetNamespaceVersion S cfg (lc_namespace options)) (\<lambda>version.
          let cacheKey = buildCountCacheKey (lc_namespace options) version (lc_query options) in
          io_bind (cacheGet S cfg cacheKey) (\<lambda>cached.
            case cached of
              Some s \<Rightarrow>
                (case parseInt s of
                   Some parsed \<Rightarrow> if 0 \<le> parsed then io_return (Returned parsed)
                     else io_return (Continue (Some cacheKey))
                 | None \<Rightarrow> io_return (Continue (Some cacheKey)))
            | None \<Rightarrow> io_return (Continue (Some cacheKey)))))
       (\<lambda>err.
          io_bind (warnOncePerMinute S (''cache-read-'' @ lc_namespace options @ ''-count'')
            (lc_namespace options @ '' count cache read failed; computing fresh count'') err)
          (\<lambda>_. io_return (Continue None)))"

definition countCacheWrite ::
  "'e services \<Rightarrow> api_config \<Rightarrow> list_cache_options \<Rightarrow> string option \<Rightarrow> int \<Rightarrow>
   (('e, 'm) api_state_scheme, unit) io" where
  "countCacheWrite S cfg options cacheKey v = (case cacheKey of
     None \<Rightarrow> io_return ()
   | Some key \<Rightarrow>
       io_catch
         (cacheSet S cfg key (int_to_string v)
            (case lc_ttlSeconds options of None \<Rightarrow> cacheListCountTtlSeconds cfg | Some ttl \<Rightarrow> ttl))
         (\<lambda>err. warnOncePerMinute S (''cache-write-'' @ lc_namespace options @ ''-count'')
            (lc_namespace options @ '' count cache write failed; result still served'') err))"

definition withCountCache ::
  "'e services \<Rightarrow> api_config \<Rightarrow> list_cache_options \<Rightarrow> (('e, 'm) api_state_scheme, int) io \<Rightarrow>
   (('e, 'm) api_state_scheme, int) io" where
  "withCountCache S cfg options fetcher =
     (if \<not> cacheEnabled cfg then fetcher
      else io_bind (countCacheRead S cfg options) (\<lambda>r.
        case r of
          Returned v \<Rightarrow> io_return v
        | Continue cacheKey \<Rightarrow>
            io_bind fetcher (\<lambda>v.
            io_bind (countCacheWrite S cfg options cacheKey v) (\<lambda>_.
            io_return v))))"

section \<open>Invalidation\<close>

definition invalidateListNamespace ::
  "'e services \<Rightarrow> api_config \<Rightarrow> string \<Rightarrow> (('e, 'm) api_state_scheme, unit) io" where
  "invalidateListNamespace S cfg namespace =
     (if \<not> cacheEnabled cfg then io_return ()
      else io_catch
        (io_bind (cacheBumpNamespaceVersion S cfg namespace) (\<lambda>_. io_return ()))
        (\<lambda>err. warnOncePerMinute S (''cache-invalidate-'' @ namespace)
           (''Failed to bump '' @ namespace @
            '' cache version; stale list responses may be served briefly'') err))"

definition invalidateEntity ::
  "'e services \<Rightarrow> api_config \<Rightarrow> string \<Rightarrow> string \<Rightarrow> (('e, 'm) api_state_scheme, unit) io" where
  "invalidateEntity S cfg key namespace =
     (if \<not> cacheEnabled cfg then io_return ()
      else io_catch (cacheDelete S cfg key)
        (\<lambda>err. warnOncePerMinute S (''cache-delete-'' @ namespace)
           (namespace @ '' cache delete failed'') err))"

section \<open>Redis trouble never reaches the caller\<close>

lemma listCacheRead_never_throws: "never_throws (listCacheRead S cfg options)"
  unfolding listCacheRead_def
  by (intro never_throws_catch never_throws_bind) simp_all

lemma listCacheWrite_never_throws: "never_throws (listCacheWrite S cfg options key result)"
  unfolding listCacheWrite_def
  by (cases key) (auto intro!: never_throws_catch)

lemma entityCacheRead_never_throws: "never_throws (entityCacheRead S cfg options)"
  unfolding entityCacheRead_def
  by (intro never_throws_catch never_throws_bind) simp_all

lemma entityCacheWrite_never_throws: "never_throws (entityCacheWrite S cfg options result)"
  unfolding entityCacheWrite_def by (intro never_throws_catch) simp

lemma countCacheRead_never_throws: "never_throws (countCacheRead S cfg options)"
  unfolding countCacheRead_def
  by (intro never_throws_catch never_throws_bind) simp_all

lemma countCacheWrite_never_throws: "never_throws (countCacheWrite S cfg options key v)"
  unfolding countCacheWrite_def
  by (cases key) (auto intro!: never_throws_catch)

lemma invalidateListNamespace_never_throws: "never_throws (invalidateListNamespace S cfg ns)"
  unfolding invalidateListNamespace_def by (auto intro!: never_throws_catch)

lemma invalidateEntity_never_throws: "never_throws (invalidateEntity S cfg key ns)"
  unfolding invalidateEntity_def by (auto intro!: never_throws_catch)

text \<open>
  Each wrapper in one equation: where the read part ended decides between the cached value
  and the fetcher, and an error can only be the fetcher's.
\<close>

lemma withListCache_run:
  assumes "cacheEnabled cfg"
  obtains (hit) v s1 where "listCacheRead S cfg options s = (Inr (Returned v), s1)"
      "withListCache S cfg options fetcher s = (Inr v, s1)"
  | (failed) key s1 e s2 where "listCacheRead S cfg options s = (Inr (Continue key), s1)"
      "fetcher s1 = (Inl e, s2)" "withListCache S cfg options fetcher s = (Inl e, s2)"
  | (fetched) key s1 v s2 s3 where "listCacheRead S cfg options s = (Inr (Continue key), s1)"
      "fetcher s1 = (Inr v, s2)" "listCacheWrite S cfg options key v s2 = (Inr (), s3)"
      "withListCache S cfg options fetcher s = (Inr v, s3)"
proof -
  obtain r s1 where read: "listCacheRead S cfg options s = (Inr r, s1)"
    using never_throwsD[OF listCacheRead_never_throws] by blast
  show ?thesis
  proof (cases r)
    case (Returned v)
    with read assms show ?thesis by (intro hit) (simp_all add: withListCache_def io_bind_apply)
  next
    case (Continue key)
    obtain res s2 where f: "fetcher s1 = (res, s2)" by (cases "fetcher s1") auto
    show ?thesis
    proof (cases res)
      case (Inl e)
      with read Continue f assms show ?thesis
        by (intro failed[of key s1 e s2]) (simp_all add: withListCache_def io_bind_apply)
    next
      case (Inr v)
      obtain s3 where "listCacheWrite S cfg options key v s2 = (Inr (), s3)"
        using never_throwsD[OF listCacheWrite_never_throws] by fastforce
      with read Continue f Inr assms show ?thesis
        by (intro fetched[of key s1 v s2 s3]) (simp_all add: withListCache_def io_bind_apply)
    qed
  qed
qed

end
