(* ===== verification/Idempotency.thy ===== *)
theory Idempotency
  imports Http_Request Redis_Model
begin

text \<open>
  \<open>utils/idempotency.ts\<close>: the \<open>Idempotency-Key\<close> wrapper around an unsafe handler. The SHA-256
  of the node library is the parameter \<open>sha\<close>. The source calls itself again when the record
  vanishes between the claim and the read; nothing bounds how often, so the model is a
  \<open>partial_function\<close> whose value \<open>None\<close> is \<open>never returns\<close>, and the lemmas prove that it returns.
\<close>

section \<open>The code\<close>

definition MAX_STORED_BODY_BYTES :: nat where "MAX_STORED_BODY_BYTES = 64 * 1024"
definition COMPLETED_TTL_SECONDS :: int where "COMPLETED_TTL_SECONDS = 86400"
definition PROCESSING_TTL_SECONDS :: int where "PROCESSING_TTL_SECONDS = 60"

definition key_char :: "char \<Rightarrow> bool" where
  "key_char c = (let n = (of_char c :: nat) in
     (48 \<le> n \<and> n \<le> 57) \<or> (65 \<le> n \<and> n \<le> 90) \<or> (97 \<le> n \<and> n \<le> 122) \<or> c = CHR ''_'' \<or> c = CHR ''-'')"

definition valid_idempotency_key :: "string \<Rightarrow> bool" where
  "valid_idempotency_key key = (8 \<le> length key \<and> length key \<le> 128 \<and> list_all key_char key)"

record idempotency_options =
  io_scope :: string
  io_userId :: string
  io_request :: http_request
  io_requestBody :: json

text \<open>A replayed status and body are what the stored text says, so any value, or none.\<close>

record idempotency_result =
  ir_status :: json
  ir_body :: "json option"

definition result_of :: "response \<Rightarrow> idempotency_result" where
  "result_of r = \<lparr>ir_status = JNum (resp_status r), ir_body = Some (resp_body r)\<rparr>"

definition readIdempotencyKey :: "http_request \<Rightarrow> string option" where
  "readIdempotencyKey request = (case req_headers request ''idempotency-key'' of
     Some (HeaderOne raw) \<Rightarrow> if 0 < length raw then Some raw else None
   | Some (HeaderMany (raw # raws)) \<Rightarrow> Some raw
   | _ \<Rightarrow> None)"

definition canonicalRequestHash :: "(string \<Rightarrow> string) \<Rightarrow> http_request \<Rightarrow> json \<Rightarrow> string" where
  "canonicalRequestHash sha request body =
     (let route = (case req_route request of Some r \<Rightarrow> r | None \<Rightarrow> hd (js_split CHR ''?'' (req_url request)))
      in sha (JSON_stringify (JObj [(''method'', JStr (req_method request)), (''route'', JStr route), (''body'', body)])))"

definition buildRedisKey :: "string \<Rightarrow> string \<Rightarrow> string \<Rightarrow> string" where
  "buildRedisKey scope userId key = ''idempotency:'' @ scope @ '':'' @ userId @ '':'' @ key"

definition claim_record :: "string \<Rightarrow> json" where
  "claim_record h = JObj [(''state'', JStr ''in-progress''), (''requestHash'', JStr h)]"

definition completed_record :: "string \<Rightarrow> response \<Rightarrow> json" where
  "completed_record h r = JObj [(''state'', JStr ''completed''), (''requestHash'', JStr h),
     (''status'', JNum (resp_status r)), (''body'', resp_body r)]"

text \<open>\<open>Buffer.byteLength(s, "utf8")\<close> on code units below 256.\<close>

definition utf8_length :: "string \<Rightarrow> nat" where
  "utf8_length s = sum_list (map (\<lambda>c. if (of_char c :: nat) < 128 then 1 else 2) s)"

definition error_result :: "int \<Rightarrow> string \<Rightarrow> string \<Rightarrow> idempotency_result" where
  "error_result st code message = result_of (error_response st code message)"

definition invalid_key_result :: idempotency_result where
  "invalid_key_result = error_result 400 ''INVALID_IDEMPOTENCY_KEY''
     ''Idempotency-Key must be 8-128 characters of [A-Za-z0-9_-]''"

definition key_conflict_result :: idempotency_result where
  "key_conflict_result = error_result 409 ''IDEMPOTENCY_KEY_CONFLICT''
     ''Idempotency-Key was reused with a different request body''"

definition in_progress_result :: idempotency_result where
  "in_progress_result = error_result 409 ''IDEMPOTENT_REQUEST_IN_PROGRESS''
     ''An identical request with this Idempotency-Key is currently being processed''"

text \<open>\<open>await ctx.redis.del(key).catch(() => undefined)\<close>.\<close>

definition del_quietly :: "'e services \<Rightarrow> string \<Rightarrow> (('e, 'm) api_state_scheme, unit) io" where
  "del_quietly S key =
     io_catch (io_bind (await (ext_call (redis_del S key))) (\<lambda>n. io_return ())) (\<lambda>e. io_return ())"

text \<open>The answer to a parsed record; reading a property of \<open>null\<close> is a \<open>TypeError\<close>.\<close>

definition null_property :: js_error where
  "null_property = JsError ''Cannot read properties of null (reading 'requestHash')'' None"

definition record_answer :: "json \<Rightarrow> string \<Rightarrow> js_error + idempotency_result" where
  "record_answer parsed h =
     (if parsed = JNull then Inl null_property
      else if json_prop ''requestHash'' parsed \<noteq> Some (JStr h) then Inr key_conflict_result
      else if json_prop ''state'' parsed = Some (JStr ''in-progress'') then Inr in_progress_result
      else Inr \<lparr>ir_status = (case json_prop ''status'' parsed of
                     None \<Rightarrow> JNum 200 | Some j \<Rightarrow> if j = JNull then JNum 200 else j),
                ir_body = json_prop ''body'' parsed\<rparr>)"

definition readExistingRecord ::
  "'e services \<Rightarrow> string \<Rightarrow> string \<Rightarrow> (('e, 'm) api_state_scheme, idempotency_result option) io" where
  "readExistingRecord S redisKey h =
     io_bind (await (ext_call (redis_get S redisKey))) (\<lambda>existing.
       case existing of
         None \<Rightarrow> io_return None
       | Some s \<Rightarrow>
           if s = [] then io_return None
           else (case JSON_parse s of
                   None \<Rightarrow> io_bind (del_quietly S redisKey) (\<lambda>u. io_return None)
                 | Some parsed \<Rightarrow>
                     (case record_answer parsed h of
                        Inl e \<Rightarrow> io_throw e
                      | Inr r \<Rightarrow> io_return (Some r))))"

text \<open>Lines 112-133: the claimed request runs the processor and stores its result.\<close>

definition run_claimed ::
  "'e services \<Rightarrow> string \<Rightarrow> string \<Rightarrow> (('e, 'm) api_state_scheme, response) io
     \<Rightarrow> (('e, 'm) api_state_scheme, idempotency_result) io" where
  "run_claimed S redisKey h process =
     io_catch
       (io_bind process (\<lambda>result.
          let serialized = JSON_stringify (completed_record h result)
          in io_bind
               (if MAX_STORED_BODY_BYTES < utf8_length serialized then del_quietly S redisKey
                else await (ext_call (redis_set S redisKey serialized COMPLETED_TTL_SECONDS)))
               (\<lambda>u. io_return (result_of result))))
       (\<lambda>error. io_bind (del_quietly S redisKey) (\<lambda>u. io_throw error))"

partial_function (option) withIdempotency ::
  "'e services \<Rightarrow> (string \<Rightarrow> string) \<Rightarrow> idempotency_options \<Rightarrow> (('e, 'm) api_state_scheme, response) io
     \<Rightarrow> ('e, 'm) api_state_scheme
     \<Rightarrow> ((js_error + idempotency_result) \<times> ('e, 'm) api_state_scheme) option" where
  "withIdempotency S sha options process s =
     (case readIdempotencyKey (io_request options) of
        None \<Rightarrow> Some (io_bind process (\<lambda>r. io_return (result_of r)) s)
      | Some key \<Rightarrow>
          if \<not> valid_idempotency_key key then Some (Inr invalid_key_result, s)
          else
            (let h = canonicalRequestHash sha (io_request options) (io_requestBody options);
                 redisKey = buildRedisKey (io_scope options) (io_userId options) key
             in (case await (ext_call (redis_set_nx S redisKey (JSON_stringify (claim_record h))
                        PROCESSING_TTL_SECONDS)) s of
                   (Inl e, t) \<Rightarrow> Some (Inl e, t)
                 | (Inr acquired, t) \<Rightarrow>
                     if acquired then Some (run_claimed S redisKey h process t)
                     else (case readExistingRecord S redisKey h t of
                             (Inl e, u) \<Rightarrow> Some (Inl e, u)
                           | (Inr (Some replay), u) \<Rightarrow> Some (Inr replay, u)
                           | (Inr None, u) \<Rightarrow> withIdempotency S sha options process u))))"

section \<open>The record in the store\<close>

definition idem_hash :: "(string \<Rightarrow> string) \<Rightarrow> idempotency_options \<Rightarrow> string" where
  "idem_hash sha options = canonicalRequestHash sha (io_request options) (io_requestBody options)"

definition idem_key :: "idempotency_options \<Rightarrow> string \<Rightarrow> string" where
  "idem_key options key = buildRedisKey (io_scope options) (io_userId options) key"

text \<open>The request carries this well-formed key.\<close>

definition has_key :: "idempotency_options \<Rightarrow> string \<Rightarrow> bool" where
  "has_key options key \<longleftrightarrow>
     readIdempotencyKey (io_request options) = Some key \<and> valid_idempotency_key key"

lemma json_wf_records [simp]:
  "json_wf (claim_record h)" "json_wf (completed_record h r) = json_wf (resp_body r)"
  by (simp_all add: claim_record_def completed_record_def)

lemma record_answer_completed:
  "record_answer (completed_record h' r) h =
     Inr (if h' = h then result_of r else key_conflict_result)"
  by (simp add: record_answer_def completed_record_def result_of_def)

lemma record_answer_claim:
  "record_answer (claim_record h') h =
     Inr (if h' = h then in_progress_result else key_conflict_result)"
  by (simp add: record_answer_def claim_record_def)

lemma stringify_nonempty: "json_wf j \<Longrightarrow> JSON_stringify j \<noteq> []"
  using stringify_length by fastforce

text \<open>One round of the wrapper for a request with a well-formed key.\<close>

lemma withIdempotency_keyed:
  assumes "has_key options key"
  shows "withIdempotency S sha options process s =
    (case await (ext_call (redis_set_nx S (idem_key options key)
        (JSON_stringify (claim_record (idem_hash sha options))) PROCESSING_TTL_SECONDS)) s of
       (Inl e, t) \<Rightarrow> Some (Inl e, t)
     | (Inr acquired, t) \<Rightarrow>
         if acquired then Some (run_claimed S (idem_key options key) (idem_hash sha options) process t)
         else (case readExistingRecord S (idem_key options key) (idem_hash sha options) t of
                 (Inl e, u) \<Rightarrow> Some (Inl e, u)
               | (Inr (Some replay), u) \<Rightarrow> Some (Inr replay, u)
               | (Inr None, u) \<Rightarrow> withIdempotency S sha options process u))"
  using assms unfolding has_key_def idem_hash_def idem_key_def
  by (subst withIdempotency.simps) (simp add: Let_def)

text \<open>The claim and the read of a key that is present, whatever Redis answers.\<close>

lemma await_ext_cases:
  obtains p e' where "call (ext s) = (p, e')" "await (ext_call call) s = (outcome p, s\<lparr>ext := e'\<rparr>)"
  by (cases "call (ext s)") (simp add: await_def ext_call_def)

context redis_kv
begin

lemma claim_held:
  assumes "store (ext s) k = Some w"
  obtains e' where "store e' = store (ext s)"
      "await (ext_call (redis_set_nx S k c ttl)) s = (Inr False, s\<lparr>ext := e'\<rparr>)"
  | x e' where "store e' = store (ext s)"
      "await (ext_call (redis_set_nx S k c ttl)) s = (Inl x, s\<lparr>ext := e'\<rparr>)"
proof (rule await_ext_cases[of "redis_set_nx S k c ttl" s])
  fix p e' assume call: "redis_set_nx S k c ttl (ext s) = (p, e')"
    and run: "await (ext_call (redis_set_nx S k c ttl)) s = (outcome p, s\<lparr>ext := e'\<rparr>)"
  show thesis
  proof (cases "outcome p")
    case (Inl x)
    with nx_err[OF call Inl] assms that(2)[of e' x] run show ?thesis by simp
  next
    case (Inr b)
    with nx_ok[OF call Inr] assms that(1)[of e'] run show ?thesis by simp
  qed
qed

lemma read_held:
  assumes "store (ext s) k = Some (JSON_stringify j)" and "json_wf j"
    and "record_answer j h = Inr r"
  obtains e' where "store e' = store (ext s)"
      "readExistingRecord S k h s = (Inr (Some r), s\<lparr>ext := e'\<rparr>)"
  | x e' where "store e' = store (ext s)" "readExistingRecord S k h s = (Inl x, s\<lparr>ext := e'\<rparr>)"
proof (rule await_ext_cases[of "redis_get S k" s])
  fix p e' assume call: "redis_get S k (ext s) = (p, e')"
    and run: "await (ext_call (redis_get S k)) s = (outcome p, s\<lparr>ext := e'\<rparr>)"
  have same: "store e' = store (ext s)" by (rule get_store[OF call])
  show thesis
  proof (cases "outcome p")
    case (Inl x)
    with that(2)[OF same, of x] run show ?thesis by (simp add: readExistingRecord_def io_bind_apply)
  next
    case (Inr v)
    with get_value[OF call Inr] assms that(1)[OF same] run stringify_nonempty[OF assms(2)]
    show ?thesis
      by (simp add: readExistingRecord_def io_bind_apply JSON_parse_stringify)
  qed
qed

text \<open>
  A request whose key already has a record never reaches its processor: the run is the same
  for all processors.
\<close>

lemma withIdempotency_held:
  assumes "has_key options key" and "json_wf j"
    and "store (ext s) (idem_key options key) = Some (JSON_stringify j)"
    and "record_answer j (idem_hash sha options) = Inr r"
  shows "\<exists>out e'. store e' = store (ext s) \<and> (out = Inr r \<or> (\<exists>x. out = Inl x)) \<and>
    (\<forall>process. withIdempotency S sha options process s = Some (out, s\<lparr>ext := e'\<rparr>))"
proof (rule claim_held[OF assms(3), of "JSON_stringify (claim_record (idem_hash sha options))"
      PROCESSING_TTL_SECONDS])
  fix x e' assume "store e' = store (ext s)"
    and "await (ext_call (redis_set_nx S (idem_key options key)
          (JSON_stringify (claim_record (idem_hash sha options))) PROCESSING_TTL_SECONDS)) s
        = (Inl x, s\<lparr>ext := e'\<rparr>)"
  then show ?thesis
    by (intro exI[of _ "Inl x"] exI[of _ e']) (simp add: withIdempotency_keyed[OF assms(1)])
next
  fix e1 assume e1: "store e1 = store (ext s)"
    and nx: "await (ext_call (redis_set_nx S (idem_key options key)
          (JSON_stringify (claim_record (idem_hash sha options))) PROCESSING_TTL_SECONDS)) s
        = (Inr False, s\<lparr>ext := e1\<rparr>)"
  have held: "store (ext (s\<lparr>ext := e1\<rparr>)) (idem_key options key) = Some (JSON_stringify j)"
    by (simp add: e1 assms(3))
  show ?thesis
  proof (rule read_held[OF held assms(2,4)])
    fix e' assume "store e' = store (ext (s\<lparr>ext := e1\<rparr>))"
      and "readExistingRecord S (idem_key options key) (idem_hash sha options) (s\<lparr>ext := e1\<rparr>)
        = (Inr (Some r), s\<lparr>ext := e1, ext := e'\<rparr>)"
    with e1 nx show ?thesis
      by (intro exI[of _ "Inr r"] exI[of _ e']) (simp add: withIdempotency_keyed[OF assms(1)])
  next
    fix x e' assume "store e' = store (ext (s\<lparr>ext := e1\<rparr>))"
      and "readExistingRecord S (idem_key options key) (idem_hash sha options) (s\<lparr>ext := e1\<rparr>)
        = (Inl x, s\<lparr>ext := e1, ext := e'\<rparr>)"
    with e1 nx show ?thesis
      by (intro exI[of _ "Inl x"] exI[of _ e']) (simp add: withIdempotency_keyed[OF assms(1)])
  qed
qed

end

section \<open>When Redis answers\<close>

text \<open>Every command the wrapper sends is answered (\<open>NX\<close>, \<open>GET\<close>, \<open>SET\<close>, \<open>DEL\<close>).\<close>

definition answered :: "'a promise \<Rightarrow> bool" where
  "answered p = (\<exists>a. outcome p = Inr a)"

locale redis_answers = redis_kv +
  assumes get_answered: "answered (fst (redis_get S k e))"
    and set_answered: "0 < ttl \<Longrightarrow> answered (fst (redis_set S k w ttl e))"
    and nx_answered: "0 < ttl \<Longrightarrow> answered (fst (redis_set_nx S k w ttl e))"
    and del_answered: "answered (fst (redis_del S k e))"
begin

lemma nx_eval:
  assumes "0 < ttl"
  obtains e' where "await (ext_call (redis_set_nx S k w ttl)) s = (Inr (store (ext s) k = None), s\<lparr>ext := e'\<rparr>)"
    and "store e' = (if store (ext s) k = None then (store (ext s))(k \<mapsto> w) else store (ext s))"
proof (rule await_ext_cases[of "redis_set_nx S k w ttl" s])
  fix p e' assume call: "redis_set_nx S k w ttl (ext s) = (p, e')"
    and run: "await (ext_call (redis_set_nx S k w ttl)) s = (outcome p, s\<lparr>ext := e'\<rparr>)"
  obtain b where b: "outcome p = Inr b"
    using nx_answered[OF assms, of k w "ext s"] call by (auto simp: answered_def)
  from that[of e'] run nx_ok[OF call b] b show thesis by simp
qed

lemma get_eval:
  obtains e' where "await (ext_call (redis_get S k)) s = (Inr (store (ext s) k), s\<lparr>ext := e'\<rparr>)"
    and "store e' = store (ext s)"
proof (rule await_ext_cases[of "redis_get S k" s])
  fix p e' assume call: "redis_get S k (ext s) = (p, e')"
    and run: "await (ext_call (redis_get S k)) s = (outcome p, s\<lparr>ext := e'\<rparr>)"
  obtain b where b: "outcome p = Inr b"
    using get_answered[of k "ext s"] call by (auto simp: answered_def)
  from that[of e'] run get_value[OF call b] get_store[OF call] b show thesis by simp
qed

lemma set_eval:
  assumes "0 < ttl"
  obtains e' where "await (ext_call (redis_set S k w ttl)) s = (Inr (), s\<lparr>ext := e'\<rparr>)"
    and "store e' = (store (ext s))(k \<mapsto> w)"
proof (rule await_ext_cases[of "redis_set S k w ttl" s])
  fix p e' assume call: "redis_set S k w ttl (ext s) = (p, e')"
    and run: "await (ext_call (redis_set S k w ttl)) s = (outcome p, s\<lparr>ext := e'\<rparr>)"
  obtain b where b: "outcome p = Inr b"
    using set_answered[OF assms, of k w "ext s"] call by (auto simp: answered_def)
  from that[of e'] run set_ok[OF call b] b show thesis by simp
qed

lemma del_eval:
  obtains e' where "del_quietly S k s = (Inr (), s\<lparr>ext := e'\<rparr>)"
    and "store e' = (store (ext s))(k := None)"
proof (rule await_ext_cases[of "redis_del S k" s])
  fix p e' assume call: "redis_del S k (ext s) = (p, e')"
    and run: "await (ext_call (redis_del S k)) s = (outcome p, s\<lparr>ext := e'\<rparr>)"
  obtain b where b: "outcome p = Inr b"
    using del_answered[of k "ext s"] call by (auto simp: answered_def)
  from that[of e'] run del_ok[OF call b] b show thesis
    by (simp add: del_quietly_def io_catch_apply io_bind_apply)
qed

text \<open>The claimed request: a result that fits is stored, an error releases the key.\<close>

lemma run_claimed_stores:
  assumes "process s = (Inr r, t)"
    and "utf8_length (JSON_stringify (completed_record h r)) \<le> MAX_STORED_BODY_BYTES"
  obtains e' where "run_claimed S k h process s = (Inr (result_of r), t\<lparr>ext := e'\<rparr>)"
    and "store e' = (store (ext t))(k \<mapsto> JSON_stringify (completed_record h r))"
proof (rule set_eval[of COMPLETED_TTL_SECONDS k "JSON_stringify (completed_record h r)" t])
  show "0 < COMPLETED_TTL_SECONDS" by (simp add: COMPLETED_TTL_SECONDS_def)
next
  fix e' assume "await (ext_call (redis_set S k (JSON_stringify (completed_record h r)) COMPLETED_TTL_SECONDS)) t =
      (Inr (), t\<lparr>ext := e'\<rparr>)"
    and "store e' = (store (ext t))(k \<mapsto> JSON_stringify (completed_record h r))"
  with that[of e'] assms show thesis
    by (simp add: run_claimed_def io_catch_apply io_bind_apply Let_def)
qed

lemma run_claimed_too_large:
  assumes "process s = (Inr r, t)"
    and "MAX_STORED_BODY_BYTES < utf8_length (JSON_stringify (completed_record h r))"
  obtains e' where "run_claimed S k h process s = (Inr (result_of r), t\<lparr>ext := e'\<rparr>)"
    and "store e' = (store (ext t))(k := None)"
proof (rule del_eval[of k t])
  fix e' assume "del_quietly S k t = (Inr (), t\<lparr>ext := e'\<rparr>)"
    and "store e' = (store (ext t))(k := None)"
  with that[of e'] assms show thesis
    by (simp add: run_claimed_def io_catch_apply io_bind_apply Let_def)
qed

lemma run_claimed_releases:
  assumes "process s = (Inl x, t)"
  obtains e' where "run_claimed S k h process s = (Inl x, t\<lparr>ext := e'\<rparr>)"
    and "store e' = (store (ext t))(k := None)"
proof (rule del_eval[of k t])
  fix e' assume "del_quietly S k t = (Inr (), t\<lparr>ext := e'\<rparr>)"
    and "store e' = (store (ext t))(k := None)"
  with that[of e'] assms show thesis
    by (simp add: run_claimed_def io_catch_apply io_bind_apply)
qed

text \<open>A fresh key is claimed before the processor starts.\<close>

lemma withIdempotency_fresh:
  assumes "has_key options key" and "store (ext s) (idem_key options key) = None"
  obtains e1 where
    "store e1 = (store (ext s))(idem_key options key \<mapsto> JSON_stringify (claim_record (idem_hash sha options)))"
    and "\<And>process. withIdempotency S sha options process s =
      Some (run_claimed S (idem_key options key) (idem_hash sha options) process (s\<lparr>ext := e1\<rparr>))"
proof (rule nx_eval[of PROCESSING_TTL_SECONDS "idem_key options key"
      "JSON_stringify (claim_record (idem_hash sha options))" s])
  show "0 < PROCESSING_TTL_SECONDS" by (simp add: PROCESSING_TTL_SECONDS_def)
qed (use that assms in \<open>simp add: withIdempotency_keyed[OF assms(1)]\<close>)

text \<open>A record that can be read is answered; one that is not JSON is cleared and the request runs.\<close>

lemma withIdempotency_replies:
  assumes "has_key options key" and "json_wf j"
    and "store (ext s) (idem_key options key) = Some (JSON_stringify j)"
    and "record_answer j (idem_hash sha options) = Inr r"
  obtains e' where "store e' = store (ext s)"
    and "\<And>process. withIdempotency S sha options process s = Some (Inr r, s\<lparr>ext := e'\<rparr>)"
proof -
  let ?k = "idem_key options key"
  obtain e1 where e1: "store e1 = store (ext s)"
    and nx: "await (ext_call (redis_set_nx S ?k (JSON_stringify (claim_record (idem_hash sha options)))
        PROCESSING_TTL_SECONDS)) s = (Inr False, s\<lparr>ext := e1\<rparr>)"
    using assms(3)
    by (auto intro: nx_eval[of PROCESSING_TTL_SECONDS ?k "JSON_stringify (claim_record (idem_hash sha options))" s]
        simp: PROCESSING_TTL_SECONDS_def)
  obtain e2 where e2: "store e2 = store e1"
    and get: "await (ext_call (redis_get S ?k)) (s\<lparr>ext := e1\<rparr>) = (Inr (store e1 ?k), s\<lparr>ext := e2\<rparr>)"
    using get_eval[of ?k "s\<lparr>ext := e1\<rparr>"] by auto
  have "readExistingRecord S ?k (idem_hash sha options) (s\<lparr>ext := e1\<rparr>) = (Inr (Some r), s\<lparr>ext := e2\<rparr>)"
    using get assms(2-4) e1 stringify_nonempty[OF assms(2)]
    by (simp add: readExistingRecord_def io_bind_apply JSON_parse_stringify)
  with nx that[of e2] e1 e2 show thesis by (simp add: withIdempotency_keyed[OF assms(1)])
qed

text \<open>A record that is not JSON is cleared, and the wrapper starts over on a free key.\<close>

lemma withIdempotency_corrupt:
  assumes "has_key options key" and "w \<noteq> []" and "JSON_parse w = None"
    and "store (ext s) (idem_key options key) = Some w"
  obtains e' where "store e' = (store (ext s))(idem_key options key := None)"
    and "\<And>process. withIdempotency S sha options process s =
      withIdempotency S sha options process (s\<lparr>ext := e'\<rparr>)"
proof -
  let ?k = "idem_key options key"
  obtain e1 where e1: "store e1 = store (ext s)"
    and nx: "await (ext_call (redis_set_nx S ?k (JSON_stringify (claim_record (idem_hash sha options)))
        PROCESSING_TTL_SECONDS)) s = (Inr False, s\<lparr>ext := e1\<rparr>)"
    using assms(4)
    by (auto intro: nx_eval[of PROCESSING_TTL_SECONDS ?k "JSON_stringify (claim_record (idem_hash sha options))" s]
        simp: PROCESSING_TTL_SECONDS_def)
  obtain e2 where e2: "store e2 = store e1"
    and get: "await (ext_call (redis_get S ?k)) (s\<lparr>ext := e1\<rparr>) = (Inr (store e1 ?k), s\<lparr>ext := e2\<rparr>)"
    using get_eval[of ?k "s\<lparr>ext := e1\<rparr>"] by auto
  obtain e3 where e3: "store e3 = (store e2)(?k := None)"
    and del: "del_quietly S ?k (s\<lparr>ext := e2\<rparr>) = (Inr (), s\<lparr>ext := e3\<rparr>)"
    using del_eval[of ?k "s\<lparr>ext := e2\<rparr>"] by auto
  have "readExistingRecord S ?k (idem_hash sha options) (s\<lparr>ext := e1\<rparr>) = (Inr None, s\<lparr>ext := e3\<rparr>)"
    using get del assms(2-4) e1 by (simp add: readExistingRecord_def io_bind_apply)
  with nx that[of e3] e1 e2 e3 show thesis by (simp add: withIdempotency_keyed[OF assms(1)])
qed

lemma withIdempotency_returns_keyed:
  assumes "has_key options key" and "store (ext s) (idem_key options key) \<noteq> Some []"
  shows "\<exists>out t. withIdempotency S sha options process s = Some (out, t)"
proof (cases "store (ext s) (idem_key options key)")
  case None
  then show ?thesis by (metis withIdempotency_fresh[OF assms(1)] surj_pair)
next
  case (Some w)
  show ?thesis
  proof (cases "JSON_parse w")
    case None
    obtain e' where e': "store e' = (store (ext s))(idem_key options key := None)"
      and again: "\<And>process. withIdempotency S sha options process s =
        withIdempotency S sha options process (s\<lparr>ext := e'\<rparr>)"
      using withIdempotency_corrupt[OF assms(1) _ None Some] assms(2) Some by metis
    have "store (ext (s\<lparr>ext := e'\<rparr>)) (idem_key options key) = None" by (simp add: e')
    then show ?thesis unfolding again by (metis withIdempotency_fresh[OF assms(1)] surj_pair)
  next
    case (Some j)
    obtain e1 where e1: "store e1 = store (ext s)"
      and nx: "await (ext_call (redis_set_nx S (idem_key options key)
          (JSON_stringify (claim_record (idem_hash sha options))) PROCESSING_TTL_SECONDS)) s = (Inr False, s\<lparr>ext := e1\<rparr>)"
      using \<open>store (ext s) (idem_key options key) = Some w\<close>
      by (auto intro: nx_eval[of PROCESSING_TTL_SECONDS "idem_key options key"
            "JSON_stringify (claim_record (idem_hash sha options))" s] simp: PROCESSING_TTL_SECONDS_def)
    obtain e2 where "await (ext_call (redis_get S (idem_key options key))) (s\<lparr>ext := e1\<rparr>) =
        (Inr (store e1 (idem_key options key)), s\<lparr>ext := e2\<rparr>)"
      using get_eval[of "idem_key options key" "s\<lparr>ext := e1\<rparr>"] by auto
    then have "\<exists>r u. readExistingRecord S (idem_key options key) (idem_hash sha options) (s\<lparr>ext := e1\<rparr>) = (r, u) \<and>
        r \<noteq> Inr None"
      using Some assms(2) e1 \<open>store (ext s) (idem_key options key) = Some w\<close>
      by (cases "record_answer j (idem_hash sha options)") (simp_all add: readExistingRecord_def io_bind_apply)
    with nx show ?thesis
      by (auto simp: withIdempotency_keyed[OF assms(1)] split: sum.split option.split)
  qed
qed

lemma withIdempotency_total:
  assumes "\<And>key. has_key options key \<Longrightarrow> store (ext s) (idem_key options key) \<noteq> Some []"
  shows "\<exists>out t. withIdempotency S sha options process s = Some (out, t)"
proof (cases "\<exists>key. has_key options key")
  case True
  then show ?thesis using withIdempotency_returns_keyed assms by blast
next
  case False
  then show ?thesis
    by (subst withIdempotency.simps) (auto simp: has_key_def io_bind_apply split: option.split prod.split sum.split)
qed

lemma withIdempotency_first:
  assumes "has_key options key" and "store (ext s) (idem_key options key) = None"
    and proc: "\<And>s1. \<exists>t. process s1 = (Inr r, t)" and "json_wf (resp_body r)"
    and "utf8_length (JSON_stringify (completed_record (idem_hash sha options) r)) \<le> MAX_STORED_BODY_BYTES"
  obtains t where "withIdempotency S sha options process s = Some (Inr (result_of r), t)"
    and "store (ext t) (idem_key options key) = Some (JSON_stringify (completed_record (idem_hash sha options) r))"
proof -
  obtain e1 where e1: "\<And>process. withIdempotency S sha options process s =
      Some (run_claimed S (idem_key options key) (idem_hash sha options) process (s\<lparr>ext := e1\<rparr>))"
    using withIdempotency_fresh[OF assms(1,2)] by metis
  obtain t where "process (s\<lparr>ext := e1\<rparr>) = (Inr r, t)" using proc by blast
  then obtain e' where "run_claimed S (idem_key options key) (idem_hash sha options) process (s\<lparr>ext := e1\<rparr>)
      = (Inr (result_of r), t\<lparr>ext := e'\<rparr>)"
    and "store e' = (store (ext t))(idem_key options key \<mapsto> JSON_stringify (completed_record (idem_hash sha options) r))"
    by (rule run_claimed_stores[OF _ assms(5)])
  with that[of "t\<lparr>ext := e'\<rparr>"] e1 show thesis by simp
qed

end

text \<open>A record that can be read ends the call, whatever Redis answers.\<close>

lemma withIdempotency_readable:
  assumes "redis_kv S store" and "has_key options key"
    and readable: "\<And>w. store (ext s) (idem_key options key) = Some w \<Longrightarrow> w \<noteq> [] \<and> JSON_parse w \<noteq> None"
  shows "\<exists>out t. withIdempotency S sha options process s = Some (out, t)"
proof (rule await_ext_cases[of "redis_set_nx S (idem_key options key) (JSON_stringify (claim_record (idem_hash sha options)))
    PROCESSING_TTL_SECONDS" s])
  let ?k = "idem_key options key" and ?h = "idem_hash sha options"
  fix p e1 assume call: "redis_set_nx S ?k (JSON_stringify (claim_record ?h)) PROCESSING_TTL_SECONDS (ext s) = (p, e1)"
    and run: "await (ext_call (redis_set_nx S ?k (JSON_stringify (claim_record ?h)) PROCESSING_TTL_SECONDS)) s = (outcome p, s\<lparr>ext := e1\<rparr>)"
  show ?thesis
  proof (cases "outcome p = Inr False")
    case False
    with run show ?thesis by (cases "outcome p") (simp_all add: withIdempotency_keyed[OF assms(2)] case_prod_unfold)
  next
    case True
    with redis_kv.nx_ok[OF assms(1) call True] obtain w where w: "store e1 ?k = Some w" "store (ext s) ?k = Some w" by auto
    with readable obtain j where j: "w \<noteq> []" "JSON_parse w = Some j" by blast
    obtain q e2 where get: "redis_get S ?k (ext (s\<lparr>ext := e1\<rparr>)) = (q, e2)"
      and got: "await (ext_call (redis_get S ?k)) (s\<lparr>ext := e1\<rparr>) = (outcome q, s\<lparr>ext := e1\<rparr>\<lparr>ext := e2\<rparr>)"
      by (rule await_ext_cases)
    have "outcome q = Inr v \<Longrightarrow> v = Some w" for v using redis_kv.get_value[OF assms(1) get] w(1) by simp
    with got j have "\<exists>r u. readExistingRecord S ?k ?h (s\<lparr>ext := e1\<rparr>) = (r, u) \<and> r \<noteq> Inr None"
      by (cases "outcome q") (auto simp: readExistingRecord_def io_bind_apply split: sum.split)
    with run True show ?thesis
      by (auto simp: withIdempotency_keyed[OF assms(2)] split: sum.split option.split)
  qed
qed

lemma withIdempotency_settles:
  assumes "redis_kv S store"
    and "\<And>key w. has_key options key \<Longrightarrow> store (ext s) (idem_key options key) = Some w \<Longrightarrow>
      w \<noteq> [] \<and> (JSON_parse w \<noteq> None \<or> redis_answers S store)"
  shows "\<exists>out t. withIdempotency S sha options process s = Some (out, t)"
proof (cases "redis_answers S store")
  case True
  then show ?thesis by (rule redis_answers.withIdempotency_total) (use assms(2) in blast)
next
  case no: False
  show ?thesis
  proof (cases "\<exists>key. has_key options key")
    case True
    with no assms show ?thesis by (blast intro: withIdempotency_readable)
  next
    case False
    then show ?thesis
      by (subst withIdempotency.simps) (auto simp: has_key_def io_bind_apply split: option.split prod.split sum.split)
  qed
qed

interpretation stub: redis_answers stub_services "\<lambda>m. m"
  by unfold_locales (auto simp: stub_defs answered_def split: if_splits)

section \<open>Properties\<close>

lemma key_char_no_colon: "valid_idempotency_key key \<Longrightarrow> CHR '':'' \<notin> set key"
  by (auto simp: valid_idempotency_key_def list_all_iff key_char_def)

text \<open>The Redis key separates users and keys: within one scope, two well-formed keys of two user
  ids without a colon give the same Redis key only if both agree.\<close>

theorem idempotency_key_isolates:
  assumes "CHR '':'' \<notin> set u" and "CHR '':'' \<notin> set u'"
    and "valid_idempotency_key k" and "valid_idempotency_key k'"
  shows "buildRedisKey scope u k = buildRedisKey scope u' k' \<longleftrightarrow> u = u' \<and> k = k'"
  using assms append_sep_iff[of "CHR '':''" u u' k k'] by (simp add: buildRedisKey_def)

text \<open>At most once: while a record for the key is in Redis, a request with that key never runs
  its processor (the run is the same for every processor) and does not change the store. It
  answers with the stored status and body if the record is completed and the request hash
  agrees, with 409 \<open>IDEMPOTENT_REQUEST_IN_PROGRESS\<close> if it is still a claim, with 409
  \<open>IDEMPOTENCY_KEY_CONFLICT\<close> if the hash differs, and otherwise with the error of Redis.\<close>

theorem idempotency_record_blocks_processing:
  assumes "redis_kv S store" and "has_key options key" and "json_wf (resp_body r)"
    and "record \<in> {claim_record h, completed_record h r}"
    and "store (ext s) (idem_key options key) = Some (JSON_stringify record)"
  shows "\<exists>out t. (\<forall>process. withIdempotency S sha options process s = Some (out, t)) \<and>
    store (ext t) = store (ext s) \<and>
    ((\<exists>x. out = Inl x) \<or>
     out = Inr (if h \<noteq> idem_hash sha options then key_conflict_result
                else if record = claim_record h then in_progress_result else result_of r))"
proof -
  have differ: "completed_record h r \<noteq> claim_record g" for g
    by (simp add: claim_record_def completed_record_def)
  have same: "claim_record h = claim_record g \<longleftrightarrow> h = g" for g
    by (simp add: claim_record_def)
  let ?out = "if h \<noteq> idem_hash sha options then key_conflict_result
                else if record = claim_record h then in_progress_result else result_of r"
  have "json_wf record" and "record_answer record (idem_hash sha options) = Inr ?out"
    using assms(3,4) differ same by (auto simp: record_answer_completed record_answer_claim)
  from redis_kv.withIdempotency_held[OF assms(1,2) this(1) assms(5) this(2)]
  show ?thesis by fastforce
qed

text \<open>Replay: when Redis answers, the first request with a free key runs its processor, answers
  with the result and leaves it in Redis; any later request with the same key and the same
  payload gets the same status and body, whatever its processor would do, as long as the record
  is there.\<close>

theorem idempotency_replays_first_result:
  fixes s :: "('e, 'm) api_state_scheme"
  assumes "redis_answers S store" and "has_key options key"
    and "store (ext s) (idem_key options key) = None"
    and "\<And>s1. \<exists>t. process s1 = (Inr r, t)" and "json_wf (resp_body r)"
    and "utf8_length (JSON_stringify (completed_record (idem_hash sha options) r)) \<le> MAX_STORED_BODY_BYTES"
  shows "\<exists>t. withIdempotency S sha options process s = Some (Inr (result_of r), t) \<and>
    (\<forall>options' process' (u :: ('e, 'm) api_state_scheme). has_key options' key \<longrightarrow> idem_key options' key = idem_key options key \<longrightarrow>
       idem_hash sha options' = idem_hash sha options \<longrightarrow>
       store (ext u) (idem_key options key) = store (ext t) (idem_key options key) \<longrightarrow>
       (\<exists>u'. withIdempotency S sha options' process' u = Some (Inr (result_of r), u') \<and>
          store (ext u') = store (ext u)))"
proof -
  obtain t where run: "withIdempotency S sha options process s = Some (Inr (result_of r), t)"
    and held: "store (ext t) (idem_key options key) =
      Some (JSON_stringify (completed_record (idem_hash sha options) r))"
    by (rule redis_answers.withIdempotency_first[OF assms])
  have "\<exists>u'. withIdempotency S sha options' process' u = Some (Inr (result_of r), u') \<and>
      store (ext u') = store (ext u)"
    if "has_key options' key" and "idem_key options' key = idem_key options key"
      and "idem_hash sha options' = idem_hash sha options"
      and "store (ext u) (idem_key options key) = store (ext t) (idem_key options key)"
    for options' process' and u :: "('e, 'm) api_state_scheme"
  proof -
    note hk = that(1)
    have "json_wf (completed_record (idem_hash sha options) r)" by (simp add: assms(5))
    moreover have "store (ext u) (idem_key options' key) =
        Some (JSON_stringify (completed_record (idem_hash sha options) r))"
      using that held by simp
    moreover have "record_answer (completed_record (idem_hash sha options) r) (idem_hash sha options') =
        Inr (result_of r)"
      using that by (simp add: record_answer_completed)
    ultimately obtain e' where "store e' = store (ext u)"
      "\<And>process. withIdempotency S sha options' process u = Some (Inr (result_of r), u\<lparr>ext := e'\<rparr>)"
      by (rule redis_answers.withIdempotency_replies[OF assms(1) hk]) (rule that)
    then show ?thesis by simp
  qed
  then show ?thesis using run by blast
qed

text \<open>Release: a processor that fails leaves no claim behind. Its error is the outcome, and the
  next request with the key runs its own processor.\<close>

theorem idempotency_failure_releases_key:
  fixes s :: "('e, 'm) api_state_scheme"
  assumes "redis_answers S store" and "has_key options key"
    and "store (ext s) (idem_key options key) = None"
    and "\<And>s1. \<exists>t. process s1 = (Inl x, t)"
  shows "\<exists>t. withIdempotency S sha options process s = Some (Inl x, t) \<and>
    store (ext t) (idem_key options key) = None \<and>
    (\<forall>process' options'. has_key options' key \<longrightarrow> idem_key options' key = idem_key options key \<longrightarrow>
      (\<exists>e1. withIdempotency S sha options' process' t =
        Some (run_claimed S (idem_key options key) (idem_hash sha options') process' (t\<lparr>ext := e1\<rparr>))))"
proof -
  obtain e1 where e1: "\<And>process. withIdempotency S sha options process s =
      Some (run_claimed S (idem_key options key) (idem_hash sha options) process (s\<lparr>ext := e1\<rparr>))"
    by (rule redis_answers.withIdempotency_fresh[OF assms(1-3), where sha = sha]) (rule that)
  obtain t where "process (s\<lparr>ext := e1\<rparr>) = (Inl x, t)" using assms(4) by blast
  then obtain e' where "run_claimed S (idem_key options key) (idem_hash sha options) process (s\<lparr>ext := e1\<rparr>)
      = (Inl x, t\<lparr>ext := e'\<rparr>)" and gone: "store e' = (store (ext t))(idem_key options key := None)"
    by (rule redis_answers.run_claimed_releases[OF assms(1)])
  with e1 have run: "withIdempotency S sha options process s = Some (Inl x, t\<lparr>ext := e'\<rparr>)" by simp
  have "\<exists>e1. withIdempotency S sha options' process' (t\<lparr>ext := e'\<rparr>) =
        Some (run_claimed S (idem_key options key) (idem_hash sha options') process' (t\<lparr>ext := e'\<rparr>\<lparr>ext := e1\<rparr>))"
    if hk: "has_key options' key" and ks: "idem_key options' key = idem_key options key"
    for process' options'
  proof -
    have "store (ext (t\<lparr>ext := e'\<rparr>)) (idem_key options' key) = None" by (simp add: gone ks)
    then obtain e2 where "\<And>process. withIdempotency S sha options' process (t\<lparr>ext := e'\<rparr>) =
      Some (run_claimed S (idem_key options' key) (idem_hash sha options') process (t\<lparr>ext := e'\<rparr>\<lparr>ext := e2\<rparr>))"
      by (rule redis_answers.withIdempotency_fresh[OF assms(1) hk, where sha = sha]) (rule that)
    then show ?thesis unfolding ks by blast
  qed
  with run gone show ?thesis by (intro exI[of _ "t\<lparr>ext := e'\<rparr>"]) simp
qed

text \<open>The wrapper returns: whatever the store holds under the key except the empty text, a request
  ends in a result or an error. (An unreadable record is cleared and the second round finds the
  key free.)\<close>

theorem withIdempotency_returns:
  assumes "redis_answers S store"
    and "\<And>key. has_key options key \<Longrightarrow> store (ext s) (idem_key options key) \<noteq> Some []"
  shows "\<exists>out t. withIdempotency S sha options process s = Some (out, t)"
  by (rule redis_answers.withIdempotency_total[OF assms])

text \<open>An error of Redis after the work is done loses the work's result: if the completed record is
  refused and the claim is then deleted, the caller gets the error of Redis, not the result, the
  key is free, and a retry with the same key runs the processor again.\<close>

theorem idempotency_refused_record_reprocesses:
  assumes "redis_kv S store" and "has_key options key"
    and "redis_set_nx S (idem_key options key) (JSON_stringify (claim_record (idem_hash sha options)))
       PROCESSING_TTL_SECONDS (ext s) = (p1, e1)" and "outcome p1 = Inr True"
    and "process (s\<lparr>ext := e1\<rparr>) = (Inr r, t)"
    and "utf8_length (JSON_stringify (completed_record (idem_hash sha options) r)) \<le> MAX_STORED_BODY_BYTES"
    and "redis_set S (idem_key options key) (JSON_stringify (completed_record (idem_hash sha options) r))
       COMPLETED_TTL_SECONDS (ext t) = (p2, e2)" and "outcome p2 = Inl x"
    and "redis_del S (idem_key options key) e2 = (p3, e3)" and "outcome p3 = Inr n"
    and "redis_set_nx S (idem_key options key) (JSON_stringify (claim_record (idem_hash sha options)))
       PROCESSING_TTL_SECONDS e3 = (p4, e4)" and "outcome p4 = Inr b"
  shows "withIdempotency S sha options process s = Some (Inl x, t\<lparr>ext := e3\<rparr>) \<and>
    store e3 (idem_key options key) = None \<and>
    withIdempotency S sha options process (t\<lparr>ext := e3\<rparr>) =
      Some (run_claimed S (idem_key options key) (idem_hash sha options) process (t\<lparr>ext := e4\<rparr>))"
proof (intro conjI)
  show gone: "store e3 (idem_key options key) = None"
    using redis_kv.del_ok[OF assms(1,9,10)] by simp
  show "withIdempotency S sha options process s = Some (Inl x, t\<lparr>ext := e3\<rparr>)"
    using assms(3-10)
    by (simp add: withIdempotency_keyed[OF assms(2)] run_claimed_def del_quietly_def await_def ext_call_def
        io_catch_apply io_bind_apply Let_def)
  have "b" using redis_kv.nx_ok[OF assms(1,11,12)] gone by simp
  then show "withIdempotency S sha options process (t\<lparr>ext := e3\<rparr>) =
      Some (run_claimed S (idem_key options key) (idem_hash sha options) process (t\<lparr>ext := e4\<rparr>))"
    using assms(11,12) by (simp add: withIdempotency_keyed[OF assms(2)] await_def ext_call_def)
qed

section \<open>Witnesses\<close>

definition demo_request :: http_request where
  "demo_request = \<lparr>req_method = ''POST'', req_url = ''/v1/orders?x=1'', req_route = Some ''/v1/orders'',
     req_ip = ''10.0.0.1'', req_id = ''r1'', req_correlationId = None, req_headers = [''idempotency-key'' \<mapsto> HeaderOne ''order-0001'']\<rparr>"

definition demo_idem :: idempotency_options where
  "demo_idem = \<lparr>io_scope = ''orders:create'', io_userId = ''u1'', io_request = demo_request,
     io_requestBody = JObj [(''items'', JArr [])]\<rparr>"

definition demo_result :: response where
  "demo_result = \<lparr>resp_status = 201, resp_body = JObj [(''id'', JStr ''o1'')]\<rparr>"

definition demo_sha :: "string \<Rightarrow> string" where
  "demo_sha t = take 8 t"

lemma demo_has_key: "has_key demo_idem ''order-0001''"
  by (simp add: has_key_def demo_idem_def demo_request_def readIdempotencyKey_def
      valid_idempotency_key_def key_char_def)

lemma utf8_length_le: "utf8_length s \<le> 2 * length s"
  by (induction s) (auto simp: utf8_length_def)

lemma demo_hash: "idem_hash demo_sha demo_idem = take 8 (JSON_stringify (JObj [(''method'', JStr ''POST''),
    (''route'', JStr ''/v1/orders''), (''body'', JObj [(''items'', JArr [])])]))"
  by (simp add: idem_hash_def canonicalRequestHash_def demo_sha_def demo_idem_def demo_request_def)

lemma length_escape_char: "length (escape_char c) \<le> 6"
  by (simp add: escape_char_def Let_def)

lemma length_quote_string: "length (quote_string s) \<le> 6 * length s + 2"
proof -
  have "length (concat (map escape_char s)) \<le> 6 * length s"
  proof (induction s)
    case (Cons c s)
    then show ?case using length_escape_char[of c] by simp
  qed simp
  then show ?thesis by (simp add: quote_string_def)
qed

lemma demo_fits:
  "utf8_length (JSON_stringify (completed_record (idem_hash demo_sha demo_idem) demo_result)) \<le> MAX_STORED_BODY_BYTES"
proof -
  have "length (idem_hash demo_sha demo_idem) \<le> 8" by (simp add: demo_hash)
  then have "length (quote_string (idem_hash demo_sha demo_idem)) \<le> 50"
    using length_quote_string[of "idem_hash demo_sha demo_idem"] by linarith
  then have "length (JSON_stringify (completed_record (idem_hash demo_sha demo_idem) demo_result)) \<le> 1000"
    by (simp add: completed_record_def demo_result_def quote_string_def escape_char_def int_to_string_def
        nat_to_string.simps[of 201] nat_to_string.simps[of 20] nat_to_string.simps[of 2])
  then show ?thesis
    using utf8_length_le[of "JSON_stringify (completed_record (idem_hash demo_sha demo_idem) demo_result)"]
    by (simp add: MAX_STORED_BODY_BYTES_def)
qed

theorem idempotency_key_isolates_witness:
  "buildRedisKey ''orders:create'' ''u1'' ''order-0001'' \<noteq> buildRedisKey ''orders:create'' ''u2'' ''order-0001''"
proof -
  have "valid_idempotency_key ''order-0001''" using demo_has_key by (simp add: has_key_def)
  then show ?thesis using idempotency_key_isolates[of "''u1''" "''u2''" "''order-0001''" "''order-0001''"] by simp
qed

theorem idempotency_record_blocks_witness:
  "\<exists>out t. \<forall>process. withIdempotency stub_services demo_sha demo_idem process
     (demo_state [idem_key demo_idem ''order-0001'' \<mapsto> JSON_stringify (completed_record ''other'' demo_result)]) =
     Some (out, t)"
  using idempotency_record_blocks_processing[OF stub.redis_kv_axioms demo_has_key,
      of demo_result "completed_record ''other'' demo_result" "''other''"
        "demo_state [idem_key demo_idem ''order-0001'' \<mapsto> JSON_stringify (completed_record ''other'' demo_result)]"
        demo_sha]
  by (auto simp: demo_state_def demo_result_def)

theorem idempotency_replays_witness:
  "\<exists>t. withIdempotency stub_services demo_sha demo_idem (io_return demo_result) (demo_state (\<lambda>_. None)) =
      Some (Inr (result_of demo_result), t) \<and>
    (\<forall>process'. \<exists>u'. withIdempotency stub_services demo_sha demo_idem process' t =
      Some (Inr (result_of demo_result), u'))"
proof -
  have wf: "json_wf (resp_body demo_result)" by (simp add: demo_result_def)
  show ?thesis
    using idempotency_replays_first_result[OF stub.redis_answers_axioms demo_has_key _ _ wf demo_fits,
        of "demo_state (\<lambda>_. None)" "io_return demo_result"] demo_has_key
    by (fastforce simp: demo_state_def)
qed

theorem idempotency_failure_releases_witness:
  "\<exists>t. withIdempotency stub_services demo_sha demo_idem (io_throw null_property) (demo_state (\<lambda>_. None)) =
      Some (Inl null_property, t) \<and> ext t (idem_key demo_idem ''order-0001'') = None"
  using idempotency_failure_releases_key[OF stub.redis_answers_axioms demo_has_key,
      of "demo_state (\<lambda>_. None)" "io_throw null_property" null_property demo_sha]
  by (auto simp: demo_state_def)

theorem withIdempotency_returns_witness:
  "\<exists>out t. withIdempotency stub_services demo_sha demo_idem (io_return demo_result)
     (demo_state [idem_key demo_idem ''order-0001'' \<mapsto> ''{'']) = Some (out, t)"
proof (rule withIdempotency_returns[OF stub.redis_answers_axioms])
  fix key assume "has_key demo_idem key"
  then show "ext (demo_state [idem_key demo_idem ''order-0001'' \<mapsto> ''{'']) (idem_key demo_idem key) \<noteq> Some []"
    by (simp add: demo_state_def)
qed

text \<open>A server that loses the connection while the completed record is written.\<close>

definition flaky_server :: redis_server where
  "flaky_server = \<lparr>rs_data = (\<lambda>_. None), rs_now = 0,
     rs_script = [Answered 0, Lost 0 connection_lost False, Answered 0, Answered 0]\<rparr>"

theorem idempotency_refused_record_witness:
  "\<exists>t e4. withIdempotency server_services demo_sha demo_idem (io_return demo_result) (demo_state flaky_server) =
      Some (Inl connection_lost, t) \<and>
    withIdempotency server_services demo_sha demo_idem (io_return demo_result) t =
      Some (run_claimed server_services (idem_key demo_idem ''order-0001'') (idem_hash demo_sha demo_idem)
        (io_return demo_result) (t\<lparr>ext := e4\<rparr>))"
proof -
  let ?k = "idem_key demo_idem ''order-0001''" and ?h = "idem_hash demo_sha demo_idem"
  let ?s = "demo_state flaky_server"
  let ?c1 = "redis_set_nx server_services ?k (JSON_stringify (claim_record ?h)) PROCESSING_TTL_SECONDS"
  let ?c2 = "redis_set server_services ?k (JSON_stringify (completed_record ?h demo_result)) COMPLETED_TTL_SECONDS"
  let ?e1 = "snd (?c1 flaky_server)"
  let ?e2 = "snd (?c2 ?e1)"
  let ?e3 = "snd (redis_del server_services ?k ?e2)"
  note defs = server_services_def server_set_nx_def server_set_def server_del_def run_command_def
    flaky_server_def live_def store_key_def PROCESSING_TTL_SECONDS_def COMPLETED_TTL_SECONDS_def
    connection_lost_def demo_state_def
  have 1: "outcome (fst (?c1 (ext ?s))) = Inr True" by (simp add: defs)
  have 2: "outcome (fst (?c2 ?e1)) = Inl connection_lost" by (simp add: defs)
  have 3: "outcome (fst (redis_del server_services ?k ?e2)) = Inr 1" by (simp add: defs)
  have 4: "outcome (fst (?c1 ?e3)) = Inr True" by (simp add: defs)
  have e1: "snd (?c1 (ext ?s)) = ?e1" by (simp add: demo_state_def)
  note runs = idempotency_refused_record_reprocesses[OF server.redis_kv_axioms demo_has_key
      surjective_pairing 1 _ demo_fits surjective_pairing _ surjective_pairing _ surjective_pairing,
      of "io_return demo_result" "?s\<lparr>ext := ?e1\<rparr>" connection_lost 1 True]
  show ?thesis using runs 2 3 4 e1 by (auto simp del: fun_upd_apply)
qed

end
