(* ===== verification/Order_Routes.thy ===== *)
theory Order_Routes
  imports Order_Query Cache_Aside Idempotency
begin

text \<open>
  \<open>routes/orders.routes.ts\<close>: the four handlers. Parameters stand for what is not in the
  repository: Redis and the clock (\<open>S\<close>), SHA-256 (\<open>sha\<close>), the generator behind
  \<open>randomUUID\<close> (\<open>uuid\<close>), the texts of schema issues (\<open>issues\<close>) and the reading of times
  (\<open>T\<close>). \<open>user\<close> is \<open>request.user\<close>. An error of a handler
  reaches the error handler of \<open>app.ts\<close>.
\<close>

definition orderEntityKey :: "string \<Rightarrow> string" where
  "orderEntityKey oid = ns_order @ '':'' @ oid"

definition unauthenticated :: response where
  "unauthenticated = error_response 401 ''UNAUTHENTICATED'' ''Missing user''"

definition order_not_found :: response where
  "order_not_found = error_response 404 ''ORDER_NOT_FOUND'' ''Order not found''"

definition internal_error :: response where
  "internal_error = error_response 500 ''INTERNAL_ERROR'' ''Internal server error''"

text \<open>The error handler of \<open>app.ts\<close> around a handler.\<close>

definition with_error_handler :: "('s, response) io \<Rightarrow> ('s, response) io" where
  "with_error_handler h = io_catch h (\<lambda>error. io_return internal_error)"

section \<open>POST /v1/orders\<close>

definition order_body :: "order_row \<Rightarrow> json" where
  "order_body row = JObj [(''order'', order_json row)]"

definition createOrderTransactionally ::
  "'e services \<Rightarrow> api_config \<Rightarrow> (nat \<Rightarrow> string) \<Rightarrow> http_request \<Rightarrow> string \<Rightarrow> create_order_data
     \<Rightarrow> (('e, 'm) app_state_scheme, response) io" where
  "createOrderTransactionally S cfg uuid request userId dat =
     (let total_cents = totalCents (co_items dat) in
      io_bind (randomUUID uuid) (\<lambda>oid.
      io_bind (randomUUID uuid) (\<lambda>evid.
      io_bind (io_get (\<lambda>s. date_now S (ext s))) (\<lambda>occurred.
      io_bind (on_pg pg_connect) (\<lambda>u.
        io_finally
          (io_catch
            (io_bind (on_pg pg_begin) (\<lambda>u.
             io_bind (on_pg (pg_run (insert_order oid userId (co_customerEmail dat) (co_items dat) total_cents))) (\<lambda>row.
             io_bind (randomUUID uuid) (\<lambda>aid.
             io_bind (on_pg (pg_run (insert_order_event aid oid ''created'' None Pending userId))) (\<lambda>u.
             io_bind (on_pg (pg_run (insert_outbox_event evid oid
                \<lparr>eventId = evid, orderId = oid, occurredAt = toISOString occurred,
                 correlationId = Some (case req_correlationId request of Some c \<Rightarrow> c | None \<Rightarrow> req_id request)\<rparr>
                occurred))) (\<lambda>u.
             io_bind (on_pg pg_commit) (\<lambda>u.
             io_bind (invalidateListNamespace S cfg ns_ordersList) (\<lambda>u.
             io_return \<lparr>resp_status = 201, resp_body = order_body row\<rparr>))))))))
            (\<lambda>error. io_bind rollback_quietly (\<lambda>u. io_throw error)))
          pg_release)))))"

definition post_orders ::
  "'e services \<Rightarrow> api_config \<Rightarrow> (string \<Rightarrow> string) \<Rightarrow> (nat \<Rightarrow> string) \<Rightarrow> (json \<Rightarrow> (string list \<times> string) list)
     \<Rightarrow> http_request \<Rightarrow> auth_user option \<Rightarrow> json \<Rightarrow> ('e, 'm) app_state_scheme
     \<Rightarrow> ((js_error + idempotency_result) \<times> ('e, 'm) app_state_scheme) option" where
  "post_orders S cfg sha uuid issues request user body s =
     (case createOrderSchema body of
        None \<Rightarrow> Some (Inr (result_of (validationError (normalizeZodError (issues body)))), s)
      | Some dat \<Rightarrow>
          (case user of
             None \<Rightarrow> Some (Inr (result_of unauthenticated), s)
           | Some u \<Rightarrow>
               withIdempotency S sha
                 \<lparr>io_scope = ''orders:create'', io_userId = user_id u, io_request = request,
                  io_requestBody = create_order_json dat\<rparr>
                 (createOrderTransactionally S cfg uuid request (user_id u) dat) s))"

section \<open>GET /v1/orders/:id\<close>

text \<open>\<open>!x\<close> on a JSON value.\<close>

fun falsy :: "json \<Rightarrow> bool" where
  "falsy JNull = True"
| "falsy (JBool b) = (\<not> b)"
| "falsy (JNum n) = (n = 0)"
| "falsy (JStr s) = (s = [])"
| "falsy j = False"

definition no_property :: js_error where
  "no_property = JsError ''Cannot read properties of undefined (reading 'user_id')'' None"

definition fetch_order :: "string \<Rightarrow> (('e, 'm) app_state_scheme, json option) io" where
  "fetch_order oid = io_bind (on_pg (pg_pool (select_order oid))) (\<lambda>found.
     io_return (map_option order_body found))"

definition get_order ::
  "'e services \<Rightarrow> api_config \<Rightarrow> (json \<Rightarrow> (string list \<times> string) list) \<Rightarrow> string \<Rightarrow> auth_user option
     \<Rightarrow> (('e, 'm) app_state_scheme, response) io" where
  "get_order S cfg issues idParam user =
     (if \<not> orderIdParamsSchema idParam
      then io_return (validationError (normalizeZodError (issues (JObj [(''id'', JStr idParam)]))))
      else (case user of
        None \<Rightarrow> io_return unauthenticated
      | Some u \<Rightarrow>
          io_bind (withEntityCache S cfg
                     \<lparr>ec_key = orderEntityKey idParam, ec_namespace = ns_order, ec_ttlSeconds = None\<rparr>
                     (fetch_order idParam))
            (\<lambda>cached. case cached of
               None \<Rightarrow> io_return order_not_found
             | Some body \<Rightarrow>
                 if falsy body then io_return order_not_found
                 else (case json_prop ''order'' body of
                         None \<Rightarrow> io_throw no_property
                       | Some ord \<Rightarrow>
                           if ord = JNull then io_throw no_property
                           else if json_prop ''user_id'' ord \<noteq> Some (JStr (user_id u)) then io_return order_not_found
                           else io_return \<lparr>resp_status = 200, resp_body = body\<rparr>))))"

section \<open>PATCH /v1/orders/:id\<close>

definition invalid_transition :: "order_status \<Rightarrow> order_status \<Rightarrow> response" where
  "invalid_transition frm to =
     \<lparr>resp_status = 422,
      resp_body = JObj [(''error'', JObj
        [(''code'', JStr ''INVALID_STATUS_TRANSITION''),
         (''message'', JStr (''Cannot transition from '' @ status_name frm @ '' to '' @ status_name to)),
         (''details'', JObj
           [(''from'', JStr (status_name frm)), (''to'', JStr (status_name to)),
            (''allowed'', JArr (map (\<lambda>st. JStr (status_name st)) (orderStatusTransitions frm)))])])]\<rparr>"

text \<open>\<open>{ order }\<close>, where \<open>order\<close> is \<open>undefined\<close> (left out) if no row came back.\<close>

definition order_reply :: "order_row option \<Rightarrow> response" where
  "order_reply found = \<lparr>resp_status = 200,
     resp_body = JObj (case found of None \<Rightarrow> [] | Some row \<Rightarrow> [(''order'', order_json row)])\<rparr>"

definition patch_txn ::
  "'e services \<Rightarrow> api_config \<Rightarrow> (nat \<Rightarrow> string) \<Rightarrow> string \<Rightarrow> auth_user \<Rightarrow> order_status
     \<Rightarrow> (('e, 'm) app_state_scheme, response) io" where
  "patch_txn S cfg uuid idParam user target =
     io_bind (on_pg pg_begin) (\<lambda>u.
     io_bind (on_pg (pg_run (select_order idParam))) (\<lambda>found.
       case found of
         None \<Rightarrow> io_bind (on_pg pg_rollback) (\<lambda>u. io_return order_not_found)
       | Some current \<Rightarrow>
           if o_user_id current \<noteq> user_id user
           then io_bind (on_pg pg_rollback) (\<lambda>u. io_return order_not_found)
           else if \<not> isAllowedOrderStatusTransition (o_status current) target
           then io_bind (on_pg pg_rollback) (\<lambda>u. io_return (invalid_transition (o_status current) target))
           else
             io_bind
               (if o_status current = target then on_pg (pg_run (select_order idParam))
                else
                  io_bind (on_pg (pg_run (update_order_status idParam target))) (\<lambda>updated.
                  io_bind (randomUUID uuid) (\<lambda>aid.
                  io_bind (on_pg (pg_run (insert_order_event aid idParam ''status_changed''
                    (Some (o_status current)) target (user_id user)))) (\<lambda>u.
                  io_return updated))))
               (\<lambda>order.
             io_bind (on_pg pg_commit) (\<lambda>u.
             io_bind
               (if o_status current \<noteq> target
                then io_bind (invalidateEntity S cfg (orderEntityKey idParam) ns_order)
                       (\<lambda>u. invalidateListNamespace S cfg ns_ordersList)
                else io_return ())
               (\<lambda>u. io_return (order_reply order))))))"

definition patch_order ::
  "'e services \<Rightarrow> api_config \<Rightarrow> (nat \<Rightarrow> string) \<Rightarrow> (json \<Rightarrow> (string list \<times> string) list) \<Rightarrow> string
     \<Rightarrow> auth_user option \<Rightarrow> json \<Rightarrow> (('e, 'm) app_state_scheme, response) io" where
  "patch_order S cfg uuid issues idParam user body =
     (if \<not> orderIdParamsSchema idParam
      then io_return (validationError (normalizeZodError (issues (JObj [(''id'', JStr idParam)]))))
      else (case patchOrderSchema body of
        None \<Rightarrow> io_return (validationError (normalizeZodError (issues body)))
      | Some target \<Rightarrow>
          (case user of
             None \<Rightarrow> io_return unauthenticated
           | Some u \<Rightarrow>
               io_bind (on_pg pg_connect) (\<lambda>x.
                 io_finally
                   (io_catch (patch_txn S cfg uuid idParam u target)
                     (\<lambda>error. io_bind rollback_quietly (\<lambda>y. io_throw error)))
                   pg_release))))"

section \<open>GET /v1/orders\<close>

definition lq_params :: "list_orders_query \<Rightarrow> pagination_params" where
  "lq_params q = \<lparr>page = lq_page q, pageSize = lq_pageSize q\<rparr>"

text \<open>An absent property, an absent value: \<open>undefined\<close>; \<open>x ?? null\<close>.\<close>

definition or_undefined :: "string option \<Rightarrow> js_value" where
  "or_undefined x = (case x of None \<Rightarrow> JsUndefined | Some t \<Rightarrow> JsString t)"

definition or_null :: "string option \<Rightarrow> js_value" where
  "or_null x = (case x of None \<Rightarrow> JsNull | Some t \<Rightarrow> JsString t)"

definition json_or_null :: "string option \<Rightarrow> json" where
  "json_or_null x = (case x of None \<Rightarrow> JNull | Some t \<Rightarrow> JStr t)"

text \<open>\<open>{ ...query, userId: user.id }\<close>.\<close>

definition list_cache_query :: "list_orders_query \<Rightarrow> string \<Rightarrow> js_object" where
  "list_cache_query q userId =
     [(''page'', JsNumber (lq_page q)), (''pageSize'', JsNumber (lq_pageSize q)),
      (''status'', or_undefined (map_option status_name (lq_status q))),
      (''customerEmail'', or_undefined (lq_customerEmail q)),
      (''createdAfter'', or_undefined (lq_createdAfter q)),
      (''createdBefore'', or_undefined (lq_createdBefore q)),
      (''userId'', JsString userId)]"

definition count_cache_query :: "list_orders_query \<Rightarrow> string \<Rightarrow> js_object" where
  "count_cache_query q userId =
     [(''userId'', JsString userId),
      (''status'', or_null (map_option status_name (lq_status q))),
      (''customerEmail'', or_null (map_option js_lower (lq_customerEmail q))),
      (''createdAfter'', or_null (lq_createdAfter q)),
      (''createdBefore'', or_null (lq_createdBefore q))]"

text \<open>The \<open>WHERE\<close> clause. A filter that is absent or the empty text adds no condition.\<close>

definition given :: "string option \<Rightarrow> string option" where
  "given x = (if x = Some [] then None else x)"

definition where_orders :: "time_texts \<Rightarrow> list_orders_query \<Rightarrow> string \<Rightarrow> order_row \<Rightarrow> bool" where
  "where_orders T q userId row =
     (o_user_id row = uuid_in userId \<and>
      (case lq_status q of None \<Rightarrow> True | Some st \<Rightarrow> o_status row = st) \<and>
      (case given (lq_customerEmail q) of None \<Rightarrow> True | Some e \<Rightarrow> o_customer_email row = js_lower e) \<and>
      (case given (lq_createdAfter q) of None \<Rightarrow> True | Some t \<Rightarrow> the (tt_timestamptz T t) \<le> o_created_at row) \<and>
      (case given (lq_createdBefore q) of None \<Rightarrow> True | Some t \<Rightarrow> o_created_at row \<le> the (tt_timestamptz T t)))"

text \<open>
  The server reads the parameters before any row: a text with a NUL, which the e-mail schema lets
  through, or a time it does not know is an error.
\<close>

definition bad_time :: js_error where
  "bad_time = pg_error ''22008'' ''date/time field value out of range''"

definition email_readable :: "list_orders_query \<Rightarrow> bool" where
  "email_readable q = (case given (lq_customerEmail q) of None \<Rightarrow> True | Some e \<Rightarrow> text_ok (js_lower e))"

definition params_readable :: "time_texts \<Rightarrow> list_orders_query \<Rightarrow> bool" where
  "params_readable T q =
     (email_readable q \<and>
      (case given (lq_createdAfter q) of None \<Rightarrow> True | Some t \<Rightarrow> tt_timestamptz T t \<noteq> None) \<and>
      (case given (lq_createdBefore q) of None \<Rightarrow> True | Some t \<Rightarrow> tt_timestamptz T t \<noteq> None))"

definition param_error :: "list_orders_query \<Rightarrow> js_error" where
  "param_error q = (if email_readable q then bad_time else bad_text)"

text \<open>
  \<open>ORDER BY created_at DESC LIMIT l OFFSET o\<close>; rows of the same time come in table order,
  one of the orders the server may choose. \<open>OFFSET\<close> is a \<open>bigint\<close>.
\<close>

definition newest_first :: "order_row list \<Rightarrow> order_row list" where
  "newest_first rows = sort_key (\<lambda>row. - o_created_at row) rows"

definition select_page :: "time_texts \<Rightarrow> list_orders_query \<Rightarrow> string \<Rightarrow> order_row list statement" where
  "select_page T q userId now d =
     (if \<not> params_readable T q then Inl (param_error q)
      else if 9223372036854775807 < paginationOffset (lq_params q) then Inl out_of_range
      else Inr (page_rows (newest_first (filter (where_orders T q userId) (orders d))) (lq_params q), d))"

definition select_count :: "time_texts \<Rightarrow> list_orders_query \<Rightarrow> string \<Rightarrow> int statement" where
  "select_count T q userId now d =
     (if \<not> params_readable T q then Inl (param_error q)
      else Inr (int (length (filter (where_orders T q userId) (orders d))), d))"

definition list_body :: "list_orders_query \<Rightarrow> pagination_meta \<Rightarrow> order_row list \<Rightarrow> json" where
  "list_body q meta rows = JObj
     [(''page'', JNum (meta_page meta)), (''pageSize'', JNum (meta_pageSize meta)),
      (''total'', JNum (meta_total meta)), (''totalPages'', JNum (meta_totalPages meta)),
      (''hasNext'', JBool (meta_hasNext meta)), (''hasPrev'', JBool (meta_hasPrev meta)),
      (''orders'', JArr (map order_json rows)),
      (''filters'', JObj
        [(''status'', json_or_null (map_option status_name (lq_status q))),
         (''customerEmail'', json_or_null (lq_customerEmail q)),
         (''createdAfter'', json_or_null (lq_createdAfter q)),
         (''createdBefore'', json_or_null (lq_createdBefore q))])]"

text \<open>\<open>Promise.all\<close>: both run to their end; here the rows are asked for first.\<close>

definition fetchOrdersPage ::
  "'e services \<Rightarrow> api_config \<Rightarrow> time_texts \<Rightarrow> list_orders_query \<Rightarrow> string
     \<Rightarrow> (('e, 'm) app_state_scheme, json) io" where
  "fetchOrdersPage S cfg T q userId =
     io_bind
       (io_all2
         (on_pg (pg_pool (select_page T q userId)))
         (withCountCache S cfg
            \<lparr>lc_namespace = ns_ordersList, lc_query = count_cache_query q userId, lc_ttlSeconds = None\<rparr>
            (on_pg (pg_pool (select_count T q userId)))))
       (\<lambda>(rows, rows_total). io_return (list_body q (buildPaginationMeta rows_total (lq_params q)) rows))"

definition list_orders ::
  "'e services \<Rightarrow> api_config \<Rightarrow> time_texts \<Rightarrow> (json \<Rightarrow> (string list \<times> string) list) \<Rightarrow> json
     \<Rightarrow> auth_user option \<Rightarrow> (('e, 'm) app_state_scheme, response) io" where
  "list_orders S cfg T issues raw user =
     (case listOrdersQuerySchema T raw of
        None \<Rightarrow> io_return (validationError (normalizeZodError (issues raw)))
      | Some q \<Rightarrow>
          (case user of
             None \<Rightarrow> io_return unauthenticated
           | Some u \<Rightarrow>
               io_bind (withListCache S cfg
                          \<lparr>lc_namespace = ns_ordersList, lc_query = list_cache_query q (user_id u), lc_ttlSeconds = None\<rparr>
                          (fetchOrdersPage S cfg T q (user_id u)))
                 (\<lambda>body. io_return \<lparr>resp_status = 200, resp_body = body\<rparr>)))"

end
