(* ===== verification/Cache_Laws.thy ===== *)
theory Cache_Laws
  imports Cache_Aside
begin

text \<open>
  What the cache-aside wrappers do when Redis answers in time: the client side of the Redis
  interface. The locale \<open>redis_prompt\<close> adds to the laws of \<open>redis_kv\<close> that every command
  is answered before the cache timeout; its lemmas say exactly what each wrapper returns and
  leaves in the store. It is interpreted on both providers.
\<close>

text \<open>The value of a counter key: missing, or the text of an integer.\<close>

definition counter_ok :: "string option \<Rightarrow> bool" where
  "counter_ok x = (x = None \<or> (\<exists>c. x = Some (int_to_string c)))"

definition in_time :: "int \<Rightarrow> 'a promise \<Rightarrow> bool" where
  "in_time limit p = (int (settle_ms p) < timer_ms limit \<and> (\<exists>a. outcome p = Inr a))"

lemma timer_ms_pos: "0 < timer_ms ms"
  by (simp add: timer_ms_def)

lemma in_time_answer [simp]: "in_time limit (answer a)"
  by (simp add: in_time_def timer_ms_pos)

text \<open>The keys the wrappers use at a store.\<close>

definition current_version :: "kv \<Rightarrow> string \<Rightarrow> int" where
  "current_version st ns = version_of_raw (st (namespaceVersionKey ns))"

definition list_key_at :: "kv \<Rightarrow> list_cache_options \<Rightarrow> string" where
  "list_key_at st options =
     buildListCacheKey (lc_namespace options) (current_version st (lc_namespace options)) (lc_query options)"

definition count_key_at :: "kv \<Rightarrow> list_cache_options \<Rightarrow> string" where
  "count_key_at st options =
     buildCountCacheKey (lc_namespace options) (current_version st (lc_namespace options)) (lc_query options)"

text \<open>
  The invariant of a namespace: its version key holds a count from 0 up, and nothing is stored
  under a version that has not been reached yet.
\<close>

definition ns_fresh :: "kv \<Rightarrow> string \<Rightarrow> bool" where
  "ns_fresh st ns \<longleftrightarrow>
     (st (namespaceVersionKey ns) = None \<or>
      (\<exists>c\<ge>0. st (namespaceVersionKey ns) = Some (int_to_string c))) \<and>
     (\<forall>w q. current_version st ns < w \<longrightarrow>
        st (buildListCacheKey ns w q) = None \<and> st (buildCountCacheKey ns w q) = None)"

definition page_ns :: "string \<Rightarrow> bool" where
  "page_ns ns \<longleftrightarrow> no_colon ns \<and> ns \<noteq> ''cache''"

lemma version_of_printed: "0 \<le> c \<Longrightarrow> version_of_raw (Some (int_to_string c)) = c"
  by (simp add: version_of_raw_def)

lemma ns_fresh_counter: "ns_fresh st ns \<Longrightarrow> counter_ok (st (namespaceVersionKey ns))"
  by (auto simp: ns_fresh_def counter_ok_def)

lemma current_version_nonneg: "0 \<le> current_version st ns"
  by (auto simp: current_version_def version_of_raw_def split: option.splits)

lemma current_version_printed:
  "st (namespaceVersionKey ns) = Some (int_to_string c) \<Longrightarrow> 0 \<le> c \<Longrightarrow> current_version st ns = c"
  by (simp add: current_version_def version_of_printed)

text \<open>Storing a page or a count under a version already reached keeps the invariant.\<close>

lemma ns_fresh_list_write:
  assumes "page_ns ns" and "ns_fresh st ns" and "v \<le> current_version st ns"
  shows "ns_fresh (st(buildListCacheKey ns v q \<mapsto> x)) ns"
    and "current_version (st(buildListCacheKey ns v q \<mapsto> x)) ns = current_version st ns"
proof -
  have nc: "no_colon ns" and vk: "namespaceVersionKey ns \<noteq> buildListCacheKey ns v q"
    using assms(1) by (simp_all add: page_ns_def versionKey_not_listKey)
  show cv: "current_version (st(buildListCacheKey ns v q \<mapsto> x)) ns = current_version st ns"
    using vk by (simp add: current_version_def)
  show "ns_fresh (st(buildListCacheKey ns v q \<mapsto> x)) ns"
    unfolding ns_fresh_def cv
  proof (intro conjI allI impI)
    fix w q' assume w: "current_version st ns < w"
    have "buildListCacheKey ns w q' \<noteq> buildListCacheKey ns v q"
      using listKey_version[OF nc, of w q' v q] w assms(3) by auto
    with w assms(2) show "(st(buildListCacheKey ns v q \<mapsto> x)) (buildListCacheKey ns w q') = None"
      by (simp add: ns_fresh_def)
    from w assms(2) show "(st(buildListCacheKey ns v q \<mapsto> x)) (buildCountCacheKey ns w q') = None"
      using listKey_not_countKey[OF nc nc, of v q w q', symmetric] by (simp add: ns_fresh_def)
  qed (use assms(2) vk in \<open>simp add: ns_fresh_def\<close>)
qed

lemma ns_fresh_count_write:
  assumes "page_ns ns" and "ns_fresh st ns" and "v \<le> current_version st ns"
  shows "ns_fresh (st(buildCountCacheKey ns v q \<mapsto> x)) ns"
    and "current_version (st(buildCountCacheKey ns v q \<mapsto> x)) ns = current_version st ns"
proof -
  have nc: "no_colon ns" and vk: "namespaceVersionKey ns \<noteq> buildCountCacheKey ns v q"
    using assms(1) by (simp_all add: page_ns_def versionKey_not_countKey)
  show cv: "current_version (st(buildCountCacheKey ns v q \<mapsto> x)) ns = current_version st ns"
    using vk by (simp add: current_version_def)
  show "ns_fresh (st(buildCountCacheKey ns v q \<mapsto> x)) ns"
    unfolding ns_fresh_def cv
  proof (intro conjI allI impI)
    fix w q' assume w: "current_version st ns < w"
    have "buildCountCacheKey ns w q' \<noteq> buildCountCacheKey ns v q"
      using countKey_version[OF nc, of w q' v q] w assms(3) by auto
    with w assms(2) show "(st(buildCountCacheKey ns v q \<mapsto> x)) (buildCountCacheKey ns w q') = None"
      by (simp add: ns_fresh_def)
    from w assms(2) show "(st(buildCountCacheKey ns v q \<mapsto> x)) (buildListCacheKey ns w q') = None"
      using listKey_not_countKey[OF nc nc, of w q' v q] by (simp add: ns_fresh_def)
  qed (use assms(2) vk in \<open>simp add: ns_fresh_def\<close>)
qed

text \<open>Bumping moves to a version under which nothing is stored.\<close>

lemma ns_fresh_bump:
  assumes "page_ns ns" and "ns_fresh st ns"
    and "st' = st(namespaceVersionKey ns \<mapsto> int_to_string (current_version st ns + 1))"
  shows "ns_fresh st' ns" and "current_version st' ns = current_version st ns + 1"
    and "lc_namespace options = ns \<Longrightarrow> st' (list_key_at st' options) = None"
    and "lc_namespace options = ns \<Longrightarrow> st' (count_key_at st' options) = None"
proof -
  have nonneg: "0 \<le> current_version st ns + 1" using current_version_nonneg[of st ns] by simp
  show cv: "current_version st' ns = current_version st ns + 1"
    using assms(3) nonneg by (simp add: current_version_printed)
  have pages: "st' (buildListCacheKey ns w q) = st (buildListCacheKey ns w q)"
    "st' (buildCountCacheKey ns w q) = st (buildCountCacheKey ns w q)" for w q
    using assms(1,3) by (simp_all add: page_ns_def versionKey_not_listKey versionKey_not_countKey
        versionKey_not_listKey[symmetric] versionKey_not_countKey[symmetric])
  show "ns_fresh st' ns"
    unfolding ns_fresh_def cv pages
    using assms(2,3) nonneg by (auto simp: ns_fresh_def)
  show "st' (list_key_at st' options) = None" if "lc_namespace options = ns"
    using that assms(2) by (simp add: list_key_at_def cv pages ns_fresh_def)
  show "st' (count_key_at st' options) = None" if "lc_namespace options = ns"
    using that assms(2) by (simp add: count_key_at_def cv pages ns_fresh_def)
qed

locale redis_prompt = redis_kv +
  fixes limit :: int
  assumes get_prompt: "in_time limit (fst (redis_get S k e))"
    and set_prompt: "0 < ttl \<Longrightarrow> in_time limit (fst (redis_set S k w ttl e))"
    and del_prompt: "in_time limit (fst (redis_del S k e))"
    and incr_prompt: "counter_ok (store e k) \<Longrightarrow> in_time limit (fst (redis_incr S k e))"
begin

text \<open>Each primitive, evaluated: the answer and the store afterwards.\<close>

lemma cacheGet_eval:
  assumes "cacheTimeoutMs cfg = limit"
  obtains e' where "cacheGet S cfg k s = (Inr (store (ext s) k), s\<lparr>ext := e'\<rparr>)" "store e' = store (ext s)"
proof -
  obtain p e' where call: "redis_get S k (ext s) = (p, e')" by (cases "redis_get S k (ext s)")
  then obtain v where v: "outcome p = Inr v" "int (settle_ms p) < timer_ms limit"
    using get_prompt[of k "ext s"] by (auto simp: in_time_def)
  show ?thesis
    using that[of e'] call v assms get_value[OF call v(1)] get_store[OF call]
    by (simp add: cacheGet_def withTimeout_def ext_call_def)
qed

lemma cacheSet_eval:
  assumes "cacheTimeoutMs cfg = limit" and "0 < ttl"
  obtains e' where "cacheSet S cfg k w ttl s = (Inr (), s\<lparr>ext := e'\<rparr>)"
    "store e' = (store (ext s))(k \<mapsto> w)"
proof -
  obtain p e' where call: "redis_set S k w ttl (ext s) = (p, e')"
    by (cases "redis_set S k w ttl (ext s)")
  then obtain u where v: "outcome p = Inr u" "int (settle_ms p) < timer_ms limit"
    using set_prompt[OF assms(2), of k w "ext s"] by (auto simp: in_time_def)
  show ?thesis
    using that[of e'] call v assms set_ok[OF call v(1)]
    by (simp add: cacheSet_def withTimeout_def ext_call_def)
qed

lemma cacheDelete_eval:
  assumes "cacheTimeoutMs cfg = limit"
  obtains e' where "cacheDelete S cfg k s = (Inr (), s\<lparr>ext := e'\<rparr>)"
    "store e' = (store (ext s))(k := None)"
proof -
  obtain p e' where call: "redis_del S k (ext s) = (p, e')" by (cases "redis_del S k (ext s)")
  then obtain u where v: "outcome p = Inr u" "int (settle_ms p) < timer_ms limit"
    using del_prompt[of k "ext s"] by (auto simp: in_time_def)
  show ?thesis
    using that[of e'] call v assms del_ok[OF call v(1)]
    by (simp add: cacheDelete_def withTimeout_def ext_call_def io_bind_apply)
qed

lemma version_eval:
  assumes "cacheTimeoutMs cfg = limit"
  obtains e' where
    "cacheGetNamespaceVersion S cfg ns s = (Inr (current_version (store (ext s)) ns), s\<lparr>ext := e'\<rparr>)"
    "store e' = store (ext s)"
proof -
  obtain e' where "cacheGet S cfg (namespaceVersionKey ns) s =
      (Inr (store (ext s) (namespaceVersionKey ns)), s\<lparr>ext := e'\<rparr>)" "store e' = store (ext s)"
    by (rule cacheGet_eval[OF assms])
  with that[of e'] show ?thesis
    by (simp add: cacheGetNamespaceVersion_def cacheGet_def io_bind_apply current_version_def)
qed

lemma bump_eval:
  assumes "cacheTimeoutMs cfg = limit" and "ns_fresh (store (ext s)) ns"
  obtains e' where
    "cacheBumpNamespaceVersion S cfg ns s = (Inr (current_version (store (ext s)) ns + 1), s\<lparr>ext := e'\<rparr>)"
    "store e' = (store (ext s))
       (namespaceVersionKey ns \<mapsto> int_to_string (current_version (store (ext s)) ns + 1))"
proof -
  let ?vk = "namespaceVersionKey ns"
  obtain p e' where call: "redis_incr S ?vk (ext s) = (p, e')" by (cases "redis_incr S ?vk (ext s)")
  then obtain n where v: "outcome p = Inr n" "int (settle_ms p) < timer_ms limit"
    using incr_prompt[OF ns_fresh_counter[OF assms(2)]] by (auto simp: in_time_def)
  have "n = current_version (store (ext s)) ns + 1"
  proof (cases "store (ext s) ?vk")
    case None
    with incr_ok[OF call v(1)] show ?thesis by (simp add: current_version_def version_of_raw_def)
  next
    case (Some raw)
    with assms(2) obtain c where "0 \<le> c" "raw = int_to_string c" by (auto simp: ns_fresh_def)
    with Some incr_ok[OF call v(1)] show ?thesis by (simp add: current_version_printed)
  qed
  with that[of e'] call v assms incr_ok[OF call v(1)] show ?thesis
    by (simp add: cacheBumpNamespaceVersion_def withTimeout_def ext_call_def)
qed

text \<open>The read part of \<open>withListCache\<close>.\<close>

lemma listCacheRead_absent:
  assumes "cacheTimeoutMs cfg = limit"
    and "store (ext s) (list_key_at (store (ext s)) options) = None"
  obtains e' where
    "listCacheRead S cfg options s =
       (Inr (Continue (Some (list_key_at (store (ext s)) options))), s\<lparr>ext := e'\<rparr>)"
    "store e' = store (ext s)"
proof -
  obtain e1 where v: "cacheGetNamespaceVersion S cfg (lc_namespace options) s =
      (Inr (current_version (store (ext s)) (lc_namespace options)), s\<lparr>ext := e1\<rparr>)" "store e1 = store (ext s)"
    by (rule version_eval[OF assms(1)])
  obtain e2 where "cacheGet S cfg (list_key_at (store (ext s)) options) (s\<lparr>ext := e1\<rparr>) =
      (Inr (store e1 (list_key_at (store (ext s)) options)), s\<lparr>ext := e2\<rparr>)" "store e2 = store e1"
    by (rule cacheGet_eval[OF assms(1), of "list_key_at (store (ext s)) options" "s\<lparr>ext := e1\<rparr>"]) simp
  with that[of e2] v assms(2) show ?thesis
    by (simp add: listCacheRead_def io_catch_apply io_bind_apply list_key_at_def Let_def)
qed

lemma listCacheRead_present:
  assumes "cacheTimeoutMs cfg = limit"
    and "store (ext s) (list_key_at (store (ext s)) options) = Some w" and "JSON_parse w = Some j"
  obtains e' where
    "listCacheRead S cfg options s =
       (Inr (Returned j), s\<lparr>ext := e', reply_headers := (reply_headers s)(''X-Cache'' \<mapsto> ''HIT'')\<rparr>)"
    "store e' = store (ext s)"
proof -
  obtain e1 where v: "cacheGetNamespaceVersion S cfg (lc_namespace options) s =
      (Inr (current_version (store (ext s)) (lc_namespace options)), s\<lparr>ext := e1\<rparr>)" "store e1 = store (ext s)"
    by (rule version_eval[OF assms(1)])
  obtain e2 where "cacheGet S cfg (list_key_at (store (ext s)) options) (s\<lparr>ext := e1\<rparr>) =
      (Inr (store e1 (list_key_at (store (ext s)) options)), s\<lparr>ext := e2\<rparr>)" "store e2 = store e1"
    by (rule cacheGet_eval[OF assms(1), of "list_key_at (store (ext s)) options" "s\<lparr>ext := e1\<rparr>"]) simp
  with that[of e2] v assms(2,3) show ?thesis
    by (simp add: listCacheRead_def io_catch_apply io_bind_apply list_key_at_def Let_def
        set_header_def parse_json_def)
qed

lemma listCacheWrite_eval:
  assumes "cacheTimeoutMs cfg = limit" and "0 < (case lc_ttlSeconds options of None \<Rightarrow> cacheTtlSeconds cfg | Some t \<Rightarrow> t)"
  obtains e' where
    "listCacheWrite S cfg options (Some key) j s =
       (Inr (), s\<lparr>ext := e', reply_headers := (reply_headers s)(''X-Cache'' \<mapsto> ''MISS'')\<rparr>)"
    "store e' = (store (ext s))(key \<mapsto> JSON_stringify j)"
proof -
  obtain e' where "cacheSet S cfg key (JSON_stringify j)
      (case lc_ttlSeconds options of None \<Rightarrow> cacheTtlSeconds cfg | Some t \<Rightarrow> t) s = (Inr (), s\<lparr>ext := e'\<rparr>)"
    "store e' = (store (ext s))(key \<mapsto> JSON_stringify j)"
    by (rule cacheSet_eval[OF assms])
  with that[of e'] show ?thesis
    by (simp add: listCacheWrite_def io_catch_apply io_bind_apply set_header_def)
qed

text \<open>Hit: the cached value, and the fetcher does not run.\<close>

lemma withListCache_hit:
  assumes "cacheEnabled cfg" and "cacheTimeoutMs cfg = limit"
    and "store (ext s) (list_key_at (store (ext s)) options) = Some w" and "JSON_parse w = Some j"
  shows "\<exists>e'. withListCache S cfg options fetcher s =
      (Inr j, s\<lparr>ext := e', reply_headers := (reply_headers s)(''X-Cache'' \<mapsto> ''HIT'')\<rparr>) \<and>
    store e' = store (ext s)"
proof -
  obtain e' where "listCacheRead S cfg options s =
      (Inr (Returned j), s\<lparr>ext := e', reply_headers := (reply_headers s)(''X-Cache'' \<mapsto> ''HIT'')\<rparr>)"
    "store e' = store (ext s)"
    by (rule listCacheRead_present[OF assms(2-4)])
  with assms(1) show ?thesis by (intro exI[of _ e']) (simp add: withListCache_def io_bind_apply)
qed

text \<open>Miss: the fetcher runs on the same store, and its value is stored under the key.\<close>

lemma withListCache_miss:
  assumes "cacheEnabled cfg" and "cacheTimeoutMs cfg = limit"
    and "0 < (case lc_ttlSeconds options of None \<Rightarrow> cacheTtlSeconds cfg | Some t \<Rightarrow> t)"
    and "store (ext s) (list_key_at (store (ext s)) options) = None"
  shows "\<exists>e1. store e1 = store (ext s) \<and>
    (\<forall>e s2. fetcher (s\<lparr>ext := e1\<rparr>) = (Inl e, s2) \<longrightarrow> withListCache S cfg options fetcher s = (Inl e, s2)) \<and>
    (\<forall>v s2. fetcher (s\<lparr>ext := e1\<rparr>) = (Inr v, s2) \<longrightarrow> (\<exists>e'.
       withListCache S cfg options fetcher s =
         (Inr v, s2\<lparr>ext := e', reply_headers := (reply_headers s2)(''X-Cache'' \<mapsto> ''MISS'')\<rparr>) \<and>
       store e' = (store (ext s2))(list_key_at (store (ext s)) options \<mapsto> JSON_stringify v)))"
proof -
  obtain e1 where read: "listCacheRead S cfg options s =
      (Inr (Continue (Some (list_key_at (store (ext s)) options))), s\<lparr>ext := e1\<rparr>)"
    and same: "store e1 = store (ext s)"
    by (rule listCacheRead_absent[OF assms(2,4)])
  have "\<exists>e'. withListCache S cfg options fetcher s =
         (Inr v, s2\<lparr>ext := e', reply_headers := (reply_headers s2)(''X-Cache'' \<mapsto> ''MISS'')\<rparr>) \<and>
       store e' = (store (ext s2))(list_key_at (store (ext s)) options \<mapsto> JSON_stringify v)"
    if f: "fetcher (s\<lparr>ext := e1\<rparr>) = (Inr v, s2)" for v s2
  proof -
    obtain e' where "listCacheWrite S cfg options (Some (list_key_at (store (ext s)) options)) v s2 =
       (Inr (), s2\<lparr>ext := e', reply_headers := (reply_headers s2)(''X-Cache'' \<mapsto> ''MISS'')\<rparr>)"
      "store e' = (store (ext s2))(list_key_at (store (ext s)) options \<mapsto> JSON_stringify v)"
      by (rule listCacheWrite_eval[OF assms(2,3)])
    with f read assms(1) show ?thesis by (auto simp: withListCache_def io_bind_apply)
  qed
  moreover have "withListCache S cfg options fetcher s = (Inl e, s2)"
    if "fetcher (s\<lparr>ext := e1\<rparr>) = (Inl e, s2)" for e s2
    using that read assms(1) by (simp add: withListCache_def io_bind_apply)
  ultimately show ?thesis using same by blast
qed

text \<open>
  A stored text that is no JSON: the parse error is caught and logged, the fetcher answers and
  nothing is written; the header was set before the parse and is not set again.
\<close>

lemma withListCache_corrupt:
  assumes "cacheEnabled cfg" and "cacheTimeoutMs cfg = limit"
    and "store (ext s) (list_key_at (store (ext s)) options) = Some w" and "JSON_parse w = None"
  shows "\<exists>s1. store (ext s1) = store (ext s) \<and> reply_headers s1 ''X-Cache'' = Some ''HIT'' \<and>
    withListCache S cfg options fetcher s = fetcher s1"
proof -
  obtain e1 where v: "cacheGetNamespaceVersion S cfg (lc_namespace options) s =
      (Inr (current_version (store (ext s)) (lc_namespace options)), s\<lparr>ext := e1\<rparr>)" "store e1 = store (ext s)"
    by (rule version_eval[OF assms(2)])
  obtain e2 where g: "cacheGet S cfg (list_key_at (store (ext s)) options) (s\<lparr>ext := e1\<rparr>) =
      (Inr (store e1 (list_key_at (store (ext s)) options)), s\<lparr>ext := e2\<rparr>)" "store e2 = store e1"
    by (rule cacheGet_eval[OF assms(2), of "list_key_at (store (ext s)) options" "s\<lparr>ext := e1\<rparr>"]) simp
  let ?s2 = "s\<lparr>ext := e2, reply_headers := (reply_headers s)(''X-Cache'' \<mapsto> ''HIT'')\<rparr>"
  obtain s3 where w: "warnOncePerMinute S (''cache-read-'' @ lc_namespace options)
      (lc_namespace options @ '' cache read failed; serving from datastore'') syntax_error ?s2 = (Inr (), s3)"
    "ext s3 = e2" "reply_headers s3 = reply_headers ?s2"
    using warn_apply[of S _ _ syntax_error ?s2] by fastforce
  have "listCacheRead S cfg options s = (Inr (Continue None), s3)"
    using v g w(1) assms(3,4)
    by (simp add: listCacheRead_def io_catch_apply io_bind_apply list_key_at_def Let_def
        set_header_def parse_json_def)
  then have "withListCache S cfg options fetcher s = fetcher s3"
    using assms(1)
    by (cases "fetcher s3")
      (auto simp: withListCache_def io_bind_apply listCacheWrite_def split: sum.splits)
  with w v(2) g(2) show ?thesis by (intro exI[of _ s3]) simp
qed

text \<open>The entity wrapper on a hit and on a miss.\<close>

lemma withEntityCache_hit:
  assumes "cacheEnabled cfg" and "cacheTimeoutMs cfg = limit"
    and "store (ext s) (ec_key options) = Some w" and "JSON_parse w = Some j"
  shows "\<exists>e'. withEntityCache S cfg options fetcher s =
      (Inr (Some j), s\<lparr>ext := e', reply_headers := (reply_headers s)(''X-Cache'' \<mapsto> ''HIT'')\<rparr>) \<and>
    store e' = store (ext s)"
proof -
  obtain e' where "cacheGet S cfg (ec_key options) s = (Inr (store (ext s) (ec_key options)), s\<lparr>ext := e'\<rparr>)"
    "store e' = store (ext s)"
    by (rule cacheGet_eval[OF assms(2)])
  with assms show ?thesis
    by (intro exI[of _ e'])
      (simp add: withEntityCache_def entityCacheRead_def io_catch_apply io_bind_apply set_header_def parse_json_def)
qed

lemma entityCacheWrite_eval:
  assumes "cacheTimeoutMs cfg = limit" and "0 < (case ec_ttlSeconds options of None \<Rightarrow> cacheTtlSeconds cfg | Some t \<Rightarrow> t)"
  obtains e' where
    "entityCacheWrite S cfg options j s =
       (Inr (), s\<lparr>ext := e', reply_headers := (reply_headers s)(''X-Cache'' \<mapsto> ''MISS'')\<rparr>)"
    "store e' = (store (ext s))(ec_key options \<mapsto> JSON_stringify j)"
proof -
  obtain e' where "cacheSet S cfg (ec_key options) (JSON_stringify j)
      (case ec_ttlSeconds options of None \<Rightarrow> cacheTtlSeconds cfg | Some t \<Rightarrow> t) s = (Inr (), s\<lparr>ext := e'\<rparr>)"
    "store e' = (store (ext s))(ec_key options \<mapsto> JSON_stringify j)"
    by (rule cacheSet_eval[OF assms])
  with that[of e'] show ?thesis
    by (simp add: entityCacheWrite_def io_catch_apply io_bind_apply set_header_def)
qed

lemma withEntityCache_miss:
  assumes "cacheEnabled cfg" and "cacheTimeoutMs cfg = limit"
    and "0 < (case ec_ttlSeconds options of None \<Rightarrow> cacheTtlSeconds cfg | Some t \<Rightarrow> t)"
    and "store (ext s) (ec_key options) = None"
  shows "\<exists>e1. store e1 = store (ext s) \<and>
    (\<forall>e s2. fetcher (s\<lparr>ext := e1\<rparr>) = (Inl e, s2) \<longrightarrow> withEntityCache S cfg options fetcher s = (Inl e, s2)) \<and>
    (\<forall>s2. fetcher (s\<lparr>ext := e1\<rparr>) = (Inr None, s2) \<longrightarrow>
       withEntityCache S cfg options fetcher s = (Inr None, s2)) \<and>
    (\<forall>v s2. fetcher (s\<lparr>ext := e1\<rparr>) = (Inr (Some v), s2) \<longrightarrow> (\<exists>e'.
       withEntityCache S cfg options fetcher s =
         (Inr (Some v), s2\<lparr>ext := e', reply_headers := (reply_headers s2)(''X-Cache'' \<mapsto> ''MISS'')\<rparr>) \<and>
       store e' = (store (ext s2))(ec_key options \<mapsto> JSON_stringify v)))"
proof -
  obtain e1 where g: "cacheGet S cfg (ec_key options) s = (Inr (store (ext s) (ec_key options)), s\<lparr>ext := e1\<rparr>)"
    and same: "store e1 = store (ext s)"
    by (rule cacheGet_eval[OF assms(2)])
  then have read: "entityCacheRead S cfg options s = (Inr None, s\<lparr>ext := e1\<rparr>)"
    using assms(4) by (simp add: entityCacheRead_def io_catch_apply io_bind_apply)
  have "\<exists>e'. withEntityCache S cfg options fetcher s =
         (Inr (Some v), s2\<lparr>ext := e', reply_headers := (reply_headers s2)(''X-Cache'' \<mapsto> ''MISS'')\<rparr>) \<and>
       store e' = (store (ext s2))(ec_key options \<mapsto> JSON_stringify v)"
    if f: "fetcher (s\<lparr>ext := e1\<rparr>) = (Inr (Some v), s2)" for v s2
  proof -
    obtain e' where "entityCacheWrite S cfg options v s2 =
       (Inr (), s2\<lparr>ext := e', reply_headers := (reply_headers s2)(''X-Cache'' \<mapsto> ''MISS'')\<rparr>)"
      "store e' = (store (ext s2))(ec_key options \<mapsto> JSON_stringify v)"
      by (rule entityCacheWrite_eval[OF assms(2,3)])
    with f read assms(1) show ?thesis by (auto simp: withEntityCache_def io_bind_apply)
  qed
  moreover have "withEntityCache S cfg options fetcher s = (Inl e, s2)"
    if "fetcher (s\<lparr>ext := e1\<rparr>) = (Inl e, s2)" for e s2
    using that read assms(1) by (simp add: withEntityCache_def io_bind_apply)
  moreover have "withEntityCache S cfg options fetcher s = (Inr None, s2)"
    if "fetcher (s\<lparr>ext := e1\<rparr>) = (Inr None, s2)" for s2
    using that read assms(1) by (simp add: withEntityCache_def io_bind_apply)
  ultimately show ?thesis using same by blast
qed

text \<open>The count wrapper: a stored count is read back as the number that was stored.\<close>

lemma withCountCache_hit:
  assumes "cacheEnabled cfg" and "cacheTimeoutMs cfg = limit"
    and "store (ext s) (count_key_at (store (ext s)) options) = Some (int_to_string n)" and "0 \<le> n"
  shows "\<exists>e'. withCountCache S cfg options fetcher s = (Inr n, s\<lparr>ext := e'\<rparr>) \<and> store e' = store (ext s)"
proof -
  obtain e1 where v: "cacheGetNamespaceVersion S cfg (lc_namespace options) s =
      (Inr (current_version (store (ext s)) (lc_namespace options)), s\<lparr>ext := e1\<rparr>)" "store e1 = store (ext s)"
    by (rule version_eval[OF assms(2)])
  obtain e2 where "cacheGet S cfg (count_key_at (store (ext s)) options) (s\<lparr>ext := e1\<rparr>) =
      (Inr (store e1 (count_key_at (store (ext s)) options)), s\<lparr>ext := e2\<rparr>)" "store e2 = store e1"
    by (rule cacheGet_eval[OF assms(2), of "count_key_at (store (ext s)) options" "s\<lparr>ext := e1\<rparr>"]) simp
  with v assms show ?thesis
    by (intro exI[of _ e2])
      (simp add: withCountCache_def countCacheRead_def io_catch_apply io_bind_apply count_key_at_def Let_def)
qed

lemma withCountCache_miss:
  assumes "cacheEnabled cfg" and "cacheTimeoutMs cfg = limit"
    and "0 < (case lc_ttlSeconds options of None \<Rightarrow> cacheListCountTtlSeconds cfg | Some t \<Rightarrow> t)"
    and "store (ext s) (count_key_at (store (ext s)) options) = None"
  shows "\<exists>e1. store e1 = store (ext s) \<and>
    (\<forall>e s2. fetcher (s\<lparr>ext := e1\<rparr>) = (Inl e, s2) \<longrightarrow> withCountCache S cfg options fetcher s = (Inl e, s2)) \<and>
    (\<forall>n s2. fetcher (s\<lparr>ext := e1\<rparr>) = (Inr n, s2) \<longrightarrow> (\<exists>e'.
       withCountCache S cfg options fetcher s = (Inr n, s2\<lparr>ext := e'\<rparr>) \<and>
       store e' = (store (ext s2))(count_key_at (store (ext s)) options \<mapsto> int_to_string n)))"
proof -
  let ?key = "count_key_at (store (ext s)) options"
  obtain e0 where v: "cacheGetNamespaceVersion S cfg (lc_namespace options) s =
      (Inr (current_version (store (ext s)) (lc_namespace options)), s\<lparr>ext := e0\<rparr>)" "store e0 = store (ext s)"
    by (rule version_eval[OF assms(2)])
  obtain e1 where g: "cacheGet S cfg ?key (s\<lparr>ext := e0\<rparr>) = (Inr (store e0 ?key), s\<lparr>ext := e1\<rparr>)" "store e1 = store e0"
    by (rule cacheGet_eval[OF assms(2), of ?key "s\<lparr>ext := e0\<rparr>"]) simp
  have read: "countCacheRead S cfg options s = (Inr (Continue (Some ?key)), s\<lparr>ext := e1\<rparr>)"
    using v g assms(4) by (simp add: countCacheRead_def io_catch_apply io_bind_apply count_key_at_def Let_def)
  have "\<exists>e'. withCountCache S cfg options fetcher s = (Inr n, s2\<lparr>ext := e'\<rparr>) \<and>
       store e' = (store (ext s2))(?key \<mapsto> int_to_string n)"
    if f: "fetcher (s\<lparr>ext := e1\<rparr>) = (Inr n, s2)" for n s2
  proof -
    obtain e' where "cacheSet S cfg ?key (int_to_string n)
      (case lc_ttlSeconds options of None \<Rightarrow> cacheListCountTtlSeconds cfg | Some t \<Rightarrow> t) s2 = (Inr (), s2\<lparr>ext := e'\<rparr>)"
      "store e' = (store (ext s2))(?key \<mapsto> int_to_string n)"
      by (rule cacheSet_eval[OF assms(2,3)])
    with f read assms(1) show ?thesis
      by (auto simp: withCountCache_def countCacheWrite_def io_bind_apply io_catch_apply)
  qed
  moreover have "withCountCache S cfg options fetcher s = (Inl e, s2)"
    if "fetcher (s\<lparr>ext := e1\<rparr>) = (Inl e, s2)" for e s2
    using that read assms(1) by (simp add: withCountCache_def io_bind_apply)
  ultimately show ?thesis using v(2) g(2) by auto
qed

text \<open>Invalidation: afterwards every page and every count of the namespace is a miss.\<close>

lemma invalidateListNamespace_eval:
  assumes "cacheEnabled cfg" and "cacheTimeoutMs cfg = limit" and "page_ns ns"
    and "ns_fresh (store (ext s)) ns"
  shows "\<exists>e'. invalidateListNamespace S cfg ns s = (Inr (), s\<lparr>ext := e'\<rparr>) \<and>
    store e' = (store (ext s))
       (namespaceVersionKey ns \<mapsto> int_to_string (current_version (store (ext s)) ns + 1))"
proof -
  obtain e' where
    "cacheBumpNamespaceVersion S cfg ns s = (Inr (current_version (store (ext s)) ns + 1), s\<lparr>ext := e'\<rparr>)"
    "store e' = (store (ext s))
       (namespaceVersionKey ns \<mapsto> int_to_string (current_version (store (ext s)) ns + 1))"
    by (rule bump_eval[OF assms(2,4)])
  with assms(1) show ?thesis
    by (intro exI[of _ e']) (simp add: invalidateListNamespace_def io_catch_apply io_bind_apply)
qed

lemma invalidateEntity_eval:
  assumes "cacheEnabled cfg" and "cacheTimeoutMs cfg = limit"
  shows "\<exists>e'. invalidateEntity S cfg key ns s = (Inr (), s\<lparr>ext := e'\<rparr>) \<and>
    store e' = (store (ext s))(key := None)"
proof -
  obtain e' where "cacheDelete S cfg key s = (Inr (), s\<lparr>ext := e'\<rparr>)"
    "store e' = (store (ext s))(key := None)"
    by (rule cacheDelete_eval[OF assms(2)])
  with assms(1) show ?thesis
    by (intro exI[of _ e']) (simp add: invalidateEntity_def io_catch_apply)
qed

end

interpretation stub: redis_prompt stub_services "\<lambda>m. m" limit for limit
  by unfold_locales (auto simp: stub_defs Let_def)

section \<open>Properties\<close>

text \<open>Whatever Redis does (errors, timeouts, corrupt entries), the three read wrappers never
  fail on their own: if the fetcher cannot fail, neither can the cached read, and an error the
  caller sees is an error of the fetcher in the state it left. The two invalidations never fail.\<close>

theorem cache_errors_never_surface:
  fixes S :: "'e services" and lf :: "(('e, 'm) api_state_scheme, json) io"
    and ef :: "(('e, 'm) api_state_scheme, json option) io" and cf :: "(('e, 'm) api_state_scheme, int) io"
  shows "errors_from lf (withListCache S cfg lopts lf) \<and>
    errors_from ef (withEntityCache S cfg eopts ef) \<and>
    errors_from cf (withCountCache S cfg lopts cf) \<and>
    never_throws (invalidateListNamespace S cfg ns :: (('e, 'm) api_state_scheme, unit) io) \<and>
    never_throws (invalidateEntity S cfg key ns :: (('e, 'm) api_state_scheme, unit) io)"
proof (intro conjI)
  note parts = listCacheRead_never_throws listCacheWrite_never_throws entityCacheRead_never_throws
    entityCacheWrite_never_throws countCacheRead_never_throws countCacheWrite_never_throws
  note from_parts = parts[THEN errors_from_never]
  show "errors_from lf (withListCache S cfg lopts lf)"
    unfolding withListCache_def
    by (auto intro!: errors_from_intros from_parts split: cache_read.splits)
  show "errors_from ef (withEntityCache S cfg eopts ef)"
    unfolding withEntityCache_def
    by (auto intro!: errors_from_intros from_parts split: option.splits)
  show "errors_from cf (withCountCache S cfg lopts cf)"
    unfolding withCountCache_def
    by (auto intro!: errors_from_intros from_parts split: cache_read.splits)
qed (rule invalidateListNamespace_never_throws invalidateEntity_never_throws)+

text \<open>A list read that misses returns what the fetcher produced and says \<open>X-Cache: MISS\<close>;
  repeated with the same query before anything is invalidated, it returns the same value with
  \<open>X-Cache: HIT\<close> whatever the fetcher would now answer, and the store does not change.\<close>

theorem list_cache_hit_after_miss:
  assumes "redis_prompt S store (cacheTimeoutMs cfg)" and "cacheEnabled cfg"
    and ttl: "0 < (case lc_ttlSeconds options of None \<Rightarrow> cacheTtlSeconds cfg | Some t \<Rightarrow> t)"
    and ns: "page_ns (lc_namespace options)"
    and absent: "store (ext s) (list_key_at (store (ext s)) options) = None"
    and fetch: "\<And>s1. \<exists>s2. fetcher s1 = (Inr v, s2) \<and> store (ext s2) = store (ext s1)"
    and wf: "json_wf v"
  shows "\<exists>s2. withListCache S cfg options fetcher s = (Inr v, s2) \<and>
    reply_headers s2 ''X-Cache'' = Some ''MISS'' \<and>
    (\<forall>fetcher2. \<exists>s3. withListCache S cfg options fetcher2 s2 = (Inr v, s3) \<and>
       reply_headers s3 ''X-Cache'' = Some ''HIT'' \<and> store (ext s3) = store (ext s2))"
proof -
  let ?key = "list_key_at (store (ext s)) options"
  obtain e1 where e1: "store e1 = store (ext s)"
    and miss: "\<And>w s2. fetcher (s\<lparr>ext := e1\<rparr>) = (Inr w, s2) \<Longrightarrow> (\<exists>e'.
       withListCache S cfg options fetcher s =
         (Inr w, s2\<lparr>ext := e', reply_headers := (reply_headers s2)(''X-Cache'' \<mapsto> ''MISS'')\<rparr>) \<and>
       store e' = (store (ext s2))(?key \<mapsto> JSON_stringify w))"
    using redis_prompt.withListCache_miss[OF assms(1,2) refl ttl absent] by blast
  obtain s2 where f: "fetcher (s\<lparr>ext := e1\<rparr>) = (Inr v, s2)" "store (ext s2) = store (ext s)"
    using fetch[of "s\<lparr>ext := e1\<rparr>"] e1 by auto
  let ?s2 = "\<lambda>e'. s2\<lparr>ext := e', reply_headers := (reply_headers s2)(''X-Cache'' \<mapsto> ''MISS'')\<rparr>"
  obtain e' where run: "withListCache S cfg options fetcher s = (Inr v, ?s2 e')"
    and st: "store e' = (store (ext s))(?key \<mapsto> JSON_stringify v)"
    using miss[OF f(1)] f(2) by auto
  have "?key \<noteq> namespaceVersionKey (lc_namespace options)"
    using ns versionKey_not_listKey by (metis list_key_at_def page_ns_def)
  then have "list_key_at (store e') options = ?key"
    by (simp add: st list_key_at_def current_version_def)
  then have cached: "store (ext (?s2 e')) (list_key_at (store (ext (?s2 e'))) options) = Some (JSON_stringify v)"
    by (simp add: st)
  have "\<exists>s3. withListCache S cfg options fetcher2 (?s2 e') = (Inr v, s3) \<and>
       reply_headers s3 ''X-Cache'' = Some ''HIT'' \<and> store (ext s3) = store (ext (?s2 e'))" for fetcher2
    using redis_prompt.withListCache_hit[OF assms(1,2) refl cached JSON_parse_stringify[OF wf], of fetcher2]
    by auto
  with run show ?thesis by (intro exI[of _ "?s2 e'"]) simp
qed

text \<open>Invalidating a list namespace succeeds, moves its version by one, touches no other key,
  and from then on every list read and every count of the namespace is a miss: the fetcher runs
  and its value is what the caller gets.\<close>

theorem invalidation_forces_miss:
  assumes "redis_prompt S store (cacheTimeoutMs cfg)" and "cacheEnabled cfg"
    and "page_ns ns" and "ns_fresh (store (ext s)) ns"
    and "0 < cacheTtlSeconds cfg" and "0 < cacheListCountTtlSeconds cfg"
  shows "\<exists>s1. invalidateListNamespace S cfg ns s = (Inr (), s1) \<and>
    ns_fresh (store (ext s1)) ns \<and>
    current_version (store (ext s1)) ns = current_version (store (ext s)) ns + 1 \<and>
    (\<forall>k. k \<noteq> namespaceVersionKey ns \<longrightarrow> store (ext s1) k = store (ext s) k) \<and>
    (\<forall>q lf v. (\<forall>u. fst (lf u) = Inr v) \<longrightarrow>
       fst (withListCache S cfg \<lparr>lc_namespace = ns, lc_query = q, lc_ttlSeconds = None\<rparr> lf s1) = Inr v) \<and>
    (\<forall>q cf n. (\<forall>u. fst (cf u) = Inr n) \<longrightarrow>
       fst (withCountCache S cfg \<lparr>lc_namespace = ns, lc_query = q, lc_ttlSeconds = None\<rparr> cf s1) = Inr n)"
proof -
  obtain e' where run: "invalidateListNamespace S cfg ns s = (Inr (), s\<lparr>ext := e'\<rparr>)"
    and st: "store e' = (store (ext s))
       (namespaceVersionKey ns \<mapsto> int_to_string (current_version (store (ext s)) ns + 1))"
    using redis_prompt.invalidateListNamespace_eval[OF assms(1,2) refl assms(3,4)] by blast
  note bumped = ns_fresh_bump[OF assms(3,4) st]
  let ?s1 = "s\<lparr>ext := e'\<rparr>"
  have "fst (withListCache S cfg \<lparr>lc_namespace = ns, lc_query = q, lc_ttlSeconds = None\<rparr> lf ?s1) = Inr v"
    if "\<forall>u. fst (lf u) = Inr v" for q lf v
  proof -
    let ?o = "\<lparr>lc_namespace = ns, lc_query = q, lc_ttlSeconds = None\<rparr>"
    have none: "store (ext ?s1) (list_key_at (store (ext ?s1)) ?o) = None"
      using bumped(3)[of ?o] by simp
    have ttl: "0 < (case lc_ttlSeconds ?o of None \<Rightarrow> cacheTtlSeconds cfg | Some t \<Rightarrow> t)"
      using assms(5) by simp
    obtain e1 where m: "\<And>w s2. lf (?s1\<lparr>ext := e1\<rparr>) = (Inr w, s2) \<Longrightarrow>
        \<exists>e2. withListCache S cfg ?o lf ?s1 =
          (Inr w, s2\<lparr>ext := e2, reply_headers := (reply_headers s2)(''X-Cache'' \<mapsto> ''MISS'')\<rparr>)"
      using redis_prompt.withListCache_miss[OF assms(1,2) refl ttl none, of lf] by blast
    have "lf (?s1\<lparr>ext := e1\<rparr>) = (Inr v, snd (lf (?s1\<lparr>ext := e1\<rparr>)))"
      using that by (simp add: prod_eq_iff)
    from m[OF this] show ?thesis by fastforce
  qed
  moreover have "fst (withCountCache S cfg \<lparr>lc_namespace = ns, lc_query = q, lc_ttlSeconds = None\<rparr> cf ?s1) = Inr n"
    if "\<forall>u. fst (cf u) = Inr n" for q cf n
  proof -
    let ?o = "\<lparr>lc_namespace = ns, lc_query = q, lc_ttlSeconds = None\<rparr>"
    have none: "store (ext ?s1) (count_key_at (store (ext ?s1)) ?o) = None"
      using bumped(4)[of ?o] by simp
    have ttl: "0 < (case lc_ttlSeconds ?o of None \<Rightarrow> cacheListCountTtlSeconds cfg | Some t \<Rightarrow> t)"
      using assms(6) by simp
    obtain e1 where m: "\<And>w s2. cf (?s1\<lparr>ext := e1\<rparr>) = (Inr w, s2) \<Longrightarrow>
        \<exists>e2. withCountCache S cfg ?o cf ?s1 = (Inr w, s2\<lparr>ext := e2\<rparr>)"
      using redis_prompt.withCountCache_miss[OF assms(1,2) refl ttl none, of cf] by blast
    have "cf (?s1\<lparr>ext := e1\<rparr>) = (Inr n, snd (cf (?s1\<lparr>ext := e1\<rparr>)))"
      using that by (simp add: prod_eq_iff)
    from m[OF this] show ?thesis by fastforce
  qed
  ultimately show ?thesis using run bumped(1,2) st by (intro exI[of _ ?s1]) simp
qed

section \<open>Witnesses\<close>

definition demo_options :: list_cache_options where
  "demo_options = \<lparr>lc_namespace = ''orders-list'', lc_query = [(''page'', JsNumber 1)], lc_ttlSeconds = None\<rparr>"

lemma demo_ns: "page_ns ''orders-list''"
  by (simp add: page_ns_def no_colon_def)

theorem list_cache_hit_after_miss_witness:
  "\<exists>s2. withListCache stub_services demo_config demo_options (io_return (JNum 7)) (demo_state (\<lambda>_. None)) =
      (Inr (JNum 7), s2) \<and> reply_headers s2 ''X-Cache'' = Some ''MISS'' \<and>
    (\<forall>fetcher2. \<exists>s3. withListCache stub_services demo_config demo_options fetcher2 s2 = (Inr (JNum 7), s3) \<and>
       reply_headers s3 ''X-Cache'' = Some ''HIT'' \<and> ext s3 = ext s2)"
  by (rule list_cache_hit_after_miss[where store = "\<lambda>m. m"])
    (auto simp: demo_config_def demo_options_def demo_state_def demo_ns
      intro: stub.redis_prompt_axioms)

theorem invalidation_forces_miss_witness:
  "\<exists>s1. invalidateListNamespace stub_services demo_config ''orders-list'' (demo_state (\<lambda>_. None)) = (Inr (), s1) \<and>
    current_version (ext s1) ''orders-list'' = 1"
proof -
  have "current_version (\<lambda>_. None) ''orders-list'' = 0"
    by (simp add: current_version_def version_of_raw_def)
  then show ?thesis
    using invalidation_forces_miss[OF stub.redis_prompt_axioms, of demo_config "''orders-list''"
        "demo_state (\<lambda>_. None)"]
    by (auto simp: demo_config_def demo_state_def demo_ns ns_fresh_def)
qed

end
