(* ===== verification/Order_Laws.thy ===== *)
theory Order_Laws
  imports Order_Routes Cache_Laws
begin

text \<open>
  What the order handlers guarantee: an order, its audit row and its outbox event are written
  together or not at all, whichever request to the database fails; every handler gives its
  connection back; a status changes only along the table of transitions, with an audit row;
  a reader gets only orders of its own.
\<close>

section \<open>The cache does not touch the database\<close>

lemma keeps_withTimeout:
  "(\<And>s. p (snd (call s)) = p s) \<Longrightarrow> keeps p (withTimeout call ms)"
  by (rule keepsI) (simp add: withTimeout_def case_prod_unfold)

lemma pg_ext_call [simp]: "pg (snd (ext_call call s)) = pg s"
  by (simp add: ext_call_def split: prod.split)

lemma keeps_pg_warn [keeps_intros]: "keeps pg (warnOncePerMinute S key message err)"
  unfolding warnOncePerMinute_def by (intro keeps_intros) (simp add: Let_def)

lemma keeps_pg_header [keeps_intros]: "keeps pg (set_header name v)"
  unfolding set_header_def by (intro keeps_intros) simp

lemma keeps_pg_cache [keeps_intros]:
  "keeps pg (cacheGet S cfg key)" "keeps pg (cacheSet S cfg key v ttl)" "keeps pg (cacheDelete S cfg key)"
  "keeps pg (cacheGetNamespaceVersion S cfg ns)" "keeps pg (cacheBumpNamespaceVersion S cfg ns)"
  unfolding cacheGet_def cacheSet_def cacheDelete_def cacheGetNamespaceVersion_def cacheBumpNamespaceVersion_def
  by (intro keeps_intros keeps_withTimeout; simp)+

lemma keeps_pg_parse [keeps_intros]: "keeps pg (parse_json t)"
  unfolding parse_json_def by (auto intro: keeps_intros split: option.split)

lemma keeps_pg_invalidate [keeps_intros]:
  "keeps pg (invalidateListNamespace S cfg ns)" "keeps pg (invalidateEntity S cfg key ns)"
  unfolding invalidateListNamespace_def invalidateEntity_def by (auto intro!: keeps_intros)

text \<open>An invalidation succeeds and leaves the database as it was.\<close>

lemma wp_invalidate:
  assumes "\<And>t. pg t = pg s \<Longrightarrow> Q () t"
  shows "wp (invalidateListNamespace S cfg ns) Q E s" and "wp (invalidateEntity S cfg key ns) Q E s"
  using wp_never_keeps[OF invalidateListNamespace_never_throws keeps_pg_invalidate(1), of s Q]
    wp_never_keeps[OF invalidateEntity_never_throws keeps_pg_invalidate(2), of s Q] assms by auto

section \<open>Creating an order\<close>

text \<open>The three rows of a new order.\<close>

definition order_added :: "database \<Rightarrow> order_row \<Rightarrow> order_event_row \<Rightarrow> outbox_row \<Rightarrow> database" where
  "order_added d row ev ob = d\<lparr>orders := orders d @ [row], order_events := order_events d @ [ev],
     outbox_events := outbox_events d @ [ob]\<rparr>"

definition new_order_rows :: "string \<Rightarrow> create_order_data \<Rightarrow> order_row \<Rightarrow> order_event_row \<Rightarrow> outbox_row \<Rightarrow> bool" where
  "new_order_rows userId dat row ev ob \<longleftrightarrow>
     o_status row = Pending \<and> o_user_id row = uuid_in userId \<and> o_items row = co_items dat \<and>
     o_customer_email row = js_lower (co_customerEmail dat) \<and> o_total_cents row = totalCents (co_items dat) \<and>
     ev_order_id ev = o_id row \<and> ev_event_type ev = ''created'' \<and> ev_from_status ev = None \<and>
     ev_to_status ev = Pending \<and> ev_actor_user_id ev = o_user_id row \<and>
     ob_aggregate_id ob = o_id row \<and> ob_event_type ob = ''order.created'' \<and> uuid_in (orderId (ob_payload ob)) = o_id row \<and>
     uuid_in (eventId (ob_payload ob)) = ob_id ob \<and> ob_published_at ob = None \<and> ob_attempts ob = 0"

definition fresh_rows :: "database \<Rightarrow> order_row \<Rightarrow> order_event_row \<Rightarrow> outbox_row \<Rightarrow> bool" where
  "fresh_rows d row ev ob \<longleftrightarrow> o_id row \<notin> o_id ` set (orders d) \<and> ev_id ev \<notin> ev_id ` set (order_events d) \<and>
     ob_id ob \<notin> ob_id ` set (outbox_events d) \<and> o_user_id row \<in> us_id ` set (users d)"

definition created :: "string \<Rightarrow> create_order_data \<Rightarrow> database \<Rightarrow> database \<Rightarrow> order_row \<Rightarrow> bool" where
  "created userId dat d d' row \<longleftrightarrow> int4_ok (totalCents (co_items dat)) \<and> (\<exists>ev ob. d' = order_added d row ev ob \<and>
     new_order_rows userId dat row ev ob \<and> fresh_rows d row ev ob)"

lemma insert_order_ok:
  assumes "insert_order oid userId email items tc now d = Inr (row, d')"
  shows "d' = d\<lparr>orders := orders d @ [row]\<rparr>" and "o_id row = uuid_in oid" and "o_user_id row = uuid_in userId"
    and "o_customer_email row = js_lower email" and "o_items row = items" and "o_total_cents row = tc"
    and "o_status row = Pending" and "uuid_in oid \<notin> o_id ` set (orders d)"
    and "uuid_in userId \<in> us_id ` set (users d)" and "int4_ok tc"
  using assms by (auto simp: insert_order_def Let_def split: if_splits)

lemma insert_order_event_ok:
  assumes "insert_order_event evid oid etype frm to actor now d = Inr (u, d')"
  obtains ev where "d' = d\<lparr>order_events := order_events d @ [ev]\<rparr>" and "ev_id ev = uuid_in evid"
    and "ev_order_id ev = uuid_in oid" and "ev_event_type ev = etype" and "ev_from_status ev = frm"
    and "ev_to_status ev = to" and "ev_actor_user_id ev = uuid_in actor"
    and "uuid_in evid \<notin> ev_id ` set (order_events d)" and "uuid_in oid \<in> o_id ` set (orders d)"
  using assms by (auto simp: insert_order_event_def split: if_splits)

lemma insert_outbox_event_ok:
  assumes "insert_outbox_event obid aid payload occurred now d = Inr (u, d')"
  obtains ob where "d' = d\<lparr>outbox_events := outbox_events d @ [ob]\<rparr>" and "ob_id ob = uuid_in obid"
    and "ob_event_type ob = ''order.created''" and "ob_aggregate_id ob = uuid_in aid"
    and "ob_payload ob = payload" and "ob_published_at ob = None" and "ob_attempts ob = 0"
    and "uuid_in obid \<notin> ob_id ` set (outbox_events d)"
  using assms by (auto simp: insert_outbox_event_def split: if_splits)

text \<open>What the three statements of one transaction make of the tables.\<close>

lemma three_inserts:
  assumes "insert_order oid userId (co_customerEmail dat) (co_items dat) (totalCents (co_items dat)) now d = Inr (row, d1)"
    and "insert_order_event aid oid ''created'' None Pending userId now1 d1 = Inr (u, d2)"
    and "insert_outbox_event evid oid payload occurred now2 d2 = Inr (v, d3)"
    and "orderId payload = oid" and "eventId payload = evid"
  shows "created userId dat d d3 row"
proof -
  note o = insert_order_ok[OF assms(1)]
  obtain ev where ev: "d2 = d1\<lparr>order_events := order_events d1 @ [ev]\<rparr>" "ev_id ev = uuid_in aid"
    "ev_order_id ev = uuid_in oid" "ev_event_type ev = ''created''" "ev_from_status ev = None"
    "ev_to_status ev = Pending" "ev_actor_user_id ev = uuid_in userId" "uuid_in aid \<notin> ev_id ` set (order_events d1)"
    by (rule insert_order_event_ok[OF assms(2)])
  obtain ob where ob: "d3 = d2\<lparr>outbox_events := outbox_events d2 @ [ob]\<rparr>" "ob_id ob = uuid_in evid"
    "ob_event_type ob = ''order.created''" "ob_aggregate_id ob = uuid_in oid" "ob_payload ob = payload"
    "ob_published_at ob = None" "ob_attempts ob = 0" "uuid_in evid \<notin> ob_id ` set (outbox_events d2)"
    by (rule insert_outbox_event_ok[OF assms(3)])
  have "d3 = order_added d row ev ob" by (simp add: order_added_def ob(1) ev(1) o(1))
  moreover have "new_order_rows userId dat row ev ob"
    using o ev ob assms(4,5) by (simp add: new_order_rows_def)
  moreover have "fresh_rows d row ev ob"
    using o ev ob by (simp add: fresh_rows_def)
  ultimately show ?thesis using o(10) by (auto simp: created_def)
qed

text \<open>The end of a failed transaction: rolled back, the connection given back, the error kept.\<close>

lemma wp_abandon:
  assumes "\<And>w. pg_same (pg s) w \<Longrightarrow> conn w = Idle \<Longrightarrow>
    E e (s\<lparr>pg := w\<lparr>clients_out := clients_out w - 1\<rparr>\<rparr>)"
  shows "wp rollback_quietly
    (\<lambda>u t. E e (t\<lparr>pg := (pg t)\<lparr>clients_out := clients_out (pg t) - 1\<rparr>\<rparr>)) E' s"
  by (rule wp_rollback_quietly) (simp add: assms)

lemma pg_same_D:
  assumes "pg_same w w'"
  shows "committed w' = committed w" "db_now w' = db_now w" "uuids_used w' = uuids_used w"
    "clients_out w' = clients_out w" "pg_script w = [] \<Longrightarrow> pg_script w' = []"
  using assms by (auto simp: pg_same_def)

text \<open>
  The outcome of the handler, with what the invalidation of the lists does to the outside world
  (\<open>B\<close>): it runs exactly if the order was committed and the answer is 201; an error leaves Redis
  untouched, and without faults of the database it leaves the tables as they were.
\<close>

lemma createOrder_effect:
  fixes s :: "('e, 'm) app_state_scheme"
  defines "d \<equiv> committed (pg s)" and "n \<equiv> clients_out (pg s)" and "quiet \<equiv> pg_script (pg s) = []"
  assumes bump: "\<And>t :: ('e, 'm) app_state_scheme. ext t = ext s \<Longrightarrow>
    wp (invalidateListNamespace S cfg ns_ordersList) (\<lambda>u t'. pg t' = pg t \<and> B (ext t')) (\<lambda>e t'. False) t"
  shows "wp (createOrderTransactionally S cfg uuid request userId dat)
    (\<lambda>r t. (\<exists>row. created userId dat d (committed (pg t)) row \<and>
         r = \<lparr>resp_status = 201, resp_body = order_body row\<rparr>) \<and> clients_out (pg t) = n \<and>
       B (ext t) \<and> (quiet \<longrightarrow> pg_script (pg t) = []))
    (\<lambda>e t. (committed (pg t) = d \<or> \<not> quiet \<and> (\<exists>row. created userId dat d (committed (pg t)) row)) \<and>
       clients_out (pg t) = n \<and> ext t = ext s \<and> (quiet \<longrightarrow> pg_script (pg t) = [])) s"
  unfolding createOrderTransactionally_def Let_def wp_simps
proof (rule wp_connect, goal_cases connected refused)
  case (refused e w)
  then show ?case by (simp add: pg_same_def d_def n_def quiet_def)
next
  case (connected w)
  then have w: "committed w = d" "clients_out w = n + 1" "quiet \<longrightarrow> pg_script w = []"
    by (simp_all add: pg_same_def d_def n_def quiet_def)
  show ?case
  proof (rule wp_begin, goal_cases idle begun failed)
    case idle
    show ?case by (simp add: connected)
  next
    case (failed e w1)
    then show ?case using w by (intro wp_abandon) (simp add: pg_same_def)
  next
    case (begun w1)
    then have w1: "committed w1 = d" "clients_out w1 = n + 1" "conn w1 = InTxn d" "quiet \<longrightarrow> pg_script w1 = []"
      using w by (simp_all add: pg_same_def)
    show ?case
    proof (rule wp_run_txn[where d = d], goal_cases intxn order failed)
      case intxn
      show ?case by (simp add: w1)
    next
      case (failed e w2)
      then show ?case using w1 by (intro wp_abandon) (simp add: pg_same_def)
    next
      case (order row d1 w2)
      then have w2: "committed w2 = d" "clients_out w2 = n + 1" "conn w2 = InTxn d1" "quiet \<longrightarrow> pg_script w2 = []"
        using w1 by (simp_all add: pg_same_def)
      show ?case
      proof (rule wp_run_txn[where d = d1], goal_cases intxn event failed)
        case intxn
        show ?case by (simp add: w2)
      next
        case (failed e w3)
        then show ?case using w2 by (intro wp_abandon) (simp add: pg_same_def)
      next
        case (event u d2 w3)
        then have w3: "committed w3 = d" "clients_out w3 = n + 1" "conn w3 = InTxn d2" "quiet \<longrightarrow> pg_script w3 = []"
          using w2 by (simp_all add: pg_same_def)
        show ?case
        proof (rule wp_run_txn[where d = d2], goal_cases intxn outbox failed)
          case intxn
          show ?case by (simp add: w3)
        next
          case (failed e w4)
          then show ?case using w3 by (intro wp_abandon) (simp add: pg_same_def)
        next
          case (outbox v d3 w4)
          then have w4: "committed w4 = d" "clients_out w4 = n + 1" "conn w4 = InTxn d3" "quiet \<longrightarrow> pg_script w4 = []"
            using w3 by (simp_all add: pg_same_def)
          have new: "created userId dat d d3 row"
            by (rule three_inserts[OF order(1) event(1) outbox(1)]) simp_all
          show ?case
          proof (rule wp_commit[where d = d3], goal_cases intxn finished failed)
            case intxn
            show ?case by (simp add: w4)
          next
            case (failed e w5)
            then show ?case using w4 new by (intro wp_abandon) (auto simp: pg_same_def)
          next
            case (finished w5)
            then have w5: "committed w5 = d3" "clients_out w5 = n + 1" "quiet \<longrightarrow> pg_script w5 = []"
              using w4 by (simp_all add: pg_same_def)
            show ?case
              by (rule wp_mono[OF bump]) (use w5 new in auto)
          qed
        qed
      qed
    qed
  qed
qed

lemma createOrder_wp:
  fixes s :: "('e, 'm) app_state_scheme"
  defines "d \<equiv> committed (pg s)" and "n \<equiv> clients_out (pg s)"
  shows "wp (createOrderTransactionally S cfg uuid request userId dat)
    (\<lambda>r t. \<exists>row. created userId dat d (committed (pg t)) row \<and> clients_out (pg t) = n \<and>
       r = \<lparr>resp_status = 201, resp_body = order_body row\<rparr>)
    (\<lambda>e t. (committed (pg t) = d \<or> (\<exists>row. created userId dat d (committed (pg t)) row)) \<and>
       clients_out (pg t) = n) s"
  unfolding d_def n_def
  by (rule wp_mono[OF createOrder_effect[where B = "\<lambda>e. True"]]) (auto intro: wp_invalidate)

section \<open>Changing the status of an order\<close>

text \<open>The audited change of one order: the row and one more event, nothing else.\<close>

definition status_changed ::
  "string \<Rightarrow> string \<Rightarrow> order_status \<Rightarrow> order_status \<Rightarrow> int \<Rightarrow> database \<Rightarrow> database \<Rightarrow> bool" where
  "status_changed oid actor frm to now d d' \<longleftrightarrow>
     (\<exists>ev. d' = d\<lparr>orders := map (\<lambda>row. if o_id row = oid then row\<lparr>o_status := to, o_updated_at := now\<rparr> else row) (orders d),
              order_events := order_events d @ [ev]\<rparr> \<and>
        ev_order_id ev = oid \<and> ev_event_type ev = ''status_changed'' \<and> ev_from_status ev = Some frm \<and>
        ev_to_status ev = to \<and> ev_actor_user_id ev = uuid_in actor \<and> ev_id ev \<notin> ev_id ` set (order_events d))"

text \<open>What \<open>PATCH\<close> promises: its answer and the tables it leaves, from the tables it found.\<close>

definition patch_spec ::
  "database \<Rightarrow> int \<Rightarrow> string \<Rightarrow> auth_user \<Rightarrow> order_status \<Rightarrow> response \<Rightarrow> database \<Rightarrow> bool" where
  "patch_spec d now oid user target r d' \<longleftrightarrow>
     (case find_order oid d of
        None \<Rightarrow> r = order_not_found \<and> d' = d
      | Some cur \<Rightarrow>
          if o_user_id cur \<noteq> user_id user then r = order_not_found \<and> d' = d
          else if \<not> isAllowedOrderStatusTransition (o_status cur) target
          then r = invalid_transition (o_status cur) target \<and> d' = d
          else if o_status cur = target then r = order_reply (Some cur) \<and> d' = d
          else r = order_reply (Some (cur\<lparr>o_status := target, o_updated_at := now\<rparr>)) \<and>
               status_changed (uuid_in oid) (user_id user) (o_status cur) target now d d')"

text \<open>An error leaves the tables as they were, or as the successful request would.\<close>

definition patch_spec_error :: "database \<Rightarrow> int \<Rightarrow> string \<Rightarrow> auth_user \<Rightarrow> order_status \<Rightarrow> database \<Rightarrow> bool" where
  "patch_spec_error d now oid user target d' \<longleftrightarrow> d' = d \<or> (\<exists>r. patch_spec d now oid user target r d')"

lemma find_order_updated:
  "find_order oid (d\<lparr>orders := map (\<lambda>row. if o_id row = uuid_in oid then row\<lparr>o_status := to, o_updated_at := now\<rparr> else row) (orders d)\<rparr>)
     = map_option (\<lambda>row. row\<lparr>o_status := to, o_updated_at := now\<rparr>) (find_order oid d)"
proof -
  have "find (\<lambda>row. o_id row = uuid_in oid) (map (\<lambda>row. if o_id row = uuid_in oid
          then row\<lparr>o_status := to, o_updated_at := now\<rparr> else row) rows)
      = map_option (\<lambda>row. row\<lparr>o_status := to, o_updated_at := now\<rparr>) (find (\<lambda>row. o_id row = uuid_in oid) rows)"
    for rows :: "order_row list"
    by (induction rows) auto
  then show ?thesis by (simp add: find_order_def)
qed

lemma update_then_event:
  assumes "find_order oid d = Some cur"
    and "update_order_status oid target now d = Inr (found, d1)"
    and "insert_order_event aid oid ''status_changed'' (Some (o_status cur)) target actor now1 d1 = Inr (u, d2)"
  shows "found = Some (cur\<lparr>o_status := target, o_updated_at := now\<rparr>)"
    and "status_changed (uuid_in oid) actor (o_status cur) target now d d2"
proof -
  have d1: "d1 = d\<lparr>orders := map (\<lambda>row. if o_id row = uuid_in oid then row\<lparr>o_status := target, o_updated_at := now\<rparr> else row) (orders d)\<rparr>"
    and found: "found = find_order oid d1"
    using assms(2) by (auto simp: update_order_status_def Let_def)
  show "found = Some (cur\<lparr>o_status := target, o_updated_at := now\<rparr>)"
    by (simp add: found d1 find_order_updated assms(1))
  obtain ev where "d2 = d1\<lparr>order_events := order_events d1 @ [ev]\<rparr>" "ev_id ev = uuid_in aid"
    and "ev_order_id ev = uuid_in oid" "ev_event_type ev = ''status_changed''" "ev_from_status ev = Some (o_status cur)"
    "ev_to_status ev = target" "ev_actor_user_id ev = uuid_in actor" "uuid_in aid \<notin> ev_id ` set (order_events d1)"
    by (rule insert_order_event_ok[OF assms(3)])
  then show "status_changed (uuid_in oid) actor (o_status cur) target now d d2"
    unfolding status_changed_def by (intro exI[of _ ev]) (simp add: d1)
qed

lemma select_order_ok: "select_order oid now d = Inr (found, d') \<Longrightarrow> found = find_order oid d \<and> d' = d"
  by (auto simp: select_order_def)

text \<open>
  The transaction of \<open>PATCH\<close> on a fresh connection, with what the two invalidations do to the
  outside world (\<open>B\<close>): they run if the row was changed, and otherwise Redis is untouched.
\<close>

lemma patch_txn_effect:
  fixes s :: "('e, 'm) app_state_scheme"
  assumes idle: "conn (pg s) = Idle" and d: "committed (pg s) = d" and now: "db_now (pg s) = now"
    and n: "clients_out (pg s) = n" and quiet: "quiet \<longrightarrow> pg_script (pg s) = []"
    and inval: "\<And>t :: ('e, 'm) app_state_scheme. ext t = ext s \<Longrightarrow>
      wp (io_bind (invalidateEntity S cfg (orderEntityKey oid) ns_order) (\<lambda>u. invalidateListNamespace S cfg ns_ordersList))
        (\<lambda>u t'. pg t' = pg t \<and> B (ext t')) (\<lambda>e t'. False) t"
  shows "wp (patch_txn S cfg uuid oid user target)
    (\<lambda>r t. patch_spec d now oid user target r (committed (pg t)) \<and> clients_out (pg t) = n \<and>
       (ext t = ext s \<and> committed (pg t) = d \<or> B (ext t)) \<and> (quiet \<longrightarrow> pg_script (pg t) = []))
    (\<lambda>e t. (committed (pg t) = d \<or> \<not> quiet \<and> (\<exists>r. patch_spec d now oid user target r (committed (pg t)))) \<and>
       clients_out (pg t) = n \<and> ext t = ext s \<and> (quiet \<longrightarrow> pg_script (pg t) = [])) s"
    (is "wp _ ?Q ?E s")
proof -
  have unharmed: "?E e t" if "committed (pg t) = d" "clients_out (pg t) = n" "quiet \<longrightarrow> pg_script (pg t) = []" "ext t = ext s"
    for e and t :: "('e, 'm) app_state_scheme"
    using that by simp
  have finish: "wp (on_pg pg_commit) F ?E t"
    if "patch_spec d now oid user target r d'" "committed (pg t) = d" "clients_out (pg t) = n"
      "conn (pg t) = InTxn d'" "quiet \<longrightarrow> pg_script (pg t) = []" "ext t = ext s"
      "\<And>t'. committed (pg t') = d' \<Longrightarrow> clients_out (pg t') = n \<Longrightarrow> quiet \<longrightarrow> pg_script (pg t') = [] \<Longrightarrow> ext t' = ext s \<Longrightarrow> F () t'"
    for r d' F and t :: "('e, 'm) app_state_scheme"
    by (rule wp_commit[OF that(4)]) (use that in \<open>auto simp: pg_same_def\<close>)
  have rolled: "wp (io_bind (on_pg pg_rollback) (\<lambda>u. io_return r)) ?Q ?E t"
    if "patch_spec d now oid user target r d" "committed (pg t) = d" "clients_out (pg t) = n"
      "quiet \<longrightarrow> pg_script (pg t) = []" "ext t = ext s"
    for r and t :: "('e, 'm) app_state_scheme"
    unfolding wp_simps
    by (rule wp_rollback) (use that in \<open>auto simp: pg_same_def\<close>)
  show ?thesis
    unfolding patch_txn_def wp_bind
  proof (rule wp_begin[OF idle], goal_cases begun failed)
    case (failed e w)
    then show ?case using quiet by (intro unharmed) (simp_all add: pg_same_def d n)
  next
    case (begun w)
    then have w: "committed w = d" "clients_out w = n" "db_now w = now" "conn w = InTxn d" "quiet \<longrightarrow> pg_script w = []"
      using quiet by (simp_all add: pg_same_def d n now)
    show ?case
    proof (rule wp_run_txn[where d = d], goal_cases intxn selected failed)
      case intxn
      show ?case by (simp add: w)
    next
      case (failed e w1)
      then show ?case using w by (intro unharmed) (simp_all add: pg_same_def)
    next
      case (selected found d0 w1)
      then have found: "found = find_order oid d" "d0 = d" by (auto dest: select_order_ok)
      with selected have w1: "committed w1 = d" "clients_out w1 = n" "db_now w1 = now" "conn w1 = InTxn d" "quiet \<longrightarrow> pg_script w1 = []"
        using w by (simp_all add: pg_same_def)
      show ?case
      proof (cases "find_order oid d")
        case None
        then have "patch_spec d now oid user target order_not_found d" by (simp add: patch_spec_def)
        from rolled[OF this, of "s\<lparr>pg := w1\<rparr>"] show ?thesis using w1 None by (simp add: found)
      next
        case (Some cur)
        consider (denied) "o_user_id cur \<noteq> user_id user"
          | (illegal) "o_user_id cur = user_id user" "\<not> isAllowedOrderStatusTransition (o_status cur) target"
          | (same) "o_user_id cur = user_id user" "isAllowedOrderStatusTransition (o_status cur) target"
              "o_status cur = target"
          | (step) "o_user_id cur = user_id user" "isAllowedOrderStatusTransition (o_status cur) target"
              "o_status cur \<noteq> target"
          by blast
        then show ?thesis
        proof cases
          case denied
          then have "patch_spec d now oid user target order_not_found d" by (simp add: patch_spec_def Some)
          from rolled[OF this, of "s\<lparr>pg := w1\<rparr>"] show ?thesis using w1 Some denied by (simp add: found)
        next
          case illegal
          then have "patch_spec d now oid user target (invalid_transition (o_status cur) target) d"
            by (simp add: patch_spec_def Some)
          from rolled[OF this, of "s\<lparr>pg := w1\<rparr>"] show ?thesis using w1 Some illegal by (simp add: found)
        next
          case same
          then have spec: "patch_spec d now oid user target (order_reply (Some cur)) d"
            by (simp add: patch_spec_def Some)
          have "wp (io_bind (on_pg (pg_run (select_order oid))) (\<lambda>ord. io_bind (on_pg pg_commit)
              (\<lambda>u. io_return (order_reply ord)))) ?Q ?E (s\<lparr>pg := w1\<rparr>)"
            unfolding wp_bind
          proof (rule wp_run_txn[where d = d], goal_cases intxn again failed)
            case intxn
            show ?case by (simp add: w1)
          next
            case (failed e w2)
            then show ?case using w1 by (intro unharmed) (simp_all add: pg_same_def)
          next
            case (again a d' w2)
            then have "a = Some cur" "d' = d" by (auto dest: select_order_ok simp: Some)
            then show ?case using again w1 spec unfolding wp_simps
              by (intro finish[where d' = d]) (simp_all add: pg_same_def)
          qed
          then show ?thesis using same by (simp add: found Some del: io_return_apply)
        next
          case step
          let ?inval = "io_bind (invalidateEntity S cfg (orderEntityKey oid) ns_order)
              (\<lambda>u. invalidateListNamespace S cfg ns_ordersList)"
          let ?row = "Some (cur\<lparr>o_status := target, o_updated_at := now\<rparr>)"
          have "wp (io_bind (io_bind (on_pg (pg_run (update_order_status oid target))) (\<lambda>updated.
                io_bind (randomUUID uuid) (\<lambda>aid.
                io_bind (on_pg (pg_run (insert_order_event aid oid ''status_changed''
                    (Some (o_status cur)) target (user_id user)))) (\<lambda>u.
                io_return updated)))) (\<lambda>ord. io_bind (on_pg pg_commit)
              (\<lambda>u. io_bind ?inval (\<lambda>u. io_return (order_reply ord))))) ?Q ?E (s\<lparr>pg := w1\<rparr>)"
            unfolding wp_bind
          proof (rule wp_run_txn[where d = d], goal_cases intxn updated failed)
            case intxn
            show ?case by (simp add: w1)
          next
            case (failed e w2)
            then show ?case using w1 by (intro unharmed) (simp_all add: pg_same_def)
          next
            case (updated a d1 w2)
            then have w2: "committed w2 = d" "clients_out w2 = n" "db_now w2 = now" "conn w2 = InTxn d1" "quiet \<longrightarrow> pg_script w2 = []"
              using w1 by (simp_all add: pg_same_def)
            show ?case unfolding wp_randomUUID
            proof (rule wp_run_txn[where d = d1], goal_cases intxn event failed)
              case intxn
              show ?case by (simp add: w2)
            next
              case (failed e w3)
              then show ?case using w2 by (intro unharmed) (simp_all add: pg_same_def)
            next
              case (event u d2 w3)
              have upd: "update_order_status oid target now d = Inr (a, d1)"
                using updated(1) w1 by simp
              note changed = update_then_event[OF Some upd event(1)]
              have spec: "patch_spec d now oid user target (order_reply ?row) d2"
                using Some step changed(2) by (simp add: patch_spec_def)
              have "wp (on_pg pg_commit) (\<lambda>u. wp ?inval (\<lambda>u. wp (io_return (order_reply ?row)) ?Q ?E) ?E) ?E
                  (s\<lparr>pg := w3\<rparr>)"
              proof (rule finish[OF spec])
                fix t' :: "('e, 'm) app_state_scheme"
                assume t': "committed (pg t') = d2" "clients_out (pg t') = n" "quiet \<longrightarrow> pg_script (pg t') = []" "ext t' = ext s"
                show "wp ?inval (\<lambda>u. wp (io_return (order_reply ?row)) ?Q ?E) ?E t'"
                  unfolding wp_return by (rule wp_mono[OF inval[OF t'(4)]]) (use t' spec in auto)
              qed (use event(2,3) w2 in \<open>simp_all add: pg_same_def\<close>)
              then show ?case by (simp add: wp_bind wp_return changed(1))
            qed
          qed
          then show ?thesis using step by (simp add: found Some)
        qed
      qed
    qed
  qed
qed

lemma patch_order_effect:
  fixes s :: "('e, 'm) app_state_scheme"
  assumes "orderIdParamsSchema oid" and "patchOrderSchema body = Some target"
    and d: "committed (pg s) = d" and now: "db_now (pg s) = now" and n: "clients_out (pg s) = n"
    and quiet: "quiet \<longrightarrow> pg_script (pg s) = []"
    and inval: "\<And>t :: ('e, 'm) app_state_scheme. ext t = ext s \<Longrightarrow>
      wp (io_bind (invalidateEntity S cfg (orderEntityKey oid) ns_order) (\<lambda>u. invalidateListNamespace S cfg ns_ordersList))
        (\<lambda>u t'. pg t' = pg t \<and> B (ext t')) (\<lambda>e t'. False) t"
  shows "wp (patch_order S cfg uuid issues oid (Some user) body)
    (\<lambda>r t. patch_spec d now oid user target r (committed (pg t)) \<and> clients_out (pg t) = n \<and>
       (ext t = ext s \<and> committed (pg t) = d \<or> B (ext t)) \<and> (quiet \<longrightarrow> pg_script (pg t) = []))
    (\<lambda>e t. (committed (pg t) = d \<or> \<not> quiet \<and> (\<exists>r. patch_spec d now oid user target r (committed (pg t)))) \<and>
       clients_out (pg t) = n \<and> ext t = ext s \<and> (quiet \<longrightarrow> pg_script (pg t) = [])) s"
proof -
  have code: "patch_order S cfg uuid issues oid (Some user) body = io_bind (on_pg pg_connect) (\<lambda>x.
                 io_finally
                   (io_catch (patch_txn S cfg uuid oid user target)
                     (\<lambda>error. io_bind rollback_quietly (\<lambda>y. io_throw error)))
                   pg_release)" for x
    using assms(1,2) by (simp add: patch_order_def)
  show ?thesis unfolding code wp_simps
  proof (rule wp_connect, goal_cases connected refused)
    case (refused e w)
    then show ?case using quiet by (simp add: pg_same_def d n)
  next
    case (connected w)
    then have w: "conn (pg (s\<lparr>pg := w\<rparr>)) = Idle" "committed (pg (s\<lparr>pg := w\<rparr>)) = d"
      "db_now (pg (s\<lparr>pg := w\<rparr>)) = now" "clients_out (pg (s\<lparr>pg := w\<rparr>)) = n + 1" "quiet \<longrightarrow> pg_script (pg (s\<lparr>pg := w\<rparr>)) = []"
      using quiet by (simp_all add: pg_same_def d now n)
    have inval': "\<And>t :: ('e, 'm) app_state_scheme. ext t = ext (s\<lparr>pg := w\<rparr>) \<Longrightarrow>
      wp (io_bind (invalidateEntity S cfg (orderEntityKey oid) ns_order) (\<lambda>u. invalidateListNamespace S cfg ns_ordersList))
        (\<lambda>u t'. pg t' = pg t \<and> B (ext t')) (\<lambda>e t'. False) t"
      by (rule inval) simp
    show ?case
    proof (rule wp_mono[OF patch_txn_effect[OF w, where B = B]], goal_cases invalidated ok failed)
      case (invalidated t)
      then show ?case by (rule inval')
    next
      case (ok r t)
      then show ?case by simp
    next
      case (failed e t)
      then show ?case by (intro wp_abandon) (simp add: pg_same_def)
    qed
  qed
qed

lemma patch_order_wp:
  fixes s :: "('e, 'm) app_state_scheme"
  assumes "orderIdParamsSchema oid" and "patchOrderSchema body = Some target"
    and d: "committed (pg s) = d" and now: "db_now (pg s) = now" and n: "clients_out (pg s) = n"
  shows "wp (patch_order S cfg uuid issues oid (Some user) body)
    (\<lambda>r t. patch_spec d now oid user target r (committed (pg t)) \<and> clients_out (pg t) = n)
    (\<lambda>e t. patch_spec_error d now oid user target (committed (pg t)) \<and> clients_out (pg t) = n) s"
  by (rule wp_mono[OF patch_order_effect[OF assms, where quiet = False and B = "\<lambda>e. True"]])
    (auto simp: patch_spec_error_def wp_simps intro!: wp_invalidate)

section \<open>The invariant of the order tables\<close>

text \<open>
  Reading the audit rows of an order from the first one leads from no status, through
  \<open>created\<close> and steps of the table of transitions, to a status.
\<close>

fun audit_ok :: "order_status option \<Rightarrow> order_event_row list \<Rightarrow> order_status option \<Rightarrow> bool" where
  "audit_ok st [] fin = (st = fin)"
| "audit_ok st (e # es) fin =
     (ev_from_status e = st \<and>
      (case st of
         None \<Rightarrow> ev_event_type e = ''created'' \<and> ev_to_status e = Pending
       | Some frm \<Rightarrow> ev_event_type e = ''status_changed'' \<and> status_step frm (ev_to_status e)) \<and>
      audit_ok (Some (ev_to_status e)) es fin)"

definition order_log :: "database \<Rightarrow> string \<Rightarrow> order_event_row list" where
  "order_log d oid = filter (\<lambda>e. ev_order_id e = oid) (order_events d)"

definition outbox_of :: "database \<Rightarrow> string \<Rightarrow> outbox_row list" where
  "outbox_of d oid = filter (\<lambda>ob. ob_aggregate_id ob = oid) (outbox_events d)"

text \<open>
  The invariant: ids are unique, the audit trail of every order replays to its current
  status, every order has exactly one event in the outbox, every event names its order.
\<close>

definition orders_ok :: "database \<Rightarrow> bool" where
  "orders_ok d \<longleftrightarrow>
     distinct (map o_id (orders d)) \<and>
     (\<forall>row\<in>set (orders d). audit_ok None (order_log d (o_id row)) (Some (o_status row)) \<and>
        length (outbox_of d (o_id row)) = 1) \<and>
     (\<forall>e\<in>set (order_events d). ev_order_id e \<in> o_id ` set (orders d)) \<and>
     (\<forall>ob\<in>set (outbox_events d). ob_aggregate_id ob \<in> o_id ` set (orders d) \<and>
        uuid_in (orderId (ob_payload ob)) = ob_aggregate_id ob) \<and>
     distinct (map ob_id (outbox_events d))"

lemma orders_ok_empty: "orders d = [] \<Longrightarrow> order_events d = [] \<Longrightarrow> outbox_events d = [] \<Longrightarrow> orders_ok d"
  by (simp add: orders_ok_def)

lemma audit_ok_snoc:
  "audit_ok st es (Some frm) \<Longrightarrow> ev_from_status e = Some frm \<Longrightarrow> ev_event_type e = ''status_changed'' \<Longrightarrow>
   status_step frm (ev_to_status e) \<Longrightarrow> audit_ok st (es @ [e]) (Some (ev_to_status e))"
  by (induction es arbitrary: st) auto

lemma order_log_none: "orders_ok d \<Longrightarrow> oid \<notin> o_id ` set (orders d) \<Longrightarrow> order_log d oid = []"
  by (auto simp: orders_ok_def order_log_def filter_empty_conv)

lemma outbox_of_none: "orders_ok d \<Longrightarrow> oid \<notin> o_id ` set (orders d) \<Longrightarrow> outbox_of d oid = []"
  by (auto simp: orders_ok_def outbox_of_def filter_empty_conv)

lemma created_keeps_orders_ok:
  assumes "orders_ok d" and "created userId dat d d' row"
  shows "orders_ok d'"
proof -
  obtain ev ob where d': "d' = order_added d row ev ob" and new: "new_order_rows userId dat row ev ob"
    and fresh: "o_id row \<notin> o_id ` set (orders d)" and fresh_ob: "ob_id ob \<notin> ob_id ` set (outbox_events d)"
    using assms(2) by (auto simp: created_def fresh_rows_def)
  have logs: "order_log d' oid = order_log d oid @ (if oid = o_id row then [ev] else [])"
    and boxes: "outbox_of d' oid = outbox_of d oid @ (if oid = o_id row then [ob] else [])" for oid
    using new by (auto simp: d' order_added_def order_log_def outbox_of_def new_order_rows_def)
  have "audit_ok None (order_log d' (o_id r)) (Some (o_status r)) \<and> length (outbox_of d' (o_id r)) = 1"
    if "r \<in> set (orders d')" for r
  proof (cases "r = row")
    case True
    then show ?thesis
      using order_log_none[OF assms(1) fresh] outbox_of_none[OF assms(1) fresh] new
      by (simp add: logs boxes new_order_rows_def)
  next
    case False
    with that have "r \<in> set (orders d)" by (simp add: d' order_added_def)
    moreover from this fresh have "o_id r \<noteq> o_id row" by (metis imageI)
    ultimately show ?thesis using assms(1) by (simp add: orders_ok_def logs boxes)
  qed
  moreover have "distinct (map o_id (orders d'))"
    using assms(1) fresh by (simp add: d' order_added_def orders_ok_def)
  moreover have "\<forall>e\<in>set (order_events d'). ev_order_id e \<in> o_id ` set (orders d')"
    "\<forall>b\<in>set (outbox_events d'). ob_aggregate_id b \<in> o_id ` set (orders d') \<and>
       uuid_in (orderId (ob_payload b)) = ob_aggregate_id b"
    using assms(1) new by (auto simp: d' order_added_def orders_ok_def new_order_rows_def)
  moreover have "distinct (map ob_id (outbox_events d'))"
    using assms(1) fresh_ob by (simp add: d' order_added_def orders_ok_def)
  ultimately show ?thesis by (simp add: orders_ok_def)
qed

lemma status_changed_keeps_orders_ok:
  assumes ok: "orders_ok d" and change: "status_changed oid actor frm to now d d'"
    and cur: "cur \<in> set (orders d)" "o_id cur = oid" "o_status cur = frm" and step: "status_step frm to"
  shows "orders_ok d'"
proof -
  let ?f = "\<lambda>row. if o_id row = oid then row\<lparr>o_status := to, o_updated_at := now\<rparr> else row"
  obtain ev where d': "d' = d\<lparr>orders := map ?f (orders d), order_events := order_events d @ [ev]\<rparr>"
    and ev: "ev_order_id ev = oid" "ev_event_type ev = ''status_changed''" "ev_from_status ev = Some frm"
      "ev_to_status ev = to"
    using change by (auto simp: status_changed_def)
  have ids: "map o_id (orders d') = map o_id (orders d)" by (simp add: d')
  then have idset: "o_id ` set (orders d') = o_id ` set (orders d)" by (metis list.set_map)
  have logs: "order_log d' k = order_log d k @ (if k = oid then [ev] else [])"
    and boxes: "outbox_of d' k = outbox_of d k" for k
    using ev by (auto simp: d' order_log_def outbox_of_def)
  have present: "oid \<in> o_id ` set (orders d)" using cur by (metis imageI)
  have unique: "r = cur" if "r \<in> set (orders d)" "o_id r = oid" for r
    using ok that cur by (auto simp: orders_ok_def distinct_map inj_on_def)
  have "audit_ok None (order_log d' (o_id r)) (Some (o_status r)) \<and> length (outbox_of d' (o_id r)) = 1"
    if "r \<in> set (orders d')" for r
  proof -
    have "r \<in> ?f ` set (orders d)" using that by (simp add: d')
    then obtain r0 where r0: "r0 \<in> set (orders d)" "r = ?f r0" by blast
    then have old: "audit_ok None (order_log d (o_id r0)) (Some (o_status r0))" "length (outbox_of d (o_id r0)) = 1"
      using ok by (auto simp: orders_ok_def)
    show ?thesis
    proof (cases "o_id r0 = oid")
      case True
      with r0 unique have "r0 = cur" by blast
      with old True r0 cur ev step audit_ok_snoc[of None "order_log d oid" frm ev] show ?thesis
        by (simp add: logs boxes)
    next
      case False
      with old r0 show ?thesis by (simp add: logs boxes)
    qed
  qed
  moreover have "\<forall>e\<in>set (order_events d'). ev_order_id e \<in> o_id ` set (orders d')"
    "\<forall>b\<in>set (outbox_events d'). ob_aggregate_id b \<in> o_id ` set (orders d') \<and>
       uuid_in (orderId (ob_payload b)) = ob_aggregate_id b"
    unfolding idset using ok ev present by (auto simp: d' orders_ok_def)
  moreover have "distinct (map ob_id (outbox_events d'))" using ok by (simp add: d' orders_ok_def)
  ultimately show ?thesis using ok by (simp add: orders_ok_def ids)
qed

lemma find_order_Some: "find_order oid d = Some cur \<Longrightarrow> cur \<in> set (orders d) \<and> o_id cur = uuid_in oid"
  by (auto simp: find_order_def find_Some_iff)

lemma patch_spec_keeps_orders_ok:
  assumes "orders_ok d" and "patch_spec d now oid user target r d'"
  shows "orders_ok d'"
proof (cases "find_order oid d")
  case None
  with assms show ?thesis by (simp add: patch_spec_def)
next
  case (Some cur)
  show ?thesis
  proof (cases "o_user_id cur = user_id user \<and> isAllowedOrderStatusTransition (o_status cur) target \<and> o_status cur \<noteq> target")
    case True
    then have "status_changed (uuid_in oid) (user_id user) (o_status cur) target now d d'" "status_step (o_status cur) target"
      using assms(2) Some by (auto simp: patch_spec_def allowed_iff_step)
    then show ?thesis using status_changed_keeps_orders_ok[OF assms(1)] find_order_Some[OF Some] by blast
  next
    case False
    with assms Some show ?thesis by (auto simp: patch_spec_def split: if_splits)
  qed
qed

text \<open>What ties an outbox row to its order; the delivery state may change under it.\<close>

definition event_link :: "outbox_row \<Rightarrow> string \<times> string \<times> order_created_event" where
  "event_link ob = (ob_id ob, ob_aggregate_id ob, ob_payload ob)"

text \<open>The order tables under the two writing handlers, whatever fails, and under the other services.\<close>

inductive order_history ::
  "'e services \<Rightarrow> api_config \<Rightarrow> (nat \<Rightarrow> string) \<Rightarrow> (json \<Rightarrow> (string list \<times> string) list) \<Rightarrow> database \<Rightarrow> bool"
  for S cfg uuid issues where
  empty: "orders d = [] \<Longrightarrow> order_events d = [] \<Longrightarrow> outbox_events d = [] \<Longrightarrow> order_history S cfg uuid issues d"
| create: "order_history S cfg uuid issues (committed (pg (s :: 'e app_state))) \<Longrightarrow>
     createOrderTransactionally S cfg uuid request userId dat s = (out, t) \<Longrightarrow>
     order_history S cfg uuid issues (committed (pg t))"
| patch: "order_history S cfg uuid issues (committed (pg (s :: 'e app_state))) \<Longrightarrow>
     patch_order S cfg uuid issues oid user body s = (out, t) \<Longrightarrow>
     order_history S cfg uuid issues (committed (pg t))"
| others: "order_history S cfg uuid issues d \<Longrightarrow> orders d' = orders d \<Longrightarrow> order_events d' = order_events d \<Longrightarrow>
     map event_link (outbox_events d') = map event_link (outbox_events d) \<Longrightarrow>
     order_history S cfg uuid issues d'"

lemma patch_order_cases:
  obtains (rejected) r where "patch_order S cfg uuid issues oid user body = io_return r"
  | (runs) u target where "user = Some u" "patchOrderSchema body = Some target" "orderIdParamsSchema oid"
  by (cases "orderIdParamsSchema oid"; cases "patchOrderSchema body"; cases user) (auto simp: patch_order_def)

lemma patch_order_keeps_orders_ok:
  fixes s :: "('e, 'm) app_state_scheme"
  assumes "orders_ok (committed (pg s))" and "patch_order S cfg uuid issues oid user body s = (out, t)"
  shows "orders_ok (committed (pg t))"
proof -
  consider (rejected) r where "patch_order S cfg uuid issues oid user body = (io_return r :: (('e, 'm) app_state_scheme, response) io)"
    | (runs) u target where "user = Some u" "patchOrderSchema body = Some target" "orderIdParamsSchema oid"
    by (rule patch_order_cases)
  then show ?thesis
  proof cases
  case (rejected r)
  with assms show ?thesis by simp
next
  case (runs u target)
  have "case out of Inl e \<Rightarrow> patch_spec_error (committed (pg s)) (db_now (pg s)) oid u target (committed (pg t))
      | Inr r \<Rightarrow> patch_spec (committed (pg s)) (db_now (pg s)) oid u target r (committed (pg t))"
    using wp_outcome[OF patch_order_wp[OF runs(3,2) refl refl refl] assms(2)[unfolded runs(1)]]
    by (auto split: sum.splits)
  then show ?thesis
    using assms(1) patch_spec_keeps_orders_ok[OF assms(1)] by (auto simp: patch_spec_error_def split: sum.splits)
  qed
qed

lemma create_keeps_orders_ok:
  fixes s :: "('e, 'm) app_state_scheme"
  assumes "orders_ok (committed (pg s))" and "createOrderTransactionally S cfg uuid request userId dat s = (out, t)"
  shows "orders_ok (committed (pg t))"
  using wp_outcome[OF createOrder_wp assms(2)] created_keeps_orders_ok[OF assms(1)] assms(1)
  by (auto split: sum.splits)

lemma outbox_of_length:
  "length (outbox_of d oid) = length (filter (\<lambda>x. fst (snd x) = oid) (map event_link (outbox_events d)))"
  by (simp add: outbox_of_def filter_map comp_def event_link_def)

lemma others_keep_orders_ok:
  assumes "orders_ok d" and "orders d' = orders d" and "order_events d' = order_events d"
    and links: "map event_link (outbox_events d') = map event_link (outbox_events d)"
  shows "orders_ok d'"
proof -
  have len: "length (outbox_of d' oid) = length (outbox_of d oid)" for oid
    by (simp add: outbox_of_length links)
  have "map ob_id xs = map fst (map event_link xs)" for xs by (simp add: event_link_def)
  then have ids: "map ob_id (outbox_events d') = map ob_id (outbox_events d)" by (simp only: links)
  have "ob_aggregate_id ob \<in> o_id ` set (orders d') \<and> uuid_in (orderId (ob_payload ob)) = ob_aggregate_id ob"
    if "ob \<in> set (outbox_events d')" for ob
  proof -
    have "event_link ob \<in> event_link ` set (outbox_events d)"
      using that links by (metis image_eqI list.set_map)
    then obtain b where b: "b \<in> set (outbox_events d)" "event_link ob = event_link b" by blast
    then have "ob_aggregate_id ob = ob_aggregate_id b" "ob_payload ob = ob_payload b" by (simp_all add: event_link_def)
    with b assms(1,2) show ?thesis by (simp add: orders_ok_def)
  qed
  with assms len ids show ?thesis by (simp add: orders_ok_def order_log_def)
qed

end
