(* ===== verification/Outbox_Laws.thy ===== *)
theory Outbox_Laws
  imports Outbox_Publisher Order_Laws
begin

text \<open>
  What the publisher guarantees: an event is marked published only after the broker accepted
  its message; nothing but the delivery state of outbox rows changes; a poll in which nothing
  fails delivers every due row of the batch; a failed row is scheduled for a later attempt.
\<close>

section \<open>One publication\<close>

lemma wp_amqp_call:
  assumes "\<And>fs. Q () (effect (s\<lparr>amqp_script := fs\<rparr>))"
    and "\<And>e l fs. E e (lose l (effect (s\<lparr>amqp_script := fs\<rparr>)))" and "\<And>e l fs. E e (lose l (s\<lparr>amqp_script := fs\<rparr>))"
  shows "wp (amqp_call effect) Q E s"
proof (cases "amqp_script s")
  case Nil
  then have "s\<lparr>amqp_script := []\<rparr> = s" by simp
  with assms(1)[of "[]"] Nil show ?thesis by (simp add: wp_def amqp_call_def)
next
  case (Cons f fs)
  then show ?thesis using assms by (cases f) (simp_all add: wp_def amqp_call_def)
qed

lemma lose_fields [simp]:
  "pub_pg (lose l s) = pub_pg s" "confirmed (lose l s) = confirmed s" "row_locks (lose l s) = row_locks s"
  "pub_shuttingDown (lose l s) = pub_shuttingDown s"
  by (cases l; simp add: lose_def)+

definition log_grows :: "publisher \<Rightarrow> publisher \<Rightarrow> bool" where
  "log_grows s t \<longleftrightarrow> pub_pg t = pub_pg s \<and> row_locks t = row_locks s \<and> (\<exists>newer. confirmed t = confirmed s @ newer)"

lemma connectRabbit_wp:
  assumes "\<And>t. pub_pg t = pub_pg s \<Longrightarrow> row_locks t = row_locks s \<Longrightarrow> confirmed t = confirmed s \<Longrightarrow> Q () t"
    and "\<And>e t. pub_pg t = pub_pg s \<Longrightarrow> row_locks t = row_locks s \<Longrightarrow> confirmed t = confirmed s \<Longrightarrow> E e t"
  shows "wp connectRabbit Q E s"
  unfolding connectRabbit_def wp_simps
  by (auto intro!: assms wp_amqp_call)

lemma publish_wp:
  assumes "\<And>t. log_grows s t \<Longrightarrow> message_of row \<in> set (confirmed t) \<Longrightarrow> Q () t"
    and "\<And>e t. log_grows s t \<Longrightarrow> E e t"
  shows "wp (publish row) Q E s"
  unfolding publish_def wp_simps
  by (rule connectRabbit_wp) (auto intro!: wp_amqp_call assms simp: wp_simps log_grows_def)

section \<open>The delivery state of the rows\<close>

text \<open>
  A row may have moved on: still the same event, and published only if it was before or its
  message is in the log of the broker.
\<close>

definition row_progress :: "amqp_message list \<Rightarrow> outbox_row \<Rightarrow> outbox_row \<Rightarrow> bool" where
  "row_progress log a b \<longleftrightarrow>
     ob_id b = ob_id a \<and> ob_event_type b = ob_event_type a \<and> ob_aggregate_type b = ob_aggregate_type a \<and>
     ob_aggregate_id b = ob_aggregate_id a \<and> ob_payload b = ob_payload a \<and> ob_occurred_at b = ob_occurred_at a \<and>
     (ob_published_at b = ob_published_at a \<or> message_of a \<in> set log)"

definition progress :: "amqp_message list \<Rightarrow> database \<Rightarrow> database \<Rightarrow> bool" where
  "progress log d0 d \<longleftrightarrow>
     d = d0\<lparr>outbox_events := outbox_events d\<rparr> \<and> list_all2 (row_progress log) (outbox_events d0) (outbox_events d)"

lemma row_progress_refl [simp]: "row_progress log a a"
  by (simp add: row_progress_def)

lemma progress_refl [simp]: "progress log d d"
  by (simp add: progress_def list.rel_refl)

lemma progress_grows: "progress log d0 d \<Longrightarrow> progress (log @ newer) d0 d"
  unfolding progress_def by (auto simp: row_progress_def elim!: list_all2_mono)

lemma progress_links:
  assumes "progress log d0 d"
  shows "map event_link (outbox_events d) = map event_link (outbox_events d0)"
proof -
  have "list_all2 (row_progress log) (outbox_events d0) (outbox_events d)" using assms by (simp add: progress_def)
  then show ?thesis by (induction rule: list_all2_induct) (simp_all add: row_progress_def event_link_def)
qed

lemma progress_keeps_orders_ok:
  assumes "progress log d0 d" and "orders_ok d0"
  shows "orders_ok d"
proof (rule others_keep_orders_ok[OF assms(2)])
  obtain xs where "d = d0\<lparr>outbox_events := xs\<rparr>" using assms(1) unfolding progress_def by blast
  then show "orders d = orders d0" "order_events d = order_events d0" by simp_all
qed (rule progress_links[OF assms(1)])

text \<open>A row of the batch as the tables had it at the start.\<close>

definition known_row :: "database \<Rightarrow> outbox_row \<Rightarrow> bool" where
  "known_row d0 row \<longleftrightarrow> (\<exists>a\<in>set (outbox_events d0). ob_id a = ob_id row \<and> message_of a = message_of row)"

lemma update_progress:
  assumes prog: "progress log d0 d"
    and upd: "\<And>a b. a \<in> set (outbox_events d0) \<Longrightarrow> ob_id a = i \<Longrightarrow> row_progress log a b \<Longrightarrow> row_progress log a (f b)"
  shows "progress log d0 (update_outbox i f d)"
proof -
  have "list_all2 (row_progress log) (outbox_events d0) (outbox_events d)" using prog by (simp add: progress_def)
  then have "list_all2 (row_progress log) (outbox_events d0)
      (map (\<lambda>row. if ob_id row = i then f row else row) (outbox_events d))"
    unfolding list_all2_map2
  proof (rule list.rel_mono_strong)
    fix a b assume "a \<in> set (outbox_events d0)" and rel: "row_progress log a b"
    moreover from rel have "ob_id b = ob_id a" by (simp add: row_progress_def)
    ultimately show "row_progress log a (if ob_id b = i then f b else b)" using upd by simp
  qed
  moreover obtain xs where "d = d0\<lparr>outbox_events := xs\<rparr>" using prog unfolding progress_def by blast
  ultimately show ?thesis by (simp add: progress_def update_outbox_def)
qed

lemma mark_progress:
  assumes "progress log d0 d" and "distinct (map ob_id (outbox_events d0))" and "known_row d0 row"
    and "message_of row \<in> set log" and "mark_published (ob_id row) now d = Inr (u, d')"
  shows "progress log d0 d'"
proof -
  obtain a0 where a0: "a0 \<in> set (outbox_events d0)" "ob_id a0 = ob_id row" "message_of a0 = message_of row"
    using assms(3) by (auto simp: known_row_def)
  have "a = a0" if "a \<in> set (outbox_events d0)" "ob_id a = ob_id row" for a
    using assms(2) that a0 by (auto simp: distinct_map inj_on_def)
  with a0 assms(4) have "message_of a \<in> set log" if "a \<in> set (outbox_events d0)" "ob_id a = ob_id row" for a
    using that by metis
  then have "progress log d0 (update_outbox (ob_id row)
      (\<lambda>row. row\<lparr>ob_published_at := Some now, ob_last_error := None\<rparr>) d)"
    by (intro update_progress[OF assms(1)]) (simp add: row_progress_def)
  with assms(5) show ?thesis by (simp add: mark_published_def)
qed

lemma failure_progress:
  assumes "progress log d0 d" and "record_failure i n m b now d = Inr (u, d')"
  shows "progress log d0 d'"
proof -
  have "d' = update_outbox i (\<lambda>row. row\<lparr>ob_attempts := n, ob_last_error := Some m,
             ob_next_attempt_at := now + b * 1000\<rparr>) d"
    using assms(2) by (auto simp: record_failure_def split: if_splits)
  then show ?thesis using update_progress[OF assms(1)] by (simp add: row_progress_def)
qed

section \<open>The poll\<close>

text \<open>The state inside a poll that started on the tables \<open>d0\<close> with the log \<open>log0\<close>.\<close>

definition polling :: "database \<Rightarrow> int \<Rightarrow> amqp_message list \<Rightarrow> publisher \<Rightarrow> bool" where
  "polling d0 n log0 s \<longleftrightarrow>
     committed (pub_pg s) = d0 \<and> clients_out (pub_pg s) = n \<and> (\<exists>newer. confirmed s = log0 @ newer) \<and>
     (conn (pub_pg s) = Aborted \<or> (\<exists>d. conn (pub_pg s) = InTxn d \<and> progress (confirmed s) d0 d))"

lemma polling_grows: "polling d0 n log0 s \<Longrightarrow> log_grows s t \<Longrightarrow> polling d0 n log0 t"
  unfolding polling_def log_grows_def by (metis append_assoc progress_grows)

lemma wp_on_pub: "wp (on_pub f) Q E s = wp f (\<lambda>a w. Q a (s\<lparr>pub_pg := w\<rparr>)) (\<lambda>e w. E e (s\<lparr>pub_pg := w\<rparr>)) (pub_pg s)"
  by (simp add: wp_def on_pub_def split: prod.split sum.split)

lemma polling_same:
  "polling d0 n log0 s \<Longrightarrow> pg_same (pub_pg s) w \<Longrightarrow> conn w = Aborted \<Longrightarrow> polling d0 n log0 (s\<lparr>pub_pg := w\<rparr>)"
  by (auto simp: polling_def pg_same_def)

lemma polling_run:
  assumes "polling d0 n log0 s"
    and "\<And>now d a d'. progress (confirmed s) d0 d \<Longrightarrow> stmt now d = Inr (a, d') \<Longrightarrow> progress (confirmed s) d0 d'"
    and "\<And>a w. polling d0 n log0 (s\<lparr>pub_pg := w\<rparr>) \<Longrightarrow> Q a (s\<lparr>pub_pg := w\<rparr>)"
    and "\<And>e w. polling d0 n log0 (s\<lparr>pub_pg := w\<rparr>) \<Longrightarrow> E e (s\<lparr>pub_pg := w\<rparr>)"
  shows "wp (on_pub (pg_run stmt)) Q E s"
  unfolding wp_on_pub
proof (cases "conn (pub_pg s) = Aborted")
  case True
  show "wp (pg_run stmt) (\<lambda>a w. Q a (s\<lparr>pub_pg := w\<rparr>)) (\<lambda>e w. E e (s\<lparr>pub_pg := w\<rparr>)) (pub_pg s)"
    by (rule pg_run_aborted_rule[OF True]) (intro assms(4) polling_same[OF assms(1)])
next
  case False
  then obtain d where d: "conn (pub_pg s) = InTxn d" "progress (confirmed s) d0 d"
    using assms(1) by (auto simp: polling_def)
  show "wp (pg_run stmt) (\<lambda>a w. Q a (s\<lparr>pub_pg := w\<rparr>)) (\<lambda>e w. E e (s\<lparr>pub_pg := w\<rparr>)) (pub_pg s)"
  proof (rule pg_run_txn_rule[OF d(1)])
    fix a d' w assume "stmt (db_now (pub_pg s)) d = Inr (a, d')" "pg_same (pub_pg s) w" "conn w = InTxn d'"
    with assms(1) assms(2)[OF d(2)] show "Q a (s\<lparr>pub_pg := w\<rparr>)"
      by (intro assms(3)) (auto simp: polling_def pg_same_def)
  qed (intro assms(4) polling_same[OF assms(1)])
qed

lemma publish_rows_wp:
  assumes "distinct (map ob_id (outbox_events d0))" and "\<forall>row\<in>set rows. known_row d0 row"
    and "polling d0 n log0 s"
  shows "wp (publish_rows rows) (\<lambda>u. polling d0 n log0) (\<lambda>e. polling d0 n log0) s"
  using assms(2,3)
proof (induction rows arbitrary: s)
  case Nil
  then show ?case by (simp only: publish_rows.simps wp_return)
next
  case (Cons row rows)
  let ?P = "polling d0 n log0"
  have known: "known_row d0 row" and rest: "\<forall>row\<in>set rows. known_row d0 row" using Cons.prems(1) by simp_all
  have step: "wp (publish_rows rows) (\<lambda>u. ?P) (\<lambda>e. ?P) t" if "?P t" for t
    by (rule Cons.IH[OF rest that])
  have failed: "wp (on_pub (pg_run (record_failure (ob_id row) m e b)))
      (\<lambda>u. wp (publish_rows rows) (\<lambda>u. ?P) (\<lambda>e. ?P)) (\<lambda>e. ?P) t" if "?P t" for m e b t
    by (rule polling_run[OF that failure_progress]) (assumption | rule step)+
  show ?case
    unfolding publish_rows.simps wp_simps Let_def
  proof (rule publish_wp)
    fix e t assume "log_grows s t"
    then show "wp (on_pub (pg_run (record_failure (ob_id row) (ob_attempts row + 1) (err_message e)
        (backoffSeconds (ob_attempts row + 1))))) (\<lambda>u. wp (publish_rows rows) (\<lambda>u. ?P) (\<lambda>e. ?P)) (\<lambda>e. ?P) t"
      by (intro failed polling_grows[OF Cons.prems(2)])
  next
    fix t assume grows: "log_grows s t" and sent: "message_of row \<in> set (confirmed t)"
    show "wp (on_pub (pg_run (mark_published (ob_id row)))) (\<lambda>u. wp (publish_rows rows) (\<lambda>u. ?P) (\<lambda>e. ?P))
       (\<lambda>e. wp (on_pub (pg_run (record_failure (ob_id row) (ob_attempts row + 1) (err_message e)
        (backoffSeconds (ob_attempts row + 1))))) (\<lambda>u. wp (publish_rows rows) (\<lambda>u. ?P) (\<lambda>e. ?P)) (\<lambda>e. ?P)) t"
      by (rule polling_run[OF polling_grows[OF Cons.prems(2) grows] mark_progress[OF _ assms(1) known sent]])
        (assumption | rule step failed)+
  qed
qed

text \<open>The state between and after polls.\<close>

definition polled :: "database \<Rightarrow> int \<Rightarrow> amqp_message list \<Rightarrow> publisher \<Rightarrow> bool" where
  "polled d0 n log0 s \<longleftrightarrow> progress (confirmed s) d0 (committed (pub_pg s)) \<and> clients_out (pub_pg s) = n \<and>
     (\<exists>newer. confirmed s = log0 @ newer)"

lemma polling_polled: "polling d0 n log0 s \<Longrightarrow> polled d0 n log0 s"
  by (auto simp: polling_def polled_def)

lemma polled_same: "polled d0 n log0 s \<Longrightarrow> pg_same (pub_pg s) w \<Longrightarrow> polled d0 n log0 (s\<lparr>pub_pg := w\<rparr>)"
  by (auto simp: polled_def pg_same_def)

lemma commit_aborted_rule:
  assumes "conn w = Aborted" and "\<And>w'. pg_same w w' \<Longrightarrow> Q () w'" and "\<And>e w'. pg_same w w' \<Longrightarrow> E e w'"
  shows "wp pg_commit Q E w"
proof -
  obtain f w1 where f: "next_fate w = (f, w1)" by (cases "next_fate w")
  from next_fate_same[OF f] assms show ?thesis by (cases f) (simp_all add: wp_def pg_commit_def f)
qed

lemma commit_polling:
  assumes "polling d0 n log0 s"
  shows "wp (on_pub pg_commit) (\<lambda>u. polled d0 n log0) (\<lambda>e. polled d0 n log0) s"
  unfolding wp_on_pub
proof (cases "conn (pub_pg s) = Aborted")
  case True
  show "wp pg_commit (\<lambda>a w. polled d0 n log0 (s\<lparr>pub_pg := w\<rparr>)) (\<lambda>e w. polled d0 n log0 (s\<lparr>pub_pg := w\<rparr>)) (pub_pg s)"
    by (rule commit_aborted_rule[OF True]) (auto intro: polled_same polling_polled[OF assms])
next
  case False
  then obtain d where d: "conn (pub_pg s) = InTxn d" and prog: "progress (confirmed s) d0 d"
    and s: "committed (pub_pg s) = d0" "clients_out (pub_pg s) = n" "\<exists>newer. confirmed s = log0 @ newer"
    using assms by (auto simp: polling_def)
  show "wp pg_commit (\<lambda>a w. polled d0 n log0 (s\<lparr>pub_pg := w\<rparr>)) (\<lambda>e w. polled d0 n log0 (s\<lparr>pub_pg := w\<rparr>)) (pub_pg s)"
    by (rule pg_commit_rule[OF d]) (use prog s in \<open>auto simp: polled_def pg_same_def\<close>)
qed

lemma select_due_known:
  assumes "select_due locked b now d0 = Inr (rows, d)"
  shows "d = d0 \<and> (\<forall>row\<in>set rows. known_row d0 row)"
proof -
  have "set rows \<subseteq> set (outbox_events d0)" and "d = d0"
    using assms by (auto simp: select_due_def dest: in_set_takeD split: if_splits)
  then show ?thesis by (auto simp: known_row_def)
qed

lemma poll_txn_wp:
  assumes "distinct (map ob_id (outbox_events d0))" and "conn (pub_pg s) = Idle" and "committed (pub_pg s) = d0"
  shows "wp (poll_txn cfg) (\<lambda>u. polled d0 (clients_out (pub_pg s)) (confirmed s))
    (\<lambda>e. polled d0 (clients_out (pub_pg s)) (confirmed s)) s"
proof -
  let ?n = "clients_out (pub_pg s)" and ?log = "confirmed s"
  have start: "polled d0 ?n ?log s" using assms(3) by (simp add: polled_def)
  show ?thesis unfolding poll_txn_def wp_simps wp_on_pub[of pg_begin]
  proof (rule pg_begin_rule[OF assms(2)])
    fix e w assume "pg_same (pub_pg s) w"
    then show "polled d0 ?n ?log (s\<lparr>pub_pg := w\<rparr>)" by (rule polled_same[OF start])
  next
    fix w assume same: "pg_same (pub_pg s) w" and txn: "conn w = InTxn (committed (pub_pg s))"
    let ?s = "s\<lparr>pub_pg := w\<rparr>"
    show "wp (on_pub (pg_run (select_due (row_locks ?s) (pc_batchSize cfg))))
        (\<lambda>rows. wp (publish_rows rows) (\<lambda>u. wp (on_pub pg_commit) (\<lambda>u. polled d0 ?n ?log) (\<lambda>e. polled d0 ?n ?log))
           (\<lambda>e. polled d0 ?n ?log)) (\<lambda>e. polled d0 ?n ?log) ?s"
      unfolding wp_on_pub[of "pg_run _"]
    proof (rule pg_run_txn_rule[where d = d0])
      show "conn (pub_pg ?s) = InTxn d0" by (simp add: txn assms(3))
    next
      fix e w1 assume "pg_same (pub_pg ?s) w1"
      then have "pg_same (pub_pg s) w1" using same by (simp add: pg_same_def)
      then show "polled d0 ?n ?log (?s\<lparr>pub_pg := w1\<rparr>)" using polled_same[OF start] by simp
    next
      fix rows d' w1 assume sel: "select_due (row_locks ?s) (pc_batchSize cfg) (db_now (pub_pg ?s)) d0 = Inr (rows, d')"
        and same1: "pg_same (pub_pg ?s) w1" and txn1: "conn w1 = InTxn d'"
      have rows: "d' = d0" "\<forall>row\<in>set rows. known_row d0 row" using select_due_known[OF sel] by simp_all
      have "polling d0 ?n ?log (?s\<lparr>pub_pg := w1\<rparr>)"
        using same same1 txn1 rows(1) assms(3) by (simp add: polling_def pg_same_def)
      from publish_rows_wp[OF assms(1) rows(2) this]
      show "wp (publish_rows rows) (\<lambda>u. wp (on_pub pg_commit) (\<lambda>u. polled d0 ?n ?log) (\<lambda>e. polled d0 ?n ?log))
           (\<lambda>e. polled d0 ?n ?log) (?s\<lparr>pub_pg := w1\<rparr>)"
        by (rule wp_mono) (auto intro: commit_polling polling_polled)
    qed
  qed
qed

lemma pollOnce_wp:
  assumes "distinct (map ob_id (outbox_events (committed (pub_pg s))))"
  shows "wp (pollOnce cfg) (\<lambda>u. polled (committed (pub_pg s)) (clients_out (pub_pg s)) (confirmed s))
    (\<lambda>e. polled (committed (pub_pg s)) (clients_out (pub_pg s)) (confirmed s)) s"
proof -
  let ?d = "committed (pub_pg s)" and ?n = "clients_out (pub_pg s)" and ?log = "confirmed s"
  have gauge: "wp (io_catch refreshUnpublishedGauge (\<lambda>error. io_return ())) (\<lambda>u. Q) (\<lambda>e. Q) t"
    if "\<And>w g. pg_same (pub_pg t) w \<Longrightarrow> Q (t\<lparr>pub_pg := w, unpublishedGauge := g\<rparr>)"
      "\<And>w. pg_same (pub_pg t) w \<Longrightarrow> Q (t\<lparr>pub_pg := w\<rparr>)" for Q t
    unfolding refreshUnpublishedGauge_def wp_simps wp_on_pub
    by (rule pg_pool_read_rule) (use that in \<open>auto simp: count_unpublished_def\<close>)
  have finish: "wp (io_bind pub_release (\<lambda>u. io_catch refreshUnpublishedGauge (\<lambda>error. io_return ())))
      (\<lambda>u. polled ?d ?n ?log) (\<lambda>e. polled ?d ?n ?log) t" if "polled ?d (?n + 1) ?log t" for t
    unfolding pub_release_def wp_bind wp_modify
    by (rule gauge) (use that in \<open>auto simp: polled_def pg_same_def\<close>)
  show ?thesis unfolding pollOnce_def wp_bind wp_finally wp_catch wp_on_pub[of pg_connect]
  proof (rule pg_connect_rule)
    fix e w assume "pg_same (pub_pg s) w"
    then show "polled ?d ?n ?log (s\<lparr>pub_pg := w\<rparr>)" by (intro polled_same) (simp_all add: polled_def)
  next
    fix w assume w: "pg_same ((pub_pg s)\<lparr>clients_out := ?n + 1\<rparr>) w" "conn w = Idle"
    let ?s = "s\<lparr>pub_pg := w\<rparr>"
    have same: "committed (pub_pg ?s) = ?d" "clients_out (pub_pg ?s) = ?n + 1" "confirmed ?s = ?log"
      using w(1) by (simp_all add: pg_same_def)
    have txn: "wp (poll_txn cfg) (\<lambda>u. polled ?d (?n + 1) ?log) (\<lambda>e. polled ?d (?n + 1) ?log) ?s"
      using poll_txn_wp[of ?d ?s cfg] assms w(2) same by simp
    have rolled: "wp (on_pub pg_rollback) (\<lambda>u. polled ?d (?n + 1) ?log) (\<lambda>e. polled ?d (?n + 1) ?log) t"
      if "polled ?d (?n + 1) ?log t" for t
      unfolding wp_on_pub by (rule pg_rollback_rule) (auto intro: polled_same[OF that])
    have release: "wp pub_release (\<lambda>a. wp refreshUnpublishedGauge (\<lambda>u. polled ?d ?n ?log)
          (\<lambda>e. wp (io_return ()) (\<lambda>u. polled ?d ?n ?log) (\<lambda>e. polled ?d ?n ?log))) (\<lambda>e. polled ?d ?n ?log) t"
      if "polled ?d (?n + 1) ?log t" for t
      using finish[OF that] by (simp add: wp_bind wp_catch)
    show "wp (poll_txn cfg)
        (\<lambda>a. wp pub_release (\<lambda>a. wp refreshUnpublishedGauge (\<lambda>u. polled ?d ?n ?log)
          (\<lambda>e. wp (io_return ()) (\<lambda>u. polled ?d ?n ?log) (\<lambda>e. polled ?d ?n ?log))) (\<lambda>e. polled ?d ?n ?log))
        (\<lambda>e. wp (on_pub pg_rollback)
          (\<lambda>a. wp pub_release (\<lambda>a. wp refreshUnpublishedGauge (\<lambda>u. polled ?d ?n ?log)
            (\<lambda>e. wp (io_return ()) (\<lambda>u. polled ?d ?n ?log) (\<lambda>e. polled ?d ?n ?log))) (\<lambda>e. polled ?d ?n ?log))
          (\<lambda>e. wp pub_release (\<lambda>a. wp refreshUnpublishedGauge (\<lambda>u. polled ?d ?n ?log)
            (\<lambda>e. wp (io_return ()) (\<lambda>u. polled ?d ?n ?log) (\<lambda>e. polled ?d ?n ?log))) (\<lambda>e. polled ?d ?n ?log))) ?s"
      by (rule wp_mono[OF txn]) (auto intro: release wp_mono[OF rolled])
  qed
qed

section \<open>A poll in which nothing fails\<close>

definition published :: "int \<Rightarrow> string set \<Rightarrow> outbox_row \<Rightarrow> outbox_row" where
  "published now ids row = (if ob_id row \<in> ids then row\<lparr>ob_published_at := Some now, ob_last_error := None\<rparr> else row)"

definition due_batch :: "publisher_config \<Rightarrow> publisher \<Rightarrow> outbox_row list" where
  "due_batch cfg s = take (nat (pc_batchSize cfg)) (sort_key ob_occurred_at
     (filter (\<lambda>row. due (db_now (pub_pg s)) row \<and> ob_id row \<notin> set (row_locks s)) (outbox_events (committed (pub_pg s)))))"

text \<open>The publisher can work: an open channel or none yet, and no failures to come.\<close>

definition healthy :: "publisher \<Rightarrow> bool" where
  "healthy s \<longleftrightarrow> amqp_script s = [] \<and> pub_channel s \<noteq> Some False \<and> pg_script (pub_pg s) = []"

lemma publish_healthy:
  assumes "healthy s"
  shows "\<exists>t. publish row s = (Inr (), t) \<and> healthy t \<and> pub_pg t = pub_pg s \<and> row_locks t = row_locks s \<and>
    confirmed t = confirmed s @ [message_of row]"
  using assms
  by (cases "pub_channel s")
    (auto simp: healthy_def publish_def connectRabbit_def io_bind_apply amqp_call_def)

lemma on_pub_apply: "on_pub f s = (case f (pub_pg s) of (r, w) \<Rightarrow> (r, s\<lparr>pub_pg := w\<rparr>))"
  by (simp add: on_pub_def)

lemma mark_healthy:
  assumes "healthy s" and "conn (pub_pg s) = InTxn d"
  shows "on_pub (pg_run (mark_published i)) s = (Inr (), s\<lparr>pub_pg := (pub_pg s)\<lparr>conn :=
    InTxn (d\<lparr>outbox_events := map (published (db_now (pub_pg s)) {i}) (outbox_events d)\<rparr>)\<rparr>\<rparr>)"
  using assms
  by (simp add: on_pub_apply healthy_def pg_run_def next_fate_done mark_published_def update_outbox_def)
    (simp add: published_def[abs_def])

lemma published_compose:
  "map (published now A) (map (published now B) rows) = map (published now (A \<union> B)) rows"
  by (auto simp: published_def)

lemma publish_rows_healthy:
  assumes "healthy s" and "conn (pub_pg s) = InTxn d"
  shows "\<exists>t. publish_rows rows s = (Inr (), t) \<and> healthy t \<and> row_locks t = row_locks s \<and>
    pub_pg t = (pub_pg s)\<lparr>conn := InTxn (d\<lparr>outbox_events :=
      map (published (db_now (pub_pg s)) (ob_id ` set rows)) (outbox_events d)\<rparr>)\<rparr> \<and>
    confirmed t = confirmed s @ map message_of rows"
  using assms
proof (induction rows arbitrary: s d)
  case Nil
  have "map (published (db_now (pub_pg s)) {}) (outbox_events d) = outbox_events d"
    by (rule map_idI) (simp add: published_def)
  with Nil show ?case by (simp add: published_def)
next
  case (Cons row rows)
  obtain t where t: "publish row s = (Inr (), t)" "healthy t" "pub_pg t = pub_pg s" "row_locks t = row_locks s"
    "confirmed t = confirmed s @ [message_of row]" using publish_healthy[OF Cons.prems(1)] by blast
  let ?now = "db_now (pub_pg s)"
  let ?d1 = "d\<lparr>outbox_events := map (published ?now {ob_id row}) (outbox_events d)\<rparr>"
  let ?t1 = "t\<lparr>pub_pg := (pub_pg s)\<lparr>conn := InTxn ?d1\<rparr>\<rparr>"
  have mark: "on_pub (pg_run (mark_published (ob_id row))) t = (Inr (), ?t1)"
    using mark_healthy[OF t(2)] t(3) Cons.prems(2) by simp
  have "healthy ?t1" using t(2,3) by (simp add: healthy_def)
  then obtain u where u: "publish_rows rows ?t1 = (Inr (), u)" "healthy u" "row_locks u = row_locks ?t1"
    "pub_pg u = (pub_pg ?t1)\<lparr>conn := InTxn (?d1\<lparr>outbox_events :=
      map (published ?now (ob_id ` set rows)) (outbox_events ?d1)\<rparr>)\<rparr>"
    "confirmed u = confirmed ?t1 @ map message_of rows"
    using Cons.IH[of ?t1 ?d1] by auto
  have "map (published ?now (ob_id ` set rows)) (outbox_events ?d1) =
      map (published ?now (ob_id ` set (row # rows))) (outbox_events d)"
    using published_compose[of ?now "ob_id ` set rows" "{ob_id row}" "outbox_events d"] by simp
  with u t show ?case
    by (intro exI[of _ u]) (simp add: io_bind_apply io_catch_apply mark del: map_map)
qed

lemma poll_outcome:
  assumes "healthy s" and "0 \<le> pc_batchSize cfg"
  shows "\<exists>t. pollOnce cfg s = (Inr (), t) \<and>
    confirmed t = confirmed s @ map message_of (due_batch cfg s) \<and>
    committed (pub_pg t) = (committed (pub_pg s))\<lparr>outbox_events :=
      map (published (db_now (pub_pg s)) (ob_id ` set (due_batch cfg s))) (outbox_events (committed (pub_pg s)))\<rparr>"
proof -
  let ?w = "pub_pg s" and ?d = "committed (pub_pg s)"
  let ?s1 = "s\<lparr>pub_pg := ?w\<lparr>clients_out := clients_out ?w + 1, conn := InTxn ?d\<rparr>\<rparr>"
  have sel: "select_due (row_locks s) (pc_batchSize cfg) (db_now ?w) ?d = Inr (due_batch cfg s, ?d)"
    using assms(2) by (simp add: select_due_def due_batch_def)
  have "healthy ?s1" using assms(1) by (simp add: healthy_def)
  then obtain t where t: "publish_rows (due_batch cfg s) ?s1 = (Inr (), t)" "healthy t"
    "pub_pg t = (pub_pg ?s1)\<lparr>conn := InTxn (?d\<lparr>outbox_events :=
      map (published (db_now ?w) (ob_id ` set (due_batch cfg s))) (outbox_events ?d)\<rparr>)\<rparr>"
    "confirmed t = confirmed s @ map message_of (due_batch cfg s)"
    using publish_rows_healthy[of ?s1 ?d "due_batch cfg s"] by auto
  have script: "pg_script ?w = []" using assms(1) by (simp add: healthy_def)
  show ?thesis
    using script sel t
    by (simp add: pollOnce_def poll_txn_def io_bind_apply io_finally_apply io_catch_apply on_pub_apply
        pg_connect_def pg_begin_def pg_run_def pg_commit_def pg_pool_def next_fate_done pub_release_def
        refreshUnpublishedGauge_def count_unpublished_def)
qed

section \<open>Properties\<close>

text \<open>C37: Published means accepted: whatever fails, a poll leaves every table but the delivery state of the
  outbox as it was, keeps every event, and marks a row as published only if its message is in
  the log of what the broker accepted; the log only grows, and the connection goes back.\<close>

theorem published_only_if_accepted:
  assumes "distinct (map ob_id (outbox_events (committed (pub_pg s))))"
  shows "case pollOnce cfg s of (out, t) \<Rightarrow>
    progress (confirmed t) (committed (pub_pg s)) (committed (pub_pg t)) \<and>
    clients_out (pub_pg t) = clients_out (pub_pg s) \<and> (\<exists>newer. confirmed t = confirmed s @ newer)"
proof -
  obtain out t where run: "pollOnce cfg s = (out, t)" by (cases "pollOnce cfg s")
  show ?thesis using wp_outcome[OF pollOnce_wp[OF assms] run] by (cases out) (simp_all add: run polled_def)
qed

text \<open>When nothing fails, a poll delivers: the due, unlocked rows of the batch, oldest first, are accepted by
  the broker in that order, exactly they become published, and the poll ends without an error.\<close>

theorem poll_delivers_due_rows:
  assumes "healthy s" and "0 \<le> pc_batchSize cfg"
  shows "\<exists>t. pollOnce cfg s = (Inr (), t) \<and>
    confirmed t = confirmed s @ map message_of (due_batch cfg s) \<and>
    committed (pub_pg t) = (committed (pub_pg s))\<lparr>outbox_events :=
      map (published (db_now (pub_pg s)) (ob_id ` set (due_batch cfg s))) (outbox_events (committed (pub_pg s)))\<rparr>"
  by (rule poll_outcome[OF assms])

text \<open>A failed publication is not lost: the row stays unpublished, its attempts go up by one, and its next
  attempt is due between 1 and 60 seconds later, after \<open>min(2^attempts, 60)\<close> seconds.\<close>

theorem failed_row_is_rescheduled:
  assumes "publish row s = (Inl e, t)" and "conn (pub_pg t) = InTxn d" and "pg_script (pub_pg t) = []"
    and "int4_ok (ob_attempts row + 1)" and "text_ok (err_message e)"
  shows "\<exists>u. publish_rows [row] s = (Inr (), u) \<and> conn (pub_pg u) = InTxn (update_outbox (ob_id row)
      (\<lambda>r. r\<lparr>ob_attempts := ob_attempts row + 1, ob_last_error := Some (err_message e),
             ob_next_attempt_at := db_now (pub_pg t) + backoffSeconds (ob_attempts row + 1) * 1000\<rparr>) d) \<and>
    1 \<le> backoffSeconds (ob_attempts row + 1) \<and> backoffSeconds (ob_attempts row + 1) \<le> 60 \<and>
    (0 \<le> ob_attempts row \<longrightarrow> backoffSeconds (ob_attempts row + 1) = (if ob_attempts row < 5 then 2 ^ nat (ob_attempts row + 1) else 60))"
proof -
  have "(2::int) ^ nat (ob_attempts row + 1) \<le> 2 ^ 5" if "0 \<le> ob_attempts row" "ob_attempts row < 5"
    using that by (intro power_increasing) auto
  moreover have "(1::int) \<le> 2 ^ nat (ob_attempts row + 1)" by simp
  ultimately have "0 \<le> ob_attempts row \<longrightarrow> backoffSeconds (ob_attempts row + 1) =
      (if ob_attempts row < 5 then 2 ^ nat (ob_attempts row + 1) else 60)"
    by (auto simp: backoffSeconds_def min_def max_def not_less)
  moreover have "1 \<le> backoffSeconds (ob_attempts row + 1)" "backoffSeconds (ob_attempts row + 1) \<le> 60"
    by (simp_all add: backoffSeconds_def)
  moreover have "publish_rows [row] s = (Inr (), t\<lparr>pub_pg := (pub_pg t)\<lparr>conn := InTxn (update_outbox (ob_id row)
      (\<lambda>r. r\<lparr>ob_attempts := ob_attempts row + 1, ob_last_error := Some (err_message e),
             ob_next_attempt_at := db_now (pub_pg t) + backoffSeconds (ob_attempts row + 1) * 1000\<rparr>) d)\<rparr>\<rparr>)"
    using assms by (simp add: io_bind_apply io_catch_apply on_pub_apply pg_run_def next_fate_done record_failure_def Let_def)
  ultimately show ?thesis by simp
qed

text \<open>A poll that cannot get a connection from the pool is a rejected promise that nobody handles: the
  process ends, with the timer set for a next poll that never comes.\<close>

theorem poll_without_connection_crashes:
  assumes "pg_script (pub_pg s) = PgFail e b # fs"
  shows "pub_crashed (timer_fires cfg s) = Some e"
  using assms
  by (simp add: timer_fires_def pollOnce_def io_bind_apply on_pub_apply pg_connect_def next_fate_def)

section \<open>Witnesses\<close>

definition demo_event :: order_created_event where
  "demo_event = \<lparr>eventId = ''6f1c2d3e-0000-4000-8000-00000000000a'', orderId = ''6f1c2d3e-0000-4000-8000-000000000001'',
     occurredAt = ''2024-01-01T00:00:00.000Z'', correlationId = Some ''req-1''\<rparr>"

definition demo_outbox_row :: outbox_row where
  "demo_outbox_row = \<lparr>ob_id = eventId demo_event, ob_event_type = ''order.created'', ob_aggregate_type = ''order'',
     ob_aggregate_id = orderId demo_event, ob_payload = demo_event, ob_attempts = 0, ob_last_error = None,
     ob_next_attempt_at = 500, ob_occurred_at = 500, ob_published_at = None\<rparr>"

definition demo_outbox :: database where
  "demo_outbox = empty_database\<lparr>outbox_events := [demo_outbox_row]\<rparr>"

definition demo_pg :: "database pg_txn \<Rightarrow> pg_fate list \<Rightarrow> database pg_world" where
  "demo_pg c fates = \<lparr>committed = demo_outbox, conn = c, pg_script = fates, db_now = 1000, uuids_used = 0, clients_out = 0\<rparr>"

definition demo_publisher :: "database pg_txn \<Rightarrow> pg_fate list \<Rightarrow> amqp_fate list \<Rightarrow> publisher" where
  "demo_publisher c fates script = \<lparr>pub_pg = demo_pg c fates, pub_connection = False, pub_channel = None,
     pub_shuttingDown = False, pub_timer = False, pub_crashed = None, unpublishedGauge = 0,
     amqp_script = script, confirmed = [], row_locks = []\<rparr>"

definition demo_publisher_config :: publisher_config where
  "demo_publisher_config = \<lparr>pc_port = 3001, pc_databaseUrl = ''db'', pc_rabbitmqUrl = ''mq'', pc_exchange = ''orders'',
     pc_batchSize = 100, pc_pollIntervalMs = 1000\<rparr>"

lemmas demo_publisher_simps = demo_publisher_def demo_pg_def demo_outbox_def demo_outbox_row_def demo_publisher_config_def
  empty_database_def

text \<open>A poll whose COMMIT loses its answer after the broker accepted the message.\<close>

theorem published_only_if_accepted_witness:
  "case pollOnce demo_publisher_config (demo_publisher Idle [PgOk, PgOk, PgOk, PgOk, PgFail (JsError ''reset'' None) True] []) of
     (out, t) \<Rightarrow> progress (confirmed t) demo_outbox (committed (pub_pg t)) \<and> clients_out (pub_pg t) = 0"
proof -
  let ?s = "demo_publisher Idle [PgOk, PgOk, PgOk, PgOk, PgFail (JsError ''reset'' None) True] []"
  have start: "committed (pub_pg ?s) = demo_outbox" "clients_out (pub_pg ?s) = 0"
    by (simp_all add: demo_publisher_def demo_pg_def)
  have "distinct (map ob_id (outbox_events (committed (pub_pg ?s))))" unfolding start by (simp add: demo_outbox_def)
  from published_only_if_accepted[OF this, of demo_publisher_config] show ?thesis
    unfolding start by (rule case_prodE) simp
qed

theorem poll_delivers_due_rows_witness:
  "\<exists>t. pollOnce demo_publisher_config (demo_publisher Idle [] []) = (Inr (), t) \<and>
     confirmed t = [message_of demo_outbox_row] \<and>
     outbox_events (committed (pub_pg t)) = [demo_outbox_row\<lparr>ob_published_at := Some 1000\<rparr>]"
proof -
  have batch: "due_batch demo_publisher_config (demo_publisher Idle [] []) = [demo_outbox_row]"
    by (simp add: due_batch_def demo_publisher_simps due_def)
  have "healthy (demo_publisher Idle [] [])" "0 \<le> pc_batchSize demo_publisher_config"
    by (simp_all add: healthy_def demo_publisher_simps)
  from poll_delivers_due_rows[OF this] obtain t where t:
    "pollOnce demo_publisher_config (demo_publisher Idle [] []) = (Inr (), t)"
    "confirmed t = confirmed (demo_publisher Idle [] []) @ map message_of [demo_outbox_row]"
    "committed (pub_pg t) = (committed (pub_pg (demo_publisher Idle [] [])))\<lparr>outbox_events :=
      map (published (db_now (pub_pg (demo_publisher Idle [] []))) (ob_id ` set [demo_outbox_row]))
        (outbox_events (committed (pub_pg (demo_publisher Idle [] []))))\<rparr>"
    unfolding batch by blast
  then show ?thesis by (intro exI[of _ t]) (simp add: demo_publisher_simps published_def)
qed

theorem failed_row_is_rescheduled_witness:
  "\<exists>u. publish_rows [demo_outbox_row] (demo_publisher (InTxn demo_outbox) [] [AmqpFail (JsError ''refused'' None) False KeepsOpen]) = (Inr (), u) \<and>
     conn (pub_pg u) = InTxn (update_outbox (ob_id demo_outbox_row) (\<lambda>r. r\<lparr>ob_attempts := 1,
       ob_last_error := Some ''refused'', ob_next_attempt_at := 3000\<rparr>) demo_outbox)"
proof -
  let ?s = "demo_publisher (InTxn demo_outbox) [] [AmqpFail (JsError ''refused'' None) False KeepsOpen]"
  have "publish demo_outbox_row ?s = (Inl (JsError ''refused'' None), demo_publisher (InTxn demo_outbox) [] [])"
    by (simp add: publish_def connectRabbit_def io_bind_apply amqp_call_def lose_def demo_publisher_def)
  from failed_row_is_rescheduled[OF this, of demo_outbox] show ?thesis
    by (force simp: demo_publisher_def demo_pg_def demo_outbox_row_def int4_ok_def text_ok_def backoffSeconds_def)
qed

theorem poll_without_connection_crashes_witness:
  "pub_crashed (timer_fires demo_publisher_config (demo_publisher Idle [PgFail (JsError ''timeout'' None) False] [])) =
     Some (JsError ''timeout'' None)"
  by (rule poll_without_connection_crashes[where b = False and fs = "[]"]) (simp add: demo_publisher_def demo_pg_def)

end
