(* ===== verification/Worker_Laws.thy ===== *)
theory Worker_Laws
  imports Worker_Service Outbox_Laws
begin

text \<open>
  What the worker guarantees: it reads what the publisher sends, it acknowledges a message only
  when the event is recorded as processed or a copy went to the retry or dead-letter queue,
  it notifies once per event while the database works, and what is left of that when the
  database fails in between.
\<close>

section \<open>Parts of a delivery\<close>

lemma wp_on_wk: "wp (on_wk f) Q E s = wp f (\<lambda>a w. Q a (s\<lparr>wk_pg := w\<rparr>)) (\<lambda>e w. E e (s\<lparr>wk_pg := w\<rparr>)) (wk_pg s)"
  by (simp add: wp_def on_wk_def split: prod.split sum.split)

lemma wp_timeout:
  "wp (withProcessingTimeout cfg elapsed m) Q E =
    (if int elapsed < timer_ms (wc_processingTimeoutMs cfg) then wp m Q E
     else wp m (\<lambda>a. E (timed_out cfg)) (\<lambda>e. E (timed_out cfg)))"
  by (rule ext) (simp add: wp_def withProcessingTimeout_def split: prod.split sum.split)

definition recorded :: "order_created_event \<Rightarrow> database \<Rightarrow> bool" where
  "recorded event d \<longleftrightarrow> uuid_in (eventId event) \<in> pr_event_id ` set (processed_events d)"

lemma insert_processed_ok:
  assumes "insert_processed i et now d = Inr (n, d')"
  obtains (new) "n = 1" "uuid_in i \<notin> pr_event_id ` set (processed_events d)"
      "d' = d\<lparr>processed_events := processed_events d @ [\<lparr>pr_event_id = uuid_in i, pr_event_type = et,
              pr_processed_at = None, pr_expires_at = now + 24 * 3600000\<rparr>]\<rparr>"
    | (known) "n = 0" "uuid_in i \<in> pr_event_id ` set (processed_events d)" "d' = d"
  using assms by (auto simp: insert_processed_def split: if_splits)

lemma set_processed_ids:
  assumes "set_processed i now d = Inr (u, d')"
  shows "pr_event_id ` set (processed_events d') = pr_event_id ` set (processed_events d)"
proof -
  have "map pr_event_id (processed_events d') = map pr_event_id (processed_events d)"
    using assms by (auto simp: set_processed_def)
  then show ?thesis by (metis list.set_map)
qed

text \<open>What a delivery never touches while it processes an event.\<close>

definition aside :: "worker \<Rightarrow> worker \<Rightarrow> bool" where
  "aside s t \<longleftrightarrow> acked t = acked s \<and> sent t = sent s \<and> inFlight t = inFlight s"

lemma aside_refl [simp]: "aside s s"
  by (simp add: aside_def)

lemma aside_updates [simp]:
  "aside s (t\<lparr>wk_pg := w\<rparr>) = aside s t" "aside s (t\<lparr>notified := ns\<rparr>) = aside s t" "aside s (t\<lparr>wk_channel := c\<rparr>) = aside s t"
  by (simp_all add: aside_def)

lemma processEvent_wp:
  assumes "aside s0 s"
  shows "wp (processEvent event)
    (\<lambda>r t. aside s0 t \<and> wk_channel t = wk_channel s \<and> recorded event (committed (wk_pg t)))
    (\<lambda>e t. aside s0 t \<and> wk_channel t = wk_channel s) s"
  unfolding processEvent_def simulateNotificationWork_def wp_simps wp_on_wk
proof (rule pg_pool_rule, goal_cases)
  case (1 n d w)
  have d: "committed w = d" using 1(2) by (simp add: pg_same_def)
  show ?case using 1(1)
  proof (cases rule: insert_processed_ok)
    case new
    have kept: "aside s0 t \<and> wk_channel t = wk_channel s \<and> recorded event (committed (wk_pg t))"
      if "set_processed (eventId event) now (committed w) = Inr (a, d2)" "pg_same (w\<lparr>committed := d2\<rparr>) w2"
        "t = s\<lparr>wk_pg := w2, notified := ns\<rparr>" for now a d2 w2 t ns
      using set_processed_ids[OF that(1)] that(2,3) assms d new(3) by (simp add: recorded_def pg_same_def)
    show ?thesis unfolding new(1)
      by (simp add: wp_simps wp_on_wk) (intro pg_pool_rule, use assms kept in simp_all)
  next
    case known
    with 1(2) assms show ?thesis by (simp add: wp_simps pg_same_def recorded_def)
  qed
qed (use assms in simp_all)

section \<open>One delivery\<close>

lemma during_processing_wp: "wp (during_processing env) Q E s = Q () (s\<lparr>wk_channel := channel_after env (wk_channel s)\<rparr>)"
  by (simp add: during_processing_def wp_simps)

text \<open>The processing with its changes of the channel and the race against the timer.\<close>

lemma timed_processing_wp:
  "wp (withProcessingTimeout cfg n (io_finally (processEvent event) (during_processing env)))
    (\<lambda>r t. aside s t \<and> recorded event (committed (wk_pg t))) (\<lambda>e t. aside s t) s"
proof -
  have body: "wp (io_finally (processEvent event) (during_processing env))
      (\<lambda>r t. aside s t \<and> recorded event (committed (wk_pg t))) (\<lambda>e t. aside s t) s"
    unfolding wp_finally during_processing_wp
    by (rule wp_mono[OF processEvent_wp[of s]]) simp_all
  show ?thesis unfolding wp_timeout by (simp add: body) (blast intro: wp_mono[OF body])
qed

definition acknowledged :: "worker \<Rightarrow> delivery \<Rightarrow> worker \<Rightarrow> bool" where
  "acknowledged s dl t \<longleftrightarrow> inFlight t = inFlight s \<and> (\<exists>k. wk_channel t = Some k \<and> acked t = acked s @ [(k, dl_tag dl)])"

definition copied :: "worker_config \<Rightarrow> amqp_message \<Rightarrow> worker \<Rightarrow> worker \<Rightarrow> bool" where
  "copied cfg m s t \<longleftrightarrow> (\<exists>q e. q \<in> {retryQueue cfg, deadLetterQueue cfg} \<and>
     sent t = sent s @ [(q, m\<lparr>am_headers := next_headers (am_headers m) e\<rparr>)])"

lemma handle_body_wp:
  "wp (handle_body cfg env dl)
    (\<lambda>u t. acknowledged s dl t \<and> sent t = sent s \<and>
       (\<exists>event. parseEvent (dl_message dl) = Inr event \<and> recorded event (committed (wk_pg t))))
    (\<lambda>e t. aside s t) s"
proof (cases "parseEvent (dl_message dl)")
  case (Inl e)
  then show ?thesis by (simp add: handle_body_def wp_simps wp_lift_result)
next
  case (Inr event)
  show ?thesis unfolding handle_body_def wp_bind wp_lift_result channel_ack_def wp_get
    by (simp add: Inr, rule wp_mono[OF timed_processing_wp[of cfg "elapsed_ms env" event env s]])
      (auto simp: wp_simps acknowledged_def aside_def split: option.split)
qed

lemma requeue_wp:
  assumes "aside s t"
  shows "wp (requeueOrDeadLetter cfg dl e)
    (\<lambda>u v. (aside s v \<and> wk_channel v = None) \<or> (acknowledged s dl v \<and> copied cfg (dl_message dl) s v)) E t"
  using assms
  by (cases "wk_channel t")
    (auto simp: requeueOrDeadLetter_def wp_simps Let_def sendToQueue_def channel_ack_def acknowledged_def copied_def aside_def)

section \<open>A delivery when the database works\<close>

text \<open>
  The work ends before the timer, and the channel stays or is replaced by another one.
\<close>

definition on_time :: "worker_config \<Rightarrow> run_env \<Rightarrow> bool" where
  "on_time cfg env \<longleftrightarrow> int (elapsed_ms env) < timer_ms (wc_processingTimeoutMs cfg) \<and>
     (\<forall>c. channel_after env (Some c) \<noteq> None)"

definition processed_entry :: "order_created_event \<Rightarrow> int \<Rightarrow> processed_row" where
  "processed_entry event now = \<lparr>pr_event_id = uuid_in (eventId event), pr_event_type = ''order.created'',
     pr_processed_at = Some now, pr_expires_at = now + 24 * 3600000\<rparr>"

text \<open>What the handling of an event does to the tables and to the notifications.\<close>

definition effect_once :: "order_created_event \<Rightarrow> worker \<Rightarrow> worker \<Rightarrow> bool" where
  "effect_once event s t \<longleftrightarrow>
     (if recorded event (committed (wk_pg s)) then notified t = notified s \<and> wk_pg t = wk_pg s
      else notified t = notified s @ [event] \<and>
        wk_pg t = (wk_pg s)\<lparr>committed := (committed (wk_pg s))\<lparr>processed_events :=
          processed_events (committed (wk_pg s)) @ [processed_entry event (db_now (wk_pg s))]\<rparr>\<rparr>)"

lemma on_wk_apply: "on_wk f s = (case f (wk_pg s) of (r, w) \<Rightarrow> (r, s\<lparr>wk_pg := w\<rparr>))"
  by (simp add: on_wk_def)

lemma mark_last:
  assumes "x \<notin> pr_event_id ` set rows" and "pr_event_id r = x"
  shows "map (\<lambda>r. if pr_event_id r = x then f r else r) (rows @ [r]) = rows @ [f r]"
proof -
  have "map (\<lambda>r. if pr_event_id r = x then f r else r) rows = rows"
    using assms(1) by (intro map_idI) auto
  then show ?thesis using assms(2) by simp
qed

lemma processEvent_healthy:
  assumes "pg_script (wk_pg s) = []" and "orderIdParamsSchema (eventId event)"
  shows "\<exists>r t. processEvent event s = (Inr r, t) \<and> aside s t \<and> effect_once event s t \<and> wk_channel t = wk_channel s"
proof (cases "recorded event (committed (wk_pg s))")
  case True
  then show ?thesis using assms
    by (simp add: processEvent_def io_bind_apply on_wk_apply pg_pool_def next_fate_done insert_processed_def
        recorded_def effect_once_def)
next
  case False
  then have new: "uuid_in (eventId event) \<notin> pr_event_id ` set (processed_events (committed (wk_pg s)))"
    by (simp add: recorded_def)
  show ?thesis using assms new
    by (simp add: processEvent_def simulateNotificationWork_def io_bind_apply io_catch_apply on_wk_apply pg_pool_def
        next_fate_done insert_processed_def set_processed_def effect_once_def False processed_entry_def
        mark_last[OF new] del: map_append)
qed

lemma handleMessage_healthy:
  assumes "pg_script (wk_pg s) = []" and "wk_channel s = Some c" and "on_time cfg env"
    and "parseEvent (dl_message dl) = Inr event" and "orderIdParamsSchema (eventId event)"
  shows "\<exists>t k. handleMessage cfg env (Some dl) s = (Inr (), t) \<and> effect_once event s t \<and>
    acked t = acked s @ [(k, dl_tag dl)] \<and> sent t = sent s \<and> wk_channel t = Some k \<and> inFlight t = inFlight s"
proof -
  let ?s = "s\<lparr>inFlight := inFlight s + 1\<rparr>"
  obtain r t where t: "processEvent event ?s = (Inr r, t)" "aside ?s t" "effect_once event ?s t" "wk_channel t = Some c"
    using processEvent_healthy[of ?s event] assms(1,2,5) by auto
  obtain k where k: "channel_after env (Some c) = Some k" using assms(3) by (auto simp: on_time_def)
  let ?u = "t\<lparr>wk_channel := Some k, acked := acked t @ [(k, dl_tag dl)], inFlight := inFlight t - 1\<rparr>"
  have "handleMessage cfg env (Some dl) s = (Inr (), ?u)"
    using assms(2,3) t k
    by (simp add: handleMessage_def handle_body_def lift_result_def assms(4) io_bind_apply io_finally_apply
        io_catch_apply withProcessingTimeout_def during_processing_def on_time_def channel_ack_def)
  with t(2,3) show ?thesis by (intro exI[of _ ?u] exI[of _ k]) (simp add: aside_def effect_once_def)
qed

text \<open>Deliveries one after the other.\<close>

fun handle_all :: "worker_config \<Rightarrow> (run_env \<times> delivery) list \<Rightarrow> worker \<Rightarrow> worker" where
  "handle_all cfg [] s = s"
| "handle_all cfg ((env, dl) # ds) s = handle_all cfg ds (snd (handleMessage cfg env (Some dl) s))"

definition readable :: "worker_config \<Rightarrow> run_env \<times> delivery \<Rightarrow> bool" where
  "readable cfg d \<longleftrightarrow> on_time cfg (fst d) \<and>
     (\<exists>event. parseEvent (dl_message (snd d)) = Inr event \<and> orderIdParamsSchema (eventId event))"

definition delivered_id :: "run_env \<times> delivery \<Rightarrow> string" where
  "delivered_id d = (case parseEvent (dl_message (snd d)) of Inr event \<Rightarrow> uuid_in (eventId event) | Inl e \<Rightarrow> [])"

definition notified_id :: "order_created_event \<Rightarrow> string" where
  "notified_id event = uuid_in (eventId event)"

abbreviation known_ids :: "worker \<Rightarrow> string set" where
  "known_ids s \<equiv> pr_event_id ` set (processed_events (committed (wk_pg s)))"

lemma effect_once_ids:
  assumes "effect_once event s t"
  obtains (seen) "notified_id event \<in> known_ids s" "notified t = notified s" "known_ids t = known_ids s"
      "pg_script (wk_pg t) = pg_script (wk_pg s)"
    | (new) "notified_id event \<notin> known_ids s" "notified t = notified s @ [event]"
      "known_ids t = insert (notified_id event) (known_ids s)" "pg_script (wk_pg t) = pg_script (wk_pg s)"
proof (cases "recorded event (committed (wk_pg s))")
  case True
  with assms show ?thesis by (intro seen) (simp_all add: effect_once_def recorded_def notified_id_def)
next
  case False
  with assms show ?thesis
    by (intro new) (simp_all add: effect_once_def recorded_def notified_id_def processed_entry_def)
qed

lemma handle_all_once:
  assumes "list_all (readable cfg) ds" and "pg_script (wk_pg s) = []" and "wk_channel s \<noteq> None"
  shows "\<exists>events. notified (handle_all cfg ds s) = notified s @ events \<and> distinct (map notified_id events) \<and>
    notified_id ` set events = delivered_id ` set ds - known_ids s \<and>
    length (acked (handle_all cfg ds s)) = length (acked s) + length ds \<and> sent (handle_all cfg ds s) = sent s"
  using assms
proof (induction ds arbitrary: s)
  case Nil
  then show ?case by simp
next
  case (Cons d ds)
  obtain env dl where d: "d = (env, dl)" by (cases d)
  obtain event where event: "on_time cfg env" "parseEvent (dl_message dl) = Inr event" "orderIdParamsSchema (eventId event)"
    using Cons.prems(1) by (auto simp: d readable_def)
  obtain c where c: "wk_channel s = Some c" using Cons.prems(3) by auto
  obtain t k where t: "handleMessage cfg env (Some dl) s = (Inr (), t)" "effect_once event s t"
    "acked t = acked s @ [(k, dl_tag dl)]" "sent t = sent s" "wk_channel t = Some k"
    using handleMessage_healthy[OF Cons.prems(2) c event] by blast
  have id: "delivered_id d = notified_id event" by (simp add: delivered_id_def d event(2) notified_id_def)
  have script: "pg_script (wk_pg t) = []" using effect_once_ids[OF t(2)] Cons.prems(2) by metis
  obtain events where IH: "notified (handle_all cfg ds t) = notified t @ events" "distinct (map notified_id events)"
    "notified_id ` set events = delivered_id ` set ds - known_ids t"
    "length (acked (handle_all cfg ds t)) = length (acked t) + length ds" "sent (handle_all cfg ds t) = sent t"
    using Cons.IH[of t] Cons.prems(1) script t(5) by auto
  have run: "handle_all cfg (d # ds) s = handle_all cfg ds t" by (simp add: d t(1))
  show ?case using t(2)
  proof (cases rule: effect_once_ids)
    case seen
    then show ?thesis using IH t(3,4) by (intro exI[of _ events]) (auto simp: run id)
  next
    case new
    have "notified_id event \<notin> notified_id ` set events" using IH(3) new(3) by auto
    then show ?thesis using IH t(3,4) new by (intro exI[of _ "event # events"]) (auto simp: run id)
  qed
qed

section \<open>A delivery that fails\<close>

definition retry_copy :: "amqp_message \<Rightarrow> js_error \<Rightarrow> amqp_message" where
  "retry_copy m e = m\<lparr>am_headers := next_headers (am_headers m) (err_message e)\<rparr>"

definition retry_target :: "worker_config \<Rightarrow> amqp_message \<Rightarrow> string" where
  "retry_target cfg m = (case header_number (map_of (am_headers m) ''x-retry-count'') of
     None \<Rightarrow> retryQueue cfg
   | Some n \<Rightarrow> if wc_maxRetries cfg \<le> n then deadLetterQueue cfg else retryQueue cfg)"

lemma requeue_runs:
  assumes "wk_channel s = Some k"
  shows "requeueOrDeadLetter cfg dl e s =
    (Inr (), s\<lparr>sent := sent s @ [(retry_target cfg (dl_message dl), retry_copy (dl_message dl) e)],
       acked := acked s @ [(k, dl_tag dl)]\<rparr>)"
  using assms
  by (simp add: requeueOrDeadLetter_def Let_def io_bind_apply sendToQueue_def channel_ack_def retry_target_def
      retry_copy_def split: option.split)

lemma handleMessage_failed:
  assumes "wk_channel s = Some c" and "on_time cfg env" and "parseEvent (dl_message dl) = Inr event"
    and "processEvent event (s\<lparr>inFlight := inFlight s + 1\<rparr>) = (Inl e, t)"
    and "aside (s\<lparr>inFlight := inFlight s + 1\<rparr>) t" and "wk_channel t = Some c"
  shows "\<exists>k. handleMessage cfg env (Some dl) s = (Inr (), t\<lparr>wk_channel := Some k,
    sent := sent s @ [(retry_target cfg (dl_message dl), retry_copy (dl_message dl) e)],
    acked := acked s @ [(k, dl_tag dl)], inFlight := inFlight s\<rparr>)"
proof -
  obtain k where k: "channel_after env (Some c) = Some k" using assms(2) by (auto simp: on_time_def)
  show ?thesis using assms k
    by (intro exI[of _ k]) (simp add: handleMessage_def handle_body_def lift_result_def io_bind_apply io_finally_apply
        io_catch_apply withProcessingTimeout_def during_processing_def on_time_def requeue_runs aside_def)
qed

lemma handleMessage_unreadable:
  assumes "wk_channel s = Some c" and "parseEvent (dl_message dl) = Inl e"
  shows "handleMessage cfg env (Some dl) s = (Inr (), s\<lparr>
    sent := sent s @ [(retry_target cfg (dl_message dl), retry_copy (dl_message dl) e)],
    acked := acked s @ [(c, dl_tag dl)]\<rparr>)"
  using assms
  by (simp add: handleMessage_def handle_body_def lift_result_def io_bind_apply io_finally_apply io_catch_apply requeue_runs)

lemma parseEvent_content: "am_content m' = am_content m \<Longrightarrow> parseEvent m' = parseEvent m"
  by (simp add: parseEvent_def)

lemma filter_last: "x \<notin> pr_event_id ` set rows \<Longrightarrow> pr_event_id r = x \<Longrightarrow> filter (\<lambda>r. pr_event_id r \<noteq> x) (rows @ [r]) = rows"
  by (auto simp: filter_id_conv) (metis image_eqI)

section \<open>Messages of the publisher\<close>

lemma message_of_parses:
  "parseEvent (message_of row) = Inr (ob_payload row)"
proof -
  have content: "JSON_parse (am_content (message_of row)) = Some (event_json (ob_payload row))"
    by (simp add: message_of_def Let_def JSON_parse_stringify[OF event_json_wf])
  show ?thesis unfolding parseEvent_def content
    by (cases "correlationId (ob_payload row)") (simp_all add: event_json_def)
qed

section \<open>Properties\<close>

text \<open>The worker understands the publisher: the content of the message the publisher sends for an outbox
  row is read back as exactly the event of the row.\<close>

theorem worker_reads_published_event:
  "parseEvent (message_of row) = Inr (ob_payload row)"
  by (rule message_of_parses)

text \<open>No message is acknowledged without a reason, whatever the database, the timer and the connection do:
  the handler never throws and gives its in-flight count back, and either the channel is gone and
  nothing was acknowledged or sent, or the message is acknowledged once and its event is in
  \<open>processed_events\<close>, or it is acknowledged once after a copy with the retry headers went to
  the retry or the dead-letter queue.\<close>

theorem every_ack_is_accounted_for:
  assumes "wk_channel s \<noteq> None"
  shows "case handleMessage cfg env (Some dl) s of (out, t) \<Rightarrow>
    out = Inr () \<and> inFlight t = inFlight s \<and>
    ((wk_channel t = None \<and> acked t = acked s \<and> sent t = sent s) \<or>
     (\<exists>k. wk_channel t = Some k \<and> acked t = acked s @ [(k, dl_tag dl)] \<and>
       ((sent t = sent s \<and> (\<exists>event. parseEvent (dl_message dl) = Inr event \<and> recorded event (committed (wk_pg t)))) \<or>
        copied cfg (dl_message dl) s t)))"
proof -
  let ?s = "s\<lparr>inFlight := inFlight s + 1\<rparr>"
  let ?P = "\<lambda>t. (aside ?s t \<and> wk_channel t = None) \<or> (acknowledged ?s dl t \<and>
       ((sent t = sent s \<and> (\<exists>event. parseEvent (dl_message dl) = Inr event \<and> recorded event (committed (wk_pg t)))) \<or>
        copied cfg (dl_message dl) s t))"
  have handled: "wp (io_catch (handle_body cfg env dl) (\<lambda>error. requeueOrDeadLetter cfg dl error)) (\<lambda>u. ?P) (\<lambda>e t. False) ?s"
    unfolding wp_catch
    by (rule wp_mono[OF handle_body_wp], simp, rule wp_mono[OF requeue_wp], assumption)
      (auto simp: copied_def acknowledged_def)
  obtain out t where run: "io_catch (handle_body cfg env dl) (\<lambda>error. requeueOrDeadLetter cfg dl error) ?s = (out, t)"
    by (cases "io_catch (handle_body cfg env dl) (\<lambda>error. requeueOrDeadLetter cfg dl error) ?s")
  have out: "out = Inr ()" and t: "?P t" using wp_outcome[OF handled run] by (auto split: sum.splits)
  have "handleMessage cfg env (Some dl) s = (Inr (), t\<lparr>inFlight := inFlight t - 1\<rparr>)"
    using assms run out by (auto simp: handleMessage_def io_bind_apply io_finally_apply)
  with t show ?thesis by (auto simp: aside_def acknowledged_def copied_def)
qed

text \<open>Each event is notified once while the database works and the work ends in time: over any sequence of
  readable deliveries, with repetitions, every delivery is acknowledged and none goes to another
  queue; exactly the delivered events that were not recorded before are notified, each once.\<close>

theorem each_event_notified_once:
  assumes "list_all (readable cfg) ds" and "pg_script (wk_pg s) = []" and "wk_channel s \<noteq> None"
  shows "\<exists>events. notified (handle_all cfg ds s) = notified s @ events \<and> distinct (map notified_id events) \<and>
    notified_id ` set events = delivered_id ` set ds - known_ids s \<and>
    length (acked (handle_all cfg ds s)) = length (acked s) + length ds \<and> sent (handle_all cfg ds s) = sent s"
  by (rule handle_all_once[OF assms])

text \<open>An event can be lost without a notification: if the answer to the INSERT is lost after it took
  effect, the handler never notifies, sends the message to the retry queue, and every later
  delivery of its content is taken for a duplicate and acknowledged.\<close>

theorem lost_insert_answer_loses_event:
  assumes "pg_script (wk_pg s) = [PgFail e True]" and "wk_channel s \<noteq> None" and "on_time cfg env" and "on_time cfg env'"
    and "parseEvent (dl_message dl) = Inr event" and "orderIdParamsSchema (eventId event)"
    and "notified_id event \<notin> known_ids s"
  shows "\<exists>t. handleMessage cfg env (Some dl) s = (Inr (), t) \<and> notified t = notified s \<and>
    sent t = sent s @ [(retry_target cfg (dl_message dl), retry_copy (dl_message dl) e)] \<and>
    (\<forall>dl'. am_content (dl_message dl') = am_content (dl_message dl) \<longrightarrow>
      (\<exists>u k. handleMessage cfg env' (Some dl') t = (Inr (), u) \<and> notified u = notified s \<and>
         acked u = acked t @ [(k, dl_tag dl')] \<and> sent u = sent t))"
proof -
  let ?w = "wk_pg s" and ?s = "s\<lparr>inFlight := inFlight s + 1\<rparr>"
  obtain c where c: "wk_channel s = Some c" using assms(2) by auto
  define w where "w = ?w\<lparr>pg_script := [], committed := (committed ?w)\<lparr>processed_events :=
    processed_events (committed ?w) @ [\<lparr>pr_event_id = uuid_in (eventId event), pr_event_type = ''order.created'',
      pr_processed_at = None, pr_expires_at = db_now ?w + 24 * 3600000\<rparr>]\<rparr>\<rparr>"
  have run: "processEvent event ?s = (Inl e, ?s\<lparr>wk_pg := w\<rparr>)"
    using assms(1,6,7) by (simp add: processEvent_def io_bind_apply on_wk_apply pg_pool_def next_fate_def
        insert_processed_def notified_id_def w_def)
  obtain k where t: "handleMessage cfg env (Some dl) s = (Inr (), ?s\<lparr>wk_pg := w, wk_channel := Some k,
      sent := sent s @ [(retry_target cfg (dl_message dl), retry_copy (dl_message dl) e)],
      acked := acked s @ [(k, dl_tag dl)], inFlight := inFlight s\<rparr>)" (is "_ = (Inr (), ?t)")
    using handleMessage_failed[OF c assms(3,5) run] c by auto
  have seen: "recorded event (committed (wk_pg ?t))" and script: "pg_script (wk_pg ?t) = []"
    by (simp_all add: recorded_def w_def)
  have "\<exists>u k'. handleMessage cfg env' (Some dl') ?t = (Inr (), u) \<and> notified u = notified s \<and>
      acked u = acked ?t @ [(k', dl_tag dl')] \<and> sent u = sent ?t"
    if "am_content (dl_message dl') = am_content (dl_message dl)" for dl'
  proof -
    have "parseEvent (dl_message dl') = Inr event" using parseEvent_content[OF that] assms(5) by simp
    from handleMessage_healthy[OF script _ assms(4) this assms(6), of k] obtain u k' where
      "handleMessage cfg env' (Some dl') ?t = (Inr (), u)" "effect_once event ?t u"
      "acked u = acked ?t @ [(k', dl_tag dl')]" "sent u = sent ?t" by auto
    then show ?thesis using seen by (intro exI[of _ u] exI[of _ k']) (simp add: effect_once_def)
  qed
  with t show ?thesis by (intro exI[of _ ?t]) simp
qed

text \<open>An event can be notified twice: if the UPDATE after the work fails, its claim is deleted and the
  message goes to the retry queue, and the next delivery of its content notifies again.\<close>

theorem failed_update_repeats_notification:
  assumes "pg_script (wk_pg s) = [PgOk, PgFail e applied]" and "wk_channel s \<noteq> None" and "on_time cfg env" and "on_time cfg env'"
    and "parseEvent (dl_message dl) = Inr event" and "orderIdParamsSchema (eventId event)"
    and "notified_id event \<notin> known_ids s"
  shows "\<exists>t. handleMessage cfg env (Some dl) s = (Inr (), t) \<and> notified t = notified s @ [event] \<and>
    sent t = sent s @ [(retry_target cfg (dl_message dl), retry_copy (dl_message dl) e)] \<and>
    (\<forall>dl'. am_content (dl_message dl') = am_content (dl_message dl) \<longrightarrow>
      (\<exists>u. handleMessage cfg env' (Some dl') t = (Inr (), u) \<and> notified u = notified s @ [event, event]))"
proof -
  let ?w = "wk_pg s" and ?s = "s\<lparr>inFlight := inFlight s + 1\<rparr>"
  obtain c where c: "wk_channel s = Some c" using assms(2) by auto
  have new: "uuid_in (eventId event) \<notin> pr_event_id ` set (processed_events (committed ?w))"
    using assms(7) by (simp add: notified_id_def)
  have run: "processEvent event ?s = (Inl e, ?s\<lparr>notified := notified s @ [event], wk_pg := ?w\<lparr>pg_script := []\<rparr>\<rparr>)"
    using assms(1,6) new
    by (cases applied) (simp_all add: processEvent_def simulateNotificationWork_def io_bind_apply io_catch_apply on_wk_apply
        pg_pool_def next_fate_def insert_processed_def set_processed_def delete_processed_def mark_last[OF new]
        filter_last[OF new] del: map_append filter_append)
  obtain k where t: "handleMessage cfg env (Some dl) s = (Inr (), ?s\<lparr>notified := notified s @ [event],
      wk_pg := ?w\<lparr>pg_script := []\<rparr>, wk_channel := Some k,
      sent := sent s @ [(retry_target cfg (dl_message dl), retry_copy (dl_message dl) e)],
      acked := acked s @ [(k, dl_tag dl)], inFlight := inFlight s\<rparr>)" (is "_ = (Inr (), ?t)")
    using handleMessage_failed[OF c assms(3,5) run] c by auto
  have "\<exists>u. handleMessage cfg env' (Some dl') ?t = (Inr (), u) \<and> notified u = notified s @ [event, event]"
    if "am_content (dl_message dl') = am_content (dl_message dl)" for dl'
  proof -
    have "parseEvent (dl_message dl') = Inr event" using parseEvent_content[OF that] assms(5) by simp
    from handleMessage_healthy[OF _ _ assms(4) this assms(6), of ?t k] obtain u where
      "handleMessage cfg env' (Some dl') ?t = (Inr (), u)" "effect_once event ?t u" by auto
    then show ?thesis using new by (intro exI[of _ u]) (simp add: effect_once_def recorded_def)
  qed
  with t show ?thesis by (intro exI[of _ ?t]) simp
qed

section \<open>Witnesses\<close>

definition demo_worker_config :: worker_config where
  "demo_worker_config = \<lparr>wc_port = 3002, wc_databaseUrl = ''db'', wc_rabbitmqUrl = ''mq'', wc_exchange = ''orders'',
     wc_queue = ''order.created'', wc_processingTimeoutMs = 30000, wc_retryDelayMs = 5000, wc_prefetch = 20, wc_maxRetries = 3\<rparr>"

definition demo_worker :: "pg_fate list \<Rightarrow> worker" where
  "demo_worker fates = \<lparr>wk_pg = \<lparr>committed = empty_database, conn = Idle, pg_script = fates, db_now = 1000,
       uuids_used = 0, clients_out = 0\<rparr>, wk_channel = Some 0, wk_channels_made = 1, wk_consumerTag = True,
     wk_shuttingDown = False, inFlight = 0, wk_script = [], notified = [], acked = [], sent = [], delays = []\<rparr>"

definition demo_env :: run_env where
  "demo_env = \<lparr>elapsed_ms = 10, channel_after = (\<lambda>c. c)\<rparr>"

definition demo_delivery :: "nat \<Rightarrow> delivery" where
  "demo_delivery n = \<lparr>dl_channel = 0, dl_tag = n, dl_message = message_of demo_outbox_row\<rparr>"

lemma demo_parse: "parseEvent (dl_message (demo_delivery n)) = Inr demo_event"
  using message_of_parses[of demo_outbox_row] by (simp add: demo_delivery_def demo_outbox_row_def)

lemma demo_uuid_ok: "orderIdParamsSchema (eventId demo_event)"
  by (simp add: demo_event_def orderIdParamsSchema_def is_hex_def)

lemma demo_on_time: "on_time demo_worker_config demo_env"
  by (simp add: on_time_def demo_worker_config_def demo_env_def timer_ms_def)

lemma demo_worker_start [simp]:
  "wk_channel (demo_worker fates) = Some 0" "pg_script (wk_pg (demo_worker fates)) = fates"
  "known_ids (demo_worker fates) = {}" "notified (demo_worker fates) = []" "sent (demo_worker fates) = []"
  "acked (demo_worker fates) = []"
  by (simp_all add: demo_worker_def empty_database_def)

theorem every_ack_is_accounted_for_witness:
  "fst (handleMessage demo_worker_config demo_env (Some (demo_delivery 7)) (demo_worker [PgFail (JsError ''down'' None) False])) = Inr ()"
  using every_ack_is_accounted_for[where s = "demo_worker [PgFail (JsError ''down'' None) False]" and cfg = demo_worker_config
    and env = demo_env and dl = "demo_delivery 7"]
  by (auto simp: case_prod_unfold)

theorem each_event_notified_once_witness:
  "\<exists>events. notified (handle_all demo_worker_config [(demo_env, demo_delivery 1), (demo_env, demo_delivery 2)] (demo_worker [])) = events \<and>
     distinct (map notified_id events) \<and> notified_id ` set events = {notified_id demo_event}"
proof -
  have "list_all (readable demo_worker_config) [(demo_env, demo_delivery 1), (demo_env, demo_delivery 2)]"
    by (simp add: readable_def demo_on_time demo_parse demo_uuid_ok)
  from each_event_notified_once[OF this, of "demo_worker []"] show ?thesis
    by (simp add: delivered_id_def demo_parse notified_id_def)
qed

theorem lost_insert_answer_loses_event_witness:
  "\<exists>t. handleMessage demo_worker_config demo_env (Some (demo_delivery 1)) (demo_worker [PgFail (JsError ''reset'' None) True]) = (Inr (), t) \<and>
     notified t = [] \<and> (\<exists>u. handleMessage demo_worker_config demo_env (Some (demo_delivery 2)) t = (Inr (), u) \<and> notified u = [])"
proof -
  have same: "am_content (dl_message (demo_delivery 2)) = am_content (dl_message (demo_delivery 1))"
    by (simp add: demo_delivery_def)
  have "pg_script (wk_pg (demo_worker [PgFail (JsError ''reset'' None) True])) = [PgFail (JsError ''reset'' None) True]"
    "wk_channel (demo_worker [PgFail (JsError ''reset'' None) True]) \<noteq> None"
    "notified_id demo_event \<notin> known_ids (demo_worker [PgFail (JsError ''reset'' None) True])" by simp_all
  from lost_insert_answer_loses_event[OF this(1,2) demo_on_time demo_on_time demo_parse demo_uuid_ok this(3), of 1]
  obtain t where "handleMessage demo_worker_config demo_env (Some (demo_delivery 1)) (demo_worker [PgFail (JsError ''reset'' None) True]) = (Inr (), t)"
    "notified t = notified (demo_worker [PgFail (JsError ''reset'' None) True])"
    "\<forall>dl'. am_content (dl_message dl') = am_content (dl_message (demo_delivery 1)) \<longrightarrow>
      (\<exists>u k. handleMessage demo_worker_config demo_env (Some dl') t = (Inr (), u) \<and>
         notified u = notified (demo_worker [PgFail (JsError ''reset'' None) True]) \<and>
         acked u = acked t @ [(k, dl_tag dl')] \<and> sent u = sent t)" by blast
  with same show ?thesis by (metis demo_worker_start(4))
qed

theorem failed_update_repeats_notification_witness:
  "\<exists>t. handleMessage demo_worker_config demo_env (Some (demo_delivery 1)) (demo_worker [PgOk, PgFail (JsError ''reset'' None) False]) = (Inr (), t) \<and>
     notified t = [demo_event] \<and>
     (\<exists>u. handleMessage demo_worker_config demo_env (Some (demo_delivery 2)) t = (Inr (), u) \<and> notified u = [demo_event, demo_event])"
proof -
  let ?s = "demo_worker [PgOk, PgFail (JsError ''reset'' None) False]"
  have same: "am_content (dl_message (demo_delivery 2)) = am_content (dl_message (demo_delivery 1))"
    by (simp add: demo_delivery_def)
  have "pg_script (wk_pg ?s) = [PgOk, PgFail (JsError ''reset'' None) False]" "wk_channel ?s \<noteq> None"
    "notified_id demo_event \<notin> known_ids ?s" by simp_all
  from failed_update_repeats_notification[OF this(1,2) demo_on_time demo_on_time demo_parse demo_uuid_ok this(3), of 1]
  obtain t where "handleMessage demo_worker_config demo_env (Some (demo_delivery 1)) ?s = (Inr (), t)"
    "notified t = notified ?s @ [demo_event]"
    "\<forall>dl'. am_content (dl_message dl') = am_content (dl_message (demo_delivery 1)) \<longrightarrow>
      (\<exists>u. handleMessage demo_worker_config demo_env (Some dl') t = (Inr (), u) \<and>
         notified u = notified ?s @ [demo_event, demo_event])" by blast
  with same show ?thesis by (metis demo_worker_start(4) append_Nil)
qed

end
