(* ===== verification/Delivery_Pipeline.thy ===== *)
theory Delivery_Pipeline
  imports Worker_Laws
begin

text \<open>
  The way of a message through the queues \<open>setupRabbit\<close> declares: the consumed queue, the retry
  queue, which gives a message back to the consumed queue when its time to live is over, and
  the dead-letter queue. And the loop that connects the worker again.
\<close>

section \<open>Retries\<close>

text \<open>
  \<open>returned\<close> is what the broker makes of a message it takes from the retry queue and routes back
  (it adds headers of its own).
\<close>

definition deliver :: "worker_config \<Rightarrow> run_env \<Rightarrow> amqp_message \<Rightarrow> worker \<Rightarrow> worker" where
  "deliver cfg env m s = snd (handleMessage cfg env
     (Some \<lparr>dl_channel = (case wk_channel s of None \<Rightarrow> 0 | Some c \<Rightarrow> c), dl_tag = length (acked s), dl_message = m\<rparr>) s)"

fun deliveries :: "worker_config \<Rightarrow> run_env \<Rightarrow> (amqp_message \<Rightarrow> amqp_message) \<Rightarrow> nat \<Rightarrow> amqp_message \<Rightarrow> worker \<Rightarrow> worker" where
  "deliveries cfg env returned 0 m s = s"
| "deliveries cfg env returned (Suc n) m s =
     (let t = deliver cfg env m s in
      if sent t \<noteq> sent s \<and> fst (last (sent t)) = retryQueue cfg
      then deliveries cfg env returned n (returned (snd (last (sent t)))) t
      else t)"

definition retry_count :: "amqp_message \<Rightarrow> int option" where
  "retry_count m = header_number (map_of (am_headers m) ''x-retry-count'')"

definition keeps_message :: "(amqp_message \<Rightarrow> amqp_message) \<Rightarrow> bool" where
  "keeps_message returned \<longleftrightarrow> (\<forall>m. am_content (returned m) = am_content m \<and>
     map_of (am_headers (returned m)) ''x-retry-count'' = map_of (am_headers m) ''x-retry-count'')"

lemma queues_differ [simp]: "deadLetterQueue cfg \<noteq> retryQueue cfg"
  by (simp add: deadLetterQueue_def retryQueue_def)

lemma map_of_obj_put: "map_of (obj_put k v kvs) k' = (if k' = k then Some v else map_of kvs k')"
  by (induction k v kvs rule: obj_put.induct) auto

lemma retry_count_copy:
  "retry_count m = Some n \<Longrightarrow> retry_count (retry_copy m e) = Some (n + 1)"
  by (simp add: retry_count_def retry_copy_def next_headers_def map_of_obj_put number_json_def header_number_def)

lemma retry_target_count:
  "retry_count m = Some n \<Longrightarrow>
    retry_target cfg m = (if wc_maxRetries cfg \<le> n then deadLetterQueue cfg else retryQueue cfg)"
  by (simp add: retry_target_def retry_count_def)

lemma poison_chain:
  assumes "keeps_message returned" and "parseEvent m = Inl e" and "retry_count m = Some n"
    and "n \<le> wc_maxRetries cfg" and "wk_channel s = Some c" and "nat (wc_maxRetries cfg - n) < fuel"
  shows "\<exists>copies. sent (deliveries cfg env returned fuel m s) = sent s @ copies \<and>
    map fst copies = replicate (nat (wc_maxRetries cfg - n)) (retryQueue cfg) @ [deadLetterQueue cfg] \<and>
    (\<forall>q\<in>set copies. am_content (snd q) = am_content m) \<and>
    retry_count (snd (last copies)) = Some (wc_maxRetries cfg + 1) \<and>
    length (acked (deliveries cfg env returned fuel m s)) = length (acked s) + length copies \<and>
    notified (deliveries cfg env returned fuel m s) = notified s \<and> wk_pg (deliveries cfg env returned fuel m s) = wk_pg s"
  using assms
proof (induction fuel arbitrary: m n s)
  case 0
  then show ?case by simp
next
  case (Suc fuel)
  let ?m = "retry_copy m e"
  define t where "t = deliver cfg env m s"
  have t: "t = s\<lparr>sent := sent s @ [(retry_target cfg m, ?m)], acked := acked s @ [(c, length (acked s))]\<rparr>"
    by (simp add: t_def deliver_def handleMessage_unreadable[where e = e] Suc.prems(2,5))
  have next_count: "retry_count ?m = Some (n + 1)" by (rule retry_count_copy[OF Suc.prems(3)])
  have content: "am_content ?m = am_content m" by (simp add: retry_copy_def)
  show ?case
  proof (cases "wc_maxRetries cfg \<le> n")
    case True
    with Suc.prems(4) have "n = wc_maxRetries cfg" by simp
    then show ?thesis using next_count content
      by (simp add: Let_def t_def[symmetric], simp add: t retry_target_count[OF Suc.prems(3)])
  next
    case False
    then have target: "retry_target cfg m = retryQueue cfg" by (simp add: retry_target_count[OF Suc.prems(3)])
    have run: "deliveries cfg env returned (Suc fuel) m s = deliveries cfg env returned fuel (returned ?m) t"
      by (simp add: Let_def t_def[symmetric], simp add: t target)
    have "parseEvent (returned ?m) = Inl e" "retry_count (returned ?m) = Some (n + 1)" "wk_channel t = Some c"
      and content': "am_content (returned ?m) = am_content m"
      using Suc.prems(1,2,5) parseEvent_content[of "returned ?m" m] next_count content
      by (simp_all add: keeps_message_def retry_count_def t)
    moreover have "n + 1 \<le> wc_maxRetries cfg" "nat (wc_maxRetries cfg - (n + 1)) < fuel" using False Suc.prems(6) by auto
    ultimately obtain copies where copies:
      "sent (deliveries cfg env returned fuel (returned ?m) t) = sent t @ copies"
      "map fst copies = replicate (nat (wc_maxRetries cfg - (n + 1))) (retryQueue cfg) @ [deadLetterQueue cfg]"
      "\<forall>q\<in>set copies. am_content (snd q) = am_content (returned ?m)"
      "retry_count (snd (last copies)) = Some (wc_maxRetries cfg + 1)"
      "length (acked (deliveries cfg env returned fuel (returned ?m) t)) = length (acked t) + length copies"
      "notified (deliveries cfg env returned fuel (returned ?m) t) = notified t"
      "wk_pg (deliveries cfg env returned fuel (returned ?m) t) = wk_pg t"
      using Suc.IH[OF Suc.prems(1), of "returned ?m" "n + 1" t] by blast
    have more: "nat (wc_maxRetries cfg - n) = Suc (nat (wc_maxRetries cfg - (n + 1)))" using False by simp
    have "copies \<noteq> []" using copies(2) by auto
    then show ?thesis unfolding run using copies content content'
      by (intro exI[of _ "(retryQueue cfg, ?m) # copies"]) (simp add: t target more)
  qed
qed

section \<open>Reconnecting\<close>

text \<open>Calls to the broker only use up the script.\<close>

definition called :: "worker \<Rightarrow> worker \<Rightarrow> bool" where
  "called s t \<longleftrightarrow> length (wk_script t) \<le> length (wk_script s) \<and> delays t = delays s \<and> wk_shuttingDown t = wk_shuttingDown s"

lemma called_refl [simp]: "called s s"
  by (simp add: called_def)

lemma called_trans: "called s t \<Longrightarrow> called t u \<Longrightarrow> called s u"
  by (simp add: called_def)

lemma called_updates [simp]:
  "called s (t\<lparr>wk_channel := c\<rparr>) = called s t" "called s (t\<lparr>wk_channels_made := n\<rparr>) = called s t"
  "called s (t\<lparr>wk_consumerTag := b\<rparr>) = called s t"
  by (simp_all add: called_def)

definition spent :: "worker \<Rightarrow> worker \<Rightarrow> bool" where
  "spent s t \<longleftrightarrow> called s t \<and> length (wk_script t) < length (wk_script s)"

lemma spent_trans: "called s t \<Longrightarrow> spent t u \<Longrightarrow> spent s u"
  by (auto simp: spent_def called_def)

lemma wk_call_wp: "wp wk_call (\<lambda>u t. called s t \<and> wk_channel t = wk_channel s) (\<lambda>e t. spent s t) s"
proof (cases "wk_script s")
  case Nil
  then show ?thesis by (simp add: wp_def wk_call_def)
next
  case (Cons f fs)
  then show ?thesis
    by (cases f) (auto simp: wp_def wk_call_def spent_def called_def wk_lose_def split: amqp_loss.split)
qed

lemma wk_calls_wp: "wp (wk_calls n) (\<lambda>u t. called s t \<and> wk_channel t = wk_channel s) (\<lambda>e t. spent s t) s"
proof (induction n arbitrary: s)
  case 0
  show ?case by (simp only: wk_calls.simps wp_return called_refl simp_thms)
next
  case (Suc n)
  show ?case unfolding wk_calls.simps wp_bind
    by (rule wp_mono[OF wk_call_wp], rule wp_mono[OF Suc.IH]) (auto intro: called_trans spent_trans)
qed

lemma setupRabbit_wp: "wp setupRabbit (\<lambda>u t. called s t \<and> wk_channel t \<noteq> None) (\<lambda>e t. spent s t) s"
proof (cases "wk_channel s")
  case (Some c)
  then show ?thesis by (simp add: setupRabbit_def wp_simps)
next
  case None
  have later: "wp (wk_calls 6) (\<lambda>u t. called s t \<and> wk_channel t \<noteq> None) (\<lambda>e t. spent s t) v"
    if "called s v" "wk_channel v \<noteq> None" for v
    by (rule wp_mono[OF wk_calls_wp]) (use that in \<open>auto intro: called_trans spent_trans\<close>)
  have "wp (wk_calls 2) (\<lambda>u t. wp (wk_calls 6) (\<lambda>u t. called s t \<and> wk_channel t \<noteq> None) (\<lambda>e t. spent s t)
      (t\<lparr>wk_channel := Some (wk_channels_made t), wk_channels_made := wk_channels_made t + 1\<rparr>)) (\<lambda>e t. spent s t) s"
    by (rule wp_mono[OF wk_calls_wp]) (intro later, simp_all)
  with None show ?thesis by (simp add: setupRabbit_def wp_get wp_bind wp_if wp_modify)
qed

lemma startConsumer_wp: "wp startConsumer (\<lambda>u t. called s t \<and> broker_ready t) (\<lambda>e t. spent s t) s"
  unfolding startConsumer_def wp_bind wp_modify
  by (rule wp_mono[OF setupRabbit_wp], rule wp_mono[OF wk_call_wp])
    (auto intro: called_trans spent_trans simp: broker_ready_def)

lemma attempt_wp:
  "wp (io_bind setupRabbit (\<lambda>u. startConsumer)) (\<lambda>u t. called s t \<and> broker_ready t) (\<lambda>e t. spent s t) s"
  unfolding wp_bind
  by (rule wp_mono[OF setupRabbit_wp], rule wp_mono[OF startConsumer_wp]) (auto intro: called_trans spent_trans)

definition backoff_ms :: "nat \<Rightarrow> int" where
  "backoff_ms i = min 30000 (1000 * 2 ^ i)"

lemma backoff_ms_step: "min (backoff_ms i * 2) 30000 = backoff_ms (Suc i)"
  by (simp add: backoff_ms_def min_def)

lemma reconnect_from_stops: "wk_channel s \<noteq> None \<Longrightarrow> reconnect_from d s = Some s"
  by (simp add: reconnect_from.simps)

lemma reconnect_from_returns:
  "\<exists>t k. reconnect_from (backoff_ms j) s = Some t \<and> k \<le> length (wk_script s) \<and>
     delays t = delays s @ map backoff_ms [j ..< j + k] \<and> (wk_shuttingDown t \<or> wk_channel t \<noteq> None)"
proof (induction "length (wk_script s)" arbitrary: s j rule: less_induct)
  case less
  show ?case
  proof (cases "wk_shuttingDown s \<or> wk_channel s \<noteq> None")
    case True
    then show ?thesis by (intro exI[of _ s] exI[of _ 0]) (auto simp: reconnect_from.simps)
  next
    case False
    obtain r t where attempt: "io_bind setupRabbit (\<lambda>u. startConsumer) s = (r, t)"
      by (cases "io_bind setupRabbit (\<lambda>u. startConsumer) s")
    show ?thesis
    proof (cases r)
      case (Inr u)
      then have "called s t" "broker_ready t" using wp_ok[OF attempt_wp] attempt by blast+
      with False attempt Inr show ?thesis
        by (intro exI[of _ t] exI[of _ 0]) (simp add: reconnect_from.simps[of _ s] called_def broker_ready_def)
    next
      case (Inl e)
      let ?t = "t\<lparr>delays := delays t @ [backoff_ms j]\<rparr>"
      have "spent s t" using wp_err[OF attempt_wp] attempt Inl by blast
      then have t: "length (wk_script ?t) < length (wk_script s)" "delays t = delays s"
        by (simp_all add: spent_def called_def)
      from less[OF t(1), of "Suc j"] obtain v k where v: "reconnect_from (backoff_ms (Suc j)) ?t = Some v"
        "k \<le> length (wk_script ?t)" "delays v = delays ?t @ map backoff_ms [Suc j ..< Suc j + k]"
        "wk_shuttingDown v \<or> wk_channel v \<noteq> None" by blast
      have "reconnect_from (backoff_ms j) s = Some v"
        using False attempt Inl v(1) by (simp add: reconnect_from.simps[of _ s] backoff_ms_step)
      moreover have "[j ..< j + Suc k] = j # [Suc j ..< Suc j + k]" by (simp add: upt_conv_Cons)
      ultimately show ?thesis using v t by (intro exI[of _ v] exI[of _ "Suc k"]) simp
    qed
  qed
qed

section \<open>Properties\<close>

text \<open>C24: A message the worker cannot read is retried a bounded number of times: after exactly
  \<open>maxRetries\<close> trips through the retry queue it lands in the dead-letter queue with its content
  unchanged and the count \<open>maxRetries + 1\<close>; every delivery was acknowledged, nothing was notified
  and the database was not touched.\<close>

theorem poison_message_is_dead_lettered:
  assumes "keeps_message returned" and "parseEvent m = Inl e" and "retry_count m = Some 0"
    and "0 \<le> wc_maxRetries cfg" and "wk_channel s \<noteq> None" and "nat (wc_maxRetries cfg) < fuel"
  shows "\<exists>copies. sent (deliveries cfg env returned fuel m s) = sent s @ copies \<and>
    map fst copies = replicate (nat (wc_maxRetries cfg)) (retryQueue cfg) @ [deadLetterQueue cfg] \<and>
    (\<forall>q\<in>set copies. am_content (snd q) = am_content m) \<and>
    retry_count (snd (last copies)) = Some (wc_maxRetries cfg + 1) \<and>
    length (acked (deliveries cfg env returned fuel m s)) = length (acked s) + length copies \<and>
    notified (deliveries cfg env returned fuel m s) = notified s \<and> wk_pg (deliveries cfg env returned fuel m s) = wk_pg s"
proof -
  obtain c where "wk_channel s = Some c" using assms(5) by auto
  from poison_chain[OF assms(1-4) this, of fuel env] assms(6) show ?thesis by simp
qed

text \<open>The reconnect loop returns: whatever finite sequence of failures the broker shows, it ends with a
  channel or in a shutdown, after at most one attempt per failure, waiting 1, 2, 4, 8, 16 and then
  30 seconds between attempts.\<close>

theorem reconnectLoop_returns:
  "\<exists>t k. reconnectLoop s = Some t \<and> k \<le> length (wk_script s) \<and>
     delays t = delays s @ map (\<lambda>i. min 30000 (1000 * 2 ^ i)) [0 ..< k] \<and> (wk_shuttingDown t \<or> wk_channel t \<noteq> None)"
proof -
  have "backoff_ms 0 = 1000" by (simp add: backoff_ms_def)
  with reconnect_from_returns[of 0 s] show ?thesis by (simp add: reconnectLoop_def backoff_ms_def[abs_def])
qed

text \<open>The readiness answer: 200 iff the query succeeds and the module has a channel and a consumer.\<close>

lemma wk_get_ready_status:
  assumes "wk_get_ready s = (Inr r, t)"
  shows "resp_status r = (if fst (on_wk (pg_pool (\<lambda>now d. Inr ((), d))) s) = Inr () \<and> broker_ready t then 200 else 503)"
  using assms by (auto simp: wk_get_ready_def io_bind_apply io_catch_apply Let_def split: sum.splits prod.splits)

text \<open>A worker can be left without a consumer: the channel variable is set before the exchange and the
  queues are declared, so if the first declaration fails and the connection stays open, the loop
  ends without a consumer, the worker is not ready, and a further loop does nothing.\<close>

theorem failed_declaration_leaves_no_consumer:
  assumes "wk_script s = [AmqpOk, AmqpOk, AmqpFail e b l]" and "l \<noteq> ConnectionCloses"
    and "wk_channel s = None" and "\<not> wk_consumerTag s" and "\<not> wk_shuttingDown s"
  shows "\<exists>t. reconnectLoop s = Some t \<and> wk_channel t \<noteq> None \<and> \<not> broker_ready t \<and> reconnectLoop t = Some t"
proof -
  let ?t = "s\<lparr>wk_script := [], wk_channel := Some (wk_channels_made s), wk_channels_made := wk_channels_made s + 1\<rparr>"
  have "setupRabbit s = (Inl e, ?t)"
    using assms by (cases l) (simp_all add: setupRabbit_def io_bind_apply wk_call_def wk_lose_def numeral_eq_Suc)
  then have "reconnectLoop s = Some (?t\<lparr>delays := delays s @ [1000]\<rparr>)"
    using assms by (simp add: reconnectLoop_def reconnect_from.simps[of _ s] io_bind_apply reconnect_from_stops)
  then show ?thesis using assms(4) by (simp add: broker_ready_def reconnectLoop_def reconnect_from_stops)
qed

section \<open>Witnesses\<close>

definition poison :: amqp_message where
  "poison = \<lparr>am_routing_key = ''order.created'', am_content = ''bad'', am_message_id = None, am_type = None, am_headers = []\<rparr>"

theorem poison_message_is_dead_lettered_witness:
  "\<exists>copies. sent (deliveries demo_worker_config demo_env (\<lambda>m. m) 10 poison (demo_worker [])) = copies \<and>
     map fst copies = [''order.created.retry'', ''order.created.retry'', ''order.created.retry'', ''order.created.dlq'']"
proof -
  have "keeps_message (\<lambda>m. m)" by (simp add: keeps_message_def)
  moreover have "JSON_parse (am_content poison) = None" by (simp add: poison_def, code_simp)
  then have "parseEvent poison = Inl bad_json" by (simp add: parseEvent_def)
  moreover have "retry_count poison = Some 0" by (simp add: retry_count_def poison_def header_number_def)
  moreover have "0 \<le> wc_maxRetries demo_worker_config" "wk_channel (demo_worker []) \<noteq> None"
    "nat (wc_maxRetries demo_worker_config) < 10" by (simp_all add: demo_worker_config_def)
  ultimately have "\<exists>copies. sent (deliveries demo_worker_config demo_env (\<lambda>m. m) 10 poison (demo_worker [])) =
      sent (demo_worker []) @ copies \<and> map fst copies = replicate (nat (wc_maxRetries demo_worker_config))
        (retryQueue demo_worker_config) @ [deadLetterQueue demo_worker_config]"
    using poison_message_is_dead_lettered[of "\<lambda>m. m" poison bad_json demo_worker_config "demo_worker []" 10 demo_env] by blast
  then show ?thesis by (simp add: demo_worker_config_def retryQueue_def deadLetterQueue_def numeral_eq_Suc)
qed

theorem reconnectLoop_returns_witness:
  "\<exists>t k. reconnectLoop ((demo_worker [])\<lparr>wk_channel := None, wk_script := [AmqpFail (JsError ''ECONNREFUSED'' None) False KeepsOpen]\<rparr>) = Some t \<and>
     k \<le> 1 \<and> delays t = map (\<lambda>i. min 30000 (1000 * 2 ^ i)) [0 ..< k]"
  using reconnectLoop_returns[of "(demo_worker [])\<lparr>wk_channel := None, wk_script := [AmqpFail (JsError ''ECONNREFUSED'' None) False KeepsOpen]\<rparr>"]
  by (simp add: demo_worker_def) blast

theorem failed_declaration_leaves_no_consumer_witness:
  "\<exists>t. reconnectLoop ((demo_worker [])\<lparr>wk_channel := None, wk_consumerTag := False,
       wk_script := [AmqpOk, AmqpOk, AmqpFail (JsError ''PRECONDITION_FAILED'' None) False ChannelCloses]\<rparr>) = Some t \<and>
     \<not> broker_ready t \<and> reconnectLoop t = Some t"
  using failed_declaration_leaves_no_consumer[where s = "(demo_worker [])\<lparr>wk_channel := None, wk_consumerTag := False,
       wk_script := [AmqpOk, AmqpOk, AmqpFail (JsError ''PRECONDITION_FAILED'' None) False ChannelCloses]\<rparr>"]
  by (simp add: demo_worker_def) blast

end
