(* ===== verification/Order_Creation.thy ===== *)
theory Order_Creation
  imports Order_Laws
begin

text \<open>
  The creation of an order when nothing fails, as an equation: the rows that are written are
  functions of the request and of the ids drawn, and the connection, the ids and the script of
  the database are as expected afterwards. The same for a creation whose last answer, the one to
  \<open>COMMIT\<close>, is lost. Other theories compose these runs.
\<close>

lemma on_pg_apply: "on_pg f s = (case f (pg s) of (r, w) \<Rightarrow> (r, s\<lparr>pg := w\<rparr>))"
  by (simp add: on_pg_def)

lemma invalidate_run:
  obtains g where "\<And>s. invalidateListNamespace S cfg ns s = (Inr (), g s)"
proof (rule that)
  fix s
  show "invalidateListNamespace S cfg ns s = (Inr (), (\<lambda>s. snd (invalidateListNamespace S cfg ns s)) s)"
    using never_throwsD[OF invalidateListNamespace_never_throws, of S cfg ns s] by auto
qed

lemma text_ok_date [simp]: "text_ok (toISOString ms)"
  unfolding text_ok_def by (auto dest!: toISOString_chars simp: is_digit_def)

lemma totalCents_nonneg:
  assumes "items_ok items"
  shows "0 \<le> totalCents items"
proof -
  have "list_all (\<lambda>i. 1 \<le> quantity i \<and> 0 \<le> unitPriceCents i) items"
    using assms by (auto simp: items_ok_def list_all_iff)
  then have "0 \<le> (\<Sum>item\<leftarrow>items. quantity item * unitPriceCents item)" by (induction items) auto
  then show ?thesis by (simp add: totalCents_sum)
qed

section \<open>The rows\<close>

definition correlation_of :: "http_request \<Rightarrow> string" where
  "correlation_of request = (case req_correlationId request of Some c \<Rightarrow> c | None \<Rightarrow> req_id request)"

definition new_order_row :: "(nat \<Rightarrow> string) \<Rightarrow> string \<Rightarrow> create_order_data \<Rightarrow> database pg_world \<Rightarrow> order_row" where
  "new_order_row uuid userId dat w =
     \<lparr>o_id = uuid_in (uuid (uuids_used w)), o_user_id = uuid_in userId,
      o_customer_email = js_lower (co_customerEmail dat), o_items = co_items dat,
      o_total_cents = totalCents (co_items dat), o_status = Pending, o_created_at = db_now w, o_updated_at = db_now w\<rparr>"

definition new_event_row :: "(nat \<Rightarrow> string) \<Rightarrow> string \<Rightarrow> database pg_world \<Rightarrow> order_event_row" where
  "new_event_row uuid userId w =
     \<lparr>ev_id = uuid_in (uuid (uuids_used w + 2)), ev_order_id = uuid_in (uuid (uuids_used w)), ev_event_type = ''created'',
      ev_from_status = None, ev_to_status = Pending, ev_actor_user_id = uuid_in userId, ev_occurred_at = db_now w\<rparr>"

definition new_outbox_row :: "'e services \<Rightarrow> (nat \<Rightarrow> string) \<Rightarrow> http_request \<Rightarrow> ('e, 'm) app_state_scheme \<Rightarrow> outbox_row" where
  "new_outbox_row S uuid request s =
     (let oid = uuid (uuids_used (pg s)); evid = uuid (uuids_used (pg s) + 1); now = date_now S (ext s) in
      \<lparr>ob_id = uuid_in evid, ob_event_type = ''order.created'', ob_aggregate_type = ''order'', ob_aggregate_id = uuid_in oid,
       ob_payload = \<lparr>eventId = evid, orderId = oid, occurredAt = toISOString now,
         correlationId = Some (correlation_of request)\<rparr>,
       ob_attempts = 0, ob_last_error = None, ob_next_attempt_at = db_now (pg s), ob_occurred_at = now,
       ob_published_at = None\<rparr>)"

definition order_inserted ::
  "'e services \<Rightarrow> (nat \<Rightarrow> string) \<Rightarrow> http_request \<Rightarrow> string \<Rightarrow> create_order_data \<Rightarrow> ('e, 'm) app_state_scheme \<Rightarrow> database" where
  "order_inserted S uuid request userId dat s =
     order_added (committed (pg s)) (new_order_row uuid userId dat (pg s)) (new_event_row uuid userId (pg s))
       (new_outbox_row S uuid request s)"

text \<open>The state of the database after a creation: three more ids are used.\<close>

definition after_creation ::
  "'e services \<Rightarrow> (nat \<Rightarrow> string) \<Rightarrow> http_request \<Rightarrow> string \<Rightarrow> create_order_data \<Rightarrow> ('e, 'm) app_state_scheme
     \<Rightarrow> database pg_world" where
  "after_creation S uuid request userId dat s =
     (pg s)\<lparr>committed := order_inserted S uuid request userId dat s, conn := Idle, pg_script := [],
       uuids_used := uuids_used (pg s) + 3\<rparr>"

section \<open>What a creation needs\<close>

text \<open>
  Of the request: the order passed the schema, its total fits the column, its texts can be
  stored. Of the database: the caller exists and nothing fails. Of the generator: the ids are new.
\<close>

definition order_storable :: "http_request \<Rightarrow> create_order_data \<Rightarrow> bool" where
  "order_storable request dat \<longleftrightarrow>
     int4_ok (totalCents (co_items dat)) \<and> items_ok (co_items dat) \<and> text_ok (co_customerEmail dat) \<and>
     list_all (\<lambda>item. text_ok (sku item)) (co_items dat) \<and> text_ok (correlation_of request)"

definition create_ready :: "database pg_world \<Rightarrow> (nat \<Rightarrow> string) \<Rightarrow> http_request \<Rightarrow> string \<Rightarrow> create_order_data \<Rightarrow> bool" where
  "create_ready w uuid request userId dat \<longleftrightarrow>
     pg_script w = [] \<and> order_storable request dat \<and>
     uuid_in userId \<in> us_id ` set (users (committed w)) \<and>
     uuid_in (uuid (uuids_used w)) \<notin> o_id ` set (orders (committed w)) \<and>
     uuid_in (uuid (uuids_used w + 1)) \<notin> ob_id ` set (outbox_events (committed w)) \<and>
     uuid_in (uuid (uuids_used w + 2)) \<notin> ev_id ` set (order_events (committed w)) \<and>
     text_ok (uuid (uuids_used w)) \<and> text_ok (uuid (uuids_used w + 1))"

text \<open>The generator never repeats itself, and the ids it has not given yet are in no table.\<close>

definition ids_fresh :: "(nat \<Rightarrow> string) \<Rightarrow> database pg_world \<Rightarrow> bool" where
  "ids_fresh uuid w \<longleftrightarrow>
     inj (\<lambda>n. uuid_in (uuid n)) \<and> (\<forall>n. text_ok (uuid n)) \<and>
     (\<forall>n\<ge>uuids_used w. uuid_in (uuid n) \<notin> o_id ` set (orders (committed w)) \<and>
        uuid_in (uuid n) \<notin> ob_id ` set (outbox_events (committed w)) \<and>
        uuid_in (uuid n) \<notin> ev_id ` set (order_events (committed w)))"

lemma create_readyI:
  assumes "pg_script w = []" and "ids_fresh uuid w" and "order_storable request dat"
    and "uuid_in userId \<in> us_id ` set (users (committed w))"
  shows "create_ready w uuid request userId dat"
  using assms unfolding create_ready_def ids_fresh_def by simp

lemma ids_fresh_inj: "ids_fresh uuid w \<Longrightarrow> uuid_in (uuid n) = uuid_in (uuid m) \<longleftrightarrow> n = m"
  by (auto simp: ids_fresh_def inj_def)

lemma ids_fresh_after:
  assumes "ids_fresh uuid (pg s)"
  shows "ids_fresh uuid (after_creation S uuid request userId dat s)"
  using assms
  by (auto simp: ids_fresh_def after_creation_def order_inserted_def order_added_def new_order_row_def
    new_event_row_def new_outbox_row_def Let_def ids_fresh_inj[OF assms])

lemma after_creation_simps [simp]:
  "uuids_used (after_creation S uuid request userId dat s) = uuids_used (pg s) + 3"
  "pg_script (after_creation S uuid request userId dat s) = []"
  "users (order_inserted S uuid request userId dat s) = users (committed (pg s))"
  "orders (order_inserted S uuid request userId dat s) =
     orders (committed (pg s)) @ [new_order_row uuid userId dat (pg s)]"
  "outbox_events (order_inserted S uuid request userId dat s) =
     outbox_events (committed (pg s)) @ [new_outbox_row S uuid request s]"
  "committed (after_creation S uuid request userId dat s) = order_inserted S uuid request userId dat s"
  by (simp_all add: after_creation_def order_inserted_def order_added_def)

section \<open>The runs\<close>

text \<open>The three statements.\<close>

lemma creation_statements:
  fixes s :: "('e, 'm) app_state_scheme"
  defines "w \<equiv> pg s"
  assumes ready: "create_ready (w\<lparr>pg_script := []\<rparr>) uuid request userId dat"
  defines "d1 \<equiv> (committed w)\<lparr>orders := orders (committed w) @ [new_order_row uuid userId dat w]\<rparr>"
  defines "d2 \<equiv> d1\<lparr>order_events := order_events (committed w) @ [new_event_row uuid userId w]\<rparr>"
  shows "insert_order (uuid (uuids_used w)) userId (co_customerEmail dat) (co_items dat) (totalCents (co_items dat))
       (db_now w) (committed w) = Inr (new_order_row uuid userId dat w, d1)"
    and "insert_order_event (uuid (uuids_used w + 2)) (uuid (uuids_used w)) ''created'' None Pending userId (db_now w) d1 =
       Inr ((), d2)"
    and "insert_outbox_event (uuid (uuids_used w + 1)) (uuid (uuids_used w))
      \<lparr>eventId = uuid (uuids_used w + 1), orderId = uuid (uuids_used w), occurredAt = toISOString (date_now S (ext s)),
       correlationId = Some (correlation_of request)\<rparr>
      (date_now S (ext s)) (db_now w) d2 = Inr ((), order_inserted S uuid request userId dat s)"
proof -
  note r = ready[unfolded create_ready_def order_storable_def]
  have total: "\<not> totalCents (co_items dat) < 0" using r totalCents_nonneg by (auto simp: not_less)
  show "insert_order (uuid (uuids_used w)) userId (co_customerEmail dat) (co_items dat) (totalCents (co_items dat))
       (db_now w) (committed w) = Inr (new_order_row uuid userId dat w, d1)"
    using r total by (simp add: insert_order_def d1_def new_order_row_def Let_def)
  show "insert_order_event (uuid (uuids_used w + 2)) (uuid (uuids_used w)) ''created'' None Pending userId (db_now w) d1 =
       Inr ((), d2)"
    using r by (simp add: insert_order_event_def d1_def d2_def new_order_row_def new_event_row_def)
  show "insert_outbox_event (uuid (uuids_used w + 1)) (uuid (uuids_used w))
      \<lparr>eventId = uuid (uuids_used w + 1), orderId = uuid (uuids_used w), occurredAt = toISOString (date_now S (ext s)),
       correlationId = Some (correlation_of request)\<rparr>
      (date_now S (ext s)) (db_now w) d2 = Inr ((), order_inserted S uuid request userId dat s)"
    using r by (simp add: insert_outbox_event_def event_text_ok_def d2_def d1_def order_inserted_def order_added_def
        new_outbox_row_def w_def Let_def)
qed

lemma creation_created:
  fixes s :: "('e, 'm) app_state_scheme"
  assumes "create_ready ((pg s)\<lparr>pg_script := []\<rparr>) uuid request userId dat"
  shows "created userId dat (committed (pg s)) (order_inserted S uuid request userId dat s) (new_order_row uuid userId dat (pg s))"
  by (rule three_inserts[OF creation_statements[OF assms]]) simp_all

lemmas create_unfold = createOrderTransactionally_def Let_def io_bind_apply io_finally_apply io_catch_apply
  randomUUID_def on_pg_apply pg_connect_def pg_begin_def pg_run_def pg_commit_def pg_rollback_def pg_release_def
  rollback_quietly_def next_fate_def

lemma create_succeeds:
  fixes s :: "('e, 'm) app_state_scheme"
  assumes "create_ready (pg s) uuid request userId dat"
  obtains t where "createOrderTransactionally S cfg uuid request userId dat s =
      (Inr \<lparr>resp_status = 201, resp_body = order_body (new_order_row uuid userId dat (pg s))\<rparr>, t)"
    and "pg t = after_creation S uuid request userId dat s"
proof -
  note script = assms[unfolded create_ready_def, THEN conjunct1]
  have ready: "create_ready ((pg s)\<lparr>pg_script := []\<rparr>) uuid request userId dat"
    using assms by (simp add: create_ready_def)
  obtain g :: "('e, 'm) app_state_scheme \<Rightarrow> ('e, 'm) app_state_scheme"
    where inv: "\<And>s. invalidateListNamespace S cfg ns_ordersList s = (Inr (), g s)"
    by (rule invalidate_run[where S = S and cfg = cfg and ns = ns_ordersList]) (rule that)
  have pg_g: "pg (g v) = pg v" for v using keepsD[OF keeps_pg_invalidate(1) inv] by simp
  have "\<exists>t. createOrderTransactionally S cfg uuid request userId dat s =
      (Inr \<lparr>resp_status = 201, resp_body = order_body (new_order_row uuid userId dat (pg s))\<rparr>, t) \<and>
      pg t = after_creation S uuid request userId dat s"
    using script creation_statements(1,2)[OF ready] creation_statements(3)[OF ready, where S = S]
    by (simp add: create_unfold correlation_of_def inv pg_g after_creation_def del: text_ok_date)
  with that show thesis by blast
qed

text \<open>The answer to \<open>COMMIT\<close> is lost after it took effect: the order is there, the answer is the error.\<close>

lemma create_lost_commit:
  fixes s :: "('e, 'm) app_state_scheme"
  assumes "create_ready ((pg s)\<lparr>pg_script := []\<rparr>) uuid request userId dat"
    and "pg_script (pg s) = [PgOk, PgOk, PgOk, PgOk, PgOk, PgFail e True]"
  shows "createOrderTransactionally S cfg uuid request userId dat s =
    (Inl e, s\<lparr>pg := after_creation S uuid request userId dat s\<rparr>)"
  using assms(2) creation_statements(1,2)[OF assms(1)] creation_statements(3)[OF assms(1), where S = S]
  by (simp add: create_unfold correlation_of_def after_creation_def del: text_ok_date)

end
