(* ===== verification/Order_Properties.thy ===== *)
theory Order_Properties
  imports Order_Creation
begin

text \<open>
  The properties of the order handlers: atomic creation, the specification of \<open>PATCH\<close>, the
  audit invariant over all histories, ownership, and what the handlers do when nothing fails.
\<close>

text \<open>C1: An order is created atomically, whichever request to the database or to Redis fails, even if the
  answer to \<open>COMMIT\<close> is lost: a 201 means that the order (pending, of the caller, with the
  summed total), its audit row and its outbox event were added in one transaction, and the
  answer shows that order; an error means that nothing was written or all three rows were. The
  connection always goes back to the pool.\<close>

theorem order_creation_is_atomic:
  "case createOrderTransactionally S cfg uuid request userId dat s of (out, t) \<Rightarrow>
     clients_out (pg t) = clients_out (pg s) \<and>
     (case out of
        Inr r \<Rightarrow> (\<exists>row. created userId dat (committed (pg s)) (committed (pg t)) row \<and>
                   r = \<lparr>resp_status = 201, resp_body = order_body row\<rparr>)
      | Inl e \<Rightarrow> committed (pg t) = committed (pg s) \<or>
                   (\<exists>row. created userId dat (committed (pg s)) (committed (pg t)) row))"
proof -
  obtain out t where run: "createOrderTransactionally S cfg uuid request userId dat s = (out, t)"
    by (cases "createOrderTransactionally S cfg uuid request userId dat s")
  show ?thesis
    using wp_outcome[OF createOrder_wp run] by (auto simp: run split: sum.splits)
qed

text \<open>C4: \<open>PATCH\<close> follows its specification whatever fails: 404 for an unknown order and for an order of
  another user, 422 for a change the table of transitions forbids, the unchanged order for the
  status it already has, and otherwise the changed order, with exactly the one row changed and
  one audit row added; only then does anything change. An error leaves the tables as they
  were or as the successful request leaves them. The connection goes back to the pool.\<close>

theorem patch_order_meets_spec:
  assumes "orderIdParamsSchema oid" and "patchOrderSchema body = Some target"
  shows "case patch_order S cfg uuid issues oid (Some user) body s of (out, t) \<Rightarrow>
     clients_out (pg t) = clients_out (pg s) \<and>
     (case out of
        Inr r \<Rightarrow> patch_spec (committed (pg s)) (db_now (pg s)) oid user target r (committed (pg t))
      | Inl e \<Rightarrow> patch_spec_error (committed (pg s)) (db_now (pg s)) oid user target (committed (pg t)))"
proof -
  obtain out t where run: "patch_order S cfg uuid issues oid (Some user) body s = (out, t)"
    by (cases "patch_order S cfg uuid issues oid (Some user) body s")
  show ?thesis
    using wp_outcome[OF patch_order_wp[OF assms refl refl refl] run] by (auto simp: run split: sum.splits)
qed

text \<open>C5: The audit trail is consistent in every history of the order tables (any sequence of creations and
  status changes with any failures, and of changes of the other services): ids are unique, the
  audit rows of an order replay, along the table of transitions, to its current status, and
  every order has exactly one event in the outbox.\<close>

theorem audit_trail_always_consistent:
  assumes "order_history S cfg uuid issues d"
  shows "orders_ok d"
  using assms
proof induction
  case (empty d)
  then show ?case by (simp add: orders_ok_empty)
next
  case (create s request userId dat out t)
  show ?case by (rule create_keeps_orders_ok[OF create.IH create.hyps(2)])
next
  case (patch s oid user body out t)
  show ?case by (rule patch_order_keeps_orders_ok[OF patch.IH patch.hyps(2)])
next
  case (others d d')
  show ?case by (rule others_keep_orders_ok[OF others.IH others.hyps(2-4)])
qed

text \<open>A valid creation succeeds: if nothing fails, the caller exists, the new ids are new and the total fits
  the column, the answer is 201 with the order, and its three rows are committed.\<close>

theorem order_creation_succeeds:
  assumes "create_ready (pg s) uuid request userId dat"
  shows "\<exists>row t. createOrderTransactionally S cfg uuid request userId dat s =
      (Inr \<lparr>resp_status = 201, resp_body = order_body row\<rparr>, t) \<and>
    created userId dat (committed (pg s)) (committed (pg t)) row"
proof -
  obtain t where run: "createOrderTransactionally S cfg uuid request userId dat s =
      (Inr \<lparr>resp_status = 201, resp_body = order_body (new_order_row uuid userId dat (pg s))\<rparr>, t)"
    by (rule create_succeeds[OF assms])
  show ?thesis using wp_ok[OF createOrder_wp run] run by auto
qed

text \<open>A total beyond the column \<open>integer\<close> can never be stored: an order whose items pass the schema
  but add up to more than 2147483647 cents ends in an error (a 500 for the client), in every
  state and whatever else happens, and writes nothing.\<close>

theorem order_total_overflow_fails:
  assumes "2147483647 < totalCents (co_items dat)"
  shows "case createOrderTransactionally S cfg uuid request userId dat s of (out, t) \<Rightarrow>
     (\<exists>e. out = Inl e) \<and> committed (pg t) = committed (pg s)"
proof -
  obtain out t where run: "createOrderTransactionally S cfg uuid request userId dat s = (out, t)"
    by (cases "createOrderTransactionally S cfg uuid request userId dat s")
  have "\<not> created userId dat d d' row" for d d' row
    using assms by (simp add: created_def int4_ok_def)
  then show ?thesis
    using wp_outcome[OF createOrder_wp run] by (auto simp: run split: sum.splits)
qed

section \<open>Reading one order\<close>

lemma get_order_some:
  assumes "orderIdParamsSchema oid"
  shows "get_order S cfg issues oid (Some u) =
    io_bind (withEntityCache S cfg \<lparr>ec_key = orderEntityKey oid, ec_namespace = ns_order, ec_ttlSeconds = None\<rparr>
              (fetch_order oid))
      (\<lambda>cached. case cached of
         None \<Rightarrow> io_return order_not_found
       | Some body \<Rightarrow>
           if falsy body then io_return order_not_found
           else (case json_prop ''order'' body of
                   None \<Rightarrow> io_throw no_property
                 | Some ord \<Rightarrow>
                     if ord = JNull then io_throw no_property
                     else if json_prop ''user_id'' ord \<noteq> Some (JStr (user_id u)) then io_return order_not_found
                     else io_return \<lparr>resp_status = 200, resp_body = body\<rparr>))"
  using assms by (simp add: get_order_def)

text \<open>C8: Nobody reads an order of another user: whatever is in the cache and in the database, a 200 answer
  of \<open>GET /v1/orders/:id\<close> carries an order whose \<open>user_id\<close> is the caller's.\<close>

theorem get_order_only_own:
  assumes "get_order S cfg issues oid (Some u) s = (Inr r, t)" and "resp_status r = 200"
  shows "\<exists>ord. json_prop ''order'' (resp_body r) = Some ord \<and> json_prop ''user_id'' ord = Some (JStr (user_id u))"
proof (cases "orderIdParamsSchema oid")
  case False
  with assms show ?thesis by (auto simp: get_order_def validationError_def error_response_def)
next
  case True
  obtain c s1 where "withEntityCache S cfg \<lparr>ec_key = orderEntityKey oid, ec_namespace = ns_order, ec_ttlSeconds = None\<rparr>
              (fetch_order oid) s = (c, s1)"
    by (cases "withEntityCache S cfg \<lparr>ec_key = orderEntityKey oid, ec_namespace = ns_order, ec_ttlSeconds = None\<rparr>
              (fetch_order oid) s")
  with assms show ?thesis
    by (cases c) (auto simp: get_order_some[OF True] io_bind_apply order_not_found_def error_response_def
        split: option.splits if_splits)
qed

text \<open>What the database says about an order to a user.\<close>

definition get_spec :: "database \<Rightarrow> string \<Rightarrow> auth_user \<Rightarrow> response" where
  "get_spec d oid u = (case find_order oid d of
     None \<Rightarrow> order_not_found
   | Some row \<Rightarrow> if o_user_id row = user_id u then \<lparr>resp_status = 200, resp_body = order_body row\<rparr>
                 else order_not_found)"

lemma order_body_props [simp]:
  "json_prop ''order'' (order_body row) = Some (order_json row)" "falsy (order_body row) = False"
  "order_json row \<noteq> JNull" "json_wf (order_body row)"
  by (simp_all add: order_body_def) (simp add: order_json_def)

lemma fetch_order_run:
  "pg_script (pg s) = [] \<Longrightarrow> fetch_order oid s = (Inr (map_option order_body (find_order oid (committed (pg s)))), s)"
  by (simp add: fetch_order_def io_bind_apply on_pg_apply pg_pool_def next_fate_done select_order_def)

text \<open>Without the cache, \<open>GET /v1/orders/:id\<close> answers what the database says: 404 for an unknown order
  and for an order of another user, else 200 with the row.\<close>

theorem get_order_reads_database:
  assumes "\<not> cacheEnabled cfg" and "pg_script (pg s) = []" and "orderIdParamsSchema oid"
  shows "get_order S cfg issues oid (Some u) s = (Inr (get_spec (committed (pg s)) oid u), s)"
  using assms(1) fetch_order_run[OF assms(2), of oid]
  by (simp add: get_order_some[OF assms(3)] withEntityCache_def io_bind_apply get_spec_def split: option.split)

section \<open>Stale reads under another spelling of the id\<close>

context redis_kv
begin

lemma keeps_store_call:
  assumes "\<And>e p e'. call e = (p, e') \<Longrightarrow> store e' k = store e k"
  shows "keeps (\<lambda>s. store (ext s) k) (withTimeout (ext_call call) ms)"
proof (rule keepsI)
  fix s
  obtain p e' where "call (ext s) = (p, e')" by (cases "call (ext s)")
  with assms[OF this] show "store (ext (snd (withTimeout (ext_call call) ms s))) k = store (ext s) k"
    by (simp add: withTimeout_def ext_call_def)
qed

lemma keeps_store_del: "k \<noteq> key \<Longrightarrow> keeps (\<lambda>s. store (ext s) k) (withTimeout (ext_call (redis_del S key)) ms)"
proof (rule keeps_store_call)
  fix e p e' assume "k \<noteq> key" and call: "redis_del S key e = (p, e')"
  then show "store e' k = store e k"
    using del_ok[OF call] del_err[OF call] by (cases "outcome p") (fastforce, fastforce)
qed

lemma keeps_store_incr: "k \<noteq> key \<Longrightarrow> keeps (\<lambda>s. store (ext s) k) (withTimeout (ext_call (redis_incr S key)) ms)"
proof (rule keeps_store_call)
  fix e p e' assume "k \<noteq> key" and call: "redis_incr S key e = (p, e')"
  then show "store e' k = store e k"
    using incr_ok[OF call] incr_err[OF call] by (cases "outcome p") (fastforce, fastforce)
qed

lemma keeps_store_warn: "keeps (\<lambda>s. store (ext s) k) (warnOncePerMinute S key message err)"
  by (rule keepsI) simp

lemma keeps_store_invalidate:
  assumes "k \<noteq> key" and "k \<noteq> namespaceVersionKey ns"
  shows "keeps (\<lambda>s. store (ext s) k) (invalidateEntity S cfg key ens)"
    and "keeps (\<lambda>s. store (ext s) k) (invalidateListNamespace S cfg ns)"
  unfolding invalidateEntity_def invalidateListNamespace_def cacheDelete_def cacheBumpNamespaceVersion_def
  using assms by (auto intro!: keeps_intros keeps_store_del keeps_store_incr keeps_store_warn)

lemma keeps_store_pg: "keeps (\<lambda>s. store (ext s) k) (on_pg f)" "keeps (\<lambda>s. store (ext s) k) rollback_quietly"
  "keeps (\<lambda>s. store (ext s) k) (randomUUID uuid)" "keeps (\<lambda>s. store (ext s) k) pg_release"
proof -
  show pg: "keeps (\<lambda>s. store (ext s) k) (on_pg f)" for f :: "database pg_world \<Rightarrow> (js_error + 'x) \<times> database pg_world"
    by (rule keepsI) (simp add: on_pg_def case_prod_unfold)
  show "keeps (\<lambda>s. store (ext s) k) rollback_quietly"
    unfolding rollback_quietly_def by (intro keeps_intros pg)
  show "keeps (\<lambda>s. store (ext s) k) (randomUUID uuid)" "keeps (\<lambda>s. store (ext s) k) pg_release"
    unfolding randomUUID_def pg_release_def by (auto intro!: keeps_intros)
qed

text \<open>\<open>PATCH\<close> touches two keys of Redis: the entry of the id as spelled, and the version of the lists.\<close>

lemma patch_order_keeps_store:
  assumes "k \<noteq> orderEntityKey oid" and "k \<noteq> namespaceVersionKey ns_ordersList"
  shows "keeps (\<lambda>s. store (ext s) k) (patch_order S cfg uuid issues oid user body)"
  unfolding patch_order_def patch_txn_def
  by (auto intro!: keeps_intros keeps_store_pg keeps_store_invalidate[OF assms] simp del: io_return_apply
      split: option.split)

end

text \<open>A cached order of the caller is served from the cache.\<close>

lemma get_order_hit:
  assumes "redis_prompt S store (cacheTimeoutMs cfg)" and "cacheEnabled cfg" and "orderIdParamsSchema oid"
    and "store (ext s) (orderEntityKey oid) = Some (JSON_stringify (order_body row))"
    and "o_user_id row = user_id u"
  shows "\<exists>t. get_order S cfg issues oid (Some u) s = (Inr \<lparr>resp_status = 200, resp_body = order_body row\<rparr>, t)"
proof -
  have cached: "store (ext s) (ec_key \<lparr>ec_key = orderEntityKey oid, ec_namespace = ns_order, ec_ttlSeconds = None\<rparr>)
      = Some (JSON_stringify (order_body row))" by (simp add: assms(4))
  have parses: "JSON_parse (JSON_stringify (order_body row)) = Some (order_body row)"
    by (simp add: JSON_parse_stringify)
  obtain e' where "withEntityCache S cfg \<lparr>ec_key = orderEntityKey oid, ec_namespace = ns_order, ec_ttlSeconds = None\<rparr>
      (fetch_order oid) s = (Inr (Some (order_body row)), s\<lparr>ext := e', reply_headers := (reply_headers s)(''X-Cache'' \<mapsto> ''HIT'')\<rparr>)"
    using redis_prompt.withEntityCache_hit[OF assms(1,2) refl cached parses] by blast
  then show ?thesis
    by (simp add: get_order_some[OF assms(3)] io_bind_apply assms(5))
qed

text \<open>The cache entry of an order is keyed by the id as the client spelled it, but the database compares ids
  without regard to case. So after a \<open>PATCH\<close> under one spelling, whatever it did, a \<open>GET\<close> under
  another spelling of the same id still answers with the order cached before.\<close>

theorem other_spelling_reads_stale:
  assumes "redis_prompt S store (cacheTimeoutMs cfg)" and "cacheEnabled cfg"
    and "orderIdParamsSchema oid'" and "uuid_in oid' = uuid_in oid" and "oid' \<noteq> oid"
    and "store (ext s) (orderEntityKey oid') = Some (JSON_stringify (order_body old))"
    and "o_user_id old = user_id u"
    and "patch_order S cfg uuid issues oid user body s = (out, t)"
  shows "\<exists>t'. get_order S cfg issues oid' (Some u) t = (Inr \<lparr>resp_status = 200, resp_body = order_body old\<rparr>, t')"
proof -
  have "orderEntityKey oid' \<noteq> orderEntityKey oid" using assms(5) by (simp add: orderEntityKey_def)
  moreover have "orderEntityKey oid' \<noteq> namespaceVersionKey ns_ordersList"
    by (simp add: orderEntityKey_def namespaceVersionKey_def ns_order_def)
  ultimately have "keeps (\<lambda>s. store (ext s) (orderEntityKey oid')) (patch_order S cfg uuid issues oid user body)"
    using redis_kv.patch_order_keeps_store[OF redis_prompt.axioms(1)[OF assms(1)]] by blast
  from keepsD[OF this assms(8)] assms(6)
  have held: "store (ext t) (orderEntityKey oid') = Some (JSON_stringify (order_body old))" by simp
  show ?thesis by (rule get_order_hit[OF assms(1-3) held assms(7)])
qed

section \<open>Witnesses\<close>

definition demo_database :: database where
  "demo_database = \<lparr>users = [\<lparr>us_id = ''u1'', us_email = ''a@b.c'', us_password_hash = ''h'', us_failed_login_count = 0,
       us_locked_until = None\<rparr>],
     refresh_tokens = [], orders = [], order_events = [], outbox_events = [], processed_events = []\<rparr>"

definition demo_world :: "database pg_world" where
  "demo_world = \<lparr>committed = demo_database, conn = Idle, pg_script = [], db_now = 0, uuids_used = 0, clients_out = 0\<rparr>"

definition demo_app :: "'e \<Rightarrow> 'e app_state" where
  "demo_app e = api_state.extend (demo_state e) \<lparr>pg = demo_world\<rparr>"

definition demo_uuid :: "nat \<Rightarrow> string" where
  "demo_uuid n = replicate n CHR ''a'' @ ''0''"

definition demo_order :: create_order_data where
  "demo_order = \<lparr>co_customerEmail = ''Ann@b.c'', co_items = [\<lparr>sku = ''s1'', quantity = 2, unitPriceCents = 500\<rparr>]\<rparr>"

definition big_order :: create_order_data where
  "big_order = \<lparr>co_customerEmail = ''Ann@b.c'', co_items = [\<lparr>sku = ''s1'', quantity = 1000, unitPriceCents = 100000000\<rparr>]\<rparr>"

definition demo_id :: string where
  "demo_id = ''0a0b0c0d-0000-4000-8000-000000000001''"

definition demo_user :: auth_user where
  "demo_user = \<lparr>user_id = ''u1'', user_email = ''a@b.c''\<rparr>"

lemma demo_app_pg [simp]: "pg (demo_app e) = demo_world"
  by (simp add: demo_app_def api_state.extend_def)

lemma demo_id_ok: "orderIdParamsSchema demo_id"
  by (simp add: orderIdParamsSchema_def demo_id_def is_hex_def)

theorem patch_order_meets_spec_witness:
  "case patch_order stub_services demo_config demo_uuid (\<lambda>j. []) demo_id (Some demo_user)
      (JObj [(''status'', JStr ''confirmed'')]) (demo_app (\<lambda>_. None)) of
     (out, t) \<Rightarrow> clients_out (pg t) = 0"
proof -
  have "patchOrderSchema (JObj [(''status'', JStr ''confirmed'')]) = Some Confirmed"
    using parse_status_name[of Confirmed] by (simp add: patchOrderSchema_def)
  from patch_order_meets_spec[OF demo_id_ok this, where S = stub_services and cfg = demo_config and uuid = demo_uuid
      and issues = "\<lambda>j. []" and user = demo_user and s = "demo_app (\<lambda>_. None)"]
  show ?thesis by (simp add: demo_world_def case_prod_unfold)
qed

lemma demo_create_ready: "create_ready (pg (demo_app (\<lambda>_. None))) demo_uuid demo_request ''u1'' demo_order"
  by (simp add: create_ready_def order_storable_def correlation_of_def demo_world_def demo_database_def demo_order_def demo_uuid_def demo_request_def
        int4_ok_def totalCents_def items_ok_def text_ok_def uuid_in_def js_lower_def lower_char_def Let_def)

theorem order_creation_succeeds_witness:
  "\<exists>row t. createOrderTransactionally stub_services demo_config demo_uuid demo_request ''u1'' demo_order (demo_app (\<lambda>_. None)) =
      (Inr \<lparr>resp_status = 201, resp_body = order_body row\<rparr>, t) \<and> length (orders (committed (pg t))) = 1"
proof -
  from order_creation_succeeds[OF demo_create_ready, where S = stub_services and cfg = demo_config] show ?thesis
    by (auto simp: created_def order_added_def demo_world_def demo_database_def)
qed

text \<open>A history with one creation.\<close>

theorem audit_trail_witness:
  "\<exists>d. order_history stub_services demo_config demo_uuid (\<lambda>j. []) d \<and> length (orders d) = 1 \<and> length (order_events d) = 1 \<and> orders_ok d"
proof -
  obtain row t where run: "createOrderTransactionally stub_services demo_config demo_uuid demo_request ''u1'' demo_order (demo_app (\<lambda>_. None)) =
      (Inr \<lparr>resp_status = 201, resp_body = order_body row\<rparr>, t)"
    and t: "length (orders (committed (pg t))) = 1" "length (order_events (committed (pg t))) = 1"
    using order_creation_succeeds[OF demo_create_ready, where S = stub_services and cfg = demo_config]
    by (auto simp: created_def order_added_def demo_world_def demo_database_def)
  have start: "committed (pg (demo_app (\<lambda>_. None))) = demo_database" by (simp add: demo_world_def)
  have "order_history stub_services demo_config demo_uuid (\<lambda>j. []) (committed (pg (demo_app (\<lambda>_. None) :: kv app_state)))"
    unfolding start by (rule order_history.empty) (simp_all add: demo_database_def)
  from order_history.create[OF this run] have "order_history stub_services demo_config demo_uuid (\<lambda>j. []) (committed (pg t))" .
  with audit_trail_always_consistent[OF this] t show ?thesis by blast
qed

theorem order_total_overflow_witness:
  "items_ok (co_items big_order) \<and>
   (\<exists>e. fst (createOrderTransactionally stub_services demo_config demo_uuid demo_request ''u1'' big_order
      (demo_app (\<lambda>_. None))) = Inl e)"
proof -
  have "2147483647 < totalCents (co_items big_order)" by (simp add: big_order_def totalCents_def)
  from order_total_overflow_fails[OF this, where S = stub_services and cfg = demo_config and uuid = demo_uuid and
      request = demo_request and userId = "''u1''" and s = "demo_app (\<lambda>_. None)"]
  show ?thesis by (auto simp: case_prod_unfold items_ok_def big_order_def)
qed

definition demo_row :: order_row where
  "demo_row = \<lparr>o_id = demo_id, o_user_id = ''u1'', o_customer_email = ''ann@b.c'', o_items = [],
     o_total_cents = 1000, o_status = Pending, o_created_at = 0, o_updated_at = 0\<rparr>"

definition cached_at :: "string \<Rightarrow> kv app_state" where
  "cached_at oid = demo_app [orderEntityKey oid \<mapsto> JSON_stringify (order_body demo_row)]"

lemma demo_app_ext [simp]: "ext (demo_app e) = e"
  by (simp add: demo_app_def api_state.extend_def demo_state_def)

lemma cached_at_hit:
  "orderIdParamsSchema oid \<Longrightarrow> \<exists>t. get_order stub_services demo_config issues oid (Some demo_user) (cached_at oid) =
     (Inr \<lparr>resp_status = 200, resp_body = order_body demo_row\<rparr>, t)"
  by (rule get_order_hit[OF stub.redis_prompt_axioms])
    (simp_all add: cached_at_def demo_config_def demo_row_def demo_user_def)

theorem get_order_only_own_witness:
  "\<exists>r t. get_order stub_services demo_config (\<lambda>j. []) demo_id (Some demo_user) (cached_at demo_id) = (Inr r, t) \<and>
     (\<exists>ord. json_prop ''order'' (resp_body r) = Some ord \<and> json_prop ''user_id'' ord = Some (JStr ''u1''))"
proof -
  obtain t where run: "get_order stub_services demo_config (\<lambda>j. []) demo_id (Some demo_user) (cached_at demo_id) =
      (Inr \<lparr>resp_status = 200, resp_body = order_body demo_row\<rparr>, t)"
    using cached_at_hit[OF demo_id_ok] by blast
  from get_order_only_own[OF run] run show ?thesis by (auto simp: demo_user_def)
qed

theorem get_order_reads_database_witness:
  "get_order stub_services (demo_config\<lparr>cacheEnabled := False\<rparr>) (\<lambda>j. []) demo_id (Some demo_user) (demo_app (\<lambda>_. None)) =
     (Inr order_not_found, demo_app (\<lambda>_. None))"
proof -
  have "get_spec demo_database demo_id demo_user = order_not_found"
    by (simp add: get_spec_def find_order_def demo_database_def)
  then show ?thesis
    using get_order_reads_database[of "demo_config\<lparr>cacheEnabled := False\<rparr>" "demo_app (\<lambda>_. None)" demo_id
        stub_services "\<lambda>j. []" demo_user] demo_id_ok
    by (simp add: demo_world_def)
qed

definition demo_id_upper :: string where
  "demo_id_upper = ''0A0B0C0D-0000-4000-8000-000000000001''"

text \<open>The same, with the order in the database as well.\<close>

definition stocked :: "kv app_state" where
  "stocked = (cached_at demo_id_upper)\<lparr>pg := demo_world\<lparr>committed := demo_database\<lparr>orders := [demo_row]\<rparr>\<rparr>\<rparr>"

lemma demo_uuids: "uuid_in demo_id = demo_id" "uuid_in demo_id_upper = demo_id" "demo_id_upper \<noteq> demo_id"
    "uuid_in ''u1'' = ''u1''" "uuid_in ''0'' = ''0''"
  by code_simp+

lemma stocked_patch:
  "fst (patch_order stub_services demo_config demo_uuid (\<lambda>j. []) demo_id (Some demo_user)
     (JObj [(''status'', JStr ''confirmed'')]) stocked) = Inr (order_reply (Some (demo_row\<lparr>o_status := Confirmed\<rparr>)))"
proof -
  have "patchOrderSchema (JObj [(''status'', JStr ''confirmed'')]) = Some Confirmed"
    using parse_status_name[of Confirmed] by (simp add: patchOrderSchema_def)
  then show ?thesis
    by (simp add: patch_order_def demo_id_ok patch_txn_def io_bind_apply io_finally_apply io_catch_apply on_pg_apply
      pg_connect_def pg_begin_def pg_run_def pg_commit_def pg_release_def next_fate_def demo_world_def stocked_def
      select_order_def find_order_def demo_uuids demo_row_def demo_database_def demo_user_def
      isAllowedOrderStatusTransition_def update_order_status_def insert_order_event_def randomUUID_def
      demo_uuid_def invalidateEntity_def invalidateListNamespace_def cacheDelete_def
      cacheBumpNamespaceVersion_def withTimeout_def ext_call_def stub_defs demo_config_def timer_ms_def Let_def)
qed

theorem other_spelling_reads_stale_witness:
  "\<exists>t t'. patch_order stub_services demo_config demo_uuid (\<lambda>j. []) demo_id (Some demo_user)
      (JObj [(''status'', JStr ''confirmed'')]) stocked = (Inr (order_reply (Some (demo_row\<lparr>o_status := Confirmed\<rparr>))), t) \<and>
    get_order stub_services demo_config (\<lambda>j. []) demo_id_upper (Some demo_user) t =
      (Inr \<lparr>resp_status = 200, resp_body = order_body demo_row\<rparr>, t')"
proof -
  obtain t where run: "patch_order stub_services demo_config demo_uuid (\<lambda>j. []) demo_id (Some demo_user)
      (JObj [(''status'', JStr ''confirmed'')]) stocked = (Inr (order_reply (Some (demo_row\<lparr>o_status := Confirmed\<rparr>))), t)"
    using stocked_patch by (metis prod.collapse)
  have up: "orderIdParamsSchema demo_id_upper"
    by (simp add: orderIdParamsSchema_def demo_id_upper_def is_hex_def)
  have ids: "uuid_in demo_id_upper = uuid_in demo_id" by (simp add: demo_uuids)
  have held: "ext stocked (orderEntityKey demo_id_upper) = Some (JSON_stringify (order_body demo_row))"
    by (simp add: stocked_def cached_at_def)
  have own: "o_user_id demo_row = user_id demo_user" by (simp add: demo_row_def demo_user_def)
  have on: "cacheEnabled demo_config" by (simp add: demo_config_def)
  show ?thesis
    using other_spelling_reads_stale[OF stub.redis_prompt_axioms on up ids demo_uuids(3) held own run] run by blast
qed

end
