(* ===== verification/System_History.thy ===== *)
theory System_History
  imports Delivery_Pipeline Order_Properties
begin

text \<open>
  The services together: the tables and the log of accepted messages under any sequence of
  order requests, polls of the publisher, deliveries to the worker and changes of the tables
  that are not about orders, with any failures.
\<close>

section \<open>The worker writes one table\<close>

definition only_processed :: "database \<Rightarrow> database \<Rightarrow> bool" where
  "only_processed d d' \<longleftrightarrow> (\<exists>rows. d' = d\<lparr>processed_events := rows\<rparr>)"

lemma only_processed_refl [simp]: "only_processed d d"
  unfolding only_processed_def by (rule exI[of _ "processed_events d"]) simp

lemma only_processed_trans: "only_processed d d' \<Longrightarrow> only_processed d' d'' \<Longrightarrow> only_processed d d''"
  by (auto simp: only_processed_def)

lemma wk_pool_only_processed:
  assumes "\<And>now d a d'. stmt now d = Inr (a, d') \<Longrightarrow> only_processed d d'"
    and "only_processed d0 (committed (wk_pg s))"
    and "\<And>a t. only_processed d0 (committed (wk_pg t)) \<Longrightarrow> Q a t" and "\<And>e t. only_processed d0 (committed (wk_pg t)) \<Longrightarrow> E e t"
  shows "wp (on_wk (pg_pool stmt)) Q E s"
  unfolding wp_on_wk
  by (rule pg_pool_rule)
    (use assms in \<open>auto simp: pg_same_def intro!: assms(3,4) intro: only_processed_trans\<close>)

lemma processed_statements:
  "insert_processed i et now d = Inr (a, d') \<Longrightarrow> only_processed d d'"
  "set_processed i now d = Inr (u, d') \<Longrightarrow> only_processed d d'"
  "delete_processed i now d = Inr (u, d') \<Longrightarrow> only_processed d d'"
  by (auto simp: insert_processed_def set_processed_def delete_processed_def only_processed_def
      intro: exI[of _ "processed_events d"] split: if_splits)

lemma processEvent_only_processed:
  assumes "only_processed d0 (committed (wk_pg s))"
  shows "wp (processEvent event) (\<lambda>r t. only_processed d0 (committed (wk_pg t)))
    (\<lambda>e t. only_processed d0 (committed (wk_pg t))) s"
proof -
  let ?P = "\<lambda>t. only_processed d0 (committed (wk_pg t))"
  have undo: "wp (on_wk (pg_pool (delete_processed (eventId event)))) (\<lambda>u. ?P) (\<lambda>e. ?P) t" if "?P t" for t
    by (rule wk_pool_only_processed[OF processed_statements(3) that])
  have finish: "wp (on_wk (pg_pool (set_processed (eventId event)))) (\<lambda>u. ?P)
      (\<lambda>e. wp (on_wk (pg_pool (delete_processed (eventId event)))) (\<lambda>u. ?P) (\<lambda>e. ?P)) t" if "?P t" for t
    by (rule wk_pool_only_processed[OF processed_statements(2) that]) (assumption | rule undo)+
  show ?thesis unfolding processEvent_def simulateNotificationWork_def wp_simps
    by (rule wk_pool_only_processed[OF processed_statements(1) assms]) (auto intro: finish)
qed

lemma handleMessage_only_processed:
  "only_processed (committed (wk_pg s)) (committed (wk_pg (snd (handleMessage cfg env (Some dl) s))))"
proof -
  let ?P = "\<lambda>t. only_processed (committed (wk_pg s)) (committed (wk_pg t))"
  have requeue: "wp (requeueOrDeadLetter cfg dl e) (\<lambda>u. ?P) (\<lambda>e. ?P) t" if "?P t" for e t
    using that by (cases "wk_channel t")
      (simp_all add: requeueOrDeadLetter_def wp_simps Let_def sendToQueue_def channel_ack_def)
  have inner: "wp (io_finally (processEvent event) (during_processing env)) (\<lambda>u. ?P) (\<lambda>e. ?P) t" if "?P t" for event t
    unfolding wp_finally during_processing_wp by (rule wp_mono[OF processEvent_only_processed[OF that]]) simp_all
  have timed: "wp (withProcessingTimeout cfg n (io_finally (processEvent event) (during_processing env)))
      (\<lambda>u. ?P) (\<lambda>e. ?P) t" if "?P t" for n event t
    unfolding wp_timeout using inner[OF that] by (auto intro: wp_mono)
  have ack: "wp (channel_ack dl) (\<lambda>u. ?P) (\<lambda>e. ?P) t" if "?P t" for t
    using that by (cases "wk_channel t") (simp_all add: channel_ack_def wp_simps)
  have body: "wp (handle_body cfg env dl) (\<lambda>u. ?P) (\<lambda>e. ?P) t" if "?P t" for t
  proof (cases "parseEvent (dl_message dl)")
    case (Inl e)
    with that show ?thesis by (simp add: handle_body_def wp_simps wp_lift_result)
  next
    case (Inr event)
    show ?thesis unfolding handle_body_def wp_bind wp_lift_result
      by (simp add: Inr, rule wp_mono[OF timed[OF that]]) (auto intro: ack)
  qed
  have "wp (handleMessage cfg env (Some dl)) (\<lambda>u. ?P) (\<lambda>e. ?P) s"
  proof (cases "wk_channel s")
    case None
    then show ?thesis by (simp add: handleMessage_def wp_simps)
  next
    case (Some c)
    have "wp (io_catch (handle_body cfg env dl) (\<lambda>error. requeueOrDeadLetter cfg dl error)) (\<lambda>u. ?P) (\<lambda>e. ?P)
        (s\<lparr>inFlight := inFlight s + 1\<rparr>)"
      unfolding wp_catch by (rule wp_mono[OF body]) (auto intro: requeue)
    with Some show ?thesis
      by (simp add: handleMessage_def wp_get wp_bind wp_modify wp_finally)
  qed
  then show ?thesis by (auto simp: wp_def split: prod.splits sum.splits)
qed

section \<open>Histories\<close>

definition no_event_lost :: "amqp_message list \<Rightarrow> database \<Rightarrow> bool" where
  "no_event_lost log d \<longleftrightarrow> (\<forall>row\<in>set (outbox_events d). ob_published_at row = None \<or> message_of row \<in> set log)"

inductive system_history ::
  "'e services \<Rightarrow> api_config \<Rightarrow> (nat \<Rightarrow> string) \<Rightarrow> (json \<Rightarrow> (string list \<times> string) list) \<Rightarrow> publisher_config \<Rightarrow>
   worker_config \<Rightarrow> database \<Rightarrow> amqp_message list \<Rightarrow> bool"
  for S cfg uuid issues pcfg wcfg where
  start: "orders d = [] \<Longrightarrow> order_events d = [] \<Longrightarrow> outbox_events d = [] \<Longrightarrow> system_history S cfg uuid issues pcfg wcfg d []"
| create: "system_history S cfg uuid issues pcfg wcfg (committed (pg (s :: 'e app_state))) log \<Longrightarrow>
     createOrderTransactionally S cfg uuid request userId dat s = (out, t) \<Longrightarrow>
     system_history S cfg uuid issues pcfg wcfg (committed (pg t)) log"
| patch: "system_history S cfg uuid issues pcfg wcfg (committed (pg (s :: 'e app_state))) log \<Longrightarrow>
     patch_order S cfg uuid issues oid user body s = (out', t) \<Longrightarrow>
     system_history S cfg uuid issues pcfg wcfg (committed (pg t)) log"
| poll: "system_history S cfg uuid issues pcfg wcfg (committed (pub_pg p)) (confirmed p) \<Longrightarrow>
     pollOnce pcfg p = (ended, q) \<Longrightarrow>
     system_history S cfg uuid issues pcfg wcfg (committed (pub_pg q)) (confirmed q)"
| delivery: "system_history S cfg uuid issues pcfg wcfg (committed (wk_pg w)) log \<Longrightarrow>
     handleMessage wcfg env (Some dl) w = (ended', v) \<Longrightarrow>
     system_history S cfg uuid issues pcfg wcfg (committed (wk_pg v)) log"
| others: "system_history S cfg uuid issues pcfg wcfg d log \<Longrightarrow> orders d' = orders d \<Longrightarrow>
     order_events d' = order_events d \<Longrightarrow> outbox_events d' = outbox_events d \<Longrightarrow>
     system_history S cfg uuid issues pcfg wcfg d' log"

lemma created_loses_nothing: "created userId dat d d' row \<Longrightarrow> no_event_lost log d \<Longrightarrow> no_event_lost log d'"
  by (auto simp: created_def order_added_def new_order_rows_def no_event_lost_def)

lemma patch_spec_outbox: "patch_spec d now oid u target r d' \<Longrightarrow> outbox_events d' = outbox_events d"
  by (auto simp: patch_spec_def status_changed_def split: option.splits if_splits)

lemma patch_order_outbox:
  fixes s :: "('e, 'm) app_state_scheme"
  assumes "patch_order S cfg uuid issues oid user body s = (out, t)"
  shows "outbox_events (committed (pg t)) = outbox_events (committed (pg s))"
proof -
  consider (rejected) r where "patch_order S cfg uuid issues oid user body = (io_return r :: (('e, 'm) app_state_scheme, response) io)"
    | (runs) u target where "user = Some u" "patchOrderSchema body = Some target" "orderIdParamsSchema oid"
    by (rule patch_order_cases)
  then show ?thesis
  proof cases
    case (rejected r)
    with assms show ?thesis by simp
  next
    case (runs u target)
    from wp_outcome[OF patch_order_wp[OF runs(3,2) refl refl refl] assms[unfolded runs(1)]]
    show ?thesis by (auto simp: patch_spec_error_def dest: patch_spec_outbox split: sum.splits)
  qed
qed

lemma progress_loses_nothing:
  assumes "progress log d0 d" and "no_event_lost log d0"
  shows "no_event_lost log d"
proof -
  have rel: "list_all2 (row_progress log) (outbox_events d0) (outbox_events d)" using assms(1) by (simp add: progress_def)
  have "ob_published_at b = None \<or> message_of b \<in> set log" if b: "b \<in> set (outbox_events d)" for b
  proof -
    obtain a where a: "a \<in> set (outbox_events d0)" "row_progress log a b"
      using rel b by (metis in_set_conv_nth list_all2_conv_all_nth)
    then have "message_of b = message_of a" by (simp add: row_progress_def message_of_def)
    with a assms(2) show ?thesis by (auto simp: row_progress_def no_event_lost_def)
  qed
  then show ?thesis by (simp add: no_event_lost_def)
qed

lemma no_event_lost_grows: "no_event_lost log d \<Longrightarrow> no_event_lost (log @ newer) d"
  by (auto simp: no_event_lost_def)

text \<open>Each step keeps both invariants.\<close>

definition system_ok :: "database \<Rightarrow> amqp_message list \<Rightarrow> bool" where
  "system_ok d log \<longleftrightarrow> orders_ok d \<and> no_event_lost log d"

lemma create_keeps_system_ok:
  fixes s :: "('e, 'm) app_state_scheme"
  assumes "system_ok (committed (pg s)) log" and "createOrderTransactionally S cfg uuid request userId dat s = (out, t)"
  shows "system_ok (committed (pg t)) log"
  using wp_outcome[OF createOrder_wp assms(2)] create_keeps_orders_ok[OF _ assms(2)] assms(1)
  by (auto simp: system_ok_def intro: created_loses_nothing split: sum.splits)

lemma poll_keeps_system_ok:
  assumes "system_ok (committed (pub_pg p)) (confirmed p)" and "pollOnce pcfg p = (out, q)"
  shows "system_ok (committed (pub_pg q)) (confirmed q)"
proof -
  have "distinct (map ob_id (outbox_events (committed (pub_pg p))))"
    using assms(1) by (simp add: system_ok_def orders_ok_def)
  from wp_outcome[OF pollOnce_wp[OF this] assms(2)]
  have q: "progress (confirmed q) (committed (pub_pg p)) (committed (pub_pg q))" "\<exists>newer. confirmed q = confirmed p @ newer"
    by (auto simp: polled_def split: sum.splits)
  then have "no_event_lost (confirmed q) (committed (pub_pg p))"
    using assms(1) no_event_lost_grows by (auto simp: system_ok_def)
  with q(1) assms(1) show ?thesis
    by (simp add: system_ok_def progress_loses_nothing progress_keeps_orders_ok)
qed

lemma others_keep_system_ok:
  "system_ok d log \<Longrightarrow> orders d' = orders d \<Longrightarrow> order_events d' = order_events d \<Longrightarrow> outbox_events d' = outbox_events d \<Longrightarrow>
   system_ok d' log"
  by (auto simp: system_ok_def no_event_lost_def intro: others_keep_orders_ok)

lemma system_history_ok: "system_history S cfg uuid issues pcfg wcfg d log \<Longrightarrow> system_ok d log"
proof (induction rule: system_history.induct)
  case (start d)
  then show ?case by (simp add: system_ok_def orders_ok_empty no_event_lost_def)
next
  case (create s log request userId dat out t)
  show ?case by (rule create_keeps_system_ok[OF create.IH create.hyps(2)])
next
  case (patch s log oid user body out' t)
  then show ?case using patch_order_keeps_orders_ok[OF _ patch.hyps(2)] patch_order_outbox[OF patch.hyps(2)]
    by (simp add: system_ok_def no_event_lost_def)
next
  case (poll p ended q)
  show ?case by (rule poll_keeps_system_ok[OF poll.IH poll.hyps(2)])
next
  case (delivery w log env dl ended' v)
  from handleMessage_only_processed[of w wcfg env dl] delivery.hyps(2)
  have "only_processed (committed (wk_pg w)) (committed (wk_pg v))" by simp
  then show ?case by (intro others_keep_system_ok[OF delivery.IH]) (auto simp: only_processed_def)
next
  case (others d log d')
  show ?case by (rule others_keep_system_ok[OF others.IH others.hyps(2-4)])
qed

section \<open>Properties\<close>

text \<open>C18: No order event is ever lost: in every history of the services, with any failures, every committed
  order has exactly one event in the outbox, which names the order, and it is still to be
  published or the broker has accepted its message, from which the worker reads the event.\<close>

theorem no_order_event_lost:
  assumes "system_history S cfg uuid issues pcfg wcfg d log" and "ord \<in> set (orders d)"
  shows "\<exists>row. outbox_of d (o_id ord) = [row] \<and> uuid_in (orderId (ob_payload row)) = o_id ord \<and>
    (ob_published_at row = None \<or> (\<exists>m\<in>set log. parseEvent m = Inr (ob_payload row)))"
proof -
  have ok: "orders_ok d" and kept: "no_event_lost log d" using system_history_ok[OF assms(1)] by (simp_all add: system_ok_def)
  have "length (outbox_of d (o_id ord)) = 1" using ok assms(2) by (simp add: orders_ok_def)
  then obtain row where row: "outbox_of d (o_id ord) = [row]" by (auto simp: length_Suc_conv)
  then have "row \<in> set (outbox_of d (o_id ord))" by simp
  then have "row \<in> set (outbox_events d)" "ob_aggregate_id row = o_id ord"
    by (simp_all add: outbox_of_def)
  moreover from this kept have "ob_published_at row = None \<or> (\<exists>m\<in>set log. parseEvent m = Inr (ob_payload row))"
    using message_of_parses[of row] by (auto simp: no_event_lost_def)
  ultimately show ?thesis using ok row by (intro exI[of _ row]) (simp add: orders_ok_def)
qed

text \<open>C19: From the outbox to the customer: if nothing fails, the event of an order that is due in the batch is
  accepted by the broker in this poll, and a worker that gets the message and did not record the
  event before notifies it, once, for an order that is in the tables, and acknowledges.\<close>

theorem due_event_is_notified:
  assumes "system_history S cfg uuid issues pcfg wcfg (committed (pub_pg p)) (confirmed p)"
    and "healthy p" and "0 \<le> pc_batchSize pcfg" and "row \<in> set (due_batch pcfg p)"
    and "pg_script (wk_pg w) = []" and "wk_channel w \<noteq> None" and "on_time wcfg env"
    and "orderIdParamsSchema (eventId (ob_payload row))" and "\<not> recorded (ob_payload row) (committed (wk_pg w))"
  shows "\<exists>q. pollOnce pcfg p = (Inr (), q) \<and> message_of row \<in> set (confirmed q) \<and>
    (\<exists>v k. handleMessage wcfg env (Some \<lparr>dl_channel = c, dl_tag = n, dl_message = message_of row\<rparr>) w = (Inr (), v) \<and>
       notified v = notified w @ [ob_payload row] \<and> acked v = acked w @ [(k, n)] \<and> sent v = sent w) \<and>
    (\<exists>ord\<in>set (orders (committed (pub_pg q))). o_id ord = uuid_in (orderId (ob_payload row)))"
proof -
  obtain q where q: "pollOnce pcfg p = (Inr (), q)" "confirmed q = confirmed p @ map message_of (due_batch pcfg p)"
    "orders (committed (pub_pg q)) = orders (committed (pub_pg p))"
    by (rule exE[OF poll_outcome[OF assms(2,3)]]) auto
  obtain c' where c': "wk_channel w = Some c'" using assms(6) by auto
  have "row \<in> set (outbox_events (committed (pub_pg p)))"
    using assms(4) by (auto simp: due_batch_def dest: in_set_takeD)
  then have "uuid_in (orderId (ob_payload row)) \<in> o_id ` set (orders (committed (pub_pg p)))"
    using system_history_ok[OF assms(1)] by (auto simp: system_ok_def orders_ok_def)
  then obtain ord where ord: "ord \<in> set (orders (committed (pub_pg q)))" "o_id ord = uuid_in (orderId (ob_payload row))"
    using q(3) by auto
  obtain v k where "handleMessage wcfg env (Some \<lparr>dl_channel = c, dl_tag = n, dl_message = message_of row\<rparr>) w = (Inr (), v)"
    "effect_once (ob_payload row) w v" "acked v = acked w @ [(k, n)]" "sent v = sent w"
    using handleMessage_healthy[OF assms(5) c' assms(7), of "\<lparr>dl_channel = c, dl_tag = n, dl_message = message_of row\<rparr>"]
      message_of_parses[of row] assms(8) by auto
  moreover have "message_of row \<in> set (confirmed q)" using q(2) assms(4) by simp
  ultimately show ?thesis using q(1) ord assms(9)
    by (intro exI[of _ q]) (auto simp: effect_once_def)
qed

section \<open>Witnesses\<close>

definition history_uuid :: "nat \<Rightarrow> string" where
  "history_uuid n = ''0a0b0c0d-0000-4000-8000-00000000000'' @ [''0123456789abcdef'' ! (n mod 16)]"

definition history_row :: outbox_row where
  "history_row = new_outbox_row stub_services history_uuid demo_request (demo_app (\<lambda>_. None))"

lemma demo_history:
  obtains d where "system_history stub_services demo_config history_uuid (\<lambda>j. []) demo_publisher_config demo_worker_config d []"
    "outbox_events d = [history_row]" "length (orders d) = 1"
proof -
  let ?s = "demo_app (\<lambda>_. None) :: (string \<Rightarrow> string option) app_state"
  have ready: "create_ready (pg ?s) history_uuid demo_request ''u1'' demo_order"
    by (simp add: create_ready_def order_storable_def correlation_of_def demo_world_def demo_database_def demo_order_def history_uuid_def demo_request_def
        int4_ok_def totalCents_def items_ok_def text_ok_def uuid_in_def js_lower_def lower_char_def Let_def)
  obtain r t where run: "createOrderTransactionally stub_services demo_config history_uuid demo_request ''u1'' demo_order ?s = (Inr r, t)"
    and box: "outbox_events (committed (pg t)) = outbox_events (committed (pg ?s)) @ [history_row]"
    by (rule create_succeeds[OF ready, of stub_services demo_config]) (simp add: history_row_def)
  have "system_history stub_services demo_config history_uuid (\<lambda>j. []) demo_publisher_config demo_worker_config (committed (pg ?s)) []"
    by (rule system_history.start; simp add: demo_world_def demo_database_def)
  from system_history.create[OF this run] box wp_ok[OF createOrder_wp run] show ?thesis
    by (intro that[of "committed (pg t)"]) (auto simp: demo_world_def demo_database_def created_def order_added_def)
qed

theorem no_order_event_lost_witness:
  "\<exists>d log ord row. length (orders d) = 1 \<and> ord \<in> set (orders d) \<and> outbox_of d (o_id ord) = [row] \<and>
     uuid_in (orderId (ob_payload row)) = o_id ord \<and>
     (ob_published_at row = None \<or> (\<exists>m\<in>set log. parseEvent m = Inr (ob_payload row)))"
proof -
  obtain d where d: "system_history stub_services demo_config history_uuid (\<lambda>j. []) demo_publisher_config demo_worker_config d []"
    "length (orders d) = 1" by (rule demo_history)
  then obtain ord where ord: "ord \<in> set (orders d)" by (cases "orders d") auto
  with no_order_event_lost[OF d(1) ord] d(2) show ?thesis by blast
qed

theorem due_event_is_notified_witness:
  "\<exists>p q v. pollOnce demo_publisher_config p = (Inr (), q) \<and> message_of history_row \<in> set (confirmed q) \<and>
     handleMessage demo_worker_config demo_env
       (Some \<lparr>dl_channel = 0, dl_tag = 1, dl_message = message_of history_row\<rparr>) (demo_worker []) = (Inr (), v) \<and>
     notified v = [ob_payload history_row]"
proof -
  obtain d where d: "system_history stub_services demo_config history_uuid (\<lambda>j. []) demo_publisher_config demo_worker_config d []"
    "outbox_events d = [history_row]" by (rule demo_history)
  let ?p = "(demo_publisher Idle [] [])\<lparr>pub_pg := (demo_pg Idle [])\<lparr>committed := d\<rparr>\<rparr>"
  have history: "system_history stub_services demo_config history_uuid (\<lambda>j. []) demo_publisher_config demo_worker_config
      (committed (pub_pg ?p)) (confirmed ?p)" using d(1) by (simp add: demo_publisher_def)
  have "healthy ?p" "0 \<le> pc_batchSize demo_publisher_config"
    by (simp_all add: healthy_def demo_publisher_simps)
  moreover have "row \<in> set (due_batch demo_publisher_config ?p)" if "row = history_row" for row
    using d(2) by (simp add: that due_batch_def demo_publisher_simps due_def history_row_def new_outbox_row_def Let_def
        demo_world_def)
  moreover have "orderIdParamsSchema (eventId (ob_payload history_row))"
    by (simp add: history_row_def new_outbox_row_def Let_def demo_world_def history_uuid_def orderIdParamsSchema_def is_hex_def)
  moreover have "\<not> recorded (ob_payload history_row) (committed (wk_pg (demo_worker [])))" by (simp add: recorded_def)
  ultimately have "\<exists>q. pollOnce demo_publisher_config ?p = (Inr (), q) \<and> message_of history_row \<in> set (confirmed q) \<and>
    (\<exists>v k. handleMessage demo_worker_config demo_env (Some \<lparr>dl_channel = 0, dl_tag = 1, dl_message = message_of history_row\<rparr>)
         (demo_worker []) = (Inr (), v) \<and>
       notified v = notified (demo_worker []) @ [ob_payload history_row] \<and>
       acked v = acked (demo_worker []) @ [(k, 1)] \<and> sent v = sent (demo_worker [])) \<and>
    (\<exists>ord\<in>set (orders (committed (pub_pg q))). o_id ord = uuid_in (orderId (ob_payload history_row)))"
    by (intro due_event_is_notified[OF history _ _ _ _ _ demo_on_time]) simp_all
  then show ?thesis by auto
qed

end
