(* ===== verification/Auth_Store.thy ===== *)
theory Auth_Store
  imports Order_Store Http_Request
begin

text \<open>
  What the authentication handlers build on: the cryptographic libraries as a parameter
  (\<open>argon2\<close>, \<open>jsonwebtoken\<close>, \<open>node:crypto\<close>, with the helpers of \<open>utils/tokens.ts\<close>), the schemas
  of \<open>schemas/auth.schemas.ts\<close>, and the SQL of \<open>routes/auth.routes.ts\<close>.
\<close>

section \<open>Cryptography\<close>

text \<open>
  \<open>argon2_hash pw n\<close> is the hash with the n-th random salt. \<open>jwt_sign\<close> and \<open>jwt_verify\<close> get the
  clock; \<open>None\<close> is a token that \<open>jwt.verify\<close> refuses.
\<close>

record auth_lib =
  argon2_hash :: "string \<Rightarrow> nat \<Rightarrow> js_error + string"
  argon2_verify :: "string \<Rightarrow> string \<Rightarrow> js_error + bool"
  sha256_hex :: "string \<Rightarrow> string"
  random_base64url :: "nat \<Rightarrow> string"
  jwt_sign :: "json \<Rightarrow> string \<Rightarrow> int \<Rightarrow> int \<Rightarrow> js_error + string"
  jwt_verify :: "string \<Rightarrow> string \<Rightarrow> int \<Rightarrow> json option"

definition hashToken :: "auth_lib \<Rightarrow> string \<Rightarrow> string" where
  "hashToken A token = sha256_hex A token"

definition newRefreshToken :: "auth_lib \<Rightarrow> (('e, 'm) app_state_scheme, string) io" where
  "newRefreshToken A = randomUUID (random_base64url A)"

definition secondsFromNow :: "int \<Rightarrow> int \<Rightarrow> int" where
  "secondsFromNow now seconds = now + seconds * 1000"

section \<open>Schemas\<close>

record credentials =
  cr_email :: string
  cr_password :: string

definition passwordSchema :: "string \<Rightarrow> bool" where
  "passwordSchema pw = (12 \<le> length pw)"

definition registerSchema :: "json \<Rightarrow> credentials option" where
  "registerSchema j = (case j of
     JObj ps \<Rightarrow>
       (case (map_of ps ''email'', map_of ps ''password'') of
          (Some (JStr e), Some (JStr p)) \<Rightarrow>
            if emailSchema e \<and> passwordSchema p then Some \<lparr>cr_email = e, cr_password = p\<rparr> else None
        | _ \<Rightarrow> None)
   | _ \<Rightarrow> None)"

definition loginSchema :: "json \<Rightarrow> credentials option" where
  "loginSchema = registerSchema"

definition refreshSchema :: "json \<Rightarrow> string option" where
  "refreshSchema j = (case j of
     JObj ps \<Rightarrow> (case map_of ps ''refreshToken'' of
        Some (JStr t) \<Rightarrow> if 32 \<le> length t then Some t else None
      | _ \<Rightarrow> None)
   | _ \<Rightarrow> None)"

definition logoutSchema :: "json \<Rightarrow> string option" where
  "logoutSchema = refreshSchema"

section \<open>Statements on users\<close>

definition insert_user :: "string \<Rightarrow> string \<Rightarrow> string \<Rightarrow> user_row statement" where
  "insert_user uid email hash now d =
     (if \<not> (text_ok email \<and> text_ok hash) then Inl bad_text
      else if uuid_in uid \<in> us_id ` set (users d) \<or> js_lower email \<in> us_email ` set (users d) then Inl unique_violation
      else let row = \<lparr>us_id = uuid_in uid, us_email = js_lower email, us_password_hash = hash,
                      us_failed_login_count = 0, us_locked_until = None\<rparr>
           in Inr (row, d\<lparr>users := users d @ [row]\<rparr>))"

definition find_user :: "string \<Rightarrow> database \<Rightarrow> user_row option" where
  "find_user email d = find (\<lambda>row. us_email row = js_lower email) (users d)"

definition select_user :: "string \<Rightarrow> user_row option statement" where
  "select_user email now d = (if \<not> text_ok email then Inl bad_text else Inr (find_user email d, d))"

definition update_user :: "string \<Rightarrow> (user_row \<Rightarrow> user_row) \<Rightarrow> database \<Rightarrow> database" where
  "update_user uid f d = d\<lparr>users := map (\<lambda>row. if us_id row = uuid_in uid then f row else row) (users d)\<rparr>"

definition record_login_failure :: "string \<Rightarrow> int \<Rightarrow> int option \<Rightarrow> unit statement" where
  "record_login_failure uid n until now d =
     (if \<not> int4_ok n then Inl out_of_range
      else Inr ((), update_user uid (\<lambda>row. row\<lparr>us_failed_login_count := n, us_locked_until := until\<rparr>) d))"

definition clear_login_failures :: "string \<Rightarrow> unit statement" where
  "clear_login_failures uid now d =
     Inr ((), update_user uid (\<lambda>row. row\<lparr>us_failed_login_count := 0, us_locked_until := None\<rparr>) d)"

section \<open>Statements on refresh tokens\<close>

definition insert_refresh_token :: "string \<Rightarrow> string \<Rightarrow> string \<Rightarrow> int \<Rightarrow> unit statement" where
  "insert_refresh_token tid uid hash expires now d =
     (if \<not> text_ok hash then Inl bad_text
      else if uuid_in tid \<in> rt_id ` set (refresh_tokens d) \<or> hash \<in> rt_token_hash ` set (refresh_tokens d)
      then Inl unique_violation
      else if uuid_in uid \<notin> us_id ` set (users d) then Inl foreign_key_violation
      else Inr ((), d\<lparr>refresh_tokens := refresh_tokens d @
             [\<lparr>rt_id = uuid_in tid, rt_user_id = uuid_in uid, rt_token_hash = hash, rt_expires_at = expires,
               rt_revoked_at = None\<rparr>]\<rparr>))"

text \<open>\<open>SELECT ... FROM refresh_tokens rt JOIN users u ON u.id = rt.user_id WHERE rt.token_hash = $1\<close>.\<close>

definition find_token :: "string \<Rightarrow> database \<Rightarrow> (refresh_token_row \<times> string) option" where
  "find_token hash d =
     (case find (\<lambda>rt. rt_token_hash rt = hash \<and> rt_user_id rt \<in> us_id ` set (users d)) (refresh_tokens d) of
        None \<Rightarrow> None
      | Some rt \<Rightarrow> map_option (\<lambda>u. (rt, us_email u)) (find (\<lambda>u. us_id u = rt_user_id rt) (users d)))"

definition select_token :: "string \<Rightarrow> (refresh_token_row \<times> string) option statement" where
  "select_token hash now d = Inr (find_token hash d, d)"

definition revoke_where :: "(refresh_token_row \<Rightarrow> bool) \<Rightarrow> unit statement" where
  "revoke_where P now d =
     Inr ((), d\<lparr>refresh_tokens := map (\<lambda>rt. if P rt then rt\<lparr>rt_revoked_at := Some now\<rparr> else rt) (refresh_tokens d)\<rparr>)"

definition revoke_active_of :: "string \<Rightarrow> unit statement" where
  "revoke_active_of uid = revoke_where (\<lambda>rt. rt_user_id rt = uuid_in uid \<and> rt_revoked_at rt = None)"

definition revoke_token :: "string \<Rightarrow> unit statement" where
  "revoke_token tid = revoke_where (\<lambda>rt. rt_id rt = uuid_in tid)"

definition revoke_hash :: "string \<Rightarrow> unit statement" where
  "revoke_hash hash = revoke_where (\<lambda>rt. rt_token_hash rt = hash)"

end
