(* ===== verification/Rate_Limit.thy ===== *)
theory Rate_Limit
  imports Http_Request Redis_Model
begin

text \<open>
  \<open>middleware/rate-limit.ts\<close>: the fixed-window request limiter. The result of the hook is the
  response it sends (\<open>None\<close>: the request goes on). The lemmas are stated over the locale
  \<open>redis_up\<close>: the states of the outside world in which Redis answers the commands of the
  limiter.
\<close>

section \<open>The code\<close>

definition rate_exempt :: "string \<Rightarrow> bool" where
  "rate_exempt url = (starts_with url ''/health'' \<or> url = ''/metrics'' \<or> url = ''/docs'' \<or> starts_with url ''/docs/'')"

text \<open>\<open>Math.floor(Date.now() / 1000 / windowSeconds)\<close> as the key shows it.\<close>

definition window_bucket :: "int \<Rightarrow> int \<Rightarrow> string" where
  "window_bucket now windowSeconds =
     (if windowSeconds = 0
      then (if 0 < now then ''Infinity'' else if now = 0 then ''NaN'' else ''-Infinity'')
      else int_to_string (now div (1000 * windowSeconds)))"

definition rate_key :: "'e services \<Rightarrow> api_config \<Rightarrow> http_request \<Rightarrow> 'e \<Rightarrow> string" where
  "rate_key S cfg request e = ''rate:'' @ getClientIdentifier request cfg @ '':'' @
     window_bucket (date_now S e) (rateLimitWindowSeconds cfg)"

definition too_many_requests :: response where
  "too_many_requests = error_response 429 ''RATE_LIMIT_EXCEEDED'' ''Too many requests''"

definition enforceRateLimit ::
  "'e services \<Rightarrow> api_config \<Rightarrow> http_request \<Rightarrow> (('e, 'm) api_state_scheme, response option) io" where
  "enforceRateLimit S cfg request =
     (if rate_exempt (req_url request) then io_return None
      else io_bind (io_get (\<lambda>s. rate_key S cfg request (ext s))) (\<lambda>key.
        io_catch
          (io_bind (await (ext_call (redis_incr S key))) (\<lambda>count.
           io_bind (if count = 1 then await (ext_call (redis_expire S key (rateLimitWindowSeconds cfg)))
                    else io_return ()) (\<lambda>u.
           io_bind (await (ext_call (redis_ttl S key))) (\<lambda>ttl.
             let retryAfter = max ttl 1; remaining = max (rateLimitRequests cfg - count) 0
             in io_bind (set_header ''X-RateLimit-Limit'' (int_to_string (rateLimitRequests cfg))) (\<lambda>u.
                io_bind (set_header ''X-RateLimit-Remaining'' (int_to_string remaining)) (\<lambda>u.
                io_bind (set_header ''X-RateLimit-Reset'' (int_to_string retryAfter)) (\<lambda>u.
                  if rateLimitRequests cfg < count
                  then io_bind (set_header ''Retry-After'' (int_to_string retryAfter))
                         (\<lambda>u. io_return (Some too_many_requests))
                  else io_return None)))))))
          (\<lambda>error. io_bind (warnOncePerMinute S ''rate-limit'' ''Rate limit storage unavailable; failing open'' error)
             (\<lambda>u. io_return None))))"

section \<open>When Redis is up\<close>

definition count_at :: "kv \<Rightarrow> string \<Rightarrow> int" where
  "count_at st k = (case st k of None \<Rightarrow> 0 | Some s \<Rightarrow> (case parseInt s of None \<Rightarrow> 0 | Some c \<Rightarrow> c))"

definition counts_only :: "kv \<Rightarrow> string \<Rightarrow> bool" where
  "counts_only st k = (st k = None \<or> (\<exists>c. st k = Some (int_to_string c)))"

locale redis_up = redis_expiring +
  fixes up :: "'a \<Rightarrow> bool"
  assumes incr_up: "up e \<Longrightarrow> counts_only (store e) k \<Longrightarrow> redis_incr S k e = (pn, e') \<Longrightarrow>
      (\<exists>n. outcome pn = Inr n) \<and> up e'"
    and expire_up: "up e \<Longrightarrow> redis_expire S k ttl e = (pu, e') \<Longrightarrow> (\<exists>u. outcome pu = Inr u) \<and> up e'"
    and ttl_up: "up e \<Longrightarrow> redis_ttl S k e = (pn, e') \<Longrightarrow> (\<exists>n. outcome pn = Inr n) \<and> up e'"
    and get_up: "up e \<Longrightarrow> redis_get S k e = (pv, e') \<Longrightarrow> (\<exists>v. outcome pv = Inr v) \<and> up e'"
begin

lemma get_eval:
  assumes "up (ext s)"
  obtains e' where "await (ext_call (redis_get S k)) s = (Inr (store (ext s) k), s\<lparr>ext := e'\<rparr>)"
    and "store e' = store (ext s)" and "up e'"
proof -
  obtain p e' where call: "redis_get S k (ext s) = (p, e')" by (cases "redis_get S k (ext s)")
  then obtain v where v: "outcome p = Inr v" and up: "up e'" using get_up[OF assms call] by blast
  with that[of e'] call get_value[OF call v] get_store[OF call] show thesis by (simp add: await_def ext_call_def)
qed

lemma incr_eval:
  assumes "up (ext s)" and "counts_only (store (ext s)) k"
  obtains e' where "await (ext_call (redis_incr S k)) s = (Inr (count_at (store (ext s)) k + 1), s\<lparr>ext := e'\<rparr>)"
    and "store e' = (store (ext s))(k \<mapsto> int_to_string (count_at (store (ext s)) k + 1))" and "up e'"
proof -
  obtain p e' where call: "redis_incr S k (ext s) = (p, e')" by (cases "redis_incr S k (ext s)")
  then obtain n where n: "outcome p = Inr n" and up: "up e'" using incr_up[OF assms call] by blast
  have "n = count_at (store (ext s)) k + 1"
    using incr_ok[OF call n] assms(2) by (auto simp: counts_only_def count_at_def)
  with that[of e'] up call n incr_ok[OF call n] show thesis by (simp add: await_def ext_call_def)
qed

lemma expire_eval:
  assumes "up (ext s)" and "0 < ttl"
  obtains e' where "await (ext_call (redis_expire S k ttl)) s = (Inr (), s\<lparr>ext := e'\<rparr>)"
    and "store e' = store (ext s)" and "up e'"
proof -
  obtain p e' where call: "redis_expire S k ttl (ext s) = (p, e')" by (cases "redis_expire S k ttl (ext s)")
  with that[of e'] expire_up[OF assms(1) call] expire_store[OF call assms(2)] show thesis
    by (auto simp: await_def ext_call_def)
qed

lemma ttl_eval:
  assumes "up (ext s)"
  obtains n e' where "await (ext_call (redis_ttl S k)) s = (Inr n, s\<lparr>ext := e'\<rparr>)"
    and "store e' = store (ext s)" and "up e'"
proof -
  obtain p e' where call: "redis_ttl S k (ext s) = (p, e')" by (cases "redis_ttl S k (ext s)")
  then obtain n where "outcome p = Inr n" "up e'" using ttl_up[OF assms call] by blast
  with that[of n e'] call ttl_store[OF call] show thesis by (simp add: await_def ext_call_def)
qed

text \<open>One request: it is counted, and rejected iff the count passes the limit.\<close>

lemma enforceRateLimit_eval:
  assumes "up (ext s)" and "\<not> rate_exempt (req_url request)" and "0 < rateLimitWindowSeconds cfg"
    and "counts_only (store (ext s)) (rate_key S cfg request (ext s))"
  obtains s' where "enforceRateLimit S cfg request s =
      (Inr (if rateLimitRequests cfg < count_at (store (ext s)) (rate_key S cfg request (ext s)) + 1
            then Some too_many_requests else None), s')"
    and "store (ext s') = (store (ext s))(rate_key S cfg request (ext s) \<mapsto>
      int_to_string (count_at (store (ext s)) (rate_key S cfg request (ext s)) + 1))"
    and "up (ext s')"
proof -
  let ?k = "rate_key S cfg request (ext s)"
  let ?n = "count_at (store (ext s)) ?k + 1"
  obtain e1 where e1: "await (ext_call (redis_incr S ?k)) s = (Inr ?n, s\<lparr>ext := e1\<rparr>)"
    "store e1 = (store (ext s))(?k \<mapsto> int_to_string ?n)" "up e1"
    by (rule incr_eval[OF assms(1,4)])
  obtain e2 where e2: "(if ?n = 1 then await (ext_call (redis_expire S ?k (rateLimitWindowSeconds cfg)))
      else io_return ()) (s\<lparr>ext := e1\<rparr>) = (Inr (), s\<lparr>ext := e2\<rparr>)" "store e2 = store e1" "up e2"
    using e1(3) expire_eval[of "s\<lparr>ext := e1\<rparr>" "rateLimitWindowSeconds cfg" ?k] assms(3) by (cases "?n = 1") auto
  obtain t e3 where e3: "await (ext_call (redis_ttl S ?k)) (s\<lparr>ext := e2\<rparr>) = (Inr t, s\<lparr>ext := e3\<rparr>)"
    "store e3 = store e2" "up e3"
    using ttl_eval[of "s\<lparr>ext := e2\<rparr>" ?k] e2(3) by auto
  let ?out = "enforceRateLimit S cfg request s"
  have "fst ?out = Inr (if rateLimitRequests cfg < ?n then Some too_many_requests else None) \<and> ext (snd ?out) = e3"
    using e1(1) e2(1) e3(1) assms(2)
    by (simp add: enforceRateLimit_def io_bind_apply io_catch_apply Let_def set_header_def del: if_image_distrib)
  with that[of "snd ?out"] e1 e2 e3 show thesis by (simp add: prod_eq_iff)
qed

lemma rate_key_prefix: "take 5 (rate_key S cfg request e) = ''rate:''"
  by (simp add: rate_key_def)

text \<open>A sequence of requests: the key each was counted under and what the hook answered.\<close>

end

fun rate_run ::
  "'e services \<Rightarrow> api_config \<Rightarrow> http_request list \<Rightarrow> ('e, 'm) api_state_scheme
     \<Rightarrow> (string \<times> (js_error + response option)) list" where
  "rate_run S cfg [] s = []"
| "rate_run S cfg (request # rest) s =
     (case enforceRateLimit S cfg request s of
        (out, s') \<Rightarrow> (rate_key S cfg request (ext s), out) # rate_run S cfg rest s')"

text \<open>What the limiter promises, without Redis: a request is rejected iff \<open>limit\<close> earlier requests used its key.\<close>

fun rate_spec :: "int \<Rightarrow> (string \<Rightarrow> int) \<Rightarrow> string list \<Rightarrow> (string \<times> (js_error + response option)) list" where
  "rate_spec limit n [] = []"
| "rate_spec limit n (k # ks) =
     (k, Inr (if limit \<le> n k then Some too_many_requests else None)) # rate_spec limit (n(k := n k + 1)) ks"

lemma rate_spec_nth:
  "i < length ks \<Longrightarrow> rate_spec limit n ks ! i =
     (ks ! i, Inr (if limit \<le> n (ks ! i) + int (count_list (take i ks) (ks ! i)) then Some too_many_requests else None))"
proof (induction ks arbitrary: n i)
  case (Cons k ks)
  then show ?case by (cases i) auto
qed simp

lemma rate_spec_length [simp]: "length (rate_spec limit n ks) = length ks"
  by (induction ks arbitrary: n) auto

lemma map_fst_rate_spec [simp]: "map fst (rate_spec limit n ks) = ks"
  by (induction ks arbitrary: n) auto

context redis_up
begin

lemma rate_run_refines:
  assumes "up (ext s)" and "0 < rateLimitWindowSeconds cfg"
    and "\<forall>request\<in>set requests. \<not> rate_exempt (req_url request)"
    and "\<And>k. take 5 k = ''rate:'' \<Longrightarrow> counts_only (store (ext s)) k"
  shows "rate_run S cfg requests s =
    rate_spec (rateLimitRequests cfg) (count_at (store (ext s))) (map fst (rate_run S cfg requests s))"
  using assms(1,3,4)
proof (induction requests arbitrary: s)
  case (Cons request rest)
  let ?k = "rate_key S cfg request (ext s)" and ?c = "count_at (store (ext s))"
  from Cons.prems have ne: "\<not> rate_exempt (req_url request)" by simp
  obtain s' where run: "enforceRateLimit S cfg request s =
      (Inr (if rateLimitRequests cfg < ?c ?k + 1 then Some too_many_requests else None), s')"
    and st: "store (ext s') = (store (ext s))(?k \<mapsto> int_to_string (?c ?k + 1))" and up: "up (ext s')"
    by (rule enforceRateLimit_eval[OF Cons.prems(1) ne assms(2) Cons.prems(3)[OF rate_key_prefix]])
  have counts: "counts_only (store (ext s')) k" if "take 5 k = ''rate:''" for k
    using Cons.prems(3)[OF that] by (auto simp: st counts_only_def)
  have bumped: "count_at (store (ext s')) = ?c(?k := ?c ?k + 1)"
    by (rule ext) (simp add: st count_at_def)
  have "rate_run S cfg rest s' = rate_spec (rateLimitRequests cfg) (?c(?k := ?c ?k + 1))
      (map fst (rate_run S cfg rest s'))"
    using Cons.IH[OF up _ counts] Cons.prems(2) by (simp add: bumped del: fun_upd_apply)
  then show ?case by (simp add: run del: fun_upd_apply)
qed simp

end

text \<open>The server provides the interface while its script is empty: every command is answered.\<close>

interpretation server: redis_up server_services live "\<lambda>sv. rs_script sv = []"
proof (unfold_locales, goal_cases)
  case (1 e k pn e')
  then show ?case
    by (auto simp: server_defs run_command_def incr_effect_def counts_only_def store_key_def
        split: prod.splits option.splits)
next
  case (2 e k ttl pu e')
  then show ?case
    by (auto simp: server_defs run_command_def store_key_def split: option.splits)
next
  case (3 e k pn e')
  then show ?case by (auto simp: server_defs run_command_def)
next
  case (4 e k pv e')
  then show ?case by (auto simp: server_defs run_command_def)
qed

section \<open>Properties\<close>

text \<open>The limiter fails open: whatever Redis does, the hook never throws, and a request it stops got a
  count above the limit from Redis. If the \<open>INCR\<close> of a request fails, the request goes on.\<close>

theorem rate_limit_fails_open:
  fixes s :: "('e, 'm) api_state_scheme"
  shows "never_throws (enforceRateLimit S cfg request :: (('e, 'm) api_state_scheme, response option) io) \<and>
    (outcome (fst (redis_incr S (rate_key S cfg request (ext s)) (ext s))) = Inl x \<longrightarrow>
       fst (enforceRateLimit S cfg request s) = Inr None)"
proof (intro conjI impI)
  show "never_throws (enforceRateLimit S cfg request :: (('e, 'm) api_state_scheme, response option) io)"
    unfolding enforceRateLimit_def
    by (auto intro!: never_throws_bind never_throws_catch)
next
  assume *: "outcome (fst (redis_incr S (rate_key S cfg request (ext s)) (ext s))) = Inl x"
  obtain p e' where "redis_incr S (rate_key S cfg request (ext s)) (ext s) = (p, e')"
    by (cases "redis_incr S (rate_key S cfg request (ext s)) (ext s)")
  with * have "await (ext_call (redis_incr S (rate_key S cfg request (ext s)))) s = (Inl x, s\<lparr>ext := e'\<rparr>)"
    by (simp add: await_def ext_call_def)
  then show "fst (enforceRateLimit S cfg request s) = Inr None"
    by (simp add: enforceRateLimit_def io_bind_apply io_catch_apply warnOncePerMinute_def)
qed

text \<open>C17: While Redis is up and the keys that begin with \<open>rate:\<close> hold counters, the limiter counts exactly: of any sequence of limited requests, whatever
  clients and windows they fall in, request \<open>i\<close> is stopped with 429 iff at least
  \<open>rateLimitRequests\<close> earlier requests (with those already counted in Redis) used its key.\<close>

theorem rate_limit_counts_exactly:
  assumes "redis_up S store up" and "up (ext s)" and "0 < rateLimitWindowSeconds cfg"
    and "\<forall>request\<in>set requests. \<not> rate_exempt (req_url request)"
    and "\<And>k. take 5 k = ''rate:'' \<Longrightarrow> counts_only (store (ext s)) k" and "i < length requests"
  defines "keys \<equiv> map fst (rate_run S cfg requests s)"
  shows "rate_run S cfg requests s ! i =
    (keys ! i, Inr (if rateLimitRequests cfg \<le>
        count_at (store (ext s)) (keys ! i) + int (count_list (take i keys) (keys ! i))
      then Some too_many_requests else None))"
proof -
  have len: "length (rate_run S cfg rs u) = length rs" for rs and u :: "('a, 'b) api_state_scheme"
    by (induction rs arbitrary: u) (auto split: prod.split)
  have "i < length keys" using assms(6) by (simp add: keys_def len)
  moreover have "rate_run S cfg requests s =
      rate_spec (rateLimitRequests cfg) (count_at (store (ext s))) keys"
    unfolding keys_def by (rule redis_up.rate_run_refines[OF assms(1-5)])
  ultimately show ?thesis using rate_spec_nth by metis
qed

definition demo_server :: redis_server where
  "demo_server = \<lparr>rs_data = (\<lambda>_. None), rs_now = 60000, rs_script = []\<rparr>"

definition demo_limited :: http_request where
  "demo_limited = \<lparr>req_method = ''GET'', req_url = ''/v1/orders'', req_route = Some ''/v1/orders'',
     req_ip = ''10.0.0.1'', req_id = ''r1'', req_correlationId = None, req_headers = (\<lambda>_. None)\<rparr>"

theorem rate_limit_fails_open_witness:
  "fst (enforceRateLimit server_services demo_config demo_limited
     (demo_state (demo_server\<lparr>rs_script := [Lost 0 connection_lost False]\<rparr>))) = Inr None"
proof -
  have "outcome (fst (redis_incr server_services k (demo_server\<lparr>rs_script := [Lost 0 connection_lost False]\<rparr>))) =
      Inl connection_lost" for k
    by (simp add: server_defs run_command_def)
  then show ?thesis
    using rate_limit_fails_open[of server_services demo_config demo_limited
        "demo_state (demo_server\<lparr>rs_script := [Lost 0 connection_lost False]\<rparr>)" connection_lost]
    by (simp add: demo_state_def)
qed

theorem rate_limit_counts_witness:
  "rate_run server_services (demo_config\<lparr>rateLimitRequests := 1\<rparr>) [demo_limited, demo_limited] (demo_state demo_server) ! 0 =
     (rate_key server_services demo_config demo_limited demo_server, Inr None)"
proof -
  let ?cfg = "demo_config\<lparr>rateLimitRequests := 1\<rparr>"
  have key: "rate_key server_services ?cfg demo_limited demo_server =
      rate_key server_services demo_config demo_limited demo_server"
    by (simp add: rate_key_def getClientIdentifier_def demo_config_def)
  have "fst (rate_run server_services ?cfg [demo_limited, demo_limited] (demo_state demo_server) ! 0) =
      rate_key server_services ?cfg demo_limited demo_server"
    by (simp add: demo_state_def split: prod.split)
  moreover have "rate_run server_services ?cfg [demo_limited, demo_limited] (demo_state demo_server) ! 0 =
      (map fst (rate_run server_services ?cfg [demo_limited, demo_limited] (demo_state demo_server)) ! 0,
       Inr (if rateLimitRequests ?cfg \<le> count_at (live (ext (demo_state demo_server)))
            (map fst (rate_run server_services ?cfg [demo_limited, demo_limited] (demo_state demo_server)) ! 0) +
          int (count_list (take 0 (map fst (rate_run server_services ?cfg [demo_limited, demo_limited] (demo_state demo_server))))
            (map fst (rate_run server_services ?cfg [demo_limited, demo_limited] (demo_state demo_server)) ! 0))
         then Some too_many_requests else None))"
    by (rule rate_limit_counts_exactly[OF server.redis_up_axioms])
      (auto simp: demo_state_def demo_server_def demo_config_def demo_limited_def rate_exempt_def
        counts_only_def live_def)
  moreover have "count_at (live (ext (demo_state demo_server))) k = 0" for k
    by (simp add: count_at_def live_def demo_state_def demo_server_def)
  ultimately show ?thesis by (simp add: key prod_eq_iff)
qed

end
