(* ===== verification/Auth_Routes.thy ===== *)
theory Auth_Routes
  imports Auth_Store Rate_Limit
begin

text \<open>
  \<open>routes/auth.routes.ts\<close> and \<open>middleware/authenticate.ts\<close>: registration, login with its two
  counters of failures, rotation of refresh tokens, logout, and the bearer check. The random
  values (ids, salts, refresh tokens) are draws from one sequence, in the order of the code.
\<close>

definition js_now :: "'e services \<Rightarrow> (('e, 'm) app_state_scheme, int) io" where
  "js_now S = io_get (\<lambda>s. date_now S (ext s))"

record token_pair =
  accessToken :: string
  refreshToken :: string

definition access_claims :: "auth_user \<Rightarrow> json" where
  "access_claims u = JObj [(''sub'', JStr (user_id u)), (''email'', JStr (user_email u))]"

definition createTokens ::
  "'e services \<Rightarrow> auth_lib \<Rightarrow> api_config \<Rightarrow> (nat \<Rightarrow> string) \<Rightarrow> auth_user \<Rightarrow> (('e, 'm) app_state_scheme, token_pair) io" where
  "createTokens S A cfg uuid user =
     io_bind (js_now S) (\<lambda>now.
     io_bind (lift_result (jwt_sign A (access_claims user) (jwtAccessSecret cfg) (accessTokenTtlSeconds cfg) now)) (\<lambda>access.
     io_bind (newRefreshToken A) (\<lambda>refresh.
     io_bind (randomUUID uuid) (\<lambda>tid.
     io_bind (js_now S) (\<lambda>issued.
     io_bind (on_pg (pg_pool (insert_refresh_token tid (user_id user) (hashToken A refresh)
        (secondsFromNow issued (refreshTokenTtlSeconds cfg))))) (\<lambda>u.
     io_return \<lparr>accessToken = access, refreshToken = refresh\<rparr>))))))"

definition token_fields :: "token_pair \<Rightarrow> (string \<times> json) list" where
  "token_fields p = [(''accessToken'', JStr (accessToken p)), (''refreshToken'', JStr (refreshToken p))]"

definition user_json :: "auth_user \<Rightarrow> json" where
  "user_json u = JObj [(''id'', JStr (user_id u)), (''email'', JStr (user_email u))]"

definition account_of :: "user_row \<Rightarrow> auth_user" where
  "account_of row = \<lparr>user_id = us_id row, user_email = us_email row\<rparr>"

section \<open>POST /v1/auth/register\<close>

definition email_exists :: response where
  "email_exists = error_response 409 ''EMAIL_ALREADY_EXISTS'' ''Email already exists''"

definition post_register ::
  "'e services \<Rightarrow> auth_lib \<Rightarrow> api_config \<Rightarrow> (nat \<Rightarrow> string) \<Rightarrow> (json \<Rightarrow> (string list \<times> string) list) \<Rightarrow> json
     \<Rightarrow> (('e, 'm) app_state_scheme, response) io" where
  "post_register S A cfg uuid issues body =
     (case registerSchema body of
        None \<Rightarrow> io_return (validationError (normalizeZodError (issues body)))
      | Some dat \<Rightarrow>
          io_bind (io_get (\<lambda>s. uuids_used (pg s))) (\<lambda>salt.
          io_bind (io_modify (\<lambda>s. s\<lparr>pg := (pg s)\<lparr>uuids_used := uuids_used (pg s) + 1\<rparr>\<rparr>)) (\<lambda>u.
          io_bind (lift_result (argon2_hash A (cr_password dat) salt)) (\<lambda>passwordHash.
          io_catch
            (io_bind (randomUUID uuid) (\<lambda>uid.
             io_bind (on_pg (pg_pool (insert_user uid (cr_email dat) passwordHash))) (\<lambda>row.
             io_bind (createTokens S A cfg uuid (account_of row)) (\<lambda>tokens.
             io_return \<lparr>resp_status = 201,
               resp_body = JObj ((''user'', user_json (account_of row)) # token_fields tokens)\<rparr>))))
            (\<lambda>error. if err_code error = Some ''23505'' then io_return email_exists else io_throw error)))))"

section \<open>POST /v1/auth/login\<close>

definition auth_rate_limited :: response where
  "auth_rate_limited = error_response 429 ''AUTH_RATE_LIMITED'' ''Too many failed login attempts''"

definition account_locked :: response where
  "account_locked = error_response 423 ''ACCOUNT_LOCKED'' ''Account is temporarily locked''"

definition invalid_credentials :: response where
  "invalid_credentials = error_response 401 ''INVALID_CREDENTIALS'' ''Invalid credentials''"

definition ip_key :: "http_request \<Rightarrow> api_config \<Rightarrow> string" where
  "ip_key request cfg = ''auth:failed-ip:'' @ getClientIdentifier request cfg"

definition login_failed ::
  "'e services \<Rightarrow> api_config \<Rightarrow> string \<Rightarrow> user_row option \<Rightarrow> (('e, 'm) app_state_scheme, response) io" where
  "login_failed S cfg ipKey user =
     io_bind (await (ext_call (redis_incr S ipKey))) (\<lambda>failedCount.
     io_bind (if failedCount = 1 then await (ext_call (redis_expire S ipKey (failedLoginIpWindowSeconds cfg)))
              else io_return ()) (\<lambda>u.
     io_bind (case user of
        None \<Rightarrow> io_return ()
      | Some row \<Rightarrow>
          io_bind (js_now S) (\<lambda>now.
          let nextCount = us_failed_login_count row + 1;
              lockedUntil = (if failedLoginAccountLimit cfg \<le> nextCount
                             then Some (secondsFromNow now (accountLockSeconds cfg)) else None)
          in on_pg (pg_pool (record_login_failure (us_id row) nextCount lockedUntil)))) (\<lambda>u.
     io_return invalid_credentials)))"

definition login_succeeded ::
  "'e services \<Rightarrow> auth_lib \<Rightarrow> api_config \<Rightarrow> (nat \<Rightarrow> string) \<Rightarrow> user_row \<Rightarrow> (('e, 'm) app_state_scheme, response) io" where
  "login_succeeded S A cfg uuid row =
     io_bind (on_pg (pg_pool (clear_login_failures (us_id row)))) (\<lambda>u.
     io_bind (createTokens S A cfg uuid (account_of row)) (\<lambda>tokens.
     io_return \<lparr>resp_status = 200, resp_body = JObj ((''user'', user_json (account_of row)) # token_fields tokens)\<rparr>))"

definition is_locked :: "int \<Rightarrow> user_row option \<Rightarrow> bool" where
  "is_locked now user = (case user of
     None \<Rightarrow> False
   | Some row \<Rightarrow> (case us_locked_until row of None \<Rightarrow> False | Some t \<Rightarrow> now < t))"

definition post_login ::
  "'e services \<Rightarrow> auth_lib \<Rightarrow> api_config \<Rightarrow> (nat \<Rightarrow> string) \<Rightarrow> (json \<Rightarrow> (string list \<times> string) list) \<Rightarrow> http_request
     \<Rightarrow> json \<Rightarrow> (('e, 'm) app_state_scheme, response) io" where
  "post_login S A cfg uuid issues request body =
     (case loginSchema body of
        None \<Rightarrow> io_return (validationError (normalizeZodError (issues body)))
      | Some dat \<Rightarrow>
          let ipKey = ip_key request cfg in
          io_bind (await (ext_call (redis_get S ipKey))) (\<lambda>raw.
          let ipFailures = parseInt (case raw of None \<Rightarrow> ''0'' | Some t \<Rightarrow> t) in
          if (case ipFailures of None \<Rightarrow> False | Some n \<Rightarrow> failedLoginIpLimit cfg < n) then io_return auth_rate_limited
          else
            io_bind (on_pg (pg_pool (select_user (cr_email dat)))) (\<lambda>user.
            io_bind (js_now S) (\<lambda>now.
            if is_locked now user then io_return account_locked
            else
              io_bind (case user of
                 None \<Rightarrow> io_return False
               | Some row \<Rightarrow> lift_result (argon2_verify A (us_password_hash row) (cr_password dat))) (\<lambda>passwordMatches.
              case user of
                 None \<Rightarrow> login_failed S cfg ipKey None
               | Some row \<Rightarrow> if passwordMatches then login_succeeded S A cfg uuid row
                              else login_failed S cfg ipKey (Some row))))))"

section \<open>POST /v1/auth/refresh\<close>

definition invalid_refresh_token :: response where
  "invalid_refresh_token = error_response 401 ''INVALID_REFRESH_TOKEN'' ''Invalid refresh token''"

definition refresh_token_reused :: response where
  "refresh_token_reused = error_response 401 ''REFRESH_TOKEN_REUSED'' ''Invalid refresh token''"

text \<open>The handler up to the answer of its first query, and the rest of it.\<close>

definition refresh_lookup :: "auth_lib \<Rightarrow> string \<Rightarrow> (('e, 'm) app_state_scheme, (refresh_token_row \<times> string) option) io" where
  "refresh_lookup A token = on_pg (pg_pool (select_token (hashToken A token)))"

definition refresh_finish ::
  "'e services \<Rightarrow> auth_lib \<Rightarrow> api_config \<Rightarrow> (nat \<Rightarrow> string) \<Rightarrow> (refresh_token_row \<times> string) option
     \<Rightarrow> (('e, 'm) app_state_scheme, response) io" where
  "refresh_finish S A cfg uuid found =
     io_bind (js_now S) (\<lambda>now.
     case found of
       None \<Rightarrow> io_return invalid_refresh_token
     | Some (rt, email) \<Rightarrow>
         if rt_expires_at rt \<le> now then io_return invalid_refresh_token
         else if rt_revoked_at rt \<noteq> None
         then io_bind (on_pg (pg_pool (revoke_active_of (rt_user_id rt)))) (\<lambda>u. io_return refresh_token_reused)
         else io_bind (on_pg (pg_pool (revoke_token (rt_id rt)))) (\<lambda>u.
              io_bind (createTokens S A cfg uuid \<lparr>user_id = rt_user_id rt, user_email = email\<rparr>) (\<lambda>tokens.
              io_return \<lparr>resp_status = 200, resp_body = JObj (token_fields tokens)\<rparr>)))"

definition post_refresh ::
  "'e services \<Rightarrow> auth_lib \<Rightarrow> api_config \<Rightarrow> (nat \<Rightarrow> string) \<Rightarrow> (json \<Rightarrow> (string list \<times> string) list) \<Rightarrow> json
     \<Rightarrow> (('e, 'm) app_state_scheme, response) io" where
  "post_refresh S A cfg uuid issues body =
     (case refreshSchema body of
        None \<Rightarrow> io_return (validationError (normalizeZodError (issues body)))
      | Some token \<Rightarrow> io_bind (refresh_lookup A token) (\<lambda>found. refresh_finish S A cfg uuid found))"

section \<open>POST /v1/auth/logout\<close>

text \<open>A reply without a body is shown as \<open>null\<close>.\<close>

definition post_logout ::
  "auth_lib \<Rightarrow> (json \<Rightarrow> (string list \<times> string) list) \<Rightarrow> json \<Rightarrow> (('e, 'm) app_state_scheme, response) io" where
  "post_logout A issues body =
     (case logoutSchema body of
        None \<Rightarrow> io_return (validationError (normalizeZodError (issues body)))
      | Some token \<Rightarrow>
          io_bind (on_pg (pg_pool (revoke_hash (hashToken A token)))) (\<lambda>u.
          io_return \<lparr>resp_status = 204, resp_body = JNull\<rparr>))"

section \<open>The bearer check\<close>

definition unauthenticated_because :: "string \<Rightarrow> response" where
  "unauthenticated_because message = error_response 401 ''UNAUTHENTICATED'' message"

definition not_a_text :: js_error where
  "not_a_text = JsError ''authorization?.startsWith is not a function'' None"

text \<open>\<open>Inl\<close>: the hook answers itself; \<open>Inr\<close>: the user it puts on the request.\<close>

definition authenticate ::
  "'e services \<Rightarrow> auth_lib \<Rightarrow> api_config \<Rightarrow> http_request \<Rightarrow> (('e, 'm) app_state_scheme, response + auth_user) io" where
  "authenticate S A cfg request =
     (case req_headers request ''authorization'' of
        None \<Rightarrow> io_return (Inl (unauthenticated_because ''Missing bearer token''))
      | Some (HeaderMany xs) \<Rightarrow> io_throw not_a_text
      | Some (HeaderOne authorization) \<Rightarrow>
          if \<not> starts_with authorization ''Bearer ''
          then io_return (Inl (unauthenticated_because ''Missing bearer token''))
          else io_bind (js_now S) (\<lambda>now.
            case jwt_verify A (drop (length ''Bearer '') authorization) (jwtAccessSecret cfg) now of
              None \<Rightarrow> io_return (Inl (unauthenticated_because ''Invalid or expired token''))
            | Some JNull \<Rightarrow> io_return (Inl (unauthenticated_because ''Invalid or expired token''))
            | Some decoded \<Rightarrow>
                (case (json_prop ''sub'' decoded, json_prop ''email'' decoded) of
                   (Some (JStr i), Some (JStr e)) \<Rightarrow> io_return (Inr \<lparr>user_id = i, user_email = e\<rparr>)
                 | _ \<Rightarrow> io_return (Inl (unauthenticated_because ''Invalid token'')))))"

end
