(* ===== verification/Auth_Laws.thy ===== *)
theory Auth_Laws
  imports Auth_Routes Order_Laws
begin

text \<open>
  What the authentication handlers guarantee: the invariant of the user and token tables, that
  a revoked token stays revoked, and the runs of the handlers when nothing fails.
\<close>

section \<open>Invariants of the committed tables\<close>

definition db_keeps :: "(database \<Rightarrow> bool) \<Rightarrow> (('e, 'm) app_state_scheme, 'a) io \<Rightarrow> bool" where
  "db_keeps P m \<longleftrightarrow> (\<forall>s. P (committed (pg s)) \<longrightarrow> P (committed (pg (snd (m s)))))"

named_theorems db_intros \<open>rules for invariants of the committed tables\<close>

lemma db_keepsD: "db_keeps P m \<Longrightarrow> P (committed (pg s)) \<Longrightarrow> m s = (r, t) \<Longrightarrow> P (committed (pg t))"
  by (metis db_keeps_def snd_conv)

lemma db_keeps_pg: "keeps pg m \<Longrightarrow> db_keeps P m"
  by (simp add: db_keeps_def keeps_def)

lemma db_keeps_simple [db_intros]:
  "db_keeps P (io_return a)" "db_keeps P (io_throw e)" "db_keeps P (io_get g)" "db_keeps P (lift_result r)"
  by (simp_all add: db_keeps_def lift_result_def split: sum.split)

lemma db_keeps_draw [db_intros]: "db_keeps P (randomUUID uuid)"
  by (simp add: db_keeps_def randomUUID_def io_bind_apply)

lemma db_keeps_modify [db_intros]: "(\<And>s. committed (pg (g s)) = committed (pg s)) \<Longrightarrow> db_keeps P (io_modify g)"
  by (simp add: db_keeps_def)

lemma db_keeps_redis [db_intros]: "db_keeps P (await (ext_call c))"
  by (simp add: db_keeps_def await_apply)

lemma db_keeps_bind [db_intros]: "db_keeps P m \<Longrightarrow> (\<And>a. db_keeps P (f a)) \<Longrightarrow> db_keeps P (io_bind m f)"
  by (auto simp: db_keeps_def io_bind_def split: prod.splits sum.splits)

lemma db_keeps_catch [db_intros]: "db_keeps P m \<Longrightarrow> (\<And>e. db_keeps P (h e)) \<Longrightarrow> db_keeps P (io_catch m h)"
  by (auto simp: db_keeps_def io_catch_def split: prod.splits sum.splits)

lemma db_keeps_if [db_intros]: "(b \<Longrightarrow> db_keeps P m) \<Longrightarrow> (\<not> b \<Longrightarrow> db_keeps P n) \<Longrightarrow> db_keeps P (if b then m else n)"
  by simp

lemma db_keeps_option [db_intros]:
  "(x = None \<Longrightarrow> db_keeps P m) \<Longrightarrow> (\<And>a. x = Some a \<Longrightarrow> db_keeps P (f a)) \<Longrightarrow>
   db_keeps P (case x of None \<Rightarrow> m | Some a \<Rightarrow> f a)"
  by (cases x) simp_all

lemma db_keeps_prod [db_intros]: "(\<And>a b. db_keeps P (f a b)) \<Longrightarrow> db_keeps P (case x of (a, b) \<Rightarrow> f a b)"
  by (cases x) simp

lemma db_keeps_pool:
  assumes "\<And>now d a d'. P d \<Longrightarrow> stmt now d = Inr (a, d') \<Longrightarrow> P d'"
  shows "db_keeps P (on_pg (pg_pool stmt))"
proof -
  have "wp (pg_pool stmt) (\<lambda>a w'. P (committed w')) (\<lambda>e w'. P (committed w')) w" if "P (committed w)" for w
    by (rule pg_pool_rule) (use that assms in \<open>auto simp: pg_same_def\<close>)
  then have "P (committed (snd (pg_pool stmt w)))" if "P (committed w)" for w
    using that by (fastforce simp: wp_def split: prod.splits sum.splits)
  then show ?thesis by (simp add: db_keeps_def on_pg_def case_prod_unfold)
qed

section \<open>The tables of users and tokens\<close>

definition users_ok :: "api_config \<Rightarrow> user_row list \<Rightarrow> bool" where
  "users_ok cfg us \<longleftrightarrow> distinct (map us_id us) \<and> distinct (map us_email us) \<and>
     (\<forall>u\<in>set us. js_lower (us_email u) = us_email u \<and> uuid_in (us_id u) = us_id u \<and>
        (us_locked_until u \<noteq> None \<longrightarrow> failedLoginAccountLimit cfg \<le> us_failed_login_count u))"

definition tokens_ok :: "user_row list \<Rightarrow> refresh_token_row list \<Rightarrow> bool" where
  "tokens_ok us rts \<longleftrightarrow> distinct (map rt_id rts) \<and> distinct (map rt_token_hash rts) \<and>
     (\<forall>rt\<in>set rts. rt_user_id rt \<in> us_id ` set us \<and> uuid_in (rt_id rt) = rt_id rt)"

definition auth_ok :: "api_config \<Rightarrow> database \<Rightarrow> bool" where
  "auth_ok cfg d \<longleftrightarrow> users_ok cfg (users d) \<and> tokens_ok (users d) (refresh_tokens d)"

text \<open>A token of the first table is still in the second, and still revoked if it was.\<close>

definition token_kept :: "refresh_token_row \<Rightarrow> refresh_token_row \<Rightarrow> bool" where
  "token_kept rt rt' \<longleftrightarrow> rt_id rt' = rt_id rt \<and> rt_user_id rt' = rt_user_id rt \<and> rt_token_hash rt' = rt_token_hash rt \<and>
     rt_expires_at rt' = rt_expires_at rt \<and> (rt_revoked_at rt \<noteq> None \<longrightarrow> rt_revoked_at rt' \<noteq> None)"

definition tokens_kept :: "database \<Rightarrow> database \<Rightarrow> bool" where
  "tokens_kept d d' \<longleftrightarrow> (\<forall>rt\<in>set (refresh_tokens d). \<exists>rt'\<in>set (refresh_tokens d'). token_kept rt rt')"

lemma token_kept_refl [simp]: "token_kept rt rt"
  by (simp add: token_kept_def)

lemma tokens_kept_refl [simp]: "tokens_kept d d"
  unfolding tokens_kept_def by (meson token_kept_refl)

lemma tokens_kept_trans: "tokens_kept d d' \<Longrightarrow> tokens_kept d' d'' \<Longrightarrow> tokens_kept d d''"
  unfolding tokens_kept_def token_kept_def by metis

definition auth_inv :: "api_config \<Rightarrow> database \<Rightarrow> database \<Rightarrow> bool" where
  "auth_inv cfg d0 d \<longleftrightarrow> auth_ok cfg d \<and> tokens_kept d0 d"

text \<open>The statements keep the invariant.\<close>

lemma uuid_in_idem [simp]: "uuid_in (uuid_in t) = uuid_in t"
  by (simp add: uuid_in_def)

lemma insert_user_row:
  assumes "insert_user uid email hash now d = Inr (row, d')"
  shows "d' = d\<lparr>users := users d @ [row]\<rparr>"
    and "row = \<lparr>us_id = uuid_in uid, us_email = js_lower email, us_password_hash = hash, us_failed_login_count = 0, us_locked_until = None\<rparr>"
    and "uuid_in uid \<notin> us_id ` set (users d)" and "js_lower email \<notin> us_email ` set (users d)"
  using assms by (auto simp: insert_user_def Let_def split: if_splits)

lemma insert_user_inv:
  assumes "auth_inv cfg d0 d" and "insert_user uid email hash now d = Inr (row, d')"
  shows "auth_inv cfg d0 d'"
  using assms(1) insert_user_row[OF assms(2)]
  by (auto simp: auth_inv_def auth_ok_def users_ok_def tokens_ok_def tokens_kept_def)

lemma update_user_inv:
  assumes "auth_inv cfg d0 d"
    and "\<And>u. us_id (f u) = us_id u" and "\<And>u. us_email (f u) = us_email u"
    and "\<And>u. us_locked_until (f u) \<noteq> None \<Longrightarrow> failedLoginAccountLimit cfg \<le> us_failed_login_count (f u)"
  shows "auth_inv cfg d0 (update_user uid f d)"
proof -
  let ?g = "\<lambda>row. if us_id row = uuid_in uid then f row else row"
  have ids: "us_id \<circ> ?g = us_id" "us_email \<circ> ?g = us_email" using assms(2,3) by (auto simp: fun_eq_iff)
  then have "map us_id (map ?g (users d)) = map us_id (users d)" "map us_email (map ?g (users d)) = map us_email (users d)"
    by simp_all
  moreover from this have "us_id ` set (map ?g (users d)) = us_id ` set (users d)" by (metis list.set_map)
  ultimately show ?thesis using assms
    by (auto simp: auth_inv_def auth_ok_def users_ok_def tokens_ok_def tokens_kept_def update_user_def simp del: map_map)
qed

lemma login_statements_inv:
  "auth_inv cfg d0 d \<Longrightarrow> (until \<noteq> None \<Longrightarrow> failedLoginAccountLimit cfg \<le> n) \<Longrightarrow>
     record_login_failure uid n until now d = Inr (u, d') \<Longrightarrow> auth_inv cfg d0 d'"
  "auth_inv cfg d0 d \<Longrightarrow> clear_login_failures uid now d = Inr (u, d') \<Longrightarrow> auth_inv cfg d0 d'"
  by (auto simp: record_login_failure_def clear_login_failures_def intro!: update_user_inv split: if_splits)

lemma insert_token_row:
  assumes "insert_refresh_token tid uid hash expires now d = Inr (u, d')"
  obtains rt where "d' = d\<lparr>refresh_tokens := refresh_tokens d @ [rt]\<rparr>" "rt_id rt = uuid_in tid" "rt_user_id rt = uuid_in uid"
    "rt_token_hash rt = hash" "rt_expires_at rt = expires" "rt_revoked_at rt = None"
    "uuid_in tid \<notin> rt_id ` set (refresh_tokens d)" "hash \<notin> rt_token_hash ` set (refresh_tokens d)"
    "uuid_in uid \<in> us_id ` set (users d)"
  using assms
  by (intro that[of "\<lparr>rt_id = uuid_in tid, rt_user_id = uuid_in uid, rt_token_hash = hash, rt_expires_at = expires,
      rt_revoked_at = None\<rparr>"]) (auto simp: insert_refresh_token_def split: if_splits)

lemma insert_token_inv:
  assumes "auth_inv cfg d0 d" and "insert_refresh_token tid uid hash expires now d = Inr (u, d')"
  shows "auth_inv cfg d0 d'"
proof -
  obtain rt where rt: "d' = d\<lparr>refresh_tokens := refresh_tokens d @ [rt]\<rparr>" "rt_id rt = uuid_in tid" "rt_user_id rt = uuid_in uid"
    "rt_token_hash rt = hash" "uuid_in tid \<notin> rt_id ` set (refresh_tokens d)"
    "hash \<notin> rt_token_hash ` set (refresh_tokens d)" "uuid_in uid \<in> us_id ` set (users d)"
    by (rule insert_token_row[OF assms(2)])
  have "tokens_kept d d'" by (auto simp: tokens_kept_def rt(1) intro: bexI[of _ "_ :: refresh_token_row"] token_kept_refl)
  then have "tokens_kept d0 d'" using assms(1) tokens_kept_trans by (auto simp: auth_inv_def)
  moreover have "auth_ok cfg d'" using assms(1) rt by (auto simp: auth_inv_def auth_ok_def tokens_ok_def)
  ultimately show ?thesis by (simp add: auth_inv_def)
qed

lemma revoke_where_inv:
  assumes "auth_inv cfg d0 d" and "revoke_where P now d = Inr (u, d')"
  shows "auth_inv cfg d0 d'"
proof -
  let ?g = "\<lambda>rt. if P rt then rt\<lparr>rt_revoked_at := Some now\<rparr> else rt"
  have d': "d' = d\<lparr>refresh_tokens := map ?g (refresh_tokens d)\<rparr>" using assms(2) by (simp add: revoke_where_def)
  have "rt_id \<circ> ?g = rt_id" "rt_token_hash \<circ> ?g = rt_token_hash" by (auto simp: fun_eq_iff)
  then have "map rt_id (map ?g (refresh_tokens d)) = map rt_id (refresh_tokens d)"
    "map rt_token_hash (map ?g (refresh_tokens d)) = map rt_token_hash (refresh_tokens d)" by simp_all
  moreover have "\<exists>rt'\<in>set (refresh_tokens d'). token_kept rt rt'" if "rt \<in> set (refresh_tokens d)" for rt
    using that by (intro bexI[of _ "?g rt"]) (auto simp: d' token_kept_def)
  then have "tokens_kept d d'" by (simp add: tokens_kept_def)
  then have "tokens_kept d0 d'" using assms(1) tokens_kept_trans by (auto simp: auth_inv_def)
  ultimately show ?thesis using assms(1)
    by (auto simp: auth_inv_def auth_ok_def tokens_ok_def d' simp del: map_map)
qed

lemma reads_inv:
  "auth_inv cfg d0 d \<Longrightarrow> select_user email now d = Inr (row, d') \<Longrightarrow> auth_inv cfg d0 d'"
  "auth_inv cfg d0 d \<Longrightarrow> select_token hash now d = Inr (rt, d') \<Longrightarrow> auth_inv cfg d0 d'"
  by (auto simp: select_user_def select_token_def split: if_splits)

lemma statements_keep [db_intros]:
  "db_keeps (auth_inv cfg d0) (on_pg (pg_pool (insert_user uid email hash)))"
  "db_keeps (auth_inv cfg d0) (on_pg (pg_pool (select_user email)))"
  "db_keeps (auth_inv cfg d0) (on_pg (pg_pool (clear_login_failures uid)))"
  "db_keeps (auth_inv cfg d0) (on_pg (pg_pool (insert_refresh_token tid uid hash expires)))"
  "db_keeps (auth_inv cfg d0) (on_pg (pg_pool (select_token hash)))"
  "db_keeps (auth_inv cfg d0) (on_pg (pg_pool (revoke_active_of uid)))"
  "db_keeps (auth_inv cfg d0) (on_pg (pg_pool (revoke_token tid)))"
  "db_keeps (auth_inv cfg d0) (on_pg (pg_pool (revoke_hash hash)))"
  unfolding revoke_active_of_def revoke_token_def revoke_hash_def
  by (rule db_keeps_pool, erule (1) insert_user_inv reads_inv login_statements_inv(2) insert_token_inv revoke_where_inv)+

lemma record_failure_keeps [db_intros]:
  "(until \<noteq> None \<Longrightarrow> failedLoginAccountLimit cfg \<le> n) \<Longrightarrow>
   db_keeps (auth_inv cfg d0) (on_pg (pg_pool (record_login_failure uid n until)))"
  by (rule db_keeps_pool) (rule login_statements_inv(1))

section \<open>The handlers keep the invariant\<close>

lemma js_now_keeps [db_intros]: "db_keeps P (js_now S)"
  by (simp add: js_now_def db_intros)

lemma createTokens_keeps [db_intros]: "db_keeps (auth_inv cfg d0) (createTokens S A cfg uuid user)"
  unfolding createTokens_def newRefreshToken_def by (intro db_intros)

lemma post_register_keeps: "db_keeps (auth_inv cfg d0) (post_register S A cfg uuid issues body)"
  unfolding post_register_def by (intro db_intros) simp

lemma login_failed_keeps [db_intros]: "db_keeps (auth_inv cfg d0) (login_failed S cfg ipKey user)"
  unfolding login_failed_def Let_def by (intro db_intros) (simp split: if_splits)

lemma post_login_keeps: "db_keeps (auth_inv cfg d0) (post_login S A cfg uuid issues request body)"
  unfolding post_login_def login_succeeded_def Let_def by (intro db_intros)

lemma refresh_finish_keeps [db_intros]: "db_keeps (auth_inv cfg d0) (refresh_finish S A cfg uuid found)"
  unfolding refresh_finish_def by (intro db_intros)

lemma refresh_lookup_keeps [db_intros]: "db_keeps (auth_inv cfg d0) (refresh_lookup A token)"
  unfolding refresh_lookup_def by (intro db_intros)

lemma post_refresh_keeps: "db_keeps (auth_inv cfg d0) (post_refresh S A cfg uuid issues body)"
  unfolding post_refresh_def by (intro db_intros)

lemma post_logout_keeps: "db_keeps (auth_inv cfg d0) (post_logout A issues body)"
  unfolding post_logout_def by (intro db_intros)

end
