(* ===== verification/Auth_Properties.thy ===== *)
theory Auth_Properties
  imports Auth_Laws
begin

text \<open>
  The properties of the authentication: the invariant over all histories, reuse detection of
  refresh tokens and the gap in it, the lock after repeated failures, and the way from
  registration over login to the bearer check.
\<close>

section \<open>Histories\<close>

text \<open>
  The requests run with any failures of the database and Redis. \<open>half\<close> is the second part of a
  refresh with any answer of its first query, so refreshes that overlap are histories too.
\<close>

inductive auth_history ::
  "'e services \<Rightarrow> auth_lib \<Rightarrow> api_config \<Rightarrow> (nat \<Rightarrow> string) \<Rightarrow> (json \<Rightarrow> (string list \<times> string) list) \<Rightarrow> database \<Rightarrow> database \<Rightarrow> bool"
  for S A cfg uuid issues d0 where
  start: "auth_ok cfg d0 \<Longrightarrow> auth_history S A cfg uuid issues d0 d0"
| register: "auth_history S A cfg uuid issues d0 (committed (pg (s :: 'e app_state))) \<Longrightarrow>
     post_register S A cfg uuid issues body s = (out, t) \<Longrightarrow> auth_history S A cfg uuid issues d0 (committed (pg t))"
| login: "auth_history S A cfg uuid issues d0 (committed (pg (s :: 'e app_state))) \<Longrightarrow>
     post_login S A cfg uuid issues request body s = (out, t) \<Longrightarrow> auth_history S A cfg uuid issues d0 (committed (pg t))"
| refresh: "auth_history S A cfg uuid issues d0 (committed (pg (s :: 'e app_state))) \<Longrightarrow>
     post_refresh S A cfg uuid issues body s = (out, t) \<Longrightarrow> auth_history S A cfg uuid issues d0 (committed (pg t))"
| half: "auth_history S A cfg uuid issues d0 (committed (pg (s :: 'e app_state))) \<Longrightarrow>
     refresh_finish S A cfg uuid found s = (out, t) \<Longrightarrow> auth_history S A cfg uuid issues d0 (committed (pg t))"
| logout: "auth_history S A cfg uuid issues d0 (committed (pg (s :: 'e app_state))) \<Longrightarrow>
     post_logout A issues body s = (out, t) \<Longrightarrow> auth_history S A cfg uuid issues d0 (committed (pg t))"
| others: "auth_history S A cfg uuid issues d0 d \<Longrightarrow> users d' = users d \<Longrightarrow> refresh_tokens d' = refresh_tokens d \<Longrightarrow>
     auth_history S A cfg uuid issues d0 d'"

section \<open>Runs in which nothing fails\<close>

lemma on_pg_pool_run:
  "pg_script (pg s) = [] \<Longrightarrow> stmt (db_now (pg s)) (committed (pg s)) = Inr (a, d) \<Longrightarrow>
   on_pg (pg_pool stmt) s = (Inr a, s\<lparr>pg := (pg s)\<lparr>committed := d\<rparr>\<rparr>)"
  by (simp add: on_pg_def pg_pool_def next_fate_done)

lemma draw_run: "randomUUID uuid s = (Inr (uuid (uuids_used (pg s))), s\<lparr>pg := (pg s)\<lparr>uuids_used := uuids_used (pg s) + 1\<rparr>\<rparr>)"
  by (simp add: randomUUID_def io_bind_apply)

text \<open>Creating a token pair: what it needs, and what it leaves.\<close>

definition tokens_ready :: "'e services \<Rightarrow> auth_lib \<Rightarrow> api_config \<Rightarrow> (nat \<Rightarrow> string) \<Rightarrow> auth_user \<Rightarrow> ('e, 'm) app_state_scheme \<Rightarrow> bool" where
  "tokens_ready S A cfg uuid user s \<longleftrightarrow>
     (let n = uuids_used (pg s); d = committed (pg s); h = hashToken A (random_base64url A n) in
      (\<exists>tok. jwt_sign A (access_claims user) (jwtAccessSecret cfg) (accessTokenTtlSeconds cfg) (date_now S (ext s)) = Inr tok) \<and>
      text_ok h \<and> h \<notin> rt_token_hash ` set (refresh_tokens d) \<and>
      uuid_in (uuid (n + 1)) \<notin> rt_id ` set (refresh_tokens d) \<and> uuid_in (user_id user) \<in> us_id ` set (users d))"

definition issued_row :: "'e services \<Rightarrow> auth_lib \<Rightarrow> api_config \<Rightarrow> (nat \<Rightarrow> string) \<Rightarrow> auth_user \<Rightarrow> ('e, 'm) app_state_scheme \<Rightarrow> refresh_token_row" where
  "issued_row S A cfg uuid user s = \<lparr>rt_id = uuid_in (uuid (uuids_used (pg s) + 1)), rt_user_id = uuid_in (user_id user),
     rt_token_hash = hashToken A (random_base64url A (uuids_used (pg s))),
     rt_expires_at = secondsFromNow (date_now S (ext s)) (refreshTokenTtlSeconds cfg), rt_revoked_at = None\<rparr>"

lemma createTokens_run:
  assumes "pg_script (pg s) = []" and "tokens_ready S A cfg uuid user s"
  shows "\<exists>p. createTokens S A cfg uuid user s = (Inr p, s\<lparr>pg := (pg s)\<lparr>uuids_used := uuids_used (pg s) + 2,
    committed := (committed (pg s))\<lparr>refresh_tokens := refresh_tokens (committed (pg s)) @ [issued_row S A cfg uuid user s]\<rparr>\<rparr>\<rparr>) \<and>
    jwt_sign A (access_claims user) (jwtAccessSecret cfg) (accessTokenTtlSeconds cfg) (date_now S (ext s)) = Inr (accessToken p)"
  using assms
  by (auto simp: tokens_ready_def Let_def createTokens_def newRefreshToken_def js_now_def io_bind_apply lift_result_def
      draw_run on_pg_def pg_pool_def next_fate_def insert_refresh_token_def issued_row_def)

text \<open>Conversely, what a pair that was created says about the tables.\<close>

lemma createTokens_ok:
  assumes "createTokens S A cfg uuid user s = (Inr p, t)" and "pg_script (pg s) = []"
  shows "t = s\<lparr>pg := (pg s)\<lparr>uuids_used := uuids_used (pg s) + 2,
    committed := (committed (pg s))\<lparr>refresh_tokens := refresh_tokens (committed (pg s)) @ [issued_row S A cfg uuid user s]\<rparr>\<rparr>\<rparr>"
    and "rt_token_hash (issued_row S A cfg uuid user s) \<notin> rt_token_hash ` set (refresh_tokens (committed (pg s)))"
  using assms
  by (auto simp: createTokens_def newRefreshToken_def js_now_def io_bind_apply lift_result_def draw_run on_pg_def
      pg_pool_def next_fate_def insert_refresh_token_def issued_row_def split: sum.splits if_splits)

section \<open>Looking up a token\<close>

lemma find_map_same:
  assumes "\<And>x. P (g x) = P x"
  shows "find P (map g xs) = map_option g (find P xs)"
  using assms by (induction xs) auto

lemma image_map_same: "(\<And>x. f (g x) = f x) \<Longrightarrow> f ` set (map g xs) = f ` set xs"
  by (simp add: image_image)

lemma find_append_found: "find P xs = Some x \<Longrightarrow> find P (xs @ ys) = Some x"
  by (induction xs) (auto split: if_splits)

lemma find_token_iff:
  "find_token h d = Some (rt, email) \<longleftrightarrow>
     find (\<lambda>rt. rt_token_hash rt = h \<and> rt_user_id rt \<in> us_id ` set (users d)) (refresh_tokens d) = Some rt \<and>
     (\<exists>u. find (\<lambda>u. us_id u = rt_user_id rt) (users d) = Some u \<and> us_email u = email)"
  by (auto simp: find_token_def split: option.splits)

text \<open>The owner of a row of a consistent table: in the user table, with a canonical id.\<close>

lemma find_token_row:
  assumes "find_token h d = Some (rt, email)"
  shows "rt \<in> set (refresh_tokens d)" and "rt_token_hash rt = h" and "rt_user_id rt \<in> us_id ` set (users d)"
  using assms by (auto simp: find_token_iff find_Some_iff in_set_conv_nth)

lemma owner_canonical:
  assumes "auth_ok cfg d" and "rt_user_id rt \<in> us_id ` set (users d)"
  shows "uuid_in (rt_user_id rt) = rt_user_id rt"
  using assms by (auto simp: auth_ok_def users_ok_def)

lemma revoked_row_found:
  assumes "find_token h d = Some (rt, email)" and "uuid_in (rt_id rt) = rt_id rt"
  shows "find_token h (d\<lparr>refresh_tokens := map (\<lambda>x. if rt_id x = uuid_in (rt_id rt) then x\<lparr>rt_revoked_at := Some now\<rparr> else x)
      (refresh_tokens d) @ newer\<rparr>) = Some (rt\<lparr>rt_revoked_at := Some now\<rparr>, email)"
proof -
  let ?g = "\<lambda>x. if rt_id x = uuid_in (rt_id rt) then x\<lparr>rt_revoked_at := Some now\<rparr> else x"
  let ?P = "\<lambda>rt. rt_token_hash rt = h \<and> rt_user_id rt \<in> us_id ` set (users d)"
  have "find ?P (map ?g (refresh_tokens d)) = map_option ?g (find ?P (refresh_tokens d))"
    by (rule find_map_same) simp
  with assms have "find ?P (map ?g (refresh_tokens d)) = Some (rt\<lparr>rt_revoked_at := Some now\<rparr>)"
    by (simp add: find_token_iff)
  from find_append_found[OF this] assms(1) show ?thesis by (simp add: find_token_iff)
qed

lemma token_id_canonical: "auth_ok cfg d \<Longrightarrow> rt \<in> set (refresh_tokens d) \<Longrightarrow> uuid_in (rt_id rt) = rt_id rt"
  by (simp add: auth_ok_def tokens_ok_def)

section \<open>Properties\<close>

text \<open>C25: The tables of accounts and tokens stay consistent in every history, with any failures and with
  overlapping refreshes: account ids and e-mails (in lower case) are unique, token ids and hashes
  are unique, every token has its account, an account carries a lock only after the configured
  number of failures, and no token disappears or stops being revoked.\<close>

theorem auth_tables_always_consistent:
  assumes "auth_history S A cfg uuid issues d0 d"
  shows "auth_ok cfg d \<and> tokens_kept d0 d"
proof -
  from assms have "auth_inv cfg d0 d"
  proof induction
    case start
    then show ?case by (simp add: auth_inv_def)
  next
    case (register s body out t)
    show ?case by (rule db_keepsD[OF post_register_keeps register.IH register.hyps(2)])
  next
    case (login s request body out t)
    show ?case by (rule db_keepsD[OF post_login_keeps login.IH login.hyps(2)])
  next
    case (refresh s body out t)
    show ?case by (rule db_keepsD[OF post_refresh_keeps refresh.IH refresh.hyps(2)])
  next
    case (half s found out t)
    show ?case by (rule db_keepsD[OF refresh_finish_keeps half.IH half.hyps(2)])
  next
    case (logout s body out t)
    show ?case by (rule db_keepsD[OF post_logout_keeps logout.IH logout.hyps(2)])
  next
    case (others d d')
    then show ?case by (simp add: auth_inv_def auth_ok_def tokens_kept_def)
  qed
  then show ?thesis by (simp add: auth_inv_def)
qed

text \<open>C26: A refresh token works once, and its reuse is detected: if a refresh succeeds, the same token
  presented again is refused as reused, and then every token of its owner is revoked, the one
  issued by the first refresh included.\<close>

theorem reused_refresh_token_revokes_all:
  assumes "auth_ok cfg (committed (pg s))" and "pg_script (pg s) = []" and "refreshSchema body = Some token"
    and "post_refresh S A cfg uuid issues body s = (Inr r, t)" and "resp_status r = 200"
  shows "\<exists>rt email u. find_token (hashToken A token) (committed (pg s)) = Some (rt, email) \<and>
    length (refresh_tokens (committed (pg t))) = length (refresh_tokens (committed (pg s))) + 1 \<and>
    post_refresh S A cfg uuid issues body t = (Inr refresh_token_reused, u) \<and>
    length (refresh_tokens (committed (pg u))) = length (refresh_tokens (committed (pg t))) \<and>
    (\<forall>x\<in>set (refresh_tokens (committed (pg u))). rt_user_id x = rt_user_id rt \<longrightarrow> rt_revoked_at x \<noteq> None)"
proof -
  let ?h = "hashToken A token" and ?d = "committed (pg s)" and ?now = "date_now S (ext s)"
  have lookup: "refresh_lookup A token v = (Inr (find_token ?h (committed (pg v))), v)" if "pg_script (pg v) = []" for v :: "('a, 'b) app_state_scheme"
    by (simp add: refresh_lookup_def on_pg_pool_run[OF that] select_token_def)
  have run: "refresh_finish S A cfg uuid (find_token ?h ?d) s = (Inr r, t)"
    using assms(3,4) lookup[OF assms(2)] by (simp add: post_refresh_def io_bind_apply)
  obtain rt email where found: "find_token ?h ?d = Some (rt, email)" and fresh: "\<not> rt_expires_at rt \<le> ?now" "rt_revoked_at rt = None"
    using run assms(5) by (cases "find_token ?h ?d")
      (auto simp: refresh_finish_def js_now_def io_bind_apply invalid_refresh_token_def refresh_token_reused_def
        error_response_def on_pg_pool_run[OF assms(2)] revoke_active_of_def revoke_where_def split: if_splits)
  have in_table: "rt \<in> set (refresh_tokens ?d)" "rt_user_id rt \<in> us_id ` set (users ?d)" using find_token_row[OF found] by simp_all
  note canon = token_id_canonical[OF assms(1) in_table(1)] owner_canonical[OF assms(1) in_table(2)]
  define s1 where "s1 = s\<lparr>pg := (pg s)\<lparr>committed := ?d\<lparr>refresh_tokens :=
    map (\<lambda>x. if rt_id x = uuid_in (rt_id rt) then x\<lparr>rt_revoked_at := Some (db_now (pg s))\<rparr> else x) (refresh_tokens ?d)\<rparr>\<rparr>\<rparr>"
  obtain p where tokens: "createTokens S A cfg uuid \<lparr>user_id = rt_user_id rt, user_email = email\<rparr> s1 = (Inr p, t)"
    using run fresh
    by (auto simp: found refresh_finish_def js_now_def io_bind_apply on_pg_pool_run[OF assms(2)] revoke_token_def
        revoke_where_def s1_def split: prod.splits sum.splits)
  have script1: "pg_script (pg s1) = []" by (simp add: s1_def assms(2))
  let ?row = "issued_row S A cfg uuid \<lparr>user_id = rt_user_id rt, user_email = email\<rparr> s1"
  have t: "t = s1\<lparr>pg := (pg s1)\<lparr>uuids_used := uuids_used (pg s1) + 2, committed := (committed (pg s1))\<lparr>refresh_tokens :=
      refresh_tokens (committed (pg s1)) @ [?row]\<rparr>\<rparr>\<rparr>"
    by (rule createTokens_ok(1)[OF tokens script1])
  then have script2: "pg_script (pg t) = []" using script1 by simp
  have again: "find_token ?h (committed (pg t)) = Some (rt\<lparr>rt_revoked_at := Some (db_now (pg s))\<rparr>, email)"
    using revoked_row_found[OF found canon(1), of "db_now (pg s)" "[?row]"] by (simp add: t s1_def)
  let ?u = "t\<lparr>pg := (pg t)\<lparr>committed := (committed (pg t))\<lparr>refresh_tokens := map (\<lambda>x. if rt_user_id x = rt_user_id rt \<and>
      rt_revoked_at x = None then x\<lparr>rt_revoked_at := Some (db_now (pg t))\<rparr> else x) (refresh_tokens (committed (pg t)))\<rparr>\<rparr>\<rparr>"
  have "date_now S (ext t) = ?now" by (simp add: t s1_def)
  then have "post_refresh S A cfg uuid issues body t = (Inr refresh_token_reused, ?u)"
    using assms(3) lookup[OF script2] again fresh(1) canon(2)
    by (simp add: post_refresh_def io_bind_apply refresh_finish_def js_now_def on_pg_pool_run[OF script2]
        revoke_active_of_def revoke_where_def)
  with found show ?thesis
    by (intro exI[of _ rt] exI[of _ email] exI[of _ ?u]) (auto simp: t s1_def)
qed

text \<open>C29: Two refreshes that overlap both succeed with the same token: when both have read the token before
  either revokes it, both answer 200, and two new active tokens of the owner are in the table.
  Nothing detects the reuse.\<close>

theorem overlapping_refreshes_both_succeed:
  assumes "auth_ok cfg (committed (pg s))" and "pg_script (pg s) = []"
    and "find_token (hashToken A token) (committed (pg s)) = Some (rt, email)"
    and "date_now S (ext s) < rt_expires_at rt" and "rt_revoked_at rt = None"
    and "\<forall>n\<in>{0, 2}. tokens_ready S A cfg uuid \<lparr>user_id = rt_user_id rt, user_email = email\<rparr>
      (s\<lparr>pg := (pg s)\<lparr>uuids_used := uuids_used (pg s) + n\<rparr>\<rparr>)"
    and "uuid_in (uuid (uuids_used (pg s) + 1)) \<noteq> uuid_in (uuid (uuids_used (pg s) + 3))"
    and "hashToken A (random_base64url A (uuids_used (pg s))) \<noteq> hashToken A (random_base64url A (uuids_used (pg s) + 2))"
  shows "\<exists>found s1 s2 r1 t r2 u. refresh_lookup A token s = (Inr found, s1) \<and> refresh_lookup A token s1 = (Inr found, s2) \<and>
    refresh_finish S A cfg uuid found s2 = (Inr r1, t) \<and> refresh_finish S A cfg uuid found t = (Inr r2, u) \<and>
    resp_status r1 = 200 \<and> resp_status r2 = 200 \<and>
    (\<exists>older x y. refresh_tokens (committed (pg u)) = older @ [x, y] \<and> length older = length (refresh_tokens (committed (pg s))) \<and>
       rt_user_id x = rt_user_id rt \<and> rt_user_id y = rt_user_id rt \<and> rt_revoked_at x = None \<and> rt_revoked_at y = None)"
proof -
  let ?d = "committed (pg s)" and ?user = "\<lparr>user_id = rt_user_id rt, user_email = email\<rparr>"
  let ?g = "\<lambda>x. if rt_id x = uuid_in (rt_id rt) then x\<lparr>rt_revoked_at := Some (db_now (pg s))\<rparr> else x"
  have lookup: "refresh_lookup A token s = (Inr (Some (rt, email)), s)"
    by (simp add: refresh_lookup_def on_pg_pool_run[OF assms(2)] select_token_def assms(3))
  have in_table: "rt \<in> set (refresh_tokens ?d)" "rt_user_id rt \<in> us_id ` set (users ?d)" using find_token_row[OF assms(3)] by simp_all
  note canon = token_id_canonical[OF assms(1) in_table(1)] owner_canonical[OF assms(1) in_table(2)]
  have kept: "rt_id ` set (map ?g xs) = rt_id ` set xs" "rt_token_hash ` set (map ?g xs) = rt_token_hash ` set xs" for xs
    by (rule image_map_same, simp)+
  define s1 where "s1 = s\<lparr>pg := (pg s)\<lparr>committed := ?d\<lparr>refresh_tokens := map ?g (refresh_tokens ?d)\<rparr>\<rparr>\<rparr>"
  have ready1: "tokens_ready S A cfg uuid ?user s1"
    using assms(6) kept[of "refresh_tokens ?d"] by (simp add: tokens_ready_def Let_def s1_def del: set_map)
  obtain p1 where run1: "createTokens S A cfg uuid ?user s1 = (Inr p1, s1\<lparr>pg := (pg s1)\<lparr>uuids_used := uuids_used (pg s1) + 2,
      committed := (committed (pg s1))\<lparr>refresh_tokens := refresh_tokens (committed (pg s1)) @ [issued_row S A cfg uuid ?user s1]\<rparr>\<rparr>\<rparr>)"
    (is "_ = (_, ?t)") using createTokens_run[OF _ ready1] assms(2) by (auto simp: s1_def)
  have first: "refresh_finish S A cfg uuid (Some (rt, email)) s =
      (Inr \<lparr>resp_status = 200, resp_body = JObj (token_fields p1)\<rparr>, ?t)"
    using assms(4,5) run1
    by (simp add: refresh_finish_def js_now_def io_bind_apply on_pg_pool_run[OF assms(2)] revoke_token_def revoke_where_def s1_def)
  let ?x = "issued_row S A cfg uuid ?user s1"
  have x: "rt_id ?x = uuid_in (uuid (uuids_used (pg s) + 1))" "rt_token_hash ?x = hashToken A (random_base64url A (uuids_used (pg s)))"
    "rt_user_id ?x = rt_user_id rt" "rt_revoked_at ?x = None" using canon(2) by (simp_all add: issued_row_def s1_def)
  have "rt_id ?x \<notin> rt_id ` set (map ?g (refresh_tokens ?d))"
    using ready1 x(1) by (simp add: tokens_ready_def Let_def s1_def del: set_map)
  then have other: "rt_id ?x \<noteq> uuid_in (rt_id rt)" using in_table(1) canon(1) unfolding kept by (metis imageI)
  let ?g2 = "\<lambda>x. if rt_id x = uuid_in (rt_id rt) then x\<lparr>rt_revoked_at := Some (db_now (pg s))\<rparr> else x"
  let ?older = "map ?g2 (map ?g (refresh_tokens ?d))"
  define s2 where "s2 = ?t\<lparr>pg := (pg ?t)\<lparr>committed := (committed (pg ?t))\<lparr>refresh_tokens := ?older @ [?x]\<rparr>\<rparr>\<rparr>"
  have ready2: "tokens_ready S A cfg uuid ?user s2"
    using assms(6-8) kept[of "refresh_tokens ?d"] kept[of "map ?g (refresh_tokens ?d)"]
    by (simp add: tokens_ready_def Let_def s2_def s1_def x(1,2)[unfolded s1_def] numeral_eq_Suc del: set_map)
  obtain p2 where run2: "createTokens S A cfg uuid ?user s2 = (Inr p2, s2\<lparr>pg := (pg s2)\<lparr>uuids_used := uuids_used (pg s2) + 2,
      committed := (committed (pg s2))\<lparr>refresh_tokens := refresh_tokens (committed (pg s2)) @ [issued_row S A cfg uuid ?user s2]\<rparr>\<rparr>\<rparr>)"
    (is "_ = (_, ?u)") using createTokens_run[OF _ ready2] assms(2) by (auto simp: s2_def s1_def)
  have script: "pg_script (pg ?t) = []" by (simp add: s1_def assms(2))
  have "revoke_token (rt_id rt) (db_now (pg ?t)) (committed (pg ?t)) =
      Inr ((), (committed (pg ?t))\<lparr>refresh_tokens := ?older @ [?x]\<rparr>)"
    using other by (simp add: revoke_token_def revoke_where_def) (simp add: s1_def)
  from on_pg_pool_run[where stmt = "revoke_token (rt_id rt)", OF script this] have "on_pg (pg_pool (revoke_token (rt_id rt))) ?t = (Inr (), s2)"
    by (simp add: s2_def)
  then have second: "refresh_finish S A cfg uuid (Some (rt, email)) ?t =
      (Inr \<lparr>resp_status = 200, resp_body = JObj (token_fields p2)\<rparr>, ?u)"
    using assms(4,5) run2 by (simp add: refresh_finish_def js_now_def io_bind_apply) (simp add: s1_def)
  have "refresh_tokens (committed (pg ?u)) = ?older @ [?x, issued_row S A cfg uuid ?user s2]" by (simp add: s2_def)
  moreover have "rt_user_id (issued_row S A cfg uuid ?user s2) = rt_user_id rt" "rt_revoked_at (issued_row S A cfg uuid ?user s2) = None"
    using canon(2) by (simp_all add: issued_row_def)
  moreover have "length ?older = length (refresh_tokens ?d)" by simp
  ultimately have "\<exists>older x y. refresh_tokens (committed (pg ?u)) = older @ [x, y] \<and> length older = length (refresh_tokens ?d) \<and>
       rt_user_id x = rt_user_id rt \<and> rt_user_id y = rt_user_id rt \<and> rt_revoked_at x = None \<and> rt_revoked_at y = None"
    using x(3,4) by (intro exI conjI)
  with lookup first second show ?thesis
    by (intro exI[of _ "Some (rt, email)"] exI[of _ s] exI[of _ s] exI[of _ "\<lparr>resp_status = 200, resp_body = JObj (token_fields p1)\<rparr>"]
        exI[of _ ?t] exI[of _ "\<lparr>resp_status = 200, resp_body = JObj (token_fields p2)\<rparr>"] exI[of _ ?u]) simp
qed

end
