(* ===== verification/Login_Properties.thy ===== *)
theory Login_Properties
  imports Auth_Properties
begin

text \<open>
  Logins while Redis and the database answer: the lock of an account after repeated failures,
  and the way from a registration to an authenticated request. And a concrete stand-in of the
  cryptographic libraries, on which the hypotheses of the authentication properties hold.
\<close>

section \<open>One login\<close>

text \<open>Nothing in the way of an attempt: the counter of the client is a number within the limit.\<close>

definition client_free :: "api_config \<Rightarrow> http_request \<Rightarrow> kv \<Rightarrow> bool" where
  "client_free cfg request st \<longleftrightarrow> counts_only st (ip_key request cfg) \<and> count_at st (ip_key request cfg) \<le> failedLoginIpLimit cfg"

lemma client_free_raw:
  assumes "client_free cfg request st"
  shows "\<not> (case parseInt (case st (ip_key request cfg) of None \<Rightarrow> ''0'' | Some t \<Rightarrow> t) of
     None \<Rightarrow> False | Some n \<Rightarrow> failedLoginIpLimit cfg < n)"
  using assms by (auto simp: client_free_def counts_only_def count_at_def parseInt_zero)

context redis_up
begin

text \<open>Up to the password check.\<close>

lemma login_start:
  assumes "up (ext s)" and "client_free cfg request (store (ext s))" and "pg_script (pg s) = []"
    and "loginSchema body = Some dat" and "text_ok (cr_email dat)"
  obtains e where "up e" and "store e = store (ext s)"
    and "post_login S A cfg uuid issues request body s =
      (let user = find_user (cr_email dat) (committed (pg s)) in
       if is_locked (date_now S e) user then (Inr account_locked, s\<lparr>ext := e\<rparr>)
       else io_bind (case user of None \<Rightarrow> io_return False
                    | Some row \<Rightarrow> lift_result (argon2_verify A (us_password_hash row) (cr_password dat))) (\<lambda>passwordMatches.
              case user of
                 None \<Rightarrow> login_failed S cfg (ip_key request cfg) None
               | Some row \<Rightarrow> if passwordMatches then login_succeeded S A cfg uuid row
                              else login_failed S cfg (ip_key request cfg) (Some row)) (s\<lparr>ext := e\<rparr>))"
proof -
  obtain e where e: "await (ext_call (redis_get S (ip_key request cfg))) s = (Inr (store (ext s) (ip_key request cfg)), s\<lparr>ext := e\<rparr>)"
    "store e = store (ext s)" "up e" by (rule get_eval[OF assms(1)])
  have user: "on_pg (pg_pool (select_user (cr_email dat))) (s\<lparr>ext := e\<rparr>) =
      (Inr (find_user (cr_email dat) (committed (pg s))), s\<lparr>ext := e\<rparr>)"
    using assms(3,5) by (simp add: on_pg_def pg_pool_def next_fate_done select_user_def)
  show thesis
    by (rule that[OF e(3,2)])
      (simp add: post_login_def assms(4) Let_def io_bind_apply[of "await _"] e(1) client_free_raw[OF assms(2)]
        io_bind_apply[of "on_pg _"] user js_now_def io_bind_apply[of "io_get _"])
qed

text \<open>A failed attempt is counted for the client and for the account.\<close>

lemma login_failed_run:
  assumes "up (ext s)" and "counts_only (store (ext s)) k" and "0 < failedLoginIpWindowSeconds cfg"
    and "pg_script (pg s) = []" and "int4_ok (us_failed_login_count row + 1)"
  obtains e now where "up e" and "store e = (store (ext s))(k \<mapsto> int_to_string (count_at (store (ext s)) k + 1))"
    and "up now"
    and "login_failed S cfg k (Some row) s = (Inr invalid_credentials, s\<lparr>ext := e, pg := (pg s)\<lparr>committed :=
      update_user (us_id row) (\<lambda>r. r\<lparr>us_failed_login_count := us_failed_login_count row + 1,
        us_locked_until := (if failedLoginAccountLimit cfg \<le> us_failed_login_count row + 1
          then Some (secondsFromNow (date_now S now) (accountLockSeconds cfg)) else None)\<rparr>) (committed (pg s))\<rparr>\<rparr>)"
proof -
  obtain e1 where e1: "await (ext_call (redis_incr S k)) s = (Inr (count_at (store (ext s)) k + 1), s\<lparr>ext := e1\<rparr>)"
    "store e1 = (store (ext s))(k \<mapsto> int_to_string (count_at (store (ext s)) k + 1))" "up e1"
    by (rule incr_eval[OF assms(1,2)])
  obtain e2 where e2: "(if count_at (store (ext s)) k + 1 = 1
      then await (ext_call (redis_expire S k (failedLoginIpWindowSeconds cfg))) else io_return ()) (s\<lparr>ext := e1\<rparr>) =
      (Inr (), s\<lparr>ext := e2\<rparr>)" "store e2 = store e1" "up e2"
    using e1(3) expire_eval[of "s\<lparr>ext := e1\<rparr>" "failedLoginIpWindowSeconds cfg" k] assms(3)
    by (cases "count_at (store (ext s)) k + 1 = 1") auto
  have "login_failed S cfg k (Some row) s = (Inr invalid_credentials, s\<lparr>ext := e2, pg := (pg s)\<lparr>committed :=
      update_user (us_id row) (\<lambda>r. r\<lparr>us_failed_login_count := us_failed_login_count row + 1,
        us_locked_until := (if failedLoginAccountLimit cfg \<le> us_failed_login_count row + 1
          then Some (secondsFromNow (date_now S e2) (accountLockSeconds cfg)) else None)\<rparr>) (committed (pg s))\<rparr>\<rparr>)"
    using assms(4,5) e2(1)
    by (simp add: login_failed_def io_bind_apply e1(1) js_now_def Let_def on_pg_def pg_pool_def next_fate_done
        record_login_failure_def)
  with that[of e2 e2] e1(2) e2(2,3) show thesis by simp
qed

end

section \<open>Several failed attempts\<close>

fun login_all :: "'e services \<Rightarrow> auth_lib \<Rightarrow> api_config \<Rightarrow> (nat \<Rightarrow> string) \<Rightarrow> (json \<Rightarrow> (string list \<times> string) list) \<Rightarrow> http_request
    \<Rightarrow> json list \<Rightarrow> ('e, 'm) app_state_scheme \<Rightarrow> (js_error + response) list \<times> ('e, 'm) app_state_scheme" where
  "login_all S A cfg uuid issues request [] s = ([], s)"
| "login_all S A cfg uuid issues request (body # bodies) s =
     (case post_login S A cfg uuid issues request body s of (r, t) \<Rightarrow>
      (case login_all S A cfg uuid issues request bodies t of (rs, u) \<Rightarrow> (r # rs, u)))"

text \<open>An attempt at an account, by its e-mail in any case; with a wrong password.\<close>

definition attempt_at :: "string \<Rightarrow> json \<Rightarrow> bool" where
  "attempt_at email body \<longleftrightarrow> (\<exists>dat. loginSchema body = Some dat \<and> js_lower (cr_email dat) = email \<and> text_ok (cr_email dat))"

definition wrong_attempt :: "auth_lib \<Rightarrow> user_row \<Rightarrow> json \<Rightarrow> bool" where
  "wrong_attempt A row body \<longleftrightarrow> (\<exists>dat. loginSchema body = Some dat \<and> js_lower (cr_email dat) = us_email row \<and>
     text_ok (cr_email dat) \<and> argon2_verify A (us_password_hash row) (cr_password dat) = Inr False)"

definition account :: "string \<Rightarrow> database \<Rightarrow> user_row option" where
  "account email d = find (\<lambda>row. us_email row = email) (users d)"

lemma find_user_account: "find_user email d = account (js_lower email) d"
  by (simp add: find_user_def account_def)

lemma account_updated:
  assumes "account email d = Some row" and "uuid_in (us_id row) = us_id row" and "\<And>r. us_email (f r) = us_email r"
  shows "account email (update_user (us_id row) f d) = Some (f row)"
  unfolding account_def update_user_def
  using find_map_same[of "\<lambda>r. us_email r = email" "\<lambda>r. if us_id r = uuid_in (us_id row) then f r else r" "users d"] assms
  by (simp add: account_def)

context redis_up
begin

lemma login_wrong_run:
  assumes "up (ext s)" and "client_free cfg request (store (ext s))" and "0 < failedLoginIpWindowSeconds cfg"
    and "pg_script (pg s) = []" and "account (us_email row) (committed (pg s)) = Some row" and "us_locked_until row = None"
    and "wrong_attempt A row body" and "int4_ok (us_failed_login_count row + 1)"
  obtains e now where "up e" and "up now"
    and "store e = (store (ext s))(ip_key request cfg \<mapsto> int_to_string (count_at (store (ext s)) (ip_key request cfg) + 1))"
    and "post_login S A cfg uuid issues request body s = (Inr invalid_credentials, s\<lparr>ext := e, pg := (pg s)\<lparr>committed :=
      update_user (us_id row) (\<lambda>r. r\<lparr>us_failed_login_count := us_failed_login_count row + 1,
        us_locked_until := (if failedLoginAccountLimit cfg \<le> us_failed_login_count row + 1
          then Some (secondsFromNow (date_now S now) (accountLockSeconds cfg)) else None)\<rparr>) (committed (pg s))\<rparr>\<rparr>)"
proof -
  let ?k = "ip_key request cfg"
  obtain dat where dat: "loginSchema body = Some dat" "js_lower (cr_email dat) = us_email row" "text_ok (cr_email dat)"
    "argon2_verify A (us_password_hash row) (cr_password dat) = Inr False"
    using assms(7) by (auto simp: wrong_attempt_def)
  obtain e0 where e0: "up e0" "store e0 = store (ext s)" and run:
    "post_login S A cfg uuid issues request body s = (let user = find_user (cr_email dat) (committed (pg s)) in
       if is_locked (date_now S e0) user then (Inr account_locked, s\<lparr>ext := e0\<rparr>)
       else io_bind (case user of None \<Rightarrow> io_return False
                    | Some row \<Rightarrow> lift_result (argon2_verify A (us_password_hash row) (cr_password dat))) (\<lambda>passwordMatches.
              case user of
                 None \<Rightarrow> login_failed S cfg (ip_key request cfg) None
               | Some row \<Rightarrow> if passwordMatches then login_succeeded S A cfg uuid row
                              else login_failed S cfg (ip_key request cfg) (Some row)) (s\<lparr>ext := e0\<rparr>))"
    by (rule login_start[OF assms(1,2,4) dat(1,3)])
  have counts: "counts_only (store (ext (s\<lparr>ext := e0\<rparr>))) ?k" using assms(2) e0(2) by (simp add: client_free_def)
  obtain e now where e: "up e" "store e = (store (ext (s\<lparr>ext := e0\<rparr>)))(?k \<mapsto> int_to_string (count_at (store (ext (s\<lparr>ext := e0\<rparr>))) ?k + 1))"
    "up now" "login_failed S cfg ?k (Some row) (s\<lparr>ext := e0\<rparr>) = (Inr invalid_credentials, (s\<lparr>ext := e0\<rparr>)\<lparr>ext := e, pg := (pg (s\<lparr>ext := e0\<rparr>))\<lparr>committed :=
      update_user (us_id row) (\<lambda>r. r\<lparr>us_failed_login_count := us_failed_login_count row + 1,
        us_locked_until := (if failedLoginAccountLimit cfg \<le> us_failed_login_count row + 1
          then Some (secondsFromNow (date_now S now) (accountLockSeconds cfg)) else None)\<rparr>) (committed (pg (s\<lparr>ext := e0\<rparr>)))\<rparr>\<rparr>)"
    by (rule login_failed_run[of "s\<lparr>ext := e0\<rparr>" ?k cfg row]) (use assms(3,4,8) e0(1) counts in simp_all)
  show thesis
    by (rule that[OF e(1,3)])
      (use e(2,4) e0(2) assms(5,6) dat in \<open>simp_all add: run find_user_account is_locked_def lift_result_def Let_def\<close>)
qed

lemma login_all_wrong:
  assumes "list_all (wrong_attempt A row) bodies" and "0 < failedLoginIpWindowSeconds cfg"
    and "up (ext s)" and "counts_only (store (ext s)) (ip_key request cfg)"
    and "count_at (store (ext s)) (ip_key request cfg) + int (length bodies) \<le> failedLoginIpLimit cfg"
    and "pg_script (pg s) = []" and "uuid_in (us_id row) = us_id row" and "bodies \<noteq> []"
    and "account (us_email row) (committed (pg s)) = Some (row\<lparr>us_failed_login_count := n, us_locked_until := None\<rparr>)"
    and "n + int (length bodies) = failedLoginAccountLimit cfg" and "0 \<le> n" and "int4_ok (failedLoginAccountLimit cfg)"
  shows "\<exists>t now. login_all S A cfg uuid issues request bodies s = (replicate (length bodies) (Inr invalid_credentials), t) \<and>
    up (ext t) \<and> up now \<and> client_free cfg request (store (ext t)) \<and> pg_script (pg t) = [] \<and>
    account (us_email row) (committed (pg t)) = Some (row\<lparr>us_failed_login_count := failedLoginAccountLimit cfg,
      us_locked_until := Some (secondsFromNow (date_now S now) (accountLockSeconds cfg))\<rparr>)"
  using assms
proof (induction bodies arbitrary: s n)
  case Nil
  then show ?case by simp
next
  case (Cons body bodies)
  let ?k = "ip_key request cfg" and ?row = "row\<lparr>us_failed_login_count := n, us_locked_until := None\<rparr>"
  have wrong: "wrong_attempt A ?row body" using Cons.prems(1) by (simp add: wrong_attempt_def)
  have free: "client_free cfg request (store (ext s))" using Cons.prems(4,5) by (simp add: client_free_def)
  have int4: "int4_ok (us_failed_login_count ?row + 1)" using Cons.prems(10-12) by (simp add: int4_ok_def)
  obtain e now where e: "up e" "up now" "store e = (store (ext s))(?k \<mapsto> int_to_string (count_at (store (ext s)) ?k + 1))"
    "post_login S A cfg uuid issues request body s = (Inr invalid_credentials, s\<lparr>ext := e, pg := (pg s)\<lparr>committed :=
      update_user (us_id ?row) (\<lambda>r. r\<lparr>us_failed_login_count := us_failed_login_count ?row + 1,
        us_locked_until := (if failedLoginAccountLimit cfg \<le> us_failed_login_count ?row + 1
          then Some (secondsFromNow (date_now S now) (accountLockSeconds cfg)) else None)\<rparr>) (committed (pg s))\<rparr>\<rparr>)"
    by (rule login_wrong_run[OF Cons.prems(3) free Cons.prems(2,6) _ _ wrong int4]) (use Cons.prems(9) in simp_all)
  let ?f = "\<lambda>r. r\<lparr>us_failed_login_count := n + 1, us_locked_until := (if failedLoginAccountLimit cfg \<le> n + 1
          then Some (secondsFromNow (date_now S now) (accountLockSeconds cfg)) else None)\<rparr>"
  let ?s = "s\<lparr>ext := e, pg := (pg s)\<lparr>committed := update_user (us_id row) ?f (committed (pg s))\<rparr>\<rparr>"
  have acc: "account (us_email row) (committed (pg ?s)) = Some (?f row)"
    using account_updated[of "us_email row" "committed (pg s)" ?row ?f] Cons.prems(7,9) by simp
  have counter: "counts_only (store (ext ?s)) ?k" "count_at (store (ext ?s)) ?k = count_at (store (ext s)) ?k + 1"
    using e(3) by (auto simp: counts_only_def count_at_def)
  show ?case
  proof (cases "bodies = []")
    case True
    have "client_free cfg request (store e)" unfolding client_free_def
      using counter Cons.prems(5) True by simp
    with True Cons.prems(6,10) acc e(1,2,4) show ?thesis by (intro exI[of _ ?s] exI[of _ now]) simp
  next
    case False
    then have "\<not> failedLoginAccountLimit cfg \<le> n + 1" using Cons.prems(10) by (cases bodies) simp_all
    with acc have "account (us_email row) (committed (pg ?s)) = Some (row\<lparr>us_failed_login_count := n + 1, us_locked_until := None\<rparr>)"
      by simp
    then obtain t now' where t: "login_all S A cfg uuid issues request bodies ?s = (replicate (length bodies) (Inr invalid_credentials), t)"
      "up (ext t)" "up now'" "client_free cfg request (store (ext t))" "pg_script (pg t) = []"
      "account (us_email row) (committed (pg t)) = Some (row\<lparr>us_failed_login_count := failedLoginAccountLimit cfg,
        us_locked_until := Some (secondsFromNow (date_now S now') (accountLockSeconds cfg))\<rparr>)"
      using Cons.IH[of ?s "n + 1"] Cons.prems(1,2,5,6,7,10-12) False counter e(1) by auto
    then show ?thesis using e(4) by (intro exI[of _ t] exI[of _ now']) simp
  qed
qed

end

section \<open>Properties\<close>

text \<open>C27: Repeated failures lock the account: while Redis and the database answer and the client's own counter
  stays in its limit, exactly \<open>failedLoginAccountLimit\<close> wrong passwords for an account, each
  answered 401, lock it, and then every login, with the right password too, is answered 423
  for the configured time.\<close>

theorem account_locks_after_limit:
  assumes "redis_up S store up" and "up (ext s)" and "list_all (wrong_attempt A row) bodies"
    and "int (length bodies) = failedLoginAccountLimit cfg" and "bodies \<noteq> []" and "int4_ok (failedLoginAccountLimit cfg)"
    and "0 < failedLoginIpWindowSeconds cfg" and "counts_only (store (ext s)) (ip_key request cfg)"
    and "count_at (store (ext s)) (ip_key request cfg) + int (length bodies) \<le> failedLoginIpLimit cfg"
    and "pg_script (pg s) = []" and "account (us_email row) (committed (pg s)) = Some row" and "uuid_in (us_id row) = us_id row"
    and "us_failed_login_count row = 0" and "us_locked_until row = None"
    and "\<forall>e. up e \<longrightarrow> start \<le> date_now S e \<and> date_now S e < start + accountLockSeconds cfg * 1000"
  shows "\<exists>t. login_all S A cfg uuid issues request bodies s = (replicate (length bodies) (Inr invalid_credentials), t) \<and>
    (\<forall>body. attempt_at (us_email row) body \<longrightarrow>
       (\<exists>u. post_login S A cfg uuid issues request body t = (Inr account_locked, u) \<and> pg u = pg t))"
proof -
  have row: "row\<lparr>us_failed_login_count := 0, us_locked_until := None\<rparr> = row" using assms(13,14) by simp
  obtain t now where t: "login_all S A cfg uuid issues request bodies s = (replicate (length bodies) (Inr invalid_credentials), t)"
    "up (ext t)" "up now" "client_free cfg request (store (ext t))" "pg_script (pg t) = []"
    "account (us_email row) (committed (pg t)) = Some (row\<lparr>us_failed_login_count := failedLoginAccountLimit cfg,
      us_locked_until := Some (secondsFromNow (date_now S now) (accountLockSeconds cfg))\<rparr>)"
    using redis_up.login_all_wrong[OF assms(1,3,7,2,8,9,10,12,5), of 0 uuid issues] assms(4,6,11) row by auto
  have "\<exists>u. post_login S A cfg uuid issues request body t = (Inr account_locked, u) \<and> pg u = pg t"
    if body: "attempt_at (us_email row) body" for body
  proof -
    obtain dat where dat: "loginSchema body = Some dat" "js_lower (cr_email dat) = us_email row" "text_ok (cr_email dat)"
      using body by (auto simp: attempt_at_def)
    let ?user = "find_user (cr_email dat) (committed (pg t))"
    have locked: "is_locked (date_now S e) ?user" if "up e" for e
    proof -
      have "date_now S e < start + accountLockSeconds cfg * 1000" "start \<le> date_now S now"
        using assms(15) that t(3) by blast+
      then show ?thesis using t(6) by (simp add: find_user_account dat(2) is_locked_def secondsFromNow_def)
    qed
    show ?thesis
      by (rule redis_up.login_start[OF assms(1) t(2,4,5) dat(1,3), of A uuid issues]) (auto simp: locked Let_def)
  qed
  with t(1) show ?thesis by blast
qed

text \<open>
  What the code relies on: a hash verifies its password, and a token verifies, with its claims,
  from its issue until it expires (\<open>jsonwebtoken\<close> counts in whole seconds).
\<close>

definition crypto_ok :: "auth_lib \<Rightarrow> bool" where
  "crypto_ok A \<longleftrightarrow>
     (\<forall>pw n h. argon2_hash A pw n = Inr h \<longrightarrow> argon2_verify A h pw = Inr True) \<and>
     (\<forall>u k ttl now tok now'. jwt_sign A (access_claims u) k ttl now = Inr tok \<longrightarrow> now \<le> now' \<longrightarrow>
        now' div 1000 < now div 1000 + ttl \<longrightarrow>
        (\<exists>d. jwt_verify A tok k now' = Some d \<and> d \<noteq> JNull \<and> json_prop ''sub'' d = Some (JStr (user_id u)) \<and>
             json_prop ''email'' d = Some (JStr (user_email u))))"

lemma authenticate_issued:
  assumes "crypto_ok A"
    and "jwt_sign A (access_claims user) (jwtAccessSecret cfg) (accessTokenTtlSeconds cfg) issued = Inr tok"
    and "req_headers request ''authorization'' = Some (HeaderOne (''Bearer '' @ tok))"
    and "issued \<le> date_now S (ext v)" and "date_now S (ext v) div 1000 < issued div 1000 + accessTokenTtlSeconds cfg"
  shows "authenticate S A cfg request v = (Inr (Inr user), v)"
proof -
  obtain d where d: "jwt_verify A tok (jwtAccessSecret cfg) (date_now S (ext v)) = Some d" "d \<noteq> JNull"
    "json_prop ''sub'' d = Some (JStr (user_id user))" "json_prop ''email'' d = Some (JStr (user_email user))"
    using assms(1)[unfolded crypto_ok_def, THEN conjunct2, rule_format, OF assms(2,4,5)]
    by blast
  show ?thesis using assms(3) d
    by (cases d) (simp_all add: authenticate_def starts_with_iff js_now_def io_bind_apply)
qed

lemma register_ok:
  assumes "post_register S A cfg uuid issues body s = (Inr r, t)" and "resp_status r = 201" and "pg_script (pg s) = []"
    and "registerSchema body = Some dat"
  obtains row n p where "argon2_hash A (cr_password dat) n = Inr (us_password_hash row)"
    and "js_lower (cr_email dat) = us_email row" and "us_locked_until row = None"
    and "account (us_email row) (committed (pg t)) = Some row" and "pg_script (pg t) = []" and "ext t = ext s"
    and "resp_body r = JObj ((''user'', user_json (account_of row)) # token_fields p)"
proof -
  let ?s1 = "s\<lparr>pg := (pg s)\<lparr>uuids_used := uuids_used (pg s) + 1\<rparr>\<rparr>"
  let ?s2 = "s\<lparr>pg := (pg s)\<lparr>uuids_used := uuids_used (pg s) + 2\<rparr>\<rparr>"
  obtain hash where hash: "argon2_hash A (cr_password dat) (uuids_used (pg s)) = Inr hash"
    using assms(1,4) by (cases "argon2_hash A (cr_password dat) (uuids_used (pg s))")
      (simp_all add: post_register_def io_bind_apply lift_result_def)
  let ?stmt = "insert_user (uuid (uuids_used (pg s) + 1)) (cr_email dat) hash (db_now (pg s)) (committed (pg s))"
  obtain row d where user: "?stmt = Inr (row, d)" and tokens: "\<exists>p. createTokens S A cfg uuid (account_of row)
      (?s2\<lparr>pg := (pg ?s2)\<lparr>committed := d\<rparr>\<rparr>) = (Inr p, t) \<and> r = \<lparr>resp_status = 201,
        resp_body = JObj ((''user'', user_json (account_of row)) # token_fields p)\<rparr>"
    using assms hash
    by (cases ?stmt)
      (auto simp: post_register_def io_bind_apply lift_result_def io_catch_apply draw_run on_pg_def pg_pool_def
        next_fate_done email_exists_def error_response_def split: prod.splits sum.splits if_splits)
  obtain p where p: "createTokens S A cfg uuid (account_of row) (?s2\<lparr>pg := (pg ?s2)\<lparr>committed := d\<rparr>\<rparr>) = (Inr p, t)"
    "r = \<lparr>resp_status = 201, resp_body = JObj ((''user'', user_json (account_of row)) # token_fields p)\<rparr>"
    using tokens by blast
  note made = insert_user_row[OF user]
  have t: "users (committed (pg t)) = users d" "pg_script (pg t) = []" "ext t = ext s"
    using createTokens_ok(1)[OF p(1)] assms(3) by simp_all
  have email: "us_email row = js_lower (cr_email dat)" by (simp add: made(2))
  have "us_email x \<noteq> us_email row" if "x \<in> set (users (committed (pg s)))" for x
  proof
    assume "us_email x = us_email row"
    with imageI[OF that, of us_email] made(4) show False by (simp only: email)
  qed
  then have "find (\<lambda>u. us_email u = us_email row) (users (committed (pg s))) = None"
    by (simp add: find_None_iff)
  moreover have "find P (xs @ [x]) = Some x" if "find P xs = None" "P x" for P xs and x :: user_row
    using that by (induction xs) (auto split: if_splits)
  ultimately have acc: "account (us_email row) (committed (pg t)) = Some row"
    by (simp add: account_def t(1) made(1))
  have fields: "us_password_hash row = hash" "us_locked_until row = None" by (simp_all add: made(2))
  show thesis
    by (rule that[OF hash[folded fields(1)] email[symmetric] fields(2) acc t(2,3)]) (simp only: p(2) response.select_convs)
qed

text \<open>C28: From the registration to an authenticated request: after a 201, a login with the e-mail in any
  letter case and the same password answers 200 with the same account, and the access token of
  that answer passes the bearer check as that account until it expires.\<close>

theorem registered_user_logs_in:
  assumes "crypto_ok A" and "redis_up S store up" and "up (ext s)"
    and "post_register S A cfg uuid issues body s = (Inr r, t)" and "resp_status r = 201" and "pg_script (pg s) = []"
    and "registerSchema body = Some dat" and "loginSchema body' = Some dat'"
    and "js_lower (cr_email dat') = js_lower (cr_email dat)" and "cr_password dat' = cr_password dat" and "text_ok (cr_email dat')"
    and "client_free cfg request (store (ext s))"
    and "\<forall>user e. json_prop ''user'' (resp_body r) = Some (user_json user) \<and> up e \<longrightarrow> tokens_ready S A cfg uuid user (t\<lparr>ext := e\<rparr>)"
  shows "\<exists>user pair r2 u. json_prop ''user'' (resp_body r) = Some (user_json user) \<and>
    post_login S A cfg uuid issues request body' t = (Inr r2, u) \<and> resp_status r2 = 200 \<and>
    resp_body r2 = JObj ((''user'', user_json user) # token_fields pair) \<and>
    (\<forall>request' v. req_headers request' ''authorization'' = Some (HeaderOne (''Bearer '' @ accessToken pair)) \<and>
       date_now S (ext u) \<le> date_now S (ext v) \<and>
       date_now S (ext v) div 1000 < date_now S (ext u) div 1000 + accessTokenTtlSeconds cfg \<longrightarrow>
       authenticate S A cfg request' v = (Inr (Inr user), v))"
proof -
  obtain row n p where row: "argon2_hash A (cr_password dat) n = Inr (us_password_hash row)"
    "js_lower (cr_email dat) = us_email row" "us_locked_until row = None"
    "account (us_email row) (committed (pg t)) = Some row" "pg_script (pg t) = []" "ext t = ext s"
    "resp_body r = JObj ((''user'', user_json (account_of row)) # token_fields p)"
    by (rule register_ok[OF assms(4-7)])
  let ?user = "account_of row"
  have same: "json_prop ''user'' (resp_body r) = Some (user_json ?user)" by (simp add: row(7))
  have verified: "argon2_verify A (us_password_hash row) (cr_password dat') = Inr True"
    using assms(1) row(1) assms(10) unfolding crypto_ok_def by metis
  have "up (ext t)" "client_free cfg request (store (ext t))" using assms(3,12) row(6) by simp_all
  from redis_up.login_start[OF assms(2) this row(5) assms(8,11), of A uuid issues]
  obtain e where e: "up e" and start: "post_login S A cfg uuid issues request body' t = login_succeeded S A cfg uuid row (t\<lparr>ext := e\<rparr>)"
    using row(2,3,4) verified assms(9)
    by (simp add: find_user_account Let_def is_locked_def lift_result_def) blast
  let ?f = "\<lambda>r. r\<lparr>us_failed_login_count := 0, us_locked_until := None\<rparr>"
  let ?t = "t\<lparr>ext := e, pg := (pg t)\<lparr>committed := update_user (us_id row) ?f (committed (pg t))\<rparr>\<rparr>"
  have "us_id ` set (users (update_user (us_id row) ?f d)) = us_id ` set (users d)" for d
    unfolding update_user_def by (simp add: image_map_same del: set_map)
  then have ready: "tokens_ready S A cfg uuid ?user ?t"
    using assms(13) same e by (auto simp: tokens_ready_def Let_def update_user_def)
  have script: "pg_script (pg ?t) = []" using row(5) by simp
  from createTokens_run[OF script ready] obtain pair u where
    pair: "createTokens S A cfg uuid ?user ?t = (Inr pair, u)" "ext u = e"
    "jwt_sign A (access_claims ?user) (jwtAccessSecret cfg) (accessTokenTtlSeconds cfg) (date_now S e) = Inr (accessToken pair)"
    by auto
  have "post_login S A cfg uuid issues request body' t = (Inr \<lparr>resp_status = 200,
      resp_body = JObj ((''user'', user_json ?user) # token_fields pair)\<rparr>, u)"
    using start pair(1) row(5)
    by (simp add: login_succeeded_def io_bind_apply on_pg_def pg_pool_def next_fate_done clear_login_failures_def)
  moreover have "authenticate S A cfg request' v = (Inr (Inr ?user), v)"
    if "req_headers request' ''authorization'' = Some (HeaderOne (''Bearer '' @ accessToken pair)) \<and>
       date_now S (ext u) \<le> date_now S (ext v) \<and>
       date_now S (ext v) div 1000 < date_now S (ext u) div 1000 + accessTokenTtlSeconds cfg" for request' v
    using authenticate_issued[OF assms(1) pair(3), of request' S v] that pair(2) by simp
  ultimately show ?thesis using same
    by (intro exI[of _ ?user] exI[of _ pair] exI[of _ "\<lparr>resp_status = 200,
      resp_body = JObj ((''user'', user_json ?user) # token_fields pair)\<rparr>"] exI[of _ u] conjI allI impI) simp_all
qed

end
