(* ===== verification/Auth_Witnesses.thy ===== *)
theory Auth_Witnesses
  imports Login_Properties Order_Properties
begin

text \<open>
  The properties of the authentication at concrete inputs, with a stand-in for the cryptographic
  libraries (a hash that shows the password, a token that shows its claims) on which the laws
  they are used for hold.
\<close>

definition demo_sign :: "json \<Rightarrow> string \<Rightarrow> int \<Rightarrow> int \<Rightarrow> js_error + string" where
  "demo_sign claims secret ttl now = Inr (JSON_stringify (JArr [claims, JNum (now div 1000 + ttl), JStr secret]))"

definition demo_verify :: "string \<Rightarrow> string \<Rightarrow> int \<Rightarrow> json option" where
  "demo_verify token secret now = (case JSON_parse token of
     Some (JArr [claims, JNum expiry, JStr k]) \<Rightarrow> if k = secret \<and> now div 1000 < expiry then Some claims else None
   | _ \<Rightarrow> None)"

definition demo_crypto :: auth_lib where
  "demo_crypto = \<lparr>argon2_hash = (\<lambda>pw salt. Inr (''hash of '' @ pw)), argon2_verify = (\<lambda>h pw. Inr (h = ''hash of '' @ pw)),
     sha256_hex = (\<lambda>t. t), random_base64url = (\<lambda>n. replicate (32 + n) CHR ''r''), jwt_sign = demo_sign, jwt_verify = demo_verify\<rparr>"

lemma access_claims_wf [simp]: "json_wf (access_claims u)"
  by (simp add: access_claims_def)

lemma demo_crypto_ok: "crypto_ok demo_crypto"
proof -
  have "JSON_parse (JSON_stringify (JArr [access_claims u, JNum x, JStr k])) = Some (JArr [access_claims u, JNum x, JStr k])" for u x k
    by (rule JSON_parse_stringify) simp
  then show ?thesis
    by (auto simp: crypto_ok_def demo_crypto_def demo_sign_def demo_verify_def access_claims_def)
qed

definition demo_token :: string where
  "demo_token = replicate 40 CHR ''t''"

definition demo_token_row :: refresh_token_row where
  "demo_token_row = \<lparr>rt_id = ''t1'', rt_user_id = ''u1'', rt_token_hash = demo_token, rt_expires_at = 5000, rt_revoked_at = None\<rparr>"

definition demo_account :: user_row where
  "demo_account = \<lparr>us_id = ''u1'', us_email = ''a@b.c'', us_password_hash = ''hash of correct-horse-battery'',
     us_failed_login_count = 0, us_locked_until = None\<rparr>"

definition demo_auth_db :: database where
  "demo_auth_db = empty_database\<lparr>users := [demo_account], refresh_tokens := [demo_token_row]\<rparr>"

definition demo_auth :: "'e \<Rightarrow> 'e app_state" where
  "demo_auth e = (demo_app e)\<lparr>pg := demo_world\<lparr>committed := demo_auth_db\<rparr>\<rparr>"

definition demo_refresh_body :: json where
  "demo_refresh_body = JObj [(''refreshToken'', JStr demo_token)]"

lemmas demo_auth_defs = demo_auth_def demo_auth_db_def demo_account_def demo_token_row_def demo_world_def empty_database_def

lemma demo_auth_ok: "auth_ok demo_config demo_auth_db"
  by (simp add: auth_ok_def users_ok_def tokens_ok_def demo_auth_defs uuid_in_def js_lower_def lower_char_def)

lemma demo_auth_start [simp]:
  "committed (pg (demo_auth e)) = demo_auth_db" "pg_script (pg (demo_auth e)) = []" "uuids_used (pg (demo_auth e)) = 0"
  "ext (demo_auth e) = e"
  by (simp_all add: demo_auth_defs demo_app_def api_state.extend_def demo_state_def)

lemma demo_refresh_schema: "refreshSchema demo_refresh_body = Some demo_token"
  by (simp add: refreshSchema_def demo_refresh_body_def demo_token_def)

lemma demo_found: "find_token (hashToken demo_crypto demo_token) demo_auth_db = Some (demo_token_row, ''a@b.c'')"
  by (simp add: find_token_def hashToken_def demo_crypto_def demo_auth_defs)

lemma demo_tokens_ready:
  "n \<in> {0, 2} \<Longrightarrow> tokens_ready stub_services demo_crypto demo_config demo_uuid \<lparr>user_id = ''u1'', user_email = ''a@b.c''\<rparr>
     ((demo_auth (\<lambda>_. None))\<lparr>pg := (pg (demo_auth (\<lambda>_. None)))\<lparr>uuids_used := n\<rparr>\<rparr>)"
  by (auto simp: tokens_ready_def Let_def demo_crypto_def demo_sign_def hashToken_def text_ok_def demo_auth_db_def
      demo_token_row_def demo_token_def demo_account_def demo_uuid_def uuid_in_def js_lower_def lower_char_def
      dest: arg_cong[where f = hd])

theorem overlapping_refreshes_both_succeed_witness:
  "\<exists>found t r1 r2 u. refresh_finish stub_services demo_crypto demo_config demo_uuid found (demo_auth (\<lambda>_. None)) = (Inr r1, t) \<and>
     refresh_finish stub_services demo_crypto demo_config demo_uuid found t = (Inr r2, u) \<and> resp_status r1 = 200 \<and> resp_status r2 = 200"
proof -
  let ?s = "demo_auth (\<lambda>_. None) :: (string \<Rightarrow> string option) app_state"
  have "auth_ok demo_config (committed (pg ?s))" "pg_script (pg ?s) = []" by (simp_all add: demo_auth_ok)
  moreover have "find_token (hashToken demo_crypto demo_token) (committed (pg ?s)) = Some (demo_token_row, ''a@b.c'')"
    by (simp add: demo_found)
  moreover have "date_now stub_services (ext ?s) < rt_expires_at demo_token_row" "rt_revoked_at demo_token_row = None"
    by (simp_all add: stub_services_def demo_token_row_def)
  moreover have "\<forall>n\<in>{0, 2}. tokens_ready stub_services demo_crypto demo_config demo_uuid
      \<lparr>user_id = rt_user_id demo_token_row, user_email = ''a@b.c''\<rparr> (?s\<lparr>pg := (pg ?s)\<lparr>uuids_used := uuids_used (pg ?s) + n\<rparr>\<rparr>)"
    using demo_tokens_ready[of 0] demo_tokens_ready[of 2] by (simp add: demo_token_row_def)
  moreover have "uuid_in (demo_uuid (uuids_used (pg ?s) + 1)) \<noteq> uuid_in (demo_uuid (uuids_used (pg ?s) + 3))"
    "hashToken demo_crypto (random_base64url demo_crypto (uuids_used (pg ?s))) \<noteq>
     hashToken demo_crypto (random_base64url demo_crypto (uuids_used (pg ?s) + 2))"
    by (simp_all add: demo_uuid_def uuid_in_def js_lower_def lower_char_def hashToken_def demo_crypto_def numeral_eq_Suc)
  ultimately obtain found s1 s2 r1 t r2 u where run:
    "refresh_lookup demo_crypto demo_token ?s = (Inr found, s1)" "refresh_lookup demo_crypto demo_token s1 = (Inr found, s2)"
    "refresh_finish stub_services demo_crypto demo_config demo_uuid found s2 = (Inr r1, t)"
    "refresh_finish stub_services demo_crypto demo_config demo_uuid found t = (Inr r2, u)" "resp_status r1 = 200" "resp_status r2 = 200"
    using overlapping_refreshes_both_succeed[of demo_config ?s demo_crypto demo_token demo_token_row "''a@b.c''" stub_services demo_uuid]
    by blast
  have "refresh_lookup demo_crypto demo_token ?s = (Inr (Some (demo_token_row, ''a@b.c'')), ?s)"
    by (simp add: refresh_lookup_def on_pg_pool_run select_token_def demo_found)
  with run(1,2) have "s2 = ?s" by simp
  with run show ?thesis by blast
qed

theorem reused_refresh_token_revokes_all_witness:
  "\<exists>r t u. post_refresh stub_services demo_crypto demo_config demo_uuid (\<lambda>j. []) demo_refresh_body (demo_auth (\<lambda>_. None)) = (Inr r, t) \<and>
     resp_status r = 200 \<and>
     post_refresh stub_services demo_crypto demo_config demo_uuid (\<lambda>j. []) demo_refresh_body t = (Inr refresh_token_reused, u) \<and>
     (\<forall>x\<in>set (refresh_tokens (committed (pg u))). rt_user_id x = ''u1'' \<longrightarrow> rt_revoked_at x \<noteq> None)"
proof -
  let ?s = "demo_auth (\<lambda>_. None) :: (string \<Rightarrow> string option) app_state" and ?f = "\<lambda>rt. rt\<lparr>rt_revoked_at := Some 0\<rparr>"
  let ?user = "\<lparr>user_id = ''u1'', user_email = ''a@b.c''\<rparr>"
  let ?s1 = "?s\<lparr>pg := (pg ?s)\<lparr>committed := demo_auth_db\<lparr>refresh_tokens := [?f demo_token_row]\<rparr>\<rparr>\<rparr>"
  have lookup: "refresh_lookup demo_crypto demo_token ?s = (Inr (Some (demo_token_row, ''a@b.c'')), ?s)"
    by (simp add: refresh_lookup_def on_pg_pool_run select_token_def demo_found)
  have "tokens_ready stub_services demo_crypto demo_config demo_uuid ?user ?s1"
    using demo_tokens_ready[of 0] by (simp add: tokens_ready_def Let_def demo_auth_db_def)
  from createTokens_run[OF _ this] obtain p t where
    tokens: "createTokens stub_services demo_crypto demo_config demo_uuid ?user ?s1 = (Inr p, t)" by auto
  have now: "date_now stub_services e = 0" "db_now (pg ?s) = 0" for e
    by (simp_all add: stub_services_def demo_auth_def demo_world_def)
  have revoke: "on_pg (pg_pool (revoke_token (rt_id demo_token_row))) ?s = (Inr (), ?s1)"
    by (simp add: on_pg_pool_run revoke_token_def revoke_where_def now)
      (simp add: demo_auth_db_def demo_token_row_def uuid_in_def js_lower_def lower_char_def)
  have first: "post_refresh stub_services demo_crypto demo_config demo_uuid (\<lambda>j. []) demo_refresh_body ?s =
      (Inr \<lparr>resp_status = 200, resp_body = JObj (token_fields p)\<rparr>, t)"
    using tokens revoke
    by (simp add: post_refresh_def demo_refresh_schema io_bind_apply lookup refresh_finish_def js_now_def now)
      (simp add: demo_token_row_def)
  have start: "auth_ok demo_config (committed (pg ?s))" "pg_script (pg ?s) = []" by (simp_all add: demo_auth_ok)
  obtain rt email u where again: "find_token (hashToken demo_crypto demo_token) (committed (pg ?s)) = Some (rt, email)"
    "post_refresh stub_services demo_crypto demo_config demo_uuid (\<lambda>j. []) demo_refresh_body t = (Inr refresh_token_reused, u)"
    "\<forall>x\<in>set (refresh_tokens (committed (pg u))). rt_user_id x = rt_user_id rt \<longrightarrow> rt_revoked_at x \<noteq> None"
    using reused_refresh_token_revokes_all[OF start demo_refresh_schema first] by auto
  then have "rt_user_id rt = rt_user_id demo_token_row" by (simp add: demo_found)
  then have "rt_user_id rt = ''u1''" by (simp add: demo_token_row_def)
  with first again show ?thesis by (intro exI[of _ "\<lparr>resp_status = 200, resp_body = JObj (token_fields p)\<rparr>"] exI[of _ t] exI[of _ u]) simp
qed

section \<open>Logins\<close>

lemma server_at: "redis_up server_services live (\<lambda>sv. rs_script sv = [] \<and> rs_now sv = now)"
proof (unfold_locales, goal_cases)
  case (1 e k pn e')
  then show ?case
    by (auto simp: server_defs run_command_def incr_effect_def counts_only_def store_key_def
        split: prod.splits option.splits)
next
  case (2 e k ttl pu e')
  then show ?case by (auto simp: server_defs run_command_def store_key_def split: option.splits)
next
  case (3 e k pn e')
  then show ?case by (auto simp: server_defs run_command_def)
next
  case (4 e k pv e')
  then show ?case by (auto simp: server_defs run_command_def)
qed

definition quiet_server :: redis_server where
  "quiet_server = \<lparr>rs_data = (\<lambda>_. None), rs_now = 1000, rs_script = []\<rparr>"

definition login_body :: "string \<Rightarrow> json" where
  "login_body pw = JObj [(''email'', JStr ''A@b.c''), (''password'', JStr pw)]"

lemma demo_email_lower [simp]: "js_lower ''A@b.c'' = ''a@b.c''"
  by code_simp

lemma login_body_schema:
  "12 \<le> length pw \<Longrightarrow> registerSchema (login_body pw) = Some \<lparr>cr_email = ''A@b.c'', cr_password = pw\<rparr>"
  by (simp add: registerSchema_def login_body_def passwordSchema_def emailSchema_def plain_char_def is_js_space_def)

lemma quiet_free: "client_free demo_config request (live quiet_server)"
  by (simp add: client_free_def counts_only_def count_at_def live_def quiet_server_def demo_config_def)

theorem account_locks_after_limit_witness:
  "\<exists>t. login_all server_services demo_crypto demo_config demo_uuid (\<lambda>j. []) demo_request (replicate 5 (login_body ''wrong-password''))
      (demo_auth quiet_server) = (replicate 5 (Inr invalid_credentials), t) \<and>
     (\<exists>u. post_login server_services demo_crypto demo_config demo_uuid (\<lambda>j. []) demo_request (login_body ''correct-horse-battery'') t =
        (Inr account_locked, u))"
proof -
  let ?s = "demo_auth quiet_server" and ?bodies = "replicate 5 (login_body ''wrong-password'')"
  have wrong: "wrong_attempt demo_crypto demo_account (login_body ''wrong-password'')"
    by (simp add: wrong_attempt_def loginSchema_def login_body_schema demo_account_def demo_crypto_def text_ok_def)
  have "up (ext ?s)" if "up = (\<lambda>sv. rs_script sv = [] \<and> rs_now sv = 1000)" for up
    by (simp add: that quiet_server_def)
  moreover have "list_all (wrong_attempt demo_crypto demo_account) ?bodies" using wrong by (simp add: list_all_iff)
  moreover have "int (length ?bodies) = failedLoginAccountLimit demo_config" "?bodies \<noteq> []"
    "int4_ok (failedLoginAccountLimit demo_config)" "0 < failedLoginIpWindowSeconds demo_config"
    by (simp_all add: demo_config_def int4_ok_def)
  moreover have "counts_only (live (ext ?s)) (ip_key demo_request demo_config)"
    "count_at (live (ext ?s)) (ip_key demo_request demo_config) + int (length ?bodies) \<le> failedLoginIpLimit demo_config"
    by (simp_all add: counts_only_def count_at_def live_def quiet_server_def) (simp add: demo_config_def)
  moreover have "pg_script (pg ?s) = []" "account (us_email demo_account) (committed (pg ?s)) = Some demo_account"
    "uuid_in (us_id demo_account) = us_id demo_account" "us_failed_login_count demo_account = 0" "us_locked_until demo_account = None"
    by (simp_all add: account_def demo_auth_db_def demo_account_def uuid_in_def js_lower_def lower_char_def)
  moreover have "\<forall>e. rs_script e = [] \<and> rs_now e = 1000 \<longrightarrow> 1000 \<le> date_now server_services e \<and>
      date_now server_services e < 1000 + accountLockSeconds demo_config * 1000"
    by (simp add: server_services_def demo_config_def)
  ultimately obtain t where t: "login_all server_services demo_crypto demo_config demo_uuid (\<lambda>j. []) demo_request ?bodies ?s =
      (replicate (length ?bodies) (Inr invalid_credentials), t)"
    "\<forall>body. attempt_at (us_email demo_account) body \<longrightarrow> (\<exists>u. post_login server_services demo_crypto demo_config demo_uuid (\<lambda>j. [])
       demo_request body t = (Inr account_locked, u) \<and> pg u = pg t)"
    using account_locks_after_limit[OF server_at[of 1000], of ?s demo_crypto demo_account ?bodies demo_config demo_request 1000
        demo_uuid "\<lambda>j. []"] by auto
  have "attempt_at (us_email demo_account) (login_body ''correct-horse-battery'')"
    by (simp add: attempt_at_def loginSchema_def login_body_schema demo_account_def text_ok_def)
  with t show ?thesis by (intro exI[of _ t]) auto
qed

definition empty_app :: "'e \<Rightarrow> 'e app_state" where
  "empty_app e = (demo_app e)\<lparr>pg := demo_world\<lparr>committed := empty_database\<rparr>\<rparr>"

definition new_account :: user_row where
  "new_account = \<lparr>us_id = ''a0'', us_email = ''a@b.c'', us_password_hash = ''hash of correct-horse-battery'',
     us_failed_login_count = 0, us_locked_until = None\<rparr>"

lemma empty_app_start [simp]:
  "committed (pg (empty_app e)) = empty_database" "pg_script (pg (empty_app e)) = []" "uuids_used (pg (empty_app e)) = 0"
  "ext (empty_app e) = e"
  by (simp_all add: empty_app_def demo_world_def demo_app_def api_state.extend_def demo_state_def)

lemma user_json_inj: "user_json u = user_json v \<Longrightarrow> u = v"
  by (cases u; cases v) (simp add: user_json_def)

lemma demo_register:
  obtains p t where "post_register server_services demo_crypto demo_config demo_uuid (\<lambda>j. []) (login_body ''correct-horse-battery'')
      (empty_app quiet_server) = (Inr \<lparr>resp_status = 201, resp_body = JObj ((''user'', user_json (account_of new_account)) # token_fields p)\<rparr>, t)"
    and "uuids_used (pg t) = 4" and "refresh_tokens (committed (pg t)) = [\<lparr>rt_id = demo_uuid 3, rt_user_id = ''a0'',
      rt_token_hash = replicate 34 CHR ''r'', rt_expires_at = 604801000, rt_revoked_at = None\<rparr>]"
    and "users (committed (pg t)) = [new_account]"
proof -
  let ?s = "empty_app quiet_server"
  let ?s1 = "?s\<lparr>pg := (pg ?s)\<lparr>uuids_used := 2, committed := empty_database\<lparr>users := [new_account]\<rparr>\<rparr>\<rparr>"
  have low: "js_lower (demo_uuid 3) = demo_uuid 3" "js_lower ''a0'' = ''a0''"
    by (simp_all add: demo_uuid_def js_lower_def lower_char_def numeral_eq_Suc)
  have "tokens_ready server_services demo_crypto demo_config demo_uuid (account_of new_account) ?s1"
    by (simp add: tokens_ready_def Let_def demo_crypto_def demo_sign_def hashToken_def text_ok_def empty_database_def
        account_of_def new_account_def uuid_in_def low)
  from createTokens_run[OF _ this] obtain p where
    p: "createTokens server_services demo_crypto demo_config demo_uuid (account_of new_account) ?s1 = (Inr p, ?s1\<lparr>pg := (pg ?s1)\<lparr>
      uuids_used := 4, committed := (committed (pg ?s1))\<lparr>refresh_tokens := [issued_row server_services demo_crypto demo_config demo_uuid
        (account_of new_account) ?s1]\<rparr>\<rparr>\<rparr>)" (is "_ = (_, ?t)")
    by (auto simp: empty_database_def)
  have demo_hash: "argon2_hash demo_crypto pw n = Inr (''hash of '' @ pw)" for pw n by (simp add: demo_crypto_def)
  have "insert_user (demo_uuid 1) ''A@b.c'' ''hash of correct-horse-battery'' now empty_database =
      Inr (new_account, empty_database\<lparr>users := [new_account]\<rparr>)" for now
    by (simp add: insert_user_def Let_def empty_database_def new_account_def text_ok_def demo_uuid_def uuid_in_def low)
  then have "post_register server_services demo_crypto demo_config demo_uuid (\<lambda>j. []) (login_body ''correct-horse-battery'') ?s =
      (Inr \<lparr>resp_status = 201, resp_body = JObj ((''user'', user_json (account_of new_account)) # token_fields p)\<rparr>, ?t)"
    using p
    by (simp add: post_register_def login_body_schema io_bind_apply io_catch_apply lift_result_def draw_run on_pg_def pg_pool_def
        next_fate_done demo_hash numeral_2_eq_2)
  moreover have "issued_row server_services demo_crypto demo_config demo_uuid (account_of new_account) ?s1 = \<lparr>rt_id = demo_uuid 3,
      rt_user_id = ''a0'', rt_token_hash = replicate 34 CHR ''r'', rt_expires_at = 604801000, rt_revoked_at = None\<rparr>"
    using low by (simp add: issued_row_def account_of_def new_account_def uuid_in_def hashToken_def demo_crypto_def secondsFromNow_def
        server_services_def quiet_server_def demo_config_def numeral_eq_Suc)
  ultimately show thesis using that by simp
qed

text \<open>A history with one registration, on empty tables.\<close>

theorem auth_tables_always_consistent_witness:
  "\<exists>d. auth_history server_services demo_crypto demo_config demo_uuid (\<lambda>j. []) empty_database d \<and>
     users d = [new_account] \<and> length (refresh_tokens d) = 1 \<and> auth_ok demo_config d"
proof -
  obtain p t where run: "post_register server_services demo_crypto demo_config demo_uuid (\<lambda>j. []) (login_body ''correct-horse-battery'')
      (empty_app quiet_server) = (Inr \<lparr>resp_status = 201, resp_body = JObj ((''user'', user_json (account_of new_account)) # token_fields p)\<rparr>, t)"
    and t: "users (committed (pg t)) = [new_account]" "length (refresh_tokens (committed (pg t))) = 1"
    using demo_register by (metis length_Cons list.size(3) One_nat_def)
  have start: "committed (pg (empty_app quiet_server)) = empty_database" by (simp add: empty_app_def)
  have "auth_ok demo_config empty_database"
    by (simp add: auth_ok_def users_ok_def tokens_ok_def empty_database_def)
  then have "auth_history server_services demo_crypto demo_config demo_uuid (\<lambda>j. []) empty_database (committed (pg (empty_app quiet_server)))"
    unfolding start by (rule auth_history.start)
  from auth_history.register[OF this run]
  have history: "auth_history server_services demo_crypto demo_config demo_uuid (\<lambda>j. []) empty_database (committed (pg t))" .
  with auth_tables_always_consistent[OF history] t show ?thesis by blast
qed

theorem registered_user_logs_in_witness:
  "\<exists>r t r2 u. post_register server_services demo_crypto demo_config demo_uuid (\<lambda>j. []) (login_body ''correct-horse-battery'')
      (empty_app quiet_server) = (Inr r, t) \<and> resp_status r = 201 \<and>
    post_login server_services demo_crypto demo_config demo_uuid (\<lambda>j. []) demo_request (login_body ''correct-horse-battery'') t = (Inr r2, u) \<and>
    resp_status r2 = 200"
proof -
  let ?s = "empty_app quiet_server" and ?body = "login_body ''correct-horse-battery''"
  obtain p t where run: "post_register server_services demo_crypto demo_config demo_uuid (\<lambda>j. []) ?body ?s =
      (Inr \<lparr>resp_status = 201, resp_body = JObj ((''user'', user_json (account_of new_account)) # token_fields p)\<rparr>, t)" (is "_ = (Inr ?r, t)")
    and t: "uuids_used (pg t) = 4" "refresh_tokens (committed (pg t)) = [\<lparr>rt_id = demo_uuid 3, rt_user_id = ''a0'',
      rt_token_hash = replicate 34 CHR ''r'', rt_expires_at = 604801000, rt_revoked_at = None\<rparr>]" "users (committed (pg t)) = [new_account]"
    by (rule demo_register)
  have low: "js_lower (demo_uuid 5) = demo_uuid 5" "js_lower ''a0'' = ''a0''" "demo_uuid 5 \<noteq> demo_uuid 3"
    by (simp_all add: demo_uuid_def js_lower_def lower_char_def numeral_eq_Suc)
  have ready: "tokens_ready server_services demo_crypto demo_config demo_uuid (account_of new_account) (t\<lparr>ext := e\<rparr>)" for e
    using t low by (simp add: tokens_ready_def Let_def demo_crypto_def demo_sign_def hashToken_def text_ok_def
        account_of_def new_account_def uuid_in_def)
  have unique: "user = account_of new_account" if "json_prop ''user'' (resp_body ?r) = Some (user_json user)" for user
    using that by (auto dest: user_json_inj)
  have schemas: "registerSchema ?body = Some \<lparr>cr_email = ''A@b.c'', cr_password = ''correct-horse-battery''\<rparr>"
    "loginSchema ?body = Some \<lparr>cr_email = ''A@b.c'', cr_password = ''correct-horse-battery''\<rparr>"
    by (simp_all add: loginSchema_def login_body_schema)
  have "rs_script (ext ?s) = [] \<and> rs_now (ext ?s) = 1000" by (simp add: quiet_server_def)
  moreover have "resp_status ?r = 201" "pg_script (pg ?s) = []" by simp_all
  moreover have "client_free demo_config demo_request (live (ext ?s))" by (simp add: quiet_free)
  moreover have "\<forall>user e. json_prop ''user'' (resp_body ?r) = Some (user_json user) \<and> rs_script e = [] \<and> rs_now e = 1000 \<longrightarrow>
      tokens_ready server_services demo_crypto demo_config demo_uuid user (t\<lparr>ext := e\<rparr>)"
    using unique ready by metis
  ultimately have "\<exists>user pair r2 u. json_prop ''user'' (resp_body ?r) = Some (user_json user) \<and>
    post_login server_services demo_crypto demo_config demo_uuid (\<lambda>j. []) demo_request ?body t = (Inr r2, u) \<and> resp_status r2 = 200 \<and>
    resp_body r2 = JObj ((''user'', user_json user) # token_fields pair) \<and>
    (\<forall>request' v. req_headers request' ''authorization'' = Some (HeaderOne (''Bearer '' @ accessToken pair)) \<and>
       date_now server_services (ext u) \<le> date_now server_services (ext v) \<and>
       date_now server_services (ext v) div 1000 < date_now server_services (ext u) div 1000 + accessTokenTtlSeconds demo_config \<longrightarrow>
       authenticate server_services demo_crypto demo_config request' v = (Inr (Inr user), v))"
    by (intro registered_user_logs_in[OF demo_crypto_ok server_at[of 1000] _ run _ _ schemas]) (simp_all add: text_ok_def)
  with run show ?thesis by fastforce
qed

end
