(* ===== verification/Request_Lifecycle.thy ===== *)
theory Request_Lifecycle
  imports Auth_Routes
begin

text \<open>
  The life of a request outside its handler: the request id and the CORS decision of \<open>app.ts\<close>,
  the hooks of \<open>hooks/request-lifecycle.ts\<close> over the state of \<open>request-state.ts\<close>, the health
  endpoints of \<open>routes/system.routes.ts\<close>, and the shutdown of \<open>index.ts\<close> with its drain loop.
  Requests overlap: a run of the process is a sequence of arrivals, responses and signals.
\<close>

section \<open>app.ts\<close>

text \<open>\<open>genReqId\<close>: \<open>fresh\<close> is the value of \<open>randomUUID()\<close>.\<close>

definition short_header :: "http_request \<Rightarrow> string \<Rightarrow> string option" where
  "short_header request name = (case req_headers request name of
     Some (HeaderOne x) \<Rightarrow> if length x \<le> 128 then Some x else None
   | _ \<Rightarrow> None)"

definition genReqId :: "http_request \<Rightarrow> string \<Rightarrow> string" where
  "genReqId request fresh = (case short_header request ''x-request-id'' of Some x \<Rightarrow> x | None \<Rightarrow> fresh)"

definition cors_allows :: "api_config \<Rightarrow> string option \<Rightarrow> bool" where
  "cors_allows cfg origin = (case origin of
     None \<Rightarrow> True
   | Some x \<Rightarrow> x = [] \<or> x \<in> set (corsAllowedOrigins cfg))"

section \<open>The hooks\<close>

text \<open>
  Requests are numbered; \<open>requestStart\<close> is the set of the requests in the weak map. \<open>observed\<close>
  lists the requests counted in \<open>httpRequests\<close> and \<open>httpDuration\<close> with their status.
\<close>

record lifecycle =
  shuttingDown :: bool
  activeRequests :: int
  requestStart :: "nat set"
  inFlightGauge :: int
  observed :: "(nat \<times> int) list"

definition createRequestLifecycleState :: lifecycle where
  "createRequestLifecycleState = \<lparr>shuttingDown = False, activeRequests = 0, requestStart = {}, inFlightGauge = 0, observed = []\<rparr>"

definition service_unavailable :: response where
  "service_unavailable = error_response 503 ''SERVICE_UNAVAILABLE'' ''Server is shutting down''"

datatype arrival = Rejected response | Admitted http_request "(string \<times> string) list"

definition onRequest :: "nat \<Rightarrow> http_request \<Rightarrow> lifecycle \<Rightarrow> arrival \<times> lifecycle" where
  "onRequest i request s =
     (if shuttingDown s then (Rejected service_unavailable, s)
      else let correlationId = (case short_header request ''x-correlation-id'' of Some x \<Rightarrow> x | None \<Rightarrow> req_id request)
           in (Admitted (request\<lparr>req_correlationId := Some correlationId\<rparr>)
                 [(''X-Request-Id'', req_id request), (''X-Correlation-Id'', correlationId)],
               s\<lparr>activeRequests := activeRequests s + 1, requestStart := insert i (requestStart s),
                 inFlightGauge := inFlightGauge s + 1\<rparr>))"

definition onResponse :: "nat \<Rightarrow> int \<Rightarrow> lifecycle \<Rightarrow> lifecycle" where
  "onResponse i status s =
     (let t = s\<lparr>activeRequests := activeRequests s - 1, inFlightGauge := inFlightGauge s - 1\<rparr>
      in if i \<notin> requestStart t then t else t\<lparr>observed := observed t @ [(i, status)]\<rparr>)"

section \<open>The shutdown\<close>

definition begin_shutdown :: "lifecycle \<Rightarrow> lifecycle" where
  "begin_shutdown s = s\<lparr>shuttingDown := True\<rparr>"

text \<open>
  The drain loop: \<open>active k\<close> is the value of \<open>activeRequests\<close> at the k-th test of the condition,
  and the k-th wait takes \<open>250 + late k\<close> milliseconds. The result is the number of waits.
\<close>

function drain :: "(nat \<Rightarrow> int) \<Rightarrow> (nat \<Rightarrow> nat) \<Rightarrow> int \<Rightarrow> int \<Rightarrow> nat \<Rightarrow> nat" where
  "drain active late deadline now k =
     (if 0 < active k \<and> now < deadline
      then drain active late deadline (now + 250 + int (late k)) (k + 1) else k)"
  by pat_completeness auto
termination by (relation "measure (\<lambda>(active, late, deadline, now, k). nat (deadline - now))") auto

declare drain.simps [simp del]

section \<open>The health endpoints\<close>

definition not_ready :: "(string \<times> json) list \<Rightarrow> response" where
  "not_ready deps = \<lparr>resp_status = 503, resp_body = JObj [(''status'', JStr ''not_ready''), (''dependencies'', JObj deps)]\<rparr>"

text \<open>\<open>query_ms\<close> is the time the query takes to settle.\<close>

definition get_live :: response where
  "get_live = \<lparr>resp_status = 200, resp_body = JObj [(''status'', JStr ''ok'')]\<rparr>"

definition select_one :: "unit statement" where
  "select_one now d = Inr ((), d)"

definition query_within :: "int \<Rightarrow> nat \<Rightarrow> unit statement \<Rightarrow> (('e, 'm) app_state_scheme, unit) io" where
  "query_within ms query_ms stmt s = withTimeout (\<lambda>s. case on_pg (pg_pool stmt) s of (r, t) \<Rightarrow>
     (\<lparr>settle_ms = query_ms, outcome = r\<rparr>, t)) ms s"

definition get_ready :: "'e services \<Rightarrow> api_config \<Rightarrow> nat \<Rightarrow> (('e, 'm) app_state_scheme, response) io" where
  "get_ready S cfg query_ms =
     io_bind (io_catch (io_bind (query_within 2000 query_ms select_one) (\<lambda>u. io_return True)) (\<lambda>e. io_return False)) (\<lambda>datastore.
       if \<not> datastore then io_return (not_ready [(''Datastore'', JStr ''failed'')])
       else io_bind (io_catch (io_bind (withTimeout (ext_call (redis_ping S)) (cacheTimeoutMs cfg)) (\<lambda>u. io_return ''ok''))
                      (\<lambda>e. io_return ''degraded'')) (\<lambda>cache.
            io_return \<lparr>resp_status = 200, resp_body = JObj [(''status'', JStr ''ready''),
              (''dependencies'', JObj [(''Datastore'', JStr ''ok''), (''Cache'', JStr cache)])]\<rparr>))"

section \<open>Runs of the process\<close>

datatype process_event = Arrives http_request | Responds nat int | Signal

text \<open>The arrivals are numbered in their order; \<open>open_requests\<close> are those not answered yet.\<close>

record process =
  life :: lifecycle
  arrivals :: nat
  admitted :: "nat set"
  open_requests :: "nat set"
  turned_away :: nat

definition process_start :: process where
  "process_start = \<lparr>life = createRequestLifecycleState, arrivals = 0, admitted = {}, open_requests = {}, turned_away = 0\<rparr>"

text \<open>A response is sent once, to a request that arrived.\<close>

inductive process_step :: "process \<Rightarrow> process_event \<Rightarrow> process \<Rightarrow> bool" where
  admits: "onRequest (arrivals p) request (life p) = (Admitted request' hs, l) \<Longrightarrow>
     process_step p (Arrives request) (p\<lparr>life := l, arrivals := arrivals p + 1,
       admitted := insert (arrivals p) (admitted p), open_requests := insert (arrivals p) (open_requests p)\<rparr>)"
| rejects: "onRequest (arrivals p) request (life p) = (Rejected r, l) \<Longrightarrow>
     process_step p (Arrives request) (p\<lparr>life := l, arrivals := arrivals p + 1,
       open_requests := insert (arrivals p) (open_requests p)\<rparr>)"
| responds: "i \<in> open_requests p \<Longrightarrow>
     process_step p (Responds i status) (p\<lparr>life := onResponse i status (life p), open_requests := open_requests p - {i},
       turned_away := turned_away p + (if i \<in> admitted p then 0 else 1)\<rparr>)"
| signal: "process_step p Signal (p\<lparr>life := begin_shutdown (life p)\<rparr>)"

inductive process_run :: "process \<Rightarrow> process_event list \<Rightarrow> process \<Rightarrow> bool" where
  none: "process_run p [] p"
| more: "process_run p es q \<Longrightarrow> process_step q e r \<Longrightarrow> process_run p (es @ [e]) r"

text \<open>
  What the counter really is: the admitted requests still open, less the rejected requests
  already answered.
\<close>

definition process_ok :: "process \<Rightarrow> bool" where
  "process_ok p \<longleftrightarrow> finite (open_requests p) \<and> (\<forall>i\<in>open_requests p \<union> admitted p. i < arrivals p) \<and>
     requestStart (life p) = admitted p \<and>
     activeRequests (life p) = int (card (open_requests p \<inter> admitted p)) - int (turned_away p) \<and>
     inFlightGauge (life p) = activeRequests (life p) \<and> distinct (map fst (observed (life p))) \<and>
     fst ` set (observed (life p)) = admitted p - open_requests p \<and>
     (\<not> shuttingDown (life p) \<longrightarrow> open_requests p \<subseteq> admitted p \<and> turned_away p = 0)"

lemma process_ok_step:
  assumes "process_ok p" and "process_step p e q"
  shows "process_ok q"
  using assms(2)
proof (cases rule: process_step.cases)
  case (admits request request' hs l)
  then have l: "l = (life p)\<lparr>activeRequests := activeRequests (life p) + 1, requestStart := insert (arrivals p) (requestStart (life p)),
      inFlightGauge := inFlightGauge (life p) + 1\<rparr>" "\<not> shuttingDown (life p)"
    by (auto simp: onRequest_def Let_def split: if_splits)
  have new: "arrivals p \<notin> open_requests p" "arrivals p \<notin> admitted p" using assms(1) by (auto simp: process_ok_def)
  have "insert (arrivals p) (open_requests p) \<inter> insert (arrivals p) (admitted p) =
      insert (arrivals p) (open_requests p \<inter> admitted p)" by auto
  with assms(1) new have "int (card (insert (arrivals p) (open_requests p) \<inter> insert (arrivals p) (admitted p))) =
      int (card (open_requests p \<inter> admitted p)) + 1"
    by (simp add: process_ok_def)
  moreover have "insert (arrivals p) (admitted p) - insert (arrivals p) (open_requests p) = admitted p - open_requests p"
    using new by auto
  ultimately show ?thesis using assms(1) l unfolding admits(2) by (auto simp: process_ok_def intro: less_SucI)
next
  case (rejects request r l)
  then have l: "l = life p" "shuttingDown (life p)" by (auto simp: onRequest_def Let_def split: if_splits)
  have "arrivals p \<notin> admitted p" using assms(1) by (auto simp: process_ok_def)
  then have "insert (arrivals p) (open_requests p) \<inter> admitted p = open_requests p \<inter> admitted p"
    "admitted p - insert (arrivals p) (open_requests p) = admitted p - open_requests p" by auto
  with assms(1) l show ?thesis unfolding rejects(2) by (auto simp: process_ok_def intro: less_SucI)
next
  case (responds i status)
  have fin: "finite (open_requests p \<inter> admitted p)" using assms(1) by (simp add: process_ok_def)
  show ?thesis
  proof (cases "i \<in> admitted p")
    case True
    have "(open_requests p - {i}) \<inter> admitted p = (open_requests p \<inter> admitted p) - {i}" by auto
    moreover have "0 < card (open_requests p \<inter> admitted p)" using fin True responds(3) by (auto simp: card_gt_0_iff)
    ultimately have "int (card ((open_requests p - {i}) \<inter> admitted p)) = int (card (open_requests p \<inter> admitted p)) - 1"
      using fin True responds(3) by (simp add: card_Diff_singleton)
    with assms(1) True responds show ?thesis
      unfolding responds(2) by (auto simp: process_ok_def onResponse_def Let_def)
  next
    case False
    then have "(open_requests p - {i}) \<inter> admitted p = open_requests p \<inter> admitted p"
      "admitted p - (open_requests p - {i}) = admitted p - open_requests p" by auto
    with assms(1) False responds show ?thesis
      unfolding responds(2) by (auto simp: process_ok_def onResponse_def Let_def)
  qed
next
  case signal
  with assms(1) show ?thesis by (auto simp: process_ok_def begin_shutdown_def)
qed

lemma process_start_ok: "process_ok process_start"
  by (simp add: process_ok_def process_start_def createRequestLifecycleState_def)

lemma process_run_ok: "process_run process_start es p \<Longrightarrow> process_ok p"
  by (induction process_start es p rule: process_run.induct) (auto intro: process_start_ok process_ok_step)

section \<open>Properties\<close>

text \<open>C32: What the counter of active requests counts, over every interleaving of arrivals, responses and the
  signal: the admitted requests that are open, less the requests that were turned away during
  the shutdown and answered. Before the signal it is the number of open requests; every admitted
  request is counted once in the metrics, when it is answered.\<close>

theorem active_requests_count:
  assumes "process_run process_start es p"
  shows "activeRequests (life p) = int (card (open_requests p \<inter> admitted p)) - int (turned_away p) \<and>
    (\<not> shuttingDown (life p) \<longrightarrow> activeRequests (life p) = int (card (open_requests p))) \<and>
    distinct (map fst (observed (life p))) \<and> fst ` set (observed (life p)) = admitted p - open_requests p"
  using process_run_ok[OF assms] by (auto simp: process_ok_def Int_absorb2)

lemma drain_spec:
  "drain active late deadline now k \<le> k + nat ((deadline - now + 249) div 250) \<and> k \<le> drain active late deadline now k \<and>
   (\<forall>j\<in>{k..<drain active late deadline now k}. 0 < active j) \<and>
   (active (drain active late deadline now k) \<le> 0 \<or>
    deadline \<le> now + (\<Sum>j\<in>{k..<drain active late deadline now k}. 250 + int (late j)))"
proof (induction active late deadline now k rule: drain.induct)
  case (1 active late deadline now k)
  show ?case
  proof (cases "0 < active k \<and> now < deadline")
    case False
    then show ?thesis by (auto simp: drain.simps[of active late deadline now k])
  next
    case True
    let ?n = "drain active late deadline (now + 250 + int (late k)) (k + 1)"
    have run: "drain active late deadline now k = ?n" using True by (simp add: drain.simps[of active late deadline now k])
    note IH = 1[OF True]
    have "(deadline - (now + 250 + int (late k)) + 249) div 250 \<le> (deadline - now + 249) div 250 - 1" using True by linarith
    moreover have "1 \<le> (deadline - now + 249) div 250" using True by linarith
    ultimately have "?n \<le> k + nat ((deadline - now + 249) div 250)" using IH by linarith
    moreover have "{k..<?n} = insert k {k + 1..<?n}" using IH by auto
    ultimately show ?thesis unfolding run using IH True by auto
  qed
qed

text \<open>The drain loop of the shutdown returns, whatever the requests do and however late its timers fire: it
  waits at most \<open>shutdownDrainMs / 250\<close> times (rounded up), only while the counter is positive, and
  stops because the counter is no longer positive or the deadline has passed.\<close>

theorem drain_returns:
  assumes "n = drain active late (now + shutdownDrainMs cfg) now 0"
  shows "n \<le> nat ((shutdownDrainMs cfg + 249) div 250) \<and> (\<forall>j<n. 0 < active j) \<and>
    (active n \<le> 0 \<or> now + shutdownDrainMs cfg \<le> now + (\<Sum>j<n. 250 + int (late j)))"
  using drain_spec[of active late "now + shutdownDrainMs cfg" now 0] assms by (auto simp: atLeast0LessThan)

section \<open>Witnesses\<close>

definition plain_request :: http_request where
  "plain_request = \<lparr>req_method = ''GET'', req_url = ''/v1/orders'', req_route = None, req_ip = ''10.0.0.1'', req_id = ''r1'',
     req_correlationId = None, req_headers = (\<lambda>_. None)\<rparr>"

text \<open>
  One request is open when the signal comes; a second one is turned away and answered. The
  counter is then 0, so the drain loop does not wait for the first.
\<close>

theorem active_requests_count_witness:
  "\<exists>p. process_run process_start [Arrives plain_request, Signal, Arrives plain_request, Responds 1 503] p \<and>
     0 \<in> open_requests p \<and> activeRequests (life p) = 0 \<and> drain (\<lambda>k. activeRequests (life p)) (\<lambda>k. 0) 30000 0 0 = 0"
proof -
  let ?p1 = "process_start\<lparr>life := createRequestLifecycleState\<lparr>activeRequests := 1, requestStart := {0}, inFlightGauge := 1\<rparr>,
    arrivals := 1, admitted := {0}, open_requests := {0}\<rparr>"
  let ?p2 = "?p1\<lparr>life := begin_shutdown (life ?p1)\<rparr>"
  let ?p3 = "?p2\<lparr>arrivals := 2, open_requests := {1, 0}\<rparr>"
  let ?p4 = "?p3\<lparr>life := onResponse 1 503 (life ?p3), open_requests := {0}, turned_away := 1\<rparr>"
  have steps: "process_step process_start (Arrives plain_request) ?p1"
    using process_step.admits[of process_start plain_request]
    by (simp add: onRequest_def process_start_def createRequestLifecycleState_def Let_def)
  have steps2: "process_step ?p1 Signal ?p2" by (rule process_step.signal)
  have steps3: "process_step ?p2 (Arrives plain_request) ?p3"
    using process_step.rejects[of ?p2 plain_request]
    by (simp add: onRequest_def begin_shutdown_def numeral_2_eq_2)
  have steps4: "process_step ?p3 (Responds 1 503) ?p4"
    using process_step.responds[of 1 ?p3 503] by (simp add: process_start_def)
  have run: "process_run process_start [Arrives plain_request, Signal, Arrives plain_request, Responds 1 503] ?p4"
    using process_run.more[OF process_run.more[OF process_run.more[OF process_run.more[OF process_run.none steps] steps2] steps3] steps4]
    by (simp only: append_Nil append_Cons)
  from active_requests_count[OF run] have "activeRequests (life ?p4) = 0" by simp
  with run show ?thesis by (intro exI[of _ ?p4]) (simp add: drain.simps)
qed

theorem drain_returns_witness:
  "drain (\<lambda>k. 1) (\<lambda>k. 0) (5 + shutdownDrainMs demo_config) 5 0 \<le> 120"
  using drain_returns[OF refl, where active = "\<lambda>k. 1" and late = "\<lambda>k. 0" and now = 5 and cfg = demo_config]
  by (simp add: demo_config_def)

end
