(* ===== verification/Order_Listing.thy ===== *)
theory Order_Listing
  imports Order_Properties "HOL-Library.Multiset"
begin

text \<open>
  \<open>GET /v1/orders\<close>: what the handler answers from the database, and that a list never shows
  an order of another user, through the list cache and over every history of the service.
\<close>

section \<open>Without the cache\<close>

definition own_orders :: "time_texts \<Rightarrow> list_orders_query \<Rightarrow> string \<Rightarrow> database \<Rightarrow> order_row list" where
  "own_orders T q userId d = newest_first (filter (where_orders T q userId) (orders d))"

definition list_reply :: "time_texts \<Rightarrow> list_orders_query \<Rightarrow> string \<Rightarrow> database \<Rightarrow> response" where
  "list_reply T q userId d =
     \<lparr>resp_status = 200,
      resp_body = list_body q (buildPaginationMeta (int (length (own_orders T q userId d))) (lq_params q))
        (page_rows (own_orders T q userId d) (lq_params q))\<rparr>"

lemma own_orders_length: "length (own_orders T q userId d) = length (filter (where_orders T q userId) (orders d))"
  by (simp add: own_orders_def newest_first_def)

lemma pool_run:
  "pg_script (pg s) = [] \<Longrightarrow> stmt (db_now (pg s)) (committed (pg s)) = Inr (a, committed (pg s)) \<Longrightarrow>
     on_pg (pg_pool stmt) s = (Inr a, s)"
  by (simp add: on_pg_def pg_pool_def next_fate_done)

lemma pool_refused:
  "pg_script (pg s) = [] \<Longrightarrow> stmt (db_now (pg s)) (committed (pg s)) = Inl e \<Longrightarrow> on_pg (pg_pool stmt) s = (Inl e, s)"
  by (simp add: on_pg_def pg_pool_def next_fate_done)

lemma list_orders_uncached:
  "\<not> cacheEnabled cfg \<Longrightarrow> listOrdersQuerySchema T raw = Some q \<Longrightarrow>
     list_orders S cfg T issues raw (Some u) = io_bind (fetchOrdersPage S cfg T q (user_id u))
       (\<lambda>body. io_return \<lparr>resp_status = 200, resp_body = body\<rparr>)"
  by (simp add: list_orders_def withListCache_def)

lemma list_orders_answer:
  assumes "\<not> cacheEnabled cfg" and "pg_script (pg s) = []"
    and "listOrdersQuerySchema T raw = Some q" and "params_readable T q"
    and "paginationOffset (lq_params q) \<le> 9223372036854775807"
  shows "list_orders S cfg T issues raw (Some u) s = (Inr (list_reply T q (user_id u) (committed (pg s))), s)"
proof -
  have rows: "on_pg (pg_pool (select_page T q (user_id u))) s =
      (Inr (page_rows (own_orders T q (user_id u) (committed (pg s))) (lq_params q)), s)"
    using assms(4,5) by (intro pool_run[OF assms(2)]) (simp add: select_page_def own_orders_def)
  have count: "on_pg (pg_pool (select_count T q (user_id u))) s =
      (Inr (int (length (own_orders T q (user_id u) (committed (pg s))))), s)"
    using assms(4) by (intro pool_run[OF assms(2)]) (simp add: select_count_def own_orders_length)
  show ?thesis
    unfolding list_orders_uncached[OF assms(1,3)]
    by (simp add: fetchOrdersPage_def io_all2_def withCountCache_def assms(1) rows count io_bind_apply list_reply_def)
qed

lemma mset_own_orders: "mset (own_orders T q userId d) = filter_mset (where_orders T q userId) (mset (orders d))"
  by (simp add: own_orders_def newest_first_def mset_filter)

lemma newest_first_sorted: "sorted_wrt (\<lambda>a b. o_created_at b \<le> o_created_at a) (newest_first rows)"
proof -
  have "sorted (map (\<lambda>row. - o_created_at row) (newest_first rows))" by (simp add: newest_first_def)
  then show ?thesis by (simp add: sorted_map)
qed

lemma filter_window: "filter (\<lambda>i. k \<le> i \<and> i < l) [0..<m] = [k..<min l m]"
proof (induction m)
  case (Suc m)
  then show ?case by (cases "l = Suc m"; cases "m < l") (auto simp: min_def upt_Suc)
qed simp

lemma page_rows_window:
  assumes "1 \<le> page params" and "1 \<le> pageSize params"
  shows "page_rows rows params = map (\<lambda>i. rows ! i)
    (filter (\<lambda>i. (page params - 1) * pageSize params \<le> int i \<and> int i < page params * pageSize params) [0..<length rows])"
proof -
  let ?k = "nat ((page params - 1) * pageSize params)" and ?l = "nat (page params * pageSize params)"
  have le: "0 \<le> (page params - 1) * pageSize params" using assms by simp
  have l: "?l = ?k + nat (pageSize params)" using assms le by (simp add: nat_add_distrib[symmetric] algebra_simps)
  have "filter (\<lambda>i. (page params - 1) * pageSize params \<le> int i \<and> int i < page params * pageSize params) [0..<length rows] =
      filter (\<lambda>i. ?k \<le> i \<and> i < ?l) [0..<length rows]"
    using le by (intro filter_cong) auto
  also have "\<dots> = [?k..<min ?l (length rows)]" by (rule filter_window)
  finally show ?thesis
    unfolding page_rows_def paginationOffset_def by (auto intro!: nth_equalityI simp: l)
qed

lemma where_orders_iff:
  assumes "params_readable T q"
  shows "where_orders T q userId = (\<lambda>row. o_user_id row = uuid_in userId \<and>
      (\<forall>st. lq_status q = Some st \<longrightarrow> o_status row = st) \<and>
      (\<forall>e. lq_customerEmail q = Some e \<longrightarrow> e \<noteq> [] \<longrightarrow> o_customer_email row = js_lower e) \<and>
      (\<forall>t lo. lq_createdAfter q = Some t \<longrightarrow> t \<noteq> [] \<longrightarrow> tt_timestamptz T t = Some lo \<longrightarrow> lo \<le> o_created_at row) \<and>
      (\<forall>t hi. lq_createdBefore q = Some t \<longrightarrow> t \<noteq> [] \<longrightarrow> tt_timestamptz T t = Some hi \<longrightarrow> o_created_at row \<le> hi))"
  using assms by (intro ext) (auto simp: where_orders_def params_readable_def given_def split: option.splits if_splits)

text \<open>C7: Without the cache and with a database that works, \<open>GET /v1/orders\<close> answers what the database says,
  for a query whose parameters the database can read (no NUL, times it knows, an offset of 64 bits). There is a list of rows, newest first, that
  holds exactly the caller's orders with the status, the e-mail in lower case and the creation time
  between the bounds asked for, each as often as the table has it; the reply shows the rows at the
  positions of the page, the number of all of them, the number of pages that just holds them, and
  whether a page follows or precedes; nothing changes.\<close>

theorem list_orders_reads_database:
  assumes "\<not> cacheEnabled cfg" and "pg_script (pg s) = []"
    and "listOrdersQuerySchema T raw = Some q" and "params_readable T q"
    and "(lq_page q - 1) * lq_pageSize q \<le> 9223372036854775807"
  shows "\<exists>rows pages.
    mset rows = filter_mset (\<lambda>row. o_user_id row = uuid_in (user_id u) \<and>
      (\<forall>st. lq_status q = Some st \<longrightarrow> o_status row = st) \<and>
      (\<forall>e. lq_customerEmail q = Some e \<longrightarrow> e \<noteq> [] \<longrightarrow> o_customer_email row = js_lower e) \<and>
      (\<forall>t lo. lq_createdAfter q = Some t \<longrightarrow> t \<noteq> [] \<longrightarrow> tt_timestamptz T t = Some lo \<longrightarrow> lo \<le> o_created_at row) \<and>
      (\<forall>t hi. lq_createdBefore q = Some t \<longrightarrow> t \<noteq> [] \<longrightarrow> tt_timestamptz T t = Some hi \<longrightarrow> o_created_at row \<le> hi))
      (mset (orders (committed (pg s)))) \<and>
    sorted_wrt (\<lambda>newer older. o_created_at older \<le> o_created_at newer) rows \<and>
    (pages - 1) * lq_pageSize q < int (length rows) \<and> int (length rows) \<le> pages * lq_pageSize q \<and>
    list_orders S cfg T issues raw (Some u) s = (Inr \<lparr>resp_status = 200, resp_body = JObj
      [(''page'', JNum (lq_page q)), (''pageSize'', JNum (lq_pageSize q)),
       (''total'', JNum (int (length rows))), (''totalPages'', JNum pages),
       (''hasNext'', JBool (lq_page q * lq_pageSize q < int (length rows))), (''hasPrev'', JBool (1 < lq_page q)),
       (''orders'', JArr (map (\<lambda>i. order_json (rows ! i))
          (filter (\<lambda>i. (lq_page q - 1) * lq_pageSize q \<le> int i \<and> int i < lq_page q * lq_pageSize q) [0..<length rows]))),
       (''filters'', JObj
         [(''status'', json_or_null (map_option status_name (lq_status q))), (''customerEmail'', json_or_null (lq_customerEmail q)),
          (''createdAfter'', json_or_null (lq_createdAfter q)), (''createdBefore'', json_or_null (lq_createdBefore q))])]\<rparr>, s)"
proof -
  let ?rows = "own_orders T q (user_id u) (committed (pg s))"
  let ?meta = "buildPaginationMeta (int (length ?rows)) (lq_params q)"
  have wf: "1 \<le> lq_page q" "1 \<le> lq_pageSize q" using listOrdersQuerySchema_wf[OF assms(3)] by (simp_all add: query_wf_def)
  have params: "page (lq_params q) = lq_page q" "pageSize (lq_params q) = lq_pageSize q" by (simp_all add: lq_params_def)
  have pages: "(meta_totalPages ?meta - 1) * lq_pageSize q < int (length ?rows)" "int (length ?rows) \<le> meta_totalPages ?meta * lq_pageSize q"
    using math_ceil_div_bounds[of "lq_pageSize q" "int (length ?rows)"] wf(2) by (simp_all add: totalPages_eq params)
  have meta: "meta_page ?meta = lq_page q" "meta_pageSize ?meta = lq_pageSize q" "meta_total ?meta = int (length ?rows)"
    "meta_hasPrev ?meta = (1 < lq_page q)" by (simp_all add: buildPaginationMeta_def Let_def params)
  have next_: "meta_hasNext ?meta = (lq_page q * lq_pageSize q < int (length ?rows))"
    using hasNext_iff[of "lq_params q"] wf(2) by (simp add: params)
  note answer = list_orders_answer[OF assms(1-4), of S issues u] and window = page_rows_window[of "lq_params q" ?rows, unfolded params, OF wf]
  show ?thesis
    using assms(5) mset_own_orders[of T q "user_id u" "committed (pg s)", unfolded where_orders_iff[OF assms(4)]]
      newest_first_sorted[of "filter (where_orders T q (user_id u)) (orders (committed (pg s)))"]
    by (intro exI[of _ ?rows] exI[of _ "meta_totalPages ?meta"] conjI pages)
      (simp_all add: own_orders_def[symmetric] answer paginationOffset_def
        params list_reply_def list_body_def meta next_ window comp_def)
qed

text \<open>The schema bounds a page number from below only: a page so far out that its offset is no 64-bit integer
  passes validation, and the request ends with a 500 instead of a 400 or an empty page.\<close>

theorem huge_page_number_fails:
  assumes "\<not> cacheEnabled cfg" and "pg_script (pg s) = []"
    and "listOrdersQuerySchema T raw = Some q" and "9223372036854775807 < paginationOffset (lq_params q)"
  shows "with_error_handler (list_orders S cfg T issues raw (Some u)) s = (Inr internal_error, s)"
proof -
  have "\<exists>e. on_pg (pg_pool (select_page T q (user_id u))) s = (Inl e, s)"
    using assms(4) pool_refused[OF assms(2), of "select_page T q (user_id u)"]
    by (cases "params_readable T q") (auto simp: select_page_def)
  moreover have "\<exists>r. on_pg (pg_pool (select_count T q (user_id u))) s = (r, s)"
    using pool_run[OF assms(2), of "select_count T q (user_id u)"] pool_refused[OF assms(2), of "select_count T q (user_id u)"]
    by (cases "params_readable T q") (auto simp: select_count_def)
  ultimately show ?thesis
    unfolding with_error_handler_def list_orders_uncached[OF assms(1,3)]
    by (auto simp: fetchOrdersPage_def io_all2_def withCountCache_def assms(1) io_bind_apply io_catch_apply)
qed

text \<open>The e-mail schema lets a NUL through, which no text of the database may hold: such a filter, like a time
  the database does not know, ends in a 500 where a 400 is meant.\<close>

theorem unreadable_filter_fails:
  assumes "\<not> cacheEnabled cfg" and "pg_script (pg s) = []"
    and "listOrdersQuerySchema T raw = Some q" and "\<not> params_readable T q"
  shows "with_error_handler (list_orders S cfg T issues raw (Some u)) s = (Inr internal_error, s)"
proof -
  have "on_pg (pg_pool (select_page T q (user_id u))) s = (Inl (param_error q), s)"
    "on_pg (pg_pool (select_count T q (user_id u))) s = (Inl (param_error q), s)"
    using assms(4) by (intro pool_refused[OF assms(2)]; simp add: select_page_def select_count_def)+
  then show ?thesis
    unfolding with_error_handler_def list_orders_uncached[OF assms(1,3)]
    by (simp add: fetchOrdersPage_def io_all2_def withCountCache_def assms(1) io_bind_apply io_catch_apply)
qed

section \<open>Whose orders a list shows\<close>

definition body_orders :: "json \<Rightarrow> json list" where
  "body_orders body = (case json_prop ''orders'' body of Some (JArr xs) \<Rightarrow> xs | _ \<Rightarrow> [])"

definition only_of :: "string \<Rightarrow> json \<Rightarrow> bool" where
  "only_of owner body \<longleftrightarrow> (\<forall>ord\<in>set (body_orders body). json_prop ''user_id'' ord = Some (JStr owner))"

lemma list_body_orders [simp]: "body_orders (list_body q meta rows) = map order_json rows"
  by (simp add: body_orders_def list_body_def)

lemma list_body_wf [simp]: "json_wf (list_body q meta rows)"
  by (auto simp: list_body_def json_or_null_def split: option.splits)

lemma page_rows_subset: "set (page_rows rows params) \<subseteq> set rows"
  unfolding page_rows_def by (meson in_set_dropD in_set_takeD subsetI)

lemma select_page_own:
  "select_page T q userId now d = Inr (rows, d') \<Longrightarrow> d' = d \<and> (\<forall>row\<in>set rows. o_user_id row = uuid_in userId)"
  using page_rows_subset[of "newest_first (filter (where_orders T q userId) (orders d))" "lq_params q"]
  by (auto simp: select_page_def newest_first_def where_orders_def split: if_splits)

lemma fetchOrdersPage_own:
  assumes "fetchOrdersPage S cfg T q userId s = (Inr body, t)"
  shows "only_of (uuid_in userId) body" and "json_wf body"
proof -
  have "wp (fetchOrdersPage S cfg T q userId) (\<lambda>body t. only_of (uuid_in userId) body \<and> json_wf body) (\<lambda>e t. True) s"
    unfolding fetchOrdersPage_def wp_simps
  proof (rule wp_pool_read)
    fix rows w assume "select_page T q userId (db_now (pg s)) (committed (pg s)) = Inr (rows, committed (pg s))"
    from select_page_own[OF this]
    have "only_of (uuid_in userId) (list_body q meta rows)" for meta by (simp add: only_of_def)
    then show "wp (withCountCache S cfg \<lparr>lc_namespace = ns_ordersList, lc_query = count_cache_query q userId, lc_ttlSeconds = None\<rparr>
          (on_pg (pg_pool (select_count T q userId))))
        (\<lambda>b. wp (case (rows, b) of (rows, rows_total) \<Rightarrow> io_return (list_body q (buildPaginationMeta rows_total (lq_params q)) rows))
          (\<lambda>body t. only_of (uuid_in userId) body \<and> json_wf body) (\<lambda>e t. True)) (\<lambda>e t. True) (s\<lparr>pg := w\<rparr>)"
      unfolding prod.case wp_return by (intro wpI) simp_all
  qed (use select_page_own in \<open>auto intro: wpI\<close>)
  from wp_ok[OF this assms] show "only_of (uuid_in userId) body" and "json_wf body" by auto
qed

section \<open>Keys of list pages\<close>

definition list_page_key :: "int \<Rightarrow> list_orders_query \<Rightarrow> string \<Rightarrow> string" where
  "list_page_key v q userId = buildListCacheKey ns_ordersList v (list_cache_query q userId)"

lemma no_colon_ordersList: "no_colon ns_ordersList"
  by (simp add: no_colon_def ns_ordersList_def)

lemma int_to_string_not_star: "int_to_string n \<noteq> ''*''"
  using int_to_string_chars[of "CHR ''*''" n] by (auto simp: is_digit_def)

lemma status_name_not_star: "status_name st \<noteq> ''*''"
  by (cases st) simp_all

text \<open>A date-time is no lone asterisk.\<close>

definition times_ok :: "time_texts \<Rightarrow> bool" where
  "times_ok T \<longleftrightarrow> \<not> tt_datetime T ''*''"

lemma emailSchema_star: "\<not> emailSchema ''*''"
  by (simp add: emailSchema_def)

lemma list_cache_query_ok:
  assumes "times_ok T" and "query_wf T q" and "u \<noteq> ''*''"
  shows "query_ok (list_cache_query q u)"
  using assms emailSchema_star
  by (auto simp: query_ok_def list_cache_query_def shown_def or_undefined_def query_wf_def times_ok_def
      int_to_string_not_star status_name_not_star split: option.splits)

text \<open>The key of a page tells the user.\<close>

lemma list_page_key_user:
  assumes "times_ok T" and "query_wf T q" "u \<noteq> ''*''" and "query_wf T q'" "u' \<noteq> ''*''"
    and "list_page_key v q u = list_page_key v' q' u'"
  shows "u = u'"
proof -
  note ok = list_cache_query_ok[OF assms(1-3)] list_cache_query_ok[OF assms(1,4,5)]
  have "query_parts (list_cache_query q u) = query_parts (list_cache_query q' u')"
    using listKey_inj[OF no_colon_ordersList no_colon_ordersList ok] assms(6) by (simp add: list_page_key_def)
  from query_parts_inj(2)[OF ok this, of "''userId''"] show ?thesis by (simp add: list_cache_query_def shown_def)
qed

text \<open>The other keys of the service are no pages.\<close>

lemma first_field:
  assumes "no_colon a" and "no_colon b" and "a \<noteq> b"
  shows "a @ CHR '':'' # x \<noteq> b @ CHR '':'' # y"
  using append_sep_inj[of a "CHR '':''" x b y] assms by (auto simp: no_colon_def)

lemma list_page_key_others:
  "list_page_key v q u \<noteq> orderEntityKey oid" "list_page_key v q u \<noteq> namespaceVersionKey ns"
  "list_page_key v q u \<noteq> buildCountCacheKey ns_ordersList v' r" "list_page_key v q u \<noteq> buildRedisKey scope userId key"
proof -
  have ns: "ns_ordersList \<noteq> ''cache''" "ns_ordersList \<noteq> ns_order" "ns_ordersList \<noteq> ''idempotency''"
    by (simp_all add: ns_ordersList_def ns_order_def)
  have plain: "no_colon ns_order" "no_colon ''idempotency''" by (simp_all add: no_colon_def ns_order_def)
  have fields: "orderEntityKey oid = ns_order @ CHR '':'' # oid"
    "buildRedisKey scope userId key = ''idempotency'' @ CHR '':'' # (scope @ '':'' @ userId @ '':'' @ key)"
    by (simp_all add: orderEntityKey_def buildRedisKey_def)
  show "list_page_key v q u \<noteq> orderEntityKey oid" "list_page_key v q u \<noteq> buildRedisKey scope userId key"
    unfolding list_page_key_def listKey_fields fields
    by (rule first_field[OF no_colon_ordersList plain(1) ns(2)], rule first_field[OF no_colon_ordersList plain(2) ns(3)])
  show "list_page_key v q u \<noteq> namespaceVersionKey ns"
    unfolding list_page_key_def by (rule versionKey_not_listKey[OF no_colon_ordersList ns(1), THEN not_sym])
  show "list_page_key v q u \<noteq> buildCountCacheKey ns_ordersList v' r"
    unfolding list_page_key_def by (rule listKey_not_countKey[OF no_colon_ordersList no_colon_ordersList])
qed

section \<open>What the handlers write to Redis\<close>

context redis_kv
begin

lemma keeps_store_await:
  assumes "\<And>e p e'. call e = (p, e') \<Longrightarrow> store e' k = store e k"
  shows "keeps (\<lambda>s. store (ext s) k) (await (ext_call call))"
proof (rule keepsI)
  fix s
  obtain p e' where "call (ext s) = (p, e')" by (cases "call (ext s)")
  with assms[OF this] show "store (ext (snd (await (ext_call call) s))) k = store (ext s) k"
    by (simp add: await_def ext_call_def)
qed

lemma set_other: "k \<noteq> key \<Longrightarrow> redis_set S key w ttl e = (p, e') \<Longrightarrow> store e' k = store e k"
  using set_ok[of key w ttl e p e'] set_err[of key w ttl e p e'] by (cases "outcome p") fastforce+

lemma del_other: "k \<noteq> key \<Longrightarrow> redis_del S key e = (p, e') \<Longrightarrow> store e' k = store e k"
  using del_ok[of key e p e'] del_err[of key e p e'] by (cases "outcome p") fastforce+

lemma nx_other: "k \<noteq> key \<Longrightarrow> redis_set_nx S key w ttl e = (p, e') \<Longrightarrow> store e' k = store e k"
  using nx_ok[of key w ttl e p e'] nx_err[of key w ttl e p e'] by (cases "outcome p") (fastforce split: if_splits)+

lemma keeps_store_get: "keeps (\<lambda>s. store (ext s) k) (withTimeout (ext_call (redis_get S key)) ms)"
  by (rule keeps_store_call) (simp add: get_store)

lemma keeps_store_set: "k \<noteq> key \<Longrightarrow> keeps (\<lambda>s. store (ext s) k) (withTimeout (ext_call (redis_set S key w ttl)) ms)"
  by (rule keeps_store_call) (rule set_other)

lemma keeps_store_header: "keeps (\<lambda>s. store (ext s) k) (set_header name v)"
  by (rule keepsI) (simp add: set_header_def)

lemma keeps_store_parse: "keeps (\<lambda>s. store (ext s) k) (parse_json t)"
  by (rule keepsI) (simp add: parse_json_def split: option.split)

lemmas keeps_store_rules = keeps_intros keeps_store_get keeps_store_set keeps_store_header keeps_store_parse
  keeps_store_warn keeps_store_pg

lemma keeps_store_entity:
  assumes "k \<noteq> ec_key options" and "keeps (\<lambda>s. store (ext s) k) fetcher"
  shows "keeps (\<lambda>s. store (ext s) k) (withEntityCache S cfg options fetcher)"
  unfolding withEntityCache_def entityCacheRead_def entityCacheWrite_def cacheGet_def cacheSet_def
  by (auto intro!: keeps_store_rules assms simp del: io_return_apply split: option.split)

lemma keeps_store_list_read: "keeps (\<lambda>s. store (ext s) k) (listCacheRead S cfg options)"
  unfolding listCacheRead_def cacheGet_def cacheGetNamespaceVersion_def Let_def
  by (auto intro!: keeps_store_rules simp del: io_return_apply split: option.split)

lemma keeps_store_list_write: "cacheKey \<noteq> Some k \<Longrightarrow> keeps (\<lambda>s. store (ext s) k) (listCacheWrite S cfg options cacheKey v)"
  unfolding listCacheWrite_def cacheSet_def
  by (auto intro!: keeps_store_rules simp del: io_return_apply split: option.split)

lemma countCacheRead_key:
  "countCacheRead S cfg options s = (Inr (Continue (Some key)), t) \<Longrightarrow>
     \<exists>v. key = buildCountCacheKey (lc_namespace options) v (lc_query options)"
  unfolding countCacheRead_def
  by (auto simp: io_catch_apply io_bind_apply Let_def split: prod.splits sum.splits option.splits if_splits)

lemma keeps_store_count:
  fixes fetcher :: "(('e, 'm) api_state_scheme, int) io"
  assumes "\<And>v. k \<noteq> buildCountCacheKey (lc_namespace options) v (lc_query options)"
    and "keeps (\<lambda>s. store (ext s) k) fetcher"
  shows "keeps (\<lambda>s. store (ext s) k) (withCountCache S cfg options fetcher)"
proof (cases "cacheEnabled cfg")
  case False
  then show ?thesis using assms(2) by (simp add: withCountCache_def)
next
  case True
  have read: "keeps (\<lambda>s. store (ext s) k) (countCacheRead S cfg options :: (('e, 'm) api_state_scheme, int cache_read) io)"
    unfolding countCacheRead_def cacheGet_def cacheGetNamespaceVersion_def Let_def
    by (auto intro!: keeps_store_rules simp del: io_return_apply split: option.split)
  have writes: "keeps (\<lambda>s. store (ext s) k) (countCacheWrite S cfg options cacheKey v :: (('e, 'm) api_state_scheme, unit) io)"
    if "cacheKey \<noteq> Some k" for cacheKey v
    unfolding countCacheWrite_def cacheSet_def using that
    by (auto intro!: keeps_store_rules simp del: io_return_apply split: option.split)
  show ?thesis
  proof (rule keepsI)
    fix s :: "('e, 'm) api_state_scheme"
    obtain r s1 where r: "countCacheRead S cfg options s = (Inr r, s1)"
      using never_throwsD[OF countCacheRead_never_throws] by blast
    note s1 = keepsD[OF read r]
    show "store (ext (snd (withCountCache S cfg options fetcher s))) k = store (ext s) k"
    proof (cases r)
      case (Returned v)
      with r s1 True show ?thesis by (simp add: withCountCache_def io_bind_apply)
    next
      case (Continue cacheKey)
      then have "cacheKey \<noteq> Some k" using countCacheRead_key[of cfg options s k s1] r assms(1) by blast
      then have "keeps (\<lambda>s. store (ext s) k) (io_bind fetcher (\<lambda>v.
          io_bind (countCacheWrite S cfg options cacheKey v) (\<lambda>_. io_return v)))"
        by (intro keeps_intros assms(2) writes)
      then show ?thesis using r s1 Continue True by (simp add: withCountCache_def io_bind_apply keeps_def)
    qed
  qed
qed

lemma fetchOrdersPage_keeps_store:
  assumes "\<And>v. k \<noteq> buildCountCacheKey ns_ordersList v (count_cache_query q userId)"
  shows "keeps (\<lambda>s. store (ext s) k) (fetchOrdersPage S cfg T q userId)"
  unfolding fetchOrdersPage_def
  by (auto intro!: keeps_intros keeps_store_count keeps_store_pg simp: assms simp del: io_return_apply split: prod.split)

lemma get_order_keeps_store:
  assumes "k \<noteq> orderEntityKey oid"
  shows "keeps (\<lambda>s. store (ext s) k) (get_order S cfg issues oid user)"
proof -
  have "keeps (\<lambda>s. store (ext s) k) (fetch_order oid)"
    unfolding fetch_order_def by (intro keeps_intros keeps_store_pg)
  then show ?thesis
    unfolding get_order_def
    by (auto intro!: keeps_intros keeps_store_entity simp: assms simp del: io_return_apply io_throw_apply split: option.split)
qed

lemma create_keeps_store:
  assumes "k \<noteq> namespaceVersionKey ns_ordersList"
  shows "keeps (\<lambda>s. store (ext s) k) (createOrderTransactionally S cfg uuid request userId dat)"
proof -
  have "keeps (\<lambda>s. store (ext s) k) (invalidateListNamespace S cfg ns_ordersList)"
    by (rule keeps_store_invalidate(2)[of k "CHR ''x'' # k", OF _ assms]) simp
  then show ?thesis
    unfolding createOrderTransactionally_def Let_def by (intro keeps_intros keeps_store_pg)
qed

lemma keeps_store_del_quietly: "k \<noteq> key \<Longrightarrow> keeps (\<lambda>s. store (ext s) k) (del_quietly S key)"
  unfolding del_quietly_def by (intro keeps_intros keeps_store_await) (rule del_other)

lemma keeps_store_run_claimed:
  "k \<noteq> redisKey \<Longrightarrow> keeps (\<lambda>s. store (ext s) k) process \<Longrightarrow> keeps (\<lambda>s. store (ext s) k) (run_claimed S redisKey h process)"
  unfolding run_claimed_def Let_def
  by (intro keeps_intros keeps_store_del_quietly keeps_store_await) (assumption | rule set_other)+

lemma keeps_store_read_record: "k \<noteq> redisKey \<Longrightarrow> keeps (\<lambda>s. store (ext s) k) (readExistingRecord S redisKey h)"
  unfolding readExistingRecord_def
  by (auto intro!: keeps_intros keeps_store_del_quietly keeps_store_await simp: get_store
      simp del: io_return_apply io_throw_apply split: option.split sum.split)

lemma withIdempotency_keeps_store:
  fixes process :: "(('e, 'm) api_state_scheme, response) io"
  assumes run: "withIdempotency S sha options process s = Some y"
    and keys: "\<And>key. k \<noteq> buildRedisKey (io_scope options) (io_userId options) key"
    and proc: "keeps (\<lambda>s. store (ext s) k) process"
  shows "store (ext (snd y)) k = store (ext s) k"
proof -
  define P where "P = (\<lambda>(S' :: 'e services) (sha' :: string \<Rightarrow> string) opts (process' :: (('e, 'm) api_state_scheme, response) io)
      (s :: ('e, 'm) api_state_scheme) (y :: (js_error + idempotency_result) \<times> ('e, 'm) api_state_scheme).
    S' = S \<longrightarrow> opts = options \<longrightarrow> process' = process \<longrightarrow> store (ext (snd y)) k = store (ext s) k)"
  have "P S sha options process s y"
  proof (rule withIdempotency.raw_induct[where P = P, OF _ run])
    fix rec S' sha' opts process' s y
    assume rec: "\<And>S' sha' opts process' s y. rec S' sha' opts process' s = Some y \<Longrightarrow> P S' sha' opts process' s y"
      and body: "(case readIdempotencyKey (io_request opts) of
       None \<Rightarrow> Some (io_bind process' (\<lambda>r. io_return (result_of r)) s)
     | Some key \<Rightarrow> if \<not> valid_idempotency_key key then Some (Inr invalid_key_result, s)
       else let h = canonicalRequestHash sha' (io_request opts) (io_requestBody opts);
                redisKey = buildRedisKey (io_scope opts) (io_userId opts) key
            in case await (ext_call (redis_set_nx S' redisKey (JSON_stringify (claim_record h)) PROCESSING_TTL_SECONDS)) s of
                 (Inl e, t) \<Rightarrow> Some (Inl e, t)
               | (Inr acquired, t) \<Rightarrow> if acquired then Some (run_claimed S' redisKey h process' t)
                   else case readExistingRecord S' redisKey h t of (Inl e, u) \<Rightarrow> Some (Inl e, u)
                      | (Inr None, u) \<Rightarrow> rec S' sha' opts process' u
                      | (Inr (Some replay), u) \<Rightarrow> Some (Inr replay, u)) = Some y"
    show "P S' sha' opts process' s y"
      unfolding P_def
    proof (intro impI)
      assume eqs: "S' = S" "opts = options" "process' = process"
      show "store (ext (snd y)) k = store (ext s) k"
      proof (cases "readIdempotencyKey (io_request options)")
        case None
        have "keeps (\<lambda>s. store (ext s) k) (io_bind process (\<lambda>r. io_return (result_of r)))" by (intro keeps_intros proc)
        with None body eqs show ?thesis by (auto simp: keeps_def)
      next
        case (Some key)
        let ?h = "canonicalRequestHash sha' (io_request options) (io_requestBody options)"
        let ?key = "buildRedisKey (io_scope options) (io_userId options) key"
        obtain r t where nx: "await (ext_call (redis_set_nx S ?key (JSON_stringify (claim_record ?h)) PROCESSING_TTL_SECONDS)) s = (r, t)"
          by fastforce
        have "keeps (\<lambda>s. store (ext s) k) (await (ext_call (redis_set_nx S ?key (JSON_stringify (claim_record ?h)) PROCESSING_TTL_SECONDS))
            :: (('e, 'm) api_state_scheme, bool) io)"
          by (rule keeps_store_await, rule nx_other[OF keys])
        from keepsD[OF this nx] have t: "store (ext t) k = store (ext s) k" .
        have claimed: "store (ext (snd (run_claimed S ?key ?h process t))) k = store (ext t) k"
          using keeps_store_run_claimed[OF keys proc] by (simp add: keeps_def)
        obtain x u where read: "readExistingRecord S ?key ?h t = (x, u)" by fastforce
        have u: "store (ext u) k = store (ext t) k"
          using keepsD[OF keeps_store_read_record[OF keys] read] .
        have again: "rec S sha' options process u = Some y \<Longrightarrow> store (ext (snd y)) k = store (ext u) k"
          using rec[of S sha' options process u y] by (simp add: P_def)
        show ?thesis
          using Some body nx t claimed read u again unfolding eqs
          by (simp add: Let_def split: sum.splits if_splits option.splits) auto
      qed
    qed
  qed
  then show ?thesis by (simp add: P_def)
qed

lemma post_orders_keeps_store:
  assumes "post_orders S cfg sha uuid issues request user body s = Some (out, t)"
    and "k \<noteq> namespaceVersionKey ns_ordersList" and "\<And>u key. k \<noteq> buildRedisKey ''orders:create'' u key"
  shows "store (ext t) k = store (ext s) k"
proof (cases "createOrderSchema body")
  case None
  with assms(1) show ?thesis by (simp add: post_orders_def)
next
  case (Some dat)
  show ?thesis
  proof (cases user)
    case None
    with assms(1) Some show ?thesis by (simp add: post_orders_def)
  next
    case u: (Some u)
    from assms(1) Some u have "withIdempotency S sha \<lparr>io_scope = ''orders:create'', io_userId = user_id u, io_request = request,
        io_requestBody = create_order_json dat\<rparr> (createOrderTransactionally S cfg uuid request (user_id u) dat) s = Some (out, t)"
      by (simp add: post_orders_def)
    from withIdempotency_keeps_store[OF this _ create_keeps_store[OF assms(2)]] assms(3) show ?thesis by simp
  qed
qed

end

end
