(* ===== verification/List_Privacy.thy ===== *)
theory List_Privacy
  imports Order_Listing
begin

text \<open>
  A list never shows an order of another user. The invariant is over the entries of the list
  cache: what is stored under a page key of a user parses to a list of that user's orders. It
  holds over every history of the order handlers, with any failures of Redis and of the
  database, with entries that expire and with any writes of others to the tables.
\<close>

definition lists_private :: "time_texts \<Rightarrow> kv \<Rightarrow> bool" where
  "lists_private T st \<longleftrightarrow> (\<forall>v q u w j. query_wf T q \<longrightarrow> u \<noteq> ''*'' \<longrightarrow> st (list_page_key v q u) = Some w \<longrightarrow>
     JSON_parse w = Some j \<longrightarrow> only_of (uuid_in u) j)"

text \<open>Pages may go away: entries expire.\<close>

definition pages_kept :: "kv \<Rightarrow> kv \<Rightarrow> bool" where
  "pages_kept st st' \<longleftrightarrow> (\<forall>v q u. st' (list_page_key v q u) = st (list_page_key v q u) \<or> st' (list_page_key v q u) = None)"

lemma pages_kept_private: "lists_private T st \<Longrightarrow> pages_kept st st' \<Longrightarrow> lists_private T st'"
  unfolding lists_private_def pages_kept_def by (metis option.distinct(1))

context redis_kv
begin

lemma cacheGet_value: "cacheGet S cfg key s = (Inr x, t) \<Longrightarrow> x = store (ext s) key \<and> store (ext t) = store (ext s)"
  using get_value[of key "ext s"] get_store[of key "ext s"]
  by (auto simp: cacheGet_def withTimeout_def ext_call_def Let_def split: prod.splits if_splits)

lemma version_keeps: "cacheGetNamespaceVersion S cfg ns s = (r, t) \<Longrightarrow> store (ext t) = store (ext s)"
  using get_store[of "namespaceVersionKey ns" "ext s"]
  by (auto simp: cacheGetNamespaceVersion_def withTimeout_def ext_call_def Let_def io_bind_apply
      split: prod.splits if_splits sum.splits)

lemma listCacheRead_returned:
  assumes "listCacheRead S cfg options s = (Inr (Returned j), t)"
  shows "\<exists>v w. store (ext s) (buildListCacheKey (lc_namespace options) v (lc_query options)) = Some w \<and> JSON_parse w = Some j"
proof -
  obtain r s1 where version: "cacheGetNamespaceVersion S cfg (lc_namespace options) s = (r, s1)" by fastforce
  note same = version_keeps[OF version]
  show ?thesis
  proof (cases r)
    case (Inl e)
    with assms version show ?thesis
      by (auto simp: listCacheRead_def io_catch_apply io_bind_apply split: prod.splits sum.splits)
  next
    case (Inr v)
    let ?key = "buildListCacheKey (lc_namespace options) v (lc_query options)"
    obtain x s2 where got: "cacheGet S cfg ?key s1 = (x, s2)" by fastforce
    show ?thesis
    proof (cases "\<exists>w. x = Inr (Some w) \<and> JSON_parse w = Some j")
      case True
      then obtain w where "x = Inr (Some w)" "JSON_parse w = Some j" by blast
      then have "store (ext s) ?key = Some w" "JSON_parse w = Some j"
        using cacheGet_value[of cfg ?key s1 "Some w" s2] got same by simp_all
      then show ?thesis by blast
    next
      case False
      with assms version Inr got show ?thesis
        by (auto simp: listCacheRead_def io_catch_apply io_bind_apply Let_def parse_json_def
            split: prod.splits sum.splits option.splits)
    qed
  qed
qed

lemma listCacheRead_key:
  "listCacheRead S cfg options s = (Inr (Continue (Some key)), t) \<Longrightarrow>
     \<exists>v. key = buildListCacheKey (lc_namespace options) v (lc_query options)"
  unfolding listCacheRead_def
  by (auto simp: io_catch_apply io_bind_apply Let_def parse_json_def split: prod.splits sum.splits option.splits if_splits)

lemma listCacheWrite_effect:
  assumes "listCacheWrite S cfg options (Some key) j s = (r, t)"
  shows "store (ext t) = store (ext s) \<or> store (ext t) = (store (ext s))(key \<mapsto> JSON_stringify j)"
proof -
  let ?ttl = "case lc_ttlSeconds options of None \<Rightarrow> cacheTtlSeconds cfg | Some ttl \<Rightarrow> ttl"
  obtain p e' where call: "redis_set S key (JSON_stringify j) ?ttl (ext s) = (p, e')" by fastforce
  have e': "store e' = store (ext s) \<or> store e' = (store (ext s))(key \<mapsto> JSON_stringify j)"
    using set_ok[OF call] set_err[OF call] by (cases "outcome p") auto
  obtain c where c: "cacheSet S cfg key (JSON_stringify j) ?ttl s = (c, s\<lparr>ext := e'\<rparr>)"
    by (simp add: cacheSet_def withTimeout_def ext_call_def call)
  have "ext t = e'"
  proof (cases c)
    case (Inl e)
    let ?warn = "warnOncePerMinute S (''cache-write-'' @ lc_namespace options)
      (lc_namespace options @ '' cache write failed; response still served'') e"
    have "?warn (s\<lparr>ext := e'\<rparr>) = (r, t)"
      using assms c Inl by (simp add: listCacheWrite_def io_catch_apply io_bind_apply)
    then have "ext t = ext (s\<lparr>ext := e'\<rparr>)" by (metis warnOncePerMinute_ext snd_conv)
    then show ?thesis by simp
  next
    case (Inr u)
    then show ?thesis using assms c by (auto simp: listCacheWrite_def io_catch_apply io_bind_apply set_header_def)
  qed
  with e' show ?thesis by simp
qed

lemma pages_keptI:
  assumes "\<And>v q u. keeps (\<lambda>s. store (ext s) (list_page_key v q u)) m" and "m s = (r, t)"
  shows "pages_kept (store (ext s)) (store (ext t))"
  using keepsD[OF assms] by (simp add: pages_kept_def)

lemma page_written_private:
  assumes "times_ok T" "lists_private T st" "query_wf T q" "u \<noteq> ''*''" "only_of (uuid_in u) j" "json_wf j"
  shows "lists_private T (st(list_page_key v q u \<mapsto> JSON_stringify j))"
  unfolding lists_private_def
proof (intro allI impI)
  fix v' q' u' w j'
  assume q': "query_wf T q'" "u' \<noteq> ''*''" and w: "(st(list_page_key v q u \<mapsto> JSON_stringify j)) (list_page_key v' q' u') = Some w"
    and j': "JSON_parse w = Some j'"
  show "only_of (uuid_in u') j'"
  proof (cases "list_page_key v' q' u' = list_page_key v q u")
    case True
    from list_page_key_user[OF assms(1) q' assms(3,4) True] have "u' = u" .
    moreover have "j' = j" using w j' True JSON_parse_stringify[OF assms(6)] by simp
    ultimately show ?thesis using assms(5) by simp
  next
    case False
    with w j' q' assms(2) show ?thesis unfolding lists_private_def by (metis fun_upd_other)
  qed
qed

lemma fetch_pages_kept:
  "fetchOrdersPage S cfg T q u s = (r, t) \<Longrightarrow> pages_kept (store (ext s)) (store (ext t))"
  by (rule pages_keptI[OF fetchOrdersPage_keeps_store]) (rule list_page_key_others(3))

lemma cached_list_private:
  assumes "times_ok T" "lists_private T (store (ext s))" "query_wf T q" "user \<noteq> ''*''"
    and run: "withListCache S cfg \<lparr>lc_namespace = ns_ordersList, lc_query = list_cache_query q user, lc_ttlSeconds = None\<rparr>
      (fetchOrdersPage S cfg T q user) s = (out, t)"
  shows "lists_private T (store (ext t)) \<and> (\<forall>body. out = Inr body \<longrightarrow> only_of (uuid_in user) body)"
proof (cases "cacheEnabled cfg")
  case False
  with run have fetch: "fetchOrdersPage S cfg T q user s = (out, t)" by (simp add: withListCache_def)
  show ?thesis
    using pages_kept_private[OF assms(2) fetch_pages_kept[OF fetch]] fetchOrdersPage_own(1) fetch by blast
next
  case True
  let ?options = "\<lparr>lc_namespace = ns_ordersList, lc_query = list_cache_query q user, lc_ttlSeconds = None\<rparr>"
  have read: "pages_kept (store (ext s)) (store (ext s1))" if "listCacheRead S cfg ?options s = (r, s1)" for r s1
    by (rule pages_keptI[OF keeps_store_list_read that])
  from True show ?thesis
  proof (cases rule: withListCache_run[of cfg S ?options s "fetchOrdersPage S cfg T q user"])
    case (hit j s1)
    obtain v w where "store (ext s) (list_page_key v q user) = Some w" "JSON_parse w = Some j"
      using listCacheRead_returned[OF hit(1)] by (auto simp: list_page_key_def)
    with assms(2-4) have "only_of (uuid_in user) j" unfolding lists_private_def by blast
    with hit run pages_kept_private[OF assms(2) read[OF hit(1)]] show ?thesis by auto
  next
    case (failed key s1 e s2)
    with run pages_kept_private[OF pages_kept_private[OF assms(2) read[OF failed(1)]] fetch_pages_kept[OF failed(2)]]
    show ?thesis by auto
  next
    case (fetched key s1 j s2 s3)
    have priv: "lists_private T (store (ext s2))"
      using pages_kept_private[OF pages_kept_private[OF assms(2) read[OF fetched(1)]] fetch_pages_kept[OF fetched(2)]] .
    note own = fetchOrdersPage_own[OF fetched(2)]
    have "lists_private T (store (ext s3))"
    proof (cases key)
      case None
      with fetched(3) priv show ?thesis by (simp add: listCacheWrite_def)
    next
      case (Some k)
      with fetched(1) obtain v where k: "k = list_page_key v q user"
        using listCacheRead_key[of cfg ?options s k s1] by (auto simp: list_page_key_def)
      from listCacheWrite_effect[OF fetched(3)[unfolded Some]] priv page_written_private[OF assms(1) priv assms(3,4) own]
      show ?thesis unfolding k by auto
    qed
    with fetched(4) run own(1) show ?thesis by auto
  qed
qed

lemma list_orders_private:
  assumes "times_ok T" "lists_private T (store (ext s))" "user_id u \<noteq> ''*''"
    and run: "list_orders S cfg T issues raw (Some u) s = (out, t)"
  shows "lists_private T (store (ext t)) \<and>
    (\<forall>r. out = Inr r \<longrightarrow> resp_status r = 200 \<longrightarrow> only_of (uuid_in (user_id u)) (resp_body r))"
proof (cases "listOrdersQuerySchema T raw")
  case None
  with run assms(2) show ?thesis by (auto simp: list_orders_def validationError_def error_response_def)
next
  case (Some q)
  obtain r s1 where cached: "withListCache S cfg \<lparr>lc_namespace = ns_ordersList, lc_query = list_cache_query q (user_id u), lc_ttlSeconds = None\<rparr>
      (fetchOrdersPage S cfg T q (user_id u)) s = (r, s1)" by fastforce
  from cached_list_private[OF assms(1,2) listOrdersQuerySchema_wf[OF Some] assms(3) cached] run Some cached
  show ?thesis by (auto simp: list_orders_def io_bind_apply split: sum.splits)
qed

end

section \<open>Histories\<close>

inductive order_traffic for S :: "'e services" and store :: "'e \<Rightarrow> kv" and T where
  start: "lists_private T (store (ext s)) \<Longrightarrow> order_traffic S store T s"
| lists: "order_traffic S store T s \<Longrightarrow> user_id u \<noteq> ''*'' \<Longrightarrow>
    list_orders S cfg T issues raw (Some u) s = (out, t) \<Longrightarrow> order_traffic S store T t"
| gets: "order_traffic S store T s \<Longrightarrow> get_order S cfg issues oid user s = (out, t) \<Longrightarrow> order_traffic S store T t"
| posts: "order_traffic S store T s \<Longrightarrow> post_orders S cfg sha uuid issues request user body s = Some (out', t) \<Longrightarrow>
    order_traffic S store T t"
| patches: "order_traffic S store T s \<Longrightarrow> patch_order S cfg uuid issues oid user body s = (out, t) \<Longrightarrow>
    order_traffic S store T t"
| others: "order_traffic S store T s \<Longrightarrow> pages_kept (store (ext s)) (store (ext t)) \<Longrightarrow> order_traffic S store T t"

lemma order_traffic_private:
  assumes "redis_kv S store" and "times_ok T" and "order_traffic S store T s"
  shows "lists_private T (store (ext s))"
  using assms(3)
proof induction
  case (lists s u cfg issues raw out t)
  then show ?case using redis_kv.list_orders_private[OF assms(1,2)] by blast
next
  case (gets s cfg issues oid user out t)
  show ?case
    by (rule pages_kept_private[OF gets.IH redis_kv.pages_keptI[OF assms(1) redis_kv.get_order_keeps_store[OF assms(1)] gets.hyps(2)]])
      (rule list_page_key_others)
next
  case (posts s cfg sha uuid issues request user body out' t)
  have "pages_kept (store (ext s)) (store (ext t))"
    unfolding pages_kept_def
    by (intro allI disjI1, rule redis_kv.post_orders_keeps_store[OF assms(1) posts.hyps(2)]) (rule list_page_key_others)+
  with pages_kept_private[OF posts.IH] show ?case .
next
  case (patches s cfg uuid issues oid user body out t)
  show ?case
    by (rule pages_kept_private[OF patches.IH redis_kv.pages_keptI[OF assms(1) redis_kv.patch_order_keeps_store[OF assms(1)] patches.hyps(2)]])
      (rule list_page_key_others)+
next
  case (others s t)
  then show ?case by (blast intro: pages_kept_private)
qed

text \<open>C6: A list never shows an order of another user: after any history of the order handlers, by any users, with
  any failures of Redis and of the database, cached pages that expire and any changes of the
  tables by others, every order in a 200 of \<open>GET /v1/orders\<close> belongs to the caller, whether the
  answer comes from the cache or from the database.\<close>

theorem list_orders_only_own:
  assumes "redis_kv S store" and "times_ok T" and "order_traffic S store T s" and "user_id u \<noteq> ''*''"
    and "list_orders S cfg T issues raw (Some u) s = (Inr r, t)" and "resp_status r = 200"
    and "ord \<in> set (body_orders (resp_body r))"
  shows "json_prop ''user_id'' ord = Some (JStr (uuid_in (user_id u)))"
  using redis_kv.list_orders_private[OF assms(1,2) order_traffic_private[OF assms(1-3)] assms(4,5)] assms(6,7)
  by (auto simp: only_of_def)

section \<open>Witnesses\<close>

definition demo_times :: time_texts where
  "demo_times = \<lparr>tt_datetime = (\<lambda>t. 20 \<le> length t), tt_getTime = (\<lambda>t. Some 0), tt_timestamptz = (\<lambda>t. Some 0)\<rparr>"

definition other_user :: auth_user where
  "other_user = \<lparr>user_id = ''u2'', user_email = ''d@e.f''\<rparr>"

text \<open>An order of each of two users.\<close>

definition two_users :: "kv app_state" where
  "two_users = (demo_app (\<lambda>_. None))\<lparr>pg := demo_world\<lparr>committed := demo_database
     \<lparr>orders := [demo_row, demo_row\<lparr>o_id := ''x'', o_user_id := ''u2''\<rparr>]\<rparr>\<rparr>\<rparr>"

abbreviation uncached :: api_config where
  "uncached \<equiv> demo_config\<lparr>cacheEnabled := False\<rparr>"

definition first_page :: list_orders_query where
  "first_page = \<lparr>lq_page = 1, lq_pageSize = 20, lq_status = None, lq_customerEmail = None, lq_createdAfter = None,
     lq_createdBefore = None\<rparr>"

lemma demo_query: "listOrdersQuerySchema demo_times (JObj []) = Some first_page"
  by (simp add: listOrdersQuerySchema_def page_field_def pageSize_field_def optional_field_def range_ok_def first_page_def)

lemma demo_readable: "params_readable demo_times first_page" "paginationOffset (lq_params first_page) \<le> 9223372036854775807"
  by (simp_all add: params_readable_def email_readable_def given_def first_page_def lq_params_def paginationOffset_def)

lemma two_users_pg [simp]: "pg_script (pg two_users) = []"
  "committed (pg two_users) = demo_database\<lparr>orders := [demo_row, demo_row\<lparr>o_id := ''x'', o_user_id := ''u2''\<rparr>]\<rparr>"
  "ext two_users = (\<lambda>_. None)"
  by (simp_all add: two_users_def demo_world_def)

lemma demo_own: "own_orders demo_times first_page ''u1'' (committed (pg two_users)) = [demo_row]"
  by (simp add: own_orders_def newest_first_def where_orders_def first_page_def given_def demo_row_def uuid_in_def
      js_lower_def lower_char_def Let_def)

lemma demo_orders: "body_orders (resp_body (list_reply demo_times first_page ''u1'' (committed (pg two_users)))) = [order_json demo_row]"
  unfolding list_reply_def demo_own by (simp add: page_rows_def first_page_def lq_params_def paginationOffset_def)

theorem list_orders_reads_database_witness:
  "\<exists>r. list_orders stub_services uncached demo_times (\<lambda>j. []) (JObj []) (Some demo_user) two_users = (Inr r, two_users) \<and>
     resp_status r = 200 \<and> body_orders (resp_body r) = [order_json demo_row]"
proof -
  obtain r where run: "list_orders stub_services uncached demo_times (\<lambda>j. []) (JObj []) (Some demo_user) two_users = (Inr r, two_users)"
    "resp_status r = 200"
    by (rule exE[OF list_orders_reads_database[where cfg = uncached and s = two_users and S = stub_services and u = demo_user
          and issues = "\<lambda>j. []", OF _ _ demo_query demo_readable(1)]]) (auto simp: first_page_def)
  moreover have "r = list_reply demo_times first_page (user_id demo_user) (committed (pg two_users))"
    using run(1) list_orders_answer[OF _ two_users_pg(1) demo_query demo_readable, of uncached stub_services "\<lambda>j. []" demo_user] by simp
  ultimately show ?thesis using demo_orders by (intro exI[of _ r]) (simp add: demo_user_def)
qed

lemma nul_query: "listOrdersQuerySchema demo_times (JObj [(''customerEmail'', JStr (CHR 0x00 # ''a@b.c''))]) =
    Some (first_page\<lparr>lq_customerEmail := Some (CHR 0x00 # ''a@b.c'')\<rparr>)"
  by (simp add: listOrdersQuerySchema_def page_field_def pageSize_field_def optional_field_def range_ok_def first_page_def
      text_schema_def emailSchema_def plain_char_def is_js_space_def)

theorem unreadable_filter_fails_witness:
  "with_error_handler (list_orders stub_services uncached demo_times (\<lambda>j. [])
     (JObj [(''customerEmail'', JStr (CHR 0x00 # ''a@b.c''))]) (Some demo_user)) two_users = (Inr internal_error, two_users)"
  by (rule unreadable_filter_fails[OF _ _ nul_query])
    (simp_all add: params_readable_def email_readable_def given_def text_ok_def js_lower_def lower_char_def)

lemma far_number: "number_of_text ''99999999999999999999'' = Some 99999999999999999999"
  by (simp add: number_of_text_def js_trim_def is_js_space_def decimal_text_def is_digit_def digits_val_def digit_val_def
      exponent_def integral_def Let_def)

lemma far_page: "listOrdersQuerySchema demo_times (JObj [(''page'', JStr ''99999999999999999999'')]) =
    Some (first_page\<lparr>lq_page := 99999999999999999999\<rparr>)"
  by (simp add: listOrdersQuerySchema_def page_field_def pageSize_field_def optional_field_def range_ok_def first_page_def
      coerce_number_def far_number)

theorem huge_page_number_fails_witness:
  "with_error_handler (list_orders stub_services uncached demo_times (\<lambda>j. [])
     (JObj [(''page'', JStr ''99999999999999999999'')]) (Some demo_user)) two_users = (Inr internal_error, two_users)"
  by (rule huge_page_number_fails[OF _ _ far_page])
    (simp_all add: paginationOffset_def lq_params_def first_page_def)

theorem list_orders_only_own_witness:
  "\<exists>r. list_orders stub_services uncached demo_times (\<lambda>j. []) (JObj []) (Some demo_user) two_users = (Inr r, two_users) \<and>
     (\<exists>ord\<in>set (body_orders (resp_body r)). json_prop ''user_id'' ord = Some (JStr ''u1''))"
proof -
  have run: "list_orders stub_services uncached demo_times (\<lambda>j. []) (JObj []) (Some user) two_users =
      (Inr (list_reply demo_times first_page (user_id user) (committed (pg two_users))), two_users)" for user
    by (rule list_orders_answer[OF _ _ demo_query demo_readable]) simp_all
  have "order_traffic stub_services (\<lambda>m. m) demo_times two_users"
    by (rule order_traffic.start) (simp add: lists_private_def)
  then have "order_traffic stub_services (\<lambda>m. m) demo_times two_users"
    by (rule order_traffic.lists[OF _ _ run[of other_user]]) (simp add: other_user_def)
  from list_orders_only_own[OF stub.redis_kv_axioms _ this _ run[of demo_user], of "order_json demo_row"] run[of demo_user] demo_orders
  show ?thesis by (auto simp: times_ok_def demo_times_def demo_user_def list_reply_def uuid_in_def js_lower_def lower_char_def Let_def)
qed

end
