(* ===== verification/Cache_Coherence.thy ===== *)
theory Cache_Coherence
  imports List_Privacy
begin

text \<open>
  The caches of the order handlers are transparent: as long as Redis answers in time and the
  database has no faults, the entries of the entity cache, of the list pages and of the counts
  agree with the tables, so that a cached read answers what the tables say. The invariant
  \<open>coherent\<close> is over the entries under the current version of the list namespace; entries of
  older versions are never read again.
\<close>

section \<open>Keys determine what they stand for\<close>

definition count_page_key :: "int \<Rightarrow> list_orders_query \<Rightarrow> string \<Rightarrow> string" where
  "count_page_key v q userId = buildCountCacheKey ns_ordersList v (count_cache_query q userId)"

lemma shown_or_undefined: "shown (or_undefined x) = x" "shown (or_null x) = x" "shown (JsString u) = Some u"
  "shown (JsNumber n) = Some (int_to_string n)"
  by (simp_all add: shown_def or_undefined_def or_null_def split: option.split)

lemma list_page_key_inj:
  assumes "times_ok T" and "query_wf T q" "u \<noteq> ''*''" and "query_wf T q'" "u' \<noteq> ''*''"
    and "list_page_key v q u = list_page_key v' q' u'"
  shows "q = q' \<and> u = u'"
proof -
  note ok = list_cache_query_ok[OF assms(1-3)] list_cache_query_ok[OF assms(1,4,5)]
  have "query_parts (list_cache_query q u) = query_parts (list_cache_query q' u')"
    using listKey_inj[OF no_colon_ordersList no_colon_ordersList ok] assms(6) by (simp add: list_page_key_def)
  note same = query_parts_inj(2)[OF ok this]
  have "lq_page q = lq_page q'" "lq_pageSize q = lq_pageSize q'"
    using same[of "''page''"] same[of "''pageSize''"]
    by (simp_all add: list_cache_query_def shown_or_undefined)
  moreover have "map_option status_name (lq_status q) = map_option status_name (lq_status q')"
    and "lq_customerEmail q = lq_customerEmail q'" "lq_createdAfter q = lq_createdAfter q'"
      "lq_createdBefore q = lq_createdBefore q'" and u: "u = u'"
    using same[of "''status''"] same[of "''customerEmail''"] same[of "''createdAfter''"] same[of "''createdBefore''"]
      same[of "''userId''"] by (simp_all add: list_cache_query_def shown_or_undefined)
  moreover from this have "lq_status q = lq_status q'"
    by (cases "lq_status q"; cases "lq_status q'") (auto simp: status_name_inj)
  ultimately show ?thesis by (cases q; cases q') simp
qed

lemma js_lower_star: "emailSchema e \<Longrightarrow> js_lower e \<noteq> ''*''"
proof
  assume "emailSchema e" and "js_lower e = ''*''"
  then have "length e = 1" by (metis js_lower_length length_Cons list.size(3) One_nat_def)
  with \<open>emailSchema e\<close> show False
    by (cases e) (auto simp: emailSchema_def split: list.splits if_splits)
qed

lemma count_cache_query_ok:
  assumes "times_ok T" and "query_wf T q" and "u \<noteq> ''*''"
  shows "query_ok (count_cache_query q u)"
  using assms js_lower_star
  by (auto simp: query_ok_def count_cache_query_def shown_or_undefined query_wf_def times_ok_def
      status_name_not_star split: option.splits)

text \<open>Two queries with one count key select the same orders.\<close>

lemma count_page_key_inj:
  assumes "times_ok T" and "query_wf T q" "u \<noteq> ''*''" and "query_wf T q'" "u' \<noteq> ''*''"
    and "count_page_key v q u = count_page_key v' q' u'"
  shows "where_orders T q u = where_orders T q' u'" and "params_readable T q = params_readable T q'"
proof -
  note ok = count_cache_query_ok[OF assms(1-3)] count_cache_query_ok[OF assms(1,4,5)]
  have "query_parts (count_cache_query q u) = query_parts (count_cache_query q' u')"
    using countKey_inj[OF no_colon_ordersList no_colon_ordersList ok] assms(6) by (simp add: count_page_key_def)
  note same = query_parts_inj(2)[OF ok this]
  have "map_option status_name (lq_status q) = map_option status_name (lq_status q')"
    and email: "map_option js_lower (lq_customerEmail q) = map_option js_lower (lq_customerEmail q')"
    and times: "lq_createdAfter q = lq_createdAfter q'" "lq_createdBefore q = lq_createdBefore q'" and u: "u = u'"
    using same[of "''status''"] same[of "''customerEmail''"] same[of "''createdAfter''"] same[of "''createdBefore''"]
      same[of "''userId''"] by (simp_all add: count_cache_query_def shown_or_undefined)
  then have status: "lq_status q = lq_status q'"
    by (cases "lq_status q"; cases "lq_status q'") (auto simp: status_name_inj)
  have same_email: "map_option js_lower (given (lq_customerEmail q)) = map_option js_lower (given (lq_customerEmail q'))"
    using email js_lower_length by (cases "lq_customerEmail q"; cases "lq_customerEmail q'") (auto simp: given_def js_lower_def)
  from same_email have "(case given (lq_customerEmail q) of None \<Rightarrow> True | Some e \<Rightarrow> x = js_lower e) =
      (case given (lq_customerEmail q') of None \<Rightarrow> True | Some e \<Rightarrow> x = js_lower e)" for x
    by (cases "given (lq_customerEmail q)"; cases "given (lq_customerEmail q')") auto
  then show "where_orders T q u = where_orders T q' u'"
    by (intro ext) (simp add: where_orders_def status times u)
  have "email_readable q = email_readable q'" using same_email
    by (cases "given (lq_customerEmail q)"; cases "given (lq_customerEmail q')") (simp_all add: email_readable_def)
  then show "params_readable T q = params_readable T q'" by (simp add: params_readable_def times)
qed

lemma orderEntityKey_others:
  "orderEntityKey oid \<noteq> namespaceVersionKey ns" "orderEntityKey oid \<noteq> count_page_key v q u"
  "orderEntityKey oid \<noteq> list_page_key v q u" "orderEntityKey oid = orderEntityKey oid' \<longleftrightarrow> oid = oid'"
proof -
  have plain: "no_colon ns_order" "no_colon ''cache''" "ns_order \<noteq> ns_ordersList" "ns_order \<noteq> ''cache''"
    by (simp_all add: no_colon_def ns_order_def ns_ordersList_def)
  have fields: "orderEntityKey oid = ns_order @ CHR '':'' # oid" by (simp add: orderEntityKey_def)
  show "orderEntityKey oid \<noteq> namespaceVersionKey ns"
    unfolding fields versionKey_fields by (rule first_field[OF plain(1,2,4)])
  show "orderEntityKey oid \<noteq> count_page_key v q u"
    unfolding fields count_page_key_def countKey_fields by (rule first_field[OF plain(1) no_colon_ordersList plain(3)])
  show "orderEntityKey oid \<noteq> list_page_key v q u" by (rule list_page_key_others(1)[THEN not_sym])
  show "orderEntityKey oid = orderEntityKey oid' \<longleftrightarrow> oid = oid'" by (simp add: orderEntityKey_def)
qed

lemma page_keys_others:
  "list_page_key v q u \<noteq> count_page_key v' q' u'" "count_page_key v q u \<noteq> list_page_key v' q' u'"
  "count_page_key v q u \<noteq> namespaceVersionKey ns" "namespaceVersionKey ns \<noteq> count_page_key v q u"
  "namespaceVersionKey ns \<noteq> list_page_key v q u"
proof -
  have "ns_ordersList \<noteq> ''cache''" by (simp add: ns_ordersList_def)
  note versionKey_not_countKey[OF no_colon_ordersList this]
  then show "count_page_key v q u \<noteq> namespaceVersionKey ns" "namespaceVersionKey ns \<noteq> count_page_key v q u"
    unfolding count_page_key_def by metis+
  show "list_page_key v q u \<noteq> count_page_key v' q' u'" "count_page_key v q u \<noteq> list_page_key v' q' u'"
    unfolding count_page_key_def using list_page_key_others(3) by metis+
  show "namespaceVersionKey ns \<noteq> list_page_key v q u" by (rule list_page_key_others(2)[THEN not_sym])
qed

lemma page_ns_ordersList: "page_ns ns_ordersList"
  by (simp add: page_ns_def no_colon_ordersList) (simp add: ns_ordersList_def)

section \<open>The invariant\<close>

definition page_ready :: "time_texts \<Rightarrow> list_orders_query \<Rightarrow> bool" where
  "page_ready T q \<longleftrightarrow> params_readable T q \<and> paginationOffset (lq_params q) \<le> 9223372036854775807"

abbreviation lists_version :: "kv \<Rightarrow> int" where
  "lists_version st \<equiv> current_version st ns_ordersList"

text \<open>Ids in the form the database shows them; another spelling has an entry of its own.\<close>

definition entities_coherent :: "kv \<Rightarrow> database \<Rightarrow> bool" where
  "entities_coherent st d \<longleftrightarrow> (\<forall>oid w. uuid_in oid = oid \<longrightarrow> st (orderEntityKey oid) = Some w \<longrightarrow>
     (\<exists>row. find_order oid d = Some row \<and> w = JSON_stringify (order_body row)))"

definition pages_coherent :: "time_texts \<Rightarrow> kv \<Rightarrow> database \<Rightarrow> bool" where
  "pages_coherent T st d \<longleftrightarrow> (\<forall>q u w. query_wf T q \<longrightarrow> u \<noteq> ''*'' \<longrightarrow>
     st (list_page_key (lists_version st) q u) = Some w \<longrightarrow>
     page_ready T q \<and> w = JSON_stringify (resp_body (list_reply T q u d)))"

definition counts_coherent :: "time_texts \<Rightarrow> kv \<Rightarrow> database \<Rightarrow> bool" where
  "counts_coherent T st d \<longleftrightarrow> (\<forall>q u w. query_wf T q \<longrightarrow> u \<noteq> ''*'' \<longrightarrow>
     st (count_page_key (lists_version st) q u) = Some w \<longrightarrow>
     params_readable T q \<and> w = int_to_string (int (length (own_orders T q u d))))"

definition coherent :: "time_texts \<Rightarrow> kv \<Rightarrow> database \<Rightarrow> bool" where
  "coherent T st d \<longleftrightarrow> ns_fresh st ns_ordersList \<and> entities_coherent st d \<and> pages_coherent T st d \<and> counts_coherent T st d"

lemma lists_version_upd:
  "lists_version (st(orderEntityKey oid := x)) = lists_version st"
  "lists_version (st(list_page_key v q u := x)) = lists_version st"
  "lists_version (st(count_page_key v q u := x)) = lists_version st"
  using orderEntityKey_others(1) page_keys_others(4,5)
  by (simp_all add: current_version_def not_sym)

lemma coherent_entity_write:
  assumes "coherent T st d" and "find_order oid d = Some row"
  shows "coherent T (st(orderEntityKey oid \<mapsto> JSON_stringify (order_body row))) d"
proof -
  let ?st = "st(orderEntityKey oid \<mapsto> JSON_stringify (order_body row))"
  have "?st (buildListCacheKey ns_ordersList v q) = st (buildListCacheKey ns_ordersList v q)"
    "?st (buildCountCacheKey ns_ordersList v q) = st (buildCountCacheKey ns_ordersList v q)" for v q
    using first_field[of ns_order ns_ordersList] no_colon_ordersList
    by (simp_all add: listKey_fields countKey_fields orderEntityKey_def no_colon_def ns_order_def ns_ordersList_def)
  moreover have "?st (namespaceVersionKey ns_ordersList) = st (namespaceVersionKey ns_ordersList)"
    using orderEntityKey_others(1) by (simp add: not_sym)
  ultimately have "ns_fresh ?st ns_ordersList"
    using assms(1) unfolding coherent_def ns_fresh_def current_version_def by simp
  moreover have "entities_coherent ?st d"
    using assms by (auto simp: coherent_def entities_coherent_def orderEntityKey_others(4))
  moreover have "pages_coherent T ?st d" "counts_coherent T ?st d"
    using assms(1) by (simp_all add: coherent_def pages_coherent_def counts_coherent_def lists_version_upd orderEntityKey_others(2,3)[THEN not_sym])
  ultimately show ?thesis by (simp add: coherent_def)
qed

lemma coherent_page_write:
  assumes "times_ok T" and "coherent T st d" and "query_wf T q" "u \<noteq> ''*''" and "page_ready T q"
  shows "coherent T (st(list_page_key (lists_version st) q u \<mapsto> JSON_stringify (resp_body (list_reply T q u d)))) d"
    (is "coherent T ?st d")
proof -
  have "ns_fresh ?st ns_ordersList"
    using assms(2) unfolding coherent_def list_page_key_def
    by (intro ns_fresh_list_write(1)[OF page_ns_ordersList]) simp_all
  moreover have "entities_coherent ?st d"
    using assms(2) by (simp add: coherent_def entities_coherent_def orderEntityKey_others(3))
  moreover have "pages_coherent T ?st d"
    unfolding pages_coherent_def lists_version_upd
  proof (intro allI impI)
    fix q' u' w assume q': "query_wf T q'" "u' \<noteq> ''*''" and w: "?st (list_page_key (lists_version st) q' u') = Some w"
    show "page_ready T q' \<and> w = JSON_stringify (resp_body (list_reply T q' u' d))"
    proof (cases "list_page_key (lists_version st) q' u' = list_page_key (lists_version st) q u")
      case True
      from list_page_key_inj[OF assms(1) q' assms(3,4) True] w assms(5) show ?thesis by simp
    next
      case False
      with w q' assms(2) show ?thesis by (simp add: coherent_def pages_coherent_def)
    qed
  qed
  moreover have "counts_coherent T ?st d"
    using assms(2) by (simp add: coherent_def counts_coherent_def lists_version_upd page_keys_others)
  ultimately show ?thesis by (simp add: coherent_def)
qed

lemma coherent_count_write:
  assumes "times_ok T" and "coherent T st d" and "query_wf T q" "u \<noteq> ''*''" and "params_readable T q"
  shows "coherent T (st(count_page_key (lists_version st) q u \<mapsto> int_to_string (int (length (own_orders T q u d))))) d"
    (is "coherent T ?st d")
proof -
  have "ns_fresh ?st ns_ordersList"
    using assms(2) unfolding coherent_def count_page_key_def
    by (intro ns_fresh_count_write(1)[OF page_ns_ordersList]) simp_all
  moreover have "entities_coherent ?st d"
    using assms(2) by (simp add: coherent_def entities_coherent_def orderEntityKey_others(2))
  moreover have "pages_coherent T ?st d"
    using assms(2) by (simp add: coherent_def pages_coherent_def lists_version_upd page_keys_others)
  moreover have "counts_coherent T ?st d"
    unfolding counts_coherent_def lists_version_upd
  proof (intro allI impI)
    fix q' u' w assume q': "query_wf T q'" "u' \<noteq> ''*''" and w: "?st (count_page_key (lists_version st) q' u') = Some w"
    show "params_readable T q' \<and> w = int_to_string (int (length (own_orders T q' u' d)))"
    proof (cases "count_page_key (lists_version st) q' u' = count_page_key (lists_version st) q u")
      case True
      from count_page_key_inj[OF assms(1) q' assms(3,4) True] w True assms(5) show ?thesis by (simp add: own_orders_length)
    next
      case False
      with w q' assms(2) show ?thesis by (simp add: coherent_def counts_coherent_def)
    qed
  qed
  ultimately show ?thesis by (simp add: coherent_def)
qed

text \<open>Entries may go away, the version aside.\<close>

definition forgets :: "kv \<Rightarrow> kv \<Rightarrow> bool" where
  "forgets st st' \<longleftrightarrow> (\<forall>k. st' k = st k \<or> st' k = None) \<and>
     st' (namespaceVersionKey ns_ordersList) = st (namespaceVersionKey ns_ordersList)"

lemma forgets_version: "forgets st st' \<Longrightarrow> lists_version st' = lists_version st"
  by (simp add: forgets_def current_version_def)

lemma forgets_Some: "forgets st st' \<Longrightarrow> st' k = Some w \<Longrightarrow> st k = Some w"
  unfolding forgets_def by (metis option.distinct(1))

lemma forgets_None: "forgets st st' \<Longrightarrow> st k = None \<Longrightarrow> st' k = None"
  unfolding forgets_def by metis

lemma ns_fresh_forgets:
  assumes "forgets st st'" and "ns_fresh st ns_ordersList"
  shows "ns_fresh st' ns_ordersList"
proof -
  have "st' (namespaceVersionKey ns_ordersList) = st (namespaceVersionKey ns_ordersList)"
    using assms(1) by (simp add: forgets_def)
  then show ?thesis
    using assms(2) forgets_None[OF assms(1)] unfolding ns_fresh_def forgets_version[OF assms(1)] by simp
qed

lemma coherent_forgets:
  assumes "forgets st st'" and "coherent T st d"
  shows "coherent T st' d"
  using assms(2) ns_fresh_forgets[OF assms(1)] forgets_Some[OF assms(1)]
  unfolding coherent_def entities_coherent_def pages_coherent_def counts_coherent_def forgets_version[OF assms(1)]
  by blast

text \<open>A change of the tables, after the entry of the changed order is gone and the version is bumped.\<close>

lemma coherent_bump:
  assumes "coherent T st d" and "forgets st st1"
    and st': "st' = st1(namespaceVersionKey ns_ordersList \<mapsto> int_to_string (lists_version st1 + 1))"
    and kept: "\<And>oid. uuid_in oid = oid \<Longrightarrow> st1 (orderEntityKey oid) \<noteq> None \<Longrightarrow> find_order oid d' = find_order oid d"
  shows "coherent T st' d'"
proof -
  have fresh1: "ns_fresh st1 ns_ordersList" using assms(1) ns_fresh_forgets[OF assms(2)] by (simp add: coherent_def)
  note bump = ns_fresh_bump[OF page_ns_ordersList fresh1 st']
  have "entities_coherent st' d'"
    unfolding entities_coherent_def
  proof (intro allI impI)
    fix oid w assume oid: "uuid_in oid = oid" and "st' (orderEntityKey oid) = Some w"
    then have w: "st1 (orderEntityKey oid) = Some w" using orderEntityKey_others(1) by (simp add: st')
    with forgets_Some[OF assms(2)] assms(1) oid obtain row where "find_order oid d = Some row" "w = JSON_stringify (order_body row)"
      unfolding coherent_def entities_coherent_def by blast
    with kept[OF oid] w show "\<exists>row. find_order oid d' = Some row \<and> w = JSON_stringify (order_body row)" by simp
  qed
  moreover have "st' (list_page_key (lists_version st') q u) = None" for q u
    using bump(3)[of "\<lparr>lc_namespace = ns_ordersList, lc_query = list_cache_query q u, lc_ttlSeconds = None\<rparr>"]
    by (simp add: list_key_at_def list_page_key_def)
  moreover have "st' (count_page_key (lists_version st') q u) = None" for q u
    using bump(4)[of "\<lparr>lc_namespace = ns_ordersList, lc_query = count_cache_query q u, lc_ttlSeconds = None\<rparr>"]
    by (simp add: count_key_at_def count_page_key_def)
  ultimately show ?thesis
    using bump(1) by (simp add: coherent_def pages_coherent_def counts_coherent_def)
qed

section \<open>Reading an order\<close>

definition cache_on :: "api_config \<Rightarrow> int \<Rightarrow> bool" where
  "cache_on cfg limit \<longleftrightarrow> cacheEnabled cfg \<and> cacheTimeoutMs cfg = limit \<and> 0 < cacheTtlSeconds cfg \<and>
     0 < cacheListCountTtlSeconds cfg"

lemma coherent_other_spelling:
  assumes "coherent T st d" and "uuid_in oid \<noteq> oid" and agree: "\<And>k. k \<noteq> orderEntityKey oid \<Longrightarrow> st' k = st k"
  shows "coherent T st' d"
proof -
  have ns: "ns_order \<noteq> ns_ordersList" "no_colon ns_order" by (simp_all add: ns_order_def ns_ordersList_def no_colon_def)
  have field: "orderEntityKey oid = ns_order @ CHR '':'' # oid" by (simp add: orderEntityKey_def)
  have keys: "st' (buildListCacheKey ns_ordersList v q) = st (buildListCacheKey ns_ordersList v q)"
    "st' (buildCountCacheKey ns_ordersList v q) = st (buildCountCacheKey ns_ordersList v q)" for v q
    using first_field[OF ns(2) no_colon_ordersList ns(1)] unfolding listKey_fields countKey_fields
    by (intro agree, simp only: field, metis)+
  have version: "st' (namespaceVersionKey ns_ordersList) = st (namespaceVersionKey ns_ordersList)"
    by (rule agree) (rule orderEntityKey_others(1)[THEN not_sym])
  then have cv: "lists_version st' = lists_version st" by (simp add: current_version_def)
  have "entities_coherent st' d"
    using assms(1) agree assms(2) unfolding coherent_def entities_coherent_def by (metis orderEntityKey_others(4))
  moreover have "ns_fresh st' ns_ordersList"
    using assms(1) unfolding coherent_def ns_fresh_def cv keys version by simp
  ultimately show ?thesis
    using assms(1) by (simp add: coherent_def pages_coherent_def counts_coherent_def cv list_page_key_def count_page_key_def keys)
qed

lemma keeps_pg_entity:
  "keeps pg (entityCacheRead S cfg options)" "keeps pg (entityCacheWrite S cfg options v)"
  unfolding entityCacheRead_def entityCacheWrite_def
  by (auto intro!: keeps_intros simp del: io_return_apply split: option.split)

text \<open>Without faults of the database a read leaves it alone.\<close>

lemma get_order_keeps_pg:
  assumes "pg_script (pg s) = []" and "get_order S cfg issues oid user s = (out, t)"
  shows "pg t = pg s"
proof (cases "orderIdParamsSchema oid \<and> user \<noteq> None")
  case False
  with assms(2) show ?thesis by (auto simp: get_order_def split: if_splits)
next
  case True
  then obtain u where u: "orderIdParamsSchema oid" "user = Some u" by blast
  let ?options = "\<lparr>ec_key = orderEntityKey oid, ec_namespace = ns_order, ec_ttlSeconds = None\<rparr>"
  obtain c s1 where cached: "withEntityCache S cfg ?options (fetch_order oid) s = (c, s1)" by fastforce
  have "pg s1 = pg s"
  proof (cases "cacheEnabled cfg")
    case False
    with cached fetch_order_run[OF assms(1)] show ?thesis by (simp add: withEntityCache_def)
  next
    case True
    obtain r s2 where read: "entityCacheRead S cfg ?options s = (Inr r, s2)"
      using never_throwsD[OF entityCacheRead_never_throws] by blast
    have s2: "pg s2 = pg s" using keepsD[OF keeps_pg_entity(1) read] .
    show ?thesis
    proof (cases r)
      case (Some v)
      with cached read s2 True show ?thesis by (simp add: withEntityCache_def io_bind_apply)
    next
      case None
      have fetched: "fetch_order oid s2 = (Inr (map_option order_body (find_order oid (committed (pg s2)))), s2)"
        using fetch_order_run[of s2] assms(1) s2 by simp
      show ?thesis
      proof (cases "find_order oid (committed (pg s2))")
        case None
        with cached read s2 True \<open>r = None\<close> fetched show ?thesis by (simp add: withEntityCache_def io_bind_apply)
      next
        case (Some row)
        obtain s3 where written: "entityCacheWrite S cfg ?options (order_body row) s2 = (Inr (), s3)"
          using never_throwsD[OF entityCacheWrite_never_throws] by fastforce
        have "pg s3 = pg s2" using keepsD[OF keeps_pg_entity(2) written] .
        with cached read s2 True \<open>r = None\<close> fetched Some written show ?thesis by (simp add: withEntityCache_def io_bind_apply)
      qed
    qed
  qed
  with assms(2) u cached show ?thesis
    by (auto simp: get_order_some io_bind_apply split: sum.splits option.splits if_splits)
qed

lemma get_spec_answer:
  "(case map_option order_body found of
      None \<Rightarrow> io_return order_not_found
    | Some body \<Rightarrow>
        if falsy body then io_return order_not_found
        else (case json_prop ''order'' body of
                None \<Rightarrow> io_throw no_property
              | Some ord \<Rightarrow>
                  if ord = JNull then io_throw no_property
                  else if json_prop ''user_id'' ord \<noteq> Some (JStr (user_id u)) then io_return order_not_found
                  else io_return \<lparr>resp_status = 200, resp_body = body\<rparr>)) s =
   (Inr (case found of
      None \<Rightarrow> order_not_found
    | Some row \<Rightarrow> if o_user_id row = user_id u then \<lparr>resp_status = 200, resp_body = order_body row\<rparr> else order_not_found), s)"
  by (cases found) simp_all

context redis_prompt
begin

lemma entity_cache_coherent:
  assumes on: "cache_on cfg limit" and ok: "coherent T (store (ext s)) d" and quiet: "pg_script (pg s) = []"
    and d: "committed (pg s) = d" and oid: "uuid_in oid = oid"
  shows "\<exists>t. withEntityCache S cfg \<lparr>ec_key = orderEntityKey oid, ec_namespace = ns_order, ec_ttlSeconds = None\<rparr> (fetch_order oid) s =
      (Inr (map_option order_body (find_order oid d)), t) \<and> coherent T (store (ext t)) d"
proof -
  let ?options = "\<lparr>ec_key = orderEntityKey oid, ec_namespace = ns_order, ec_ttlSeconds = None\<rparr>"
  have cfg: "cacheEnabled cfg" "cacheTimeoutMs cfg = limit" using on by (simp_all add: cache_on_def)
  have ttl: "0 < (case ec_ttlSeconds ?options of None \<Rightarrow> cacheTtlSeconds cfg | Some t \<Rightarrow> t)" using on by (simp add: cache_on_def)
  have fetched: "fetch_order oid (s\<lparr>ext := e\<rparr>) = (Inr (map_option order_body (find_order oid d)), s\<lparr>ext := e\<rparr>)" for e
    using fetch_order_run[of "s\<lparr>ext := e\<rparr>"] quiet d by simp
  show ?thesis
  proof (cases "store (ext s) (orderEntityKey oid)")
    case (Some w)
    with ok oid obtain row where row: "find_order oid d = Some row" "w = JSON_stringify (order_body row)"
      unfolding coherent_def entities_coherent_def by blast
    have parsed: "JSON_parse w = Some (order_body row)" using row(2) by (simp add: JSON_parse_stringify)
    have "store (ext s) (ec_key ?options) = Some w" using Some by simp
    from withEntityCache_hit[OF cfg this parsed, of "fetch_order oid"] row ok show ?thesis by auto
  next
    case None
    then have none: "store (ext s) (ec_key ?options) = None" by simp
    obtain e1 where e1: "store e1 = store (ext s)"
      and missing: "\<And>s2. fetch_order oid (s\<lparr>ext := e1\<rparr>) = (Inr None, s2) \<Longrightarrow> withEntityCache S cfg ?options (fetch_order oid) s = (Inr None, s2)"
      and found: "\<And>v s2. fetch_order oid (s\<lparr>ext := e1\<rparr>) = (Inr (Some v), s2) \<Longrightarrow> \<exists>e'. withEntityCache S cfg ?options (fetch_order oid) s =
         (Inr (Some v), s2\<lparr>ext := e', reply_headers := (reply_headers s2)(''X-Cache'' \<mapsto> ''MISS'')\<rparr>) \<and>
       store e' = (store (ext s2))(ec_key ?options \<mapsto> JSON_stringify v)"
      using withEntityCache_miss[OF cfg ttl none, of "fetch_order oid"] by blast
    show ?thesis
    proof (cases "find_order oid d")
      case None
      with missing[of "s\<lparr>ext := e1\<rparr>"] fetched e1 ok show ?thesis by simp
    next
      case (Some row)
      with found[of "order_body row" "s\<lparr>ext := e1\<rparr>"] fetched obtain e' where
        "withEntityCache S cfg ?options (fetch_order oid) s = (Inr (Some (order_body row)),
          s\<lparr>ext := e', reply_headers := (reply_headers s)(''X-Cache'' \<mapsto> ''MISS'')\<rparr>)"
        "store e' = (store (ext s))(orderEntityKey oid \<mapsto> JSON_stringify (order_body row))"
        using e1 by auto
      with Some coherent_entity_write[OF ok Some] show ?thesis by simp
    qed
  qed
qed

lemma get_order_coherent:
  assumes on: "cache_on cfg limit" and ok: "coherent T (store (ext s)) d" and quiet: "pg_script (pg s) = []"
    and d: "committed (pg s) = d" and run: "get_order S cfg issues oid user s = (out, t)"
  shows "coherent T (store (ext t)) d"
    and "uuid_in oid = oid \<Longrightarrow> orderIdParamsSchema oid \<Longrightarrow> user = Some u \<Longrightarrow> out = Inr (get_spec d oid u)"
proof -
  have answer: "out = Inr (get_spec d oid u) \<and> coherent T (store (ext t)) d"
    if u: "uuid_in oid = oid" "orderIdParamsSchema oid" "user = Some u" for u
  proof -
    obtain t' where t': "withEntityCache S cfg \<lparr>ec_key = orderEntityKey oid, ec_namespace = ns_order, ec_ttlSeconds = None\<rparr> (fetch_order oid) s =
      (Inr (map_option order_body (find_order oid d)), t')" "coherent T (store (ext t')) d"
      using entity_cache_coherent[OF on ok quiet d u(1)] by blast
    have "get_order S cfg issues oid (Some u) s = (Inr (get_spec d oid u), t')"
      unfolding get_order_some[OF u(2)] io_bind_ok[where m = "withEntityCache _ _ _ _", OF t'(1)] get_spec_answer
      by (simp add: get_spec_def)
    with run u(3) t'(2) show ?thesis by simp
  qed
  then show "uuid_in oid = oid \<Longrightarrow> orderIdParamsSchema oid \<Longrightarrow> user = Some u \<Longrightarrow> out = Inr (get_spec d oid u)" by simp
  show "coherent T (store (ext t)) d"
  proof (cases "uuid_in oid = oid")
    case True
    show ?thesis
    proof (cases "orderIdParamsSchema oid \<and> user \<noteq> None")
      case False
      with run ok show ?thesis by (auto simp: get_order_def split: if_splits)
    next
      case True
      with answer \<open>uuid_in oid = oid\<close> show ?thesis by auto
    qed
  next
    case False
    show ?thesis
      by (rule coherent_other_spelling[OF ok False]) (rule keepsD[OF get_order_keeps_store run])
  qed
qed

end

section \<open>Reading a list\<close>

context redis_prompt
begin

abbreviation page_options :: "list_orders_query \<Rightarrow> string \<Rightarrow> list_cache_options" where
  "page_options q u \<equiv> \<lparr>lc_namespace = ns_ordersList, lc_query = list_cache_query q u, lc_ttlSeconds = None\<rparr>"

abbreviation count_options :: "list_orders_query \<Rightarrow> string \<Rightarrow> list_cache_options" where
  "count_options q u \<equiv> \<lparr>lc_namespace = ns_ordersList, lc_query = count_cache_query q u, lc_ttlSeconds = None\<rparr>"

lemma options_keys:
  "list_key_at st (page_options q u) = list_page_key (lists_version st) q u"
  "count_key_at st (count_options q u) = count_page_key (lists_version st) q u"
  by (simp_all add: list_key_at_def list_page_key_def count_key_at_def count_page_key_def)

lemma count_cache_coherent:
  assumes on: "cache_on cfg limit" and T: "times_ok T" and ok: "coherent T (store (ext s)) d" and quiet: "pg_script (pg s) = []"
    and d: "committed (pg s) = d" and q: "query_wf T q" "u \<noteq> ''*''"
  shows "\<exists>r t. withCountCache S cfg (count_options q u) (on_pg (pg_pool (select_count T q u))) s = (r, t) \<and> pg t = pg s \<and>
    coherent T (store (ext t)) d \<and> lists_version (store (ext t)) = lists_version (store (ext s)) \<and>
    (if params_readable T q then r = Inr (int (length (own_orders T q u d))) else r = Inl (param_error q)) \<and>
    (\<forall>q' u'. store (ext t) (list_page_key (lists_version (store (ext s))) q' u') = store (ext s) (list_page_key (lists_version (store (ext s))) q' u'))"
proof -
  let ?n = "int (length (own_orders T q u d))"
  have cfg: "cacheEnabled cfg" "cacheTimeoutMs cfg = limit" using on by (simp_all add: cache_on_def)
  have ttl: "0 < (case lc_ttlSeconds (count_options q u) of None \<Rightarrow> cacheListCountTtlSeconds cfg | Some t \<Rightarrow> t)"
    using on by (simp add: cache_on_def)
  let ?fetch = "on_pg (pg_pool (select_count T q u))"
  have fetched: "?fetch (s\<lparr>ext := e\<rparr>) = (if params_readable T q then Inr ?n else Inl (param_error q), s\<lparr>ext := e\<rparr>)" for e
    using pool_run[of "s\<lparr>ext := e\<rparr>" "select_count T q u" ?n] pool_refused[of "s\<lparr>ext := e\<rparr>" "select_count T q u" "param_error q"] quiet
    by (simp add: d select_count_def own_orders_length)
  show ?thesis
  proof (cases "store (ext s) (count_page_key (lists_version (store (ext s))) q u)")
    case (Some w)
    with ok q have w: "params_readable T q" "w = int_to_string ?n" unfolding coherent_def counts_coherent_def by blast+
    have "store (ext s) (count_key_at (store (ext s)) (count_options q u)) = Some (int_to_string ?n)"
      using Some w(2) by (simp only: options_keys)
    from withCountCache_hit[OF cfg this, of ?fetch] obtain e' where
      "withCountCache S cfg (count_options q u) ?fetch s = (Inr ?n, s\<lparr>ext := e'\<rparr>)" "store e' = store (ext s)" by auto
    with w ok show ?thesis by (intro exI[of _ "Inr ?n"] exI[of _ "s\<lparr>ext := e'\<rparr>"]) simp
  next
    case None
    then have none: "store (ext s) (count_key_at (store (ext s)) (count_options q u)) = None" by (simp only: options_keys)
    obtain e1 where e1: "store e1 = store (ext s)"
      and failed: "\<And>e s2. ?fetch (s\<lparr>ext := e1\<rparr>) = (Inl e, s2) \<Longrightarrow> withCountCache S cfg (count_options q u) ?fetch s = (Inl e, s2)"
      and found: "\<And>n s2. ?fetch (s\<lparr>ext := e1\<rparr>) = (Inr n, s2) \<Longrightarrow> \<exists>e'. withCountCache S cfg (count_options q u) ?fetch s = (Inr n, s2\<lparr>ext := e'\<rparr>) \<and>
        store e' = (store (ext s2))(count_key_at (store (ext s)) (count_options q u) \<mapsto> int_to_string n)"
      using withCountCache_miss[OF cfg ttl none, of ?fetch] by blast
    show ?thesis
    proof (cases "params_readable T q")
      case False
      with failed[of "param_error q" "s\<lparr>ext := e1\<rparr>"] fetched[of e1] e1 ok show ?thesis
        by (intro exI[of _ "Inl (param_error q)"] exI[of _ "s\<lparr>ext := e1\<rparr>"]) simp
    next
      case True
      with found[of ?n "s\<lparr>ext := e1\<rparr>"] fetched[of e1] e1 obtain e' where e':
        "withCountCache S cfg (count_options q u) ?fetch s = (Inr ?n, s\<lparr>ext := e'\<rparr>)"
        "store e' = (store (ext s))(count_page_key (lists_version (store (ext s))) q u \<mapsto> int_to_string ?n)"
        by (auto simp: options_keys)
      have "coherent T (store e') d" "lists_version (store e') = lists_version (store (ext s))"
        unfolding e'(2) lists_version_upd by (rule coherent_count_write[OF T ok q True], rule refl)
      moreover have "store e' (list_page_key v q' u') = store (ext s) (list_page_key v q' u')" for v q' u'
        by (simp add: e'(2) page_keys_others)
      ultimately show ?thesis using e'(1) True
        by (intro exI[of _ "Inr ?n"] exI[of _ "s\<lparr>ext := e'\<rparr>"]) simp
    qed
  qed
qed

lemma fetch_page_coherent:
  assumes on: "cache_on cfg limit" and T: "times_ok T" and ok: "coherent T (store (ext s)) d" and quiet: "pg_script (pg s) = []"
    and d: "committed (pg s) = d" and q: "query_wf T q" "u \<noteq> ''*''"
  shows "\<exists>r t. fetchOrdersPage S cfg T q u s = (r, t) \<and> pg t = pg s \<and>
    coherent T (store (ext t)) d \<and> lists_version (store (ext t)) = lists_version (store (ext s)) \<and>
    (if page_ready T q then r = Inr (resp_body (list_reply T q u d)) else \<exists>e. r = Inl e)"
proof -
  let ?rows = "page_rows (own_orders T q u d) (lq_params q)"
  have "\<exists>x. on_pg (pg_pool (select_page T q u)) s = (x, s) \<and> (if page_ready T q then x = Inr ?rows else \<exists>e. x = Inl e)"
  proof (cases "page_ready T q")
    case True
    then show ?thesis
      using pool_run[OF quiet, of "select_page T q u" ?rows] by (simp add: select_page_def page_ready_def d own_orders_def)
  next
    case False
    then obtain e where "select_page T q u (db_now (pg s)) (committed (pg s)) = Inl e"
      by (cases "params_readable T q") (auto simp: select_page_def page_ready_def)
    from pool_refused[where stmt = "select_page T q u", OF quiet this] False show ?thesis by simp
  qed
  then obtain x where x: "on_pg (pg_pool (select_page T q u)) s = (x, s)"
    "if page_ready T q then x = Inr ?rows else \<exists>e. x = Inl e" by blast
  obtain r t where t: "withCountCache S cfg (count_options q u) (on_pg (pg_pool (select_count T q u))) s = (r, t)"
    "pg t = pg s" "coherent T (store (ext t)) d" "lists_version (store (ext t)) = lists_version (store (ext s))"
    "if params_readable T q then r = Inr (int (length (own_orders T q u d))) else r = Inl (param_error q)"
    using count_cache_coherent[OF on T ok quiet d q] by blast
  have "\<exists>r. fetchOrdersPage S cfg T q u s = (r, t) \<and>
    (if page_ready T q then r = Inr (resp_body (list_reply T q u d)) else \<exists>e. r = Inl e)"
    using x t(1,5) by (auto simp: fetchOrdersPage_def io_all2_def io_bind_apply page_ready_def list_reply_def split: if_splits)
  with t(2-4) show ?thesis by blast
qed

lemma list_orders_coherent:
  assumes on: "cache_on cfg limit" and T: "times_ok T" and ok: "coherent T (store (ext s)) d" and quiet: "pg_script (pg s) = []"
    and d: "committed (pg s) = d" and u: "user_id u \<noteq> ''*''" and schema: "listOrdersQuerySchema T raw = Some q"
  shows "\<exists>r t. list_orders S cfg T issues raw (Some u) s = (r, t) \<and> pg t = pg s \<and> coherent T (store (ext t)) d \<and>
    (if page_ready T q then r = Inr (list_reply T q (user_id u) d) else \<exists>e. r = Inl e)"
proof -
  note q = listOrdersQuerySchema_wf[OF schema]
  let ?u = "user_id u" let ?fetch = "fetchOrdersPage S cfg T q ?u" let ?body = "resp_body (list_reply T q ?u d)"
  have cfg: "cacheEnabled cfg" "cacheTimeoutMs cfg = limit" using on by (simp_all add: cache_on_def)
  have ttl: "0 < (case lc_ttlSeconds (page_options q ?u) of None \<Rightarrow> cacheTtlSeconds cfg | Some t \<Rightarrow> t)"
    using on by (simp add: cache_on_def)
  have "\<exists>r t. withListCache S cfg (page_options q ?u) ?fetch s = (r, t) \<and> pg t = pg s \<and> coherent T (store (ext t)) d \<and>
    (if page_ready T q then r = Inr ?body else \<exists>e. r = Inl e)"
  proof (cases "store (ext s) (list_page_key (lists_version (store (ext s))) q ?u)")
    case (Some w)
    with ok q u have w: "page_ready T q" "w = JSON_stringify ?body" unfolding coherent_def pages_coherent_def by blast+
    have "JSON_parse w = Some ?body" unfolding w(2) by (rule JSON_parse_stringify) (simp add: list_reply_def)
    moreover have "store (ext s) (list_key_at (store (ext s)) (page_options q ?u)) = Some w" using Some by (simp only: options_keys)
    ultimately show ?thesis using withListCache_hit[OF cfg, of s "page_options q ?u" w ?body ?fetch] w(1) ok by auto
  next
    case None
    then have none: "store (ext s) (list_key_at (store (ext s)) (page_options q ?u)) = None" by (simp only: options_keys)
    obtain e1 where e1: "store e1 = store (ext s)"
      and failed: "\<And>e s2. ?fetch (s\<lparr>ext := e1\<rparr>) = (Inl e, s2) \<Longrightarrow> withListCache S cfg (page_options q ?u) ?fetch s = (Inl e, s2)"
      and found: "\<And>v s2. ?fetch (s\<lparr>ext := e1\<rparr>) = (Inr v, s2) \<Longrightarrow> \<exists>e'. withListCache S cfg (page_options q ?u) ?fetch s =
          (Inr v, s2\<lparr>ext := e', reply_headers := (reply_headers s2)(''X-Cache'' \<mapsto> ''MISS'')\<rparr>) \<and>
        store e' = (store (ext s2))(list_key_at (store (ext s)) (page_options q ?u) \<mapsto> JSON_stringify v)"
      using withListCache_miss[OF cfg ttl none, of ?fetch] by blast
    have ok1: "coherent T (store (ext (s\<lparr>ext := e1\<rparr>))) d" "pg_script (pg (s\<lparr>ext := e1\<rparr>)) = []" "committed (pg (s\<lparr>ext := e1\<rparr>)) = d"
      using ok e1 quiet d by simp_all
    obtain r t where t: "?fetch (s\<lparr>ext := e1\<rparr>) = (r, t)" "pg t = pg s" "coherent T (store (ext t)) d"
      "lists_version (store (ext t)) = lists_version (store (ext s))" "if page_ready T q then r = Inr ?body else \<exists>e. r = Inl e"
      using fetch_page_coherent[OF on T ok1 q u] e1 by auto
    show ?thesis
    proof (cases "page_ready T q")
      case False
      with t(5) obtain e where "r = Inl e" by auto
      with failed[of e t] t False show ?thesis by auto
    next
      case True
      with t(5) have "r = Inr ?body" by simp
      with found[of ?body t] t(1) obtain e' where e':
        "withListCache S cfg (page_options q ?u) ?fetch s = (Inr ?body, t\<lparr>ext := e', reply_headers := (reply_headers t)(''X-Cache'' \<mapsto> ''MISS'')\<rparr>)"
        "store e' = (store (ext t))(list_page_key (lists_version (store (ext t))) q ?u \<mapsto> JSON_stringify ?body)"
        using t(4) by (auto simp: options_keys)
      have "coherent T (store e') d" unfolding e'(2) by (rule coherent_page_write[OF T t(3) q u True])
      with e'(1) t(2) True show ?thesis by auto
    qed
  qed
  then show ?thesis using schema
    by (auto simp: list_orders_def io_bind_apply list_reply_def split: if_splits)
qed

end

end
