(* ===== verification/Cache_Transparency.thy ===== *)
theory Cache_Transparency
  imports Cache_Coherence
begin

text \<open>
  The writing handlers keep the caches coherent, and with it the reads of every calm history
  (Redis answers in time, no faults of the database, ids in the form the service hands them out)
  answer what they would answer with the cache switched off.
\<close>

section \<open>Creating and changing orders\<close>

lemma find_append: "find P (xs @ ys) = (case find P xs of None \<Rightarrow> find P ys | Some x \<Rightarrow> Some x)"
  by (induction xs) auto

lemma forgets_entity: "forgets st (st(orderEntityKey oid := None))"
  using orderEntityKey_others(1)[THEN not_sym] by (auto simp: forgets_def)

lemma find_order_added: "find_order oid d = Some r \<Longrightarrow> find_order oid (order_added d row ev ob) = Some r"
  by (simp add: find_order_def order_added_def find_append)

lemma find_unchanged:
  "oid \<noteq> oid' \<Longrightarrow> find (\<lambda>row. o_id row = oid) (map (\<lambda>row. if o_id row = oid' then row\<lparr>o_status := st, o_updated_at := now\<rparr> else row) rows) =
     find (\<lambda>row. o_id row = oid) rows"
  by (induction rows) auto

lemma status_changed_other:
  "status_changed oid' actor frm to now d d' \<Longrightarrow> uuid_in oid = oid \<Longrightarrow> oid \<noteq> oid' \<Longrightarrow> find_order oid d' = find_order oid d"
  by (auto simp: status_changed_def find_order_def find_unchanged)

context redis_prompt
begin

lemma bump_coherent_wp:
  assumes "cache_on cfg limit" and "ns_fresh (store (ext t)) ns_ordersList"
  shows "wp (invalidateListNamespace S cfg ns_ordersList)
    (\<lambda>u t'. pg t' = pg t \<and> store (ext t') = (store (ext t))(namespaceVersionKey ns_ordersList \<mapsto> int_to_string (lists_version (store (ext t)) + 1)))
    (\<lambda>e t'. False) t"
proof -
  have cfg: "cacheEnabled cfg" "cacheTimeoutMs cfg = limit" using assms(1) by (simp_all add: cache_on_def)
  from invalidateListNamespace_eval[OF cfg page_ns_ordersList assms(2)] show ?thesis by (auto simp: wp_def)
qed

lemma create_coherent:
  fixes s :: "('a, 'm) app_state_scheme"
  assumes on: "cache_on cfg limit" and ok: "coherent T (store (ext s)) (committed (pg s))" and quiet: "pg_script (pg s) = []"
    and run: "createOrderTransactionally S cfg uuid request userId dat s = (out, t)"
  shows "pg_script (pg t) = [] \<and> coherent T (store (ext t)) (committed (pg t))"
proof -
  let ?bumped = "(store (ext s))(namespaceVersionKey ns_ordersList \<mapsto> int_to_string (lists_version (store (ext s)) + 1))"
  have fresh: "ns_fresh (store (ext s)) ns_ordersList" using ok by (simp add: coherent_def)
  have "wp (invalidateListNamespace S cfg ns_ordersList) (\<lambda>u t'. pg t' = pg t \<and> store (ext t') = ?bumped) (\<lambda>e t'. False) t"
    if "ext t = ext s" for t :: "('a, 'm) app_state_scheme"
    using bump_coherent_wp[OF on, of t] that fresh by simp
  note effect = wp_outcome[OF createOrder_effect[where B = "\<lambda>e. store e = ?bumped", OF this] run]
  show ?thesis
  proof (cases out)
    case (Inl e)
    with effect quiet ok show ?thesis by simp
  next
    case (Inr r)
    with effect quiet obtain row ev ob where d': "committed (pg t) = order_added (committed (pg s)) row ev ob"
      and st: "store (ext t) = ?bumped" "pg_script (pg t) = []" by (auto simp: created_def)
    have "coherent T (store (ext t)) (committed (pg t))"
    proof (rule coherent_bump[OF ok _ st(1)])
      show "forgets (store (ext s)) (store (ext s))" by (simp add: forgets_def)
      fix oid assume "uuid_in oid = oid" "store (ext s) (orderEntityKey oid) \<noteq> None"
      with ok obtain r where "find_order oid (committed (pg s)) = Some r"
        unfolding coherent_def entities_coherent_def by blast
      with find_order_added show "find_order oid (committed (pg t)) = find_order oid (committed (pg s))"
        unfolding d' by metis
    qed
    with st show ?thesis by simp
  qed
qed

lemma both_invalidated_wp:
  assumes "cache_on cfg limit" and "ns_fresh (store (ext t)) ns_ordersList"
  shows "wp (io_bind (invalidateEntity S cfg (orderEntityKey oid) ns_order) (\<lambda>u. invalidateListNamespace S cfg ns_ordersList))
    (\<lambda>u t'. pg t' = pg t \<and> store (ext t') = ((store (ext t))(orderEntityKey oid := None))
       (namespaceVersionKey ns_ordersList \<mapsto> int_to_string (lists_version (store (ext t)) + 1)))
    (\<lambda>e t'. False) t"
proof -
  have cfg: "cacheEnabled cfg" "cacheTimeoutMs cfg = limit" using assms(1) by (simp_all add: cache_on_def)
  obtain e' where e': "invalidateEntity S cfg (orderEntityKey oid) ns_order t = (Inr (), t\<lparr>ext := e'\<rparr>)"
    "store e' = (store (ext t))(orderEntityKey oid := None)"
    using invalidateEntity_eval[OF cfg, of "orderEntityKey oid" ns_order t] by blast
  have "forgets (store (ext t)) (store e')"
    unfolding e'(2) by (rule forgets_entity)
  then have "ns_fresh (store (ext (t\<lparr>ext := e'\<rparr>))) ns_ordersList" using ns_fresh_forgets assms(2) by simp
  from bump_coherent_wp[OF assms(1) this] show ?thesis
    unfolding wp_bind by (simp add: wp_def e' lists_version_upd)
qed

lemma patch_coherent:
  fixes s :: "('a, 'm) app_state_scheme"
  assumes on: "cache_on cfg limit" and ok: "coherent T (store (ext s)) (committed (pg s))" and quiet: "pg_script (pg s) = []"
    and oid: "uuid_in oid = oid" and run: "patch_order S cfg uuid issues oid user body s = (out, t)"
  shows "pg_script (pg t) = [] \<and> coherent T (store (ext t)) (committed (pg t))"
proof (cases "orderIdParamsSchema oid \<and> patchOrderSchema body \<noteq> None \<and> user \<noteq> None")
  case False
  with run quiet ok show ?thesis by (auto simp: patch_order_def split: if_splits option.splits)
next
  case True
  then obtain target u where cs: "orderIdParamsSchema oid" "patchOrderSchema body = Some target" "user = Some u" by blast
  let ?gone = "(store (ext s))(orderEntityKey oid := None)"
  let ?left = "?gone(namespaceVersionKey ns_ordersList \<mapsto> int_to_string (lists_version (store (ext s)) + 1))"
  let ?d = "committed (pg s)"
  have fresh: "ns_fresh (store (ext s)) ns_ordersList" using ok by (simp add: coherent_def)
  have inval: "wp (io_bind (invalidateEntity S cfg (orderEntityKey oid) ns_order) (\<lambda>u. invalidateListNamespace S cfg ns_ordersList))
      (\<lambda>u t'. pg t' = pg t \<and> store (ext t') = ?left) (\<lambda>e t'. False) t"
    if "ext t = ext s" for t :: "('a, 'm) app_state_scheme"
    using both_invalidated_wp[OF on, of t] that fresh by simp
  have run': "patch_order S cfg uuid issues oid (Some u) body s = (out, t)" using run cs(3) by simp
  note effect = wp_outcome[OF patch_order_effect[where B = "\<lambda>e. store e = ?left" and quiet = True,
        OF cs(1,2) refl refl refl _ inval] run']
  show ?thesis
  proof (cases out)
    case (Inl e)
    with effect quiet ok show ?thesis by simp
  next
    case (Inr r)
    with effect quiet have spec: "patch_spec ?d (db_now (pg s)) oid u target r (committed (pg t))"
      and fin: "ext t = ext s \<and> committed (pg t) = ?d \<or> store (ext t) = ?left" "pg_script (pg t) = []" by auto
    have "coherent T (store (ext t)) (committed (pg t))" if left: "store (ext t) = ?left"
    proof (rule coherent_bump[OF ok, of ?gone])
      show "forgets (store (ext s)) ?gone" by (rule forgets_entity)
      show "store (ext t) = ?gone(namespaceVersionKey ns_ordersList \<mapsto> int_to_string (lists_version ?gone + 1))"
        by (simp add: left lists_version_upd)
      fix oid' assume "uuid_in oid' = oid'" "?gone (orderEntityKey oid') \<noteq> None"
      then have "uuid_in oid' = oid'" "oid' \<noteq> oid" by (auto simp: orderEntityKey_others(4) split: if_splits)
      with spec oid status_changed_other[of oid _ _ _ _ ?d "committed (pg t)" oid']
      show "find_order oid' (committed (pg t)) = find_order oid' ?d"
        by (auto simp: patch_spec_def split: option.splits if_splits)
    qed
    with fin ok show ?thesis by auto
  qed
qed

end

section \<open>Calm histories\<close>

text \<open>
  Reads of any user, in any spelling of an id; writes with ids in the form of the service; entries
  that expire, and other services that leave the orders alone.
\<close>

inductive calm_traffic for S :: "'e services" and store :: "'e \<Rightarrow> kv" and T and cfg where
  start: "pg_script (pg s) = [] \<Longrightarrow> coherent T (store (ext s)) (committed (pg s)) \<Longrightarrow> calm_traffic S store T cfg s"
| lists: "calm_traffic S store T cfg s \<Longrightarrow> user_id u \<noteq> ''*'' \<Longrightarrow>
    list_orders S cfg T issues raw (Some u) s = (out, t) \<Longrightarrow> calm_traffic S store T cfg t"
| gets: "calm_traffic S store T cfg s \<Longrightarrow> get_order S cfg issues oid user s = (out, t) \<Longrightarrow> calm_traffic S store T cfg t"
| creates: "calm_traffic S store T cfg s \<Longrightarrow>
    createOrderTransactionally S cfg uuid request userId dat s = (out, t) \<Longrightarrow> calm_traffic S store T cfg t"
| patches: "calm_traffic S store T cfg s \<Longrightarrow> uuid_in oid = oid \<Longrightarrow>
    patch_order S cfg uuid issues oid user body s = (out, t) \<Longrightarrow> calm_traffic S store T cfg t"
| others: "calm_traffic S store T cfg s \<Longrightarrow> forgets (store (ext s)) (store (ext t)) \<Longrightarrow>
    orders (committed (pg t)) = orders (committed (pg s)) \<Longrightarrow> pg_script (pg t) = [] \<Longrightarrow> calm_traffic S store T cfg t"

lemma coherent_orders:
  "orders d' = orders d \<Longrightarrow> coherent T st d' = coherent T st d"
  by (simp add: coherent_def entities_coherent_def pages_coherent_def counts_coherent_def find_order_def own_orders_def list_reply_def)

lemma calm_traffic_coherent:
  assumes redis: "redis_prompt S store limit" and on: "cache_on cfg limit" and T: "times_ok T" and "calm_traffic S store T cfg s"
  shows "pg_script (pg s) = [] \<and> coherent T (store (ext s)) (committed (pg s))"
  using assms(4)
proof induction
  case (lists s u issues raw out t)
  then have s: "pg_script (pg s) = []" "coherent T (store (ext s)) (committed (pg s))" by simp_all
  show ?case
  proof (cases "listOrdersQuerySchema T raw")
    case None
    with lists s show ?thesis by (simp add: list_orders_def)
  next
    case (Some q)
    from redis_prompt.list_orders_coherent[OF redis on T s(2,1) refl lists.hyps(2) Some, of issues] lists.hyps(3) s
    show ?thesis by auto
  qed
next
  case (gets s issues oid user out t)
  then have s: "pg_script (pg s) = []" "coherent T (store (ext s)) (committed (pg s))" by simp_all
  from get_order_keeps_pg[OF s(1) gets.hyps(2)] redis_prompt.get_order_coherent(1)[OF redis on s(2,1) refl gets.hyps(2)] s
  show ?case by simp
next
  case (creates s uuid request userId dat out t)
  then show ?case using redis_prompt.create_coherent[OF redis on] by blast
next
  case (patches s oid uuid issues user body out t)
  then show ?case using redis_prompt.patch_coherent[OF redis on] by blast
next
  case (others s t)
  then show ?case using coherent_forgets coherent_orders by metis
qed simp

text \<open>C14: The caches are transparent in calm traffic: the handlers of the orders run one after the other, Redis
  answers in time, the database does not fail, and orders are changed under their id in the form the
  service hands out (lower case, with hyphens). After any such history \<open>GET /v1/orders\<close>, and
  \<open>GET /v1/orders/:id\<close> with an id of that form, answer with the caches on what they answer with the
  caches off: no entry of an order under that form, no list page and no count is stale. (Handlers
  that overlap, and ids in another form, have stale reads: \<open>Order_Properties\<close> and the next section.
  The user id \<open>*\<close>, which no account has, is left out because it is the mark of an absent value in keys.)\<close>

theorem cache_is_transparent:
  assumes redis: "redis_prompt S store limit" and on: "cache_on cfg limit" and T: "times_ok T" and calm: "calm_traffic S store T cfg s"
    and u: "user_id u \<noteq> ''*''"
  shows "(uuid_in oid = oid \<longrightarrow> fst (get_order S cfg issues oid (Some u) s) =
           fst (get_order S (cfg\<lparr>cacheEnabled := False\<rparr>) issues oid (Some u) s)) \<and>
    fst (with_error_handler (list_orders S cfg T issues raw (Some u)) s) =
      fst (with_error_handler (list_orders S (cfg\<lparr>cacheEnabled := False\<rparr>) T issues raw (Some u)) s)"
proof (intro conjI impI)
  let ?off = "cfg\<lparr>cacheEnabled := False\<rparr>"
  from calm_traffic_coherent[OF redis on T calm] have s: "pg_script (pg s) = []" "coherent T (store (ext s)) (committed (pg s))" by simp_all
  show "fst (get_order S cfg issues oid (Some u) s) = fst (get_order S ?off issues oid (Some u) s)" if oid: "uuid_in oid = oid"
  proof (cases "orderIdParamsSchema oid")
    case False
    then show ?thesis by (simp add: get_order_def)
  next
    case True
    obtain out t where run: "get_order S cfg issues oid (Some u) s = (out, t)" by fastforce
    have "out = Inr (get_spec (committed (pg s)) oid u)"
      by (rule redis_prompt.get_order_coherent(2)[OF redis on s(2,1) refl run oid True refl])
    moreover have "fst (get_order S ?off issues oid (Some u) s) = Inr (get_spec (committed (pg s)) oid u)"
      using fetch_order_run[OF s(1), of oid]
      by (simp add: get_order_some[OF True] withEntityCache_def io_bind_apply get_spec_def split: option.split)
    ultimately show ?thesis using run by simp
  qed
  show "fst (with_error_handler (list_orders S cfg T issues raw (Some u)) s) =
      fst (with_error_handler (list_orders S ?off T issues raw (Some u)) s)"
  proof (cases "listOrdersQuerySchema T raw")
    case None
    then show ?thesis by (simp add: list_orders_def)
  next
    case (Some q)
    from redis_prompt.list_orders_coherent[OF redis on T s(2,1) refl u Some, of issues]
    obtain r t where run: "list_orders S cfg T issues raw (Some u) s = (r, t)"
      "if page_ready T q then r = Inr (list_reply T q (user_id u) (committed (pg s))) else \<exists>e. r = Inl e" by blast
    have "fst (list_orders S ?off T issues raw (Some u) s) = Inr (list_reply T q (user_id u) (committed (pg s)))" if "page_ready T q"
      using list_orders_answer[OF _ s(1) Some, of ?off S issues u] that by (simp add: page_ready_def)
    moreover have "\<exists>e. fst (list_orders S ?off T issues raw (Some u) s) = Inl e" if no: "\<not> page_ready T q"
    proof -
      obtain e where "select_page T q (user_id u) (db_now (pg s)) (committed (pg s)) = Inl e"
        using no by (cases "params_readable T q") (auto simp: select_page_def page_ready_def)
      from pool_refused[where stmt = "select_page T q (user_id u)", OF s(1) this] show ?thesis
        unfolding list_orders_uncached[of ?off, OF _ Some, simplified]
        by (auto simp: fetchOrdersPage_def io_all2_def io_bind_apply split: prod.split)
    qed
    ultimately show ?thesis
      using run by (cases "page_ready T q") (auto simp: with_error_handler_def io_catch_apply split: prod.splits sum.splits)
  qed
qed

section \<open>A read that overlaps a write\<close>

lemma entity_read_absent:
  assumes "redis_prompt S store (cacheTimeoutMs cfg)" and "store (ext s) (ec_key options) = None"
  shows "\<exists>e. entityCacheRead S cfg options s = (Inr None, s\<lparr>ext := e\<rparr>) \<and> store e = store (ext s)"
proof -
  obtain e where "cacheGet S cfg (ec_key options) s = (Inr (store (ext s) (ec_key options)), s\<lparr>ext := e\<rparr>)" "store e = store (ext s)"
    by (rule redis_prompt.cacheGet_eval[OF assms(1) refl])
  with assms(2) show ?thesis by (intro exI[of _ e]) (simp add: entityCacheRead_def io_catch_apply io_bind_apply)
qed

text \<open>A \<open>PATCH\<close> that changes the status and is answered: the tables and the keys it leaves.\<close>

lemma answered_patch:
  fixes s :: "('e, 'm) app_state_scheme"
  assumes redis: "redis_prompt S store limit" and on: "cache_on cfg limit" and quiet: "pg_script (pg s) = []"
    and fresh: "ns_fresh (store (ext s)) ns_ordersList" and oid: "orderIdParamsSchema oid"
    and found: "find_order oid (committed (pg s)) = Some old" and owner: "o_user_id old = user_id u"
    and target: "patchOrderSchema body = Some target" "isAllowedOrderStatusTransition (o_status old) target" "target \<noteq> o_status old"
    and run: "patch_order S cfg uuid issues oid (Some u) body s = (Inr r, t)"
  shows "resp_status r = 200" and "store (ext t) (orderEntityKey oid) = None" and "pg_script (pg t) = []"
    and "find_order oid (committed (pg t)) = Some (old\<lparr>o_status := target, o_updated_at := db_now (pg s)\<rparr>)"
proof -
  let ?left = "((store (ext s))(orderEntityKey oid := None))
       (namespaceVersionKey ns_ordersList \<mapsto> int_to_string (current_version (store (ext s)) ns_ordersList + 1))"
  have inval: "wp (io_bind (invalidateEntity S cfg (orderEntityKey oid) ns_order) (\<lambda>u. invalidateListNamespace S cfg ns_ordersList))
      (\<lambda>u t'. pg t' = pg t \<and> store (ext t') = ?left) (\<lambda>e t'. False) t"
    if "ext t = ext s" for t :: "('e, 'm) app_state_scheme"
    using redis_prompt.both_invalidated_wp[OF redis on, of t] that fresh by simp
  have effect: "patch_spec (committed (pg s)) (db_now (pg s)) oid u target r (committed (pg t)) \<and>
      (ext t = ext s \<and> committed (pg t) = committed (pg s) \<or> store (ext t) = ?left) \<and> pg_script (pg t) = []"
    using wp_outcome[OF patch_order_effect[where B = "\<lambda>e. store e = ?left" and quiet = True, OF oid target(1) refl refl refl _ inval] run]
      quiet by simp
  then have r: "r = order_reply (Some (old\<lparr>o_status := target, o_updated_at := db_now (pg s)\<rparr>))"
    and changed: "status_changed (uuid_in oid) (user_id u) (o_status old) target (db_now (pg s)) (committed (pg s)) (committed (pg t))"
    using found owner target(2,3) by (auto simp: patch_spec_def)
  show "resp_status r = 200" by (simp add: r order_reply_def)
  show "pg_script (pg t) = []" using effect by simp
  show "find_order oid (committed (pg t)) = Some (old\<lparr>o_status := target, o_updated_at := db_now (pg s)\<rparr>)"
    using changed find_order_updated[where oid = oid and d = "committed (pg s)" and to = target and now = "db_now (pg s)"] found
    by (auto simp: status_changed_def find_order_def)
  have "order_events (committed (pg t)) \<noteq> order_events (committed (pg s))" using changed by (auto simp: status_changed_def)
  with effect have "store (ext t) = ?left" by auto
  then show "store (ext t) (orderEntityKey oid) = None" using orderEntityKey_others(1)[of oid ns_ordersList] by simp
qed

text \<open>C15: A read that overlaps a write leaves a stale entry. The order of the caller is not cached; his \<open>GET\<close> misses,
  reads the row and would answer it and store it. If a \<open>PATCH\<close> to another allowed status is answered
  before the \<open>GET\<close> stores its entry, the \<open>PATCH\<close> answers 200 and has deleted the entry, but the \<open>GET\<close>
  then stores the old row: a later \<open>GET\<close> answers the old row, where without the cache it answers the
  row with the new status.\<close>

theorem overlapping_read_caches_stale_order:
  fixes s0 :: "('e, 'm) app_state_scheme"
  assumes redis: "redis_prompt S store (cacheTimeoutMs cfg)" and on: "cache_on cfg (cacheTimeoutMs cfg)"
    and quiet: "pg_script (pg s0) = []" and fresh: "ns_fresh (store (ext s0)) ns_ordersList"
    and oid: "orderIdParamsSchema oid" and found: "find_order oid (committed (pg s0)) = Some old"
    and owner: "o_user_id old = user_id u" and absent: "store (ext s0) (orderEntityKey oid) = None"
    and target: "patchOrderSchema body = Some target" "isAllowedOrderStatusTransition (o_status old) target" "target \<noteq> o_status old"
    and options: "options = \<lparr>ec_key = orderEntityKey oid, ec_namespace = ns_order, ec_ttlSeconds = None\<rparr>"
  shows "\<exists>s1 s2. entityCacheRead S cfg options s0 = (Inr None, s1) \<and> fetch_order oid s1 = (Inr (Some (order_body old)), s2) \<and>
    (\<exists>t. entityCacheWrite S cfg options (order_body old) s2 = (Inr (), t) \<and>
      get_order S cfg issues oid (Some u) s0 = (Inr \<lparr>resp_status = 200, resp_body = order_body old\<rparr>, t)) \<and>
    (\<forall>r s3. patch_order S cfg uuid issues oid (Some u) body s2 = (Inr r, s3) \<longrightarrow>
      resp_status r = 200 \<and> store (ext s3) (orderEntityKey oid) = None \<and>
      (\<exists>s4 t. entityCacheWrite S cfg options (order_body old) s3 = (Inr (), s4) \<and>
        get_order S cfg issues oid (Some u) s4 = (Inr \<lparr>resp_status = 200, resp_body = order_body old\<rparr>, t) \<and>
        get_order S (cfg\<lparr>cacheEnabled := False\<rparr>) issues oid (Some u) s4 =
          (Inr \<lparr>resp_status = 200, resp_body = order_body (old\<lparr>o_status := target, o_updated_at := db_now (pg s0)\<rparr>)\<rparr>, s4)))"
proof -
  have cfg: "cacheEnabled cfg" using on by (simp add: cache_on_def)
  have ttl: "0 < (case ec_ttlSeconds options of None \<Rightarrow> cacheTtlSeconds cfg | Some t \<Rightarrow> t)"
    using on by (simp add: cache_on_def options)
  obtain e where read: "entityCacheRead S cfg options s0 = (Inr None, s0\<lparr>ext := e\<rparr>)" and same: "store e = store (ext s0)"
    using entity_read_absent[OF redis, of s0 options] absent by (auto simp: options)
  let ?s = "s0\<lparr>ext := e\<rparr>"
  have fetched: "fetch_order oid ?s = (Inr (Some (order_body old)), ?s)"
    using fetch_order_run[of ?s oid] quiet found by simp
  obtain t where written: "entityCacheWrite S cfg options (order_body old) ?s = (Inr (), t)"
    using never_throwsD[OF entityCacheWrite_never_throws] by fastforce
  have alone: "get_order S cfg issues oid (Some u) s0 = (Inr \<lparr>resp_status = 200, resp_body = order_body old\<rparr>, t)"
    using cfg read fetched written owner
    by (simp add: get_order_some[OF oid] withEntityCache_def io_bind_apply options)
  have "resp_status r = 200 \<and> store (ext s3) (orderEntityKey oid) = None \<and>
      (\<exists>s4 t. entityCacheWrite S cfg options (order_body old) s3 = (Inr (), s4) \<and>
        get_order S cfg issues oid (Some u) s4 = (Inr \<lparr>resp_status = 200, resp_body = order_body old\<rparr>, t) \<and>
        get_order S (cfg\<lparr>cacheEnabled := False\<rparr>) issues oid (Some u) s4 =
          (Inr \<lparr>resp_status = 200, resp_body = order_body (old\<lparr>o_status := target, o_updated_at := db_now (pg s0)\<rparr>)\<rparr>, s4))"
    if run: "patch_order S cfg uuid issues oid (Some u) body ?s = (Inr r, s3)" for r s3
  proof -
    have "pg_script (pg ?s) = []" "ns_fresh (store (ext ?s)) ns_ordersList" "find_order oid (committed (pg ?s)) = Some old"
      using quiet fresh found same by simp_all
    from answered_patch[OF redis on this(1,2) oid this(3) owner target run] have patched: "resp_status r = 200"
      "store (ext s3) (orderEntityKey oid) = None" "pg_script (pg s3) = []"
      "find_order oid (committed (pg s3)) = Some (old\<lparr>o_status := target, o_updated_at := db_now (pg s0)\<rparr>)" by simp_all
    obtain e' where w: "entityCacheWrite S cfg options (order_body old) s3 =
         (Inr (), s3\<lparr>ext := e', reply_headers := (reply_headers s3)(''X-Cache'' \<mapsto> ''MISS'')\<rparr>)"
      "store e' = (store (ext s3))(ec_key options \<mapsto> JSON_stringify (order_body old))"
      by (rule redis_prompt.entityCacheWrite_eval[OF redis refl ttl])
    let ?s4 = "s3\<lparr>ext := e', reply_headers := (reply_headers s3)(''X-Cache'' \<mapsto> ''MISS'')\<rparr>"
    have "store (ext ?s4) (orderEntityKey oid) = Some (JSON_stringify (order_body old))" by (simp add: w(2) options)
    from get_order_hit[OF redis cfg oid this owner] obtain t' where
      "get_order S cfg issues oid (Some u) ?s4 = (Inr \<lparr>resp_status = 200, resp_body = order_body old\<rparr>, t')" by blast
    moreover have "get_order S (cfg\<lparr>cacheEnabled := False\<rparr>) issues oid (Some u) ?s4 = (Inr (get_spec (committed (pg ?s4)) oid u), ?s4)"
      by (rule get_order_reads_database[OF _ _ oid]) (simp_all add: patched(3))
    ultimately show ?thesis using patched w(1) owner by (auto simp: get_spec_def)
  qed
  with read fetched written alone show ?thesis by blast
qed

section \<open>Witnesses\<close>

lemma demo_cache_on: "cache_on demo_config (cacheTimeoutMs demo_config)"
  by (simp add: cache_on_def demo_config_def)

lemma demo_times_ok: "times_ok demo_times"
  by (simp add: times_ok_def demo_times_def)

lemma empty_coherent: "coherent T (\<lambda>_. None) d"
  by (simp add: coherent_def ns_fresh_def entities_coherent_def pages_coherent_def counts_coherent_def)

text \<open>The second list of a user is answered from the cache, with the order of the database.\<close>

theorem cache_is_transparent_witness:
  "\<exists>r t. list_orders stub_services demo_config demo_times (\<lambda>j. []) (JObj []) (Some demo_user) two_users = (r, t) \<and>
     fst (with_error_handler (list_orders stub_services demo_config demo_times (\<lambda>j. []) (JObj []) (Some demo_user)) t) =
       Inr (list_reply demo_times first_page ''u1'' (committed (pg two_users)))"
proof -
  have u: "user_id demo_user \<noteq> ''*''" by (simp add: demo_user_def)
  have ok: "coherent demo_times ((\<lambda>m. m) (ext two_users)) (committed (pg two_users))" by (simp add: empty_coherent)
  obtain r t where run: "list_orders stub_services demo_config demo_times (\<lambda>j. []) (JObj []) (Some demo_user) two_users = (r, t)"
    "pg t = pg two_users"
    using redis_prompt.list_orders_coherent[OF stub.redis_prompt_axioms demo_cache_on demo_times_ok ok two_users_pg(1) refl u demo_query, of "\<lambda>j. []"]
    by blast
  have "calm_traffic stub_services (\<lambda>m. m) demo_times demo_config two_users"
    by (rule calm_traffic.start) (simp_all add: empty_coherent)
  from calm_traffic.lists[OF this u run(1)] have calm: "calm_traffic stub_services (\<lambda>m. m) demo_times demo_config t" .
  have "list_orders stub_services uncached demo_times (\<lambda>j. []) (JObj []) (Some demo_user) t =
      (Inr (list_reply demo_times first_page ''u1'' (committed (pg two_users))), t)"
    using list_orders_answer[of uncached t, OF _ _ demo_query demo_readable, of stub_services "\<lambda>j. []" demo_user] run(2)
    by (simp add: demo_user_def)
  with cache_is_transparent[OF stub.redis_prompt_axioms demo_cache_on demo_times_ok calm u, where raw = "JObj []" and issues = "\<lambda>j. []"]
  show ?thesis using run(1) by (intro exI[of _ r] exI[of _ t]) (simp add: with_error_handler_def io_catch_apply)
qed

text \<open>The order is confirmed while it is being read: the entry says \<open>pending\<close>, the table \<open>confirmed\<close>.\<close>

lemma stocked_state: "pg_script (pg stocked) = []" "orders (committed (pg stocked)) = [demo_row]"
  "ext stocked (orderEntityKey demo_id) = None"
  using demo_uuids(3) by (simp_all add: stocked_def demo_world_def cached_at_def orderEntityKey_others(4))

lemma stocked_fresh: "ns_fresh (ext stocked) ns_ordersList"
proof -
  have "find_order demo_id_upper (demo_database\<lparr>orders := [demo_row]\<rparr>) = Some demo_row"
    by (simp add: find_order_def demo_uuids demo_row_def)
  from coherent_entity_write[OF empty_coherent this] have "coherent demo_times (ext stocked) (demo_database\<lparr>orders := [demo_row]\<rparr>)"
    by (simp add: stocked_def cached_at_def)
  then show ?thesis by (simp add: coherent_def)
qed

theorem overlapping_read_caches_stale_order_witness:
  "\<exists>(s4 :: kv app_state) t row. get_order stub_services demo_config (\<lambda>j. []) demo_id (Some demo_user) s4 =
       (Inr \<lparr>resp_status = 200, resp_body = order_body demo_row\<rparr>, t) \<and> o_status demo_row = Pending \<and>
     get_order stub_services (demo_config\<lparr>cacheEnabled := False\<rparr>) (\<lambda>j. []) demo_id (Some demo_user) s4 =
       (Inr \<lparr>resp_status = 200, resp_body = order_body row\<rparr>, s4) \<and> o_status row = Confirmed"
proof -
  let ?options = "\<lparr>ec_key = orderEntityKey demo_id, ec_namespace = ns_order, ec_ttlSeconds = None\<rparr>"
  let ?body = "JObj [(''status'', JStr ''confirmed'')]"
  have miss: "entityCacheRead stub_services demo_config ?options stocked = (Inr None, stocked)"
    by (simp add: entityCacheRead_def cacheGet_def withTimeout_def ext_call_def stub_defs stocked_state io_catch_apply
        io_bind_apply demo_config_def timer_ms_def)
  have found: "find_order demo_id (committed (pg stocked)) = Some demo_row"
    by (simp add: find_order_def stocked_state demo_uuids demo_row_def)
  have fetched: "fetch_order demo_id stocked = (Inr (Some (order_body demo_row)), stocked)"
    using fetch_order_run[OF stocked_state(1), of demo_id] found by simp
  obtain r s3 where patched: "patch_order stub_services demo_config demo_uuid (\<lambda>j. []) demo_id (Some demo_user) ?body stocked = (Inr r, s3)"
    using stocked_patch by (metis prod.collapse)
  have body: "patchOrderSchema ?body = Some Confirmed" using parse_status_name[of Confirmed] by (simp add: patchOrderSchema_def)
  have own: "o_user_id demo_row = user_id demo_user" and step: "isAllowedOrderStatusTransition (o_status demo_row) Confirmed"
    "Confirmed \<noteq> o_status demo_row" and pending: "o_status demo_row = Pending"
    by (simp_all add: demo_row_def demo_user_def isAllowedOrderStatusTransition_def)
  from overlapping_read_caches_stale_order[where store = "\<lambda>m. m" and cfg = demo_config and ?s0.0 = stocked,
      OF stub.redis_prompt_axioms demo_cache_on stocked_state(1) stocked_fresh demo_id_ok found own
      stocked_state(3) body step refl, of "\<lambda>j. []" demo_uuid] miss fetched patched
  show ?thesis by (elim exE conjE) (simp add: pending, fastforce)
qed

end
