(* ===== verification/Migration_Laws.thy ===== *)
theory Migration_Laws
  imports Migrations
begin

text \<open>
  What the migration runner does to the database. \<open>migrated\<close> is the abstract effect of a list
  of migrations, each file's SQL followed by its row; the lemmas show that a run leaves
  the effect of a prefix of the pending files, whatever fails, and that runs compose.
\<close>

section \<open>The abstract effect\<close>

definition migrated_once :: "('s, 'm) runner_env_scheme \<Rightarrow> int \<Rightarrow> migration \<Rightarrow> 's migration_db \<Rightarrow> js_error + 's migration_db" where
  "migrated_once R now m d =
     res_bind (run_content R (mg_content m) now d) (\<lambda>(u, d1).
     res_bind (record_migration m now d1) (\<lambda>(u, d2). Inr d2))"

fun migrated :: "('s, 'm) runner_env_scheme \<Rightarrow> int \<Rightarrow> migration list \<Rightarrow> 's migration_db \<Rightarrow> js_error + 's migration_db" where
  "migrated R now [] d = Inr d"
| "migrated R now (m # ms) d = res_bind (migrated_once R now m d) (migrated R now ms)"

definition rows_of :: "'s migration_db \<Rightarrow> migration_row list" where
  "rows_of d = (case schema_migrations d of None \<Rightarrow> [] | Some rows \<Rightarrow> rows)"

definition with_table :: "'s migration_db \<Rightarrow> 's migration_db" where
  "with_table d = d\<lparr>schema_migrations := Some (rows_of d)\<rparr>"

definition recorded :: "'s migration_db \<Rightarrow> string \<rightharpoonup> string" where
  "recorded d = map_of (map (\<lambda>r. (sm_version r, sm_checksum r)) (rows_of d))"

text \<open>The primary key of the table.\<close>

definition pk_ok :: "'s migration_db \<Rightarrow> bool" where
  "pk_ok d = distinct (map sm_version (rows_of d))"

lemma with_table_simps [simp]:
  "schema (with_table d) = schema d" "rows_of (with_table d) = rows_of d"
  "schema_migrations (with_table d) = Some (rows_of d)" "recorded (with_table d) = recorded d"
  "pk_ok (with_table d) = pk_ok d" "with_table (with_table d) = with_table d"
  by (simp_all add: with_table_def rows_of_def recorded_def pk_ok_def)

lemma with_table_present: "schema_migrations d = Some rows \<Longrightarrow> with_table d = d"
  by (simp add: with_table_def rows_of_def)

lemma recorded_None: "recorded d v = None \<longleftrightarrow> v \<notin> sm_version ` set (rows_of d)"
  by (force simp: recorded_def map_of_eq_None_iff)

lemma migrated_once_Inr:
  "migrated_once R now m d = Inr d' \<longleftrightarrow>
     (\<exists>rows s. schema_migrations d = Some rows \<and> run_sql R (mg_content m) (schema d) = Inr s \<and>
        d' = d\<lparr>schema := s, schema_migrations := Some (upsert_row m now rows)\<rparr>)"
  by (auto simp: migrated_once_def run_content_def record_migration_def split: sum.splits option.splits)

lemma migrated_append:
  "migrated R now (xs @ ys) d = res_bind (migrated R now xs d) (migrated R now ys)"
proof (induction xs arbitrary: d)
  case (Cons x xs)
  then show ?case by (cases "migrated_once R now x d") simp_all
qed simp

section \<open>One migration, then a list\<close>

definition still :: "'d pg_world \<Rightarrow> 'd pg_world \<Rightarrow> bool" where
  "still w w' \<longleftrightarrow> db_now w' = db_now w \<and> (pg_script w = [] \<longrightarrow> pg_script w' = [])"

lemma still_refl [simp]: "still w w"
  by (simp add: still_def)

lemma still_trans: "still w w' \<Longrightarrow> still w' w'' \<Longrightarrow> still w w''"
  by (simp add: still_def)

lemma pg_same_still: "pg_same w w' \<Longrightarrow> still w w' \<and> committed w' = committed w"
  by (simp add: pg_same_def still_def)

lemma pg_same_committed: "pg_same (w\<lparr>committed := d\<rparr>) w' \<Longrightarrow> still w w' \<and> committed w' = d"
  by (simp add: pg_same_def still_def)

text \<open>The handler of an error rolls back and exits; a failed rollback is an error of its own.\<close>

lemma rollback_and_exit:
  assumes "\<And>w'. pg_same w w' \<Longrightarrow> conn w' = Idle \<Longrightarrow> Q Exited w'"
    and "\<And>e w'. pg_same w w' \<Longrightarrow> pg_script w \<noteq> [] \<Longrightarrow> E e w'"
  shows "wp (io_bind pg_rollback (\<lambda>u. io_return Exited)) Q E w"
  unfolding wp_simps by (rule pg_rollback_rule) (simp_all add: assms)

lemma apply_migration_rule:
  assumes idle: "conn w = Idle"
    and ok: "\<And>w'. migrated_once R (db_now w) m (committed w) = Inr (committed w') \<Longrightarrow> still w w' \<Longrightarrow>
      conn w' = Idle \<Longrightarrow> Q Finished w'"
    and exits: "\<And>w'. committed w' = committed w \<or> migrated_once R (db_now w) m (committed w) = Inr (committed w') \<Longrightarrow>
      still w w' \<Longrightarrow> conn w' = Idle \<Longrightarrow> pg_script w \<noteq> [] \<or> committed w' = committed w \<and>
      (\<exists>e. migrated_once R (db_now w) m (committed w) = Inl e) \<Longrightarrow> Q Exited w'"
    and throws: "\<And>e w'. committed w' = committed w \<or> migrated_once R (db_now w) m (committed w) = Inr (committed w') \<Longrightarrow>
      still w w' \<Longrightarrow> pg_script w \<noteq> [] \<Longrightarrow> E e w'"
  shows "wp (apply_migration R m) Q E w"
proof -
  define d where "d = committed w"
  define now where "now = db_now w"
  define once where "once = migrated_once R now m d"
  have failed: "wp (io_bind pg_rollback (\<lambda>u. io_return Exited)) Q E w'"
    if "still w w'" and "committed w' = d \<or> once = Inr (committed w')"
      and "pg_script w \<noteq> [] \<or> committed w' = d \<and> (\<exists>e. once = Inl e)" for w'
    by (rule rollback_and_exit; rule exits throws)
      (use that in \<open>auto simp: pg_same_def still_def once_def now_def d_def\<close>)
  show ?thesis
    unfolding apply_migration_def wp_simps
  proof (rule pg_begin_rule[OF idle])
    fix w1 assume 1: "pg_same w w1" "conn w1 = InTxn (committed w)"
    note s1 = pg_same_still[OF 1(1)]
    show "wp (pg_run (run_content R (mg_content m)))
      (\<lambda>a. wp (pg_run (record_migration m)) (\<lambda>a. wp pg_commit (\<lambda>a. Q Finished) (\<lambda>e. wp pg_rollback (\<lambda>a. Q Exited) E))
        (\<lambda>e. wp pg_rollback (\<lambda>a. Q Exited) E)) (\<lambda>e. wp pg_rollback (\<lambda>a. Q Exited) E) w1"
    proof (rule pg_run_txn_rule[OF 1(2)])
      fix a d1 w2 assume 2: "run_content R (mg_content m) (db_now w1) (committed w) = Inr (a, d1)"
        "pg_same w1 w2" "conn w2 = InTxn d1"
      have s2: "still w w2" "committed w2 = d" using s1 pg_same_still[OF 2(2)] by (auto simp: d_def intro: still_trans)
      have once2: "once = res_bind (record_migration m now d1) (\<lambda>(u, d2). Inr d2)"
        using 2(1) s1 by (simp add: once_def migrated_once_def now_def d_def still_def)
      show "wp (pg_run (record_migration m)) (\<lambda>a. wp pg_commit (\<lambda>a. Q Finished) (\<lambda>e. wp pg_rollback (\<lambda>a. Q Exited) E))
        (\<lambda>e. wp pg_rollback (\<lambda>a. Q Exited) E) w2"
      proof (rule pg_run_txn_rule[OF 2(3)])
        fix b d2 w3 assume 3: "record_migration m (db_now w2) d1 = Inr (b, d2)" "pg_same w2 w3" "conn w3 = InTxn d2"
        have s3: "still w w3" "committed w3 = d" using s2 pg_same_still[OF 3(2)] by (auto intro: still_trans)
        have once3: "once = Inr d2" using 3(1) s2 once2 by (simp add: now_def still_def)
        show "wp pg_commit (\<lambda>a. Q Finished) (\<lambda>e. wp pg_rollback (\<lambda>a. Q Exited) E) w3"
        proof (rule pg_commit_rule[OF 3(3)])
          fix w4 assume 4: "pg_same (w3\<lparr>committed := d2\<rparr>) w4" "conn w4 = Idle"
          with s3 pg_same_committed[OF 4(1)] once3 show "Q Finished w4"
            by (intro ok) (auto simp: once_def now_def d_def intro: still_trans)
        next
          fix e w4 assume 4: "pg_same (w3\<lparr>committed := d2\<rparr>) w4 \<or> pg_same w3 w4" "conn w4 = Idle" "pg_script w3 \<noteq> []"
          have "still w w4" "committed w4 = d2 \<or> committed w4 = d"
            using 4(1) s3 pg_same_committed[of d2 w3 w4] pg_same_still[of w3 w4] by (auto intro: still_trans)
          moreover have "pg_script w \<noteq> []" using s3(1) 4(3) by (auto simp: still_def)
          ultimately have "wp (io_bind pg_rollback (\<lambda>u. io_return Exited)) Q E w4"
            using once3 by (intro failed) auto
          then show "wp pg_rollback (\<lambda>a. Q Exited) E w4" by (simp add: wp_simps)
        qed
      next
        fix e w3 assume 3: "pg_same w2 w3" "pg_script w2 \<noteq> [] \<or> record_migration m (db_now w2) d1 = Inl e"
        have "still w w3" "committed w3 = d" using s2 pg_same_still[OF 3(1)] by (auto intro: still_trans)
        moreover have "pg_script w \<noteq> [] \<or> once = Inl e" using 3(2) s2 once2 by (auto simp: still_def now_def)
        ultimately have "wp (io_bind pg_rollback (\<lambda>u. io_return Exited)) Q E w3" by (intro failed) auto
        then show "wp pg_rollback (\<lambda>a. Q Exited) E w3" by (simp add: wp_simps)
      qed
    next
      fix e w2 assume 2: "pg_same w1 w2" "pg_script w1 \<noteq> [] \<or> run_content R (mg_content m) (db_now w1) (committed w) = Inl e"
      have "still w w2" "committed w2 = d" using s1 pg_same_still[OF 2(1)] by (auto simp: d_def intro: still_trans)
      moreover have "pg_script w \<noteq> [] \<or> once = Inl e" using 2(2) s1
        by (auto simp: still_def now_def once_def migrated_once_def d_def)
      ultimately have "wp (io_bind pg_rollback (\<lambda>u. io_return Exited)) Q E w2" by (intro failed) auto
      then show "wp pg_rollback (\<lambda>a. Q Exited) E w2" by (simp add: wp_simps)
    qed
  next
    fix e w1 assume "pg_same w w1" "pg_script w \<noteq> []"
    then show "E e w1" using pg_same_still[of w w1] by (intro throws) auto
  qed
qed

text \<open>The list of the pending files: a prefix of it is applied, all of it if the loop ends.\<close>

definition prefix_applied where
  "prefix_applied R ms w w' k \<longleftrightarrow> k \<le> length ms \<and>
     migrated R (db_now w) (take k ms) (committed w) = Inr (committed w') \<and> still w w'"

lemma prefix_applied_0: "still w w' \<Longrightarrow> committed w' = committed w \<Longrightarrow> prefix_applied R ms w w' 0"
  by (simp add: prefix_applied_def)

lemma prefix_applied_1:
  "still w w' \<Longrightarrow> migrated_once R (db_now w) m (committed w) = Inr (committed w') \<Longrightarrow> prefix_applied R (m # ms) w w' 1"
  by (simp add: prefix_applied_def)

lemma prefix_applied_Suc:
  assumes "migrated_once R (db_now w) m (committed w) = Inr (committed w1)" and "still w w1"
    and "prefix_applied R ms w1 w' k"
  shows "prefix_applied R (m # ms) w w' (Suc k)"
  using assms by (auto simp: prefix_applied_def still_def)

lemma apply_pending_rule:
  assumes "conn w = Idle"
    and "\<And>w'. prefix_applied R ms w w' (length ms) \<Longrightarrow> Q Finished w'"
    and "\<And>k w'. prefix_applied R ms w w' k \<Longrightarrow>
      pg_script w \<noteq> [] \<or> (\<exists>e. migrated R (db_now w) ms (committed w) = Inl e) \<Longrightarrow> Q Exited w'"
    and "\<And>k e w'. prefix_applied R ms w w' k \<Longrightarrow> pg_script w \<noteq> [] \<Longrightarrow> E e w'"
  shows "wp (apply_pending R ms) Q E w"
  using assms
proof (induction ms arbitrary: w)
  case Nil
  show ?case unfolding apply_pending.simps wp_return by (rule Nil(2)) (simp add: prefix_applied_def)
next
  case (Cons m ms)
  let ?once = "migrated_once R (db_now w) m (committed w)"
  have first: "\<exists>k. prefix_applied R (m # ms) w w' k"
    if "committed w' = committed w \<or> ?once = Inr (committed w')" "still w w'" for w'
    using that prefix_applied_0[of w w'] prefix_applied_1[of w w'] by blast
  show ?case
    unfolding apply_pending.simps wp_bind
  proof (rule apply_migration_rule[OF Cons.prems(1)])
    fix w1 assume 1: "?once = Inr (committed w1)" "still w w1" "conn w1 = Idle"
    have "wp (apply_pending R ms) Q E w1"
    proof (rule Cons.IH[OF 1(3)])
      fix w' assume "prefix_applied R ms w1 w' (length ms)"
      from prefix_applied_Suc[OF 1(1,2) this] show "Q Finished w'" by (intro Cons.prems(2)) simp
    next
      fix k w' assume p: "prefix_applied R ms w1 w' k"
        and why: "pg_script w1 \<noteq> [] \<or> (\<exists>e. migrated R (db_now w1) ms (committed w1) = Inl e)"
      have "pg_script w \<noteq> [] \<or> (\<exists>e. migrated R (db_now w) (m # ms) (committed w) = Inl e)"
        using why 1(1,2) by (auto simp: still_def)
      with prefix_applied_Suc[OF 1(1,2) p] show "Q Exited w'" by (rule Cons.prems(3))
    next
      fix k e w' assume p: "prefix_applied R ms w1 w' k" and "pg_script w1 \<noteq> []"
      then have "pg_script w \<noteq> []" using 1(2) by (auto simp: still_def)
      with prefix_applied_Suc[OF 1(1,2) p] show "E e w'" by (rule Cons.prems(4))
    qed
    then show "wp (case Finished of Finished \<Rightarrow> apply_pending R ms | Exited \<Rightarrow> io_return Exited) Q E w1" by simp
  next
    fix w' assume 1: "committed w' = committed w \<or> ?once = Inr (committed w')" "still w w'"
      and why: "pg_script w \<noteq> [] \<or> committed w' = committed w \<and> (\<exists>e. ?once = Inl e)"
    from first[OF 1] why obtain k where "prefix_applied R (m # ms) w w' k" by blast
    moreover have "pg_script w \<noteq> [] \<or> (\<exists>e. migrated R (db_now w) (m # ms) (committed w) = Inl e)" using why by auto
    ultimately have "Q Exited w'" by (rule Cons.prems(3))
    then show "wp (case Exited of Finished \<Rightarrow> apply_pending R ms | Exited \<Rightarrow> io_return Exited) Q E w'"
      by (simp add: wp_simps)
  next
    fix e w' assume 1: "committed w' = committed w \<or> ?once = Inr (committed w')" "still w w'" "pg_script w \<noteq> []"
    from first[OF 1(1,2)] obtain k where "prefix_applied R (m # ms) w w' k" by blast
    then show "E e w'" using 1(3) by (rule Cons.prems(4))
  qed
qed

section \<open>The whole run\<close>

text \<open>A statement that commits by itself.\<close>

lemma pg_run_idle_rule:
  assumes idle: "conn w = Idle"
    and ok: "\<And>a d w'. stmt (db_now w) (committed w) = Inr (a, d) \<Longrightarrow> committed w' = d \<Longrightarrow> still w w' \<Longrightarrow> conn w' = Idle \<Longrightarrow> Q a w'"
    and err: "\<And>e w'. committed w' = committed w \<or> (\<exists>a. stmt (db_now w) (committed w) = Inr (a, committed w')) \<Longrightarrow> still w w' \<Longrightarrow>
      pg_script w \<noteq> [] \<or> stmt (db_now w) (committed w) = Inl e \<Longrightarrow> E e w'"
  shows "wp (pg_run stmt) Q E w"
proof -
  obtain f w1 where f: "next_fate w = (f, w1)" by (cases "next_fate w")
  from next_fate_same[OF f] have 1: "still w w1" "committed w1 = committed w" "conn w1 = Idle" "db_now w1 = db_now w"
    using idle pg_same_still[of w w1] by (auto simp: still_def)
  have upd: "still w (w1\<lparr>committed := d\<rparr>)" for d using 1(1) by (simp add: still_def)
  have no: "f \<noteq> PgOk \<Longrightarrow> pg_script w \<noteq> []" using f by (auto simp: next_fate_def)
  show ?thesis
    unfolding wp_def pg_run_def f
    using 1 upd no by (auto split: pg_fate.split sum.split intro!: ok err)
qed

lemma applied_map:
  assumes "pk_ok d"
  shows "map_of (rev (map (\<lambda>r. (sm_version r, sm_checksum r)) (sort_key sm_version (rows_of d)))) = recorded d"
  unfolding recorded_def
proof (rule map_of_inject_set[THEN iffD2])
  have "distinct (map sm_version (sort_key sm_version (rows_of d)))"
    using assms by (simp add: pk_ok_def distinct_map)
  then show "distinct (map fst (rev (map (\<lambda>r. (sm_version r, sm_checksum r)) (sort_key sm_version (rows_of d)))))"
    by (simp add: rev_map[symmetric] comp_def)
qed (use assms in \<open>simp_all add: pk_ok_def comp_def\<close>)

lemma getAppliedVersions_rule:
  assumes "conn w = Idle" and "pk_ok (committed w)"
    and "\<And>w'. committed w' = with_table (committed w) \<Longrightarrow> still w w' \<Longrightarrow> conn w' = Idle \<Longrightarrow> Q (recorded (committed w)) w'"
    and "\<And>e w'. committed w' = committed w \<or> committed w' = with_table (committed w) \<Longrightarrow> still w w' \<Longrightarrow>
      pg_script w \<noteq> [] \<Longrightarrow> E e w'"
  shows "wp getAppliedVersions Q E w"
proof -
  let ?T = "with_table (committed w)"
  have create: "create_migrations_table now (committed w) = Inr ((), ?T)" for now
    by (auto simp: create_migrations_table_def with_table_def rows_of_def split: option.split)
  have select: "select_versions now ?T = Inr (map (\<lambda>r. (sm_version r, sm_checksum r)) (sort_key sm_version (rows_of (committed w))), ?T)" for now
    by (simp add: select_versions_def)
  show ?thesis
    unfolding getAppliedVersions_def wp_simps
  proof (rule pg_run_idle_rule[OF assms(1)])
    fix a d w1 assume "create_migrations_table (db_now w) (committed w) = Inr (a, d)" "committed w1 = d"
      and 1: "still w w1" "conn w1 = Idle"
    then have T: "committed w1 = ?T" by (simp add: create)
    show "wp (pg_run select_versions) (\<lambda>rows. Q (map_of (rev rows))) E w1"
    proof (rule pg_run_idle_rule[OF 1(2)])
      fix rows d' w2 assume "select_versions (db_now w1) (committed w1) = Inr (rows, d')" "committed w2 = d'" "still w1 w2" "conn w2 = Idle"
      then show "Q (map_of (rev rows)) w2"
        using assms(3)[of w2] still_trans[OF 1(1), of w2] by (auto simp: T select applied_map[OF assms(2)])
    next
      fix e w2 assume 2: "committed w2 = committed w1 \<or> (\<exists>a. select_versions (db_now w1) (committed w1) = Inr (a, committed w2))"
        "still w1 w2" "pg_script w1 \<noteq> [] \<or> select_versions (db_now w1) (committed w1) = Inl e"
      then show "E e w2" using 1(1) still_trans[OF 1(1) 2(2)]
        by (intro assms(4)) (auto simp: T select still_def)
    qed
  next
    fix e w1 assume "committed w1 = committed w \<or> (\<exists>a. create_migrations_table (db_now w) (committed w) = Inr (a, committed w1))"
      "still w w1" "pg_script w \<noteq> [] \<or> create_migrations_table (db_now w) (committed w) = Inl e"
    then show "E e w1" by (intro assms(4)) (auto simp: create)
  qed
qed

text \<open>What a run may leave, given the files \<open>ms\<close>: the abbreviations of the next lemmas.\<close>

definition to_apply :: "migration list \<Rightarrow> 's migration_db \<Rightarrow> migration list" where
  "to_apply ms d = pending (recorded d) ms"

definition edited :: "migration list \<Rightarrow> 's migration_db \<Rightarrow> migration list" where
  "edited ms d = modified (recorded d) ms"

definition run_leaves where
  "run_leaves R ms w finished w' \<longleftrightarrow> still w w' \<and>
     (finished \<longrightarrow> edited ms (committed w) = [] \<and>
        migrated R (db_now w) (to_apply ms (committed w)) (with_table (committed w)) = Inr (committed w')) \<and>
     (edited ms (committed w) \<noteq> [] \<longrightarrow> committed w' \<in> {committed w, with_table (committed w)}) \<and>
     (committed w' = committed w \<or> (\<exists>k\<le>length (to_apply ms (committed w)).
        migrated R (db_now w) (take k (to_apply ms (committed w))) (with_table (committed w)) = Inr (committed w'))) \<and>
     (pg_script w = [] \<and> \<not> finished \<longrightarrow> edited ms (committed w) \<noteq> [] \<or>
        (\<exists>e. migrated R (db_now w) (to_apply ms (committed w)) (with_table (committed w)) = Inl e))"

lemma main_body_rule:
  assumes "conn w = Idle" and pk: "pk_ok (committed w)"
    and Q: "\<And>out w'. run_leaves R ms w (out = Finished) w' \<Longrightarrow> Q out w'"
    and E: "\<And>e w'. run_leaves R ms w False w' \<Longrightarrow> E e w'"
  shows "wp (main_body R ms) Q E w"
  unfolding main_body_def wp_bind
proof (rule getAppliedVersions_rule[OF assms(1) pk])
  fix w1 assume T: "committed w1 = with_table (committed w)" and 1: "still w w1" "conn w1 = Idle"
  have now: "db_now w1 = db_now w" and quiet: "pg_script w = [] \<Longrightarrow> pg_script w1 = []" using 1(1) by (auto simp: still_def)
  show "wp (if modified (recorded (committed w)) ms \<noteq> [] then io_return Exited
      else apply_pending R (pending (recorded (committed w)) ms)) Q E w1"
  proof (cases "edited ms (committed w) = []")
    case False
    then have "run_leaves R ms w False w1" using T 1(1) by (auto simp: run_leaves_def intro: exI[of _ 0])
    with False Q[of Exited w1] show ?thesis by (simp add: edited_def wp_return)
  next
    case True
    let ?P = "to_apply ms (committed w)"
    have leaves: "run_leaves R ms w fin w'"
      if "prefix_applied R ?P w1 w' k" and "fin \<Longrightarrow> k = length ?P"
        and "pg_script w \<noteq> [] \<or> fin \<or> (\<exists>e. migrated R (db_now w1) ?P (committed w1) = Inl e)" for fin w' k
      using that True 1(1) by (auto simp: run_leaves_def prefix_applied_def T now intro: still_trans)
    have "wp (apply_pending R ?P) Q E w1"
    proof (rule apply_pending_rule[OF 1(2)])
      fix w' assume "prefix_applied R ?P w1 w' (length ?P)"
      from leaves[OF this, of True] show "Q Finished w'" by (intro Q) simp
    next
      fix k w' assume "prefix_applied R ?P w1 w' k" "pg_script w1 \<noteq> [] \<or> (\<exists>e. migrated R (db_now w1) ?P (committed w1) = Inl e)"
      with leaves[of w' k False] quiet show "Q Exited w'" by (intro Q) auto
    next
      fix k e w' assume "prefix_applied R ?P w1 w' k" "pg_script w1 \<noteq> []"
      with leaves[of w' k False] quiet show "E e w'" by (intro E) auto
    qed
    with True show ?thesis by (simp add: edited_def to_apply_def)
  qed
next
  fix e w1 assume "committed w1 = committed w \<or> committed w1 = with_table (committed w)" "still w w1" "pg_script w \<noteq> []"
  then show "E e w1" by (intro E) (auto simp: run_leaves_def intro: exI[of _ 0])
qed

lemma wp_end_client:
  assumes "wp body (\<lambda>out w'. Q out (if out = Exited then w' else w'\<lparr>conn := Idle, clients_out := clients_out w' - 1\<rparr>))
    (\<lambda>e w'. E e (w'\<lparr>conn := Idle, clients_out := clients_out w' - 1\<rparr>)) w"
  shows "wp (end_client_unless_exited body) Q E w"
  using assms by (auto simp: wp_def end_client_unless_exited_def client_end_def split: prod.split sum.split)

lemma run_leaves_conn [simp]:
  "run_leaves R ms w fin (w'\<lparr>conn := c, clients_out := n\<rparr>) = run_leaves R ms w fin w'"
  "run_leaves R ms (w\<lparr>conn := c\<rparr>) fin w' = run_leaves R ms w fin w'"
  by (simp_all add: run_leaves_def still_def)

lemma migrate_leaves:
  assumes load: "loadMigrationFiles R = Inr ms" and ms: "ms \<noteq> []" and pk: "pk_ok (committed w)"
    and run: "migrate_process R w = (code, w')"
  shows "run_leaves R ms w (code = 0) w' \<and> (code = 0 \<or> code = 1)"
proof -
  have leaves: "run_leaves R ms w1 fin w2 \<Longrightarrow> run_leaves R ms w fin w2"
    if "pg_same (w\<lparr>clients_out := clients_out w + 1\<rparr>) w1" for w1 w2 fin
    using that by (auto simp: run_leaves_def pg_same_def still_def)
  have "wp (migrate R) (\<lambda>out w'. run_leaves R ms w (out = Finished) w') (\<lambda>e w'. run_leaves R ms w False w') w"
    unfolding migrate_def wp_simps wp_lift_result load sum.case using ms
  proof (simp, rule_tac pg_connect_rule)
    fix w1 assume 1: "pg_same (w\<lparr>clients_out := clients_out w + 1\<rparr>) w1" "conn w1 = Idle"
    then have pk1: "pk_ok (committed w1)" using pk by (simp add: pg_same_def)
    show "wp (end_client_unless_exited (main_body R ms)) (\<lambda>out w'. run_leaves R ms w (out = Finished) w')
      (\<lambda>e w'. run_leaves R ms w False w') w1"
      by (rule wp_end_client, rule main_body_rule[OF 1(2) pk1]) (auto intro: leaves[OF 1(1)])
  next
    fix e w1 assume "pg_same w w1" "pg_script w \<noteq> []"
    then show "run_leaves R ms w False w1" by (auto simp: run_leaves_def pg_same_def still_def)
  qed
  then show ?thesis using run
    by (auto simp: wp_def migrate_process_def exit_code_def split: prod.splits sum.splits run_outcome.splits)
qed

end
