(* ===== verification/Migration_Properties.thy ===== *)
theory Migration_Properties
  imports Migration_Laws
begin

text \<open>
  The properties of the migration runner: a run leaves the effect of whole files, a later run
  goes on where an interrupted one stopped, and two files with one version lock the runner.
\<close>

section \<open>The table after a run\<close>

lemma map_of_replace:
  "map_of (map (\<lambda>r. (k r, if k r = v then c else f r)) rows) x =
     (if x = v \<and> v \<in> k ` set rows then Some c else map_of (map (\<lambda>r. (k r, f r)) rows) x)"
  by (induction rows) auto

lemma recorded_once:
  assumes "migrated_once R now m d = Inr d'"
  shows "recorded d' = (recorded d)(mg_version m \<mapsto> mg_checksum m)" and "pk_ok d \<Longrightarrow> pk_ok d'"
    and "\<exists>rows. schema_migrations d' = Some rows"
proof -
  obtain rows s where rows: "schema_migrations d = Some rows"
    and d': "d' = d\<lparr>schema := s, schema_migrations := Some (upsert_row m now rows)\<rparr>"
    using assms by (auto simp: migrated_once_Inr)
  have here: "rows_of d = rows" "rows_of d' = upsert_row m now rows" by (simp_all add: rows_of_def rows d')
  show "recorded d' = (recorded d)(mg_version m \<mapsto> mg_checksum m)"
  proof (cases "mg_version m \<in> sm_version ` set rows")
    case True
    have "map (\<lambda>r. (sm_version r, sm_checksum r)) (upsert_row m now rows) =
      map (\<lambda>r. (sm_version r, if sm_version r = mg_version m then mg_checksum m else sm_checksum r)) rows"
      using True by (auto simp: upsert_row_def)
    then show ?thesis using True by (auto simp: recorded_def here map_of_replace)
  next
    case False
    then have "map_of (map (\<lambda>r. (sm_version r, sm_checksum r)) rows) (mg_version m) = None"
      by (simp add: map_of_eq_None_iff image_image)
    with False show ?thesis
      by (auto simp: recorded_def here upsert_row_def map_add_def fun_eq_iff split: option.split)
  qed
  show "pk_ok d'" if "pk_ok d"
  proof (cases "mg_version m \<in> sm_version ` set rows")
    case True
    have "map sm_version (upsert_row m now rows) = map sm_version rows" using True by (simp add: upsert_row_def)
    then show ?thesis using that by (simp add: pk_ok_def here)
  next
    case False
    then show ?thesis using that by (simp add: pk_ok_def here upsert_row_def)
  qed
  show "\<exists>rows. schema_migrations d' = Some rows" by (simp add: d')
qed

lemma migrated_Cons:
  "migrated R now (m # ms) d = Inr d' \<longleftrightarrow> (\<exists>d1. migrated_once R now m d = Inr d1 \<and> migrated R now ms d1 = Inr d')"
  by (cases "migrated_once R now m d") auto

lemma migrated_Inr_append:
  "migrated R now (xs @ ys) d = Inr d' \<longleftrightarrow> (\<exists>d1. migrated R now xs d = Inr d1 \<and> migrated R now ys d1 = Inr d')"
  by (cases "migrated R now xs d") (auto simp: migrated_append)

lemma recorded_migrated:
  assumes "migrated R now ms d = Inr d'"
  shows "v \<notin> mg_version ` set ms \<Longrightarrow> recorded d' v = recorded d v"
    and "v \<in> mg_version ` set ms \<Longrightarrow> \<exists>m\<in>set ms. mg_version m = v \<and> recorded d' v = Some (mg_checksum m)"
    and "pk_ok d \<Longrightarrow> pk_ok d'"
    and "schema_migrations d \<noteq> None \<Longrightarrow> with_table d' = d'"
proof -
  have "(v \<notin> mg_version ` set ms \<longrightarrow> recorded d' v = recorded d v) \<and>
    (v \<in> mg_version ` set ms \<longrightarrow> (\<exists>m\<in>set ms. mg_version m = v \<and> recorded d' v = Some (mg_checksum m))) \<and>
    (pk_ok d \<longrightarrow> pk_ok d') \<and> (schema_migrations d \<noteq> None \<longrightarrow> schema_migrations d' \<noteq> None)"
    using assms
  proof (induction ms arbitrary: d)
    case (Cons m ms)
    obtain d1 where 1: "migrated_once R now m d = Inr d1" "migrated R now ms d1 = Inr d'"
      using Cons.prems unfolding migrated_Cons by blast
    show ?case using Cons.IH[OF 1(2)] recorded_once[OF 1(1)]
      by (cases "v \<in> mg_version ` set ms") auto
  qed simp
  then show "v \<notin> mg_version ` set ms \<Longrightarrow> recorded d' v = recorded d v"
    and "v \<in> mg_version ` set ms \<Longrightarrow> \<exists>m\<in>set ms. mg_version m = v \<and> recorded d' v = Some (mg_checksum m)"
    and "pk_ok d \<Longrightarrow> pk_ok d'" and "schema_migrations d \<noteq> None \<Longrightarrow> with_table d' = d'"
    by (auto simp: with_table_present)
qed

section \<open>Times\<close>

text \<open>Two databases that differ in \<open>applied_at\<close> at most.\<close>

definition row_key :: "migration_row \<Rightarrow> string \<times> string \<times> string" where
  "row_key r = (sm_version r, sm_description r, sm_checksum r)"

definition same_but_times :: "'s migration_db \<Rightarrow> 's migration_db \<Rightarrow> bool" where
  "same_but_times d e \<longleftrightarrow> schema d = schema e \<and>
     map_option (map row_key) (schema_migrations d) = map_option (map row_key) (schema_migrations e)"

lemma upsert_row_key:
  "map row_key (upsert_row m now rows) =
     (if mg_version m \<in> fst ` set (map row_key rows)
      then map (\<lambda>(v, t, c). (v, t, if v = mg_version m then mg_checksum m else c)) (map row_key rows)
      else map row_key rows @ [(mg_version m, mg_description m, mg_checksum m)])"
  by (auto simp: upsert_row_def row_key_def image_image)

lemma migrated_times:
  assumes "same_but_times d e" and "migrated R now ms d = Inr d'"
  shows "\<exists>e'. migrated R now' ms e = Inr e' \<and> same_but_times d' e'"
  using assms
proof (induction ms arbitrary: d e)
  case (Cons m ms)
  obtain d1 where 1: "migrated_once R now m d = Inr d1" "migrated R now ms d1 = Inr d'"
    using Cons.prems(2) unfolding migrated_Cons by blast
  then obtain rows s where rows: "schema_migrations d = Some rows" "run_sql R (mg_content m) (schema d) = Inr s"
    and d1: "d1 = d\<lparr>schema := s, schema_migrations := Some (upsert_row m now rows)\<rparr>" by (auto simp: migrated_once_Inr)
  from Cons.prems(1) rows obtain rows' where rows': "schema_migrations e = Some rows'" "map row_key rows = map row_key rows'" "schema d = schema e"
    by (cases "schema_migrations e") (auto simp: same_but_times_def)
  let ?e1 = "e\<lparr>schema := s, schema_migrations := Some (upsert_row m now' rows')\<rparr>"
  have "migrated_once R now' m e = Inr ?e1" using rows rows' by (auto simp: migrated_once_Inr)
  moreover have "same_but_times d1 ?e1" by (simp add: same_but_times_def d1 upsert_row_key rows'(2))
  ultimately show ?case using Cons.IH[OF _ 1(2), of ?e1] unfolding migrated_Cons by blast
qed simp

section \<open>Going on after a run\<close>

lemma edited_none:
  "edited ms d = [] \<longleftrightarrow> (\<forall>m\<in>set ms. \<forall>c. recorded d (mg_version m) = Some c \<longrightarrow> c = mg_checksum m)"
  by (auto simp: edited_def modified_def filter_empty_conv split: option.splits)

lemma filter_after_prefix:
  assumes "distinct (map f xs)"
  shows "filter (\<lambda>x. f x \<notin> f ` set (take k xs)) xs = drop k xs"
proof -
  let ?P = "\<lambda>x. f x \<notin> f ` set (take k xs)"
  have "distinct (map f (take k xs @ drop k xs))" using assms by simp
  then have "f ` set (take k xs) \<inter> f ` set (drop k xs) = {}" unfolding map_append distinct_append by simp
  then have "filter ?P (drop k xs) = drop k xs" by (auto simp: filter_id_conv)
  moreover have "filter ?P (take k xs) = []" by (auto simp: filter_empty_conv)
  ultimately have "filter ?P (take k xs @ drop k xs) = drop k xs" unfolding filter_append by simp
  then show ?thesis by simp
qed

lemma after_prefix:
  assumes "distinct (map mg_version ms)" and "edited ms d = []"
    and run: "migrated R now (take k (to_apply ms d)) (with_table d) = Inr d1"
  shows "to_apply ms d1 = drop k (to_apply ms d)" and "edited ms d1 = []"
proof -
  let ?P = "to_apply ms d"
  have P: "set ?P \<subseteq> set ms" "distinct (map mg_version ?P)"
    using assms(1) by (auto simp: to_apply_def pending_def distinct_map_filter)
  note rec = recorded_migrated(1,2)[OF run]
  have none: "recorded d1 v = None \<longleftrightarrow> recorded d v = None \<and> v \<notin> mg_version ` set (take k ?P)" for v
    using rec[of v] by (cases "v \<in> mg_version ` set (take k ?P)") (auto dest: in_set_takeD)
  show "to_apply ms d1 = drop k ?P"
    unfolding filter_after_prefix[OF P(2), symmetric]
    by (simp add: to_apply_def pending_def none conj_commute)
  show "edited ms d1 = []"
    unfolding edited_none
  proof (intro ballI allI impI)
    fix m c assume m: "m \<in> set ms" "recorded d1 (mg_version m) = Some c"
    show "c = mg_checksum m"
    proof (cases "mg_version m \<in> mg_version ` set (take k ?P)")
      case True
      from rec(2)[OF this] obtain m' where m': "m' \<in> set (take k ?P)" "mg_version m' = mg_version m"
        "recorded d1 (mg_version m) = Some (mg_checksum m')" by blast
      have "m' = m" using assms(1) m m' P(1) by (auto simp: distinct_map dest: in_set_takeD inj_onD)
      then show ?thesis using m'(3) m(2) by simp
    next
      case False
      then show ?thesis using rec(1) assms(2) m unfolding edited_none by auto
    qed
  qed
qed

text \<open>A run whose requests all work ends with 0 exactly if no recorded file was edited and the SQL of every pending file works.\<close>

lemma quiet_run:
  assumes "loadMigrationFiles R = Inr ms" "ms \<noteq> []" "pk_ok (committed w)" "pg_script w = []"
    and "edited ms (committed w) = []"
    and "migrated R (db_now w) (to_apply ms (committed w)) (with_table (committed w)) = Inr d'"
  shows "\<exists>w'. migrate_process R w = (0, w') \<and> committed w' = d'"
proof -
  obtain code w' where run: "migrate_process R w = (code, w')" by (cases "migrate_process R w")
  from migrate_leaves[OF assms(1-3) run] assms(4-6) show ?thesis using run by (auto simp: run_leaves_def)
qed

lemma no_files: "loadMigrationFiles R = Inr [] \<Longrightarrow> migrate_process R w = (0, w)"
  by (simp add: migrate_process_def migrate_def lift_result_def exit_code_def)

section \<open>Properties\<close>

text \<open>C39: A run of the runner, whatever fails in it (a statement, the SQL of a file, the connection, the answer of a
  COMMIT), leaves the database as it was or with the effect of the first \<open>k\<close> pending files, each
  with its row in \<open>schema_migrations\<close>; exit code 0 means that all pending files were applied.\<close>

theorem migration_run_applies_prefix:
  assumes "loadMigrationFiles R = Inr ms" and "pk_ok (committed w)" and "migrate_process R w = (code, w')"
    and "P = to_apply ms (committed w)" and "start = with_table (committed w)"
  shows "(committed w' = committed w \<or>
      (\<exists>k\<le>length P. migrated R (db_now w) (take k P) start = Inr (committed w'))) \<and>
    (code = 0 \<longrightarrow> ms = [] \<or> migrated R (db_now w) P start = Inr (committed w')) \<and> pk_ok (committed w')"
proof (cases "ms = []")
  case True
  then show ?thesis using no_files[of R w] assms by simp
next
  case False
  note leaves = migrate_leaves[OF assms(1) False assms(2,3)]
  have "pk_ok (committed w')"
  proof (cases "committed w' = committed w")
    case False
    then obtain k where "migrated R (db_now w) (take k P) start = Inr (committed w')"
      using leaves assms(4,5) by (auto simp: run_leaves_def)
    from recorded_migrated(3)[OF this] show ?thesis using assms(2,5) by simp
  qed (simp add: assms(2))
  then show ?thesis using leaves assms(4,5) by (auto simp: run_leaves_def)
qed

text \<open>C40: An interrupted run is made good by the next one: if the files have different versions and a run without
  faults would end well, then after a run with any faults a run without faults ends with exit code
  0 and the same database, \<open>applied_at\<close> apart, as the undisturbed run.\<close>

theorem interrupted_migration_resumes:
  assumes load: "loadMigrationFiles R = Inr ms" and dist: "distinct (map mg_version ms)" and pk: "pk_ok (committed w)"
    and reference: "migrate_process R (w\<lparr>pg_script := []\<rparr>) = (0, w0)"
    and first: "migrate_process R w = (code, w1)"
  shows "\<exists>w3. migrate_process R (w1\<lparr>pg_script := [], db_now := later\<rparr>) = (0, w3) \<and>
    same_but_times (committed w0) (committed w3)"
proof (cases "ms = []")
  case True
  then show ?thesis using no_files[of R] assms by (auto simp: same_but_times_def)
next
  case False
  let ?d = "committed w" let ?P = "to_apply ms ?d"
  have pk': "pk_ok (committed (w\<lparr>pg_script := []\<rparr>))" using pk by simp
  from migrate_leaves[OF load False pk' reference]
  have unedited: "edited ms ?d = []" and all: "migrated R (db_now w) ?P (with_table ?d) = Inr (committed w0)"
    by (auto simp: run_leaves_def)
  have "edited ms (committed w1) = [] \<and> pk_ok (committed w1) \<and>
    migrated R (db_now w) (to_apply ms (committed w1)) (with_table (committed w1)) = Inr (committed w0)"
  proof (cases "committed w1 = ?d")
    case True
    then show ?thesis using unedited all pk by simp
  next
    case False
    with migrate_leaves[OF load \<open>ms \<noteq> []\<close> pk first] obtain k
      where k: "migrated R (db_now w) (take k ?P) (with_table ?d) = Inr (committed w1)"
      by (auto simp: run_leaves_def)
    from all have "migrated R (db_now w) (take k ?P @ drop k ?P) (with_table ?d) = Inr (committed w0)" by simp
    with k have "migrated R (db_now w) (drop k ?P) (committed w1) = Inr (committed w0)"
      unfolding migrated_Inr_append by auto
    with after_prefix[OF dist unedited k] recorded_migrated(3,4)[OF k] pk show ?thesis by simp
  qed
  then have go: "edited ms (committed w1) = []" "pk_ok (committed w1)"
    and rest: "migrated R (db_now w) (to_apply ms (committed w1)) (with_table (committed w1)) = Inr (committed w0)" by auto
  obtain d3 where d3: "migrated R later (to_apply ms (committed w1)) (with_table (committed w1)) = Inr d3" "same_but_times (committed w0) d3"
    using migrated_times[OF _ rest, of "with_table (committed w1)" later] by (auto simp: same_but_times_def)
  let ?w2 = "w1\<lparr>pg_script := [], db_now := later\<rparr>"
  have "\<exists>w3. migrate_process R ?w2 = (0, w3) \<and> committed w3 = d3"
    by (rule quiet_run[OF load False]) (use go d3 in simp_all)
  with d3(2) show ?thesis by blast
qed

lemma edited_file_is_refused:
  assumes "loadMigrationFiles R = Inr ms" and "pk_ok (committed w)"
    and "m \<in> set ms" and "recorded (committed w) (mg_version m) = Some c" and "c \<noteq> mg_checksum m"
  shows "\<exists>w'. migrate_process R w = (1, w') \<and> committed w' \<in> {committed w, with_table (committed w)}"
proof -
  obtain code w' where run: "migrate_process R w = (code, w')" by (cases "migrate_process R w")
  have "ms \<noteq> []" and "edited ms (committed w) \<noteq> []"
    using assms(3-5) by (auto simp: edited_none)
  with migrate_leaves[OF assms(1) this(1) assms(2) run] show ?thesis using run by (auto simp: run_leaves_def)
qed

text \<open>Two files with the same version number and different contents: the first run applies both and ends with
  exit code 0, and from then on every run ends with 1 and applies nothing, also no new file,
  because the row of the version holds the checksum of one file and the other looks edited.\<close>

theorem duplicate_version_locks_runner:
  assumes "loadMigrationFiles R = Inr ms" and "pk_ok (committed w)"
    and "m1 \<in> set ms" "m2 \<in> set ms" "mg_version m1 = mg_version m2" "mg_checksum m1 \<noteq> mg_checksum m2"
    and "migrate_process R w = (0, w1)"
    and "loadMigrationFiles R' = Inr (ms @ new)" and "committed w2 = committed w1"
  shows "\<exists>w3. migrate_process R' w2 = (1, w3) \<and> committed w3 = committed w2"
proof -
  let ?v = "mg_version m1" and ?d = "committed w"
  have ms: "ms \<noteq> []" using assms(3) by auto
  from migrate_leaves[OF assms(1) ms assms(2,7)]
  have unedited: "edited ms ?d = []" and all: "migrated R (db_now w) (to_apply ms ?d) (with_table ?d) = Inr (committed w1)"
    by (auto simp: run_leaves_def)
  have "recorded ?d ?v = None"
  proof (cases "recorded ?d ?v")
    case (Some c)
    with unedited assms(3-6) have "c = mg_checksum m1" "c = mg_checksum m2" unfolding edited_none by auto
    with assms(6) show ?thesis by simp
  qed
  then have "m1 \<in> set (to_apply ms ?d)" using assms(3) by (simp add: to_apply_def pending_def)
  then obtain c where c: "recorded (committed w1) ?v = Some c"
    using recorded_migrated(2)[OF all, of ?v] by auto
  have table: "with_table (committed w1) = committed w1" and pk1: "pk_ok (committed w1)"
    using recorded_migrated(3,4)[OF all] assms(2) by simp_all
  obtain m where "m \<in> set (ms @ new)" "recorded (committed w2) (mg_version m) = Some c" "c \<noteq> mg_checksum m"
    using that[of m1] that[of m2] assms(3-6,9) c by (cases "c = mg_checksum m1") auto
  from edited_file_is_refused[OF assms(8) _ this] pk1 table assms(9) show ?thesis by auto
qed

section \<open>The order of the files\<close>

lemma take_mono: "xs \<le> (ys :: string) \<Longrightarrow> take n xs \<le> take n ys"
proof (induction xs arbitrary: ys n)
  case (Cons x xs)
  then obtain y ys' where "ys = y # ys'" by (cases ys) auto
  with Cons show ?case by (cases n) auto
qed simp

lemma digits_val_Cons: "digits_val (c # cs) = digit_val c * 10 ^ length cs + digits_val cs"
proof (induction cs rule: rev_induct)
  case (snoc d cs)
  have "digits_val (c # cs @ [d]) = 10 * digits_val (c # cs) + digit_val d"
    using digits_val_snoc[of "c # cs" d] by simp
  then show ?case using snoc by (simp add: digits_val_snoc)
qed (simp add: digits_val_def)

lemma digits_val_less: "\<forall>c\<in>set cs. is_digit c \<Longrightarrow> digits_val cs < 10 ^ length cs"
proof (induction cs)
  case (Cons c cs)
  then have "digits_val cs < 10 ^ length cs" and "digit_val c \<le> 9" by (auto simp: is_digit_def digit_val_def)
  from mult_le_mono1[OF this(2), of "10 ^ length cs"] this(1)
  have "digit_val c * 10 ^ length cs + digits_val cs < 10 * 10 ^ length cs" by linarith
  then show ?case by (simp add: digits_val_Cons)
qed (simp add: digits_val_def)

text \<open>Numbers of the same width are ordered as texts the way they are as numbers.\<close>

lemma digits_val_mono:
  assumes "length xs = length ys" and "\<forall>c\<in>set xs. is_digit c" and "\<forall>c\<in>set ys. is_digit c" and "xs \<le> ys"
  shows "digits_val xs \<le> digits_val ys"
  using assms
proof (induction xs ys rule: list_induct2)
  case (Cons x xs y ys)
  show ?case
  proof (cases "x = y")
    case True
    with Cons show ?thesis by (simp add: digits_val_Cons)
  next
    case False
    with Cons.prems have "x < y" by simp
    moreover have "48 \<le> (of_char x :: nat)" using Cons.prems by (simp add: is_digit_def)
    ultimately have "digit_val x + 1 \<le> digit_val y" unfolding less_char_def digit_val_def by linarith
    then have "(digit_val x + 1) * 10 ^ length ys \<le> digit_val y * 10 ^ length ys" by (rule mult_le_mono1)
    moreover have "digits_val xs < 10 ^ length xs" using Cons.prems by (intro digits_val_less) simp
    ultimately show ?thesis using Cons.hyps by (simp add: digits_val_Cons)
  qed
qed simp

lemma match_migration_name_parts:
  assumes "match_migration_name name = Some (v, t)"
  shows "v \<noteq> []" "\<forall>c\<in>set v. is_digit c" "take (length v) name = v"
  using assms takeWhile_eq_take[of is_digit name]
  by (auto simp: match_migration_name_def Let_def split: if_splits dest: set_takeWhileD)

lemma read_migrations_from:
  assumes "read_migrations R files = Inr ms"
  shows "map mg_filename ms = filter (\<lambda>f. match_migration_name f \<noteq> None) files \<and>
    (\<forall>m\<in>set ms. \<exists>t. match_migration_name (mg_filename m) = Some (mg_version m, t))"
  using assms
proof (induction R files arbitrary: ms rule: read_migrations.induct)
  case (2 R name files)
  show ?case
  proof (cases "match_migration_name name")
    case None
    with 2 show ?thesis by simp
  next
    case (Some vt)
    obtain v t where vt: "vt = (v, t)" by (cases vt)
    with 2(3) Some obtain content ms' where "readFile R name = Inr content" and ms': "read_migrations R files = Inr ms'"
      and "mg_filename (hd ms) = name" "mg_version (hd ms) = v" "ms = hd ms # ms'"
      by (cases "readFile R name"; cases "read_migrations R files") auto
    moreover from 2(2)[OF Some vt[symmetric] ms'] vt Some
    have "map mg_filename ms' = filter (\<lambda>f. match_migration_name f \<noteq> None) files"
      "\<forall>m\<in>set ms'. \<exists>t. match_migration_name (mg_filename m) = Some (mg_version m, t)" by auto
    ultimately show ?thesis using Some vt by (cases ms) auto
  qed
qed simp

lemma loaded_in_file_order:
  assumes "loadMigrationFiles R = Inr ms"
  shows "sorted (map mg_filename ms)"
    and "m \<in> set ms \<Longrightarrow> \<exists>t. match_migration_name (mg_filename m) = Some (mg_version m, t)"
  using assms read_migrations_from[of R _ ms]
  by (auto simp: loadMigrationFiles_def sorted_sort sorted_filter[where f = id, simplified] split: sum.splits if_splits)

text \<open>If the numbers in the file names have the same width, the runner applies its files in the order of their
  numbers (the names are sorted as texts).\<close>

theorem migrations_in_numeric_order:
  assumes "loadMigrationFiles R = Inr ms" and "\<forall>m\<in>set ms. length (mg_version m) = n"
  shows "sorted (map (\<lambda>m. digits_val (mg_version m)) (to_apply ms d))"
proof -
  have le: "digits_val (mg_version m) \<le> digits_val (mg_version m')"
    if le: "m \<in> set ms" "m' \<in> set ms" "mg_filename m \<le> mg_filename m'" for m m'
  proof -
    obtain t t' where "match_migration_name (mg_filename m) = Some (mg_version m, t)"
      and "match_migration_name (mg_filename m') = Some (mg_version m', t')"
      using loaded_in_file_order(2)[OF assms(1)] le(1,2) by blast
    note parts = match_migration_name_parts[OF this(1)] match_migration_name_parts[OF this(2)]
    have "mg_version m \<le> mg_version m'"
      using take_mono[OF le(3), of n] parts(3,6) assms(2) le(1,2) by simp
    then show ?thesis by (intro digits_val_mono) (use parts assms(2) le in auto)
  qed
  from loaded_in_file_order(1)[OF assms(1)]
  have "sorted_wrt (\<lambda>m m'. mg_filename m \<le> mg_filename m') ms" by (simp add: sorted_map)
  then have "sorted_wrt (\<lambda>m m'. digits_val (mg_version m) \<le> digits_val (mg_version m')) ms"
    by (rule sorted_wrt_mono_rel[rotated]) (use le in blast)
  then have "sorted (map (\<lambda>m. digits_val (mg_version m)) ms)" by (simp add: sorted_map)
  then show ?thesis by (simp add: to_apply_def pending_def sorted_filter)
qed

section \<open>Witnesses\<close>

definition demo_runner :: "string list \<Rightarrow> string list runner_env" where
  "demo_runner files = \<lparr>readdir = Inr files, readFile = (\<lambda>f. Inr (''sql of '' @ f)), sha256 = (\<lambda>t. drop 7 t),
     run_sql = (\<lambda>sql s. Inr (s @ [sql]))\<rparr>"

definition demo_file :: "string \<Rightarrow> string \<Rightarrow> string \<Rightarrow> migration" where
  "demo_file v t f = \<lparr>mg_version = v, mg_description = t, mg_filename = f, mg_content = ''sql of '' @ f,
     mg_checksum = take 16 f\<rparr>"

definition demo_server :: "pg_fate list \<Rightarrow> string list migration_db pg_world" where
  "demo_server script = \<lparr>committed = \<lparr>schema = [], schema_migrations = Some
       [\<lparr>sm_version = ''001'', sm_description = ''Initial schema'', sm_applied_at = 0, sm_checksum = ''init''\<rparr>]\<rparr>,
     conn = Idle, pg_script = script, db_now = 5, uuids_used = 0, clients_out = 0\<rparr>"

definition repo_files :: "string list" where
  "repo_files = [''README.md'', ''004_order_events.sql'', ''003_idx.sql'']"

definition repo_migrations :: "migration list" where
  "repo_migrations = [demo_file ''003'' ''idx'' ''003_idx.sql'', demo_file ''004'' ''order events'' ''004_order_events.sql'']"

text \<open>The server fails at the SQL of the second file, and the connection is lost.\<close>

definition second_fails :: "pg_fate list" where
  "second_fails = [PgOk, PgOk, PgOk, PgOk, PgOk, PgOk, PgOk, PgOk, PgFail txn_aborted False, PgFail txn_aborted False]"

lemma demo_load: "loadMigrationFiles (demo_runner repo_files) = Inr repo_migrations"
  by code_simp

lemma demo_pk [simp]: "pk_ok (committed (demo_server script))"
  by (simp add: pk_ok_def rows_of_def demo_server_def)

lemma demo_interrupted:
  "fst (migrate_process (demo_runner repo_files) (demo_server second_fails)) = 1"
  "schema (committed (snd (migrate_process (demo_runner repo_files) (demo_server second_fails)))) = [''sql of 003_idx.sql'']"
  by code_simp+

lemma demo_reference: "fst (migrate_process (demo_runner repo_files) (demo_server [])) = 0"
  by code_simp

theorem migration_run_applies_prefix_witness:
  "\<exists>w'. migrate_process (demo_runner repo_files) (demo_server second_fails) = (1, w') \<and>
     schema (committed w') = [''sql of 003_idx.sql''] \<and> pk_ok (committed w')"
proof -
  obtain w' where run: "migrate_process (demo_runner repo_files) (demo_server second_fails) = (1, w')"
    using demo_interrupted(1) by (metis prod.collapse)
  from migration_run_applies_prefix[OF demo_load demo_pk run refl refl] demo_interrupted(2) run show ?thesis by simp
qed

theorem interrupted_migration_resumes_witness:
  "\<exists>w1 w3. migrate_process (demo_runner repo_files) (demo_server second_fails) = (1, w1) \<and>
     migrate_process (demo_runner repo_files) (w1\<lparr>pg_script := [], db_now := 9\<rparr>) = (0, w3)"
proof -
  obtain w1 where first: "migrate_process (demo_runner repo_files) (demo_server second_fails) = (1, w1)"
    using demo_interrupted(1) by (metis prod.collapse)
  obtain w0 where reference: "migrate_process (demo_runner repo_files) ((demo_server second_fails)\<lparr>pg_script := []\<rparr>) = (0, w0)"
    using demo_reference by (cases "migrate_process (demo_runner repo_files) (demo_server [])") (simp add: demo_server_def)
  have "distinct (map mg_version repo_migrations)" by (simp add: repo_migrations_def demo_file_def)
  from interrupted_migration_resumes[OF demo_load this demo_pk reference first, of 9] first show ?thesis by blast
qed

definition two_threes :: "string list" where "two_threes = [''003_b.sql'', ''003_a.sql'']"

theorem duplicate_version_locks_runner_witness:
  "\<exists>w1 w3. migrate_process (demo_runner two_threes) (demo_server []) = (0, w1) \<and>
     migrate_process (demo_runner (''004_new.sql'' # two_threes)) w1 = (1, w3) \<and> committed w3 = committed w1"
proof -
  let ?a = "demo_file ''003'' ''a'' ''003_a.sql''" let ?b = "demo_file ''003'' ''b'' ''003_b.sql''"
  let ?new = "demo_file ''004'' ''new'' ''004_new.sql''"
  have load: "loadMigrationFiles (demo_runner two_threes) = Inr [?a, ?b]"
    "loadMigrationFiles (demo_runner (''004_new.sql'' # two_threes)) = Inr ([?a, ?b] @ [?new])" by code_simp+
  have "fst (migrate_process (demo_runner two_threes) (demo_server [])) = 0" by code_simp
  then obtain w1 where run: "migrate_process (demo_runner two_threes) (demo_server []) = (0, w1)" by (metis prod.collapse)
  have "mg_version ?a = mg_version ?b" "mg_checksum ?a \<noteq> mg_checksum ?b" by (simp_all add: demo_file_def)
  from duplicate_version_locks_runner[OF load(1) demo_pk _ _ this run load(2) refl] run show ?thesis by simp
qed

theorem migrations_in_numeric_order_witness:
  "sorted (map (\<lambda>m. digits_val (mg_version m)) (to_apply repo_migrations (committed (demo_server []))))"
  by (rule migrations_in_numeric_order[OF demo_load, where n = 3]) (simp add: repo_migrations_def demo_file_def)

text \<open>Without the padding the texts are not in the order of the numbers: 10 comes before 9.\<close>

lemma unpadded_numbers_out_of_order:
  "loadMigrationFiles (demo_runner [''9_a.sql'', ''10_b.sql'']) =
     Inr [demo_file ''10'' ''b'' ''10_b.sql'', demo_file ''9'' ''a'' ''9_a.sql'']"
  by code_simp

end
