(* ===== verification/Idempotent_Orders.thy ===== *)
theory Idempotent_Orders
  imports Order_Properties
begin

text \<open>
  \<open>POST /v1/orders\<close> with an \<open>Idempotency-Key\<close>: the idempotency wrapper around the creation of
  an order. The theory composes the laws of both: what a client that repeats its request finds
  in the tables, and the case in which a repetition creates a second order.
\<close>

section \<open>The request as the wrapper sees it\<close>

definition order_options :: "http_request \<Rightarrow> auth_user \<Rightarrow> create_order_data \<Rightarrow> idempotency_options" where
  "order_options request u dat =
     \<lparr>io_scope = ''orders:create'', io_userId = user_id u, io_request = request,
      io_requestBody = create_order_json dat\<rparr>"

definition order_record_key :: "auth_user \<Rightarrow> string \<Rightarrow> string" where
  "order_record_key u key = buildRedisKey ''orders:create'' (user_id u) key"

definition sends_key :: "http_request \<Rightarrow> string \<Rightarrow> bool" where
  "sends_key request key \<longleftrightarrow> readIdempotencyKey request = Some key \<and> valid_idempotency_key key"

lemma order_options_key [simp]: "idem_key (order_options request u dat) key = order_record_key u key"
  by (simp add: idem_key_def order_options_def order_record_key_def)

lemma order_options_has_key [simp]: "has_key (order_options request u dat) key = sends_key request key"
  by (simp add: has_key_def order_options_def sends_key_def)

lemma post_orders_parsed:
  "createOrderSchema body = Some dat \<Longrightarrow> post_orders S cfg sha uuid issues request (Some u) body s =
     withIdempotency S sha (order_options request u dat) (createOrderTransactionally S cfg uuid request (user_id u) dat) s"
  by (simp add: post_orders_def order_options_def)

definition order_reply_of :: "order_row \<Rightarrow> response" where
  "order_reply_of row = \<lparr>resp_status = 201, resp_body = order_body row\<rparr>"

text \<open>The record of the answer is at most 64 KiB, so it is kept.\<close>

definition record_fits :: "string \<Rightarrow> response \<Rightarrow> bool" where
  "record_fits h r \<longleftrightarrow> utf8_length (JSON_stringify (completed_record h r)) \<le> MAX_STORED_BODY_BYTES"

section \<open>The wrapper as a whole\<close>

text \<open>
  Whatever Redis does, the wrapper runs its processor at most once, and all else it does is to
  call Redis: \<open>Q\<close> holds before the processor runs, \<open>R\<close> afterwards.
\<close>

definition ext_closed :: "(('e, 'm) api_state_scheme \<Rightarrow> bool) \<Rightarrow> bool" where
  "ext_closed Q \<longleftrightarrow> (\<forall>s e. Q s \<longrightarrow> Q (s\<lparr>ext := e\<rparr>))"

lemma await_ext_closed:
  assumes "ext_closed Q" and "Q s" and "await (ext_call c) s = (r, t)"
  shows "Q t"
  using assms by (auto simp: await_def ext_call_def ext_closed_def split: prod.splits)

lemma del_quietly_closed: "ext_closed Q \<Longrightarrow> Q s \<Longrightarrow> del_quietly S key s = (r, t) \<Longrightarrow> Q t"
  by (auto simp: del_quietly_def io_catch_apply io_bind_apply split: prod.splits sum.splits dest: await_ext_closed)

lemma read_record_closed: "ext_closed Q \<Longrightarrow> Q s \<Longrightarrow> readExistingRecord S key h s = (r, t) \<Longrightarrow> Q t"
  unfolding readExistingRecord_def
  by (auto simp: io_bind_apply split: prod.splits sum.splits option.splits if_splits
      dest: await_ext_closed del_quietly_closed)

lemma run_claimed_closed:
  assumes "ext_closed R" and "\<And>r t. process s = (r, t) \<Longrightarrow> R t" and "run_claimed S key h process s = (out, t)"
  shows "R t"
proof -
  obtain r u where run: "process s = (r, u)" by (cases "process s")
  then have u: "R u" by (rule assms(2))
  show ?thesis
  proof (cases r)
    case (Inl e)
    with run assms(3) del_quietly_closed[OF assms(1) u] show ?thesis
      by (auto simp: run_claimed_def io_catch_apply io_bind_apply split: prod.splits sum.splits)
  next
    case (Inr a)
    let ?w = "JSON_stringify (completed_record h a)"
    let ?store = "if MAX_STORED_BODY_BYTES < utf8_length ?w then del_quietly S key
      else await (ext_call (redis_set S key ?w COMPLETED_TTL_SECONDS))"
    obtain q v where stored: "?store u = (q, v)" by fastforce
    have v: "R v" using stored del_quietly_closed[OF assms(1) u] await_ext_closed[OF assms(1) u] by (auto split: if_splits)
    from run Inr stored assms(3) v del_quietly_closed[OF assms(1) v] show ?thesis
      by (cases q) (auto simp: run_claimed_def Let_def io_catch_apply io_bind_apply split: prod.splits sum.splits)
  qed
qed

lemma withIdempotency_runs_once:
  fixes process :: "(('e, 'm) api_state_scheme, response) io"
  assumes run: "withIdempotency S sha options process s = Some y" and Q: "Q s" "ext_closed Q" "ext_closed R"
    and proc: "\<And>s r t. Q s \<Longrightarrow> process s = (r, t) \<Longrightarrow> R t" and weaken: "\<And>s. Q s \<Longrightarrow> R s"
  shows "R (snd y)"
proof -
  define P where "P = (\<lambda>(S' :: 'e services) (sha' :: string \<Rightarrow> string) (opts :: idempotency_options)
      (process' :: (('e, 'm) api_state_scheme, response) io) (s :: ('e, 'm) api_state_scheme)
      (y :: (js_error + idempotency_result) \<times> ('e, 'm) api_state_scheme).
    process' = process \<longrightarrow> Q s \<longrightarrow> R (snd y))"
  have "P S sha options process s y"
  proof (rule withIdempotency.raw_induct[where P = P, OF _ run])
    fix rec S' sha' opts process' s y
    assume rec: "\<And>S' sha' opts process' s y. rec S' sha' opts process' s = Some y \<Longrightarrow> P S' sha' opts process' s y"
      and body: "(case readIdempotencyKey (io_request opts) of
       None \<Rightarrow> Some (io_bind process' (\<lambda>r. io_return (result_of r)) s)
     | Some key \<Rightarrow> if \<not> valid_idempotency_key key then Some (Inr invalid_key_result, s)
       else let h = canonicalRequestHash sha' (io_request opts) (io_requestBody opts);
                redisKey = buildRedisKey (io_scope opts) (io_userId opts) key
            in case await (ext_call (redis_set_nx S' redisKey (JSON_stringify (claim_record h)) PROCESSING_TTL_SECONDS)) s of
                 (Inl e, t) \<Rightarrow> Some (Inl e, t)
               | (Inr acquired, t) \<Rightarrow> if acquired then Some (run_claimed S' redisKey h process' t)
                   else case readExistingRecord S' redisKey h t of (Inl e, u) \<Rightarrow> Some (Inl e, u)
                      | (Inr None, u) \<Rightarrow> rec S' sha' opts process' u
                      | (Inr (Some replay), u) \<Rightarrow> Some (Inr replay, u)) = Some y"
    show "P S' sha' opts process' s y"
      unfolding P_def
    proof (intro impI)
      assume same: "process' = process" and start: "Q s"
      show "R (snd y)"
      proof (cases "readIdempotencyKey (io_request opts)")
        case None
        with body same start show ?thesis
          by (cases "process s") (auto simp: io_bind_apply split: sum.splits dest: proc)
      next
        case (Some key)
        let ?h = "canonicalRequestHash sha' (io_request opts) (io_requestBody opts)"
        let ?key = "buildRedisKey (io_scope opts) (io_userId opts) key"
        obtain r t where nx: "await (ext_call (redis_set_nx S' ?key (JSON_stringify (claim_record ?h)) PROCESSING_TTL_SECONDS)) s = (r, t)"
          by fastforce
        have t: "Q t" by (rule await_ext_closed[OF Q(2) start nx])
        have claimed: "R (snd (run_claimed S' ?key ?h process t))"
          by (rule run_claimed_closed[OF Q(3) proc[OF t] surjective_pairing])
        obtain x u where read: "readExistingRecord S' ?key ?h t = (x, u)" by fastforce
        have u: "Q u" by (rule read_record_closed[OF Q(2) t read])
        have again: "rec S' sha' opts process u = Some y \<Longrightarrow> R (snd y)"
          using rec[of S' sha' opts process u y] u by (simp add: P_def)
        show ?thesis
          using Some body nx t claimed read u again weaken start unfolding same
          by (simp add: Let_def split: sum.splits if_splits option.splits) auto
      qed
    qed
  qed
  then show ?thesis using Q(1) by (simp add: P_def)
qed

text \<open>So the database after the wrapper is as before, or as one run of the processor leaves it.\<close>

lemma withIdempotency_pg:
  fixes process :: "(('e, 'm) app_state_scheme, response) io"
  assumes "withIdempotency S sha options process s = Some (out, t)"
  obtains (untouched) "pg t = pg s"
  | (ran) s1 r t1 where "pg s1 = pg s" "process s1 = (r, t1)" "pg t = pg t1"
proof -
  let ?R = "\<lambda>t. pg t = pg s \<or> (\<exists>s1 r t1. pg s1 = pg s \<and> process s1 = (r, t1) \<and> pg t = pg t1)"
  have "?R (snd (out, t))"
    by (rule withIdempotency_runs_once[where Q = "\<lambda>t. pg t = pg s" and R = ?R, OF assms])
      (auto simp: ext_closed_def)
  then show thesis using untouched ran by auto
qed

section \<open>The first request\<close>

context redis_answers
begin

lemma run_claimed_outcome:
  assumes "process s = (out, t)"
  obtains e' where "run_claimed S k h process s = (map_sum id result_of out, t\<lparr>ext := e'\<rparr>)"
    and "store e' k = (case out of Inl x \<Rightarrow> None
           | Inr r \<Rightarrow> if record_fits h r then Some (JSON_stringify (completed_record h r)) else None)"
proof (cases out)
  case (Inl x)
  obtain e' where "run_claimed S k h process s = (Inl x, t\<lparr>ext := e'\<rparr>)" and "store e' = (store (ext t))(k := None)"
    using run_claimed_releases[where process = process and s = s, OF assms[unfolded Inl]] .
  with Inl show thesis by (intro that[of e']) simp_all
next
  case (Inr r)
  show thesis
  proof (cases "record_fits h r")
    case True
    obtain e' where "run_claimed S k h process s = (Inr (result_of r), t\<lparr>ext := e'\<rparr>)"
      and "store e' = (store (ext t))(k \<mapsto> JSON_stringify (completed_record h r))"
      using run_claimed_stores[where process = process and s = s, OF assms[unfolded Inr] True[unfolded record_fits_def]] .
    with Inr True show thesis by (intro that[of e']) simp_all
  next
    case False
    then have "MAX_STORED_BODY_BYTES < utf8_length (JSON_stringify (completed_record h r))" by (simp add: record_fits_def)
    then obtain e' where "run_claimed S k h process s = (Inr (result_of r), t\<lparr>ext := e'\<rparr>)"
      and "store e' = (store (ext t))(k := None)"
      using run_claimed_too_large[where process = process and s = s, OF assms[unfolded Inr]] by metis
    with Inr False show thesis by (intro that[of e']) simp_all
  qed
qed

text \<open>
  A request with a free key: the creation ran once, from a state that differs from the given one
  only in Redis.
\<close>

lemma post_orders_first:
  assumes "createOrderSchema body = Some dat" and "sends_key request key"
    and "store (ext s) (order_record_key u key) = None"
  obtains e1 out t e2 where
    "createOrderTransactionally S cfg uuid request (user_id u) dat (s\<lparr>ext := e1\<rparr>) = (out, t)"
    and "post_orders S cfg sha uuid issues request (Some u) body s = Some (map_sum id result_of out, t\<lparr>ext := e2\<rparr>)"
    and "store e2 (order_record_key u key) = (case out of Inl x \<Rightarrow> None
           | Inr r \<Rightarrow> if record_fits (idem_hash sha (order_options request u dat)) r
              then Some (JSON_stringify (completed_record (idem_hash sha (order_options request u dat)) r)) else None)"
proof -
  let ?o = "order_options request u dat"
  have hk: "has_key ?o key" and free: "store (ext s) (idem_key ?o key) = None" using assms by simp_all
  obtain e1 where fresh: "\<And>process. withIdempotency S sha ?o process s =
      Some (run_claimed S (idem_key ?o key) (idem_hash sha ?o) process (s\<lparr>ext := e1\<rparr>))"
    by (rule withIdempotency_fresh[OF hk free, where sha = sha]) (rule that)
  obtain out t where run: "createOrderTransactionally S cfg uuid request (user_id u) dat (s\<lparr>ext := e1\<rparr>) = (out, t)"
    by (cases "createOrderTransactionally S cfg uuid request (user_id u) dat (s\<lparr>ext := e1\<rparr>)")
  show thesis
  proof (rule run_claimed_outcome[where process = "createOrderTransactionally S cfg uuid request (user_id u) dat", OF run])
    fix e' assume "run_claimed S (order_record_key u key) (idem_hash sha ?o)
        (createOrderTransactionally S cfg uuid request (user_id u) dat) (s\<lparr>ext := e1\<rparr>) =
        (map_sum id result_of out, t\<lparr>ext := e'\<rparr>)"
      and "store e' (order_record_key u key) = (case out of Inl x \<Rightarrow> None
           | Inr r \<Rightarrow> if record_fits (idem_hash sha ?o) r
              then Some (JSON_stringify (completed_record (idem_hash sha ?o) r)) else None)"
    then show thesis by (intro that[OF run]) (simp_all add: post_orders_parsed[OF assms(1)] fresh)
  qed
qed

text \<open>A repetition while the record is there answers it and leaves the tables alone.\<close>

lemma post_orders_repeated:
  assumes "createOrderSchema body = Some dat" and "sends_key request key" and "json_wf (resp_body r)"
    and "store (ext v) (order_record_key u key) = Some (JSON_stringify (completed_record h r))"
  obtains e' where "store e' = store (ext v)"
    and "post_orders S cfg sha uuid issues request (Some u) body v =
      Some (Inr (if h = idem_hash sha (order_options request u dat) then result_of r else key_conflict_result),
        v\<lparr>ext := e'\<rparr>)"
proof -
  have hk: "has_key (order_options request u dat) key"
    and held: "store (ext v) (idem_key (order_options request u dat) key) = Some (JSON_stringify (completed_record h r))"
    using assms by simp_all
  have "json_wf (completed_record h r)" using assms(3) by simp
  then obtain e' where "store e' = store (ext v)"
    and "\<And>process. withIdempotency S sha (order_options request u dat) process v =
      Some (Inr (if h = idem_hash sha (order_options request u dat) then result_of r else key_conflict_result),
        v\<lparr>ext := e'\<rparr>)"
    by (rule withIdempotency_replies[OF hk _ held record_answer_completed]) (rule that)
  then show thesis by (intro that[of e']) (simp_all add: post_orders_parsed[OF assms(1)])
qed

text \<open>A request with a free key when nothing fails.\<close>

lemma post_orders_creates:
  assumes "createOrderSchema body = Some dat" and "sends_key request key"
    and "store (ext s) (order_record_key u key) = None"
    and "create_ready (pg s) uuid request (user_id u) dat"
  obtains t where
    "post_orders S cfg sha uuid issues request (Some u) body s =
       Some (Inr (result_of (order_reply_of (new_order_row uuid (user_id u) dat (pg s)))), t)"
    and "\<exists>e1. pg t = after_creation S uuid request (user_id u) dat (s\<lparr>ext := e1\<rparr>)"
proof (rule post_orders_first[OF assms(1-3), where cfg = cfg and uuid = uuid and sha = sha and issues = issues])
  fix e1 out t e2
  assume run: "createOrderTransactionally S cfg uuid request (user_id u) dat (s\<lparr>ext := e1\<rparr>) = (out, t)"
    and post: "post_orders S cfg sha uuid issues request (Some u) body s = Some (map_sum id result_of out, t\<lparr>ext := e2\<rparr>)"
  have "create_ready (pg (s\<lparr>ext := e1\<rparr>)) uuid request (user_id u) dat" using assms(4) by simp
  then obtain t' where "createOrderTransactionally S cfg uuid request (user_id u) dat (s\<lparr>ext := e1\<rparr>) =
      (Inr (order_reply_of (new_order_row uuid (user_id u) dat (pg s))), t')"
    and "pg t' = after_creation S uuid request (user_id u) dat (s\<lparr>ext := e1\<rparr>)"
    by (rule create_succeeds[where S = S and cfg = cfg]) (simp add: order_reply_of_def)
  with run post show thesis by (intro that[of "t\<lparr>ext := e2\<rparr>"]) auto
qed

end

section \<open>Repeating a request\<close>

text \<open>C3: A client may repeat its request. While Redis answers every command, a first \<open>POST /v1/orders\<close> with a
  free \<open>Idempotency-Key\<close> returns, whatever fails in the database. If it is answered, its order, its
  audit row and its event are in the tables, once, and the answer is the 201 with that order; if its
  record fits the 64 KiB, then as long as the record is in Redis every further request of the user
  with that key, from any state and whatever happened in between, leaves the tables as they are, and
  gets the same status and body if method, route and order are the same, else 409. If it ends in an
  error, the key is free again. (Where a command of Redis fails this is not so: a claim whose \<open>DEL\<close> is
  lost stays until it expires, and so does one whose \<open>SET NX\<close> took effect without an answer.)\<close>

theorem repeated_post_creates_one_order:
  fixes s :: "('e, 'm) app_state_scheme"
  assumes "redis_answers S store" and "createOrderSchema body = Some dat" and "sends_key request key"
    and "store (ext s) (order_record_key u key) = None"
  shows "\<exists>out t. post_orders S cfg sha uuid issues request (Some u) body s = Some (out, t) \<and>
    (case out of
       Inl e \<Rightarrow> store (ext t) (order_record_key u key) = None \<and>
         (committed (pg t) = committed (pg s) \<or>
          (\<exists>row. created (user_id u) dat (committed (pg s)) (committed (pg t)) row))
     | Inr res \<Rightarrow> \<exists>row. created (user_id u) dat (committed (pg s)) (committed (pg t)) row \<and>
         res = result_of (order_reply_of row) \<and>
         (record_fits (idem_hash sha (order_options request u dat)) (order_reply_of row) \<longrightarrow>
          (\<forall>request' body' dat' issues' (v :: ('e, 'm) app_state_scheme).
             sends_key request' key \<longrightarrow> createOrderSchema body' = Some dat' \<longrightarrow>
             store (ext v) (order_record_key u key) = store (ext t) (order_record_key u key) \<longrightarrow>
             (\<exists>v'. post_orders S cfg sha uuid issues' request' (Some u) body' v =
                 Some (Inr (if idem_hash sha (order_options request' u dat') = idem_hash sha (order_options request u dat)
                            then res else key_conflict_result), v') \<and>
               pg v' = pg v \<and> store (ext v') = store (ext v)))))"
proof (rule redis_answers.post_orders_first[OF assms, where cfg = cfg and uuid = uuid and sha = sha and issues = issues])
  let ?h = "idem_hash sha (order_options request u dat)" and ?k = "order_record_key u key"
  fix e1 out t e2
  assume run: "createOrderTransactionally S cfg uuid request (user_id u) dat (s\<lparr>ext := e1\<rparr>) = (out, t)"
    and post: "post_orders S cfg sha uuid issues request (Some u) body s = Some (map_sum id result_of out, t\<lparr>ext := e2\<rparr>)"
    and kept: "store e2 ?k = (case out of Inl x \<Rightarrow> None
           | Inr r \<Rightarrow> if record_fits ?h r then Some (JSON_stringify (completed_record ?h r)) else None)"
  have effect: "case out of
      Inl e \<Rightarrow> committed (pg t) = committed (pg s) \<or> (\<exists>row. created (user_id u) dat (committed (pg s)) (committed (pg t)) row)
    | Inr r \<Rightarrow> \<exists>row. created (user_id u) dat (committed (pg s)) (committed (pg t)) row \<and> r = order_reply_of row"
    using wp_outcome[OF createOrder_wp run] by (auto simp: order_reply_of_def split: sum.splits)
  show ?thesis
  proof (cases out)
    case (Inl e)
    with post kept effect show ?thesis by (intro exI) auto
  next
    case (Inr r)
    then obtain row where row: "created (user_id u) dat (committed (pg s)) (committed (pg t)) row" "r = order_reply_of row"
      using effect by auto
    have replay: "\<exists>v'. post_orders S cfg sha uuid issues' request' (Some u) body' v =
                 Some (Inr (if idem_hash sha (order_options request' u dat') = ?h then result_of r else key_conflict_result), v') \<and>
               pg v' = pg v \<and> store (ext v') = store (ext v)"
      if "record_fits ?h r" "sends_key request' key" "createOrderSchema body' = Some dat'" "store (ext v) ?k = store e2 ?k"
      for request' body' dat' issues' and v :: "('e, 'm) app_state_scheme"
    proof -
      have wf: "json_wf (resp_body r)" by (simp add: row(2) order_reply_of_def order_body_def)
      have "store (ext v) ?k = Some (JSON_stringify (completed_record ?h r))" using that(1,4) kept Inr by simp
      then show ?thesis
        by (rule redis_answers.post_orders_repeated[OF assms(1) that(3,2) wf, where sha = sha and cfg = cfg
              and uuid = uuid and issues = issues']) (auto simp: eq_commute)
    qed
    have "post_orders S cfg sha uuid issues request (Some u) body s = Some (Inr (result_of r), t\<lparr>ext := e2\<rparr>)"
      using post Inr by simp
    moreover have "created (user_id u) dat (committed (pg s)) (committed (pg (t\<lparr>ext := e2\<rparr>))) row" using row(1) by simp
    ultimately show ?thesis
      apply (intro exI[of _ "Inr (result_of r)"] exI[of _ "t\<lparr>ext := e2\<rparr>"] conjI)
       apply assumption
      apply (simp only: sum.case)
      apply (rule exI[of _ row])
      apply (intro conjI impI allI)
        apply assumption
       apply (simp add: row(2))
      apply (rule replay; simp add: row(2))
      done
  qed
qed

section \<open>When a repetition creates a second order\<close>

text \<open>C13: The key does not protect against a lost answer to \<open>COMMIT\<close>: if the transaction is committed but its
  answer is lost, the request ends in the error and its claim is deleted, so the same request sent
  again, with the same key, creates a second order with the same items for the same user.\<close>

theorem lost_commit_answer_duplicates_order:
  fixes s :: "('e, 'm) app_state_scheme"
  assumes "redis_answers S store" and "createOrderSchema body = Some dat" and "sends_key request key"
    and "store (ext s) (order_record_key u key) = None"
    and "create_ready ((pg s)\<lparr>pg_script := []\<rparr>) uuid request (user_id u) dat" and "ids_fresh uuid (pg s)"
    and "pg_script (pg s) = [PgOk, PgOk, PgOk, PgOk, PgOk, PgFail e True]"
  shows "\<exists>t t' row row'.
    post_orders S cfg sha uuid issues request (Some u) body s = Some (Inl e, t) \<and>
    post_orders S cfg sha uuid issues request (Some u) body t = Some (Inr (result_of (order_reply_of row')), t') \<and>
    orders (committed (pg t')) = orders (committed (pg s)) @ [row, row'] \<and> o_id row \<noteq> o_id row' \<and>
    created (user_id u) dat (committed (pg s)) (committed (pg t)) row \<and>
    created (user_id u) dat (committed (pg t)) (committed (pg t')) row'"
proof (rule redis_answers.post_orders_first[OF assms(1-4), where cfg = cfg and uuid = uuid and sha = sha and issues = issues])
  fix e1 out t0 e2
  let ?s1 = "s\<lparr>ext := e1\<rparr>" and ?row = "new_order_row uuid (user_id u) dat (pg s)"
  assume run: "createOrderTransactionally S cfg uuid request (user_id u) dat ?s1 = (out, t0)"
    and post: "post_orders S cfg sha uuid issues request (Some u) body s = Some (map_sum id result_of out, t0\<lparr>ext := e2\<rparr>)"
    and kept: "store e2 (order_record_key u key) = (case out of Inl x \<Rightarrow> None
           | Inr r \<Rightarrow> if record_fits (idem_hash sha (order_options request u dat)) r
              then Some (JSON_stringify (completed_record (idem_hash sha (order_options request u dat)) r)) else None)"
  let ?t = "t0\<lparr>ext := e2\<rparr>" and ?w = "after_creation S uuid request (user_id u) dat ?s1"
  have ready1: "create_ready ((pg ?s1)\<lparr>pg_script := []\<rparr>) uuid request (user_id u) dat" using assms(5) by simp
  have "createOrderTransactionally S cfg uuid request (user_id u) dat ?s1 = (Inl e, ?s1\<lparr>pg := ?w\<rparr>)"
    by (rule create_lost_commit[OF ready1]) (simp add: assms(7))
  then have out: "out = Inl e" and w: "pg ?t = ?w" using run by auto
  have ready: "create_ready (pg ?t) uuid request (user_id u) dat"
    unfolding w using assms(5,6) by (intro create_readyI ids_fresh_after) (simp_all add: create_ready_def)
  have free: "store (ext ?t) (order_record_key u key) = None" using kept out by simp
  have first: "created (user_id u) dat (committed (pg s)) (committed (pg ?t)) ?row"
    using creation_created[OF ready1, where S = S] by (simp add: w)
  show ?thesis
  proof (rule redis_answers.post_orders_creates[OF assms(1-3) free ready, where cfg = cfg and sha = sha and issues = issues])
    let ?row' = "new_order_row uuid (user_id u) dat (pg ?t)"
    fix t' assume again: "post_orders S cfg sha uuid issues request (Some u) body ?t = Some (Inr (result_of (order_reply_of ?row')), t')"
      and "\<exists>e1. pg t' = after_creation S uuid request (user_id u) dat (?t\<lparr>ext := e1\<rparr>)"
    then obtain e3 where pg': "pg t' = after_creation S uuid request (user_id u) dat (?t\<lparr>ext := e3\<rparr>)" by blast
    have ready3: "create_ready ((pg (?t\<lparr>ext := e3\<rparr>))\<lparr>pg_script := []\<rparr>) uuid request (user_id u) dat"
      using ready by (simp add: create_ready_def)
    have second: "created (user_id u) dat (committed (pg ?t)) (committed (pg t')) ?row'"
      using creation_created[OF ready3, where S = S] by (simp add: pg')
    have both: "orders (committed (pg t')) = orders (committed (pg s)) @ [?row, ?row']"
      by (simp add: pg' w[simplified])
    have "o_id ?row \<noteq> o_id ?row'"
      using w by (simp add: new_order_row_def ids_fresh_inj[OF assms(6)])
    with post out again both first second show ?thesis by auto
  qed
qed

section \<open>Witnesses\<close>

definition demo_body :: json where
  "demo_body = create_order_json demo_order"

lemma demo_body_parses: "createOrderSchema demo_body = Some demo_order"
  by (simp add: demo_body_def create_order_json_def createOrderSchema_def demo_order_def order_item_json_def
      orderItemSchema_def emailSchema_def plain_char_def is_js_space_def)

lemma demo_sends_key: "sends_key demo_request ''order-0001''"
  using demo_has_key by (simp add: sends_key_def has_key_def demo_idem_def)

lemma demo_ids_fresh: "ids_fresh demo_uuid (demo_world\<lparr>pg_script := script\<rparr>)"
proof -
  have "length (uuid_in (demo_uuid n)) = n + 1" for n by (simp add: uuid_in_def js_lower_def demo_uuid_def)
  then have "inj (\<lambda>n. uuid_in (demo_uuid n))" by (metis add_right_cancel injI)
  moreover have "text_ok (demo_uuid n)" for n by (simp add: text_ok_def demo_uuid_def)
  ultimately show ?thesis by (simp add: ids_fresh_def demo_world_def demo_database_def)
qed

theorem repeated_post_creates_one_order_witness:
  "\<exists>res t. post_orders stub_services demo_config demo_sha demo_uuid (\<lambda>j. []) demo_request (Some demo_user) demo_body
      (demo_app (\<lambda>_. None)) = Some (Inr res, t) \<and> length (orders (committed (pg t))) = 1"
proof -
  let ?s = "demo_app (\<lambda>_. None) :: kv app_state"
  have free: "ext ?s (order_record_key demo_user ''order-0001'') = None" by simp
  have ready: "create_ready (pg ?s) demo_uuid demo_request (user_id demo_user) demo_order"
    using demo_create_ready by (simp add: demo_user_def)
  obtain t where run: "post_orders stub_services demo_config demo_sha demo_uuid (\<lambda>j. []) demo_request (Some demo_user)
      demo_body ?s = Some (Inr (result_of (order_reply_of (new_order_row demo_uuid (user_id demo_user) demo_order (pg ?s)))), t)"
    using stub.post_orders_creates[OF demo_body_parses demo_sends_key free ready] by metis
  from repeated_post_creates_one_order[where store = "\<lambda>m. m" and s = ?s and u = demo_user,
      OF stub.redis_answers_axioms demo_body_parses demo_sends_key free,
      where cfg = demo_config and sha = demo_sha and uuid = demo_uuid and issues = "\<lambda>j. []"] run
  obtain row where "created (user_id demo_user) demo_order (committed (pg ?s)) (committed (pg t)) row" by auto
  then show ?thesis using run by (auto simp: created_def order_added_def demo_world_def demo_database_def)
qed

theorem lost_commit_answer_witness:
  "\<exists>t t' res. post_orders stub_services demo_config demo_sha demo_uuid (\<lambda>j. []) demo_request (Some demo_user) demo_body
      ((demo_app (\<lambda>_. None))\<lparr>pg := demo_world\<lparr>pg_script := [PgOk, PgOk, PgOk, PgOk, PgOk, PgFail connection_lost True]\<rparr>\<rparr>) =
      Some (Inl connection_lost, t) \<and>
    post_orders stub_services demo_config demo_sha demo_uuid (\<lambda>j. []) demo_request (Some demo_user) demo_body t =
      Some (Inr res, t') \<and> length (orders (committed (pg t'))) = 2"
proof -
  let ?s = "(demo_app (\<lambda>_. None))\<lparr>pg := demo_world\<lparr>pg_script := [PgOk, PgOk, PgOk, PgOk, PgOk, PgFail connection_lost True]\<rparr>\<rparr>
    :: kv app_state"
  have free: "ext ?s (order_record_key demo_user ''order-0001'') = None" by simp
  have ready: "create_ready ((pg ?s)\<lparr>pg_script := []\<rparr>) demo_uuid demo_request (user_id demo_user) demo_order"
    using demo_create_ready by (simp add: demo_user_def create_ready_def)
  have fresh: "ids_fresh demo_uuid (pg ?s)" by (simp add: demo_ids_fresh)
  have script: "pg_script (pg ?s) = [PgOk, PgOk, PgOk, PgOk, PgOk, PgFail connection_lost True]" by simp
  have none: "orders (committed (pg ?s)) = []" by (simp add: demo_world_def demo_database_def)
  show ?thesis
    using lost_commit_answer_duplicates_order[where store = "\<lambda>m. m" and s = ?s and u = demo_user, OF stub.redis_answers_axioms demo_body_parses demo_sends_key free ready fresh
        script, where cfg = demo_config and sha = demo_sha and issues = "\<lambda>j. []"] none by auto
qed

end
