(* ===== verification/Api_Server.thy ===== *)
theory Api_Server
  imports Idempotent_Orders Request_Lifecycle
begin

text \<open>
  The API service as \<open>app.ts\<close> composes it: a matched request gets its id, passes the
  \<open>onRequest\<close> hook, the body parser, the rate limiter, on the order routes and the logout the bearer
  check, and its handler; whatever is thrown reaches the error handler; the \<open>onResponse\<close> hook runs last.
  A request runs from its arrival to its response here; requests that overlap are in
  \<open>Request_Lifecycle\<close>.

  The order of the steps is the documented one of the web framework. What it does with a payload
  (size limit, content type, JSON) is an argument of the request, its error or the parsed value;
  what \<open>reply.code\<close> makes of a status that is not a number is a parameter.
\<close>

section \<open>The parameters and the state\<close>

record 'e api_env =
  en_services :: "'e services"
  en_auth :: auth_lib
  en_config :: api_config
  en_sha :: "string \<Rightarrow> string"
  en_uuid :: "nat \<Rightarrow> string"
  en_issues :: "json \<Rightarrow> (string list \<times> string) list"
  en_times :: time_texts
  en_query_ms :: nat
  en_odd_status :: "json \<Rightarrow> js_error + int"

record 'e server =
  srv_app :: "'e app_state"
  srv_life :: lifecycle
  srv_arrivals :: nat

record http_reply =
  rp_status :: int
  rp_body :: "json option"

text \<open>
  The routes with their path parameters: \<open>registerSystemRoutes\<close> (without the metrics text),
  \<open>registerAuthRoutes\<close>, \<open>registerOrderRoutes\<close>.
\<close>

datatype route =
    Health_Live | Health_Ready
  | Auth_Register | Auth_Login | Auth_Refresh | Auth_Logout
  | Orders_Create | Orders_List | Order_Get string | Order_Patch string

text \<open>The routes with \<open>{ preHandler: authenticate }\<close>.\<close>

fun needs_user :: "route \<Rightarrow> bool" where
  "needs_user Auth_Logout = True"
| "needs_user Orders_Create = True"
| "needs_user Orders_List = True"
| "needs_user (Order_Get i) = True"
| "needs_user (Order_Patch i) = True"
| "needs_user r = False"

section \<open>The handlers\<close>

text \<open>A handler that always returns, in the type of the one that may not.\<close>

definition returning ::
  "('s, response) io \<Rightarrow> 's \<Rightarrow> ((js_error + idempotency_result) \<times> 's) option" where
  "returning h s = (case h s of (r, t) \<Rightarrow> Some (map_sum id result_of r, t))"

text \<open>\<open>input\<close> is \<open>request.body\<close>, on \<open>GET /v1/orders\<close> \<open>request.query\<close>.\<close>

definition run_handler ::
  "'e api_env \<Rightarrow> route \<Rightarrow> http_request \<Rightarrow> json \<Rightarrow> auth_user option \<Rightarrow> 'e app_state
     \<Rightarrow> ((js_error + idempotency_result) \<times> 'e app_state) option" where
  "run_handler E r request input user =
     (let S = en_services E; A = en_auth E; cfg = en_config E; uuid = en_uuid E; issues = en_issues E in
      case r of
        Health_Live \<Rightarrow> returning (io_return get_live)
      | Health_Ready \<Rightarrow> returning (get_ready S cfg (en_query_ms E))
      | Auth_Register \<Rightarrow> returning (post_register S A cfg uuid issues input)
      | Auth_Login \<Rightarrow> returning (post_login S A cfg uuid issues request input)
      | Auth_Refresh \<Rightarrow> returning (post_refresh S A cfg uuid issues input)
      | Auth_Logout \<Rightarrow> returning (post_logout A issues input)
      | Orders_Create \<Rightarrow> post_orders S cfg (en_sha E) uuid issues request user input
      | Orders_List \<Rightarrow> returning (list_orders S cfg (en_times E) issues input user)
      | Order_Get i \<Rightarrow> returning (get_order S cfg issues i user)
      | Order_Patch i \<Rightarrow> returning (patch_order S cfg uuid issues i user input))"

section \<open>One request\<close>

definition bad_status_code :: js_error where
  "bad_status_code = JsError ''Called reply with an invalid status code'' (Some ''FST_ERR_BAD_STATUS_CODE'')"

definition reply_code :: "'e api_env \<Rightarrow> json \<Rightarrow> js_error + int" where
  "reply_code E j = (case j of
     JNum n \<Rightarrow> if 100 \<le> n \<and> n \<le> 599 then Inr n else Inl bad_status_code
   | _ \<Rightarrow> en_odd_status E j)"

text \<open>The error handler: the same answer for every error.\<close>

definition internal_reply :: http_reply where
  "internal_reply = \<lparr>rp_status = 500, rp_body = Some (resp_body internal_error)\<rparr>"

text \<open>A 204 has no body on the wire.\<close>

definition send_result :: "'e api_env \<Rightarrow> js_error + idempotency_result \<Rightarrow> http_reply" where
  "send_result E out = (case out of
     Inl e \<Rightarrow> internal_reply
   | Inr res \<Rightarrow> (case reply_code E (ir_status res) of
       Inl e \<Rightarrow> internal_reply
     | Inr n \<Rightarrow> \<lparr>rp_status = n, rp_body = if n = 204 then None else ir_body res\<rparr>))"

text \<open>A hook that answers itself.\<close>

definition send_response :: "response \<Rightarrow> http_reply" where
  "send_response r = \<lparr>rp_status = resp_status r, rp_body = Some (resp_body r)\<rparr>"

text \<open>The route's own hook and its handler.\<close>

definition run_route ::
  "'e api_env \<Rightarrow> route \<Rightarrow> http_request \<Rightarrow> json \<Rightarrow> 'e app_state \<Rightarrow> (http_reply \<times> 'e app_state) option" where
  "run_route E r request input s =
     (let handle = (\<lambda>user t. map_option (map_prod (send_result E) id) (run_handler E r request input user t)) in
      if \<not> needs_user r then handle None s
      else (case authenticate (en_services E) (en_auth E) (en_config E) request s of
              (Inl e, t) \<Rightarrow> Some (internal_reply, t)
            | (Inr (Inl refusal), t) \<Rightarrow> Some (send_response refusal, t)
            | (Inr (Inr u), t) \<Rightarrow> handle (Some u) t))"

text \<open>The body parser, then the \<open>preHandler\<close> hooks: the rate limiter of the application, the route's own.\<close>

definition after_admission ::
  "'e api_env \<Rightarrow> route \<Rightarrow> http_request \<Rightarrow> js_error + json \<Rightarrow> 'e app_state \<Rightarrow> (http_reply \<times> 'e app_state) option" where
  "after_admission E r request payload s =
     (case payload of
        Inl e \<Rightarrow> Some (internal_reply, s)
      | Inr input \<Rightarrow>
          (case enforceRateLimit (en_services E) (en_config E) request s of
             (Inl e, t) \<Rightarrow> Some (internal_reply, t)
           | (Inr (Some refusal), t) \<Rightarrow> Some (send_response refusal, t)
           | (Inr None, t) \<Rightarrow> run_route E r request input t))"

text \<open>The request id: the header, or a fresh id.\<close>

definition with_request_id :: "'e api_env \<Rightarrow> http_request \<Rightarrow> 'e app_state \<Rightarrow> http_request \<times> 'e app_state" where
  "with_request_id E request s =
     (request\<lparr>req_id := genReqId request (en_uuid E (uuids_used (pg s)))\<rparr>,
      if short_header request ''x-request-id'' = None
      then s\<lparr>pg := (pg s)\<lparr>uuids_used := uuids_used (pg s) + 1\<rparr>\<rparr> else s)"

definition serve ::
  "'e api_env \<Rightarrow> route \<Rightarrow> http_request \<Rightarrow> js_error + json \<Rightarrow> 'e server \<Rightarrow> (http_reply \<times> 'e server) option" where
  "serve E r request payload v =
     (case with_request_id E request (srv_app v) of (request1, s) \<Rightarrow>
      case onRequest (srv_arrivals v) request1 (srv_life v) of
        (Rejected refusal, l) \<Rightarrow>
          Some (send_response refusal,
            v\<lparr>srv_app := s, srv_life := onResponse (srv_arrivals v) (resp_status refusal) l,
              srv_arrivals := srv_arrivals v + 1\<rparr>)
      | (Admitted request2 hs, l) \<Rightarrow>
          map_option (\<lambda>(reply, t).
              (reply, v\<lparr>srv_app := t, srv_life := onResponse (srv_arrivals v) (rp_status reply) l,
                 srv_arrivals := srv_arrivals v + 1\<rparr>))
            (after_admission E r request2 payload (s\<lparr>reply_headers := map_of hs\<rparr>)))"

section \<open>Unfolding a run\<close>

lemma serve_rejected:
  assumes "shuttingDown (srv_life v)"
  shows "serve E r request payload v = Some (send_response service_unavailable,
    v\<lparr>srv_app := snd (with_request_id E request (srv_app v)),
      srv_life := onResponse (srv_arrivals v) 503 (srv_life v), srv_arrivals := srv_arrivals v + 1\<rparr>)"
  using assms by (simp add: serve_def onRequest_def service_unavailable_def error_response_def split: prod.split)

text \<open>The request as the hooks and the handler see it.\<close>

definition admitted_request :: "'e api_env \<Rightarrow> http_request \<Rightarrow> 'e app_state \<Rightarrow> http_request" where
  "admitted_request E request s =
     (let request1 = fst (with_request_id E request s)
      in request1\<lparr>req_correlationId := Some (case short_header request1 ''x-correlation-id'' of Some x \<Rightarrow> x | None \<Rightarrow> req_id request1)\<rparr>)"

definition admitted_state :: "'e api_env \<Rightarrow> http_request \<Rightarrow> 'e app_state \<Rightarrow> 'e app_state" where
  "admitted_state E request s =
     (snd (with_request_id E request s))\<lparr>reply_headers :=
        [''X-Request-Id'' \<mapsto> req_id (admitted_request E request s),
         ''X-Correlation-Id'' \<mapsto> the (req_correlationId (admitted_request E request s))]\<rparr>"

lemma serve_admitted:
  assumes "\<not> shuttingDown (srv_life v)"
  shows "serve E r request payload v = map_option (\<lambda>(reply, t).
      (reply, v\<lparr>srv_app := t, srv_life := onResponse (srv_arrivals v) (rp_status reply)
          ((srv_life v)\<lparr>activeRequests := activeRequests (srv_life v) + 1,
             requestStart := insert (srv_arrivals v) (requestStart (srv_life v)),
             inFlightGauge := inFlightGauge (srv_life v) + 1\<rparr>),
         srv_arrivals := srv_arrivals v + 1\<rparr>))
    (after_admission E r (admitted_request E request (srv_app v)) payload (admitted_state E request (srv_app v)))"
  using assms
  by (simp add: serve_def onRequest_def Let_def admitted_request_def admitted_state_def case_prod_unfold)
    (simp add: fun_upd_twist)

lemma admitted_request_simps [simp]:
  "req_headers (admitted_request E request s) = req_headers request"
  "req_method (admitted_request E request s) = req_method request"
  "req_route (admitted_request E request s) = req_route request"
  "req_url (admitted_request E request s) = req_url request"
  by (simp_all add: admitted_request_def with_request_id_def Let_def)

lemma admitted_state_simps [simp]:
  "ext (admitted_state E request s) = ext s"
  "committed (pg (admitted_state E request s)) = committed (pg s)"
  "pg_script (pg (admitted_state E request s)) = pg_script (pg s)"
  "clients_out (pg (admitted_state E request s)) = clients_out (pg s)"
  "warn_timestamps (admitted_state E request s) = warn_timestamps s"
  by (simp_all add: admitted_state_def with_request_id_def)

end
