(* ===== verification/Seed_Script.thy ===== *)
theory Seed_Script
  imports Api_Server
begin

text \<open>
  The load script \<open>scripts/seed-orders.mjs\<close>: its command line, its account, the body of the
  order with a given number, and its pool of workers, which take the numbers of the orders from
  one shared cursor and send them to the API service of \<open>Api_Server\<close>. Console output is left out.

  A worker is suspended only at \<open>await\<close>, so what it does between two replies is one step:
  \<open>served\<close> is the service working on a request that is under way, \<open>accepted\<close> and \<open>refused\<close> are a
  worker going on with its reply, \<open>unreachable\<close> is a call of \<open>fetch\<close> that fails. The steps of the
  workers interleave freely. The first error ends the process.
\<close>

section \<open>The command line\<close>

text \<open>\<open>process.argv\<close> from its third element on; a later option replaces an earlier one.\<close>

fun seed_args :: "string list \<Rightarrow> (string \<Rightarrow> string option) \<Rightarrow> string \<Rightarrow> string option" where
  "seed_args [] args = args"
| "seed_args (v # rest) args =
     (if \<not> starts_with v ''--'' then seed_args rest args
      else seed_args rest (args(drop 2 v \<mapsto>
        (case rest of
           [] \<Rightarrow> ''true''
         | following # _ \<Rightarrow> if following \<noteq> [] \<and> \<not> starts_with following ''--'' then following else ''true''))))"

record seed_config =
  sc_baseUrl :: string
  sc_orders :: int
  sc_concurrency :: int
  sc_email :: string
  sc_password :: string

definition seed_parseInteger :: "string \<Rightarrow> string \<Rightarrow> js_error + int" where
  "seed_parseInteger raw name = (case parseInt raw of
     None \<Rightarrow> Inl (JsError (''Invalid '' @ name @ '': '' @ raw) None)
   | Some v \<Rightarrow> if v < 1 then Inl (JsError (''Invalid '' @ name @ '': '' @ raw) None) else Inr v)"

text \<open>\<open>args.get(a) ?? process.env[v] ?? d\<close>.\<close>

definition seed_option :: "(string \<Rightarrow> string option) \<Rightarrow> environment \<Rightarrow> string \<Rightarrow> string \<Rightarrow> string \<Rightarrow> string" where
  "seed_option args env a v d = (case args a of Some x \<Rightarrow> x | None \<Rightarrow> (case env v of Some x \<Rightarrow> x | None \<Rightarrow> d))"

definition seed_load_config :: "string list \<Rightarrow> environment \<Rightarrow> js_error + seed_config" where
  "seed_load_config argv env =
     (let args = seed_args argv (\<lambda>_. None) in
      res_bind (seed_parseInteger (seed_option args env ''orders'' ''SEED_ORDERS'' ''1000'') ''orders'') (\<lambda>n.
      res_bind (seed_parseInteger (seed_option args env ''concurrency'' ''SEED_CONCURRENCY'' ''25'') ''concurrency'') (\<lambda>c.
      Inr \<lparr>sc_baseUrl = seed_option args env ''base-url'' ''BASE_URL'' ''http://localhost:8080'',
           sc_orders = n, sc_concurrency = c,
           sc_email = seed_option args env ''email'' ''SEED_USER_EMAIL'' ''seed@example.com'',
           sc_password = seed_option args env ''password'' ''SEED_USER_PASSWORD'' ''correct-horse-battery-staple''\<rparr>)))"

section \<open>Requests\<close>

text \<open>An \<open>HTTP\<close> error carries the response, any other error is one of the platform.\<close>

datatype seed_error = HttpError int | OtherError js_error

definition reply_text :: "http_reply \<Rightarrow> string" where
  "reply_text reply = (case rp_body reply of None \<Rightarrow> [] | Some j \<Rightarrow> JSON_stringify j)"

definition response_ok :: "http_reply \<Rightarrow> bool" where
  "response_ok reply = (200 \<le> rp_status reply \<and> rp_status reply \<le> 299)"

definition unexpected_token :: js_error where
  "unexpected_token = JsError ''Unexpected token'' None"

text \<open>\<open>request\<close> after its \<open>fetch\<close>.\<close>

definition read_reply :: "http_reply \<Rightarrow> seed_error + json" where
  "read_reply reply =
     (case (if reply_text reply = [] then Some JNull else JSON_parse (reply_text reply)) of
        None \<Rightarrow> Inl (OtherError unexpected_token)
      | Some body \<Rightarrow> if response_ok reply then Inr body else Inl (HttpError (rp_status reply)))"

text \<open>What becomes of a call of \<open>fetch\<close>.\<close>

datatype fetch_fate = Delivered | Unreachable js_error | ReplyLost js_error

definition seed_fetch ::
  "'e api_env \<Rightarrow> fetch_fate \<Rightarrow> route \<Rightarrow> http_request \<Rightarrow> json \<Rightarrow> 'e server \<Rightarrow> ((seed_error + json) \<times> 'e server) option" where
  "seed_fetch E fate r request body v = (case fate of
     Unreachable e \<Rightarrow> Some (Inl (OtherError e), v)
   | ReplyLost e \<Rightarrow> map_option (map_prod (\<lambda>reply. Inl (OtherError e)) id) (serve E r request (Inr body) v)
   | Delivered \<Rightarrow> map_option (map_prod read_reply id) (serve E r request (Inr body) v))"

text \<open>A \<open>POST\<close> of the script as the service sees it; \<open>ip\<close> is the address it comes from.\<close>

definition seed_post :: "string \<Rightarrow> string \<Rightarrow> (string \<Rightarrow> header_value option) \<Rightarrow> http_request" where
  "seed_post ip path headers =
     \<lparr>req_method = ''POST'', req_url = path, req_route = Some path, req_ip = ip, req_id = [],
      req_correlationId = None, req_headers = headers\<rparr>"

definition seed_headers :: "string \<Rightarrow> string \<Rightarrow> header_value option" where
  "seed_headers clientId = [''content-type'' \<mapsto> HeaderOne ''application/json'',
     ''x-load-test-client-id'' \<mapsto> HeaderOne clientId]"

section \<open>The account\<close>

text \<open>The text of a value in a template.\<close>

fun js_text :: "json \<Rightarrow> string" where
  "js_text JNull = ''null''"
| "js_text (JBool b) = (if b then ''true'' else ''false'')"
| "js_text (JNum n) = int_to_string n"
| "js_text (JStr s) = s"
| "js_text (JArr xs) = join '','' (map (\<lambda>x. if x = JNull then [] else js_text x) xs)"
| "js_text (JObj ps) = ''[object Object]''"

definition template_text :: "json option \<Rightarrow> string" where
  "template_text v = (case v of None \<Rightarrow> ''undefined'' | Some j \<Rightarrow> js_text j)"

definition read_of_null :: js_error where
  "read_of_null = JsError ''Cannot read properties of null (reading 'accessToken')'' None"

text \<open>\<open>body.accessToken\<close>; \<open>undefined\<close> is \<open>None\<close>.\<close>

definition access_token_of :: "json \<Rightarrow> seed_error + json option" where
  "access_token_of body = (if body = JNull then Inl (OtherError read_of_null) else Inr (json_prop ''accessToken'' body))"

definition seed_credentials :: "seed_config \<Rightarrow> json" where
  "seed_credentials cfg = JObj [(''email'', JStr (sc_email cfg)), (''password'', JStr (sc_password cfg))]"

definition seed_login ::
  "'e api_env \<Rightarrow> seed_config \<Rightarrow> string \<Rightarrow> fetch_fate \<Rightarrow> 'e server \<Rightarrow> ((seed_error + json option) \<times> 'e server) option" where
  "seed_login E cfg ip fate v =
     (case seed_fetch E fate Auth_Login (seed_post ip ''/v1/auth/login'' (seed_headers ''seed-auth-login'')) (seed_credentials cfg) v of
        None \<Rightarrow> None
      | Some (Inl e, w) \<Rightarrow> Some (Inl e, w)
      | Some (Inr body, w) \<Rightarrow> Some (access_token_of body, w))"

definition seed_authenticate ::
  "'e api_env \<Rightarrow> seed_config \<Rightarrow> string \<Rightarrow> fetch_fate \<Rightarrow> fetch_fate \<Rightarrow> 'e server
     \<Rightarrow> ((seed_error + json option) \<times> 'e server) option" where
  "seed_authenticate E cfg ip fate fate' v =
     (case seed_fetch E fate Auth_Register (seed_post ip ''/v1/auth/register'' (seed_headers ''seed-auth-register''))
             (seed_credentials cfg) v of
        None \<Rightarrow> None
      | Some (out, w) \<Rightarrow>
          (case (case out of Inl e \<Rightarrow> Inl e | Inr body \<Rightarrow> access_token_of body) of
             Inr token \<Rightarrow> Some (Inr token, w)
           | Inl error \<Rightarrow> if error \<noteq> HttpError 409 then Some (Inl error, w) else seed_login E cfg ip fate' w))"

section \<open>The orders\<close>

definition padStart :: "nat \<Rightarrow> char \<Rightarrow> string \<Rightarrow> string" where
  "padStart n c s = replicate (n - length s) c @ s"

definition orderBody :: "int \<Rightarrow> json" where
  "orderBody index =
     (let quantity = index mod 5 + 1; unitPriceCents = 500 + (index mod 200) * 37 in
      JObj [(''customerEmail'', JStr (''seed-buyer-'' @ int_to_string index @ ''@example.com'')),
        (''items'', JArr
          [JObj [(''sku'', JStr (''SEED-'' @ padStart 4 CHR ''0'' (int_to_string (index mod 1000)))),
                 (''quantity'', JNum quantity), (''unitPriceCents'', JNum unitPriceCents)],
           JObj [(''sku'', JStr (''ADDON-'' @ padStart 4 CHR ''0'' (int_to_string (index mod 250)))),
                 (''quantity'', JNum 1), (''unitPriceCents'', JNum 199)]])])"

definition order_request :: "string \<Rightarrow> string \<Rightarrow> int \<Rightarrow> http_request" where
  "order_request ip token index =
     seed_post ip ''/v1/orders'' ((seed_headers (''seed-order-'' @ int_to_string index))
       (''authorization'' \<mapsto> HeaderOne (''Bearer '' @ token)))"

section \<open>The workers\<close>

text \<open>\<open>Sending\<close>: the request is under way; \<open>Replied\<close>: its reply is; \<open>Finished\<close>: \<open>runWorker\<close> returned.\<close>

datatype seed_worker = Sending int | Replied int http_reply | Finished

text \<open>\<open>cursor.next()\<close> and what the worker does with the number.\<close>

definition next_job :: "seed_config \<Rightarrow> int \<Rightarrow> seed_worker \<times> int" where
  "next_job cfg current =
     (let index = current + 1 in (if sc_orders cfg < index then Finished else Sending index, index))"

fun start_workers :: "seed_config \<Rightarrow> nat \<Rightarrow> int \<Rightarrow> seed_worker list \<times> int" where
  "start_workers cfg 0 current = ([], current)"
| "start_workers cfg (Suc n) current =
     (let (w, c1) = next_job cfg current; (ws, c2) = start_workers cfg n c1 in (w # ws, c2))"

text \<open>\<open>sd_log\<close> records the requests in the order the service handled them; no code reads it.\<close>

record 'e seeding =
  sd_workers :: "seed_worker list"
  sd_cursor :: int
  sd_server :: "'e server"
  sd_failed :: bool
  sd_log :: "(int \<times> http_reply) list"

definition seed_start :: "seed_config \<Rightarrow> 'e server \<Rightarrow> 'e seeding" where
  "seed_start cfg v =
     (let (ws, c) = start_workers cfg (nat (sc_concurrency cfg)) 0
      in \<lparr>sd_workers = ws, sd_cursor = c, sd_server = v, sd_failed = False, sd_log = []\<rparr>)"

inductive seed_step :: "'e api_env \<Rightarrow> seed_config \<Rightarrow> string \<Rightarrow> string \<Rightarrow> 'e seeding \<Rightarrow> 'e seeding \<Rightarrow> bool"
  for E cfg ip token where
  served: "\<not> sd_failed st \<Longrightarrow> k < length (sd_workers st) \<Longrightarrow> sd_workers st ! k = Sending i \<Longrightarrow>
     serve E Orders_Create (order_request ip token i) (Inr (orderBody i)) (sd_server st) = Some (reply, v) \<Longrightarrow>
     seed_step E cfg ip token st (st\<lparr>sd_workers := (sd_workers st)[k := Replied i reply], sd_server := v,
       sd_log := sd_log st @ [(i, reply)]\<rparr>)"
| accepted: "\<not> sd_failed st \<Longrightarrow> k < length (sd_workers st) \<Longrightarrow> sd_workers st ! k = Replied i reply \<Longrightarrow>
     read_reply reply = Inr body \<Longrightarrow> next_job cfg (sd_cursor st) = (w, c) \<Longrightarrow>
     seed_step E cfg ip token st (st\<lparr>sd_workers := (sd_workers st)[k := w], sd_cursor := c\<rparr>)"
| refused: "\<not> sd_failed st \<Longrightarrow> k < length (sd_workers st) \<Longrightarrow> sd_workers st ! k = Replied i reply \<Longrightarrow>
     read_reply reply = Inl e \<Longrightarrow> seed_step E cfg ip token st (st\<lparr>sd_failed := True\<rparr>)"
| unreachable: "\<not> sd_failed st \<Longrightarrow> k < length (sd_workers st) \<Longrightarrow> sd_workers st ! k \<noteq> Finished \<Longrightarrow>
     seed_step E cfg ip token st (st\<lparr>sd_failed := True\<rparr>)"

text \<open>A run with its number of steps; \<open>Promise.all\<close> resolves when every worker has returned.\<close>

inductive seed_run :: "'e api_env \<Rightarrow> seed_config \<Rightarrow> string \<Rightarrow> string \<Rightarrow> 'e seeding \<Rightarrow> nat \<Rightarrow> 'e seeding \<Rightarrow> bool"
  for E cfg ip token where
  none: "seed_run E cfg ip token st 0 st"
| more: "seed_run E cfg ip token st n st1 \<Longrightarrow> seed_step E cfg ip token st1 st2 \<Longrightarrow> seed_run E cfg ip token st (Suc n) st2"

definition seed_done :: "'e seeding \<Rightarrow> bool" where
  "seed_done st \<longleftrightarrow> \<not> sd_failed st \<and> list_all (\<lambda>w. w = Finished) (sd_workers st)"

inductive_cases seed_step_cases: "seed_step E cfg ip token st st'"

end
