(* ===== verification/Api_Server_Laws.thy ===== *)
theory Api_Server_Laws
  imports Api_Server Auth_Laws Order_Listing
begin

text \<open>
  What one request may do to the state, route by route: the connections of the pool are given
  back, and only \<open>POST\<close> and \<open>PATCH\<close> of the order routes change an order, one of the caller.
\<close>

section \<open>The frame\<close>

text \<open>What all other handlers leave alone: the count of connections in use and the orders.\<close>

definition frame :: "('e, 'm) app_state_scheme \<Rightarrow> int \<times> order_row list" where
  "frame s = (clients_out (pg s), orders (committed (pg s)))"

named_theorems frame_intros \<open>computations that keep the frame\<close>

declare keeps_intros [frame_intros]

lemma keeps_frame_pg: "keeps pg m \<Longrightarrow> keeps frame m"
  by (simp add: keeps_def frame_def)

lemma keeps_frame_cache [frame_intros]:
  "keeps frame (cacheGet S cfg key)" "keeps frame (cacheSet S cfg key v ttl)"
  "keeps frame (cacheGetNamespaceVersion S cfg ns)" "keeps frame (parse_json t)"
  "keeps frame (warnOncePerMinute S key message err)" "keeps frame (set_header name h)"
  by (rule keeps_frame_pg; intro keeps_intros)+

lemma keeps_frame_redis [frame_intros]: "keeps frame (await (ext_call c))"
  by (rule keeps_frame_pg) (simp add: keeps_def await_apply)

lemma keeps_frame_option [frame_intros]:
  "(x = None \<Longrightarrow> keeps frame m) \<Longrightarrow> (\<And>a. x = Some a \<Longrightarrow> keeps frame (f a)) \<Longrightarrow>
   keeps frame (case x of None \<Rightarrow> m | Some a \<Rightarrow> f a)"
  by (cases x) simp_all

lemma keeps_frame_prod [frame_intros]:
  "(\<And>a b. keeps frame (f a b)) \<Longrightarrow> keeps frame (case x of (a, b) \<Rightarrow> f a b)"
  by (cases x) simp

lemma keeps_frame_cache_read [frame_intros]:
  "(\<And>v. keeps frame (f v)) \<Longrightarrow> (\<And>k. keeps frame (g k)) \<Longrightarrow> keeps frame (case r of Returned v \<Rightarrow> f v | Continue k \<Rightarrow> g k)"
  by (cases r) simp_all

lemma keeps_frame_draw [frame_intros]: "keeps frame (randomUUID uuid)"
  by (simp add: keeps_def frame_def randomUUID_def io_bind_apply)

lemma keeps_frame_now [frame_intros]: "keeps frame (js_now S)"
  by (simp add: keeps_def js_now_def)

lemma keeps_frame_lift [frame_intros]: "keeps frame (lift_result r)"
  by (simp add: keeps_def lift_result_def split: sum.split)

lemma keeps_frame_pool:
  assumes "\<And>now d a d'. stmt now d = Inr (a, d') \<Longrightarrow> orders d' = orders d"
  shows "keeps frame (on_pg (pg_pool stmt))"
  unfolding keeps_wp wp_on_pg
  by (intro allI pg_pool_rule) (use assms in \<open>auto simp: frame_def pg_same_def\<close>)

lemma keeps_frame_statements [frame_intros]:
  "keeps frame (on_pg (pg_pool (insert_user uid email hash)))"
  "keeps frame (on_pg (pg_pool (select_user email)))"
  "keeps frame (on_pg (pg_pool (record_login_failure uid n until)))"
  "keeps frame (on_pg (pg_pool (clear_login_failures uid)))"
  "keeps frame (on_pg (pg_pool (insert_refresh_token tid uid hash expires)))"
  "keeps frame (on_pg (pg_pool (select_token hash)))"
  "keeps frame (on_pg (pg_pool (revoke_active_of uid)))"
  "keeps frame (on_pg (pg_pool (revoke_token tid)))"
  "keeps frame (on_pg (pg_pool (revoke_hash hash)))"
  "keeps frame (on_pg (pg_pool select_one))"
  "keeps frame (on_pg (pg_pool (select_order oid)))"
  "keeps frame (on_pg (pg_pool (select_page T q userId)))"
  "keeps frame (on_pg (pg_pool (select_count T q userId)))"
  by (rule keeps_frame_pool, auto simp: insert_user_def select_user_def record_login_failure_def clear_login_failures_def
      insert_refresh_token_def select_token_def revoke_active_of_def revoke_token_def revoke_hash_def revoke_where_def
      update_user_def select_one_def select_order_def select_page_def select_count_def Let_def split: if_splits)+

section \<open>The handlers that keep it\<close>

lemma keeps_frame_hooks [frame_intros]:
  "keeps frame (enforceRateLimit S cfg request)" "keeps frame (authenticate S A cfg request)"
proof -
  show "keeps frame (enforceRateLimit S cfg request)"
    unfolding enforceRateLimit_def Let_def by (intro frame_intros)
  show "keeps frame (authenticate S A cfg request)"
    unfolding authenticate_def
    by (auto intro!: frame_intros simp del: io_return_apply io_throw_apply split: option.split header_value.split json.split)
qed

lemma keeps_frame_auth [frame_intros]:
  "keeps frame (post_register S A cfg uuid issues body)"
  "keeps frame (post_login S A cfg uuid issues request body)"
  "keeps frame (post_refresh S A cfg uuid issues body)"
  "keeps frame (post_logout A issues body)"
proof -
  have tokens: "keeps frame (createTokens S A cfg uuid user)" for user
    unfolding createTokens_def newRefreshToken_def by (intro frame_intros)
  have failed: "keeps frame (login_failed S cfg ipKey user)" for ipKey user
    unfolding login_failed_def Let_def by (intro frame_intros)
  have draw: "keeps frame (io_modify (\<lambda>s. s\<lparr>pg := (pg s)\<lparr>uuids_used := uuids_used (pg s) + 1\<rparr>\<rparr>))"
    by (simp add: keeps_def frame_def)
  show "keeps frame (post_register S A cfg uuid issues body)"
    unfolding post_register_def by (intro frame_intros tokens draw)
  show "keeps frame (post_login S A cfg uuid issues request body)"
    unfolding post_login_def login_succeeded_def Let_def by (intro frame_intros tokens failed)
  show "keeps frame (post_refresh S A cfg uuid issues body)"
    unfolding post_refresh_def refresh_lookup_def refresh_finish_def by (intro frame_intros tokens)
  show "keeps frame (post_logout A issues body)"
    unfolding post_logout_def by (intro frame_intros)
qed

lemma keeps_frame_caches [frame_intros]:
  "keeps frame f \<Longrightarrow> keeps frame (withEntityCache S cfg eo f)"
  "keeps frame g \<Longrightarrow> keeps frame (withListCache S cfg lo g)"
  "keeps frame h \<Longrightarrow> keeps frame (withCountCache S cfg lo h)"
  unfolding withEntityCache_def entityCacheRead_def entityCacheWrite_def withListCache_def listCacheRead_def
    listCacheWrite_def withCountCache_def countCacheRead_def countCacheWrite_def Let_def
  by (intro frame_intros; assumption)+

lemma keeps_frame_reads [frame_intros]:
  "keeps frame (get_order S cfg issues oid user)" "keeps frame (list_orders S cfg T issues raw user)"
  "keeps frame (get_ready S cfg ms)"
proof -
  show "keeps frame (get_order S cfg issues oid user)"
    unfolding get_order_def fetch_order_def by (intro frame_intros)
  show "keeps frame (list_orders S cfg T issues raw user)"
    unfolding list_orders_def fetchOrdersPage_def by (intro frame_intros)
  have "keeps frame (query_within d ms select_one :: (('e, 'm) app_state_scheme, unit) io)" for d
    using keeps_frame_statements(10)[unfolded keeps_def]
    by (simp add: keeps_def query_within_def withTimeout_def case_prod_unfold)
  moreover have "keeps frame (withTimeout (ext_call c) d)" for d c
    by (rule keeps_frame_pg) (simp add: keeps_withTimeout)
  ultimately show "keeps frame (get_ready S cfg ms)"
    unfolding get_ready_def by (intro frame_intros)
qed

section \<open>The handlers that write orders\<close>

definition orders_of :: "database \<Rightarrow> string \<Rightarrow> order_row list" where
  "orders_of d x = filter (\<lambda>row. o_user_id row = x) (orders d)"

text \<open>
  What a request may do to the orders: those of \<open>x\<close> change only if \<open>x\<close> is the caller, in the
  spelling of the token or of the database.
\<close>

definition own_change :: "auth_user option \<Rightarrow> database \<Rightarrow> database \<Rightarrow> bool" where
  "own_change user d d' \<longleftrightarrow> (\<forall>x. orders_of d' x \<noteq> orders_of d x \<longrightarrow>
     (\<exists>u. user = Some u \<and> (x = user_id u \<or> x = uuid_in (user_id u))))"

lemma own_change_same: "orders d' = orders d \<Longrightarrow> own_change user d d'"
  by (simp add: own_change_def orders_of_def)

lemma created_own: "created (user_id u) dat d d' row \<Longrightarrow> own_change (Some u) d d'"
  by (auto simp: created_def own_change_def orders_of_def order_added_def new_order_rows_def)

lemma status_changed_own:
  assumes "status_changed (uuid_in oid) actor frm to now d d'" and "orders_ok d"
    and "find_order oid d = Some cur" and "o_user_id cur = user_id u"
  shows "own_change (Some u) d d'"
proof -
  let ?f = "\<lambda>row. if o_id row = uuid_in oid then row\<lparr>o_status := to, o_updated_at := now\<rparr> else row"
  have d': "orders d' = map ?f (orders d)" using assms(1) by (auto simp: status_changed_def)
  have cur: "cur \<in> set (orders d)" "o_id cur = uuid_in oid" using find_order_Some[OF assms(3)] by simp_all
  have unique: "row = cur" if "row \<in> set (orders d)" "o_id row = uuid_in oid" for row
    using assms(2) cur that by (auto simp: orders_ok_def distinct_map inj_on_def)
  have "filter (\<lambda>row. o_user_id row = x) (map ?f (orders d)) = filter (\<lambda>row. o_user_id row = x) (orders d)"
    if "x \<noteq> user_id u" for x
  proof -
    have "?f row = row" if "row \<in> set (orders d)" "o_user_id row = x" for row
      using unique[OF that(1)] that \<open>x \<noteq> user_id u\<close> assms(4) by auto
    moreover have "o_user_id (?f row) = o_user_id row" for row by simp
    ultimately show ?thesis by (simp add: filter_map comp_def) (rule map_idI; simp)
  qed
  then show ?thesis by (auto simp: own_change_def orders_of_def d')
qed

lemma patch_spec_own:
  assumes "patch_spec d now oid u target r d'" and "orders_ok d"
  shows "own_change (Some u) d d'"
  using assms status_changed_own[OF _ assms(2), of oid "user_id u" _ target now d' _ u]
  by (auto simp: patch_spec_def own_change_same split: option.splits if_splits)

lemma patch_order_writes:
  fixes s :: "('e, 'm) app_state_scheme"
  assumes "patch_order S cfg uuid issues oid user body s = (out, t)"
  shows "clients_out (pg t) = clients_out (pg s) \<and>
    (orders_ok (committed (pg s)) \<longrightarrow> own_change user (committed (pg s)) (committed (pg t)))"
proof -
  consider (rejected) r where "patch_order S cfg uuid issues oid user body = (io_return r :: (('e, 'm) app_state_scheme, response) io)"
    | (runs) u target where "user = Some u" "patchOrderSchema body = Some target" "orderIdParamsSchema oid"
    by (rule patch_order_cases)
  then show ?thesis
  proof cases
    case (rejected r)
    with assms show ?thesis by (auto simp: own_change_same)
  next
    case (runs u target)
    from wp_outcome[OF patch_order_wp[OF runs(3,2) refl refl refl] assms[unfolded runs(1)]] patch_spec_own
    show ?thesis unfolding runs(1) by (auto simp: patch_spec_error_def own_change_same split: sum.splits)
  qed
qed

lemma post_orders_writes:
  fixes s :: "('e, 'm) app_state_scheme"
  assumes "post_orders S cfg sha uuid issues request user body s = Some (out, t)"
  shows "clients_out (pg t) = clients_out (pg s) \<and> own_change user (committed (pg s)) (committed (pg t))"
proof (cases "\<exists>dat u. createOrderSchema body = Some dat \<and> user = Some u")
  case False
  with assms have "t = s" by (auto simp: post_orders_def split: option.splits)
  then show ?thesis by (simp add: own_change_same)
next
  case True
  then obtain dat u where parsed: "createOrderSchema body = Some dat" "user = Some u" by blast
  with assms have "withIdempotency S sha (order_options request u dat)
      (createOrderTransactionally S cfg uuid request (user_id u) dat) s = Some (out, t)"
    by (simp add: post_orders_parsed)
  then show ?thesis
  proof (cases rule: withIdempotency_pg)
    case untouched
    then show ?thesis by (simp add: own_change_same)
  next
    case (ran s1 r t1)
    from wp_outcome[OF createOrder_wp ran(2)] ran(1,3) show ?thesis
      unfolding parsed(2) by (auto simp: own_change_same dest: created_own split: sum.splits)
  qed
qed

lemma post_orders_returns:
  assumes "redis_kv S store"
    and "\<And>key u w. user = Some u \<Longrightarrow> store (ext s) (order_record_key u key) = Some w \<Longrightarrow>
      w \<noteq> [] \<and> (JSON_parse w \<noteq> None \<or> redis_answers S store)"
  shows "\<exists>out t. post_orders S cfg sha uuid issues request user body s = Some (out, t)"
proof (cases "\<exists>dat u. createOrderSchema body = Some dat \<and> user = Some u")
  case False
  then show ?thesis by (auto simp: post_orders_def split: option.splits)
next
  case True
  then obtain dat u where parsed: "createOrderSchema body = Some dat" "user = Some u" by blast
  have "w \<noteq> [] \<and> (JSON_parse w \<noteq> None \<or> redis_answers S store)"
    if "store (ext s) (idem_key (order_options request u dat) key) = Some w" for key w
    using assms(2)[OF parsed(2)] that by simp
  then show ?thesis unfolding parsed(2) post_orders_parsed[OF parsed(1)]
    by (intro withIdempotency_settles[OF assms(1)]) blast
qed

section \<open>The rate limiter's key\<close>

context redis_expiring
begin

lemma incr_other: "k \<noteq> key \<Longrightarrow> redis_incr S key e = (p, e') \<Longrightarrow> store e' k = store e k"
  using incr_ok[of key e p e'] incr_err[of key e p e'] by (cases "outcome p") fastforce+

text \<open>The limiter touches one key, which starts with \<open>rate:\<close>.\<close>

lemma limit_keeps_store:
  assumes "0 < rateLimitWindowSeconds cfg" and "take 5 k \<noteq> ''rate:''"
  shows "keeps (\<lambda>s. store (ext s) k) (enforceRateLimit S cfg request)"
proof -
  have other: "k \<noteq> rate_key S cfg request e" for e using assms(2) by (auto simp: rate_key_def)
  note rules = keeps_intros keeps_store_await keeps_store_header keeps_store_warn
  show ?thesis
    unfolding enforceRateLimit_def Let_def
    by (rule keeps_if, rule keeps_return, rule keeps_get_bind, rule keeps_applied, intro rules)
      (erule incr_other[OF other], simp_all add: expire_store[OF _ assms(1)] ttl_store)
qed

end

interpretation stub: redis_expiring stub_services "\<lambda>m. m"
  by unfold_locales (auto simp: stub_services_def missing_method_def)

section \<open>Every handler\<close>

definition writes_orders :: "route \<Rightarrow> bool" where
  "writes_orders r \<longleftrightarrow> r = Orders_Create \<or> (\<exists>i. r = Order_Patch i)"

lemma returning_keeps:
  "keeps frame h \<Longrightarrow> returning h s = Some (out, t) \<Longrightarrow> frame t = frame s"
  by (cases "h s") (auto simp: returning_def dest: keepsD)

lemma run_handler_reads:
  assumes "\<not> writes_orders r" and "run_handler E r request input user s = Some (out, t)"
  shows "frame t = frame s"
proof -
  have "keeps frame (io_return get_live :: (('e, unit) app_state_scheme, response) io)" by (intro keeps_intros)
  note rules = this keeps_frame_auth keeps_frame_reads
  show ?thesis
    using assms by (cases r) (auto simp: run_handler_def writes_orders_def Let_def intro: returning_keeps rules)
qed

lemma run_handler_writes:
  assumes "run_handler E r request input user s = Some (out, t)"
  shows "clients_out (pg t) = clients_out (pg s) \<and>
    (if writes_orders r then orders_ok (committed (pg s)) \<longrightarrow> own_change user (committed (pg s)) (committed (pg t))
     else orders (committed (pg t)) = orders (committed (pg s)))"
proof (cases "writes_orders r")
  case False
  then show ?thesis using run_handler_reads[OF False assms] by (simp add: frame_def)
next
  case True
  then consider "r = Orders_Create" | i where "r = Order_Patch i" by (auto simp: writes_orders_def)
  then show ?thesis
  proof cases
    case 1
    with assms show ?thesis using post_orders_writes by (fastforce simp: run_handler_def Let_def writes_orders_def)
  next
    case (2 i)
    obtain r' t' where run: "patch_order (en_services E) (en_config E) (en_uuid E) (en_issues E) i user input s = (r', t')" by fastforce
    with assms 2 have "t' = t" by (simp add: run_handler_def Let_def returning_def)
    with patch_order_writes[OF run] 2 show ?thesis by (simp add: writes_orders_def)
  qed
qed

end
