(* ===== verification/Api_Server_Properties.thy ===== *)
theory Api_Server_Properties
  imports Api_Server_Laws Auth_Witnesses List_Privacy
begin

text \<open>
  Properties of the service as a whole: who can change an order, that every request is answered
  and gives back what it took, and what becomes of a payload the web framework cannot parse.
\<close>

section \<open>The bearer check as a function\<close>

text \<open>The user a request proves to be at a time.\<close>

definition bearer_user :: "auth_lib \<Rightarrow> api_config \<Rightarrow> http_request \<Rightarrow> int \<Rightarrow> auth_user option" where
  "bearer_user A cfg request now = (case req_headers request ''authorization'' of
     Some (HeaderOne authorization) \<Rightarrow>
       if starts_with authorization ''Bearer ''
       then (case jwt_verify A (drop (length ''Bearer '') authorization) (jwtAccessSecret cfg) now of
               None \<Rightarrow> None
             | Some decoded \<Rightarrow> (case (json_prop ''sub'' decoded, json_prop ''email'' decoded) of
                   (Some (JStr i), Some (JStr e)) \<Rightarrow> Some \<lparr>user_id = i, user_email = e\<rparr>
                 | _ \<Rightarrow> None))
       else None
   | _ \<Rightarrow> None)"

lemma keeps_authenticate: "keeps (\<lambda>s. s) (authenticate S A cfg request)"
  unfolding authenticate_def js_now_def
  by (auto intro!: keeps_intros simp del: io_return_apply io_throw_apply split: option.split header_value.split json.split)

lemma authenticate_state: "snd (authenticate S A cfg request s) = s"
  by (rule keeps_authenticate[unfolded keeps_def, rule_format])

lemma authenticate_user:
  "authenticate S A cfg request s = (Inr (Inr u), t) \<Longrightarrow> bearer_user A cfg request (date_now S (ext s)) = Some u"
  by (auto simp: authenticate_def bearer_user_def js_now_def io_bind_apply split: option.splits header_value.splits
      if_splits json.splits)

lemma authenticate_refused:
  assumes "bearer_user A cfg request (date_now S (ext s)) = None"
  shows "\<exists>r. authenticate S A cfg request s = (Inr (Inl r), s) \<and> resp_status r = 401 \<or>
    (\<exists>e. authenticate S A cfg request s = (Inl e, s))"
proof (cases "authenticate S A cfg request s")
  case (Pair out t)
  have t: "t = s" using authenticate_state[of S A cfg request s] Pair by simp
  show ?thesis
  proof (cases out)
    case (Inl e)
    with Pair t show ?thesis by blast
  next
    case (Inr x)
    then obtain r where r: "x = Inl r" using authenticate_user[of S A cfg request s _ t] Pair assms by (cases x) auto
    have "resp_status r = 401" using Pair Inr r
      by (auto simp: authenticate_def js_now_def io_bind_apply unauthenticated_because_def error_response_def
          split: option.splits header_value.splits if_splits json.splits)
    with Pair t Inr r show ?thesis by blast
  qed
qed

section \<open>The pipeline\<close>

lemma keeps_pg_await: "keeps pg (await (ext_call c))"
  by (simp add: keeps_def await_apply)

lemma keeps_pg_limit: "keeps pg (enforceRateLimit S cfg request)"
  unfolding enforceRateLimit_def Let_def
  by (auto intro!: keeps_intros keeps_pg_await simp del: io_return_apply split: if_splits)

text \<open>The clock when the bearer check reads it: after the rate limiter.\<close>

definition check_time :: "'e api_env \<Rightarrow> http_request \<Rightarrow> 'e app_state \<Rightarrow> int" where
  "check_time E request s = date_now (en_services E) (ext (snd (enforceRateLimit (en_services E) (en_config E)
     (admitted_request E request s) (admitted_state E request s))))"

lemma run_route_writes:
  assumes "run_route E r request input s = Some (reply, t)"
  shows "clients_out (pg t) = clients_out (pg s) \<and>
    (orders_ok (committed (pg s)) \<longrightarrow> orders_of (committed (pg t)) x \<noteq> orders_of (committed (pg s)) x \<longrightarrow> writes_orders r \<and>
      (\<exists>u. bearer_user (en_auth E) (en_config E) request (date_now (en_services E) (ext s)) = Some u \<and>
         (x = user_id u \<or> x = uuid_in (user_id u))))"
proof (cases "needs_user r")
  case False
  then have "\<not> writes_orders r" by (cases r) (auto simp: writes_orders_def)
  with False assms run_handler_reads[of r E request input None s] show ?thesis
    by (auto simp: run_route_def frame_def orders_of_def)
next
  case True
  obtain out t1 where auth: "authenticate (en_services E) (en_auth E) (en_config E) request s = (out, t1)" by fastforce
  then have t1: "t1 = s" using authenticate_state[of "en_services E" "en_auth E" "en_config E" request s] by simp
  show ?thesis
  proof (cases "\<exists>u. out = Inr (Inr u)")
    case False
    then have "t = s" using assms auth t1 True by (auto simp: run_route_def split: sum.splits)
    then show ?thesis by simp
  next
    case user: True
    then obtain u where out: "out = Inr (Inr u)" by blast
    have bearer: "bearer_user (en_auth E) (en_config E) request (date_now (en_services E) (ext s)) = Some u"
      using authenticate_user auth out by blast
    obtain o' where "run_handler E r request input (Some u) s = Some (o', t)"
      using assms auth out t1 True by (auto simp: run_route_def Let_def)
    from run_handler_writes[OF this] bearer show ?thesis
      by (auto simp: own_change_def orders_of_def split: if_splits)
  qed
qed

lemma after_admission_writes:
  assumes "after_admission E r request payload s = Some (reply, t)"
  shows "clients_out (pg t) = clients_out (pg s) \<and>
    (orders_ok (committed (pg s)) \<longrightarrow> orders_of (committed (pg t)) x \<noteq> orders_of (committed (pg s)) x \<longrightarrow> writes_orders r \<and>
      (\<exists>u. bearer_user (en_auth E) (en_config E) request
           (date_now (en_services E) (ext (snd (enforceRateLimit (en_services E) (en_config E) request s)))) = Some u \<and>
         (x = user_id u \<or> x = uuid_in (user_id u))))"
proof (cases payload)
  case (Inl e)
  with assms show ?thesis by (simp add: after_admission_def)
next
  case (Inr input)
  obtain out t1 where limit: "enforceRateLimit (en_services E) (en_config E) request s = (out, t1)" by fastforce
  have pg: "pg t1 = pg s" using keepsD[OF keeps_pg_limit limit] .
  show ?thesis
  proof (cases "out = Inr None")
    case False
    then have "t = t1" using assms Inr limit by (auto simp: after_admission_def split: sum.splits option.splits)
    then show ?thesis using pg by simp
  next
    case True
    then have "run_route E r request input t1 = Some (reply, t)" using assms Inr limit by (simp add: after_admission_def)
    from run_route_writes[OF this, of x] pg limit show ?thesis by simp
  qed
qed

lemma limit_status: "enforceRateLimit S cfg request s = (Inr (Some refusal), t) \<Longrightarrow> resp_status refusal = 429"
  by (auto simp: enforceRateLimit_def io_bind_apply io_catch_apply Let_def too_many_requests_def error_response_def
      split: if_splits prod.splits sum.splits)

section \<open>Who changes an order\<close>

text \<open>C2: Only its owner changes an order. Whatever a request is (any route, any headers and payload, with any
  failures of Redis and of the database): if the orders of a user differ after it, it was a \<open>POST\<close>
  or a \<open>PATCH\<close> of the order routes with a bearer token that verified, at the time of the check, for
  just that user.\<close>

theorem only_owner_changes_orders:
  assumes "orders_ok (committed (pg (srv_app v)))" and "serve E r request payload v = Some (reply, v')"
    and "orders_of (committed (pg (srv_app v'))) x \<noteq> orders_of (committed (pg (srv_app v))) x"
  shows "(r = Orders_Create \<or> (\<exists>i. r = Order_Patch i)) \<and>
    (\<exists>u. bearer_user (en_auth E) (en_config E) request (check_time E request (srv_app v)) = Some u \<and>
       (x = user_id u \<or> x = uuid_in (user_id u)))"
proof (cases "shuttingDown (srv_life v)")
  case True
  have "committed (pg (snd (with_request_id E request s))) = committed (pg s)" for s
    by (simp add: with_request_id_def)
  with True assms(2,3) show ?thesis by (auto simp: serve_rejected)
next
  case False
  let ?request = "admitted_request E request (srv_app v)" and ?s = "admitted_state E request (srv_app v)"
  obtain t where run: "after_admission E r ?request payload ?s = Some (reply, t)" and t: "srv_app v' = t"
    using assms(2) by (auto simp: serve_admitted[OF False])
  have ok: "orders_ok (committed (pg ?s))" using assms(1) by simp
  have "bearer_user A cfg ?request = bearer_user A cfg request" for A cfg by (rule ext) (simp add: bearer_user_def)
  with after_admission_writes[OF run, of x] ok assms(3) t show ?thesis
    by (simp add: check_time_def writes_orders_def)
qed

text \<open>The order routes and the logout serve nobody without a bearer token that verifies at the time of the
  check: whatever else the request holds, and in every state, the answer is an error, 401, 429 of the
  limiter, 500 or 503 during the shutdown.\<close>

theorem order_routes_need_token:
  assumes "needs_user r" and "serve E r request payload v = Some (reply, v')"
    and "bearer_user (en_auth E) (en_config E) request (check_time E request (srv_app v)) = None"
  shows "rp_status reply \<in> {401, 429, 500, 503}"
proof (cases "shuttingDown (srv_life v)")
  case True
  with assms(2) show ?thesis
    by (auto simp: serve_rejected send_response_def service_unavailable_def error_response_def)
next
  case False
  let ?request = "admitted_request E request (srv_app v)" and ?s = "admitted_state E request (srv_app v)"
  let ?limit = "enforceRateLimit (en_services E) (en_config E) ?request"
  obtain t where run: "after_admission E r ?request payload ?s = Some (reply, t)"
    using assms(2) by (auto simp: serve_admitted[OF False])
  have bearer: "bearer_user (en_auth E) (en_config E) ?request (date_now (en_services E) (ext (snd (?limit ?s)))) = None"
    using assms(3) by (simp add: check_time_def bearer_user_def)
  show ?thesis
  proof (cases payload)
    case (Inl e)
    with run show ?thesis by (auto simp: after_admission_def internal_reply_def)
  next
    case (Inr input)
    obtain out t1 where limit: "?limit ?s = (out, t1)" by fastforce
    show ?thesis
    proof (cases "out = Inr None")
      case True
      with authenticate_refused[of "en_auth E" "en_config E" ?request "en_services E" t1] bearer limit run Inr assms(1)
      show ?thesis
        by (auto simp: after_admission_def run_route_def internal_reply_def send_response_def)
    next
      case False
      with run Inr limit show ?thesis
        by (auto simp: after_admission_def internal_reply_def send_response_def dest: limit_status split: sum.splits option.splits)
    qed
  qed
qed

section \<open>An order created over HTTP\<close>

lemma authenticate_accepts:
  "bearer_user A cfg request (date_now S (ext s)) = Some u \<Longrightarrow> authenticate S A cfg request s = (Inr (Inr u), s)"
  by (auto simp: authenticate_def bearer_user_def js_now_def io_bind_apply split: option.splits header_value.splits
      if_splits json.splits)

lemma send_reply_of [simp]: "send_result E (Inr (result_of (order_reply_of row))) = send_response (order_reply_of row)"
  by (simp add: send_result_def result_of_def order_reply_of_def reply_code_def send_response_def)

lemma post_orders_keyless:
  assumes "readIdempotencyKey request = None" and "createOrderSchema body = Some dat"
  shows "post_orders S cfg sha uuid issues request (Some u) body s =
    (case createOrderTransactionally S cfg uuid request (user_id u) dat s of (out, t) \<Rightarrow> Some (map_sum id result_of out, t))"
  using assms
  by (simp add: post_orders_parsed) (subst withIdempotency.simps, auto simp: order_options_def io_bind_apply split: prod.split sum.split)

text \<open>A request without an \<open>Idempotency-Key\<close> that is not answered with an error created its order.\<close>

lemma serve_created:
  assumes "serve E Orders_Create request (Inr body) v = Some (reply, v')" and "rp_status reply < 400"
    and "readIdempotencyKey request = None"
  shows "\<exists>u dat row. bearer_user (en_auth E) (en_config E) request (check_time E request (srv_app v)) = Some u \<and>
    createOrderSchema body = Some dat \<and>
    created (user_id u) dat (committed (pg (srv_app v))) (committed (pg (srv_app v'))) row \<and>
    reply = send_response (order_reply_of row)"
proof (cases "shuttingDown (srv_life v)")
  case True
  with assms show ?thesis by (auto simp: serve_rejected send_response_def service_unavailable_def error_response_def)
next
  case False
  let ?request = "admitted_request E request (srv_app v)" and ?s = "admitted_state E request (srv_app v)"
  obtain t where run: "after_admission E Orders_Create ?request (Inr body) ?s = Some (reply, t)" and t: "srv_app v' = t"
    using assms(1) by (auto simp: serve_admitted[OF False])
  obtain out t1 where limit: "enforceRateLimit (en_services E) (en_config E) ?request ?s = (out, t1)" by fastforce
  have pg1: "pg t1 = pg ?s" using keepsD[OF keeps_pg_limit limit] .
  have limited: "resp_status refusal = 429" if "out = Inr (Some refusal)" for refusal
    using limit_status[of _ _ _ _ _ t1] limit that by blast
  have out: "out = Inr None"
    using run limit limited assms(2)
    by (auto simp: after_admission_def internal_reply_def send_response_def split: sum.splits option.splits)
  obtain a t2 where auth: "authenticate (en_services E) (en_auth E) (en_config E) ?request t1 = (a, t2)" by fastforce
  then have t2: "t2 = t1" using authenticate_state[of "en_services E" "en_auth E" "en_config E" ?request t1] by simp
  have time: "date_now (en_services E) (ext t1) = check_time E request (srv_app v)" by (simp add: check_time_def limit)
  have same_bearer: "bearer_user A cfg ?request = bearer_user A cfg request" for A cfg by (rule ext) (simp add: bearer_user_def)
  obtain u where u: "bearer_user (en_auth E) (en_config E) ?request (date_now (en_services E) (ext t1)) = Some u"
  proof (cases "bearer_user (en_auth E) (en_config E) ?request (date_now (en_services E) (ext t1))")
    case None
    from authenticate_refused[OF None] run limit out assms(2) show thesis
      by (auto simp: after_admission_def run_route_def internal_reply_def send_response_def)
  qed
  note accepted = authenticate_accepts[OF u]
  obtain o' where handled: "post_orders (en_services E) (en_config E) (en_sha E) (en_uuid E) (en_issues E) ?request (Some u) body t1 = Some (o', t)"
    and reply: "reply = send_result E o'"
    using run limit out accepted by (auto simp: after_admission_def run_route_def run_handler_def Let_def)
  have "\<exists>dat. createOrderSchema body = Some dat"
  proof (rule ccontr)
    assume "\<nexists>dat. createOrderSchema body = Some dat"
    with handled reply assms(2) show False
      by (auto simp: post_orders_def result_of_def validationError_def error_response_def send_result_def reply_code_def)
  qed
  then obtain dat where dat: "createOrderSchema body = Some dat" by blast
  have "readIdempotencyKey ?request = None" using assms(3) by (simp add: readIdempotencyKey_def)
  with handled dat obtain out' where create: "createOrderTransactionally (en_services E) (en_config E) (en_uuid E) ?request (user_id u) dat t1 = (out', t)"
    and o': "o' = map_sum id result_of out'"
    by (auto simp: post_orders_keyless split: prod.splits)
  have "\<exists>r. out' = Inr r" using o' reply assms(2) by (cases out') (simp_all add: send_result_def internal_reply_def)
  then obtain r where r: "out' = Inr r" by blast
  from wp_ok[OF createOrder_wp create[unfolded r]] obtain row where
    row: "created (user_id u) dat (committed (pg t1)) (committed (pg t)) row" "r = order_reply_of row"
    by (auto simp: order_reply_of_def)
  show ?thesis
    using u dat row reply o' r time t pg1 by (intro exI[of _ u] exI[of _ dat] exI[of _ row]) (simp add: same_bearer)
qed

text \<open>Such a request succeeds when the limiter lets it pass, its token verifies and nothing fails.\<close>

lemma serve_creates:
  fixes E :: "'e api_env"
  assumes "\<not> shuttingDown (srv_life v)" and "readIdempotencyKey request = None"
    and "fst (enforceRateLimit (en_services E) (en_config E) (admitted_request E request (srv_app v))
           (admitted_state E request (srv_app v))) = Inr None"
    and "bearer_user (en_auth E) (en_config E) request (check_time E request (srv_app v)) = Some u"
    and "createOrderSchema body = Some dat"
    and "create_ready (pg (admitted_state E request (srv_app v))) (en_uuid E) (admitted_request E request (srv_app v)) (user_id u) dat"
  obtains v' and s1 :: "'e app_state" where "serve E Orders_Create request (Inr body) v =
      Some (send_response (order_reply_of (new_order_row (en_uuid E) (user_id u) dat (pg (admitted_state E request (srv_app v))))), v')"
    and "pg s1 = pg (admitted_state E request (srv_app v))"
    and "pg (srv_app v') = after_creation (en_services E) (en_uuid E) (admitted_request E request (srv_app v)) (user_id u) dat s1"
    and "shuttingDown (srv_life v') = shuttingDown (srv_life v)"
proof -
  let ?request = "admitted_request E request (srv_app v)" and ?s = "admitted_state E request (srv_app v)"
  obtain t1 where limit: "enforceRateLimit (en_services E) (en_config E) ?request ?s = (Inr None, t1)"
    using assms(3) by (metis prod.collapse)
  have pg1: "pg t1 = pg ?s" using keepsD[OF keeps_pg_limit limit] .
  have "bearer_user (en_auth E) (en_config E) ?request (date_now (en_services E) (ext t1)) = Some u"
    using assms(4) by (simp add: check_time_def limit bearer_user_def)
  note accepted = authenticate_accepts[OF this]
  have "readIdempotencyKey ?request = None" using assms(2) by (simp add: readIdempotencyKey_def)
  note keyless = post_orders_keyless[OF this assms(5)]
  have "create_ready (pg t1) (en_uuid E) ?request (user_id u) dat" using assms(6) pg1 by simp
  then obtain t where create: "createOrderTransactionally (en_services E) (en_config E) (en_uuid E) ?request (user_id u) dat t1 =
      (Inr (order_reply_of (new_order_row (en_uuid E) (user_id u) dat (pg t1))), t)"
    and t: "pg t = after_creation (en_services E) (en_uuid E) ?request (user_id u) dat t1"
    by (rule create_succeeds[where S = "en_services E" and cfg = "en_config E"]) (simp add: order_reply_of_def)
  have "after_admission E Orders_Create ?request (Inr body) ?s =
      Some (send_response (order_reply_of (new_order_row (en_uuid E) (user_id u) dat (pg t1))), t)"
    by (simp add: after_admission_def limit run_route_def accepted run_handler_def Let_def keyless create)
  with that[OF _ pg1] t pg1 show thesis by (simp add: serve_admitted[OF assms(1)] onResponse_def Let_def)
qed

section \<open>Every request is answered\<close>

lemma run_handler_returns:
  assumes "redis_kv (en_services E) store"
    and "\<And>key u w. user = Some u \<Longrightarrow> store (ext s) (order_record_key u key) = Some w \<Longrightarrow>
      w \<noteq> [] \<and> (JSON_parse w \<noteq> None \<or> redis_answers (en_services E) store)"
  shows "\<exists>out t. run_handler E r request input user s = Some (out, t)"
proof (cases "r = Orders_Create")
  case True
  then show ?thesis using post_orders_returns[OF assms] by (simp add: run_handler_def Let_def)
next
  case False
  then show ?thesis by (cases r) (simp_all add: run_handler_def Let_def returning_def case_prod_unfold)
qed

lemma after_admission_returns:
  assumes "redis_expiring (en_services E) store" and "0 < rateLimitWindowSeconds (en_config E)"
    and "\<And>u key w. store (ext s) (order_record_key u key) = Some w \<Longrightarrow>
      w \<noteq> [] \<and> (JSON_parse w \<noteq> None \<or> redis_answers (en_services E) store)"
  shows "\<exists>reply t. after_admission E r request payload s = Some (reply, t)"
proof (cases payload)
  case (Inl e)
  then show ?thesis by (simp add: after_admission_def)
next
  case (Inr input)
  have kv: "redis_kv (en_services E) store" using assms(1) by (rule redis_expiring.axioms(1))
  obtain out t1 where limit: "enforceRateLimit (en_services E) (en_config E) request s = (out, t1)" by fastforce
  have kept: "w \<noteq> [] \<and> (JSON_parse w \<noteq> None \<or> redis_answers (en_services E) store)"
    if "store (ext t1) (order_record_key u key) = Some w" for u key w
  proof -
    have "take 5 (order_record_key u key) \<noteq> ''rate:''" by (simp add: order_record_key_def buildRedisKey_def)
    from keepsD[OF redis_expiring.limit_keeps_store[OF assms(1,2) this] limit] that assms(3) show ?thesis by simp
  qed
  have route: "\<exists>reply t. run_route E r request input t1 = Some (reply, t)"
  proof (cases "needs_user r")
    case False
    then show ?thesis using run_handler_returns[OF kv, where s = t1 and user = None]
      by (fastforce simp: run_route_def Let_def)
  next
    case True
    obtain a t2 where auth: "authenticate (en_services E) (en_auth E) (en_config E) request t1 = (a, t2)" by fastforce
    then have t2: "t2 = t1" using authenticate_state[of "en_services E" "en_auth E" "en_config E" request t1] by simp
    show ?thesis
    proof (cases "\<exists>u. a = Inr (Inr u)")
      case False
      with True auth show ?thesis by (auto simp: run_route_def split: sum.split)
    next
      case user: True
      then obtain u where "a = Inr (Inr u)" by blast
      moreover obtain o' t where "run_handler E r request input (Some u) t1 = Some (o', t)"
        using run_handler_returns[OF kv, where s = t1 and user = "Some u"] kept by blast
      ultimately show ?thesis using True auth t2 by (simp add: run_route_def)
    qed
  qed
  show ?thesis
  proof (cases "out = Inr None")
    case True
    with Inr limit route show ?thesis by (simp add: after_admission_def)
  next
    case False
    with Inr limit show ?thesis by (auto simp: after_admission_def split: sum.split option.split)
  qed
qed

text \<open>C9: Every request is answered, on every route, with any payload and whatever fails in the database and in
  Redis, unless a record under an idempotency key of the order routes is the empty text, or cannot be
  parsed while Redis may fail to answer: there \<open>withIdempotency\<close> can call itself for ever. The run
  ends with a reply, the connections taken from the pool are back, and the counter of active requests
  is what it was; a request turned away during the shutdown is answered with 503, leaves the tables
  alone and takes one off the counter.\<close>

theorem every_request_is_answered:
  assumes "redis_expiring (en_services E) store" and "0 < rateLimitWindowSeconds (en_config E)"
    and "\<And>u key w. store (ext (srv_app v)) (order_record_key u key) = Some w \<Longrightarrow>
      w \<noteq> [] \<and> (JSON_parse w \<noteq> None \<or> redis_answers (en_services E) store)"
  shows "\<exists>reply v'. serve E r request payload v = Some (reply, v') \<and>
    clients_out (pg (srv_app v')) = clients_out (pg (srv_app v)) \<and>
    activeRequests (srv_life v') = activeRequests (srv_life v) - (if shuttingDown (srv_life v) then 1 else 0) \<and>
    (shuttingDown (srv_life v) \<longrightarrow> rp_status reply = 503 \<and> committed (pg (srv_app v')) = committed (pg (srv_app v)))"
proof (cases "shuttingDown (srv_life v)")
  case True
  have "clients_out (pg (snd (with_request_id E request s))) = clients_out (pg s)"
    "committed (pg (snd (with_request_id E request s))) = committed (pg s)" for s
    by (simp_all add: with_request_id_def)
  with True show ?thesis
    by (simp add: serve_rejected send_response_def service_unavailable_def error_response_def onResponse_def Let_def)
next
  case False
  let ?s = "admitted_state E request (srv_app v)"
  have "w \<noteq> [] \<and> (JSON_parse w \<noteq> None \<or> redis_answers (en_services E) store)"
    if "store (ext ?s) (order_record_key u key) = Some w" for u key w using assms(3) that by simp
  then obtain reply t where run: "after_admission E r (admitted_request E request (srv_app v)) payload ?s = Some (reply, t)"
    using after_admission_returns[OF assms(1,2), of ?s] by blast
  show ?thesis using after_admission_writes[OF run, of "[]"] run False
    by (simp add: serve_admitted onResponse_def Let_def)
qed

section \<open>A payload the framework cannot parse\<close>

text \<open>A payload the web framework refuses (malformed JSON, a body over the limit, an unknown content type)
  is answered as an internal error, on every route: the error handler gives each error the status
  500. The request reaches neither the rate limiter nor the bearer check: Redis and the tables
  stay as they are, so such requests are not counted against the limit.\<close>

theorem malformed_payload_is_internal_error:
  assumes "\<not> shuttingDown (srv_life v)"
  shows "\<exists>v'. serve E r request (Inl e) v = Some (internal_reply, v') \<and> rp_status internal_reply = 500 \<and>
    ext (srv_app v') = ext (srv_app v) \<and> committed (pg (srv_app v')) = committed (pg (srv_app v))"
  by (simp add: serve_admitted[OF assms] after_admission_def internal_reply_def)

section \<open>Witnesses\<close>

definition demo_env :: "kv api_env" where
  "demo_env = \<lparr>en_services = stub_services, en_auth = demo_crypto, en_config = demo_config, en_sha = demo_sha,
     en_uuid = demo_uuid, en_issues = (\<lambda>j. []), en_times = demo_times, en_query_ms = 5,
     en_odd_status = (\<lambda>j. Inl bad_status_code)\<rparr>"

definition demo_service :: "kv server" where
  "demo_service = \<lparr>srv_app = demo_app (\<lambda>_. None), srv_life = createRequestLifecycleState, srv_arrivals = 0\<rparr>"

lemma demo_service_simps [simp]:
  "srv_app demo_service = demo_app (\<lambda>_. None)" "shuttingDown (srv_life demo_service) = False"
  by (simp_all add: demo_service_def createRequestLifecycleState_def)

lemma demo_env_simps [simp]:
  "en_services demo_env = stub_services" "en_config demo_env = demo_config" "en_auth demo_env = demo_crypto"
  "en_uuid demo_env = demo_uuid"
  by (simp_all add: demo_env_def)

text \<open>A server that loses its first commands, the second after it took effect.\<close>

definition lossy_env :: "redis_server api_env" where
  "lossy_env = \<lparr>en_services = server_services, en_auth = demo_crypto, en_config = demo_config, en_sha = demo_sha,
     en_uuid = demo_uuid, en_issues = (\<lambda>j. []), en_times = demo_times, en_query_ms = 5,
     en_odd_status = (\<lambda>j. Inl bad_status_code)\<rparr>"

definition lossy_service :: "redis_server server" where
  "lossy_service = \<lparr>srv_app = demo_app \<lparr>rs_data = (\<lambda>_. None), rs_now = 0,
       rs_script = [Lost 0 connection_lost False, Lost 0 connection_lost True, Lost 0 connection_lost False]\<rparr>,
     srv_life = createRequestLifecycleState, srv_arrivals = 0\<rparr>"

theorem every_request_is_answered_witness:
  "\<exists>reply v'. serve lossy_env Orders_Create plain_request (Inr JNull) lossy_service = Some (reply, v') \<and>
     clients_out (pg (srv_app v')) = clients_out (pg (srv_app lossy_service))"
  using every_request_is_answered[where E = lossy_env and store = live and v = lossy_service and r = Orders_Create
      and request = plain_request and payload = "Inr JNull"] server.redis_expiring_axioms
  by (auto simp: lossy_env_def demo_config_def lossy_service_def live_def)

theorem malformed_payload_witness:
  "\<exists>v'. serve demo_env Auth_Login plain_request (Inl null_property) demo_service = Some (internal_reply, v')"
  using malformed_payload_is_internal_error[of demo_service demo_env Auth_Login plain_request null_property] by auto

text \<open>A creation by a user with a token of the stand-in library.\<close>

definition demo_bearer :: string where
  "demo_bearer = JSON_stringify (JArr [access_claims demo_user, JNum 900, JStr ''access''])"

definition buyer_request :: http_request where
  "buyer_request = plain_request\<lparr>req_headers := [''authorization'' \<mapsto> HeaderOne (''Bearer '' @ demo_bearer)]\<rparr>"

lemma demo_bearer_verifies: "jwt_verify demo_crypto demo_bearer ''access'' 0 = Some (access_claims demo_user)"
proof -
  have "JSON_parse demo_bearer = Some (JArr [access_claims demo_user, JNum 900, JStr ''access''])"
    unfolding demo_bearer_def by (rule JSON_parse_stringify) simp
  then show ?thesis by (simp add: demo_crypto_def demo_verify_def)
qed

lemma buyer_is_user: "bearer_user demo_crypto demo_config buyer_request 0 = Some demo_user"
  using demo_bearer_verifies
  by (simp add: bearer_user_def buyer_request_def demo_config_def starts_with_iff access_claims_def demo_user_def)

text \<open>The stand-in has no \<open>expire\<close>: the limiter fails open.\<close>

lemma stub_limit_passes: "fst (enforceRateLimit stub_services demo_config request s) = Inr None"
  by (cases "ext s (rate_key stub_services demo_config request (ext s))")
    (auto simp: enforceRateLimit_def io_bind_apply io_catch_apply await_def ext_call_def stub_defs missing_method_def Let_def
      warnOncePerMinute_def split: prod.splits sum.splits option.splits)

lemma stub_check_time: "en_services E = stub_services \<Longrightarrow> check_time E request s = 0"
  by (simp add: check_time_def stub_services_def)

lemma demo_admitted_pg:
  "pg (admitted_state demo_env buyer_request (demo_app e)) = demo_world\<lparr>uuids_used := Suc 0\<rparr>"
  by (simp add: admitted_state_def with_request_id_def short_header_def buyer_request_def demo_world_def)

lemma buyer_create_ready:
  "create_ready (demo_world\<lparr>uuids_used := Suc 0\<rparr>) demo_uuid (admitted_request demo_env buyer_request (demo_app e)) (user_id demo_user) demo_order"
proof -
  have corr: "correlation_of (admitted_request demo_env buyer_request (demo_app e)) = demo_uuid 0"
    by (simp add: correlation_of_def admitted_request_def with_request_id_def genReqId_def short_header_def buyer_request_def
        plain_request_def demo_world_def Let_def)
  have fresh: "ids_fresh demo_uuid (demo_world\<lparr>uuids_used := Suc 0\<rparr>)"
    using demo_ids_fresh[of "[]"] by (simp add: ids_fresh_def demo_world_def demo_database_def)
  have "order_storable demo_request demo_order" "uuid_in (user_id demo_user) \<in> us_id ` set (users demo_database)"
    using demo_create_ready by (simp_all add: create_ready_def demo_user_def demo_world_def)
  moreover have "text_ok (demo_uuid 0)" using fresh by (simp add: ids_fresh_def)
  ultimately show ?thesis
    by (intro create_readyI fresh) (simp_all add: order_storable_def corr demo_world_def)
qed

lemma buyer_creates:
  obtains v' s1 where "serve demo_env Orders_Create buyer_request (Inr demo_body) demo_service =
      Some (send_response (order_reply_of (new_order_row demo_uuid (user_id demo_user) demo_order (demo_world\<lparr>uuids_used := Suc 0\<rparr>))), v')"
    and "pg s1 = demo_world\<lparr>uuids_used := Suc 0\<rparr>"
    and "pg (srv_app v') = after_creation stub_services demo_uuid
      (admitted_request demo_env buyer_request (demo_app (\<lambda>_. None))) (user_id demo_user) demo_order (s1 :: kv app_state)"
proof -
  have keyless: "readIdempotencyKey buyer_request = None"
    by (simp add: readIdempotencyKey_def buyer_request_def)
  have bearer: "bearer_user (en_auth demo_env) (en_config demo_env) buyer_request
      (check_time demo_env buyer_request (srv_app demo_service)) = Some demo_user"
    by (simp add: stub_check_time buyer_is_user)
  show thesis
    by (rule serve_creates[where E = demo_env and v = demo_service and request = buyer_request, OF _ keyless _ bearer demo_body_parses])
      (use that in \<open>simp_all add: stub_limit_passes demo_admitted_pg buyer_create_ready\<close>)
qed

theorem only_owner_changes_orders_witness:
  "\<exists>reply v'. serve demo_env Orders_Create buyer_request (Inr demo_body) demo_service = Some (reply, v') \<and>
     orders_of (committed (pg (srv_app v'))) ''u1'' \<noteq> [] \<and>
     (\<exists>u. bearer_user demo_crypto demo_config buyer_request 0 = Some u \<and> (''u1'' = user_id u \<or> ''u1'' = uuid_in (user_id u)))"
proof (rule buyer_creates)
  fix v' and s1 :: "kv app_state"
  assume run: "serve demo_env Orders_Create buyer_request (Inr demo_body) demo_service =
      Some (send_response (order_reply_of (new_order_row demo_uuid (user_id demo_user) demo_order (demo_world\<lparr>uuids_used := Suc 0\<rparr>))), v')"
    and "pg s1 = demo_world\<lparr>uuids_used := Suc 0\<rparr>"
    and "pg (srv_app v') = after_creation stub_services demo_uuid
      (admitted_request demo_env buyer_request (demo_app (\<lambda>_. None))) (user_id demo_user) demo_order s1"
  then have new: "orders_of (committed (pg (srv_app v'))) ''u1'' \<noteq> []"
    by (simp add: orders_of_def new_order_row_def demo_user_def demo_uuids filter_empty_conv)
  have ok: "orders_ok (committed (pg (srv_app demo_service)))"
    by (rule orders_ok_empty) (simp_all add: demo_world_def demo_database_def)
  have "orders_of (committed (pg (srv_app v'))) ''u1'' \<noteq> orders_of (committed (pg (srv_app demo_service))) ''u1''"
    using new by (simp add: orders_of_def demo_world_def demo_database_def)
  from only_owner_changes_orders[OF ok run this] run new show ?thesis by (auto simp: stub_check_time)
qed

theorem order_routes_need_token_witness:
  "\<exists>reply v'. serve demo_env (Order_Get demo_id) plain_request (Inr JNull) demo_service = Some (reply, v') \<and>
     rp_status reply \<in> {401, 429, 500, 503}"
proof -
  have "bearer_user A cfg plain_request now = None" for A cfg now by (simp add: bearer_user_def plain_request_def)
  then have bearer: "bearer_user (en_auth demo_env) (en_config demo_env) plain_request
      (check_time demo_env plain_request (srv_app demo_service)) = None" by simp
  obtain reply t where "after_admission demo_env (Order_Get demo_id) (admitted_request demo_env plain_request (srv_app demo_service))
      (Inr JNull) (admitted_state demo_env plain_request (srv_app demo_service)) = Some (reply, t)"
    using after_admission_returns[where E = demo_env and store = "\<lambda>m. m"] stub.redis_expiring_axioms
    by (fastforce simp: demo_config_def)
  then obtain v' where run: "serve demo_env (Order_Get demo_id) plain_request (Inr JNull) demo_service = Some (reply, v')"
    by (auto simp: serve_admitted)
  have "needs_user (Order_Get demo_id)" by simp
  from order_routes_need_token[OF this run bearer] run show ?thesis by blast
qed

end
