(* ===== verification/Seed_Properties.thy ===== *)
theory Seed_Properties
  imports Seed_Script Api_Server_Properties
begin

text \<open>
  The load script against the service: the orders it sends are always valid, every number is
  sent once, a run ends, and a run that succeeds has put exactly the announced orders into the
  tables, however its workers interleave.
\<close>

section \<open>The orders are valid\<close>

definition seed_order :: "int \<Rightarrow> create_order_data" where
  "seed_order i = \<lparr>co_customerEmail = ''seed-buyer-'' @ int_to_string i @ ''@example.com'',
     co_items =
       [\<lparr>sku = ''SEED-'' @ padStart 4 CHR ''0'' (int_to_string (i mod 1000)), quantity = i mod 5 + 1,
          unitPriceCents = 500 + (i mod 200) * 37\<rparr>,
        \<lparr>sku = ''ADDON-'' @ padStart 4 CHR ''0'' (int_to_string (i mod 250)), quantity = 1, unitPriceCents = 199\<rparr>]\<rparr>"

lemma js_split_once: "c \<notin> set a \<Longrightarrow> c \<notin> set b \<Longrightarrow> js_split c (a @ c # b) = [a, b]"
  by (induction a) (auto simp: js_split_idle)

lemma length_nat_to_string: "n < 10 ^ k \<Longrightarrow> length (nat_to_string n) \<le> max 1 k"
proof (induction n arbitrary: k rule: nat_to_string.induct)
  case (1 n)
  show ?case
  proof (cases "n < 10")
    case True
    then show ?thesis by (subst nat_to_string.simps) simp
  next
    case False
    then obtain m where k: "k = Suc m" using 1(2) by (cases k) auto
    have "n div 10 < 10 ^ m" using 1(2) by (simp add: k less_mult_imp_div_less mult.commute)
    from 1(1)[OF False this] False have "length (nat_to_string n) \<le> Suc (max 1 m)"
      by (subst nat_to_string.simps) simp
    moreover have "m \<noteq> 0" using 1(2) False k by (cases m) auto
    ultimately show ?thesis using k by simp
  qed
qed

lemma length_padded:
  assumes "0 \<le> i" and "i < 10000"
  shows "length (padStart 4 CHR ''0'' (int_to_string i)) = 4"
proof -
  have "nat i < 10 ^ 4" using assms by simp
  from length_nat_to_string[OF this] assms show ?thesis by (simp add: padStart_def int_to_string_def)
qed

lemma plain_number: "c \<in> set (int_to_string i) \<Longrightarrow> plain_char c"
  using int_to_string_chars[of c i] is_digit_not_space[of c]
  by (auto simp: plain_char_def is_digit_def is_js_space_def)

lemma seed_email_ok: "emailSchema (''seed-buyer-'' @ int_to_string i @ ''@example.com'')"
proof -
  let ?local = "''seed-buyer-'' @ int_to_string i"
  have local: "list_all plain_char ?local"
    using plain_number by (auto simp: list_all_iff plain_char_def is_js_space_def)
  then have "CHR ''@'' \<notin> set ?local" by (auto simp: list_all_iff plain_char_def)
  then have "js_split CHR ''@'' (?local @ CHR ''@'' # ''example.com'') = [?local, ''example.com'']"
    by (rule js_split_once) simp
  with local show ?thesis by (simp add: emailSchema_def plain_char_def is_js_space_def)
qed

lemma orderBody_parses: "createOrderSchema (orderBody i) = Some (seed_order i)"
proof -
  have "length (padStart 4 CHR ''0'' (int_to_string (i mod m))) = 4" if "m \<in> {1000, 250}" for m
    using that by (intro length_padded) auto
  moreover have "i mod 5 \<le> 999" "i mod 200 * 37 \<le> 99999500"
  proof -
    show "i mod 5 \<le> 999" using pos_mod_bound[of 5 i] by linarith
    show "i mod 200 * 37 \<le> 99999500" using pos_mod_bound[of 200 i] by linarith
  qed
  ultimately show ?thesis
    using seed_email_ok[of i]
    by (simp add: createOrderSchema_def orderBody_def seed_order_def orderItemSchema_def Let_def)
qed

text \<open>Their totals are far below the bound of the column.\<close>

lemma seed_total: "totalCents (co_items (seed_order i)) \<le> 39514"
proof -
  have q: "0 \<le> i mod 5 + 1" "i mod 5 + 1 \<le> 5" using pos_mod_bound[of 5 i] pos_mod_sign[of 5 i] by linarith+
  have p: "500 + i mod 200 * 37 \<le> 7863" "0 \<le> 500 + i mod 200 * 37"
    using pos_mod_bound[of 200 i] pos_mod_sign[of 200 i] by linarith+
  have "(i mod 5 + 1) * (500 + i mod 200 * 37) \<le> 5 * 7863" by (rule mult_mono) (use q p in simp_all)
  then show ?thesis by (simp add: totalCents_def seed_order_def)
qed

lemma seeded_orders_valid:
  "createOrderSchema (orderBody i) = Some (seed_order i) \<and> items_ok (co_items (seed_order i)) \<and>
   0 \<le> totalCents (co_items (seed_order i)) \<and> totalCents (co_items (seed_order i)) \<le> 39514 \<and>
   int4_ok (totalCents (co_items (seed_order i)))"
proof -
  have items: "items_ok (co_items (seed_order i))" by (rule createOrderSchema_items_ok[OF orderBody_parses])
  show ?thesis using orderBody_parses items totalCents_nonneg[OF items] seed_total[of i] by (simp add: int4_ok_def)
qed

lemma seed_texts_ok:
  "text_ok (co_customerEmail (seed_order i)) \<and> list_all (\<lambda>item. text_ok (sku item)) (co_items (seed_order i))"
proof -
  have "CHR 0x00 \<notin> set (int_to_string j)" for j
    using int_to_string_chars[of "CHR 0x00" j] by (auto simp: is_digit_def)
  then show ?thesis by (auto simp: seed_order_def text_ok_def padStart_def)
qed

section \<open>The pool of workers\<close>

lemma start_workers_closed:
  "start_workers cfg n c = (map (\<lambda>k. fst (next_job cfg (c + int k))) [0..<n], c + int n)"
proof (induction n arbitrary: c)
  case (Suc n)
  have "map (\<lambda>k. fst (next_job cfg (c + int k))) [0..<Suc n] =
      fst (next_job cfg c) # map (\<lambda>k. fst (next_job cfg (c + 1 + int k))) [0..<n]"
    by (simp add: map_upt_Suc ac_simps del: upt_Suc)
  with Suc.IH[of "c + 1"] show ?case by (simp add: next_job_def Let_def)
qed simp

text \<open>What a worker still costs, and the whole run.\<close>

definition worker_weight :: "seed_worker \<Rightarrow> nat" where
  "worker_weight w = (case w of Sending i \<Rightarrow> 2 | Replied i r \<Rightarrow> 1 | Finished \<Rightarrow> 0)"

definition seed_measure :: "seed_config \<Rightarrow> 'e seeding \<Rightarrow> nat" where
  "seed_measure cfg st = 2 * nat (sc_orders cfg - sd_cursor st) + sum_list (map worker_weight (sd_workers st)) +
     (if sd_failed st then 0 else 1)"

lemma next_job_weight:
  "next_job cfg c = (w, c') \<Longrightarrow> 2 * nat (sc_orders cfg - c') + worker_weight w = 2 * nat (sc_orders cfg - c)"
  by (auto simp: next_job_def Let_def worker_weight_def split: if_splits)

lemma start_workers_weight:
  "start_workers cfg n c = (ws, c') \<Longrightarrow>
   2 * nat (sc_orders cfg - c') + sum_list (map worker_weight ws) = 2 * nat (sc_orders cfg - c)"
proof (induction n arbitrary: c ws c')
  case (Suc n)
  obtain w c1 where job: "next_job cfg c = (w, c1)" by fastforce
  obtain ws1 c2 where rest: "start_workers cfg n c1 = (ws1, c2)" by fastforce
  from Suc.prems job rest have "ws = w # ws1" "c' = c2" by simp_all
  with Suc.IH[OF rest] next_job_weight[OF job] show ?case by simp
qed simp

lemma weight_update:
  assumes "k < length ws"
  shows "sum_list (map worker_weight (ws[k := w])) + worker_weight (ws ! k) =
    sum_list (map worker_weight ws) + worker_weight w"
proof -
  have "worker_weight (ws ! k) \<le> sum_list (map worker_weight ws)"
    using assms by (intro member_le_sum_list) (auto simp: image_iff intro: nth_mem)
  with assms show ?thesis by (simp add: map_update sum_list_update)
qed

lemma seed_step_measure: "seed_step E cfg ip token st st' \<Longrightarrow> seed_measure cfg st' < seed_measure cfg st"
proof (induction rule: seed_step.induct)
  case (served st k i reply v)
  with weight_update[OF served(2), of "Replied i reply"] show ?case by (simp add: seed_measure_def worker_weight_def)
next
  case (accepted st k i reply body w c)
  with weight_update[OF accepted(2), of w] next_job_weight[OF accepted(5)] show ?case
    by (simp add: seed_measure_def) (simp add: worker_weight_def)
qed (simp_all add: seed_measure_def)

section \<open>The invariant\<close>

text \<open>The order a request with a number leads to, of the user its token stands for.\<close>

definition seeded_row :: "'e api_env \<Rightarrow> string \<Rightarrow> string \<Rightarrow> int \<Rightarrow> order_row \<Rightarrow> bool" where
  "seeded_row E ip token i row \<longleftrightarrow>
     o_items row = co_items (seed_order i) \<and> o_customer_email row = js_lower (co_customerEmail (seed_order i)) \<and>
     o_total_cents row = totalCents (co_items (seed_order i)) \<and> o_status row = Pending \<and>
     (\<exists>now u. bearer_user (en_auth E) (en_config E) (order_request ip token i) now = Some u \<and>
        o_user_id row = uuid_in (user_id u))"

definition numbers_ok :: "seed_config \<Rightarrow> 'e seeding \<Rightarrow> bool" where
  "numbers_ok cfg st \<longleftrightarrow> 0 \<le> sd_cursor st \<and> distinct (map fst (sd_log st)) \<and>
     (\<forall>i. (1 \<le> i \<and> i \<le> sd_cursor st \<and> i \<le> sc_orders cfg) \<longleftrightarrow>
        i \<in> fst ` set (sd_log st) \<or> Sending i \<in> set (sd_workers st)) \<and>
     (\<forall>k < length (sd_workers st). \<forall>i. sd_workers st ! k = Sending i \<longrightarrow> i \<notin> fst ` set (sd_log st) \<and>
        (\<forall>k' < length (sd_workers st). sd_workers st ! k' = Sending i \<longrightarrow> k' = k)) \<and>
     (Finished \<in> set (sd_workers st) \<longrightarrow> sc_orders cfg < sd_cursor st)"

definition replies_ok :: "'e seeding \<Rightarrow> bool" where
  "replies_ok st \<longleftrightarrow> (\<forall>(i, r)\<in>set (sd_log st). response_ok r \<or> Replied i r \<in> set (sd_workers st))"

definition tables_ok :: "'e api_env \<Rightarrow> string \<Rightarrow> string \<Rightarrow> 'e server \<Rightarrow> 'e seeding \<Rightarrow> bool" where
  "tables_ok E ip token v st \<longleftrightarrow> ((\<forall>(i, r)\<in>set (sd_log st). response_ok r) \<longrightarrow>
     (\<exists>rows. orders (committed (pg (srv_app (sd_server st)))) = orders (committed (pg (srv_app v))) @ rows \<and>
        list_all2 (seeded_row E ip token) (map fst (sd_log st)) rows))"

lemma replied_ok: "read_reply r = Inr body \<Longrightarrow> response_ok r"
  by (auto simp: read_reply_def split: option.splits if_splits)

lemma set_update: "k < length ws \<Longrightarrow> x \<in> set (ws[k := w]) \<longleftrightarrow> x = w \<or> (\<exists>j < length ws. j \<noteq> k \<and> ws ! j = x)"
  by (auto simp: in_set_conv_nth nth_list_update)

lemma served_row:
  assumes "serve E Orders_Create (order_request ip token i) (Inr (orderBody i)) v = Some (reply, v')" and "response_ok reply"
  shows "\<exists>row. orders (committed (pg (srv_app v'))) = orders (committed (pg (srv_app v))) @ [row] \<and> seeded_row E ip token i row"
proof -
  have "rp_status reply < 400" using assms(2) by (simp add: response_ok_def)
  moreover have "readIdempotencyKey (order_request ip token i) = None"
    by (simp add: readIdempotencyKey_def order_request_def seed_post_def seed_headers_def)
  ultimately obtain u row where "bearer_user (en_auth E) (en_config E) (order_request ip token i)
        (check_time E (order_request ip token i) (srv_app v)) = Some u"
    and "created (user_id u) (seed_order i) (committed (pg (srv_app v))) (committed (pg (srv_app v'))) row"
    using serve_created[OF assms(1)] by (auto simp: orderBody_parses)
  then show ?thesis
    by (intro exI[of _ row]) (auto simp: created_def order_added_def new_order_rows_def seeded_row_def)
qed

lemma numbers_ok_start:
  assumes "1 \<le> sc_orders cfg" and "1 \<le> sc_concurrency cfg"
  shows "numbers_ok cfg (seed_start cfg v)"
proof -
  let ?n = "nat (sc_concurrency cfg)"
  have start: "sd_workers (seed_start cfg v) = map (\<lambda>k. fst (next_job cfg (int k))) [0..<?n]"
    "sd_cursor (seed_start cfg v) = int ?n" "sd_log (seed_start cfg v) = []"
    by (simp_all add: seed_start_def start_workers_closed)
  have job: "fst (next_job cfg (int k)) = (if sc_orders cfg < int k + 1 then Finished else Sending (int k + 1))" for k
    by (simp add: next_job_def Let_def)
  have sending: "Sending i \<in> set (sd_workers (seed_start cfg v)) \<longleftrightarrow> 1 \<le> i \<and> i \<le> int ?n \<and> i \<le> sc_orders cfg" for i
  proof
    assume "1 \<le> i \<and> i \<le> int ?n \<and> i \<le> sc_orders cfg"
    then have "nat (i - 1) < ?n" and "int (nat (i - 1)) = i - 1" and "\<not> sc_orders cfg < i" by (linarith, simp, simp)
    moreover have "fst (next_job cfg (i - 1)) = Sending i" using \<open>\<not> sc_orders cfg < i\<close> by (simp add: next_job_def)
    ultimately have "Sending i = fst (next_job cfg (int (nat (i - 1))))" "nat (i - 1) \<in> set [0..<?n]" by simp_all
    then show "Sending i \<in> set (sd_workers (seed_start cfg v))" unfolding start set_map by (rule image_eqI)
  qed (auto simp: start job split: if_splits)
  show ?thesis
    unfolding numbers_ok_def
  proof (intro conjI allI impI)
    fix i show "(1 \<le> i \<and> i \<le> sd_cursor (seed_start cfg v) \<and> i \<le> sc_orders cfg) \<longleftrightarrow>
        i \<in> fst ` set (sd_log (seed_start cfg v)) \<or> Sending i \<in> set (sd_workers (seed_start cfg v))"
      unfolding sending by (simp add: start(2,3))
  qed (auto simp: start job split: if_splits)
qed

lemma numbers_ok_step:
  assumes "seed_step E cfg ip token st st'" and "numbers_ok cfg st"
  shows "numbers_ok cfg st'"
  using assms
proof (induction rule: seed_step.induct)
  case (served st k i reply v)
  let ?ws = "sd_workers st"
  have unsent: "i \<notin> fst ` set (sd_log st)" and alone: "\<And>j. j < length ?ws \<Longrightarrow> ?ws ! j = Sending i \<Longrightarrow> j = k"
    using served(2,3,5) by (auto simp: numbers_ok_def)
  have was: "Sending j \<in> set ?ws \<longleftrightarrow> j = i \<or> Sending j \<in> set (?ws[k := Replied i reply])" for j
    using served(2,3) unfolding set_update[OF served(2)] by (auto simp: in_set_conv_nth)
  have gone: "Sending i \<notin> set (?ws[k := Replied i reply])" using served(2) alone by (auto simp: set_update)
  have ranges: "(1 \<le> j \<and> j \<le> sd_cursor st \<and> j \<le> sc_orders cfg) \<longleftrightarrow>
      j \<in> insert i (fst ` set (sd_log st)) \<or> Sending j \<in> set (?ws[k := Replied i reply])" for j
    using served(5) was[of j] by (auto simp: numbers_ok_def)
  show ?case
    unfolding numbers_ok_def
  proof (intro conjI allI impI)
    show "0 \<le> sd_cursor (st\<lparr>sd_workers := ?ws[k := Replied i reply], sd_server := v, sd_log := sd_log st @ [(i, reply)]\<rparr>)"
      using served(5) by (simp add: numbers_ok_def)
    show "distinct (map fst (sd_log (st\<lparr>sd_workers := ?ws[k := Replied i reply], sd_server := v, sd_log := sd_log st @ [(i, reply)]\<rparr>)))"
      using served(5) unsent by (simp add: numbers_ok_def)
  qed (use served(2,5) ranges gone unsent in \<open>auto simp: numbers_ok_def nth_list_update set_update in_set_conv_nth split: if_splits\<close>)
next
  case (accepted st k i reply body w c)
  let ?ws = "sd_workers st"
  have c: "c = sd_cursor st + 1" and w: "w = (if sc_orders cfg < sd_cursor st + 1 then Finished else Sending (sd_cursor st + 1))"
    using accepted(5) by (auto simp: next_job_def Let_def)
  have range: "(1 \<le> j \<and> j \<le> sd_cursor st \<and> j \<le> sc_orders cfg) \<longleftrightarrow> j \<in> fst ` set (sd_log st) \<or> Sending j \<in> set ?ws" for j
    using accepted(6) by (simp add: numbers_ok_def)
  have new: "sd_cursor st + 1 \<notin> fst ` set (sd_log st)" "Sending (sd_cursor st + 1) \<notin> set ?ws"
    using range[of "sd_cursor st + 1"] by auto
  have pos: "0 \<le> sd_cursor st" using accepted(6) by (simp add: numbers_ok_def)
  have was: "Sending j \<in> set (?ws[k := w]) \<longleftrightarrow> w = Sending j \<or> Sending j \<in> set ?ws" for j
    using accepted(2,3) unfolding set_update[OF accepted(2)] by (auto simp: in_set_conv_nth)
  have ranges: "(1 \<le> j \<and> j \<le> c \<and> j \<le> sc_orders cfg) \<longleftrightarrow> j \<in> fst ` set (sd_log st) \<or> Sending j \<in> set (?ws[k := w])" for j
    using range[of j] pos unfolding was by (auto simp: c w)
  have alone: "Sending j \<noteq> w" if "j' < length ?ws" "?ws ! j' = Sending j" for j j'
    using new that by (auto simp: w in_set_conv_nth)
  have finished: "Finished \<in> set (?ws[k := w]) \<Longrightarrow> sc_orders cfg < c"
    using accepted(6) unfolding set_update[OF accepted(2)]
    by (auto simp: numbers_ok_def c w in_set_conv_nth split: if_splits)
  have fresh: "j \<notin> fst ` set (sd_log st)" if "w = Sending j" for j using that new(1) by (simp add: w split: if_splits)
  show ?case
    unfolding numbers_ok_def
  proof (intro conjI allI impI)
    fix j i j'
    assume "j < length (sd_workers (st\<lparr>sd_workers := ?ws[k := w], sd_cursor := c\<rparr>))"
      and "sd_workers (st\<lparr>sd_workers := ?ws[k := w], sd_cursor := c\<rparr>) ! j = Sending i"
      and "j' < length (sd_workers (st\<lparr>sd_workers := ?ws[k := w], sd_cursor := c\<rparr>))"
      and "sd_workers (st\<lparr>sd_workers := ?ws[k := w], sd_cursor := c\<rparr>) ! j' = Sending i"
    then show "j' = j" using accepted(2,6) alone[of j i] alone[of j' i]
      by (cases "j = k"; cases "j' = k") (simp_all add: numbers_ok_def)
  next
    fix j i
    assume "j < length (sd_workers (st\<lparr>sd_workers := ?ws[k := w], sd_cursor := c\<rparr>))"
      and "sd_workers (st\<lparr>sd_workers := ?ws[k := w], sd_cursor := c\<rparr>) ! j = Sending i"
    then show "i \<notin> fst ` set (sd_log (st\<lparr>sd_workers := ?ws[k := w], sd_cursor := c\<rparr>))"
      using accepted(2,6) fresh[of i] by (cases "j = k") (simp_all add: numbers_ok_def)
  next
    show "0 \<le> sd_cursor (st\<lparr>sd_workers := ?ws[k := w], sd_cursor := c\<rparr>)" using pos c by simp
    show "distinct (map fst (sd_log (st\<lparr>sd_workers := ?ws[k := w], sd_cursor := c\<rparr>)))"
      using accepted(6) by (simp add: numbers_ok_def)
  qed (use ranges finished in simp_all)
qed (simp_all add: numbers_ok_def)

lemma replies_ok_step:
  assumes "seed_step E cfg ip token st st'" and "replies_ok st"
  shows "replies_ok st'"
  using assms
proof (induction rule: seed_step.induct)
  case (served st k i reply v)
  have "Replied j r \<in> set ((sd_workers st)[k := Replied i reply])" if "Replied j r \<in> set (sd_workers st)" for j r
    using that served(2,3) unfolding set_update[OF served(2)] by (auto simp: in_set_conv_nth)
  moreover have "Replied i reply \<in> set ((sd_workers st)[k := Replied i reply])" by (simp add: set_update[OF served(2)])
  ultimately show ?case using served(5) by (auto simp: replies_ok_def)
next
  case (accepted st k i reply body w c)
  have "response_ok r \<or> Replied j r \<in> set ((sd_workers st)[k := w])" if log: "(j, r) \<in> set (sd_log st)" for j r
  proof (cases "response_ok r")
    case False
    then have "Replied j r \<in> set (sd_workers st)" using accepted(6) log by (auto simp: replies_ok_def)
    moreover have "Replied j r \<noteq> Replied i reply" using replied_ok[OF accepted(4)] False by auto
    ultimately show ?thesis
      using accepted(2,3) unfolding set_update[OF accepted(2)] by (auto simp: in_set_conv_nth)
  qed simp
  then show ?case by (auto simp: replies_ok_def)
qed (simp_all add: replies_ok_def)

lemma tables_ok_step:
  assumes "seed_step E cfg ip token st st'" and "tables_ok E ip token v0 st"
  shows "tables_ok E ip token v0 st'"
  using assms
proof (induction rule: seed_step.induct)
  case (served st k i reply v)
  show ?case
  proof (cases "response_ok reply \<and> (\<forall>(i, r)\<in>set (sd_log st). response_ok r)")
    case True
    obtain row where "orders (committed (pg (srv_app v))) = orders (committed (pg (srv_app (sd_server st)))) @ [row]"
      and "seeded_row E ip token i row"
      using served_row[OF served(4)] True by blast
    moreover obtain rows where "orders (committed (pg (srv_app (sd_server st)))) = orders (committed (pg (srv_app v0))) @ rows"
      and "list_all2 (seeded_row E ip token) (map fst (sd_log st)) rows"
      using served(5) True by (auto simp: tables_ok_def)
    ultimately show ?thesis
      by (auto simp: tables_ok_def intro!: exI[of _ "rows @ [row]"] list_all2_appendI)
  next
    case False
    then show ?thesis by (auto simp: tables_ok_def)
  qed
qed (simp_all add: tables_ok_def)

lemma seed_load_config_positive:
  "seed_load_config argv env = Inr cfg \<Longrightarrow> 1 \<le> sc_orders cfg \<and> 1 \<le> sc_concurrency cfg"
  unfolding seed_load_config_def Let_def
  by (cases "seed_parseInteger (seed_option (seed_args argv (\<lambda>_. None)) env ''orders'' ''SEED_ORDERS'' ''1000'') ''orders''";
      cases "seed_parseInteger (seed_option (seed_args argv (\<lambda>_. None)) env ''concurrency'' ''SEED_CONCURRENCY'' ''25'') ''concurrency''")
    (auto simp: seed_parseInteger_def split: option.splits if_splits)

lemma seed_run_invariants:
  assumes "seed_run E cfg ip token (seed_start cfg v) n st" and "1 \<le> sc_orders cfg" and "1 \<le> sc_concurrency cfg"
  shows "numbers_ok cfg st \<and> replies_ok st \<and> tables_ok E ip token v st \<and>
    length (sd_workers st) = nat (sc_concurrency cfg) \<and> n + seed_measure cfg st \<le> seed_measure cfg (seed_start cfg v)"
  using assms(1)
proof (induction "seed_start cfg v" n st rule: seed_run.induct)
  case none
  have "length (sd_workers (seed_start cfg v)) = nat (sc_concurrency cfg)" "sd_log (seed_start cfg v) = []"
    "sd_server (seed_start cfg v) = v"
    by (simp_all add: seed_start_def start_workers_closed)
  then show ?case using numbers_ok_start[OF assms(2,3)] by (simp add: replies_ok_def tables_ok_def)
next
  case (more n st1 st2)
  have "length (sd_workers st2) = length (sd_workers st1)"
    using more(3) by (induction rule: seed_step.induct) simp_all
  with more numbers_ok_step[OF more(3)] replies_ok_step[OF more(3)] tables_ok_step[OF more(3)] seed_step_measure[OF more(3)]
  show ?case by auto
qed

lemma seed_start_measure: "seed_measure cfg (seed_start cfg v) = 2 * nat (sc_orders cfg) + 1"
proof -
  obtain ws c where start: "start_workers cfg (nat (sc_concurrency cfg)) 0 = (ws, c)" by fastforce
  from start_workers_weight[OF start] show ?thesis by (simp add: seed_measure_def seed_start_def start)
qed

section \<open>Properties\<close>

text \<open>C36: Every order the load script builds has the type the service asks for: for any number the body passes
  the schema, unchanged, its items are within the bounds of the schema and its total fits the
  32-bit column.\<close>

theorem seeded_orders_are_valid:
  "createOrderSchema (orderBody i) = Some (seed_order i) \<and> items_ok (co_items (seed_order i)) \<and>
   0 \<le> totalCents (co_items (seed_order i)) \<and> totalCents (co_items (seed_order i)) \<le> 39514 \<and>
   int4_ok (totalCents (co_items (seed_order i)))"
  by (rule seeded_orders_valid)

text \<open>C35: A run of the load script that resolves has created exactly the announced orders: whatever the number
  of workers and however their requests, the service and the replies interleave, the orders table
  has one new row for each number from 1 to the number of orders, with the items and the e-mail of
  that number, for the user of the token, and no other new row.\<close>

theorem seed_creates_each_order_once:
  assumes "seed_load_config argv env = Inr cfg" and "seed_run E cfg ip token (seed_start cfg v) n st" and "seed_done st"
  shows "\<exists>numbers rows. orders (committed (pg (srv_app (sd_server st)))) = orders (committed (pg (srv_app v))) @ rows \<and>
    list_all2 (seeded_row E ip token) numbers rows \<and> distinct numbers \<and> set numbers = {1..sc_orders cfg} \<and>
    int (length rows) = sc_orders cfg"
proof -
  have pos: "1 \<le> sc_orders cfg" "1 \<le> sc_concurrency cfg" using seed_load_config_positive[OF assms(1)] by simp_all
  note inv = seed_run_invariants[OF assms(2) pos]
  have numbers: "numbers_ok cfg st" and answered: "replies_ok st" and tables: "tables_ok E ip token v st"
    and size: "length (sd_workers st) = nat (sc_concurrency cfg)" using inv by simp_all
  have finished: "w = Finished" if "w \<in> set (sd_workers st)" for w using assms(3) that by (simp add: seed_done_def list_all_iff)
  have "\<forall>(i, r)\<in>set (sd_log st). response_ok r"
  proof clarify
    fix i r assume "(i, r) \<in> set (sd_log st)"
    then have "response_ok r \<or> Replied i r \<in> set (sd_workers st)" using answered by (auto simp: replies_ok_def)
    then show "response_ok r" using finished[of "Replied i r"] by blast
  qed
  then obtain rows where rows: "orders (committed (pg (srv_app (sd_server st)))) = orders (committed (pg (srv_app v))) @ rows"
    "list_all2 (seeded_row E ip token) (map fst (sd_log st)) rows"
    using tables unfolding tables_ok_def by blast
  have "sd_workers st \<noteq> []" using size pos(2) by auto
  then obtain w where "w \<in> set (sd_workers st)" using last_in_set by blast
  then have "Finished \<in> set (sd_workers st)" using finished[of w] by simp
  then have past: "sc_orders cfg < sd_cursor st" using numbers by (simp add: numbers_ok_def)
  have unsent: "Sending i \<notin> set (sd_workers st)" for i using finished[of "Sending i"] by blast
  have "(1 \<le> i \<and> i \<le> sd_cursor st \<and> i \<le> sc_orders cfg) \<longleftrightarrow> i \<in> fst ` set (sd_log st)" for i
    using numbers unsent[of i] by (simp add: numbers_ok_def)
  then have set: "set (map fst (sd_log st)) = {1..sc_orders cfg}" using past by force
  have distinct: "distinct (map fst (sd_log st))" using numbers by (simp add: numbers_ok_def)
  have "int (length rows) = int (card (set (map fst (sd_log st))))"
    using list_all2_lengthD[OF rows(2)] distinct_card[OF distinct] by simp
  then have "int (length rows) = sc_orders cfg" using pos(1) by (simp only: set) simp
  with rows set distinct show ?thesis by blast
qed

text \<open>A run of the load script ends: it has at most two steps for each order and one more, sends only
  numbers from 1 to the number of orders, and none twice, also when it fails.\<close>

theorem seed_run_ends:
  assumes "seed_load_config argv env = Inr cfg" and "seed_run E cfg ip token (seed_start cfg v) n st"
  shows "n \<le> 2 * nat (sc_orders cfg) + 1 \<and> distinct (map fst (sd_log st)) \<and>
    set (map fst (sd_log st)) \<subseteq> {1..sc_orders cfg}"
proof -
  have pos: "1 \<le> sc_orders cfg" "1 \<le> sc_concurrency cfg" using seed_load_config_positive[OF assms(1)] by simp_all
  note inv = seed_run_invariants[OF assms(2) pos, unfolded seed_start_measure]
  have "1 \<le> i \<and> i \<le> sc_orders cfg" if "i \<in> fst ` set (sd_log st)" for i
    using inv that unfolding numbers_ok_def by blast
  then have "set (map fst (sd_log st)) \<subseteq> {1..sc_orders cfg}" by force
  with inv show ?thesis by (simp add: numbers_ok_def)
qed

section \<open>Witnesses\<close>

definition demo_seed :: seed_config where
  "demo_seed = \<lparr>sc_baseUrl = ''http://localhost:8080'', sc_orders = 1, sc_concurrency = 1,
     sc_email = ''seed@example.com'', sc_password = ''correct-horse-battery-staple''\<rparr>"

lemma demo_seed_loads: "seed_load_config [''--orders'', ''1'', ''--concurrency'', ''1''] (\<lambda>_. None) = Inr demo_seed"
  by (simp add: seed_load_config_def demo_seed_def seed_option_def seed_parseInteger_def parseInt_def
      parse_digits_def digits_val_def is_js_space_def is_digit_def digit_val_def Let_def)

lemma demo_seed_start: "seed_start demo_seed demo_service =
    \<lparr>sd_workers = [Sending 1], sd_cursor = 1, sd_server = demo_service, sd_failed = False, sd_log = []\<rparr>"
  by (simp add: seed_start_def demo_seed_def next_job_def)

abbreviation demo_seed_request :: http_request where
  "demo_seed_request \<equiv> order_request ''ip'' demo_bearer 1"

lemma demo_seed_headers:
  "req_headers demo_seed_request ''x-request-id'' = None" "req_headers demo_seed_request ''x-correlation-id'' = None"
  "req_headers demo_seed_request ''idempotency-key'' = None"
  "req_headers demo_seed_request ''authorization'' = Some (HeaderOne (''Bearer '' @ demo_bearer))"
  by (simp_all add: order_request_def seed_post_def seed_headers_def)

lemma demo_seed_user: "bearer_user demo_crypto demo_config demo_seed_request 0 = Some demo_user"
  using demo_bearer_verifies
  by (simp add: bearer_user_def demo_seed_headers demo_config_def starts_with_iff access_claims_def demo_user_def)

lemma demo_seed_ready:
  "create_ready (demo_world\<lparr>uuids_used := Suc 0\<rparr>) demo_uuid (admitted_request demo_env demo_seed_request (demo_app e))
     (user_id demo_user) (seed_order 1)"
proof -
  have corr: "correlation_of (admitted_request demo_env demo_seed_request (demo_app e)) = demo_uuid 0"
    by (simp add: correlation_of_def admitted_request_def with_request_id_def genReqId_def short_header_def demo_seed_headers
        demo_world_def Let_def)
  have fresh: "ids_fresh demo_uuid (demo_world\<lparr>uuids_used := Suc 0\<rparr>)"
    using demo_ids_fresh[of "[]"] by (simp add: ids_fresh_def demo_world_def demo_database_def)
  have "order_storable r (seed_order 1)" if "text_ok (correlation_of r)" for r
    using that seeded_orders_valid[of 1] seed_texts_ok[of 1]
    by (simp add: order_storable_def)
  moreover have "text_ok (demo_uuid 0)" using fresh by (simp add: ids_fresh_def)
  moreover have "uuid_in (user_id demo_user) \<in> us_id ` set (users demo_database)"
    using demo_create_ready by (simp add: create_ready_def demo_user_def demo_world_def)
  ultimately show ?thesis by (intro create_readyI fresh) (simp_all add: corr demo_world_def)
qed

lemma demo_seed_serves:
  obtains row v' where "serve demo_env Orders_Create demo_seed_request (Inr (orderBody 1)) demo_service =
      Some (send_response (order_reply_of row), v')"
proof -
  have keyless: "readIdempotencyKey demo_seed_request = None" by (simp add: readIdempotencyKey_def demo_seed_headers)
  have bearer: "bearer_user (en_auth demo_env) (en_config demo_env) demo_seed_request
      (check_time demo_env demo_seed_request (srv_app demo_service)) = Some demo_user"
    by (simp add: stub_check_time demo_seed_user)
  have pg: "pg (admitted_state demo_env demo_seed_request (demo_app e)) = demo_world\<lparr>uuids_used := Suc 0\<rparr>" for e
    by (simp add: admitted_state_def with_request_id_def short_header_def demo_seed_headers demo_world_def)
  show thesis
    by (rule serve_creates[where E = demo_env and v = demo_service and request = demo_seed_request, OF _ keyless _ bearer orderBody_parses])
      (use that demo_seed_ready in \<open>simp_all add: stub_limit_passes pg\<close>)
qed

lemma read_order_reply: "\<exists>body. read_reply (send_response (order_reply_of row)) = Inr body"
proof -
  have wf: "json_wf (order_body row)" by (simp add: order_body_def)
  then have "JSON_parse (JSON_stringify (order_body row)) = Some (order_body row)" by (rule JSON_parse_stringify)
  then show ?thesis
    by (auto simp: read_reply_def send_response_def order_reply_of_def reply_text_def response_ok_def)
qed

theorem seed_creates_each_order_once_witness:
  "\<exists>st. seed_run demo_env demo_seed ''ip'' demo_bearer (seed_start demo_seed demo_service) 2 st \<and> seed_done st \<and>
     length (orders (committed (pg (srv_app (sd_server st))))) = 1"
proof -
  obtain row v' where run: "serve demo_env Orders_Create demo_seed_request (Inr (orderBody 1)) demo_service =
      Some (send_response (order_reply_of row), v')" by (rule demo_seed_serves)
  obtain body where body: "read_reply (send_response (order_reply_of row)) = Inr body" using read_order_reply by blast
  let ?st0 = "seed_start demo_seed demo_service" and ?r = "send_response (order_reply_of row)"
  let ?st1 = "?st0\<lparr>sd_workers := [Replied 1 ?r], sd_server := v', sd_log := [(1, ?r)]\<rparr>"
  let ?st2 = "?st1\<lparr>sd_workers := [Finished], sd_cursor := 2\<rparr>"
  have "seed_step demo_env demo_seed ''ip'' demo_bearer ?st0 ?st1"
    using seed_step.served[of ?st0 0 1 demo_env "''ip''" demo_bearer ?r v' demo_seed] run by (simp add: demo_seed_start)
  moreover have "next_job demo_seed (sd_cursor ?st1) = (Finished, 2)"
    by (simp add: demo_seed_start) (simp add: next_job_def demo_seed_def)
  with body have "seed_step demo_env demo_seed ''ip'' demo_bearer ?st1
      (?st1\<lparr>sd_workers := (sd_workers ?st1)[0 := Finished], sd_cursor := 2\<rparr>)"
    by (intro seed_step.accepted[where i = 1 and reply = ?r and body = body]) (simp_all add: demo_seed_start)
  then have "seed_step demo_env demo_seed ''ip'' demo_bearer ?st1 ?st2" by simp
  ultimately have steps: "seed_run demo_env demo_seed ''ip'' demo_bearer ?st0 (Suc (Suc 0)) ?st2"
    by (blast intro: seed_run.intros)
  have final: "seed_done ?st2" by (simp add: seed_done_def demo_seed_start)
  have "int (length (orders (committed (pg (srv_app (sd_server ?st2)))))) = 1"
    using seed_creates_each_order_once[OF demo_seed_loads steps final]
    by (auto simp: demo_seed_def demo_world_def demo_database_def)
  with steps final show ?thesis by (intro exI[of _ ?st2]) (simp add: numeral_2_eq_2)
qed

theorem seed_run_ends_witness:
  "seed_run demo_env demo_seed ''ip'' demo_bearer (seed_start demo_seed demo_service) 0 (seed_start demo_seed demo_service) \<and>
     (0::nat) \<le> 2 * nat (sc_orders demo_seed) + 1"
proof -
  have run: "seed_run demo_env demo_seed ''ip'' demo_bearer (seed_start demo_seed demo_service) 0 (seed_start demo_seed demo_service)"
    by (rule seed_run.none)
  from seed_run_ends[OF demo_seed_loads run] run show ?thesis by blast
qed

end
