(* ===== verification/Worker_Process.thy ===== *)
theory Worker_Process
  imports Worker_Laws
begin

text \<open>
  The worker process as a whole (\<open>packages/worker-service/src/index.ts\<close>), in small steps: the
  messages it handles at the same time, each suspended at one of its \<open>await\<close>s, the reconnect
  loops, the connections, the timer of a message, the shutdown, and the end and the restart of
  the process. \<open>Worker_Service\<close> has a delivery as one step; here the steps of several
  deliveries interleave, and a processing whose timer has fired goes on while its message is
  delivered again.

  The state has the variables of the module, the tables, and what the broker knows: its queues,
  and for each connection (with its one channel) the messages that are delivered and not
  acknowledged. A step is one turn of the event loop, or something the broker or the database
  does. Each connection fails and each query ends as the action of the step says.
\<close>

section \<open>State\<close>

text \<open>
  \<open>processEvent\<close> at its \<open>await\<close>s: a statement is with the database, its answer is under way, or
  the notification work is going on.
\<close>

datatype processing =
    Claiming | ClaimAnswer "js_error + int"
  | Working
  | Recording | RecordAnswer "js_error + unit"
  | Releasing js_error | ReleaseAnswer js_error "js_error + unit"
  | Settled "js_error + process_result"

text \<open>\<open>jb_awaited\<close>: \<open>handleMessage\<close> still waits for the race of the processing with the timer.\<close>

record job =
  jb_delivery :: delivery
  jb_event :: order_created_event
  jb_work :: processing
  jb_awaited :: bool

text \<open>A connection with its channel.\<close>

record link =
  lk_open :: bool
  lk_consuming :: bool
  lk_tags :: nat
  lk_unacked :: "(nat \<times> amqp_message) list"

text \<open>
  \<open>reconnectLoop\<close> at its \<open>await\<close>s, with \<open>delayMs\<close>. The flag tells the second call of \<open>setupRabbit\<close>,
  the one of \<open>startConsumer\<close>, from the first; \<open>Declaring\<close> counts the calls that are left.
\<close>

datatype loop =
    Connecting int bool | Opening int bool nat | Declaring int bool nat nat | Consuming int nat
  | Sleeping int | LoopEnded

datatype shutdown_stage = NotAsked | Cancelling nat | Draining | Exited

record worker_process =
  ps_db :: database
  ps_main :: "amqp_message list"
  ps_retry :: "amqp_message list"
  ps_dead :: "amqp_message list"
  ps_links :: "link list"
  ps_channel :: "nat option"
  ps_tag :: bool
  ps_shuttingDown :: bool
  ps_stage :: shutdown_stage
  ps_inFlight :: int
  ps_jobs :: "job list"
  ps_loops :: "loop list"
  ps_notified :: "order_created_event list"

definition worker_started :: "database \<Rightarrow> worker_process" where
  "worker_started d = \<lparr>ps_db = d, ps_main = [], ps_retry = [], ps_dead = [], ps_links = [], ps_channel = None,
     ps_tag = False, ps_shuttingDown = False, ps_stage = NotAsked, ps_inFlight = 0, ps_jobs = [],
     ps_loops = [Connecting 1000 False], ps_notified = []\<rparr>"

definition at_job :: "nat \<Rightarrow> (job \<Rightarrow> job) \<Rightarrow> worker_process \<Rightarrow> worker_process" where
  "at_job j f st = st\<lparr>ps_jobs := (ps_jobs st)[j := f (ps_jobs st ! j)]\<rparr>"

definition at_link :: "nat \<Rightarrow> (link \<Rightarrow> link) \<Rightarrow> worker_process \<Rightarrow> worker_process" where
  "at_link c f st = st\<lparr>ps_links := (ps_links st)[c := f (ps_links st ! c)]\<rparr>"

definition at_loop :: "nat \<Rightarrow> loop \<Rightarrow> worker_process \<Rightarrow> worker_process" where
  "at_loop i l st = st\<lparr>ps_loops := (ps_loops st)[i := l]\<rparr>"

section \<open>Messages\<close>

text \<open>
  \<open>channel.ack(message)\<close>: the tag of the message on the channel the variable holds now. What the
  broker does about a tag it does not know (it closes the channel) is left to the step that
  ends the process.
\<close>

definition ack_now :: "nat \<Rightarrow> worker_process \<Rightarrow> worker_process" where
  "ack_now tag st = (case ps_channel st of
     None \<Rightarrow> st
   | Some c \<Rightarrow> at_link c (\<lambda>l. l\<lparr>lk_unacked := filter (\<lambda>(t, m). t \<noteq> tag) (lk_unacked l)\<rparr>) st)"

definition send_copy :: "worker_config \<Rightarrow> amqp_message \<Rightarrow> js_error \<Rightarrow> worker_process \<Rightarrow> worker_process" where
  "send_copy cfg m error st =
     (if retry_target cfg m = deadLetterQueue cfg then st\<lparr>ps_dead := ps_dead st @ [retry_copy m error]\<rparr>
      else st\<lparr>ps_retry := ps_retry st @ [retry_copy m error]\<rparr>)"

definition requeue_now :: "worker_config \<Rightarrow> delivery \<Rightarrow> js_error \<Rightarrow> worker_process \<Rightarrow> worker_process" where
  "requeue_now cfg dl error st =
     (if ps_channel st = None then st else ack_now (dl_tag dl) (send_copy cfg (dl_message dl) error st))"

text \<open>\<open>handleMessage\<close> up to its first \<open>await\<close>; a message that cannot be read is done at once.\<close>

definition receive :: "worker_config \<Rightarrow> delivery \<Rightarrow> worker_process \<Rightarrow> worker_process" where
  "receive cfg dl st =
     (if ps_channel st = None then st
      else (case parseEvent (dl_message dl) of
              Inl e \<Rightarrow> requeue_now cfg dl e st
            | Inr event \<Rightarrow> st\<lparr>ps_inFlight := ps_inFlight st + 1,
                ps_jobs := ps_jobs st @ [\<lparr>jb_delivery = dl, jb_event = event, jb_work = Claiming, jb_awaited = True\<rparr>]\<rparr>))"

definition within_prefetch :: "worker_config \<Rightarrow> link \<Rightarrow> bool" where
  "within_prefetch cfg l \<longleftrightarrow> wc_prefetch cfg = 0 \<or> int (length (lk_unacked l)) < wc_prefetch cfg"

definition delivers :: "worker_config \<Rightarrow> nat \<Rightarrow> worker_process \<Rightarrow> worker_process option" where
  "delivers cfg c st = (case ps_main st of
     [] \<Rightarrow> None
   | m # rest \<Rightarrow>
       if c < length (ps_links st) \<and> lk_open (ps_links st ! c) \<and> lk_consuming (ps_links st ! c) \<and>
          within_prefetch cfg (ps_links st ! c)
       then let tag = lk_tags (ps_links st ! c) + 1 in
         Some (receive cfg \<lparr>dl_channel = c, dl_tag = tag, dl_message = m\<rparr>
           (at_link c (\<lambda>l. l\<lparr>lk_tags := tag, lk_unacked := lk_unacked l @ [(tag, m)]\<rparr>) (st\<lparr>ps_main := rest\<rparr>)))
       else None)"

section \<open>Processing\<close>

text \<open>One statement at the database, with what the network makes of its answer.\<close>

definition run_query :: "pg_fate \<Rightarrow> 'a statement \<Rightarrow> int \<Rightarrow> database \<Rightarrow> (js_error + 'a) \<times> database" where
  "run_query fate stmt now d = (case fate of
     PgOk \<Rightarrow> (case stmt now d of Inl e \<Rightarrow> (Inl e, d) | Inr (a, d') \<Rightarrow> (Inr a, d'))
   | PgFail e applied \<Rightarrow> (Inl e, if applied then (case stmt now d of Inl e' \<Rightarrow> d | Inr (a, d') \<Rightarrow> d') else d))"

definition database_runs :: "nat \<Rightarrow> pg_fate \<Rightarrow> int \<Rightarrow> worker_process \<Rightarrow> worker_process option" where
  "database_runs j fate now st =
     (if \<not> j < length (ps_jobs st) then None
      else let i = eventId (jb_event (ps_jobs st ! j)) in
        case jb_work (ps_jobs st ! j) of
          Claiming \<Rightarrow> (case run_query fate (insert_processed i ''order.created'') now (ps_db st) of
            (r, d) \<Rightarrow> Some (at_job j (\<lambda>b. b\<lparr>jb_work := ClaimAnswer r\<rparr>) (st\<lparr>ps_db := d\<rparr>)))
        | Recording \<Rightarrow> (case run_query fate (set_processed i) now (ps_db st) of
            (r, d) \<Rightarrow> Some (at_job j (\<lambda>b. b\<lparr>jb_work := RecordAnswer r\<rparr>) (st\<lparr>ps_db := d\<rparr>)))
        | Releasing e \<Rightarrow> (case run_query fate (delete_processed i) now (ps_db st) of
            (r, d) \<Rightarrow> Some (at_job j (\<lambda>b. b\<lparr>jb_work := ReleaseAnswer e r\<rparr>) (st\<lparr>ps_db := d\<rparr>)))
        | _ \<Rightarrow> None)"

text \<open>\<open>processEvent\<close> after an answer.\<close>

fun after_answer :: "processing \<Rightarrow> processing option" where
  "after_answer (ClaimAnswer (Inl e)) = Some (Settled (Inl e))"
| "after_answer (ClaimAnswer (Inr n)) = Some (if n = 0 then Settled (Inr Duplicate) else Working)"
| "after_answer (RecordAnswer (Inl e)) = Some (Releasing e)"
| "after_answer (RecordAnswer (Inr u)) = Some (Settled (Inr Processed))"
| "after_answer (ReleaseAnswer e (Inl e')) = Some (Settled (Inl e'))"
| "after_answer (ReleaseAnswer e (Inr u)) = Some (Settled (Inl e))"
| "after_answer w = None"

definition answer_arrives :: "nat \<Rightarrow> worker_process \<Rightarrow> worker_process option" where
  "answer_arrives j st =
     (if \<not> j < length (ps_jobs st) then None
      else map_option (\<lambda>w. at_job j (\<lambda>b. b\<lparr>jb_work := w\<rparr>) st) (after_answer (jb_work (ps_jobs st ! j))))"

text \<open>The end of \<open>simulateNotificationWork\<close>, the start of the UPDATE.\<close>

definition work_done :: "nat \<Rightarrow> worker_process \<Rightarrow> worker_process option" where
  "work_done j st =
     (if j < length (ps_jobs st) \<and> jb_work (ps_jobs st ! j) = Working
      then Some (at_job j (\<lambda>b. b\<lparr>jb_work := Recording\<rparr>) (st\<lparr>ps_notified := ps_notified st @ [jb_event (ps_jobs st ! j)]\<rparr>))
      else None)"

text \<open>The \<open>finally\<close> of \<open>handleMessage\<close>.\<close>

definition leave :: "nat \<Rightarrow> worker_process \<Rightarrow> worker_process" where
  "leave j st = at_job j (\<lambda>b. b\<lparr>jb_awaited := False\<rparr>) (st\<lparr>ps_inFlight := ps_inFlight st - 1\<rparr>)"

text \<open>\<open>handleMessage\<close> after the race: the processing is first, or the timer.\<close>

definition handler_goes_on :: "worker_config \<Rightarrow> nat \<Rightarrow> worker_process \<Rightarrow> worker_process option" where
  "handler_goes_on cfg j st =
     (if j < length (ps_jobs st) \<and> jb_awaited (ps_jobs st ! j)
      then (let dl = jb_delivery (ps_jobs st ! j) in
        case jb_work (ps_jobs st ! j) of
          Settled (Inr res) \<Rightarrow> Some (leave j (ack_now (dl_tag dl) st))
        | Settled (Inl e) \<Rightarrow> Some (leave j (requeue_now cfg dl e st))
        | _ \<Rightarrow> None)
      else None)"

fun settled :: "processing \<Rightarrow> bool" where
  "settled (Settled r) = True"
| "settled w = False"

definition timer_first :: "worker_config \<Rightarrow> nat \<Rightarrow> worker_process \<Rightarrow> worker_process option" where
  "timer_first cfg j st =
     (if j < length (ps_jobs st) \<and> jb_awaited (ps_jobs st ! j) \<and> \<not> settled (jb_work (ps_jobs st ! j))
      then Some (leave j (requeue_now cfg (jb_delivery (ps_jobs st ! j)) (timed_out cfg) st))
      else None)"

text \<open>The time of a message in the retry queue is over: it goes back to the main queue.\<close>

definition retry_due :: "worker_process \<Rightarrow> worker_process option" where
  "retry_due st = (case ps_retry st of
     [] \<Rightarrow> None
   | m # rest \<Rightarrow> Some (st\<lparr>ps_retry := rest, ps_main := ps_main st @ [m]\<rparr>))"

section \<open>Connections\<close>

text \<open>The head of the loop of \<open>reconnectLoop\<close>, and what \<open>startConsumer\<close> does up to its first \<open>await\<close>.\<close>

definition loop_head :: "int \<Rightarrow> worker_process \<Rightarrow> loop" where
  "loop_head delayMs st = (if ps_shuttingDown st \<or> ps_channel st \<noteq> None then LoopEnded else Connecting delayMs False)"

definition start_consumer :: "int \<Rightarrow> worker_process \<Rightarrow> loop" where
  "start_consumer delayMs st = (case ps_channel st of Some c \<Rightarrow> Consuming delayMs c | None \<Rightarrow> Connecting delayMs True)"

text \<open>A reconnect loop after the promise it waits for: fulfilled (\<open>ok\<close>) or rejected.\<close>

definition loop_goes_on :: "nat \<Rightarrow> bool \<Rightarrow> worker_process \<Rightarrow> worker_process option" where
  "loop_goes_on i ok st =
     (if \<not> i < length (ps_loops st) then None
      else (let opened = (\<lambda>c. c < length (ps_links st) \<and> lk_open (ps_links st ! c)) in
        case ps_loops st ! i of
          Connecting d again \<Rightarrow>
            if ok then Some (at_loop i (Opening d again (length (ps_links st)))
                (st\<lparr>ps_links := ps_links st @ [\<lparr>lk_open = True, lk_consuming = False, lk_tags = 0, lk_unacked = []\<rparr>]\<rparr>))
            else Some (at_loop i (Sleeping d) st)
        | Opening d again c \<Rightarrow>
            if \<not> ok then Some (at_loop i (Sleeping d) st)
            else if opened c then Some (at_loop i (Declaring d again c 6) (st\<lparr>ps_channel := Some c\<rparr>))
            else None
        | Declaring d again c n \<Rightarrow>
            if \<not> ok then Some (at_loop i (Sleeping d) st)
            else if \<not> opened c then None
            else Some (at_loop i (if 1 < n then Declaring d again c (n - 1)
                else if again then Consuming d c else start_consumer d st) st)
        | Consuming d c \<Rightarrow>
            if \<not> ok then Some (at_loop i (Sleeping d) st)
            else if opened c then Some (at_loop i LoopEnded (at_link c (\<lambda>l. l\<lparr>lk_consuming := True\<rparr>) (st\<lparr>ps_tag := True\<rparr>)))
            else None
        | Sleeping d \<Rightarrow> Some (at_loop i (loop_head (min (d * 2) 30000) st) st)
        | LoopEnded \<Rightarrow> None))"

text \<open>
  A connection closes: the broker puts its messages back, the \<open>close\<close> handler clears the
  variables and starts a loop.
\<close>

definition link_closes :: "nat \<Rightarrow> worker_process \<Rightarrow> worker_process option" where
  "link_closes c st =
     (if c < length (ps_links st) \<and> lk_open (ps_links st ! c)
      then (let st1 = at_link c (\<lambda>l. l\<lparr>lk_open := False, lk_consuming := False, lk_unacked := []\<rparr>)
                (st\<lparr>ps_main := map snd (lk_unacked (ps_links st ! c)) @ ps_main st, ps_channel := None, ps_tag := False\<rparr>)
            in Some (if ps_shuttingDown st then st1 else st1\<lparr>ps_loops := ps_loops st1 @ [loop_head 1000 st1]\<rparr>))
      else None)"

section \<open>Shutdown, end and restart\<close>

definition signalled :: "worker_process \<Rightarrow> worker_process option" where
  "signalled st =
     (if ps_stage st = NotAsked
      then Some (st\<lparr>ps_shuttingDown := True,
        ps_stage := (case ps_channel st of Some c \<Rightarrow> if ps_tag st then Cancelling c else Draining | None \<Rightarrow> Draining)\<rparr>)
      else None)"

text \<open>An error of \<open>channel.cancel\<close> is dropped.\<close>

definition cancelled :: "bool \<Rightarrow> worker_process \<Rightarrow> worker_process option" where
  "cancelled ok st = (case ps_stage st of
     Cancelling c \<Rightarrow>
       Some ((if ok \<and> c < length (ps_links st) then at_link c (\<lambda>l. l\<lparr>lk_consuming := False\<rparr>) st else st)\<lparr>ps_stage := Draining\<rparr>)
   | _ \<Rightarrow> None)"

text \<open>The process is gone: the broker has its messages back, nothing it was doing goes on.\<close>

definition worker_ends :: "worker_process \<Rightarrow> worker_process" where
  "worker_ends st = st\<lparr>ps_main := concat (map (\<lambda>l. map snd (lk_unacked l)) (ps_links st)) @ ps_main st, ps_links := [],
     ps_channel := None, ps_tag := False, ps_stage := Exited, ps_inFlight := 0, ps_jobs := [], ps_loops := []\<rparr>"

fun query_out :: "processing \<Rightarrow> bool" where
  "query_out Working = False"
| "query_out (Settled r) = False"
| "query_out w = True"

text \<open>
  The drain loop is over and \<open>app.close\<close>, the closing of the channel and the connection, and
  \<open>pool.end\<close>, which waits for the queries that are out, are done; \<open>process.exit(0)\<close>.
\<close>

definition drained :: "bool \<Rightarrow> worker_process \<Rightarrow> worker_process option" where
  "drained deadline st =
     (if ps_stage st = Draining \<and> (ps_inFlight st \<le> 0 \<or> deadline) \<and> \<not> list_ex (\<lambda>b. query_out (jb_work b)) (ps_jobs st)
      then Some (worker_ends st) else None)"

definition stops :: "worker_process \<Rightarrow> worker_process option" where
  "stops st = (if ps_stage st = Exited then None else Some (worker_ends st))"

definition restarts :: "worker_process \<Rightarrow> worker_process option" where
  "restarts st =
     (if ps_stage st = Exited
      then Some (st\<lparr>ps_shuttingDown := False, ps_stage := NotAsked, ps_loops := [Connecting 1000 False]\<rparr>) else None)"

section \<open>Steps and runs\<close>

datatype action =
    Arrives amqp_message | Delivers nat | DatabaseRuns nat pg_fate int | AnswerArrives nat | WorkDone nat
  | HandlerGoesOn nat | TimerFirst nat | RetryDue | LoopGoesOn nat bool | LinkCloses nat
  | Signalled | CancelEnds bool | Drained bool | Stops | Restarts

fun worker_step :: "worker_config \<Rightarrow> action \<Rightarrow> worker_process \<Rightarrow> worker_process option" where
  "worker_step cfg (Arrives m) st = Some (st\<lparr>ps_main := ps_main st @ [m]\<rparr>)"
| "worker_step cfg (Delivers c) st = delivers cfg c st"
| "worker_step cfg (DatabaseRuns j fate now) st = database_runs j fate now st"
| "worker_step cfg (AnswerArrives j) st = answer_arrives j st"
| "worker_step cfg (WorkDone j) st = work_done j st"
| "worker_step cfg (HandlerGoesOn j) st = handler_goes_on cfg j st"
| "worker_step cfg (TimerFirst j) st = timer_first cfg j st"
| "worker_step cfg RetryDue st = retry_due st"
| "worker_step cfg (LoopGoesOn i ok) st = loop_goes_on i ok st"
| "worker_step cfg (LinkCloses c) st = link_closes c st"
| "worker_step cfg Signalled st = signalled st"
| "worker_step cfg (CancelEnds ok) st = cancelled ok st"
| "worker_step cfg (Drained deadline) st = drained deadline st"
| "worker_step cfg Stops st = stops st"
| "worker_step cfg Restarts st = restarts st"

text \<open>The runs whose every action is allowed in the state it happens in.\<close>

inductive worker_run ::
  "worker_config \<Rightarrow> (action \<Rightarrow> worker_process \<Rightarrow> bool) \<Rightarrow> worker_process \<Rightarrow> worker_process \<Rightarrow> bool"
  for cfg allowed where
  stays: "worker_run cfg allowed st st"
| goes: "worker_run cfg allowed st st1 \<Longrightarrow> allowed a st1 \<Longrightarrow> worker_step cfg a st1 = Some st2 \<Longrightarrow> worker_run cfg allowed st st2"

text \<open>A given sequence of actions, for evaluation.\<close>

fun worker_acts :: "worker_config \<Rightarrow> action list \<Rightarrow> worker_process \<Rightarrow> worker_process option" where
  "worker_acts cfg [] st = Some st"
| "worker_acts cfg (a # as) st = (case worker_step cfg a st of None \<Rightarrow> None | Some st1 \<Rightarrow> worker_acts cfg as st1)"

lemma worker_run_trans: "worker_run cfg allowed st1 st2 \<Longrightarrow> worker_run cfg allowed st st1 \<Longrightarrow> worker_run cfg allowed st st2"
  by (induction rule: worker_run.induct) (auto intro: worker_run.intros)

end
