(* ===== verification/Worker_Process_Laws.thy ===== *)
theory Worker_Process_Laws
  imports Worker_Process "HOL-Library.Multiset"
begin

text \<open>
  Invariants of the worker process under every interleaving: the in-flight counter, and that a
  notification is made at most once for each event while the statements of the database succeed.
\<close>

section \<open>Updates at an index\<close>

lemma at_job_fields [simp]:
  "ps_db (at_job j f st) = ps_db st" "ps_main (at_job j f st) = ps_main st" "ps_retry (at_job j f st) = ps_retry st"
  "ps_dead (at_job j f st) = ps_dead st" "ps_links (at_job j f st) = ps_links st" "ps_channel (at_job j f st) = ps_channel st"
  "ps_tag (at_job j f st) = ps_tag st" "ps_shuttingDown (at_job j f st) = ps_shuttingDown st" "ps_stage (at_job j f st) = ps_stage st"
  "ps_inFlight (at_job j f st) = ps_inFlight st" "ps_loops (at_job j f st) = ps_loops st" "ps_notified (at_job j f st) = ps_notified st"
  "ps_jobs (at_job j f st) = (ps_jobs st)[j := f (ps_jobs st ! j)]"
  by (simp_all add: at_job_def)

lemma at_link_fields [simp]:
  "ps_db (at_link c g st) = ps_db st" "ps_main (at_link c g st) = ps_main st" "ps_retry (at_link c g st) = ps_retry st"
  "ps_dead (at_link c g st) = ps_dead st" "ps_jobs (at_link c g st) = ps_jobs st" "ps_channel (at_link c g st) = ps_channel st"
  "ps_tag (at_link c g st) = ps_tag st" "ps_shuttingDown (at_link c g st) = ps_shuttingDown st" "ps_stage (at_link c g st) = ps_stage st"
  "ps_inFlight (at_link c g st) = ps_inFlight st" "ps_loops (at_link c g st) = ps_loops st" "ps_notified (at_link c g st) = ps_notified st"
  "ps_links (at_link c g st) = (ps_links st)[c := g (ps_links st ! c)]"
  by (simp_all add: at_link_def)

lemma at_loop_fields [simp]:
  "ps_db (at_loop i l st) = ps_db st" "ps_main (at_loop i l st) = ps_main st" "ps_retry (at_loop i l st) = ps_retry st"
  "ps_dead (at_loop i l st) = ps_dead st" "ps_jobs (at_loop i l st) = ps_jobs st" "ps_channel (at_loop i l st) = ps_channel st"
  "ps_tag (at_loop i l st) = ps_tag st" "ps_shuttingDown (at_loop i l st) = ps_shuttingDown st" "ps_stage (at_loop i l st) = ps_stage st"
  "ps_inFlight (at_loop i l st) = ps_inFlight st" "ps_links (at_loop i l st) = ps_links st" "ps_notified (at_loop i l st) = ps_notified st"
  "ps_loops (at_loop i l st) = (ps_loops st)[i := l]"
  by (simp_all add: at_loop_def)

lemma ack_now_fields [simp]:
  "ps_db (ack_now t st) = ps_db st" "ps_main (ack_now t st) = ps_main st" "ps_retry (ack_now t st) = ps_retry st"
  "ps_dead (ack_now t st) = ps_dead st" "ps_jobs (ack_now t st) = ps_jobs st" "ps_channel (ack_now t st) = ps_channel st"
  "ps_tag (ack_now t st) = ps_tag st" "ps_shuttingDown (ack_now t st) = ps_shuttingDown st" "ps_stage (ack_now t st) = ps_stage st"
  "ps_inFlight (ack_now t st) = ps_inFlight st" "ps_loops (ack_now t st) = ps_loops st" "ps_notified (ack_now t st) = ps_notified st"
  by (simp_all add: ack_now_def split: option.split)

lemma send_copy_fields [simp]:
  "ps_db (send_copy cfg m e st) = ps_db st" "ps_main (send_copy cfg m e st) = ps_main st"
  "ps_links (send_copy cfg m e st) = ps_links st" "ps_jobs (send_copy cfg m e st) = ps_jobs st"
  "ps_channel (send_copy cfg m e st) = ps_channel st" "ps_tag (send_copy cfg m e st) = ps_tag st"
  "ps_shuttingDown (send_copy cfg m e st) = ps_shuttingDown st" "ps_stage (send_copy cfg m e st) = ps_stage st"
  "ps_inFlight (send_copy cfg m e st) = ps_inFlight st" "ps_loops (send_copy cfg m e st) = ps_loops st"
  "ps_notified (send_copy cfg m e st) = ps_notified st"
  by (simp_all add: send_copy_def)

lemma requeue_now_fields [simp]:
  "ps_db (requeue_now cfg dl e st) = ps_db st" "ps_main (requeue_now cfg dl e st) = ps_main st"
  "ps_jobs (requeue_now cfg dl e st) = ps_jobs st" "ps_channel (requeue_now cfg dl e st) = ps_channel st"
  "ps_tag (requeue_now cfg dl e st) = ps_tag st" "ps_shuttingDown (requeue_now cfg dl e st) = ps_shuttingDown st"
  "ps_stage (requeue_now cfg dl e st) = ps_stage st" "ps_inFlight (requeue_now cfg dl e st) = ps_inFlight st"
  "ps_loops (requeue_now cfg dl e st) = ps_loops st" "ps_notified (requeue_now cfg dl e st) = ps_notified st"
  by (simp_all add: requeue_now_def)

lemmas step_defs = delivers_def receive_def database_runs_def answer_arrives_def work_done_def handler_goes_on_def
  timer_first_def retry_due_def loop_goes_on_def link_closes_def signalled_def cancelled_def drained_def stops_def restarts_def
  worker_ends_def leave_def

section \<open>What a step is\<close>

text \<open>The steps of a job, with the work it had and has.\<close>

lemma database_runsE:
  assumes "database_runs j fate now st = Some st'"
  obtains w d where "j < length (ps_jobs st)" and "st' = at_job j (\<lambda>b. b\<lparr>jb_work := w\<rparr>) (st\<lparr>ps_db := d\<rparr>)"
    and "(\<exists>r. jb_work (ps_jobs st ! j) = Claiming \<and> w = ClaimAnswer r \<and>
            run_query fate (insert_processed (eventId (jb_event (ps_jobs st ! j))) ''order.created'') now (ps_db st) = (r, d)) \<or>
         (\<exists>r. jb_work (ps_jobs st ! j) = Recording \<and> w = RecordAnswer r \<and>
            run_query fate (set_processed (eventId (jb_event (ps_jobs st ! j)))) now (ps_db st) = (r, d)) \<or>
         (\<exists>e r. jb_work (ps_jobs st ! j) = Releasing e \<and> w = ReleaseAnswer e r \<and>
            run_query fate (delete_processed (eventId (jb_event (ps_jobs st ! j)))) now (ps_db st) = (r, d))"
proof -
  have j: "j < length (ps_jobs st)" using assms by (simp add: database_runs_def split: if_splits)
  show thesis
    using assms j by (cases "jb_work (ps_jobs st ! j)") (auto simp: database_runs_def Let_def split: prod.splits intro!: that)
qed

lemma answer_arrivesE:
  assumes "answer_arrives j st = Some st'"
  obtains w where "j < length (ps_jobs st)" and "after_answer (jb_work (ps_jobs st ! j)) = Some w"
    and "st' = at_job j (\<lambda>b. b\<lparr>jb_work := w\<rparr>) st"
  using assms by (auto simp: answer_arrives_def split: if_splits)

lemma work_doneE:
  assumes "work_done j st = Some st'"
  obtains "j < length (ps_jobs st)" and "jb_work (ps_jobs st ! j) = Working"
    and "st' = at_job j (\<lambda>b. b\<lparr>jb_work := Recording\<rparr>) (st\<lparr>ps_notified := ps_notified st @ [jb_event (ps_jobs st ! j)]\<rparr>)"
  using assms by (auto simp: work_done_def split: if_splits)

lemma handler_goes_onE:
  assumes "handler_goes_on cfg j st = Some st'"
  obtains (fulfilled) res where "j < length (ps_jobs st)" and "jb_awaited (ps_jobs st ! j)"
      and "jb_work (ps_jobs st ! j) = Settled (Inr res)" and "st' = leave j (ack_now (dl_tag (jb_delivery (ps_jobs st ! j))) st)"
  | (rejected) e where "j < length (ps_jobs st)" and "jb_awaited (ps_jobs st ! j)"
      and "jb_work (ps_jobs st ! j) = Settled (Inl e)" and "st' = leave j (requeue_now cfg (jb_delivery (ps_jobs st ! j)) e st)"
proof (cases "jb_work (ps_jobs st ! j)")
  case (Settled r)
  with assms that show thesis by (cases r) (auto simp: handler_goes_on_def Let_def split: if_splits)
qed (use assms in \<open>auto simp: handler_goes_on_def Let_def split: if_splits\<close>)

lemma timer_firstE:
  assumes "timer_first cfg j st = Some st'"
  obtains "j < length (ps_jobs st)" and "jb_awaited (ps_jobs st ! j)" and "\<not> settled (jb_work (ps_jobs st ! j))"
    and "st' = leave j (requeue_now cfg (jb_delivery (ps_jobs st ! j)) (timed_out cfg) st)"
  using assms by (auto simp: timer_first_def split: if_splits)

lemma leave_fields [simp]:
  "ps_db (leave j st) = ps_db st" "ps_main (leave j st) = ps_main st" "ps_retry (leave j st) = ps_retry st"
  "ps_dead (leave j st) = ps_dead st" "ps_links (leave j st) = ps_links st" "ps_channel (leave j st) = ps_channel st"
  "ps_tag (leave j st) = ps_tag st" "ps_shuttingDown (leave j st) = ps_shuttingDown st" "ps_stage (leave j st) = ps_stage st"
  "ps_inFlight (leave j st) = ps_inFlight st - 1" "ps_loops (leave j st) = ps_loops st" "ps_notified (leave j st) = ps_notified st"
  "ps_jobs (leave j st) = (ps_jobs st)[j := (ps_jobs st ! j)\<lparr>jb_awaited := False\<rparr>]"
  by (simp_all add: leave_def)

text \<open>A delivery: the message is taken from the queue, and a job begins, a copy is sent, or it is left alone.\<close>

lemma deliversE:
  assumes "delivers cfg c st = Some st'"
  obtains m rest st1 where "ps_main st = m # rest" and "c < length (ps_links st)" and "lk_open (ps_links st ! c)"
    and "lk_consuming (ps_links st ! c)"
    and "st1 = at_link c (\<lambda>l. l\<lparr>lk_tags := lk_tags l + 1, lk_unacked := lk_unacked l @ [(lk_tags l + 1, m)]\<rparr>) (st\<lparr>ps_main := rest\<rparr>)"
    and "st' = receive cfg \<lparr>dl_channel = c, dl_tag = lk_tags (ps_links st ! c) + 1, dl_message = m\<rparr> st1"
  using assms by (auto simp: delivers_def Let_def at_link_def split: list.splits if_splits)

lemma receiveE:
  obtains (ignored) "ps_channel st = None" and "receive cfg dl st = st"
  | (unreadable) e where "ps_channel st \<noteq> None" and "parseEvent (dl_message dl) = Inl e" and "receive cfg dl st = requeue_now cfg dl e st"
  | (begins) event where "ps_channel st \<noteq> None" and "parseEvent (dl_message dl) = Inr event"
      and "receive cfg dl st = st\<lparr>ps_inFlight := ps_inFlight st + 1,
        ps_jobs := ps_jobs st @ [\<lparr>jb_delivery = dl, jb_event = event, jb_work = Claiming, jb_awaited = True\<rparr>]\<rparr>"
proof (cases "parseEvent (dl_message dl)")
  case (Inl e)
  then show thesis using that(1) that(2)[of e] by (cases "ps_channel st = None") (simp_all add: receive_def)
next
  case (Inr event)
  then show thesis using that(1) that(3)[of event] by (cases "ps_channel st = None") (simp_all add: receive_def)
qed

text \<open>The loops, the connections and the shutdown touch neither the tables nor what was notified.\<close>

lemma loop_goes_on_fields:
  assumes "loop_goes_on i ok st = Some st'"
  shows "ps_db st' = ps_db st \<and> ps_main st' = ps_main st \<and> ps_retry st' = ps_retry st \<and> ps_dead st' = ps_dead st \<and>
    ps_jobs st' = ps_jobs st \<and> ps_notified st' = ps_notified st \<and> ps_inFlight st' = ps_inFlight st \<and>
    ps_shuttingDown st' = ps_shuttingDown st \<and> ps_stage st' = ps_stage st"
proof -
  have i: "i < length (ps_loops st)" using assms by (simp add: loop_goes_on_def split: if_splits)
  show ?thesis
    using assms i by (cases "ps_loops st ! i") (auto simp: loop_goes_on_def Let_def split: if_splits)
qed

lemma link_closesE:
  assumes "link_closes c st = Some st'"
  obtains "c < length (ps_links st)" and "lk_open (ps_links st ! c)"
    and "ps_db st' = ps_db st" and "ps_main st' = map snd (lk_unacked (ps_links st ! c)) @ ps_main st"
    and "ps_retry st' = ps_retry st" and "ps_dead st' = ps_dead st" and "ps_jobs st' = ps_jobs st"
    and "ps_notified st' = ps_notified st" and "ps_inFlight st' = ps_inFlight st" and "ps_channel st' = None"
    and "ps_links st' = (ps_links st)[c := (ps_links st ! c)\<lparr>lk_open := False, lk_consuming := False, lk_unacked := []\<rparr>]"
    and "ps_loops st' = ps_loops st \<or> ps_loops st' = ps_loops st @ [Connecting 1000 False]"
    and "ps_stage st' = ps_stage st"
  using assms by (auto simp: link_closes_def Let_def loop_head_def split: if_splits)

lemma worker_ends_fields [simp]:
  "ps_db (worker_ends st) = ps_db st" "ps_retry (worker_ends st) = ps_retry st" "ps_dead (worker_ends st) = ps_dead st"
  "ps_main (worker_ends st) = concat (map (\<lambda>l. map snd (lk_unacked l)) (ps_links st)) @ ps_main st"
  "ps_links (worker_ends st) = []" "ps_channel (worker_ends st) = None" "ps_jobs (worker_ends st) = []"
  "ps_loops (worker_ends st) = []" "ps_notified (worker_ends st) = ps_notified st" "ps_inFlight (worker_ends st) = 0"
  "ps_stage (worker_ends st) = Exited"
  by (simp_all add: worker_ends_def)

section \<open>The in-flight counter\<close>

definition counts_handlers :: "worker_process \<Rightarrow> bool" where
  "counts_handlers st \<longleftrightarrow> ps_inFlight st = int (length (filter jb_awaited (ps_jobs st)))"

lemma filter_update_same:
  "j < length xs \<Longrightarrow> P (f (xs ! j)) = P (xs ! j) \<Longrightarrow> length (filter P (xs[j := f (xs ! j)])) = length (filter P xs)"
  by (induction xs arbitrary: j) (auto simp: nth_Cons' split: nat.splits)

lemma filter_update_off:
  "j < length xs \<Longrightarrow> P (xs ! j) \<Longrightarrow> \<not> P y \<Longrightarrow> Suc (length (filter P (xs[j := y]))) = length (filter P xs)"
proof (induction xs arbitrary: j)
  case (Cons x xs)
  then show ?case by (cases j) auto
qed simp

lemma counts_leave:
  assumes "j < length (ps_jobs st)" and "jb_awaited (ps_jobs st ! j)" and "counts_handlers st"
    and "ps_inFlight st' = ps_inFlight st - 1" and "ps_jobs st' = (ps_jobs st)[j := (ps_jobs st ! j)\<lparr>jb_awaited := False\<rparr>]"
  shows "counts_handlers st'"
  using filter_update_off[where P = jb_awaited and y = "(ps_jobs st ! j)\<lparr>jb_awaited := False\<rparr>", OF assms(1,2)] assms(3-5)
  by (simp add: counts_handlers_def)

lemma counts_same:
  assumes "j < length (ps_jobs st)" and "counts_handlers st" and "ps_inFlight st' = ps_inFlight st"
    and "ps_jobs st' = (ps_jobs st)[j := (ps_jobs st ! j)\<lparr>jb_work := w\<rparr>]"
  shows "counts_handlers st'"
  using filter_update_same[where P = jb_awaited and f = "\<lambda>b. b\<lparr>jb_work := w\<rparr>", OF assms(1)] assms(2-4)
  by (simp add: counts_handlers_def)

lemma counts_handlers_step:
  assumes "worker_step cfg a st = Some st'" and "counts_handlers st"
  shows "counts_handlers st'"
proof (cases a)
  case (Delivers c)
  with assms(1) have "delivers cfg c st = Some st'" by simp
  then show ?thesis
  proof (rule deliversE)
    fix m rest st1
    let ?dl = "\<lparr>dl_channel = c, dl_tag = lk_tags (ps_links st ! c) + 1, dl_message = m\<rparr>"
    assume st1: "st1 = at_link c (\<lambda>l. l\<lparr>lk_tags := lk_tags l + 1, lk_unacked := lk_unacked l @ [(lk_tags l + 1, m)]\<rparr>) (st\<lparr>ps_main := rest\<rparr>)"
      and st': "st' = receive cfg ?dl st1"
    have "counts_handlers st1" using assms(2) by (simp add: st1 counts_handlers_def)
    then show ?thesis unfolding st' by (cases rule: receiveE[of st1 cfg ?dl]) (simp_all add: counts_handlers_def)
  qed
next
  case (DatabaseRuns j fate now)
  with assms(1) have "database_runs j fate now st = Some st'" by simp
  then show ?thesis by (rule database_runsE) (rule counts_same[of j st, OF _ assms(2)]; simp)
next
  case (AnswerArrives j)
  with assms(1) have "answer_arrives j st = Some st'" by simp
  then show ?thesis by (rule answer_arrivesE) (rule counts_same[of j st, OF _ assms(2)]; simp)
next
  case (WorkDone j)
  with assms(1) have "work_done j st = Some st'" by simp
  then show ?thesis by (rule work_doneE) (rule counts_same[of j st, OF _ assms(2)]; simp)
next
  case (HandlerGoesOn j)
  with assms(1) have "handler_goes_on cfg j st = Some st'" by simp
  then show ?thesis by (rule handler_goes_onE) ((rule counts_leave[of j st, OF _ _ assms(2)]; simp)+)
next
  case (TimerFirst j)
  with assms(1) have "timer_first cfg j st = Some st'" by simp
  then show ?thesis by (rule timer_firstE) (rule counts_leave[of j st, OF _ _ assms(2)]; simp)
next
  case (LoopGoesOn i ok)
  with assms loop_goes_on_fields[of i ok st st'] show ?thesis by (simp add: counts_handlers_def)
next
  case (LinkCloses c)
  with assms(1) have "link_closes c st = Some st'" by simp
  then show ?thesis by (rule link_closesE) (use assms(2) in \<open>simp add: counts_handlers_def\<close>)
qed (use assms in \<open>auto simp: counts_handlers_def retry_due_def signalled_def cancelled_def drained_def stops_def restarts_def
    split: if_splits list.splits shutdown_stage.splits\<close>)

section \<open>Ids and claims\<close>

text \<open>An event that a job has claimed and whose notification it is about to make.\<close>

definition holds_claim :: "processing \<Rightarrow> bool" where
  "holds_claim w \<longleftrightarrow> w = Working \<or> (\<exists>n. w = ClaimAnswer (Inr n) \<and> n \<noteq> 0)"

lemma holds_claim_simps [simp]:
  "holds_claim Working" "\<not> holds_claim Claiming" "\<not> holds_claim Recording" "\<not> holds_claim (RecordAnswer r)"
  "\<not> holds_claim (Releasing e)" "\<not> holds_claim (ReleaseAnswer e q)" "\<not> holds_claim (Settled s)"
  "\<not> holds_claim (ClaimAnswer (Inl e'))" "holds_claim (ClaimAnswer (Inr n)) \<longleftrightarrow> n \<noteq> 0"
  by (auto simp: holds_claim_def)

definition job_id :: "job \<Rightarrow> string" where
  "job_id b = notified_id (jb_event b)"

definition working_ids :: "job list \<Rightarrow> string list" where
  "working_ids js = map job_id (filter (\<lambda>b. holds_claim (jb_work b)) js)"

definition told_ids :: "worker_process \<Rightarrow> string list" where
  "told_ids st = map notified_id (ps_notified st)"

definition row_ids :: "worker_process \<Rightarrow> string set" where
  "row_ids st = pr_event_id ` set (processed_events (ps_db st))"

lemma working_ids_simps [simp]:
  "working_ids [] = []"
  "working_ids (xs @ ys) = working_ids xs @ working_ids ys"
  "working_ids (b # js) = (if holds_claim (jb_work b) then [job_id b] else []) @ working_ids js"
  by (simp_all add: working_ids_def)

text \<open>A change of one job: the ids before and after, with the job's own id put in front.\<close>

lemma working_ids_update:
  assumes "j < length js"
  shows "mset (working_ids (js[j := b])) + (if holds_claim (jb_work (js ! j)) then {#job_id (js ! j)#} else {#}) =
    mset (working_ids js) + (if holds_claim (jb_work b) then {#job_id b#} else {#})"
  using assms
proof (induction js arbitrary: j)
  case (Cons x xs)
  show ?case
  proof (cases j)
    case (Suc k)
    with Cons.prems have "k < length xs" by simp
    from Cons.IH[OF this] show ?thesis by (simp add: Suc split: if_splits)
  qed (simp add: ac_simps)
qed simp

lemma working_ids_keep:
  assumes "j < length js" and "holds_claim (jb_work b) = holds_claim (jb_work (js ! j))" and "job_id b = job_id (js ! j)"
  shows "mset (working_ids (js[j := b])) = mset (working_ids js)"
  using working_ids_update[OF assms(1), of b] assms(2,3) by (simp split: if_splits)

lemma job_id_updates [simp]:
  "job_id (b\<lparr>jb_work := w\<rparr>) = job_id b" "job_id (b\<lparr>jb_awaited := a\<rparr>) = job_id b"
  by (simp_all add: job_id_def)

lemma after_answer_claim: "after_answer w = Some w' \<Longrightarrow> holds_claim w' = holds_claim w"
  by (cases w rule: after_answer.cases) auto

text \<open>The ids of the events that are notified or about to be.\<close>

definition claimed_ids :: "worker_process \<Rightarrow> string multiset" where
  "claimed_ids st = mset (told_ids st) + mset (working_ids (ps_jobs st))"

lemma claimed_ids_same:
  "ps_notified st' = ps_notified st \<Longrightarrow> mset (working_ids (ps_jobs st')) = mset (working_ids (ps_jobs st)) \<Longrightarrow>
   claimed_ids st' = claimed_ids st"
  by (simp add: claimed_ids_def told_ids_def)

lemma insert_processed_run:
  assumes "run_query fate (insert_processed i t) now d = (r, d')"
  shows "(uuid_in i \<notin> pr_event_id ` set (processed_events d) \<and>
      pr_event_id ` set (processed_events d') = insert (uuid_in i) (pr_event_id ` set (processed_events d)) \<and>
      (r = Inr 1 \<or> (\<exists>e. r = Inl e \<and> fate = PgFail e True))) \<or>
    (d' = d \<and> (\<forall>n. r = Inr n \<longrightarrow> n = 0 \<and> uuid_in i \<in> pr_event_id ` set (processed_events d)))"
  using assms
  by (cases fate) (auto simp: run_query_def insert_processed_def split: if_splits)

lemma set_processed_run:
  assumes "run_query fate (set_processed i) now d = (r, d')"
  shows "pr_event_id ` set (processed_events d') = pr_event_id ` set (processed_events d) \<and> (fate = PgOk \<longrightarrow> r = Inr ())"
proof -
  have "pr_event_id ` set (processed_events d1) = pr_event_id ` set (processed_events d)" if "set_processed i now d = Inr ((), d1)" for d1
    using set_processed_ids[OF that] .
  with assms show ?thesis by (cases fate) (auto simp: run_query_def set_processed_def split: if_splits)
qed

lemma delete_processed_run:
  assumes "run_query fate (delete_processed i) now d = (r, d')"
  shows "pr_event_id ` set (processed_events d') \<subseteq> pr_event_id ` set (processed_events d)"
  using assms by (cases fate) (auto simp: run_query_def delete_processed_def split: if_splits)

section \<open>At most one notification\<close>

text \<open>The runs in which every statement that reaches the database succeeds and is answered.\<close>

definition database_answers :: "action \<Rightarrow> worker_process \<Rightarrow> bool" where
  "database_answers a st \<longleftrightarrow> (\<forall>j fate now. a = DatabaseRuns j fate now \<longrightarrow> fate = PgOk)"

fun no_release :: "processing \<Rightarrow> bool" where
  "no_release (Releasing e) = False"
| "no_release (ReleaseAnswer e r) = False"
| "no_release (RecordAnswer r) = (r = Inr ())"
| "no_release w = True"

definition told_once :: "worker_process \<Rightarrow> bool" where
  "told_once st \<longleftrightarrow> (\<forall>u. count (claimed_ids st) u \<le> (if u \<in> row_ids st then 1 else 0)) \<and>
     (\<forall>b\<in>set (ps_jobs st). no_release (jb_work b))"

lemma told_once_same:
  assumes "told_once st" and "claimed_ids st' = claimed_ids st" and "ps_db st' = ps_db st"
    and "\<forall>b\<in>set (ps_jobs st'). no_release (jb_work b)"
  shows "told_once st'"
  using assms by (simp add: told_once_def row_ids_def)

lemma no_release_update:
  "\<forall>b\<in>set js. no_release (jb_work b) \<Longrightarrow> no_release (jb_work b') \<Longrightarrow> \<forall>b\<in>set (js[j := b']). no_release (jb_work b)"
  using set_update_subset_insert[of js j b'] by blast

lemma told_once_job:
  assumes "told_once st" and "j < length (ps_jobs st)" and "ps_jobs st' = (ps_jobs st)[j := b]"
    and "ps_notified st' = ps_notified st" and "ps_db st' = ps_db st"
    and "holds_claim (jb_work b) = holds_claim (jb_work (ps_jobs st ! j))" and "job_id b = job_id (ps_jobs st ! j)"
    and "no_release (jb_work b)"
  shows "told_once st'"
proof (rule told_once_same[OF assms(1) _ assms(5)])
  show "claimed_ids st' = claimed_ids st"
    using working_ids_keep[OF assms(2,6,7)] assms(3,4) by (intro claimed_ids_same) simp_all
  show "\<forall>b\<in>set (ps_jobs st'). no_release (jb_work b)"
    using assms(1,3,8) no_release_update[of "ps_jobs st" b j] unfolding told_once_def by simp
qed

lemma told_once_leave:
  assumes "told_once st" and "j < length (ps_jobs st)" and "ps_jobs st' = (ps_jobs st)[j := (ps_jobs st ! j)\<lparr>jb_awaited := False\<rparr>]"
    and "ps_notified st' = ps_notified st" and "ps_db st' = ps_db st"
  shows "told_once st'"
  by (rule told_once_job[OF assms]) (use assms(1,2) in \<open>simp_all add: told_once_def\<close>)

lemma told_once_database:
  assumes "told_once st" and "database_runs j PgOk now st = Some st'"
  shows "told_once st'"
  using assms(2)
proof (rule database_runsE)
  fix w d
  let ?b = "ps_jobs st ! j"
  assume j: "j < length (ps_jobs st)" and st': "st' = at_job j (\<lambda>b. b\<lparr>jb_work := w\<rparr>) (st\<lparr>ps_db := d\<rparr>)"
    and what: "(\<exists>r. jb_work ?b = Claiming \<and> w = ClaimAnswer r \<and>
            run_query PgOk (insert_processed (eventId (jb_event ?b)) ''order.created'') now (ps_db st) = (r, d)) \<or>
         (\<exists>r. jb_work ?b = Recording \<and> w = RecordAnswer r \<and>
            run_query PgOk (set_processed (eventId (jb_event ?b))) now (ps_db st) = (r, d)) \<or>
         (\<exists>e r. jb_work ?b = Releasing e \<and> w = ReleaseAnswer e r \<and>
            run_query PgOk (delete_processed (eventId (jb_event ?b))) now (ps_db st) = (r, d))"
  have clean: "no_release (jb_work ?b)" using assms(1) j by (simp add: told_once_def)
  have ids: "mset (working_ids (ps_jobs st')) + (if holds_claim (jb_work ?b) then {#job_id ?b#} else {#}) =
      mset (working_ids (ps_jobs st)) + (if holds_claim w then {#job_id ?b#} else {#})"
    using working_ids_update[OF j, of "?b\<lparr>jb_work := w\<rparr>"] by (simp add: st')
  consider (claim) r where "jb_work ?b = Claiming" "w = ClaimAnswer r"
      "run_query PgOk (insert_processed (eventId (jb_event ?b)) ''order.created'') now (ps_db st) = (r, d)"
    | (recorded) r where "jb_work ?b = Recording" "w = RecordAnswer r"
      "run_query PgOk (set_processed (eventId (jb_event ?b))) now (ps_db st) = (r, d)"
    using what
  proof (elim disjE exE conjE)
    fix e r assume "jb_work ?b = Releasing e"
    with clean show thesis by simp
  qed (use that in blast)+
  then show ?thesis
  proof cases
    case claim
    have jobs: "\<forall>b\<in>set (ps_jobs st'). no_release (jb_work b)"
      using assms(1) claim(2) no_release_update[of "ps_jobs st" "?b\<lparr>jb_work := w\<rparr>" j] by (simp add: told_once_def st')
    have told: "told_ids st' = told_ids st" by (simp add: told_ids_def st')
    from insert_processed_run[OF claim(3)] show ?thesis
    proof
      assume new: "uuid_in (eventId (jb_event ?b)) \<notin> pr_event_id ` set (processed_events (ps_db st)) \<and>
        pr_event_id ` set (processed_events d) = insert (uuid_in (eventId (jb_event ?b))) (pr_event_id ` set (processed_events (ps_db st))) \<and>
        (r = Inr 1 \<or> (\<exists>e. r = Inl e \<and> PgOk = PgFail e True))"
      then have "claimed_ids st' = claimed_ids st + {#job_id ?b#}" "row_ids st' = insert (job_id ?b) (row_ids st)"
        "job_id ?b \<notin> row_ids st"
        using ids claim(1,2) told by (simp_all add: claimed_ids_def row_ids_def st' job_id_def notified_id_def)
      note grown = this
      have "count (claimed_ids st') u \<le> (if u \<in> row_ids st' then 1 else 0)" for u
      proof -
        have "count (claimed_ids st) u \<le> (if u \<in> row_ids st then 1 else 0)" using assms(1) by (simp add: told_once_def)
        with grown show ?thesis by (cases "u = job_id ?b") simp_all
      qed
      with jobs show ?thesis by (simp add: told_once_def)
    next
      assume "d = ps_db st \<and> (\<forall>n. r = Inr n \<longrightarrow> n = 0 \<and> uuid_in (eventId (jb_event ?b)) \<in> pr_event_id ` set (processed_events (ps_db st)))"
      then have "\<not> holds_claim w" "ps_db st' = ps_db st" using claim(2) by (cases r; simp add: st')+
      with ids claim(1) told jobs assms(1) show ?thesis by (simp add: told_once_def claimed_ids_def row_ids_def)
    qed
  next
    case recorded
    from set_processed_run[OF recorded(3)] have same: "row_ids st' = row_ids st" "r = Inr ()" by (simp_all add: row_ids_def st')
    have "claimed_ids st' = claimed_ids st"
      using ids recorded(1,2) by (simp add: claimed_ids_def told_ids_def st')
    with assms(1) same recorded(2) no_release_update[of "ps_jobs st" "?b\<lparr>jb_work := w\<rparr>" j] show ?thesis
      by (simp add: told_once_def st')
  qed
qed

lemma told_once_quiet:
  assumes "told_once st" and "ps_db st' = ps_db st" and "ps_notified st' = ps_notified st"
    and "ps_jobs st' = ps_jobs st \<or> ps_jobs st' = []"
  shows "told_once st'"
proof -
  have "count (claimed_ids st') u \<le> (if u \<in> row_ids st' then 1 else 0)" for u
  proof (rule order_trans)
    show "count (claimed_ids st') u \<le> count (claimed_ids st) u"
      using assms(3,4) by (auto simp: claimed_ids_def told_ids_def)
    show "count (claimed_ids st) u \<le> (if u \<in> row_ids st' then 1 else 0)"
      using assms(1,2) by (simp add: told_once_def row_ids_def)
  qed
  then show ?thesis using assms(1,4) by (auto simp: told_once_def)
qed

lemma told_once_step:
  assumes "worker_step cfg a st = Some st'" and "database_answers a st" and "told_once st"
  shows "told_once st'"
proof (cases a)
  case (Delivers c)
  with assms(1) have "delivers cfg c st = Some st'" by simp
  then show ?thesis
  proof (rule deliversE)
    fix m rest st1
    let ?dl = "\<lparr>dl_channel = c, dl_tag = lk_tags (ps_links st ! c) + 1, dl_message = m\<rparr>"
    assume st1: "st1 = at_link c (\<lambda>l. l\<lparr>lk_tags := lk_tags l + 1, lk_unacked := lk_unacked l @ [(lk_tags l + 1, m)]\<rparr>) (st\<lparr>ps_main := rest\<rparr>)"
      and st': "st' = receive cfg ?dl st1"
    have st1_ok: "told_once st1" by (rule told_once_quiet[OF assms(3)]) (simp_all add: st1)
    show ?thesis
    proof (cases rule: receiveE[of st1 cfg ?dl])
      case ignored
      with st1_ok show ?thesis by (simp add: st')
    next
      case (unreadable e)
      then show ?thesis by (intro told_once_quiet[OF st1_ok]) (simp_all add: st')
    next
      case (begins event)
      show ?thesis
      proof (rule told_once_same[OF st1_ok])
        show "claimed_ids st' = claimed_ids st1" "ps_db st' = ps_db st1"
          using begins by (simp_all add: st' claimed_ids_def told_ids_def)
        show "\<forall>b\<in>set (ps_jobs st'). no_release (jb_work b)" using begins st1_ok by (simp add: st' told_once_def)
      qed
    qed
  qed
next
  case (DatabaseRuns j fate now)
  with assms(1,2) have "database_runs j PgOk now st = Some st'" by (simp add: database_answers_def)
  then show ?thesis by (rule told_once_database[OF assms(3)])
next
  case (AnswerArrives j)
  with assms(1) have "answer_arrives j st = Some st'" by simp
  then show ?thesis
  proof (rule answer_arrivesE)
    fix w assume j: "j < length (ps_jobs st)" and w: "after_answer (jb_work (ps_jobs st ! j)) = Some w"
      and st': "st' = at_job j (\<lambda>b. b\<lparr>jb_work := w\<rparr>) st"
    have "no_release (jb_work (ps_jobs st ! j))" using assms(3) j by (simp add: told_once_def)
    with w have "no_release w" by (cases "jb_work (ps_jobs st ! j)" rule: after_answer.cases) auto
    then show ?thesis
      using told_once_job[OF assms(3) j, of st' "(ps_jobs st ! j)\<lparr>jb_work := w\<rparr>"] by (simp add: st' after_answer_claim[OF w])
  qed
next
  case (WorkDone j)
  with assms(1) have "work_done j st = Some st'" by simp
  then show ?thesis
  proof (rule work_doneE)
    let ?b = "ps_jobs st ! j"
    assume j: "j < length (ps_jobs st)" and w: "jb_work ?b = Working"
      and st': "st' = at_job j (\<lambda>b. b\<lparr>jb_work := Recording\<rparr>) (st\<lparr>ps_notified := ps_notified st @ [jb_event ?b]\<rparr>)"
    have "mset (working_ids (ps_jobs st)) = mset (working_ids (ps_jobs st')) + {#job_id ?b#}"
      using working_ids_update[OF j, of "?b\<lparr>jb_work := Recording\<rparr>"] w by (simp add: st')
    then have "claimed_ids st' = claimed_ids st" by (simp add: claimed_ids_def told_ids_def st' job_id_def)
    then show ?thesis
      using assms(3) no_release_update[of "ps_jobs st" "?b\<lparr>jb_work := Recording\<rparr>" j]
      by (intro told_once_same[OF assms(3)]) (simp_all add: st' told_once_def)
  qed
next
  case (HandlerGoesOn j)
  with assms(1) have "handler_goes_on cfg j st = Some st'" by simp
  then show ?thesis
    by (rule handler_goes_onE) ((rule told_once_leave[OF assms(3)]; simp)+)
next
  case (TimerFirst j)
  with assms(1) have "timer_first cfg j st = Some st'" by simp
  then show ?thesis
    by (rule timer_firstE) (rule told_once_leave[OF assms(3)]; simp)
next
  case (LoopGoesOn i ok)
  with assms(1) loop_goes_on_fields[of i ok st st'] show ?thesis by (intro told_once_quiet[OF assms(3)]) simp_all
next
  case (LinkCloses c)
  with assms(1) have "link_closes c st = Some st'" by simp
  then show ?thesis by (rule link_closesE) (rule told_once_quiet[OF assms(3)]; simp)
qed (use assms(1) in \<open>auto simp: retry_due_def signalled_def cancelled_def drained_def stops_def restarts_def
    intro!: told_once_quiet[OF assms(3)] split: if_splits list.splits shutdown_stage.splits\<close>)

end
