(* ===== verification/Worker_Process_Care.thy ===== *)
theory Worker_Process_Care
  imports Worker_Process_Laws
begin

text \<open>
  When the worker loses no event. An event is accounted for while a message with it is in a
  queue or delivered and not acknowledged, while a job has claimed it and is about to notify,
  or once it is notified. The steps that can break this are left out of the careful runs: the
  lost answer of a claim, the end of the process in the middle of a processing, and the loss of
  a connection while a handler or a reconnect loop is at work. Everything else (the timer, failing
  statements, deliveries in any order, failing connection attempts, the end and restart between
  messages) is allowed, in every interleaving.
\<close>

section \<open>Accounted events\<close>

definition message_event :: "amqp_message \<Rightarrow> string option" where
  "message_event m = (case parseEvent m of Inl e \<Rightarrow> None | Inr event \<Rightarrow> Some (notified_id event))"

definition link_messages :: "link list \<Rightarrow> amqp_message list" where
  "link_messages ls = concat (map (\<lambda>l. map snd (lk_unacked l)) ls)"

definition held_messages :: "worker_process \<Rightarrow> amqp_message set" where
  "held_messages st = set (ps_main st) \<union> set (ps_retry st) \<union> set (ps_dead st) \<union> set (link_messages (ps_links st))"

definition accounted :: "string \<Rightarrow> worker_process \<Rightarrow> bool" where
  "accounted u st \<longleftrightarrow> u \<in># claimed_ids st \<or> Some u \<in> message_event ` held_messages st"

fun lost_claim :: "processing \<Rightarrow> pg_fate \<Rightarrow> bool" where
  "lost_claim Claiming (PgFail e applied) = applied"
| "lost_claim w fate = False"

fun careful :: "action \<Rightarrow> worker_process \<Rightarrow> bool" where
  "careful (DatabaseRuns j fate now) st = (\<not> lost_claim (jb_work (ps_jobs st ! j)) fate)"
| "careful (LinkCloses c) st = (ps_channel st = Some c \<and> \<not> list_ex jb_awaited (ps_jobs st) \<and> list_all (\<lambda>l. l = LoopEnded) (ps_loops st))"
| "careful (Drained deadline) st = list_all (\<lambda>b. settled (jb_work b)) (ps_jobs st)"
| "careful Stops st = list_all (\<lambda>b. settled (jb_work b)) (ps_jobs st)"
| "careful a st = True"

lemma link_messages_iff:
  "x \<in> set (link_messages ls) \<longleftrightarrow> (\<exists>k < length ls. \<exists>t. (t, x) \<in> set (lk_unacked (ls ! k)))"
proof -
  have "x \<in> set (link_messages ls) \<longleftrightarrow> (\<exists>l\<in>set ls. \<exists>t. (t, x) \<in> set (lk_unacked l))" by (force simp: link_messages_def)
  then show ?thesis by (metis in_set_conv_nth)
qed

lemma retry_copy_event [simp]: "message_event (retry_copy m e) = message_event m"
  using parseEvent_content[of "retry_copy m e" m] by (simp add: message_event_def retry_copy_def)

lemma send_copy_holds:
  "held_messages (send_copy cfg m e st) = insert (retry_copy m e) (held_messages st)"
  by (simp add: held_messages_def send_copy_def)

text \<open>An acknowledgement takes away the message with its tag, when tags are not used twice.\<close>

lemma ack_now_holds:
  assumes "ps_channel st = Some c" and "c < length (ps_links st)" and "(tag, m) \<in> set (lk_unacked (ps_links st ! c))"
    and "distinct (map fst (lk_unacked (ps_links st ! c)))"
  shows "held_messages st \<subseteq> insert m (held_messages (ack_now tag st))"
proof
  fix x assume x: "x \<in> held_messages st"
  show "x \<in> insert m (held_messages (ack_now tag st))"
  proof (cases "x \<in> set (link_messages (ps_links st))")
    case False
    with x show ?thesis by (auto simp: held_messages_def)
  next
    case True
    then obtain k t where k: "k < length (ps_links st)" and t: "(t, x) \<in> set (lk_unacked (ps_links st ! k))"
      by (auto simp: link_messages_iff)
    show ?thesis
    proof (cases "k = c \<and> t = tag")
      case True
      then have "x = m" using t assms(3,4) by (metis eq_key_imp_eq_value)
      then show ?thesis by simp
    next
      case False
      have "(t, x) \<in> set (lk_unacked (ps_links (ack_now tag st) ! k))"
        using False t k assms(1,2) by (cases "k = c") (auto simp: ack_now_def)
      moreover have "k < length (ps_links (ack_now tag st))" using k assms(1) by (simp add: ack_now_def)
      ultimately have "x \<in> set (link_messages (ps_links (ack_now tag st)))" by (auto simp: link_messages_iff)
      then show ?thesis by (simp add: held_messages_def)
    qed
  qed
qed

section \<open>The invariant\<close>

text \<open>One reconnect loop at most, and the channel it works on.\<close>

definition running :: "loop list \<Rightarrow> nat" where
  "running ls = length (filter (\<lambda>l. l \<noteq> LoopEnded) ls)"

fun loop_ok :: "nat option \<Rightarrow> loop \<Rightarrow> bool" where
  "loop_ok channel (Connecting d again) = (channel = None)"
| "loop_ok channel (Opening d again c) = (channel = None)"
| "loop_ok channel (Declaring d again c n) = (channel = Some c)"
| "loop_ok channel (Consuming d c) = (channel = Some c)"
| "loop_ok channel l = True"

definition loops_ok :: "worker_process \<Rightarrow> bool" where
  "loops_ok st \<longleftrightarrow> running (ps_loops st) \<le> 1 \<and> (\<forall>l\<in>set (ps_loops st). loop_ok (ps_channel st) l)"

text \<open>Only the channel of the variable delivers, and its tags are not used twice.\<close>

definition links_ok :: "worker_process \<Rightarrow> bool" where
  "links_ok st \<longleftrightarrow> (\<forall>c. ps_channel st = Some c \<longrightarrow> c < length (ps_links st)) \<and>
     (\<forall>k < length (ps_links st). distinct (map fst (lk_unacked (ps_links st ! k))) \<and>
        (\<forall>(t, m)\<in>set (lk_unacked (ps_links st ! k)). t \<le> lk_tags (ps_links st ! k)) \<and>
        (ps_channel st \<noteq> Some k \<longrightarrow> \<not> lk_consuming (ps_links st ! k) \<and> lk_unacked (ps_links st ! k) = []))"

text \<open>A handler waits for a message of that channel that is not acknowledged yet, and for a tag of its own.\<close>

definition job_ok :: "nat option \<Rightarrow> link list \<Rightarrow> job \<Rightarrow> bool" where
  "job_ok channel ls b \<longleftrightarrow> parseEvent (dl_message (jb_delivery b)) = Inr (jb_event b) \<and>
     (jb_awaited b \<longrightarrow> channel = Some (dl_channel (jb_delivery b)) \<and>
        (dl_tag (jb_delivery b), dl_message (jb_delivery b)) \<in> set (lk_unacked (ls ! dl_channel (jb_delivery b))))"

definition awaited_tags :: "job list \<Rightarrow> nat list" where
  "awaited_tags js = map (\<lambda>b. dl_tag (jb_delivery b)) (filter jb_awaited js)"

definition jobs_ok :: "worker_process \<Rightarrow> bool" where
  "jobs_ok st \<longleftrightarrow> (\<forall>b\<in>set (ps_jobs st). job_ok (ps_channel st) (ps_links st) b) \<and> distinct (awaited_tags (ps_jobs st))"

text \<open>A row of \<open>processed_events\<close>, and a job past its claim, stand for an accounted event.\<close>

fun past_claim :: "processing \<Rightarrow> bool" where
  "past_claim Claiming = False"
| "past_claim (ClaimAnswer r) = (\<not> isl r)"
| "past_claim (Settled r) = (\<not> isl r)"
| "past_claim w = True"

definition claims_ok :: "worker_process \<Rightarrow> bool" where
  "claims_ok st \<longleftrightarrow> row_ids st \<subseteq> set_mset (claimed_ids st) \<and>
     (\<forall>b\<in>set (ps_jobs st). past_claim (jb_work b) \<longrightarrow> job_id b \<in># claimed_ids st)"

section \<open>Steps of a job\<close>

text \<open>What a step of the processing changes: the work of one job, the tables, the notifications.\<close>

definition works_on :: "nat \<Rightarrow> processing \<Rightarrow> worker_process \<Rightarrow> worker_process \<Rightarrow> bool" where
  "works_on j w st st' \<longleftrightarrow> j < length (ps_jobs st) \<and> ps_jobs st' = (ps_jobs st)[j := (ps_jobs st ! j)\<lparr>jb_work := w\<rparr>] \<and>
     ps_main st' = ps_main st \<and> ps_retry st' = ps_retry st \<and> ps_dead st' = ps_dead st \<and> ps_links st' = ps_links st \<and>
     ps_channel st' = ps_channel st \<and> ps_loops st' = ps_loops st"

lemma works_on_claims:
  assumes "works_on j w st st'" and "claims_ok st"
    and "set_mset (claimed_ids st) \<subseteq> set_mset (claimed_ids st')"
    and "row_ids st' \<subseteq> row_ids st \<union> set_mset (claimed_ids st')"
    and "past_claim w \<longrightarrow> job_id (ps_jobs st ! j) \<in># claimed_ids st'"
  shows "claims_ok st'"
proof -
  have "job_id b \<in># claimed_ids st'" if "b \<in> set (ps_jobs st')" "past_claim (jb_work b)" for b
  proof -
    have "set (ps_jobs st') \<subseteq> insert ((ps_jobs st ! j)\<lparr>jb_work := w\<rparr>) (set (ps_jobs st))"
      using assms(1) by (simp add: works_on_def set_update_subset_insert)
    with that(1) consider "b = (ps_jobs st ! j)\<lparr>jb_work := w\<rparr>" | "b \<in> set (ps_jobs st)" by blast
    then show ?thesis
    proof cases
      case 1
      with that(2) assms(5) show ?thesis by simp
    next
      case 2
      with that(2) assms(2,3) show ?thesis by (auto simp: claims_ok_def)
    qed
  qed
  with assms(2-4) show ?thesis by (auto simp: claims_ok_def)
qed

text \<open>The claimed ids after such a step.\<close>

lemma works_on_claimed:
  assumes "works_on j w st st'" and "ps_notified st' = ps_notified st"
  shows "claimed_ids st' + (if holds_claim (jb_work (ps_jobs st ! j)) then {#job_id (ps_jobs st ! j)#} else {#}) =
    claimed_ids st + (if holds_claim w then {#job_id (ps_jobs st ! j)#} else {#})"
  using working_ids_update[of j "ps_jobs st" "(ps_jobs st ! j)\<lparr>jb_work := w\<rparr>"] assms
  by (simp add: works_on_def claimed_ids_def told_ids_def split: if_splits)

lemma database_works_on:
  assumes "database_runs j fate now st = Some st'"
  obtains w where "works_on j w st st'" and "ps_notified st' = ps_notified st"
    and "(\<exists>r. jb_work (ps_jobs st ! j) = Claiming \<and> w = ClaimAnswer r \<and>
            run_query fate (insert_processed (eventId (jb_event (ps_jobs st ! j))) ''order.created'') now (ps_db st) = (r, ps_db st')) \<or>
         (\<exists>r. jb_work (ps_jobs st ! j) = Recording \<and> w = RecordAnswer r \<and>
            run_query fate (set_processed (eventId (jb_event (ps_jobs st ! j)))) now (ps_db st) = (r, ps_db st')) \<or>
         (\<exists>e r. jb_work (ps_jobs st ! j) = Releasing e \<and> w = ReleaseAnswer e r \<and>
            run_query fate (delete_processed (eventId (jb_event (ps_jobs st ! j)))) now (ps_db st) = (r, ps_db st'))"
  using assms by (rule database_runsE) (rule that; simp add: works_on_def)

lemma claims_ok_database:
  assumes "database_runs j fate now st = Some st'" and "claims_ok st" and "\<not> lost_claim (jb_work (ps_jobs st ! j)) fate"
  shows "claims_ok st' \<and> set_mset (claimed_ids st) \<subseteq> set_mset (claimed_ids st')"
  using assms(1)
proof (rule database_works_on)
  fix w
  let ?b = "ps_jobs st ! j"
  assume w: "works_on j w st st'" and told: "ps_notified st' = ps_notified st"
    and "(\<exists>r. jb_work ?b = Claiming \<and> w = ClaimAnswer r \<and>
            run_query fate (insert_processed (eventId (jb_event ?b)) ''order.created'') now (ps_db st) = (r, ps_db st')) \<or>
         (\<exists>r. jb_work ?b = Recording \<and> w = RecordAnswer r \<and>
            run_query fate (set_processed (eventId (jb_event ?b))) now (ps_db st) = (r, ps_db st')) \<or>
         (\<exists>e r. jb_work ?b = Releasing e \<and> w = ReleaseAnswer e r \<and>
            run_query fate (delete_processed (eventId (jb_event ?b))) now (ps_db st) = (r, ps_db st'))"
  note ids = works_on_claimed[OF w told]
  have b: "?b \<in> set (ps_jobs st)" using w by (simp add: works_on_def)
  from \<open>_ \<or> _\<close> show ?thesis
  proof (elim disjE exE conjE)
    fix r assume at: "jb_work ?b = Claiming" and wr: "w = ClaimAnswer r"
      and run: "run_query fate (insert_processed (eventId (jb_event ?b)) ''order.created'') now (ps_db st) = (r, ps_db st')"
    have grows: "set_mset (claimed_ids st) \<subseteq> set_mset (claimed_ids st')"
      using ids at by (cases "holds_claim w") auto
    from insert_processed_run[OF run] show ?thesis
    proof
      assume new: "uuid_in (eventId (jb_event ?b)) \<notin> pr_event_id ` set (processed_events (ps_db st)) \<and>
        pr_event_id ` set (processed_events (ps_db st')) =
          insert (uuid_in (eventId (jb_event ?b))) (pr_event_id ` set (processed_events (ps_db st))) \<and>
        (r = Inr 1 \<or> (\<exists>e. r = Inl e \<and> fate = PgFail e True))"
      then have "r = Inr 1" using assms(3) at by auto
      then have "job_id ?b \<in># claimed_ids st'" using ids at wr by simp
      moreover from new have "row_ids st' = insert (job_id ?b) (row_ids st)"
        by (simp add: row_ids_def job_id_def notified_id_def)
      ultimately show ?thesis using works_on_claims[OF w assms(2) grows] grows by auto
    next
      assume known: "ps_db st' = ps_db st \<and>
        (\<forall>n. r = Inr n \<longrightarrow> n = 0 \<and> uuid_in (eventId (jb_event ?b)) \<in> pr_event_id ` set (processed_events (ps_db st)))"
      have "past_claim w \<longrightarrow> job_id ?b \<in># claimed_ids st'"
        using known wr assms(2) grows by (cases r) (auto simp: claims_ok_def row_ids_def job_id_def notified_id_def)
      then show ?thesis using works_on_claims[OF w assms(2) grows] grows known by (simp add: row_ids_def)
    qed
  next
    fix r assume at: "jb_work ?b = Recording" and wr: "w = RecordAnswer r"
      and run: "run_query fate (set_processed (eventId (jb_event ?b))) now (ps_db st) = (r, ps_db st')"
    have same: "claimed_ids st' = claimed_ids st" using ids at wr by simp
    have "job_id ?b \<in># claimed_ids st" using assms(2) b at by (auto simp: claims_ok_def)
    with works_on_claims[OF w assms(2)] same set_processed_run[OF run] show ?thesis by (simp add: row_ids_def)
  next
    fix e r assume at: "jb_work ?b = Releasing e" and wr: "w = ReleaseAnswer e r"
      and run: "run_query fate (delete_processed (eventId (jb_event ?b))) now (ps_db st) = (r, ps_db st')"
    have same: "claimed_ids st' = claimed_ids st" using ids at wr by simp
    have "job_id ?b \<in># claimed_ids st" using assms(2) b at by (auto simp: claims_ok_def)
    moreover have "row_ids st' \<subseteq> row_ids st" using delete_processed_run[OF run] by (simp add: row_ids_def)
    ultimately show ?thesis using works_on_claims[OF w assms(2)] same by auto
  qed
qed

lemma after_answer_past: "after_answer w = Some w' \<Longrightarrow> past_claim w' \<Longrightarrow> past_claim w"
  by (cases w rule: after_answer.cases) (auto split: if_splits)

lemma claims_ok_answer:
  assumes "answer_arrives j st = Some st'" and "claims_ok st"
  shows "claims_ok st' \<and> claimed_ids st' = claimed_ids st"
  using assms(1)
proof (rule answer_arrivesE)
  fix w assume j: "j < length (ps_jobs st)" and w: "after_answer (jb_work (ps_jobs st ! j)) = Some w"
    and st': "st' = at_job j (\<lambda>b. b\<lparr>jb_work := w\<rparr>) st"
  have on: "works_on j w st st'" using j by (simp add: works_on_def st')
  have same: "claimed_ids st' = claimed_ids st"
    using works_on_claimed[OF on] after_answer_claim[OF w] by (simp add: st' split: if_splits)
  moreover have "past_claim w \<longrightarrow> job_id (ps_jobs st ! j) \<in># claimed_ids st"
    using after_answer_past[OF w] assms(2) j by (auto simp: claims_ok_def)
  ultimately show ?thesis using works_on_claims[OF on assms(2)] by (simp add: st' row_ids_def)
qed

lemma claims_ok_work_done:
  assumes "work_done j st = Some st'" and "claims_ok st"
  shows "claims_ok st' \<and> claimed_ids st' = claimed_ids st"
  using assms(1)
proof (rule work_doneE)
  let ?b = "ps_jobs st ! j"
  assume j: "j < length (ps_jobs st)" and at: "jb_work ?b = Working"
    and st': "st' = at_job j (\<lambda>b. b\<lparr>jb_work := Recording\<rparr>) (st\<lparr>ps_notified := ps_notified st @ [jb_event ?b]\<rparr>)"
  have on: "works_on j Recording st st'" using j by (simp add: works_on_def st')
  have same: "claimed_ids st' = claimed_ids st"
    using working_ids_update[OF j, of "?b\<lparr>jb_work := Recording\<rparr>"] at
    by (simp add: st' claimed_ids_def told_ids_def job_id_def)
  moreover have "job_id ?b \<in># claimed_ids st" using assms(2) j at by (auto simp: claims_ok_def)
  ultimately show ?thesis using works_on_claims[OF on assms(2)] by (simp add: st' row_ids_def)
qed

section \<open>The parts of a careful step\<close>

definition steady :: "worker_process \<Rightarrow> bool" where
  "steady st \<longleftrightarrow> loops_ok st \<and> links_ok st \<and> jobs_ok st \<and> claims_ok st"

text \<open>A good step: the invariant holds after it, and every accounted event still is.\<close>

definition keeps_events :: "worker_process \<Rightarrow> worker_process \<Rightarrow> bool" where
  "keeps_events st st' \<longleftrightarrow> steady st' \<and> (\<forall>u. accounted u st \<longrightarrow> accounted u st')"

lemma keeps_eventsI:
  assumes "loops_ok st'" and "links_ok st'" and "jobs_ok st'" and "claims_ok st'"
    and "set_mset (claimed_ids st) \<subseteq> set_mset (claimed_ids st')"
    and "\<And>m u. m \<in> held_messages st \<Longrightarrow> message_event m = Some u \<Longrightarrow> accounted u st'"
  shows "keeps_events st st'"
proof -
  have "accounted u st'" if "accounted u st" for u
    using that unfolding accounted_def[of u st]
  proof
    assume "u \<in># claimed_ids st"
    with assms(5) show ?thesis by (auto simp: accounted_def)
  next
    assume "Some u \<in> message_event ` held_messages st"
    then obtain m where "m \<in> held_messages st" "message_event m = Some u" by (auto simp: eq_commute)
    then show ?thesis by (rule assms(6))
  qed
  with assms(1-4) show ?thesis by (simp add: keeps_events_def steady_def)
qed

lemma held_accounted: "m \<in> held_messages st \<Longrightarrow> message_event m = Some u \<Longrightarrow> accounted u st"
  unfolding accounted_def by (metis image_eqI)

lemma awaited_tags_same:
  assumes "j < length js" and "jb_awaited b = jb_awaited (js ! j)" and "jb_delivery b = jb_delivery (js ! j)"
  shows "awaited_tags (js[j := b]) = awaited_tags js"
  using assms
proof (induction js arbitrary: j)
  case (Cons x xs)
  then show ?case by (cases j) (auto simp: awaited_tags_def)
qed simp

lemma awaited_tags_off:
  assumes "j < length js" and "jb_awaited (js ! j)"
  shows "mset (awaited_tags js) =
    add_mset (dl_tag (jb_delivery (js ! j))) (mset (awaited_tags (js[j := (js ! j)\<lparr>jb_awaited := False\<rparr>])))"
  using assms
proof (induction js arbitrary: j)
  case (Cons x xs)
  show ?case
  proof (cases j)
    case 0
    with Cons.prems show ?thesis by (simp add: awaited_tags_def)
  next
    case (Suc k)
    with Cons.prems have "k < length xs" "jb_awaited (xs ! k)" by simp_all
    from Cons.IH[OF this] show ?thesis by (simp add: Suc awaited_tags_def)
  qed
qed simp

lemma set_update_cases: "x \<in> set (xs[j := y]) \<Longrightarrow> x = y \<or> x \<in> set xs"
  using set_update_subset_insert[of xs j y] by blast

lemma works_on_jobs:
  assumes "works_on j w st st'" and "jobs_ok st"
  shows "jobs_ok st'"
proof -
  let ?b = "(ps_jobs st ! j)\<lparr>jb_work := w\<rparr>"
  have j: "j < length (ps_jobs st)" and jobs: "ps_jobs st' = (ps_jobs st)[j := ?b]"
    and same: "ps_channel st' = ps_channel st" "ps_links st' = ps_links st"
    using assms(1) by (simp_all add: works_on_def)
  have "job_ok (ps_channel st) (ps_links st) (ps_jobs st ! j)" using assms(2) j by (simp add: jobs_ok_def)
  then have "job_ok (ps_channel st) (ps_links st) ?b" by (simp add: job_ok_def)
  moreover have "\<forall>b\<in>set (ps_jobs st). job_ok (ps_channel st) (ps_links st) b" using assms(2) by (simp add: jobs_ok_def)
  ultimately have "\<forall>b\<in>set (ps_jobs st'). job_ok (ps_channel st') (ps_links st') b"
    unfolding same jobs by (auto dest!: set_update_cases)
  moreover have "awaited_tags (ps_jobs st') = awaited_tags (ps_jobs st)"
    unfolding jobs by (rule awaited_tags_same[OF j]) simp_all
  ultimately show ?thesis using assms(2) by (simp add: jobs_ok_def)
qed

lemma works_on_keeps:
  assumes "works_on j w st st'" and "steady st" and "claims_ok st'"
    and "set_mset (claimed_ids st) \<subseteq> set_mset (claimed_ids st')"
  shows "keeps_events st st'"
proof (rule keeps_eventsI[OF _ _ works_on_jobs[OF assms(1)] assms(3,4)])
  show "loops_ok st'" "links_ok st'" "jobs_ok st"
    using assms(1,2) by (simp_all add: works_on_def steady_def loops_ok_def links_ok_def)
  have "held_messages st' = held_messages st" using assms(1) by (simp add: works_on_def held_messages_def)
  then show "accounted u st'" if "m \<in> held_messages st" "message_event m = Some u" for m u
    using held_accounted[of m st' u] that by simp
qed

text \<open>The end of a handler: its own message is acknowledged, the others' are not.\<close>

lemma acked_links:
  assumes "links_ok st" and "ps_channel st1 = ps_channel st" and "ps_links st1 = ps_links (ack_now tag st)"
  shows "links_ok st1"
proof (cases "ps_channel st")
  case None
  with assms show ?thesis by (simp add: links_ok_def ack_now_def)
next
  case (Some c)
  let ?ls = "ps_links st" and ?l = "(ps_links st ! c)\<lparr>lk_unacked := filter (\<lambda>(t, m). t \<noteq> tag) (lk_unacked (ps_links st ! c))\<rparr>"
  note ok = assms(1)
  have ls: "ps_links st1 = ?ls[c := ?l]" using assms(3) Some by (simp add: ack_now_def)
  have c: "c < length ?ls" using ok Some by (simp add: links_ok_def)
  have "distinct (map fst (lk_unacked (?ls[c := ?l] ! k))) \<and>
      (\<forall>(t, m)\<in>set (lk_unacked (?ls[c := ?l] ! k)). t \<le> lk_tags (?ls[c := ?l] ! k)) \<and>
      (ps_channel st \<noteq> Some k \<longrightarrow> \<not> lk_consuming (?ls[c := ?l] ! k) \<and> lk_unacked (?ls[c := ?l] ! k) = [])" if "k < length ?ls" for k
    using ok that c Some by (cases "k = c") (auto simp: links_ok_def distinct_map_filter)
  then show ?thesis using ok assms(2) by (simp add: links_ok_def ls)
qed

lemma links_ok_leave [simp]: "links_ok (leave j st) = links_ok st"
  by (simp add: links_ok_def)

lemma leave_jobs:
  assumes "steady st" and "j < length (ps_jobs st)" and "jb_awaited (ps_jobs st ! j)"
    and "ps_channel st1 = ps_channel st" and "ps_jobs st1 = ps_jobs st"
    and "ps_links st1 = ps_links (ack_now (dl_tag (jb_delivery (ps_jobs st ! j))) st)"
  shows "jobs_ok (leave j st1)"
proof -
  let ?b = "ps_jobs st ! j" and ?js = "(ps_jobs st)[j := (ps_jobs st ! j)\<lparr>jb_awaited := False\<rparr>]"
  let ?tag = "dl_tag (jb_delivery ?b)" and ?c = "dl_channel (jb_delivery ?b)"
  have ok: "jobs_ok st" "links_ok st" using assms(1) by (simp_all add: steady_def)
  then have b: "job_ok (ps_channel st) (ps_links st) ?b" using assms(2) by (simp add: jobs_ok_def)
  then have channel: "ps_channel st = Some ?c" using assms(3) by (simp add: job_ok_def)
  then have c: "?c < length (ps_links st)" using ok(2) by (simp add: links_ok_def)
  have ls: "ps_links st1 = (ps_links st)[?c := (ps_links st ! ?c)\<lparr>lk_unacked := filter (\<lambda>(t, m). t \<noteq> ?tag) (lk_unacked (ps_links st ! ?c))\<rparr>]"
    using assms(6) channel by (simp add: ack_now_def)
  note tags = awaited_tags_off[OF assms(2,3)]
  have "distinct (?tag # awaited_tags ?js)"
  proof -
    have "mset (?tag # awaited_tags ?js) = mset (awaited_tags (ps_jobs st))" using tags by simp
    from mset_eq_imp_distinct_iff[OF this] show ?thesis using ok(1) by (simp only: jobs_ok_def)
  qed
  then have rest: "distinct (awaited_tags ?js)" "?tag \<notin> set (awaited_tags ?js)" by simp_all
  have "job_ok (ps_channel st) (ps_links st1) b" if in_js: "b \<in> set ?js" for b
  proof (cases "jb_awaited b")
    case True
    then have "dl_tag (jb_delivery b) \<in> set (awaited_tags ?js)" using in_js by (simp add: awaited_tags_def image_iff) blast
    then have "dl_tag (jb_delivery b) \<noteq> ?tag" using rest(2) by metis
    moreover have "b \<in> set (ps_jobs st)" using set_update_cases[OF in_js] True by auto
    then have "job_ok (ps_channel st) (ps_links st) b" using ok(1) by (simp add: jobs_ok_def)
    ultimately show ?thesis using True channel c by (simp add: job_ok_def ls)
  next
    case False
    have "parseEvent (dl_message (jb_delivery b)) = Inr (jb_event b)"
      using set_update_cases[OF in_js] b ok(1) by (auto simp: jobs_ok_def job_ok_def)
    with False show ?thesis by (simp add: job_ok_def)
  qed
  with rest(1) show ?thesis using assms(4,5) by (simp add: jobs_ok_def)
qed

lemma leave_claims:
  assumes "claims_ok st" and "j < length (ps_jobs st)" and "ps_jobs st1 = ps_jobs st" and "ps_notified st1 = ps_notified st"
    and "ps_db st1 = ps_db st"
  shows "claims_ok (leave j st1) \<and> claimed_ids (leave j st1) = claimed_ids st"
proof -
  let ?b = "ps_jobs st ! j"
  have same: "claimed_ids (leave j st1) = claimed_ids st"
    using working_ids_keep[OF assms(2), of "?b\<lparr>jb_awaited := False\<rparr>"] assms(3,4)
    by (simp add: claimed_ids_def told_ids_def)
  have "job_id b \<in># claimed_ids st" if "b \<in> set ((ps_jobs st)[j := ?b\<lparr>jb_awaited := False\<rparr>])" "past_claim (jb_work b)" for b
  proof -
    from set_update_cases[OF that(1)] show ?thesis using that(2) assms(1,2) by (auto simp: claims_ok_def)
  qed
  with same assms show ?thesis by (simp add: claims_ok_def row_ids_def)
qed

lemma handler_message:
  assumes "steady st" and "j < length (ps_jobs st)" and "jb_awaited (ps_jobs st ! j)"
  shows "held_messages st \<subseteq> insert (dl_message (jb_delivery (ps_jobs st ! j)))
      (held_messages (ack_now (dl_tag (jb_delivery (ps_jobs st ! j))) st))"
    and "message_event (dl_message (jb_delivery (ps_jobs st ! j))) = Some (job_id (ps_jobs st ! j))"
    and "ps_channel st \<noteq> None"
proof -
  let ?b = "ps_jobs st ! j"
  have ok: "jobs_ok st" "links_ok st" using assms(1) by (simp_all add: steady_def)
  then have b: "job_ok (ps_channel st) (ps_links st) ?b" using assms(2) by (simp add: jobs_ok_def)
  then have channel: "ps_channel st = Some (dl_channel (jb_delivery ?b))"
    and held: "(dl_tag (jb_delivery ?b), dl_message (jb_delivery ?b)) \<in> set (lk_unacked (ps_links st ! dl_channel (jb_delivery ?b)))"
    using assms(3) by (simp_all add: job_ok_def)
  have c: "dl_channel (jb_delivery ?b) < length (ps_links st)" using ok(2) channel by (simp add: links_ok_def)
  then have "distinct (map fst (lk_unacked (ps_links st ! dl_channel (jb_delivery ?b))))" using ok(2) by (simp add: links_ok_def)
  then show "held_messages st \<subseteq> insert (dl_message (jb_delivery ?b)) (held_messages (ack_now (dl_tag (jb_delivery ?b)) st))"
    by (rule ack_now_holds[OF channel c held])
  show "message_event (dl_message (jb_delivery ?b)) = Some (job_id ?b)"
    using b by (simp add: job_ok_def message_event_def job_id_def)
  show "ps_channel st \<noteq> None" using channel by simp
qed

lemma held_leave [simp]: "held_messages (leave j st) = held_messages st"
  by (simp add: held_messages_def)

lemma leave_keeps:
  assumes "steady st" and "j < length (ps_jobs st)" and "jb_awaited (ps_jobs st ! j)"
    and "ps_channel st1 = ps_channel st" and "ps_jobs st1 = ps_jobs st" and "ps_loops st1 = ps_loops st"
    and "ps_notified st1 = ps_notified st" and "ps_db st1 = ps_db st"
    and "ps_links st1 = ps_links (ack_now (dl_tag (jb_delivery (ps_jobs st ! j))) st)"
    and "held_messages (ack_now (dl_tag (jb_delivery (ps_jobs st ! j))) st) \<subseteq> held_messages st1"
    and "accounted (job_id (ps_jobs st ! j)) (leave j st1)"
  shows "keeps_events st (leave j st1)"
proof (rule keeps_eventsI)
  have claims: "claims_ok st" using assms(1) by (simp add: steady_def)
  note left = leave_claims[OF claims assms(2,5,7,8)]
  show "claims_ok (leave j st1)" "set_mset (claimed_ids st) \<subseteq> set_mset (claimed_ids (leave j st1))" using left by simp_all
  have "links_ok st" using assms(1) by (simp add: steady_def)
  then show "links_ok (leave j st1)" by (simp add: acked_links[OF _ assms(4,9)])
  show "jobs_ok (leave j st1)" by (rule leave_jobs[OF assms(1-5,9)])
  show "loops_ok (leave j st1)" using assms(1,4,6) by (simp add: steady_def loops_ok_def)
  fix m u assume m: "m \<in> held_messages st" and u: "message_event m = Some u"
  then have "m = dl_message (jb_delivery (ps_jobs st ! j)) \<or> m \<in> held_messages (leave j st1)"
    using handler_message(1)[OF assms(1-3)] assms(10) by auto
  then show "accounted u (leave j st1)"
    using assms(11) handler_message(2)[OF assms(1-3)] u held_accounted[of m] by auto
qed

lemma ack_now_cong: "ps_channel st1 = ps_channel st \<Longrightarrow> ps_links st1 = ps_links st \<Longrightarrow> ps_links (ack_now t st1) = ps_links (ack_now t st)"
  by (simp add: ack_now_def split: option.split)

lemma requeue_keeps:
  assumes "steady st" and "j < length (ps_jobs st)" and "jb_awaited (ps_jobs st ! j)"
  shows "keeps_events st (leave j (requeue_now cfg (jb_delivery (ps_jobs st ! j)) e st))"
proof -
  let ?dl = "jb_delivery (ps_jobs st ! j)" and ?copied = "send_copy cfg (dl_message (jb_delivery (ps_jobs st ! j))) e st"
  have requeue: "requeue_now cfg ?dl e st = ack_now (dl_tag ?dl) ?copied"
    using handler_message(3)[OF assms] unfolding requeue_now_def by (rule if_not_P)
  have links: "ps_links (ack_now (dl_tag ?dl) ?copied) = ps_links (ack_now (dl_tag ?dl) st)" by (rule ack_now_cong) simp_all
  have held: "held_messages (ack_now (dl_tag ?dl) ?copied) = insert (retry_copy (dl_message ?dl) e) (held_messages (ack_now (dl_tag ?dl) st))"
    unfolding held_messages_def links by (simp add: send_copy_def)
  have "accounted (job_id (ps_jobs st ! j)) (leave j (ack_now (dl_tag ?dl) ?copied))"
    using handler_message(2)[OF assms] held_accounted[of "retry_copy (dl_message ?dl) e" "leave j (ack_now (dl_tag ?dl) ?copied)"]
    by (simp add: held)
  then show ?thesis
    unfolding requeue by (intro leave_keeps[OF assms]) (simp_all add: links held subset_insertI)
qed

lemma handler_keeps:
  assumes "steady st" and "handler_goes_on cfg j st = Some st'"
  shows "keeps_events st st'"
  using assms(2)
proof (cases rule: handler_goes_onE)
  case (fulfilled res)
  have "job_id (ps_jobs st ! j) \<in># claimed_ids st"
    using fulfilled(1,3) assms(1) by (auto simp: steady_def claims_ok_def)
  moreover have "claims_ok st" using assms(1) by (simp add: steady_def)
  ultimately have "accounted (job_id (ps_jobs st ! j)) (leave j (ack_now (dl_tag (jb_delivery (ps_jobs st ! j))) st))"
    using leave_claims[of st j "ack_now (dl_tag (jb_delivery (ps_jobs st ! j))) st"] fulfilled(1) by (simp add: accounted_def)
  then show ?thesis unfolding fulfilled(4) by (intro leave_keeps[OF assms(1) fulfilled(1,2)]) simp_all
next
  case (rejected e)
  then show ?thesis using requeue_keeps[OF assms(1) rejected(1,2)] by simp
qed

lemma timer_keeps:
  assumes "steady st" and "timer_first cfg j st = Some st'"
  shows "keeps_events st st'"
  using assms(2) by (rule timer_firstE) (use requeue_keeps[OF assms(1)] in simp)

text \<open>A delivery.\<close>

lemma deliver_links:
  assumes "links_ok st" and "c < length (ps_links st)" and "lk_consuming (ps_links st ! c)"
    and "st1 = at_link c (\<lambda>l. l\<lparr>lk_tags := lk_tags l + 1, lk_unacked := lk_unacked l @ [(lk_tags l + 1, m)]\<rparr>) (st\<lparr>ps_main := rest\<rparr>)"
  shows "links_ok st1 \<and> ps_channel st = Some c \<and> lk_tags (ps_links st ! c) + 1 \<notin> fst ` set (lk_unacked (ps_links st ! c))"
proof -
  let ?l = "ps_links st ! c"
  have channel: "ps_channel st = Some c" using assms(1-3) by (auto simp: links_ok_def)
  have fresh: "lk_tags ?l + 1 \<notin> fst ` set (lk_unacked ?l)" using assms(1,2) by (force simp: links_ok_def)
  have "distinct (map fst (lk_unacked (ps_links st1 ! k))) \<and>
      (\<forall>(t, m)\<in>set (lk_unacked (ps_links st1 ! k)). t \<le> lk_tags (ps_links st1 ! k)) \<and>
      (ps_channel st \<noteq> Some k \<longrightarrow> \<not> lk_consuming (ps_links st1 ! k) \<and> lk_unacked (ps_links st1 ! k) = [])" if "k < length (ps_links st)" for k
  proof (cases "k = c")
    case True
    have "distinct (map fst (lk_unacked ?l))" "t \<le> lk_tags ?l" if "(t, x) \<in> set (lk_unacked ?l)" for t x
      using assms(1,2) that by (auto simp: links_ok_def)
    moreover have "distinct (map fst (lk_unacked ?l))" using assms(1,2) by (simp add: links_ok_def)
    ultimately show ?thesis using True assms(2,4) fresh channel by (auto simp: le_SucI)
  next
    case False
    with assms(1,4) that channel show ?thesis by (simp add: links_ok_def)
  qed
  then show ?thesis using assms(1,4) channel fresh by (simp add: links_ok_def)
qed

lemma deliver_held:
  assumes "ps_main st = m # rest" and "c < length (ps_links st)"
    and "st1 = at_link c (\<lambda>l. l\<lparr>lk_tags := lk_tags l + 1, lk_unacked := lk_unacked l @ [(lk_tags l + 1, m)]\<rparr>) (st\<lparr>ps_main := rest\<rparr>)"
  shows "held_messages st \<subseteq> held_messages st1"
proof -
  have "x \<in> set (link_messages (ps_links st1))" if "x = m \<or> x \<in> set (link_messages (ps_links st))" for x
  proof (cases "x = m")
    case True
    then have "(lk_tags (ps_links st ! c) + 1, x) \<in> set (lk_unacked (ps_links st1 ! c))" using assms(2,3) by simp
    moreover have "c < length (ps_links st1)" using assms(2,3) by simp
    ultimately show ?thesis unfolding link_messages_iff by blast
  next
    case False
    with that obtain k t where "k < length (ps_links st)" "(t, x) \<in> set (lk_unacked (ps_links st ! k))"
      by (auto simp: link_messages_iff)
    then have "k < length (ps_links st1)" "(t, x) \<in> set (lk_unacked (ps_links st1 ! k))"
      using assms(2,3) by (simp, cases "k = c") auto
    then show ?thesis unfolding link_messages_iff by blast
  qed
  then show ?thesis using assms(1,3) by (auto simp: held_messages_def)
qed

lemma unreadable_keeps:
  assumes "steady st" and "ps_channel st = Some c" and "c < length (ps_links st)"
    and "(dl_tag dl, dl_message dl) \<in> set (lk_unacked (ps_links st ! c))" and "parseEvent (dl_message dl) = Inl e"
    and "\<And>b. b \<in> set (ps_jobs st) \<Longrightarrow> jb_awaited b \<Longrightarrow> dl_tag (jb_delivery b) \<noteq> dl_tag dl"
  shows "keeps_events st (requeue_now cfg dl e st)"
proof (rule keeps_eventsI)
  let ?copied = "send_copy cfg (dl_message dl) e st" and ?t = "requeue_now cfg dl e st"
  have ok: "loops_ok st" "links_ok st" "jobs_ok st" "claims_ok st" using assms(1) by (simp_all add: steady_def)
  have t: "?t = ack_now (dl_tag dl) ?copied" using assms(2) by (simp add: requeue_now_def)
  have links: "ps_links ?t = ps_links (ack_now (dl_tag dl) st)" unfolding t by (rule ack_now_cong) simp_all
  show "loops_ok ?t" using ok(1) by (simp add: loops_ok_def)
  show "links_ok ?t" by (rule acked_links[OF ok(2) _ links]) simp
  have ls: "ps_links ?t = (ps_links st)[c := (ps_links st ! c)\<lparr>lk_unacked := filter (\<lambda>(t, m). t \<noteq> dl_tag dl) (lk_unacked (ps_links st ! c))\<rparr>]"
    using assms(2) by (simp add: links ack_now_def)
  have "job_ok (ps_channel st) (ps_links ?t) b" if "b \<in> set (ps_jobs st)" for b
  proof -
    have "job_ok (ps_channel st) (ps_links st) b" using ok(3) that by (simp add: jobs_ok_def)
    then show ?thesis using assms(2,3) assms(6)[OF that] by (auto simp: job_ok_def ls)
  qed
  then show "jobs_ok ?t" using ok(3) by (simp add: jobs_ok_def)
  show "claims_ok ?t" "set_mset (claimed_ids st) \<subseteq> set_mset (claimed_ids ?t)"
    using ok(4) by (simp_all add: claims_ok_def claimed_ids_def told_ids_def row_ids_def)
  fix m u assume m: "m \<in> held_messages st" and u: "message_event m = Some u"
  have "distinct (map fst (lk_unacked (ps_links st ! c)))" using ok(2) assms(3) by (simp add: links_ok_def)
  then have "m = dl_message dl \<or> m \<in> held_messages (ack_now (dl_tag dl) st)"
    using ack_now_holds[OF assms(2,3,4)] m by auto
  moreover have "m \<noteq> dl_message dl" using u assms(5) by (auto simp: message_event_def)
  ultimately have "m \<in> held_messages ?t"
    unfolding held_messages_def links by (auto simp: t send_copy_def)
  then show "accounted u ?t" using u by (rule held_accounted)
qed

lemma delivers_keeps:
  assumes "steady st" and "delivers cfg c st = Some st'"
  shows "keeps_events st st'"
  using assms(2)
proof (rule deliversE)
  fix m rest st1
  let ?tag = "lk_tags (ps_links st ! c) + 1"
  let ?dl = "\<lparr>dl_channel = c, dl_tag = ?tag, dl_message = m\<rparr>"
  assume main: "ps_main st = m # rest" and c: "c < length (ps_links st)" and consuming: "lk_consuming (ps_links st ! c)"
    and st1: "st1 = at_link c (\<lambda>l. l\<lparr>lk_tags := lk_tags l + 1, lk_unacked := lk_unacked l @ [(lk_tags l + 1, m)]\<rparr>) (st\<lparr>ps_main := rest\<rparr>)"
    and st': "st' = receive cfg ?dl st1"
  have ok: "loops_ok st" "links_ok st" "jobs_ok st" "claims_ok st" using assms(1) by (simp_all add: steady_def)
  have links1: "links_ok st1" and channel: "ps_channel st = Some c" and fresh: "?tag \<notin> fst ` set (lk_unacked (ps_links st ! c))"
    using deliver_links[OF ok(2) c consuming st1] by simp_all
  have grown: "set (lk_unacked (ps_links st ! k)) \<subseteq> set (lk_unacked (ps_links st1 ! k))" for k
    using c by (cases "k = c") (auto simp: st1)
  have here: "(?tag, m) \<in> set (lk_unacked (ps_links st1 ! c))" using c by (simp add: st1)
  have old: "job_ok (ps_channel st1) (ps_links st1) b" if "b \<in> set (ps_jobs st)" for b
  proof -
    have "job_ok (ps_channel st) (ps_links st) b" using ok(3) that by (simp add: jobs_ok_def)
    moreover have "ps_channel st1 = ps_channel st" by (simp add: st1)
    ultimately show ?thesis using grown[of "dl_channel (jb_delivery b)"] by (auto simp: job_ok_def)
  qed
  have jobs1: "ps_jobs st1 = ps_jobs st" and claimed1: "claimed_ids st1 = claimed_ids st" and rows1: "row_ids st1 = row_ids st"
    by (simp_all add: st1 claimed_ids_def told_ids_def row_ids_def)
  have steady1: "steady st1"
    using ok links1 old by (simp add: steady_def jobs_ok_def claims_ok_def jobs1 claimed1 rows1) (simp add: loops_ok_def st1)
  have held1: "held_messages st \<subseteq> held_messages st1" by (rule deliver_held[OF main c st1])
  have old_tags: "dl_tag (jb_delivery b) \<noteq> ?tag" if "b \<in> set (ps_jobs st)" "jb_awaited b" for b
  proof -
    have "job_ok (Some c) (ps_links st) b" using ok(3) that(1) channel by (simp add: jobs_ok_def)
    then have "(dl_tag (jb_delivery b), dl_message (jb_delivery b)) \<in> set (lk_unacked (ps_links st ! c))"
      using that(2) by (simp add: job_ok_def)
    then have "dl_tag (jb_delivery b) \<in> fst ` set (lk_unacked (ps_links st ! c))" by (rule image_eqI[rotated]) simp
    with fresh show ?thesis by metis
  qed
  have accounted1: "accounted u st1" if "accounted u st" for u
    using that held1 by (auto simp: accounted_def claimed1)
  show ?thesis
  proof (cases rule: receiveE[of st1 cfg ?dl])
    case ignored
    then show ?thesis using steady1 accounted1 by (simp add: keeps_events_def st')
  next
    case (unreadable e)
    have channel1: "ps_channel st1 = Some c" using channel by (simp add: st1)
    have c1: "c < length (ps_links st1)" using c by (simp add: st1)
    have "keeps_events st1 (requeue_now cfg ?dl e st1)"
      by (rule unreadable_keeps[OF steady1 channel1 c1]) (use here unreadable(2) old_tags jobs1 in simp_all)
    then show ?thesis using accounted1 unreadable(3) by (simp add: keeps_events_def st')
  next
    case (begins event)
    let ?job = "\<lparr>jb_delivery = ?dl, jb_event = event, jb_work = Claiming, jb_awaited = True\<rparr>"
    have st'_eq: "st' = st1\<lparr>ps_inFlight := ps_inFlight st1 + 1, ps_jobs := ps_jobs st1 @ [?job]\<rparr>" using begins(3) by (simp add: st')
    have "?tag \<notin> set (awaited_tags (ps_jobs st))"
    proof
      assume "?tag \<in> set (awaited_tags (ps_jobs st))"
      then obtain b where "b \<in> set (ps_jobs st)" "jb_awaited b" "dl_tag (jb_delivery b) = ?tag" by (auto simp: awaited_tags_def)
      with old_tags show False by metis
    qed
    moreover have "job_ok (ps_channel st1) (ps_links st1) ?job" using begins(2) here channel by (simp add: job_ok_def st1)
    ultimately have "jobs_ok st'"
      using steady1 by (simp add: steady_def jobs_ok_def st'_eq awaited_tags_def) (simp add: jobs1)
    moreover have "claims_ok st'" "claimed_ids st' = claimed_ids st1"
      using steady1 by (auto simp: steady_def claims_ok_def claimed_ids_def told_ids_def row_ids_def st'_eq)
    moreover have "loops_ok st'" "links_ok st'" using steady1 by (simp_all add: steady_def loops_ok_def links_ok_def st'_eq)
    moreover have "held_messages st' = held_messages st1" by (simp add: held_messages_def st'_eq)
    ultimately show ?thesis using accounted1 by (simp add: keeps_events_def steady_def accounted_def)
  qed
qed

text \<open>The reconnect loops.\<close>

lemma running_update:
  "i < length ls \<Longrightarrow> running (ls[i := l]) + (if ls ! i \<noteq> LoopEnded then 1 else 0) = running ls + (if l \<noteq> LoopEnded then 1 else 0)"
proof (induction ls arbitrary: i)
  case (Cons x xs)
  show ?case
  proof (cases i)
    case (Suc k)
    with Cons.prems have "k < length xs" by simp
    from Cons.IH[OF this] show ?thesis by (simp add: Suc running_def split: if_splits)
  qed (simp add: running_def)
qed simp

lemma running_alone:
  assumes "running ls \<le> 1" and "i < length ls" and "ls ! i \<noteq> LoopEnded" and "l \<in> set (ls[i := l'])" and "l \<noteq> LoopEnded"
  shows "l = l'"
proof (rule ccontr)
  assume "l \<noteq> l'"
  have "running (ls[i := LoopEnded]) = 0" using running_update[OF assms(2), of LoopEnded] assms(1,3) by simp
  then have none: "\<forall>x\<in>set (ls[i := LoopEnded]). x = LoopEnded" by (simp add: running_def filter_empty_conv)
  obtain k where k: "k < length ls" "ls[i := l'] ! k = l" using assms(4) by (auto simp: in_set_conv_nth)
  with \<open>l \<noteq> l'\<close> assms(2) have "k \<noteq> i" by auto
  with k have "l \<in> set (ls[i := LoopEnded])" by (auto simp: in_set_conv_nth intro!: exI[of _ k])
  with none assms(5) show False by blast
qed

text \<open>A step of the only loop that runs: it is the only one that has to fit the channel.\<close>

lemma loops_ok_step:
  assumes "loops_ok st" and "i < length (ps_loops st)" and "ps_loops st ! i \<noteq> LoopEnded"
    and "ps_loops st' = (ps_loops st)[i := l]" and "loop_ok (ps_channel st') l"
  shows "loops_ok st'"
proof -
  have few: "running (ps_loops st) \<le> 1" using assms(1) by (simp add: loops_ok_def)
  have "loop_ok (ps_channel st') x" if "x \<in> set (ps_loops st')" for x
  proof (cases "x = LoopEnded")
    case False
    then have "x = l" using running_alone[OF few assms(2,3), of x l] that assms(4) by simp
    with assms(5) show ?thesis by simp
  qed simp
  moreover have "running (ps_loops st') \<le> 1"
    using running_update[OF assms(2), of l] few assms(3,4) by (simp split: if_splits)
  ultimately show ?thesis by (simp add: loops_ok_def)
qed

lemma quiet_keeps:
  assumes "steady st" and "loops_ok st'" and "links_ok st'"
    and "ps_jobs st' = ps_jobs st" and "ps_notified st' = ps_notified st" and "ps_db st' = ps_db st"
    and "\<And>b. b \<in> set (ps_jobs st) \<Longrightarrow> job_ok (ps_channel st) (ps_links st) b \<Longrightarrow> job_ok (ps_channel st') (ps_links st') b"
    and "held_messages st \<subseteq> held_messages st'"
  shows "keeps_events st st'"
proof (rule keeps_eventsI[OF assms(2,3)])
  show "jobs_ok st'" using assms(1,4,7) by (simp add: steady_def jobs_ok_def)
  show "claims_ok st'" "set_mset (claimed_ids st) \<subseteq> set_mset (claimed_ids st')"
    using assms(1,4-6) by (simp_all add: steady_def claims_ok_def claimed_ids_def told_ids_def row_ids_def)
  show "accounted u st'" if "m \<in> held_messages st" "message_event m = Some u" for m u
    using that assms(8) held_accounted by blast
qed

lemma link_messages_append [simp]: "link_messages (ls @ ls') = link_messages ls @ link_messages ls'"
  by (simp add: link_messages_def)

lemma job_ok_no_channel: "job_ok None ls b \<Longrightarrow> job_ok channel ls' b"
  by (simp add: job_ok_def)

lemma loop_keeps:
  assumes "steady st" and "loop_goes_on i ok st = Some st'"
  shows "keeps_events st st'"
proof -
  have ok': "loops_ok st" "links_ok st" using assms(1) by (simp_all add: steady_def)
  have i: "i < length (ps_loops st)" using assms(2) by (simp add: loop_goes_on_def split: if_splits)
  then have fits: "loop_ok (ps_channel st) (ps_loops st ! i)" using ok'(1) by (simp add: loops_ok_def)
  have sleeps: "keeps_events st (at_loop i l st)" if "ps_loops st ! i \<noteq> LoopEnded" "loop_ok (ps_channel st) l" for l
    by (rule quiet_keeps[OF assms(1) loops_ok_step[OF ok'(1) i that(1)]])
      (use ok'(2) that(2) in \<open>simp_all add: links_ok_def held_messages_def\<close>)
  show ?thesis
  proof (cases "ps_loops st ! i")
    case (Connecting d again)
    show ?thesis
    proof (cases ok)
      case True
      let ?new = "\<lparr>lk_open = True, lk_consuming = False, lk_tags = 0, lk_unacked = []\<rparr>"
      have st': "st' = at_loop i (Opening d again (length (ps_links st))) (st\<lparr>ps_links := ps_links st @ [?new]\<rparr>)"
        using assms(2) i Connecting True by (simp add: loop_goes_on_def)
      have channel: "ps_channel st = None" using fits Connecting by simp
      have "links_ok st'"
        using ok'(2) channel by (auto simp: links_ok_def st' nth_append less_Suc_eq)
      moreover have "loops_ok st'"
        using channel by (intro loops_ok_step[OF ok'(1) i, where l = "Opening d again (length (ps_links st))"])
          (simp_all add: st' Connecting)
      ultimately show ?thesis
        by (intro quiet_keeps[OF assms(1)]) (use channel in \<open>auto simp: st' held_messages_def link_messages_def intro: job_ok_no_channel\<close>)
    next
      case False
      with assms(2) i Connecting sleeps[of "Sleeping d"] show ?thesis by (simp add: loop_goes_on_def)
    qed
  next
    case (Opening d again c)
    show ?thesis
    proof (cases ok)
      case True
      then have c: "c < length (ps_links st)" and st': "st' = at_loop i (Declaring d again c 6) (st\<lparr>ps_channel := Some c\<rparr>)"
        using assms(2) i Opening by (auto simp: loop_goes_on_def split: if_splits)
      have channel: "ps_channel st = None" using fits Opening by simp
      have "links_ok st'" using ok'(2) channel c by (simp add: links_ok_def st')
      moreover have "loops_ok st'"
        by (rule loops_ok_step[OF ok'(1) i, where l = "Declaring d again c 6"]) (use Opening in \<open>simp_all add: st'\<close>)
      ultimately show ?thesis
        by (intro quiet_keeps[OF assms(1)]) (use channel in \<open>auto simp: st' held_messages_def intro: job_ok_no_channel\<close>)
    next
      case False
      with assms(2) i Opening sleeps[of "Sleeping d"] show ?thesis by (simp add: loop_goes_on_def)
    qed
  next
    case (Declaring d again c n)
    then have channel: "ps_channel st = Some c" using fits by simp
    have "st' = at_loop i (Sleeping d) st \<or> st' = at_loop i (Declaring d again c (n - 1)) st \<or> st' = at_loop i (Consuming d c) st"
      using assms(2) i Declaring channel by (auto simp: loop_goes_on_def start_consumer_def split: if_splits)
    with Declaring channel sleeps show ?thesis by auto
  next
    case (Consuming d c)
    then have channel: "ps_channel st = Some c" using fits by simp
    show ?thesis
    proof (cases ok)
      case True
      then have c: "c < length (ps_links st)"
        and st': "st' = at_loop i LoopEnded (at_link c (\<lambda>l. l\<lparr>lk_consuming := True\<rparr>) (st\<lparr>ps_tag := True\<rparr>))"
        using assms(2) i Consuming by (auto simp: loop_goes_on_def split: if_splits)
      have same: "lk_unacked (ps_links st' ! k) = lk_unacked (ps_links st ! k)" "lk_tags (ps_links st' ! k) = lk_tags (ps_links st ! k)" for k
        using c by (cases "k = c"; simp add: st')+
      have "lk_consuming (ps_links st' ! k) = lk_consuming (ps_links st ! k)" if "k \<noteq> c" for k using that by (simp add: st')
      then have "links_ok st'" using ok'(2) channel by (simp add: links_ok_def same) (simp add: st')
      moreover have "loops_ok st'"
        by (rule loops_ok_step[OF ok'(1) i, where l = LoopEnded]) (use Consuming in \<open>simp_all add: st'\<close>)
      moreover have "set (link_messages (ps_links st')) = set (link_messages (ps_links st))"
        by (rule set_eqI) (simp add: link_messages_iff same, simp add: st')
      then have "held_messages st' = held_messages st" by (simp add: held_messages_def st')
      ultimately show ?thesis
        by (intro quiet_keeps[OF assms(1)]) (simp_all add: job_ok_def same, simp_all add: st')
    next
      case False
      with assms(2) i Consuming sleeps[of "Sleeping d"] show ?thesis by (simp add: loop_goes_on_def)
    qed
  next
    case (Sleeping d)
    with assms(2) i sleeps[of "loop_head (min (d * 2) 30000) st"] show ?thesis by (simp add: loop_goes_on_def loop_head_def)
  next
    case LoopEnded
    with assms(2) i show ?thesis by (simp add: loop_goes_on_def)
  qed
qed

text \<open>A connection that closes while nobody works on it.\<close>

lemma link_closes_keeps:
  assumes "steady st" and "link_closes c st = Some st'" and "careful (LinkCloses c) st"
  shows "keeps_events st st'"
  using assms(2)
proof (rule link_closesE)
  assume c: "c < length (ps_links st)" and db: "ps_db st' = ps_db st"
    and main: "ps_main st' = map snd (lk_unacked (ps_links st ! c)) @ ps_main st"
    and queues: "ps_retry st' = ps_retry st" "ps_dead st' = ps_dead st" and jobs: "ps_jobs st' = ps_jobs st"
    and told: "ps_notified st' = ps_notified st" and channel': "ps_channel st' = None"
    and links: "ps_links st' = (ps_links st)[c := (ps_links st ! c)\<lparr>lk_open := False, lk_consuming := False, lk_unacked := []\<rparr>]"
    and loops: "ps_loops st' = ps_loops st \<or> ps_loops st' = ps_loops st @ [Connecting 1000 False]"
  have ok: "links_ok st" using assms(1) by (simp add: steady_def)
  have channel: "ps_channel st = Some c" and idle: "\<forall>b\<in>set (ps_jobs st). \<not> jb_awaited b"
    and ended: "\<forall>l\<in>set (ps_loops st). l = LoopEnded"
    using assms(3) by (auto simp: list_ex_iff list_all_iff)
  then have fits: "loop_ok None l" if "l \<in> set (ps_loops st)" for l using that by fastforce
  have "running (ps_loops st) = 0" using ended by (simp add: running_def filter_empty_conv)
  then have "running (ps_loops st') \<le> 1" using loops by (auto simp: running_def)
  moreover have "\<forall>l\<in>set (ps_loops st'). loop_ok (ps_channel st') l" using loops fits channel' by auto
  ultimately have "loops_ok st'" by (simp add: loops_ok_def)
  moreover have "distinct (map fst (lk_unacked (ps_links st' ! k))) \<and>
      (\<forall>(t, m)\<in>set (lk_unacked (ps_links st' ! k)). t \<le> lk_tags (ps_links st' ! k)) \<and>
      \<not> lk_consuming (ps_links st' ! k) \<and> lk_unacked (ps_links st' ! k) = []" if "k < length (ps_links st')" for k
    using ok channel c that by (cases "k = c") (auto simp: links_ok_def links)
  then have "links_ok st'" using channel' by (simp add: links_ok_def)
  moreover have "held_messages st \<subseteq> held_messages st'"
  proof
    fix x assume x: "x \<in> held_messages st"
    show "x \<in> held_messages st'"
    proof (cases "x \<in> set (link_messages (ps_links st))")
      case False
      with x show ?thesis by (auto simp: held_messages_def main queues)
    next
      case True
      then obtain k t where k: "k < length (ps_links st)" "(t, x) \<in> set (lk_unacked (ps_links st ! k))" by (auto simp: link_messages_iff)
      then have "k = c" using ok channel by (auto simp: links_ok_def)
      with k have "x \<in> snd ` set (lk_unacked (ps_links st ! c))" by (metis image_eqI snd_conv)
      then show ?thesis by (simp add: held_messages_def main)
    qed
  qed
  ultimately show ?thesis
    using idle by (intro quiet_keeps[OF assms(1)]) (simp_all add: jobs told db job_ok_def)
qed

text \<open>The end of the process between messages, and its restart.\<close>

lemma worker_ends_keeps:
  assumes "steady st" and "list_all (\<lambda>b. settled (jb_work b)) (ps_jobs st)"
  shows "keeps_events st (worker_ends st)"
proof (rule keeps_eventsI)
  have "\<not> holds_claim (jb_work b)" if "b \<in> set (ps_jobs st)" for b
    using assms(2) that by (cases "jb_work b") (auto simp: list_all_iff)
  then have "working_ids (ps_jobs st) = []" by (simp add: working_ids_def filter_empty_conv)
  then have same: "claimed_ids (worker_ends st) = claimed_ids st" by (simp add: claimed_ids_def told_ids_def)
  then show "set_mset (claimed_ids st) \<subseteq> set_mset (claimed_ids (worker_ends st))" by simp
  show "claims_ok (worker_ends st)" using assms(1) same by (simp add: steady_def claims_ok_def row_ids_def)
  show "loops_ok (worker_ends st)" "links_ok (worker_ends st)" "jobs_ok (worker_ends st)"
    by (simp_all add: loops_ok_def links_ok_def jobs_ok_def running_def awaited_tags_def)
  have "held_messages st \<subseteq> held_messages (worker_ends st)" by (auto simp: held_messages_def link_messages_def)
  then show "accounted u (worker_ends st)" if "m \<in> held_messages st" "message_event m = Some u" for m u
    using that held_accounted by blast
qed

lemma cancelled_keeps:
  assumes "steady st" and "cancelled ok st = Some st'"
  shows "keeps_events st st'"
proof -
  obtain c where stage: "ps_stage st = Cancelling c" using assms(2) by (auto simp: cancelled_def split: shutdown_stage.splits)
  have fields: "ps_jobs st' = ps_jobs st" "ps_notified st' = ps_notified st" "ps_db st' = ps_db st" "ps_channel st' = ps_channel st"
    "ps_loops st' = ps_loops st" "ps_main st' = ps_main st" "ps_retry st' = ps_retry st" "ps_dead st' = ps_dead st"
    "length (ps_links st') = length (ps_links st)"
    using assms(2) stage by (auto simp: cancelled_def)
  have links: "ps_links st' = (if ok \<and> c < length (ps_links st) then (ps_links st)[c := (ps_links st ! c)\<lparr>lk_consuming := False\<rparr>] else ps_links st)"
    using assms(2) stage by (auto simp: cancelled_def)
  have same: "lk_unacked (ps_links st' ! k) = lk_unacked (ps_links st ! k)" "lk_tags (ps_links st' ! k) = lk_tags (ps_links st ! k)"
    "lk_consuming (ps_links st' ! k) \<longrightarrow> lk_consuming (ps_links st ! k)" for k
    unfolding links by (cases "ok \<and> c < length (ps_links st)"; cases "k = c"; simp)+
  have "links_ok st" using assms(1) by (simp add: steady_def)
  then have "links_ok st'" using same(3) unfolding links_ok_def same(1,2) fields by blast
  moreover have "loops_ok st'" using assms(1) by (simp add: steady_def loops_ok_def fields)
  moreover have "set (link_messages (ps_links st')) = set (link_messages (ps_links st))"
    by (rule set_eqI) (simp add: link_messages_iff same fields)
  then have "held_messages st \<subseteq> held_messages st'" by (simp add: held_messages_def fields)
  ultimately show ?thesis by (intro quiet_keeps[OF assms(1)]) (simp_all add: fields job_ok_def same)
qed

section \<open>A process that has ended\<close>

definition exited_ok :: "worker_process \<Rightarrow> bool" where
  "exited_ok st \<longleftrightarrow> (ps_stage st = Exited \<longrightarrow> ps_links st = [] \<and> ps_channel st = None \<and> ps_jobs st = [] \<and> ps_loops st = [])"

lemma exited_ok_step:
  assumes "worker_step cfg a st = Some st'" and "exited_ok st"
  shows "exited_ok st'"
proof (cases "ps_stage st = Exited")
  case True
  then have empty: "ps_links st = []" "ps_channel st = None" "ps_jobs st = []" "ps_loops st = []"
    using assms(2) by (simp_all add: exited_ok_def)
  show ?thesis
    using assms(1) True empty
    by (cases a) (auto simp: exited_ok_def delivers_def database_runs_def answer_arrives_def work_done_def handler_goes_on_def
      timer_first_def retry_due_def loop_goes_on_def link_closes_def signalled_def cancelled_def drained_def stops_def restarts_def
      split: list.splits if_splits)
next
  case False
  have "ps_stage st' \<noteq> Exited \<or> st' = worker_ends st"
  proof (cases a)
    case (Delivers c)
    with assms(1) have "delivers cfg c st = Some st'" by simp
    then show ?thesis
    proof (rule deliversE)
      fix m rest st1
      let ?dl = "\<lparr>dl_channel = c, dl_tag = lk_tags (ps_links st ! c) + 1, dl_message = m\<rparr>"
      assume "st1 = at_link c (\<lambda>l. l\<lparr>lk_tags := lk_tags l + 1, lk_unacked := lk_unacked l @ [(lk_tags l + 1, m)]\<rparr>) (st\<lparr>ps_main := rest\<rparr>)"
        and st': "st' = receive cfg ?dl st1"
      then have "ps_stage st1 \<noteq> Exited" using False by simp
      then show ?thesis unfolding st' by (cases rule: receiveE[of st1 cfg ?dl]) simp_all
    qed
  next
    case (DatabaseRuns j fate now)
    with assms(1) have "database_runs j fate now st = Some st'" by simp
    then show ?thesis by (rule database_runsE) (simp add: False)
  next
    case (HandlerGoesOn j)
    with assms(1) have "handler_goes_on cfg j st = Some st'" by simp
    then show ?thesis by (rule handler_goes_onE) (simp_all add: False)
  next
    case (LoopGoesOn i ok)
    with assms(1) loop_goes_on_fields[of i ok st st'] False show ?thesis by simp
  next
    case (LinkCloses c)
    with assms(1) have "link_closes c st = Some st'" by simp
    then show ?thesis by (rule link_closesE) (simp add: False)
  qed (use assms(1) False in \<open>auto simp: answer_arrives_def work_done_def timer_first_def retry_due_def signalled_def cancelled_def
      drained_def stops_def restarts_def split: if_splits list.splits shutdown_stage.splits option.splits\<close>)
  then show ?thesis by (auto simp: exited_ok_def)
qed

section \<open>A careful step\<close>

lemma careful_step:
  assumes "worker_step cfg a st = Some st'" and "careful a st" and "steady st" and "exited_ok st"
  shows "keeps_events st st'"
proof (cases a)
  case (Arrives m)
  with assms(1) have st': "st' = st\<lparr>ps_main := ps_main st @ [m]\<rparr>" by simp
  show ?thesis
    using assms(3) by (intro quiet_keeps[OF assms(3)]) (auto simp: st' steady_def loops_ok_def links_ok_def held_messages_def)
next
  case (Delivers c)
  with assms(1,3) show ?thesis by (simp add: delivers_keeps)
next
  case (DatabaseRuns j fate now)
  with assms(1,2) have run: "database_runs j fate now st = Some st'" and kept: "\<not> lost_claim (jb_work (ps_jobs st ! j)) fate" by simp_all
  have "claims_ok st" using assms(3) by (simp add: steady_def)
  note claims = claims_ok_database[OF run this kept]
  from run show ?thesis by (rule database_works_on) (use claims assms(3) works_on_keeps in blast)
next
  case (AnswerArrives j)
  with assms(1) have run: "answer_arrives j st = Some st'" by simp
  have "claims_ok st" using assms(3) by (simp add: steady_def)
  note claims = claims_ok_answer[OF run this]
  from run show ?thesis
    by (rule answer_arrivesE) (rule works_on_keeps[OF _ assms(3)]; use claims in \<open>simp add: works_on_def\<close>)
next
  case (WorkDone j)
  with assms(1) have run: "work_done j st = Some st'" by simp
  have "claims_ok st" using assms(3) by (simp add: steady_def)
  note claims = claims_ok_work_done[OF run this]
  from run show ?thesis
    by (rule work_doneE) (rule works_on_keeps[OF _ assms(3), where w = Recording]; use claims in \<open>simp add: works_on_def\<close>)
next
  case (HandlerGoesOn j)
  with assms(1,3) show ?thesis by (simp add: handler_keeps)
next
  case (TimerFirst j)
  with assms(1,3) show ?thesis by (simp add: timer_keeps)
next
  case RetryDue
  with assms(1) obtain m rest where retry: "ps_retry st = m # rest" and st': "st' = st\<lparr>ps_retry := rest, ps_main := ps_main st @ [m]\<rparr>"
    by (auto simp: retry_due_def split: list.splits)
  show ?thesis
    using assms(3) retry by (intro quiet_keeps[OF assms(3)]) (auto simp: st' steady_def loops_ok_def links_ok_def held_messages_def)
next
  case (LoopGoesOn i ok)
  with assms(1,3) show ?thesis by (simp add: loop_keeps)
next
  case (LinkCloses c)
  with assms show ?thesis using link_closes_keeps[of st c st'] by simp
next
  case Signalled
  with assms(1) have st': "ps_jobs st' = ps_jobs st" "ps_notified st' = ps_notified st" "ps_db st' = ps_db st"
    "ps_channel st' = ps_channel st" "ps_links st' = ps_links st" "ps_loops st' = ps_loops st" "held_messages st' = held_messages st"
    by (auto simp: signalled_def held_messages_def split: if_splits)
  show ?thesis
    using assms(3) by (intro quiet_keeps[OF assms(3)]) (simp_all add: st' steady_def loops_ok_def links_ok_def)
next
  case (CancelEnds ok)
  with assms(1,3) show ?thesis by (simp add: cancelled_keeps)
next
  case (Drained deadline)
  with assms show ?thesis using worker_ends_keeps[OF assms(3)] by (auto simp: drained_def split: if_splits)
next
  case Stops
  with assms show ?thesis using worker_ends_keeps[OF assms(3)] by (auto simp: stops_def split: if_splits)
next
  case Restarts
  with assms(1) have "ps_stage st = Exited"
    and st': "st' = st\<lparr>ps_shuttingDown := False, ps_stage := NotAsked, ps_loops := [Connecting 1000 False]\<rparr>"
    by (auto simp: restarts_def split: if_splits)
  then have "ps_channel st = None" using assms(4) by (simp add: exited_ok_def)
  then show ?thesis
    using assms(3) by (intro quiet_keeps[OF assms(3)])
      (simp_all add: st' steady_def loops_ok_def links_ok_def held_messages_def running_def)
qed

end
