(* ===== verification/Worker_Process_Properties.thy ===== *)
theory Worker_Process_Properties
  imports Worker_Process_Care
begin

text \<open>
  Properties of the worker process in every interleaving of its handlers, timers, reconnect
  loops and its shutdown, and two runs in which an event is lost.
\<close>

section \<open>Runs\<close>

lemma worker_run_invariant:
  assumes "worker_run cfg allowed st st'" and "P st"
    and "\<And>a s s'. worker_step cfg a s = Some s' \<Longrightarrow> allowed a s \<Longrightarrow> P s \<Longrightarrow> P s'"
  shows "P st'"
  using assms(1,2) by (induction rule: worker_run.induct) (auto intro: assms(3))

lemma worker_acts_append:
  "worker_acts cfg (as @ bs) st = (case worker_acts cfg as st of None \<Rightarrow> None | Some st1 \<Rightarrow> worker_acts cfg bs st1)"
  by (induction as arbitrary: st) (auto split: option.split)

lemma worker_acts_run:
  assumes "worker_acts cfg as st = Some st'" and "\<And>a s. a \<in> set as \<Longrightarrow> allowed a s"
  shows "worker_run cfg allowed st st'"
  using assms
proof (induction as arbitrary: st)
  case (Cons a as)
  then obtain st1 where one: "worker_step cfg a st = Some st1" and rest: "worker_acts cfg as st1 = Some st'"
    by (auto split: option.splits)
  have "worker_run cfg allowed st st1" using Cons.prems(2)[of a] one by (auto intro: worker_run.intros)
  with Cons.IH[OF rest] Cons.prems(2) show ?case by (auto intro: worker_run_trans)
qed (simp add: worker_run.intros)

section \<open>The counter, and notifying once\<close>

text \<open>The worker's in-flight counter is exact in every run, whatever the database, the broker, the timers
  and the shutdown do and however they interleave: it is the number of handlers that have not
  ended. It does not count a processing that goes on after its timer has fired.\<close>

theorem in_flight_counts_handlers:
  assumes "worker_run cfg allowed (worker_started d) st"
  shows "ps_inFlight st = int (length (filter jb_awaited (ps_jobs st)))"
proof -
  have "counts_handlers st"
    using assms
  proof (rule worker_run_invariant)
    show "counts_handlers (worker_started d)" by (simp add: counts_handlers_def worker_started_def)
  qed (rule counts_handlers_step)
  then show ?thesis by (simp add: counts_handlers_def)
qed

text \<open>C21: No event is notified twice while the statements of the database succeed: not by deliveries that
  overlap, not after a timer has fired and the message is delivered again, not after connections
  are lost, nor after the process has ended in any moment and was restarted.\<close>

theorem notified_at_most_once:
  assumes "worker_run cfg database_answers (worker_started d) st"
  shows "distinct (map notified_id (ps_notified st))"
proof -
  have "told_once st"
    using assms
  proof (rule worker_run_invariant)
    show "told_once (worker_started d)" by (simp add: told_once_def worker_started_def claimed_ids_def told_ids_def)
  qed (rule told_once_step)
  then have once: "count (mset (told_ids st)) u \<le> 1" for u
  proof -
    have "count (claimed_ids st) u \<le> (if u \<in> row_ids st then 1 else 0)" using \<open>told_once st\<close> unfolding told_once_def by blast
    also have "\<dots> \<le> 1" by simp
    finally show ?thesis by (simp add: claimed_ids_def)
  qed
  have "count (mset (told_ids st)) u = (if u \<in> set (told_ids st) then 1 else 0)" for u
  proof (cases "u \<in> set (told_ids st)")
    case True
    then have "count (mset (told_ids st)) u \<noteq> 0" unfolding count_mset_0_iff by simp
    with once[of u] have "count (mset (told_ids st)) u = 1" by linarith
    with True show ?thesis by simp
  qed (simp add: count_mset_0_iff)
  then show ?thesis by (simp add: distinct_count_atmost_1 told_ids_def)
qed

section \<open>Losing no event\<close>

lemma careful_run_keeps:
  assumes "worker_run cfg careful st st'" and "steady st" and "exited_ok st"
  shows "keeps_events st st' \<and> exited_ok st'"
  using assms
proof (induction rule: worker_run.induct)
  case (stays st)
  then show ?case by (simp add: keeps_events_def)
next
  case (goes st st1 a st2)
  then have "keeps_events st st1" "exited_ok st1" "steady st1" by (auto simp: keeps_events_def)
  with goes(2,3) careful_step[of cfg a st1 st2] exited_ok_step[of cfg a st1 st2] show ?case
    by (auto simp: keeps_events_def)
qed

lemma started_steady:
  "processed_events d = [] \<Longrightarrow> steady (worker_started d) \<and> exited_ok (worker_started d)"
  by (simp add: steady_def loops_ok_def links_ok_def jobs_ok_def claims_ok_def exited_ok_def worker_started_def running_def
      awaited_tags_def row_ids_def)

text \<open>C20: The worker loses no event in a careful run: whatever is accounted for in one state of the run (a
  message with it is in a queue or delivered and not acknowledged, or a job has claimed it, or it
  is notified) is accounted for in every later state. So when the queues are empty, nothing is
  unacknowledged and no job is left, it has been notified or is in the dead-letter queue.\<close>

theorem careful_worker_loses_no_event:
  assumes "processed_events d = []" and "worker_run cfg careful (worker_started d) st"
    and "worker_run cfg careful st st'" and "accounted u st"
  shows "accounted u st' \<and>
    (ps_main st' = [] \<and> ps_retry st' = [] \<and> link_messages (ps_links st') = [] \<and>
       list_all (\<lambda>b. settled (jb_work b)) (ps_jobs st') \<longrightarrow>
     u \<in> set (map notified_id (ps_notified st')) \<or> Some u \<in> message_event ` set (ps_dead st'))"
proof -
  have "keeps_events (worker_started d) st \<and> exited_ok st"
    by (rule careful_run_keeps[OF assms(2)]) (simp_all add: started_steady[OF assms(1)])
  then have "keeps_events st st'" using careful_run_keeps[OF assms(3)] by (simp add: keeps_events_def)
  then have kept: "accounted u st'" using assms(4) by (simp add: keeps_events_def)
  have "working_ids (ps_jobs st') = []" if "list_all (\<lambda>b. settled (jb_work b)) (ps_jobs st')"
  proof -
    have "\<not> holds_claim (jb_work b)" if "b \<in> set (ps_jobs st')" for b
      using \<open>list_all _ _\<close> that by (cases "jb_work b") (auto simp: list_all_iff)
    then show ?thesis by (simp add: working_ids_def filter_empty_conv)
  qed
  with kept show ?thesis by (auto simp: accounted_def claimed_ids_def told_ids_def held_messages_def)
qed

section \<open>Connecting\<close>

text \<open>The nine calls of a loop that succeeds.\<close>

definition connects :: "nat \<Rightarrow> action list" where
  "connects i = replicate 9 (LoopGoesOn i True)"

lemma connects_acts:
  assumes "i < length (ps_loops st)" and "ps_loops st ! i = Connecting 1000 False" and "ps_channel st = None"
  shows "worker_acts cfg (connects i) st = Some (st\<lparr>
    ps_links := ps_links st @ [\<lparr>lk_open = True, lk_consuming = True, lk_tags = 0, lk_unacked = []\<rparr>],
    ps_channel := Some (length (ps_links st)), ps_tag := True, ps_loops := (ps_loops st)[i := LoopEnded]\<rparr>)"
  using assms
  by (simp add: connects_def eval_nat_numeral loop_goes_on_def start_consumer_def at_loop_def at_link_def nth_append Let_def)

text \<open>A waiting message: the state a run of the next sections begins in.\<close>

definition waiting_for :: "database \<Rightarrow> amqp_message list \<Rightarrow> worker_process" where
  "waiting_for d ms = (worker_started d)\<lparr>ps_main := ms\<rparr>"

text \<open>Rules that evaluate the steps of a given sequence.\<close>

lemmas run_simps = delivers_def receive_def database_runs_def answer_arrives_def work_done_def handler_goes_on_def
  timer_first_def retry_due_def link_closes_def loop_head_def signalled_def cancelled_def drained_def restarts_def
  worker_ends_def leave_def requeue_now_def ack_now_def send_copy_def at_job_def at_link_def at_loop_def run_query_def
  insert_processed_def set_processed_def Let_def

lemmas account_simps = held_messages_def link_messages_def claimed_ids_def told_ids_def

section \<open>A processing that outlives its handler\<close>

definition overtaken :: "int \<Rightarrow> action list" where
  "overtaken now = connects 0 @ [Delivers 0, DatabaseRuns 0 PgOk now, AnswerArrives 0, TimerFirst 0, Signalled, CancelEnds True]"

definition resumed :: "int \<Rightarrow> action list" where
  "resumed now = [Restarts] @ connects 0 @ [RetryDue, Delivers 0, DatabaseRuns 0 PgOk now, AnswerArrives 0, HandlerGoesOn 0]"

lemma overtaken_acts:
  assumes "parseEvent m = Inr event" and "orderIdParamsSchema (eventId event)" and "processed_events d = []"
    and "wc_prefetch cfg = 0 \<or> 1 \<le> wc_prefetch cfg" and "retry_target cfg m \<noteq> deadLetterQueue cfg"
  shows "\<exists>st1 st2 st. worker_acts cfg (overtaken now) (waiting_for d [m]) = Some st1 \<and>
    ps_inFlight st1 = 0 \<and> map (\<lambda>b. (jb_event b, jb_work b)) (ps_jobs st1) = [(event, Working)] \<and>
    worker_step cfg (Drained False) st1 = Some st2 \<and> worker_acts cfg (resumed now) st2 = Some st \<and>
    held_messages st = {} \<and> ps_notified st = [] \<and> list_all (\<lambda>b. settled (jb_work b)) (ps_jobs st) \<and> claimed_ids st = {#}"
proof -
  have copy: "parseEvent (retry_copy m e) = Inr event" for e
    using assms(1) parseEvent_content[of "retry_copy m e" m] by (simp add: retry_copy_def)
  have open_: "within_prefetch cfg \<lparr>lk_open = True, lk_consuming = True, lk_tags = 0, lk_unacked = []\<rparr>"
    using assms(4) by (auto simp: within_prefetch_def)
  show ?thesis
    unfolding overtaken_def resumed_def worker_acts_append
    by (simp add: connects_acts waiting_for_def worker_started_def run_simps assms copy open_ account_simps)
qed

text \<open>The actions of a run in which no statement fails, no connection is lost, nothing kills the process and
  no drain is given up; and those in which moreover no timer fires and no signal comes.\<close>

definition regular :: "action \<Rightarrow> worker_process \<Rightarrow> bool" where
  "regular a st \<longleftrightarrow> database_answers a st \<and> a \<noteq> Stops \<and> (\<forall>c. a \<noteq> LinkCloses c) \<and> a \<noteq> Drained True"

definition undisturbed :: "action \<Rightarrow> worker_process \<Rightarrow> bool" where
  "undisturbed a st \<longleftrightarrow> regular a st \<and> (\<forall>j. a \<noteq> TimerFirst j) \<and> a \<noteq> Signalled"

text \<open>C22: An event can be lost by a regular shutdown, because the drain loop does not see a processing whose timer
  has fired. While every statement succeeds, no connection is lost, the process is never killed and
  no drain runs into its deadline, there is a run from a worker with one readable message to a state
  in which the counter of messages in flight is zero although the notification of the event is
  still being made; there the drain loop ends and the process exits. From its exit there is a run,
  in which moreover no timer fires and no signal comes, to a state in which no processing is open
  and the event is lost: not notified, in no queue, and claimed for good.\<close>

theorem timed_out_event_lost_at_shutdown:
  assumes "parseEvent m = Inr event" and "orderIdParamsSchema (eventId event)" and "processed_events d = []"
    and "wc_prefetch cfg = 0 \<or> 1 \<le> wc_prefetch cfg" and "retry_target cfg m \<noteq> deadLetterQueue cfg"
  shows "accounted (notified_id event) (waiting_for d [m]) \<and>
    (\<exists>st1 st2 st. worker_run cfg regular (waiting_for d [m]) st1 \<and>
       ps_inFlight st1 = 0 \<and> map (\<lambda>b. (jb_event b, jb_work b)) (ps_jobs st1) = [(event, Working)] \<and>
       worker_step cfg (Drained False) st1 = Some st2 \<and> worker_run cfg undisturbed st2 st \<and>
       ps_notified st = [] \<and> list_all (\<lambda>b. settled (jb_work b)) (ps_jobs st) \<and> \<not> accounted (notified_id event) st)"
proof -
  obtain st1 st2 st where run: "worker_acts cfg (overtaken 0) (waiting_for d [m]) = Some st1" "worker_acts cfg (resumed 0) st2 = Some st"
    and empty: "held_messages st = {}" "claimed_ids st = {#}"
    and ends: "ps_inFlight st1 = 0" "map (\<lambda>b. (jb_event b, jb_work b)) (ps_jobs st1) = [(event, Working)]"
      "worker_step cfg (Drained False) st1 = Some st2" "ps_notified st = []" "list_all (\<lambda>b. settled (jb_work b)) (ps_jobs st)"
    using overtaken_acts[OF assms, of 0] by (elim exE conjE) (rule that; assumption)
  have "worker_run cfg regular (waiting_for d [m]) st1" "worker_run cfg undisturbed st2 st"
    by (rule worker_acts_run[OF run(1)] worker_acts_run[OF run(2)];
        auto simp: overtaken_def resumed_def connects_def regular_def undisturbed_def database_answers_def)+
  moreover have "\<not> accounted (notified_id event) st" by (simp add: accounted_def empty)
  moreover have "accounted (notified_id event) (waiting_for d [m])"
    using assms(1) by (simp add: accounted_def message_event_def waiting_for_def held_messages_def)
  ultimately show ?thesis using ends by (intro conjI exI)
qed

section \<open>An acknowledgement on the wrong channel\<close>

text \<open>The job \<open>j\<close> runs from its claim to its acknowledgement.\<close>

definition completes :: "nat \<Rightarrow> int \<Rightarrow> action list" where
  "completes j now = [DatabaseRuns j PgOk now, AnswerArrives j, WorkDone j, DatabaseRuns j PgOk now, AnswerArrives j, HandlerGoesOn j]"

definition mistaken :: "int \<Rightarrow> js_error \<Rightarrow> action list" where
  "mistaken now e = connects 0 @ [Delivers 0, Delivers 0] @ completes 0 now @ [LinkCloses 0] @ connects 1 @ [Delivers 1, Delivers 1] @
     completes 1 now @ [DatabaseRuns 3 (PgFail e False) now, AnswerArrives 3, LinkCloses 1, HandlerGoesOn 3]"

lemma mistaken_acts:
  assumes "parseEvent mx = Inr ex" and "parseEvent my = Inr ey" and "parseEvent mz = Inr ez"
    and "orderIdParamsSchema (eventId ex)" and "orderIdParamsSchema (eventId ey)" and "processed_events d = []"
    and "distinct [notified_id ex, notified_id ey, notified_id ez]" and "wc_prefetch cfg = 0 \<or> 2 \<le> wc_prefetch cfg"
  shows "\<exists>st. worker_acts cfg (mistaken now e) (waiting_for d [mx, my, mz]) = Some st \<and> held_messages st = {my} \<and>
    claimed_ids st = {#notified_id ex, notified_id ey#} \<and> ps_shuttingDown st = False"
proof -
  have ids: "uuid_in (eventId ex) \<noteq> uuid_in (eventId ey)" "uuid_in (eventId ex) \<noteq> uuid_in (eventId ez)"
    "uuid_in (eventId ey) \<noteq> uuid_in (eventId ez)" using assms(7) by (simp_all add: notified_id_def)
  have open_: "within_prefetch cfg \<lparr>lk_open = True, lk_consuming = True, lk_tags = n, lk_unacked = ms\<rparr>" if "length ms \<le> 1" for n ms
    using assms(8) that by (auto simp: within_prefetch_def)
  show ?thesis
    unfolding mistaken_def completes_def worker_acts_append
    by (simp add: connects_acts waiting_for_def worker_started_def run_simps assms open_ ids ids[symmetric] account_simps
      job_id_def notified_id_def eval_nat_numeral)
qed

text \<open>C23: An acknowledgement can remove a message nobody has handled, because it is sent on the channel the
  module has now and not on the one the message came from. There is a run, without timeouts and
  without an end of the process, in which connections are lost and one statement fails, that loses
  an event: a handler that began before the connection was lost acknowledges, on the next channel,
  the tag that stands for another message there; that message's own handler fails while there is no
  channel and relies on the broker to deliver it again, which it will not.\<close>

theorem stale_acknowledgement_loses_event:
  assumes "parseEvent mx = Inr ex" and "parseEvent my = Inr ey" and "parseEvent mz = Inr ez"
    and "orderIdParamsSchema (eventId ex)" and "orderIdParamsSchema (eventId ey)" and "processed_events d = []"
    and "distinct [notified_id ex, notified_id ey, notified_id ez]" and "wc_prefetch cfg = 0 \<or> 2 \<le> wc_prefetch cfg"
  shows "accounted (notified_id ez) (waiting_for d [mx, my, mz]) \<and>
    (\<exists>st. worker_run cfg (\<lambda>a s. a \<noteq> Stops \<and> (\<forall>j. a \<noteq> TimerFirst j) \<and> (\<forall>j e now. a \<noteq> DatabaseRuns j (PgFail e True) now))
        (waiting_for d [mx, my, mz]) st \<and> ps_shuttingDown st = False \<and> \<not> accounted (notified_id ez) st)"
proof -
  let ?e = "JsError ''Connection terminated'' None"
  obtain st where run: "worker_acts cfg (mistaken 0 ?e) (waiting_for d [mx, my, mz]) = Some st"
    and held: "held_messages st = {my}" and claimed: "claimed_ids st = {#notified_id ex, notified_id ey#}" and up: "ps_shuttingDown st = False"
    using mistaken_acts[OF assms, of 0 ?e] by blast
  have "worker_run cfg (\<lambda>a s. a \<noteq> Stops \<and> (\<forall>j. a \<noteq> TimerFirst j) \<and> (\<forall>j e now. a \<noteq> DatabaseRuns j (PgFail e True) now))
      (waiting_for d [mx, my, mz]) st"
    by (rule worker_acts_run[OF run]) (auto simp: mistaken_def completes_def connects_def)
  moreover have "\<not> accounted (notified_id ez) st"
    using assms(2,7) by (auto simp: accounted_def held claimed message_event_def)
  moreover have "accounted (notified_id ez) (waiting_for d [mx, my, mz])"
    using assms(3) by (simp add: accounted_def message_event_def waiting_for_def held_messages_def)
  ultimately show ?thesis using up by blast
qed

section \<open>Two loops\<close>

text \<open>Two reconnect loops can end with two consumers: the messages of one of them are acknowledged on the
  channel of the other.\<close>

definition doubled :: "action list" where
  "doubled = [LoopGoesOn 0 True, LinkCloses 0, LoopGoesOn 0 False, LoopGoesOn 1 True, LoopGoesOn 0 True, LoopGoesOn 0 True] @
     replicate 8 (LoopGoesOn 0 True) @ replicate 8 (LoopGoesOn 1 True)"

theorem two_loops_two_consumers:
  "\<exists>st. worker_acts cfg doubled (worker_started d) = Some st \<and> ps_channel st = Some 1 \<and>
     lk_open (ps_links st ! 1) \<and> lk_consuming (ps_links st ! 1) \<and> lk_open (ps_links st ! 2) \<and> lk_consuming (ps_links st ! 2)"
  by (simp add: doubled_def worker_acts_append worker_started_def eval_nat_numeral loop_goes_on_def start_consumer_def nth_append
      run_simps)

section \<open>Witnesses\<close>

definition numbered_event :: "char \<Rightarrow> order_created_event" where
  "numbered_event c = \<lparr>eventId = ''6f1c2d3e-0000-4000-8000-00000000000'' @ [c], orderId = ''6f1c2d3e-0000-4000-8000-000000000001'',
     occurredAt = ''2024-01-01T00:00:00.000Z'', correlationId = None\<rparr>"

definition numbered_message :: "char \<Rightarrow> amqp_message" where
  "numbered_message c = message_of (demo_outbox_row\<lparr>ob_payload := numbered_event c\<rparr>)"

lemma numbered_parses: "parseEvent (numbered_message c) = Inr (numbered_event c)"
  by (simp add: numbered_message_def message_of_parses)

lemma numbered_valid:
  "orderIdParamsSchema (eventId (numbered_event CHR ''a''))" "orderIdParamsSchema (eventId (numbered_event CHR ''b''))"
  "distinct [notified_id (numbered_event CHR ''a''), notified_id (numbered_event CHR ''b''), notified_id (numbered_event CHR ''c'')]"
  by (simp_all add: numbered_event_def orderIdParamsSchema_def is_hex_def notified_id_def uuid_in_def js_lower_def lower_char_def)

lemma numbered_retry: "retry_target demo_worker_config (numbered_message c) \<noteq> deadLetterQueue demo_worker_config"
  by (simp add: retry_target_def numbered_message_def message_of_def demo_outbox_row_def header_number_def demo_worker_config_def
      retryQueue_def deadLetterQueue_def Let_def)

theorem timed_out_event_lost_at_shutdown_witness:
  "\<exists>st1 st2 st. worker_run demo_worker_config regular (waiting_for empty_database [numbered_message CHR ''a'']) st1 \<and>
     worker_step demo_worker_config (Drained False) st1 = Some st2 \<and> worker_run demo_worker_config undisturbed st2 st \<and>
     \<not> accounted (notified_id (numbered_event CHR ''a'')) st"
proof -
  have "processed_events empty_database = []" "wc_prefetch demo_worker_config = 0 \<or> 1 \<le> wc_prefetch demo_worker_config"
    by (simp_all add: empty_database_def demo_worker_config_def)
  from timed_out_event_lost_at_shutdown[OF numbered_parses numbered_valid(1) this numbered_retry] show ?thesis by blast
qed

theorem stale_acknowledgement_witness:
  "\<exists>st. worker_run demo_worker_config (\<lambda>a s. a \<noteq> Stops)
     (waiting_for empty_database [numbered_message CHR ''a'', numbered_message CHR ''b'', numbered_message CHR ''c'']) st \<and>
     \<not> accounted (notified_id (numbered_event CHR ''c'')) st"
proof -
  let ?st = "waiting_for empty_database [numbered_message CHR ''a'', numbered_message CHR ''b'', numbered_message CHR ''c'']"
  have none: "processed_events empty_database = []" and pre: "wc_prefetch demo_worker_config = 0 \<or> 2 \<le> wc_prefetch demo_worker_config"
    by (simp_all add: empty_database_def demo_worker_config_def)
  from stale_acknowledgement_loses_event[OF numbered_parses numbered_parses numbered_parses numbered_valid(1,2) none numbered_valid(3) pre]
  obtain st where run: "worker_run demo_worker_config
      (\<lambda>a s. a \<noteq> Stops \<and> (\<forall>j. a \<noteq> TimerFirst j) \<and> (\<forall>j e now. a \<noteq> DatabaseRuns j (PgFail e True) now)) ?st st"
    and lost: "\<not> accounted (notified_id (numbered_event CHR ''c'')) st" by blast
  from run have "worker_run demo_worker_config (\<lambda>a s. a \<noteq> Stops) ?st st"
    by (induction rule: worker_run.induct) (auto intro: worker_run.intros)
  with lost show ?thesis by blast
qed

text \<open>A message that arrives, is delivered and completed.\<close>

definition one_message :: "action list" where
  "one_message = [Arrives (numbered_message CHR ''a'')] @ connects 0 @ [Delivers 0]"

lemma one_message_acts:
  "\<exists>st. worker_acts demo_worker_config one_message (worker_started empty_database) = Some st \<and> length (filter jb_awaited (ps_jobs st)) = 1"
  "\<exists>st. worker_acts demo_worker_config (one_message @ completes 0 0) (worker_started empty_database) = Some st \<and>
     ps_notified st = [numbered_event CHR ''a''] \<and> held_messages st = {}"
  "\<exists>st. worker_acts demo_worker_config (tl one_message @ completes 0 0)
       ((worker_started empty_database)\<lparr>ps_main := [numbered_message CHR ''a'']\<rparr>) = Some st \<and> held_messages st = {}"
proof -
  have open_: "within_prefetch demo_worker_config \<lparr>lk_open = True, lk_consuming = True, lk_tags = 0, lk_unacked = []\<rparr>"
    by (simp add: within_prefetch_def demo_worker_config_def)
  note rules = one_message_def completes_def worker_acts_append connects_acts worker_started_def run_simps open_ account_simps
    numbered_parses numbered_valid empty_database_def
  show "\<exists>st. worker_acts demo_worker_config one_message (worker_started empty_database) = Some st \<and> length (filter jb_awaited (ps_jobs st)) = 1"
    by (simp add: rules)
  show "\<exists>st. worker_acts demo_worker_config (one_message @ completes 0 0) (worker_started empty_database) = Some st \<and>
     ps_notified st = [numbered_event CHR ''a''] \<and> held_messages st = {}"
    by (simp add: rules)
  show "\<exists>st. worker_acts demo_worker_config (tl one_message @ completes 0 0)
       ((worker_started empty_database)\<lparr>ps_main := [numbered_message CHR ''a'']\<rparr>) = Some st \<and> held_messages st = {}"
    by (simp add: rules)
qed

theorem in_flight_counts_handlers_witness:
  "\<exists>st. worker_run demo_worker_config (\<lambda>a s. True) (worker_started empty_database) st \<and> ps_inFlight st = 1"
proof -
  obtain st where acts: "worker_acts demo_worker_config one_message (worker_started empty_database) = Some st"
    and one: "length (filter jb_awaited (ps_jobs st)) = 1" using one_message_acts(1) by blast
  have run: "worker_run demo_worker_config (\<lambda>a s. True) (worker_started empty_database) st" by (rule worker_acts_run[OF acts]) simp
  from in_flight_counts_handlers[OF run] one run show ?thesis by auto
qed

theorem notified_at_most_once_witness:
  "\<exists>st. worker_run demo_worker_config database_answers (worker_started empty_database) st \<and>
     ps_notified st = [numbered_event CHR ''a''] \<and> distinct (map notified_id (ps_notified st))"
proof -
  obtain st where acts: "worker_acts demo_worker_config (one_message @ completes 0 0) (worker_started empty_database) = Some st"
    and told: "ps_notified st = [numbered_event CHR ''a'']" using one_message_acts(2) by blast
  have run: "worker_run demo_worker_config database_answers (worker_started empty_database) st"
    by (rule worker_acts_run[OF acts]) (auto simp: one_message_def completes_def connects_def database_answers_def)
  from notified_at_most_once[OF run] told run show ?thesis by blast
qed

theorem careful_worker_loses_no_event_witness:
  "\<exists>st st'. worker_run demo_worker_config careful (worker_started empty_database) st \<and>
     worker_run demo_worker_config careful st st' \<and> accounted (notified_id (numbered_event CHR ''a'')) st' \<and> held_messages st' = {}"
proof -
  let ?st = "(worker_started empty_database)\<lparr>ps_main := [numbered_message CHR ''a'']\<rparr>"
  have "worker_acts demo_worker_config [Arrives (numbered_message CHR ''a'')] (worker_started empty_database) = Some ?st"
    by (simp add: worker_started_def)
  then have first: "worker_run demo_worker_config careful (worker_started empty_database) ?st" by (rule worker_acts_run) simp
  obtain st' where acts: "worker_acts demo_worker_config (tl one_message @ completes 0 0) ?st = Some st'" and none: "held_messages st' = {}"
    using one_message_acts(3) by blast
  have answered: "\<not> lost_claim w PgOk" for w by (cases w) simp_all
  have rest: "worker_run demo_worker_config careful ?st st'"
    by (rule worker_acts_run[OF acts]) (auto simp: one_message_def completes_def connects_def answered)
  have "accounted (notified_id (numbered_event CHR ''a'')) ?st"
    by (simp add: accounted_def message_event_def held_messages_def numbered_parses)
  moreover have "processed_events empty_database = []" by (simp add: empty_database_def)
  ultimately show ?thesis using careful_worker_loses_no_event[OF _ first rest] first rest none by blast
qed

end
