(* ===== verification/Idempotency_Process.thy ===== *)
theory Idempotency_Process
  imports Idempotency
begin

text \<open>
  \<open>utils/idempotency.ts\<close> in small steps: any number of requests with one key at the same time, each
  suspended at the \<open>await\<close> of a Redis command or of its processor, and the record of the key,
  which may also expire. \<open>Idempotency\<close> has a request as one step.

  A command ends with its answer, or with an error after it took effect or not. The processor ends
  with a response or an error; \<open>performed\<close> tells whether its work is in the database then.
\<close>

section \<open>State\<close>

datatype stage =
    Acquiring | Processing | Storing response | Discarding response | Freeing js_error
  | Looking | Clearing
  | Replied "js_error + idempotency_result"

record contender =
  ct_hash :: string
  ct_stage :: stage

text \<open>\<open>kr_performed\<close>: the requests whose work was done, in order; no code reads it.\<close>

record key_state =
  kr_entry :: "string option"
  kr_requests :: "contender list"
  kr_performed :: "nat list"

datatype command_fate = Answers | Fails js_error bool

section \<open>Steps\<close>

definition to_stage :: "nat \<Rightarrow> stage \<Rightarrow> key_state \<Rightarrow> key_state" where
  "to_stage j p st = st\<lparr>kr_requests := (kr_requests st)[j := (kr_requests st ! j)\<lparr>ct_stage := p\<rparr>]\<rparr>"

text \<open>What the processor's outcome leads to: storing the record, or dropping the claim of one that is too large.\<close>

definition after_processor :: "string \<Rightarrow> js_error + response \<Rightarrow> stage" where
  "after_processor h out = (case out of
     Inl e \<Rightarrow> Freeing e
   | Inr r \<Rightarrow> if MAX_STORED_BODY_BYTES < utf8_length (JSON_stringify (completed_record h r)) then Discarding r else Storing r)"

text \<open>\<open>readExistingRecord\<close> after its \<open>GET\<close>; a missing or unreadable record starts the wrapper again.\<close>

definition after_get :: "string \<Rightarrow> string option \<Rightarrow> stage" where
  "after_get h existing = (case existing of
     None \<Rightarrow> Acquiring
   | Some s \<Rightarrow> if s = [] then Acquiring
       else (case JSON_parse s of None \<Rightarrow> Clearing | Some parsed \<Rightarrow> Replied (record_answer parsed h)))"

text \<open>The Redis command request \<open>j\<close> waits for.\<close>

definition redis_ends :: "nat \<Rightarrow> command_fate \<Rightarrow> key_state \<Rightarrow> key_state option" where
  "redis_ends j fate st =
     (if \<not> j < length (kr_requests st) then None
      else let h = ct_hash (kr_requests st ! j); claim = JSON_stringify (claim_record h) in
        (case ct_stage (kr_requests st ! j) of
          Acquiring \<Rightarrow> Some (case fate of
              Answers \<Rightarrow> if kr_entry st = None then to_stage j Processing (st\<lparr>kr_entry := Some claim\<rparr>) else to_stage j Looking st
            | Fails e applied \<Rightarrow> to_stage j (Replied (Inl e))
                (if applied \<and> kr_entry st = None then st\<lparr>kr_entry := Some claim\<rparr> else st))
        | Storing r \<Rightarrow> (let stored = Some (JSON_stringify (completed_record h r)) in Some (case fate of
              Answers \<Rightarrow> to_stage j (Replied (Inr (result_of r))) (st\<lparr>kr_entry := stored\<rparr>)
            | Fails e applied \<Rightarrow> to_stage j (Freeing e) (if applied then st\<lparr>kr_entry := stored\<rparr> else st)))
        | Discarding r \<Rightarrow> Some (to_stage j (Replied (Inr (result_of r)))
            (case fate of Fails e False \<Rightarrow> st | _ \<Rightarrow> st\<lparr>kr_entry := None\<rparr>))
        | Freeing e \<Rightarrow> Some (to_stage j (Replied (Inl e)) (case fate of Fails e' False \<Rightarrow> st | _ \<Rightarrow> st\<lparr>kr_entry := None\<rparr>))
        | Looking \<Rightarrow> Some (case fate of
              Answers \<Rightarrow> to_stage j (after_get h (kr_entry st)) st
            | Fails e applied \<Rightarrow> to_stage j (Replied (Inl e)) st)
        | Clearing \<Rightarrow> Some (to_stage j Acquiring (case fate of Fails e False \<Rightarrow> st | _ \<Rightarrow> st\<lparr>kr_entry := None\<rparr>))
        | _ \<Rightarrow> None))"

definition processor_ends :: "nat \<Rightarrow> js_error + response \<Rightarrow> bool \<Rightarrow> key_state \<Rightarrow> key_state option" where
  "processor_ends j out performed st =
     (if j < length (kr_requests st) \<and> ct_stage (kr_requests st ! j) = Processing
      then Some (to_stage j (after_processor (ct_hash (kr_requests st ! j)) out)
        (if performed then st\<lparr>kr_performed := kr_performed st @ [j]\<rparr> else st))
      else None)"

datatype key_action = Comes string | RedisEnds nat command_fate | ProcessorEnds nat "js_error + response" bool | Expires

fun key_step :: "key_action \<Rightarrow> key_state \<Rightarrow> key_state option" where
  "key_step (Comes h) st = Some (st\<lparr>kr_requests := kr_requests st @ [\<lparr>ct_hash = h, ct_stage = Acquiring\<rparr>]\<rparr>)"
| "key_step (RedisEnds j fate) st = redis_ends j fate st"
| "key_step (ProcessorEnds j out performed) st = processor_ends j out performed st"
| "key_step Expires st = Some (st\<lparr>kr_entry := None\<rparr>)"

definition key_free :: key_state where
  "key_free = \<lparr>kr_entry = None, kr_requests = [], kr_performed = []\<rparr>"

text \<open>Runs with actions the condition allows.\<close>

inductive key_run :: "(key_action \<Rightarrow> key_state \<Rightarrow> bool) \<Rightarrow> key_state \<Rightarrow> key_state \<Rightarrow> bool" for allowed where
  stays: "key_run allowed st st"
| goes: "key_run allowed st st1 \<Longrightarrow> allowed a st1 \<Longrightarrow> key_step a st1 = Some st2 \<Longrightarrow> key_run allowed st st2"

fun key_acts :: "key_action list \<Rightarrow> key_state \<Rightarrow> key_state option" where
  "key_acts [] st = Some st"
| "key_acts (a # as) st = (case key_step a st of None \<Rightarrow> None | Some st1 \<Rightarrow> key_acts as st1)"

lemma key_run_before:
  assumes "key_run allowed st1 st'" and "allowed a st" and "key_step a st = Some st1"
  shows "key_run allowed st st'"
  using assms by (induction rule: key_run.induct) (auto intro: key_run.intros)

lemma key_acts_run:
  assumes "key_acts as st = Some st'" and "\<And>a s. a \<in> set as \<Longrightarrow> allowed a s"
  shows "key_run allowed st st'"
  using assms by (induction as arbitrary: st) (auto intro: key_run.intros key_run_before split: option.splits)

text \<open>The same with a condition that depends on the state.\<close>

fun allowed_acts :: "(key_action \<Rightarrow> key_state \<Rightarrow> bool) \<Rightarrow> key_action list \<Rightarrow> key_state \<Rightarrow> bool" where
  "allowed_acts allowed [] st = True"
| "allowed_acts allowed (a # as) st = (allowed a st \<and> (case key_step a st of None \<Rightarrow> False | Some st1 \<Rightarrow> allowed_acts allowed as st1))"

lemma allowed_acts_run:
  assumes "allowed_acts allowed as st" and "key_acts as st = Some st'"
  shows "key_run allowed st st'"
  using assms by (induction as arbitrary: st) (auto intro: key_run.intros key_run_before split: option.splits)

section \<open>One request at a time\<close>

text \<open>The stages in which a request holds the claim.\<close>

fun holds :: "stage \<Rightarrow> bool" where
  "holds Processing = True"
| "holds (Storing r) = True"
| "holds (Discarding r) = True"
| "holds (Freeing e) = True"
| "holds p = False"

definition holders :: "key_state \<Rightarrow> nat" where
  "holders st = length (filter (\<lambda>c. holds (ct_stage c)) (kr_requests st))"

text \<open>An entry is always readable, and a claim that is held is there.\<close>

definition readable_entry :: "string option \<Rightarrow> bool" where
  "readable_entry entry \<longleftrightarrow> (case entry of None \<Rightarrow> True | Some s \<Rightarrow> s \<noteq> [] \<and> JSON_parse s \<noteq> None)"

definition exclusive :: "key_state \<Rightarrow> bool" where
  "exclusive st \<longleftrightarrow> holders st \<le> 1 \<and> (0 < holders st \<longrightarrow> kr_entry st \<noteq> None) \<and> readable_entry (kr_entry st) \<and>
     (\<forall>c\<in>set (kr_requests st). ct_stage c \<noteq> Clearing \<and> (\<forall>r. ct_stage c = Storing r \<longrightarrow> json_wf (resp_body r)))"

text \<open>The runs in which the claim and the record do not expire.\<close>

fun unexpired :: "key_action \<Rightarrow> key_state \<Rightarrow> bool" where
  "unexpired Expires st = False"
| "unexpired (ProcessorEnds j (Inr r) performed) st = json_wf (resp_body r)"
| "unexpired a st = True"

lemma to_stage_fields [simp]:
  "kr_entry (to_stage j p st) = kr_entry st" "kr_performed (to_stage j p st) = kr_performed st"
  "kr_requests (to_stage j p st) = (kr_requests st)[j := (kr_requests st ! j)\<lparr>ct_stage := p\<rparr>]"
  by (simp_all add: to_stage_def)

lemma holders_update:
  assumes "j < length cs"
  shows "length (filter (\<lambda>c. holds (ct_stage c)) (cs[j := c'])) + (if holds (ct_stage (cs ! j)) then 1 else 0) =
    length (filter (\<lambda>c. holds (ct_stage c)) cs) + (if holds (ct_stage c') then 1 else 0)"
  using assms
proof (induction cs arbitrary: j)
  case (Cons x xs)
  show ?case
  proof (cases j)
    case (Suc k)
    with Cons.prems have "k < length xs" by simp
    from Cons.IH[OF this] show ?thesis by (simp add: Suc split: if_splits)
  qed simp
qed simp

lemma holders_pos: "j < length (kr_requests st) \<Longrightarrow> holds (ct_stage (kr_requests st ! j)) \<Longrightarrow> 0 < holders st"
  by (auto simp: holders_def filter_empty_conv)

lemma readable_records [simp]:
  "readable_entry (Some (JSON_stringify (claim_record h)))"
  "json_wf (resp_body r) \<Longrightarrow> readable_entry (Some (JSON_stringify (completed_record h r)))"
  using stringify_nonempty[of "claim_record h"] stringify_nonempty[of "completed_record h r"]
  by (simp_all add: readable_entry_def JSON_parse_stringify)

text \<open>One request changes its stage.\<close>

lemma exclusive_to_stage:
  assumes "exclusive st" and "j < length (kr_requests st)"
    and "kr_requests st' = (kr_requests st)[j := (kr_requests st ! j)\<lparr>ct_stage := p\<rparr>]"
    and "readable_entry (kr_entry st')" and "p \<noteq> Clearing" and "\<And>r. p = Storing r \<Longrightarrow> json_wf (resp_body r)"
    and "(holds (ct_stage (kr_requests st ! j)) \<and> (kr_entry st' \<noteq> None \<or> \<not> holds p)) \<or>
      (\<not> holds p \<and> (kr_entry st \<noteq> None \<longrightarrow> kr_entry st' \<noteq> None)) \<or> (kr_entry st = None \<and> kr_entry st' \<noteq> None)"
  shows "exclusive st'"
proof -
  have count: "holders st' + (if holds (ct_stage (kr_requests st ! j)) then 1 else 0) = holders st + (if holds p then 1 else 0)"
    using holders_update[OF assms(2), of "(kr_requests st ! j)\<lparr>ct_stage := p\<rparr>"] by (simp add: holders_def assms(3))
  have few: "holders st \<le> 1" "0 < holders st \<longrightarrow> kr_entry st \<noteq> None" using assms(1) by (simp_all add: exclusive_def)
  have "holders st' \<le> 1" "0 < holders st' \<longrightarrow> kr_entry st' \<noteq> None"
    using count few assms(7) by (auto split: if_splits)
  moreover have "ct_stage c \<noteq> Clearing \<and> (\<forall>r. ct_stage c = Storing r \<longrightarrow> json_wf (resp_body r))" if "c \<in> set (kr_requests st')" for c
  proof -
    have "c = (kr_requests st ! j)\<lparr>ct_stage := p\<rparr> \<or> c \<in> set (kr_requests st)"
      using that set_update_subset_insert[of "kr_requests st" j] by (auto simp: assms(3))
    then show ?thesis using assms(1,5,6) by (auto simp: exclusive_def)
  qed
  ultimately show ?thesis using assms(4) by (simp add: exclusive_def)
qed

lemma after_get_readable:
  "readable_entry entry \<Longrightarrow> after_get h entry \<noteq> Clearing \<and> \<not> holds (after_get h entry) \<and> (\<forall>r. after_get h entry \<noteq> Storing r)"
  by (auto simp: after_get_def readable_entry_def split: option.splits)

lemma redis_ends_exclusive:
  assumes "exclusive st" and "redis_ends j fate st = Some st'"
  shows "exclusive st'"
proof -
  have j: "j < length (kr_requests st)" using assms(2) by (simp add: redis_ends_def split: if_splits)
  have readable: "readable_entry (kr_entry st)" using assms(1) by (simp add: exclusive_def)
  have none: "readable_entry None" by (simp add: readable_entry_def)
  note step = exclusive_to_stage[OF assms(1) j]
  show ?thesis
  proof (cases "ct_stage (kr_requests st ! j)")
    case Acquiring
    show ?thesis
    proof (cases fate)
      case Answers
      show ?thesis
      proof (cases "kr_entry st = None")
        case True
        with assms(2) j Acquiring Answers show ?thesis
          by (intro step[where p = Processing]) (auto simp: redis_ends_def Let_def)
      next
        case False
        with assms(2) j Acquiring Answers readable show ?thesis
          by (intro step[where p = Looking]) (auto simp: redis_ends_def Let_def)
      qed
    next
      case (Fails e applied)
      with assms(2) j Acquiring readable show ?thesis
        by (intro step[where p = "Replied (Inl e)"]) (auto simp: redis_ends_def Let_def split: if_splits)
    qed
  next
    case (Storing r)
    then have wf: "json_wf (resp_body r)" using assms(1) nth_mem[OF j] unfolding exclusive_def by blast
    have there: "kr_entry st \<noteq> None" using assms(1) holders_pos[OF j] Storing by (simp add: exclusive_def)
    show ?thesis
    proof (cases fate)
      case Answers
      with assms(2) j Storing wf show ?thesis
        by (intro step[where p = "Replied (Inr (result_of r))"]) (auto simp: redis_ends_def Let_def)
    next
      case (Fails e applied)
      with assms(2) j Storing wf there readable show ?thesis
        by (intro step[where p = "Freeing e"]) (auto simp: redis_ends_def Let_def split: if_splits)
    qed
  next
    case (Discarding r)
    with assms(2) j readable none show ?thesis
      by (intro step[where p = "Replied (Inr (result_of r))"]) (auto simp: redis_ends_def Let_def split: command_fate.splits bool.splits)
  next
    case (Freeing e)
    with assms(2) j readable none show ?thesis
      by (intro step[where p = "Replied (Inl e)"]) (auto simp: redis_ends_def Let_def split: command_fate.splits bool.splits)
  next
    case Looking
    show ?thesis
    proof (cases fate)
      case Answers
      with assms(2) j Looking readable after_get_readable[OF readable, of "ct_hash (kr_requests st ! j)"] show ?thesis
        by (intro step[where p = "after_get (ct_hash (kr_requests st ! j)) (kr_entry st)"]) (auto simp: redis_ends_def Let_def)
    next
      case (Fails e applied)
      with assms(2) j Looking readable show ?thesis
        by (intro step[where p = "Replied (Inl e)"]) (auto simp: redis_ends_def Let_def)
    qed
  next
    case Clearing
    then show ?thesis using assms(1) j by (simp add: exclusive_def)
  qed (use assms(2) j in \<open>simp_all add: redis_ends_def Let_def\<close>)
qed

lemma exclusive_step:
  assumes "key_step a st = Some st'" and "unexpired a st" and "exclusive st"
  shows "exclusive st'"
proof (cases a)
  case (Comes h)
  with assms show ?thesis by (auto simp: exclusive_def holders_def)
next
  case (RedisEnds j fate)
  with assms redis_ends_exclusive show ?thesis by simp
next
  case (ProcessorEnds j out performed)
  then have j: "j < length (kr_requests st)" "ct_stage (kr_requests st ! j) = Processing"
    and st': "st' = to_stage j (after_processor (ct_hash (kr_requests st ! j)) out)
        (if performed then st\<lparr>kr_performed := kr_performed st @ [j]\<rparr> else st)"
    using assms(1) by (auto simp: processor_ends_def split: if_splits)
  have entry: "kr_entry st \<noteq> None" using assms(3) holders_pos[OF j(1)] j(2) by (simp add: exclusive_def)
  show ?thesis
  proof (rule exclusive_to_stage[OF assms(3) j(1), where p = "after_processor (ct_hash (kr_requests st ! j)) out"])
    show "kr_requests st' = (kr_requests st)[j := (kr_requests st ! j)\<lparr>ct_stage := after_processor (ct_hash (kr_requests st ! j)) out\<rparr>]"
      by (simp add: st' to_stage_def)
    show "readable_entry (kr_entry st')" using assms(3) by (simp add: st' exclusive_def)
    show "after_processor (ct_hash (kr_requests st ! j)) out \<noteq> Clearing"
      by (auto simp: after_processor_def split: sum.splits)
    show "json_wf (resp_body r)" if "after_processor (ct_hash (kr_requests st ! j)) out = Storing r" for r
      using that assms(2) ProcessorEnds by (auto simp: after_processor_def split: sum.splits if_splits)
  qed (use j entry in \<open>simp add: st'\<close>)
next
  case Expires
  with assms(2) show ?thesis by simp
qed

section \<open>The work is done once\<close>

text \<open>
  The runs in which, besides, a processor that fails has done nothing, one that succeeds has done
  its work and gives a record that fits, and the record of a response reaches Redis. All other
  commands may fail, with or without effect.
\<close>

fun dependable :: "key_action \<Rightarrow> key_state \<Rightarrow> bool" where
  "dependable Expires st = False"
| "dependable (ProcessorEnds j (Inl e) performed) st = (\<not> performed)"
| "dependable (ProcessorEnds j (Inr r) performed) st = (performed \<and> json_wf (resp_body r) \<and>
     utf8_length (JSON_stringify (completed_record (ct_hash (kr_requests st ! j)) r)) \<le> MAX_STORED_BODY_BYTES)"
| "dependable (RedisEnds j fate) st = (fate = Answers \<or> (\<forall>r. ct_stage (kr_requests st ! j) \<noteq> Storing r))"
| "dependable (Comes h) st = True"

lemma dependable_unexpired: "dependable a st \<Longrightarrow> unexpired a st"
  by (cases "(a, st)" rule: dependable.cases) auto

definition done_once :: "key_state \<Rightarrow> bool" where
  "done_once st \<longleftrightarrow> length (kr_performed st) \<le> 1 \<and> (kr_performed st \<noteq> [] \<longrightarrow> kr_entry st \<noteq> None \<and>
     (\<forall>c\<in>set (kr_requests st). holds (ct_stage c) \<longrightarrow> (\<exists>r. ct_stage c = Storing r)))"

lemma done_once_to_stage:
  assumes "done_once st" and "kr_performed st' = kr_performed st"
    and "kr_requests st' = (kr_requests st)[j := (kr_requests st ! j)\<lparr>ct_stage := p\<rparr>]"
    and "kr_performed st \<noteq> [] \<Longrightarrow> kr_entry st' \<noteq> None \<and> \<not> holds p"
  shows "done_once st'"
proof -
  have "holds (ct_stage c) \<longrightarrow> (\<exists>r. ct_stage c = Storing r)" if "c \<in> set (kr_requests st')" "kr_performed st \<noteq> []" for c
  proof -
    have "c = (kr_requests st ! j)\<lparr>ct_stage := p\<rparr> \<or> c \<in> set (kr_requests st)"
      using that(1) set_update_subset_insert[of "kr_requests st" j] by (auto simp: assms(3))
    then show ?thesis using assms(1,4) that(2) by (auto simp: done_once_def)
  qed
  then show ?thesis using assms(1,2,4) by (simp add: done_once_def)
qed

lemma done_once_staged:
  assumes "done_once st" and "kr_performed st1 = kr_performed st" and "kr_requests st1 = kr_requests st"
    and "kr_performed st \<noteq> [] \<Longrightarrow> kr_entry st1 \<noteq> None \<and> \<not> holds p"
  shows "done_once (to_stage j p st1)"
  by (rule done_once_to_stage[OF assms(1), where p = p and j = j]) (use assms in simp_all)

lemma redis_ends_done_once:
  assumes "done_once st" and "exclusive st" and "redis_ends j fate st = Some st'"
    and "fate = Answers \<or> (\<forall>r. ct_stage (kr_requests st ! j) \<noteq> Storing r)"
  shows "done_once st'"
proof -
  have j: "j < length (kr_requests st)" using assms(3) by (simp add: redis_ends_def split: if_splits)
  have readable: "readable_entry (kr_entry st)" using assms(2) by (simp add: exclusive_def)
  have storing: "\<exists>r. ct_stage (kr_requests st ! j) = Storing r" if "kr_performed st \<noteq> []" "holds (ct_stage (kr_requests st ! j))"
    using that assms(1) nth_mem[OF j] unfolding done_once_def by blast
  have entry: "kr_entry st \<noteq> None" if "kr_performed st \<noteq> []" using that assms(1) by (simp add: done_once_def)
  note step = done_once_staged[OF assms(1)]
  show ?thesis
  proof (cases "ct_stage (kr_requests st ! j)")
    case Acquiring
    then show ?thesis
      using assms(3) j entry
      by (cases fate; cases "kr_entry st = None")
        (auto intro!: step simp: redis_ends_def Let_def
          split: if_splits)
  next
    case (Storing r)
    then have "fate = Answers" using assms(4) by simp
    then show ?thesis
      using assms(3) j Storing by (auto intro!: step simp: redis_ends_def Let_def)
  next
    case (Discarding r)
    then have "kr_performed st = []" using storing by auto
    then show ?thesis
      using assms(3) j Discarding
      by (auto intro!: step simp: redis_ends_def Let_def split: command_fate.splits bool.splits)
  next
    case (Freeing e)
    then have "kr_performed st = []" using storing by auto
    then show ?thesis
      using assms(3) j Freeing
      by (auto intro!: step simp: redis_ends_def Let_def split: command_fate.splits bool.splits)
  next
    case Looking
    then show ?thesis
      using assms(3) j entry after_get_readable[OF readable, of "ct_hash (kr_requests st ! j)"]
      by (cases fate) (auto intro!: step simp: redis_ends_def Let_def)
  next
    case Clearing
    then show ?thesis using assms(2) nth_mem[OF j] unfolding exclusive_def by blast
  qed (use assms(3) j in \<open>simp_all add: redis_ends_def Let_def\<close>)
qed

lemma done_once_step:
  assumes "key_step a st = Some st'" and "dependable a st" and "done_once st" and "exclusive st"
  shows "done_once st'"
proof (cases a)
  case (Comes h)
  with assms(1,3) show ?thesis by (auto simp: done_once_def)
next
  case (RedisEnds j fate)
  with assms redis_ends_done_once show ?thesis by simp
next
  case (ProcessorEnds j out performed)
  then have j: "j < length (kr_requests st)" "ct_stage (kr_requests st ! j) = Processing"
    and st': "st' = to_stage j (after_processor (ct_hash (kr_requests st ! j)) out)
        (if performed then st\<lparr>kr_performed := kr_performed st @ [j]\<rparr> else st)"
    using assms(1) by (auto simp: processor_ends_def split: if_splits)
  have fresh: "kr_performed st = []"
  proof (rule ccontr)
    assume "kr_performed st \<noteq> []"
    then have "\<exists>r. ct_stage (kr_requests st ! j) = Storing r" using assms(3) nth_mem[OF j(1)] j(2) unfolding done_once_def by force
    with j(2) show False by simp
  qed
  show ?thesis
  proof (cases out)
    case (Inl e)
    then have "kr_performed st' = []" using assms(2) ProcessorEnds fresh by (simp add: st')
    then show ?thesis by (simp add: done_once_def)
  next
    case (Inr r)
    let ?c = "(kr_requests st ! j)\<lparr>ct_stage := Storing r\<rparr>"
    have "performed" and stage: "after_processor (ct_hash (kr_requests st ! j)) out = Storing r"
      using assms(2) ProcessorEnds Inr by (auto simp: after_processor_def)
    then have after: "kr_performed st' = [j]" "kr_requests st' = (kr_requests st)[j := ?c]" "kr_entry st' = kr_entry st"
      using fresh by (simp_all add: st')
    have few: "holders st \<le> 1" and entry: "kr_entry st \<noteq> None"
      using assms(4) holders_pos[OF j(1)] j(2) by (simp_all add: exclusive_def)
    have "Suc (length (filter (\<lambda>c. holds (ct_stage c)) ((kr_requests st)[j := ?c\<lparr>ct_stage := Looking\<rparr>]))) = holders st"
      using holders_update[OF j(1), of "?c\<lparr>ct_stage := Looking\<rparr>"] j(2) by (simp add: holders_def)
    then have "length (filter (\<lambda>c. holds (ct_stage c)) ((kr_requests st)[j := ?c\<lparr>ct_stage := Looking\<rparr>])) = 0"
      using few by linarith
    then have others: "\<not> holds (ct_stage c)" if "c \<in> set ((kr_requests st)[j := ?c\<lparr>ct_stage := Looking\<rparr>])" for c
      using that by (simp add: filter_empty_conv)
    have "c = ?c \<or> \<not> holds (ct_stage c)" if in_st': "c \<in> set (kr_requests st')" for c
    proof -
      from in_st' obtain k where k: "k < length (kr_requests st)" "c = (kr_requests st)[j := ?c] ! k"
        by (auto simp: after(2) in_set_conv_nth)
      show ?thesis
      proof (cases "k = j")
        case False
        with k have "c \<in> set ((kr_requests st)[j := ?c\<lparr>ct_stage := Looking\<rparr>])" by (auto simp: in_set_conv_nth intro!: exI[of _ k])
        then show ?thesis using others by blast
      qed (use k in simp)
    qed
    then have "\<forall>c\<in>set (kr_requests st'). holds (ct_stage c) \<longrightarrow> (\<exists>r. ct_stage c = Storing r)" by fastforce
    then show ?thesis using after entry by (simp add: done_once_def)
  qed
next
  case Expires
  with assms(2) show ?thesis by simp
qed

section \<open>Properties\<close>

text \<open>C10: However many requests with one key overlap and however their Redis commands interleave and fail,
  while nothing expires at most one of them is past its claim: no two processors run at the same
  time. If moreover a processor that fails has done nothing and the record of one that succeeds
  fits and reaches Redis, the work is done at most once, and from then on no processor runs.\<close>

theorem overlapping_requests_work_once:
  "(key_run unexpired key_free st \<longrightarrow> holders st \<le> 1) \<and>
   (key_run dependable key_free st \<longrightarrow> length (kr_performed st) \<le> 1 \<and>
      (kr_performed st \<noteq> [] \<longrightarrow> (\<forall>c\<in>set (kr_requests st). ct_stage c \<noteq> Processing)))"
proof (intro conjI impI)
  assume "key_run unexpired key_free st"
  moreover have "exclusive key_free" by (simp add: exclusive_def key_free_def holders_def readable_entry_def)
  ultimately have "exclusive st" by (induction rule: key_run.induct) (auto dest: exclusive_step)
  then show "holders st \<le> 1" by (simp add: exclusive_def)
next
  assume run: "key_run dependable key_free st"
  have "done_once st \<and> exclusive st"
    using run
  proof (induction "key_free" st rule: key_run.induct)
    case stays
    show ?case by (simp add: done_once_def exclusive_def key_free_def holders_def readable_entry_def)
  next
    case (goes st1 a st2)
    then show ?case using done_once_step exclusive_step dependable_unexpired by blast
  qed
  then have once: "done_once st" by simp
  then show "length (kr_performed st) \<le> 1" by (simp add: done_once_def)
  show "\<forall>c\<in>set (kr_requests st). ct_stage c \<noteq> Processing" if "kr_performed st \<noteq> []"
  proof
    fix c assume "c \<in> set (kr_requests st)"
    then have "holds (ct_stage c) \<longrightarrow> (\<exists>r. ct_stage c = Storing r)" using once that by (simp add: done_once_def)
    then show "ct_stage c \<noteq> Processing" by (cases "ct_stage c") auto
  qed
qed

text \<open>Every command is answered, a processor that fails has done nothing, and nothing but a claim expires.\<close>

definition claims_lapse :: "string \<Rightarrow> key_action \<Rightarrow> key_state \<Rightarrow> bool" where
  "claims_lapse h a st \<longleftrightarrow> (\<forall>j e b. a \<noteq> RedisEnds j (Fails e b)) \<and> (\<forall>j e. a \<noteq> ProcessorEnds j (Inl e) True) \<and>
     (a = Expires \<longrightarrow> kr_entry st = Some (JSON_stringify (claim_record h)))"

text \<open>The processor of a request whose claim expired fails after another request stored its record.\<close>

definition overstays :: "string \<Rightarrow> response \<Rightarrow> js_error \<Rightarrow> key_action list" where
  "overstays h r e = [Comes h, RedisEnds 0 Answers, Expires, Comes h, RedisEnds 1 Answers, ProcessorEnds 1 (Inr r) True, RedisEnds 1 Answers,
     ProcessorEnds 0 (Inl e) False]"

definition overstayed :: "string \<Rightarrow> response \<Rightarrow> js_error \<Rightarrow> key_state" where
  "overstayed h r e = \<lparr>kr_entry = Some (JSON_stringify (completed_record h r)),
     kr_requests = [\<lparr>ct_hash = h, ct_stage = Freeing e\<rparr>, \<lparr>ct_hash = h, ct_stage = Replied (Inr (result_of r))\<rparr>], kr_performed = [1]\<rparr>"

definition repeats :: "string \<Rightarrow> response \<Rightarrow> key_action list" where
  "repeats h r = [Comes h, RedisEnds 2 Answers, ProcessorEnds 2 (Inr r) True, RedisEnds 2 Answers]"

lemma overstays_run:
  assumes "utf8_length (JSON_stringify (completed_record h r)) \<le> MAX_STORED_BODY_BYTES"
  shows "key_run (claims_lapse h) key_free (overstayed h r e)"
  by (rule allowed_acts_run[of _ "overstays h r e"]; use assms in \<open>simp add: overstays_def overstayed_def claims_lapse_def key_free_def
      redis_ends_def processor_ends_def to_stage_def after_processor_def Let_def\<close>)

lemma repeats_run:
  assumes "utf8_length (JSON_stringify (completed_record h r)) \<le> MAX_STORED_BODY_BYTES"
  shows "key_run (\<lambda>a s. claims_lapse h a s \<and> a \<noteq> Expires) ((overstayed h r e)\<lparr>kr_entry := None, kr_requests := [a, b]\<rparr>)
    \<lparr>kr_entry = Some (JSON_stringify (completed_record h r)),
     kr_requests = [a, b, \<lparr>ct_hash = h, ct_stage = Replied (Inr (result_of r))\<rparr>], kr_performed = [1, 2]\<rparr>"
  by (rule allowed_acts_run[of _ "repeats h r"]; use assms in \<open>simp add: repeats_def overstayed_def claims_lapse_def
      redis_ends_def processor_ends_def to_stage_def after_processor_def Let_def\<close>)

text \<open>C12: A claim that expires while its request is still working protects nobody, and its request destroys what
  another has stored. While every Redis command is answered, a processor that fails has done nothing
  and nothing but claims expires, there is a run to a state in which a second request with the key
  and the same payload has done the work, stored its record and replied, and the first, whose claim
  has expired, is about to give its claim up after an error. Its deletion removes the record of the
  second request, without a look at whose it is. From there, with no expiry at all, a third request
  does the work again: two requests have performed it, each with a response to its client.\<close>

theorem expired_claim_deletes_record:
  assumes "utf8_length (JSON_stringify (completed_record h r)) \<le> MAX_STORED_BODY_BYTES"
  shows "\<exists>st1 st2 st3. key_run (claims_lapse h) key_free st1 \<and>
    kr_entry st1 = Some (JSON_stringify (completed_record h r)) \<and> kr_performed st1 = [1] \<and>
    map ct_stage (kr_requests st1) = [Freeing e, Replied (Inr (result_of r))] \<and>
    key_step (RedisEnds 0 Answers) st1 = Some st2 \<and> kr_entry st2 = None \<and>
    map ct_stage (kr_requests st2) = [Replied (Inl e), Replied (Inr (result_of r))] \<and>
    key_run (\<lambda>a s. claims_lapse h a s \<and> a \<noteq> Expires) st2 st3 \<and> kr_performed st3 = [1, 2] \<and>
    map ct_stage (kr_requests st3) = [Replied (Inl e), Replied (Inr (result_of r)), Replied (Inr (result_of r))]"
proof -
  let ?a = "\<lparr>ct_hash = h, ct_stage = Replied (Inl e)\<rparr>" and ?b = "\<lparr>ct_hash = h, ct_stage = Replied (Inr (result_of r))\<rparr>"
  have "key_step (RedisEnds 0 Answers) (overstayed h r e) = Some ((overstayed h r e)\<lparr>kr_entry := None, kr_requests := [?a, ?b]\<rparr>)"
    by (simp add: overstayed_def redis_ends_def to_stage_def Let_def)
  with overstays_run[OF assms, of e] repeats_run[OF assms, where e = e and a = ?a and b = ?b] show ?thesis
    by (intro exI conjI) (auto simp: overstayed_def)
qed

section \<open>Witnesses\<close>

definition done_response :: response where
  "done_response = \<lparr>resp_status = 201, resp_body = JNull\<rparr>"

lemma done_response_fits:
  "json_wf (resp_body done_response)"
  "utf8_length (JSON_stringify (completed_record ''h'' done_response)) \<le> MAX_STORED_BODY_BYTES"
  by (simp_all add: done_response_def completed_record_def quote_string_def escape_char_def int_to_string_def utf8_length_def
      MAX_STORED_BODY_BYTES_def nat_to_string.simps[of 201] nat_to_string.simps[of 20] nat_to_string.simps[of 2])

text \<open>Two requests with one key overlap: the first has claimed it, the second is about to look at the record.\<close>

definition overlapping :: "key_action list" where
  "overlapping = [Comes ''h'', Comes ''h'', RedisEnds 0 Answers, RedisEnds 1 Answers, ProcessorEnds 0 (Inr done_response) True, RedisEnds 0 Answers]"

definition overlapped :: key_state where
  "overlapped = \<lparr>kr_entry = Some (JSON_stringify (completed_record ''h'' done_response)),
     kr_requests = [\<lparr>ct_hash = ''h'', ct_stage = Replied (Inr (result_of done_response))\<rparr>, \<lparr>ct_hash = ''h'', ct_stage = Looking\<rparr>],
     kr_performed = [0]\<rparr>"

lemma overlapping_acts: "key_acts overlapping key_free = Some overlapped"
  using done_response_fits(2)
  by (simp add: overlapping_def overlapped_def key_free_def redis_ends_def processor_ends_def to_stage_def after_processor_def Let_def)

lemma overlapping_allowed: "allowed_acts dependable overlapping key_free"
  using done_response_fits
  by (simp add: overlapping_def key_free_def redis_ends_def processor_ends_def to_stage_def after_processor_def Let_def)

theorem overlapping_requests_witness:
  "key_run dependable key_free overlapped \<and> kr_performed overlapped = [0] \<and> length (kr_performed overlapped) \<le> 1"
proof -
  have run: "key_run dependable key_free overlapped" by (rule allowed_acts_run[OF overlapping_allowed overlapping_acts])
  moreover have "kr_performed overlapped = [0]" by (simp add: overlapped_def)
  ultimately show ?thesis using overlapping_requests_work_once[of overlapped] by simp
qed

theorem expired_claim_witness:
  "\<exists>st1 st2. key_run (claims_lapse ''h'') key_free st1 \<and> kr_entry st1 = Some (JSON_stringify (completed_record ''h'' done_response)) \<and>
     key_step (RedisEnds 0 Answers) st1 = Some st2 \<and> kr_entry st2 = None"
  using expired_claim_deletes_record[OF done_response_fits(2)] by blast

end
