(* ===== verification/Idempotency_Steps.thy ===== *)
theory Idempotency_Steps
  imports Idempotency_Process Idempotent_Orders
begin

text \<open>
  The two models of \<open>withIdempotency\<close> agree: what \<open>Idempotency\<close> does in one step for a request alone is
  what the small steps of \<open>Idempotency_Process\<close> come to.
\<close>

text \<open>One request that is about to claim, and its steps when every command is answered.\<close>

definition alone :: "string option \<Rightarrow> string \<Rightarrow> key_state" where
  "alone entry h = \<lparr>kr_entry = entry, kr_requests = [\<lparr>ct_hash = h, ct_stage = Acquiring\<rparr>], kr_performed = []\<rparr>"

definition solo_acts :: "string option \<Rightarrow> js_error + response \<Rightarrow> key_action list" where
  "solo_acts entry out = (if entry = None then [RedisEnds 0 Answers, ProcessorEnds 0 out True, RedisEnds 0 Answers]
     else [RedisEnds 0 Answers, RedisEnds 0 Answers])"

lemma solo_claimed:
  "key_acts (solo_acts None out) (alone None h) = Some \<lparr>kr_entry = (case out of Inl x \<Rightarrow> None
       | Inr r \<Rightarrow> if record_fits h r then Some (JSON_stringify (completed_record h r)) else None),
     kr_requests = [\<lparr>ct_hash = h, ct_stage = Replied (map_sum id result_of out)\<rparr>], kr_performed = [0]\<rparr>"
  by (auto simp: solo_acts_def alone_def redis_ends_def processor_ends_def to_stage_def after_processor_def record_fits_def Let_def
      not_le split: sum.split)

lemma solo_replayed:
  assumes "json_wf j"
  shows "key_acts (solo_acts (Some (JSON_stringify j)) out) (alone (Some (JSON_stringify j)) h) =
    Some \<lparr>kr_entry = Some (JSON_stringify j), kr_requests = [\<lparr>ct_hash = h, ct_stage = Replied (record_answer j h)\<rparr>], kr_performed = []\<rparr>"
  using stringify_nonempty[OF assms] JSON_parse_stringify[OF assms]
  by (simp add: solo_acts_def alone_def redis_ends_def to_stage_def after_get_def Let_def)

section \<open>Properties\<close>

text \<open>C11: The small steps implement the wrapper: where Redis answers, for a request with a well-formed key whose
  record is missing or readable, and a processor with any outcome, the steps of the request alone
  end with exactly the reply of \<open>withIdempotency\<close> and leave exactly the record it leaves; the
  processor runs iff there was no record.\<close>

theorem steps_implement_withIdempotency:
  assumes "redis_answers S store" and "has_key options key" and "\<And>s1. fst (process s1) = out"
    and "store (ext s) (idem_key options key) = entry"
    and "entry = None \<or> (\<exists>j a. json_wf j \<and> entry = Some (JSON_stringify j) \<and> record_answer j (idem_hash sha options) = Inr a)"
  shows "\<exists>reply t st. withIdempotency S sha options process s = Some (reply, t) \<and>
    key_acts (solo_acts entry out) (alone entry (idem_hash sha options)) = Some st \<and>
    map ct_stage (kr_requests st) = [Replied reply] \<and> kr_entry st = store (ext t) (idem_key options key) \<and>
    (kr_performed st \<noteq> [] \<longleftrightarrow> entry = None)"
proof -
  let ?k = "idem_key options key" and ?h = "idem_hash sha options"
  show ?thesis
  proof (cases entry)
    case None
    obtain e1 where fresh: "withIdempotency S sha options process s = Some (run_claimed S ?k ?h process (s\<lparr>ext := e1\<rparr>))"
      using redis_answers.withIdempotency_fresh[OF assms(1,2), of s sha] assms(4) None by metis
    obtain t where "process (s\<lparr>ext := e1\<rparr>) = (out, t)" using assms(3)[of "s\<lparr>ext := e1\<rparr>"] by (metis prod.collapse)
    then obtain e' where "run_claimed S ?k ?h process (s\<lparr>ext := e1\<rparr>) = (map_sum id result_of out, t\<lparr>ext := e'\<rparr>)"
      "store e' ?k = (case out of Inl x \<Rightarrow> None
         | Inr r \<Rightarrow> if record_fits ?h r then Some (JSON_stringify (completed_record ?h r)) else None)"
      by (rule redis_answers.run_claimed_outcome[OF assms(1)])
    with fresh None solo_claimed[of out ?h] show ?thesis by auto
  next
    case (Some w)
    with assms(5) obtain j a where j: "json_wf j" "entry = Some (JSON_stringify j)" "record_answer j ?h = Inr a" by blast
    obtain e' where "store e' = store (ext s)" "withIdempotency S sha options process s = Some (Inr a, s\<lparr>ext := e'\<rparr>)"
      using redis_answers.withIdempotency_replies[OF assms(1,2) j(1) _ j(3)] assms(4) j(2) by metis
    with j solo_replayed[OF j(1), of out ?h] assms(4) show ?thesis by auto
  qed
qed

theorem steps_implement_witness:
  "\<exists>reply t st. withIdempotency stub_services demo_sha demo_idem (io_return done_response) (demo_state (\<lambda>_. None) :: (string \<Rightarrow> string option) api_state) = Some (reply, t) \<and>
    key_acts (solo_acts None (Inr done_response)) (alone None (idem_hash demo_sha demo_idem)) = Some st \<and>
    map ct_stage (kr_requests st) = [Replied reply]"
proof -
  have free: "ext (demo_state (\<lambda>_. None) :: (string \<Rightarrow> string option) api_state) (idem_key demo_idem ''order-0001'') = None"
    by (simp add: demo_state_def)
  have proc: "fst (io_return done_response s1) = Inr done_response" for s1 :: "(string \<Rightarrow> string option) api_state" by simp
  obtain reply st and t :: "(string \<Rightarrow> string option) api_state" where
    "withIdempotency stub_services demo_sha demo_idem (io_return done_response) (demo_state (\<lambda>_. None)) = Some (reply, t)"
    "key_acts (solo_acts None (Inr done_response)) (alone None (idem_hash demo_sha demo_idem)) = Some st"
    "map ct_stage (kr_requests st) = [Replied reply]"
    by (rule exE[OF steps_implement_withIdempotency[OF stub.redis_answers_axioms demo_has_key, of "io_return done_response"
        "Inr done_response" "demo_state (\<lambda>_. None)" None demo_sha]]) (use proc free in auto)
  then show ?thesis by (intro exI conjI)
qed

end
