(* ===== verification/Login_Overlap.thy ===== *)
theory Login_Overlap
  imports Auth_Witnesses
begin

text \<open>
  Logins that overlap. \<open>POST /v1/auth/login\<close> reads the counters and the account before the password
  check, which takes long on purpose, and writes them after it; here the handler is split at that
  point, and any number of attempts may have done the first half before one does the second.
\<close>

section \<open>The two halves of the handler\<close>

definition login_check ::
  "'e services \<Rightarrow> auth_lib \<Rightarrow> api_config \<Rightarrow> (json \<Rightarrow> (string list \<times> string) list) \<Rightarrow> http_request
     \<Rightarrow> json \<Rightarrow> (('e, 'm) app_state_scheme, response + user_row option \<times> bool) io" where
  "login_check S A cfg issues request body =
     (case loginSchema body of
        None \<Rightarrow> io_return (Inl (validationError (normalizeZodError (issues body))))
      | Some dat \<Rightarrow>
          io_bind (await (ext_call (redis_get S (ip_key request cfg)))) (\<lambda>raw.
          let ipFailures = parseInt (case raw of None \<Rightarrow> ''0'' | Some t \<Rightarrow> t) in
          if (case ipFailures of None \<Rightarrow> False | Some n \<Rightarrow> failedLoginIpLimit cfg < n) then io_return (Inl auth_rate_limited)
          else
            io_bind (on_pg (pg_pool (select_user (cr_email dat)))) (\<lambda>user.
            io_bind (js_now S) (\<lambda>now.
            if is_locked now user then io_return (Inl account_locked)
            else
              io_bind (case user of
                 None \<Rightarrow> io_return False
               | Some row \<Rightarrow> lift_result (argon2_verify A (us_password_hash row) (cr_password dat))) (\<lambda>passwordMatches.
              io_return (Inr (user, passwordMatches)))))))"

definition login_settle ::
  "'e services \<Rightarrow> auth_lib \<Rightarrow> api_config \<Rightarrow> (nat \<Rightarrow> string) \<Rightarrow> http_request \<Rightarrow> response + user_row option \<times> bool
     \<Rightarrow> (('e, 'm) app_state_scheme, response) io" where
  "login_settle S A cfg uuid request checked = (case checked of
     Inl r \<Rightarrow> io_return r
   | Inr (None, passwordMatches) \<Rightarrow> login_failed S cfg (ip_key request cfg) None
   | Inr (Some row, passwordMatches) \<Rightarrow>
       if passwordMatches then login_succeeded S A cfg uuid row else login_failed S cfg (ip_key request cfg) (Some row))"

lemma post_login_split:
  "post_login S A cfg uuid issues request body s =
     io_bind (login_check S A cfg issues request body) (login_settle S A cfg uuid request) s"
  by (simp add: post_login_def login_check_def login_settle_def Let_def io_bind_apply io_return_def
      split: option.splits prod.splits sum.splits)

section \<open>Attempts that overlap\<close>

text \<open>All attempts do the first half, then, in any order of the list, the second.\<close>

fun check_all ::
  "'e services \<Rightarrow> auth_lib \<Rightarrow> api_config \<Rightarrow> (json \<Rightarrow> (string list \<times> string) list) \<Rightarrow> http_request \<Rightarrow> json list
     \<Rightarrow> ('e, 'm) app_state_scheme \<Rightarrow> (js_error + response + user_row option \<times> bool) list \<times> ('e, 'm) app_state_scheme" where
  "check_all S A cfg issues request [] s = ([], s)"
| "check_all S A cfg issues request (body # bodies) s =
     (case login_check S A cfg issues request body s of (c, t) \<Rightarrow>
      case check_all S A cfg issues request bodies t of (cs, u) \<Rightarrow> (c # cs, u))"

fun settle_all ::
  "'e services \<Rightarrow> auth_lib \<Rightarrow> api_config \<Rightarrow> (nat \<Rightarrow> string) \<Rightarrow> http_request
     \<Rightarrow> (js_error + response + user_row option \<times> bool) list \<Rightarrow> ('e, 'm) app_state_scheme
     \<Rightarrow> (js_error + response) list \<times> ('e, 'm) app_state_scheme" where
  "settle_all S A cfg uuid request [] s = ([], s)"
| "settle_all S A cfg uuid request (c # cs) s =
     (case (case c of Inl e \<Rightarrow> (Inl e, s) | Inr checked \<Rightarrow> login_settle S A cfg uuid request checked s) of (r, t) \<Rightarrow>
      case settle_all S A cfg uuid request cs t of (rs, u) \<Rightarrow> (r # rs, u))"

context redis_up
begin

lemma login_check_wrong:
  assumes "up (ext s)" and "client_free cfg request (store (ext s))" and "pg_script (pg s) = []"
    and "account (us_email row) (committed (pg s)) = Some row" and "us_locked_until row = None" and "wrong_attempt A row body"
  obtains e where "up e" and "store e = store (ext s)"
    and "login_check S A cfg issues request body s = (Inr (Inr (Some row, False)), s\<lparr>ext := e\<rparr>)"
proof -
  obtain dat where dat: "loginSchema body = Some dat" "js_lower (cr_email dat) = us_email row" "text_ok (cr_email dat)"
    "argon2_verify A (us_password_hash row) (cr_password dat) = Inr False"
    using assms(6) by (auto simp: wrong_attempt_def)
  obtain e where e: "await (ext_call (redis_get S (ip_key request cfg))) s = (Inr (store (ext s) (ip_key request cfg)), s\<lparr>ext := e\<rparr>)"
    "store e = store (ext s)" "up e" by (rule get_eval[OF assms(1)])
  have user: "on_pg (pg_pool (select_user (cr_email dat))) (s\<lparr>ext := e\<rparr>) = (Inr (Some row), s\<lparr>ext := e\<rparr>)"
    using assms(3,4) dat(2,3) by (simp add: on_pg_def pg_pool_def next_fate_done select_user_def find_user_account)
  show thesis
    by (rule that[OF e(3,2)])
      (simp add: login_check_def dat(1,4) Let_def io_bind_apply e(1) client_free_raw[OF assms(2)] user js_now_def is_locked_def
        assms(5) lift_result_def)
qed

lemma check_all_wrong:
  assumes "list_all (wrong_attempt A row) bodies" and "up (ext s)" and "client_free cfg request (store (ext s))"
    and "pg_script (pg s) = []" and "account (us_email row) (committed (pg s)) = Some row" and "us_locked_until row = None"
  shows "\<exists>e. up e \<and> store e = store (ext s) \<and>
    check_all S A cfg issues request bodies s = (replicate (length bodies) (Inr (Inr (Some row, False))), s\<lparr>ext := e\<rparr>)"
  using assms
proof (induction bodies arbitrary: s)
  case Nil
  then show ?case by (intro exI[of _ "ext s"]) simp
next
  case (Cons body bodies)
  then have wrong: "wrong_attempt A row body" by simp
  obtain e where e: "up e" "store e = store (ext s)"
    "login_check S A cfg issues request body s = (Inr (Inr (Some row, False)), s\<lparr>ext := e\<rparr>)"
    by (rule login_check_wrong[OF Cons.prems(2-6) wrong])
  have "\<exists>e'. up e' \<and> store e' = store (ext (s\<lparr>ext := e\<rparr>)) \<and> check_all S A cfg issues request bodies (s\<lparr>ext := e\<rparr>) =
      (replicate (length bodies) (Inr (Inr (Some row, False))), s\<lparr>ext := e, ext := e'\<rparr>)"
    by (rule Cons.IH) (use Cons.prems e(1,2) in simp_all)
  with e show ?case by auto
qed

text \<open>Each second half writes the same count, whatever is in the table by then.\<close>

lemma settle_all_wrong:
  assumes "up (ext s)" and "counts_only (store (ext s)) (ip_key request cfg)" and "0 < failedLoginIpWindowSeconds cfg"
    and "pg_script (pg s) = []" and "uuid_in (us_id row) = us_id row" and "int4_ok (us_failed_login_count row + 1)"
    and "us_failed_login_count row + 1 < failedLoginAccountLimit cfg" and "us_locked_until row = None"
    and "account (us_email row) (committed (pg s)) = Some (row\<lparr>us_failed_login_count := c\<rparr>)"
  shows "\<exists>t. settle_all S A cfg uuid request (replicate n (Inr (Inr (Some row, False)))) s =
      (replicate n (Inr invalid_credentials), t) \<and>
    count_at (store (ext t)) (ip_key request cfg) = count_at (store (ext s)) (ip_key request cfg) + int n \<and>
    account (us_email row) (committed (pg t)) =
      Some (row\<lparr>us_failed_login_count := if n = 0 then c else us_failed_login_count row + 1\<rparr>)"
  using assms
proof (induction n arbitrary: s c)
  case 0
  then show ?case by (intro exI[of _ s]) simp
next
  case (Suc n)
  let ?k = "ip_key request cfg"
  obtain e now where e: "up e" "store e = (store (ext s))(?k \<mapsto> int_to_string (count_at (store (ext s)) ?k + 1))" "up now"
    "login_failed S cfg ?k (Some row) s = (Inr invalid_credentials, s\<lparr>ext := e, pg := (pg s)\<lparr>committed :=
      update_user (us_id row) (\<lambda>r. r\<lparr>us_failed_login_count := us_failed_login_count row + 1,
        us_locked_until := (if failedLoginAccountLimit cfg \<le> us_failed_login_count row + 1
          then Some (secondsFromNow (date_now S now) (accountLockSeconds cfg)) else None)\<rparr>) (committed (pg s))\<rparr>\<rparr>)"
    by (rule login_failed_run[OF Suc.prems(1-4,6)])
  let ?f = "\<lambda>r. r\<lparr>us_failed_login_count := us_failed_login_count row + 1, us_locked_until := None\<rparr>"
  let ?s = "s\<lparr>ext := e, pg := (pg s)\<lparr>committed := update_user (us_id row) ?f (committed (pg s))\<rparr>\<rparr>"
  have first: "login_failed S cfg ?k (Some row) s = (Inr invalid_credentials, ?s)" using e(4) Suc.prems(7) by simp
  have acc: "account (us_email row) (committed (pg ?s)) = Some (row\<lparr>us_failed_login_count := us_failed_login_count row + 1\<rparr>)"
    using account_updated[of "us_email row" "committed (pg s)" "row\<lparr>us_failed_login_count := c\<rparr>" ?f] Suc.prems(5,8,9) by simp
  have counter: "counts_only (store (ext ?s)) ?k" "count_at (store (ext ?s)) ?k = count_at (store (ext s)) ?k + 1"
    using e(2) by (auto simp: counts_only_def count_at_def)
  obtain t where "settle_all S A cfg uuid request (replicate n (Inr (Inr (Some row, False)))) ?s = (replicate n (Inr invalid_credentials), t)"
    "count_at (store (ext t)) ?k = count_at (store (ext ?s)) ?k + int n"
    "account (us_email row) (committed (pg t)) = Some (row\<lparr>us_failed_login_count := us_failed_login_count row + 1\<rparr>)"
    using Suc.IH[of ?s "us_failed_login_count row + 1"] Suc.prems(3-8) counter acc e(1) by auto
  then show ?case using counter first
    by (intro exI[of _ t]) (simp add: login_settle_def)
qed

end

section \<open>Properties\<close>

text \<open>C30: Overlapping guesses count once. Any number of wrong passwords for an account, from one client, all
  past the check before the first is counted, are all compared and all answered 401; afterwards the
  failure count of the account is one higher than before and the account is not locked, however
  many guesses there were. The counter of the client is exact, but by then the guesses were made.\<close>

theorem overlapping_guesses_count_once:
  assumes "redis_up S store up" and "up (ext s)" and "list_all (wrong_attempt A row) bodies" and "bodies \<noteq> []"
    and "client_free cfg request (store (ext s))" and "0 < failedLoginIpWindowSeconds cfg" and "pg_script (pg s) = []"
    and "account (us_email row) (committed (pg s)) = Some row" and "uuid_in (us_id row) = us_id row"
    and "us_locked_until row = None" and "int4_ok (us_failed_login_count row + 1)"
    and "us_failed_login_count row + 1 < failedLoginAccountLimit cfg"
  shows "\<exists>cs t u. check_all S A cfg issues request bodies s = (cs, t) \<and>
    settle_all S A cfg uuid request cs t = (replicate (length bodies) (Inr invalid_credentials), u) \<and>
    account (us_email row) (committed (pg u)) = Some (row\<lparr>us_failed_login_count := us_failed_login_count row + 1\<rparr>) \<and>
    count_at (store (ext u)) (ip_key request cfg) = count_at (store (ext s)) (ip_key request cfg) + int (length bodies)"
proof -
  let ?cs = "replicate (length bodies) (Inr (Inr (Some row, False)))"
  obtain e where e: "up e" "store e = store (ext s)" "check_all S A cfg issues request bodies s = (?cs, s\<lparr>ext := e\<rparr>)"
    using redis_up.check_all_wrong[OF assms(1,3,2,5,7,8,10)] by blast
  have "counts_only (store (ext (s\<lparr>ext := e\<rparr>))) (ip_key request cfg)" using assms(5) e(2) by (simp add: client_free_def)
  then obtain u where "settle_all S A cfg uuid request ?cs (s\<lparr>ext := e\<rparr>) = (replicate (length bodies) (Inr invalid_credentials), u)"
    "count_at (store (ext u)) (ip_key request cfg) = count_at (store (ext s)) (ip_key request cfg) + int (length bodies)"
    "account (us_email row) (committed (pg u)) = Some (row\<lparr>us_failed_login_count := us_failed_login_count row + 1\<rparr>)"
    using redis_up.settle_all_wrong[OF assms(1), of "s\<lparr>ext := e\<rparr>" request cfg row "us_failed_login_count row" A uuid "length bodies"]
      assms(4,6-12) e(1,2) by auto
  with e(3) show ?thesis by blast
qed

text \<open>A hundred guesses; the limit of the account is five.\<close>

theorem overlapping_guesses_count_once_witness:
  "\<exists>cs t u. check_all server_services demo_crypto demo_config (\<lambda>j. []) demo_request (replicate 100 (login_body ''wrong-password''))
      (demo_auth quiet_server) = (cs, t) \<and>
    settle_all server_services demo_crypto demo_config demo_uuid demo_request cs t = (replicate 100 (Inr invalid_credentials), u) \<and>
    account ''a@b.c'' (committed (pg u)) = Some (demo_account\<lparr>us_failed_login_count := 1\<rparr>) \<and> failedLoginAccountLimit demo_config = 5"
proof -
  let ?s = "demo_auth quiet_server" and ?bodies = "replicate 100 (login_body ''wrong-password'')"
  have wrong: "wrong_attempt demo_crypto demo_account (login_body ''wrong-password'')"
    by (simp add: wrong_attempt_def loginSchema_def login_body_schema demo_account_def demo_crypto_def text_ok_def)
  have hyps: "list_all (wrong_attempt demo_crypto demo_account) ?bodies" "?bodies \<noteq> []"
    "client_free demo_config demo_request (live (ext ?s))" "0 < failedLoginIpWindowSeconds demo_config" "pg_script (pg ?s) = []"
    "account (us_email demo_account) (committed (pg ?s)) = Some demo_account" "uuid_in (us_id demo_account) = us_id demo_account"
    "us_locked_until demo_account = None" "int4_ok (us_failed_login_count demo_account + 1)"
    "us_failed_login_count demo_account + 1 < failedLoginAccountLimit demo_config"
    using wrong quiet_free
    by (simp_all add: list_all_iff demo_config_def int4_ok_def account_def demo_auth_db_def demo_account_def uuid_in_def
        js_lower_def lower_char_def)
  have up: "rs_script (ext ?s) = [] \<and> rs_now (ext ?s) = 1000" by (simp add: quiet_server_def)
  have "us_email demo_account = ''a@b.c''" "us_failed_login_count demo_account + 1 = 1" "failedLoginAccountLimit demo_config = 5"
    by (simp_all add: demo_account_def demo_config_def)
  then show ?thesis
    using overlapping_guesses_count_once[OF server_at[of 1000] up hyps, of "\<lambda>j. []" demo_uuid] by simp blast
qed

end
