(* ===== verification/Login_Lockout.thy ===== *)
theory Login_Lockout
  imports Auth_Witnesses
begin

text \<open>
  The counter of failed logins of a client, on the Redis server with expiry times of \<open>Redis_Model\<close>:
  \<open>INCR\<close> and \<open>EXPIRE\<close> are two commands, and only the first failure of a window sets the expiry. What
  becomes of the client when that one \<open>EXPIRE\<close> fails.
\<close>

section \<open>A counter without an expiry\<close>

definition persistent :: "redis_server \<Rightarrow> string \<Rightarrow> int \<Rightarrow> bool" where
  "persistent sv k c \<longleftrightarrow> rs_data sv k = Some (int_to_string c, None)"

definition at_time :: "int \<Rightarrow> redis_server \<Rightarrow> redis_server" where
  "at_time now sv = sv\<lparr>rs_now := now\<rparr>"

lemma persistent_live: "persistent sv k c \<Longrightarrow> live (at_time now sv) k = Some (int_to_string c)"
  by (simp add: persistent_def live_def at_time_def)

lemma at_own_time [simp]: "at_time (rs_now sv) sv = sv"
  by (simp add: at_time_def)

lemma persistent_later: "persistent sv k c \<Longrightarrow> persistent (at_time now sv) k c"
  by (simp add: persistent_def at_time_def)

text \<open>A login for an address without an account.\<close>

definition unknown_attempt :: "database \<Rightarrow> json \<Rightarrow> bool" where
  "unknown_attempt d body \<longleftrightarrow> (\<exists>dat. loginSchema body = Some dat \<and> text_ok (cr_email dat) \<and> find_user (cr_email dat) d = None)"

lemma get_now:
  "rs_script (ext s) = [] \<Longrightarrow> await (ext_call (redis_get server_services k)) s = (Inr (live (ext s) k), s)"
  by (simp add: await_def ext_call_def server_defs run_command_def)

lemma incr_persistent:
  assumes "rs_script (ext s) = []" and "persistent (ext s) k c"
  shows "await (ext_call (redis_incr server_services k)) s =
    (Inr (c + 1), s\<lparr>ext := store_key k (Some (int_to_string (c + 1), None)) (ext s)\<rparr>)"
  using assms persistent_live[OF assms(2), of "rs_now (ext s)"]
  by (simp add: await_def ext_call_def server_defs run_command_def incr_effect_def persistent_def)

text \<open>The counter is over the limit: every login of the client is refused, at any time.\<close>

lemma client_refused:
  assumes "rs_script (ext s) = []" and "persistent (ext s) (ip_key request cfg) c" and "failedLoginIpLimit cfg < c"
    and "loginSchema body \<noteq> None"
  shows "post_login server_services A cfg uuid issues request body s = (Inr auth_rate_limited, s)"
  using assms(4) persistent_live[OF assms(2), of "rs_now (ext s)"] assms(3)
  by (auto simp: post_login_def Let_def io_bind_apply get_now[OF assms(1)])

lemma unknown_attempt_run:
  assumes "rs_script (ext s) = []" and "pg_script (pg s) = []" and "unknown_attempt (committed (pg s)) body"
    and "persistent (ext s) (ip_key request cfg) c" and "1 \<le> c" and "c \<le> failedLoginIpLimit cfg"
  shows "post_login server_services A cfg uuid issues request body s =
    (Inr invalid_credentials, s\<lparr>ext := store_key (ip_key request cfg) (Some (int_to_string (c + 1), None)) (ext s)\<rparr>)"
proof -
  obtain dat where dat: "loginSchema body = Some dat" "text_ok (cr_email dat)" "find_user (cr_email dat) (committed (pg s)) = None"
    using assms(3) by (auto simp: unknown_attempt_def)
  have user: "on_pg (pg_pool (select_user (cr_email dat))) s = (Inr None, s)"
    using assms(2) dat(2,3) by (simp add: on_pg_def pg_pool_def next_fate_done select_user_def)
  show ?thesis
    using assms(5,6) persistent_live[OF assms(4), of "rs_now (ext s)"]
    by (simp add: post_login_def dat(1) Let_def io_bind_apply get_now[OF assms(1)] user js_now_def is_locked_def login_failed_def
        incr_persistent[OF assms(1,4)])
qed

text \<open>Attempts with the times they are made at.\<close>

fun logins_at ::
  "auth_lib \<Rightarrow> api_config \<Rightarrow> (nat \<Rightarrow> string) \<Rightarrow> (json \<Rightarrow> (string list \<times> string) list) \<Rightarrow> http_request \<Rightarrow> (int \<times> json) list
     \<Rightarrow> (redis_server, 'm) app_state_scheme \<Rightarrow> (js_error + response) list \<times> (redis_server, 'm) app_state_scheme" where
  "logins_at A cfg uuid issues request [] s = ([], s)"
| "logins_at A cfg uuid issues request ((now, body) # attempts) s =
     (case post_login server_services A cfg uuid issues request body (s\<lparr>ext := at_time now (ext s)\<rparr>) of (r, t) \<Rightarrow>
      (case logins_at A cfg uuid issues request attempts t of (rs, u) \<Rightarrow> (r # rs, u)))"

lemma unknown_attempts_run:
  assumes "rs_script (ext s) = []" and "pg_script (pg s) = []" and "list_all (\<lambda>a. unknown_attempt (committed (pg s)) (snd a)) attempts"
    and "persistent (ext s) (ip_key request cfg) c" and "1 \<le> c" and "c + int (length attempts) \<le> failedLoginIpLimit cfg + 1"
  shows "\<exists>e. logins_at A cfg uuid issues request attempts s = (replicate (length attempts) (Inr invalid_credentials), s\<lparr>ext := e\<rparr>) \<and>
    rs_script e = [] \<and> persistent e (ip_key request cfg) (c + int (length attempts))"
  using assms
proof (induction attempts arbitrary: s c)
  case Nil
  then show ?case by (intro exI[of _ "ext s"]) simp
next
  case (Cons attempt attempts)
  obtain now body where attempt: "attempt = (now, body)" by fastforce
  let ?t = "s\<lparr>ext := at_time now (ext s)\<rparr>"
  let ?s = "s\<lparr>ext := store_key (ip_key request cfg) (Some (int_to_string (c + 1), None)) (at_time now (ext s))\<rparr>"
  have "post_login server_services A cfg uuid issues request body ?t = (Inr invalid_credentials, ?s)"
    using unknown_attempt_run[of ?t body request cfg c A uuid issues] Cons.prems persistent_later[OF Cons.prems(4)]
    by (simp add: attempt) (simp add: at_time_def)
  moreover have "persistent (ext ?s) (ip_key request cfg) (c + 1)" by (simp add: persistent_def store_key_def)
  then obtain e where "logins_at A cfg uuid issues request attempts ?s =
      (replicate (length attempts) (Inr invalid_credentials), ?s\<lparr>ext := e\<rparr>)" "rs_script e = []"
    "persistent e (ip_key request cfg) (c + 1 + int (length attempts))"
    using Cons.IH[of ?s "c + 1"] Cons.prems by (auto simp: store_key_def at_time_def)
  ultimately show ?case by (intro exI[of _ e]) (simp add: attempt algebra_simps)
qed

text \<open>The first failure of a client, when the \<open>EXPIRE\<close> after its \<open>INCR\<close> fails.\<close>

lemma first_failure_run:
  assumes "rs_script (ext s) = [Answered m, Answered n, Lost d e False]" and "rs_data (ext s) (ip_key request cfg) = None"
    and "pg_script (pg s) = []" and "unknown_attempt (committed (pg s)) body" and "0 \<le> failedLoginIpLimit cfg"
  shows "post_login server_services A cfg uuid issues request body s =
    (Inl e, s\<lparr>ext := store_key (ip_key request cfg) (Some (int_to_string 1, None)) ((ext s)\<lparr>rs_script := []\<rparr>)\<rparr>)"
proof -
  let ?k = "ip_key request cfg"
  obtain dat where dat: "loginSchema body = Some dat" "text_ok (cr_email dat)" "find_user (cr_email dat) (committed (pg s)) = None"
    using assms(4) by (auto simp: unknown_attempt_def)
  let ?s1 = "s\<lparr>ext := (ext s)\<lparr>rs_script := [Answered n, Lost d e False]\<rparr>\<rparr>"
  let ?s2 = "s\<lparr>ext := store_key ?k (Some (int_to_string 1, None)) ((ext s)\<lparr>rs_script := [Lost d e False]\<rparr>)\<rparr>"
  let ?s3 = "s\<lparr>ext := store_key ?k (Some (int_to_string 1, None)) ((ext s)\<lparr>rs_script := []\<rparr>)\<rparr>"
  have free: "live (ext s) ?k = None" using assms(2) by (simp add: live_def)
  have got: "await (ext_call (redis_get server_services ?k)) s = (Inr None, ?s1)"
    using assms(1) free by (simp add: await_def ext_call_def server_defs run_command_def)
  have user: "on_pg (pg_pool (select_user (cr_email dat))) ?s1 = (Inr None, ?s1)"
    using assms(3) dat(2,3) by (simp add: on_pg_def pg_pool_def next_fate_done select_user_def)
  have incr: "await (ext_call (redis_incr server_services ?k)) ?s1 = (Inr 1, ?s2)"
    using free by (simp add: await_def ext_call_def server_defs run_command_def incr_effect_def)
  have expire: "await (ext_call (redis_expire server_services ?k seconds)) ?s2 = (Inl e, ?s3)" for seconds
    by (simp add: await_def ext_call_def server_defs run_command_def store_key_def)
  show ?thesis
    using assms(5)
    by (simp add: post_login_def dat(1) Let_def io_bind_apply got user js_now_def is_locked_def login_failed_def incr expire parseInt_zero)
qed

section \<open>Properties\<close>

text \<open>C31: A failed \<open>EXPIRE\<close> blocks a client for good: if the one \<open>EXPIRE\<close> after the first failed login of a
  client fails (that login is answered with an error), the counter of the client has no expiry and
  no later failure gives it one, whenever it comes; once the counter has passed the limit, every login of that
  client, with any account and the right password too, is answered 429, at every later time.\<close>

theorem failed_expire_blocks_client_for_good:
  assumes "rs_script (ext s) = [Answered m, Answered n, Lost d e False]" and "rs_data (ext s) (ip_key request cfg) = None"
    and "pg_script (pg s) = []" and "unknown_attempt (committed (pg s)) body"
    and "list_all (\<lambda>a. unknown_attempt (committed (pg s)) (snd a)) attempts" and "int (length attempts) = failedLoginIpLimit cfg"
  shows "\<exists>s1 t. post_login server_services A cfg uuid issues request body s = (Inl e, s1) \<and>
    logins_at A cfg uuid issues request attempts s1 = (replicate (length attempts) (Inr invalid_credentials), t) \<and>
    (\<forall>now body'. loginSchema body' \<noteq> None \<longrightarrow>
      fst (post_login server_services A cfg uuid issues request body' (t\<lparr>ext := at_time now (ext t)\<rparr>)) = Inr auth_rate_limited)"
proof -
  let ?s = "s\<lparr>ext := store_key (ip_key request cfg) (Some (int_to_string 1, None)) ((ext s)\<lparr>rs_script := []\<rparr>)\<rparr>"
  have "0 \<le> failedLoginIpLimit cfg" using assms(6) by linarith
  then have first: "post_login server_services A cfg uuid issues request body s = (Inl e, ?s)"
    by (intro first_failure_run[OF assms(1-3)]) (use assms(4) in simp_all)
  have "persistent (ext ?s) (ip_key request cfg) 1" by (simp add: persistent_def store_key_def)
  then obtain e' where rest: "logins_at A cfg uuid issues request attempts ?s =
      (replicate (length attempts) (Inr invalid_credentials), ?s\<lparr>ext := e'\<rparr>)" "rs_script e' = []"
    and full: "persistent e' (ip_key request cfg) (1 + int (length attempts))"
    using unknown_attempts_run[of ?s attempts request cfg 1 A uuid issues] assms(3,5,6) by (auto simp: store_key_def)
  have "fst (post_login server_services A cfg uuid issues request body' (?s\<lparr>ext := at_time now e'\<rparr>)) = Inr auth_rate_limited"
    if "loginSchema body' \<noteq> None" for now body'
    using client_refused[of "?s\<lparr>ext := at_time now e'\<rparr>" request cfg "1 + int (length attempts)" body' A uuid issues]
      persistent_later[OF full] rest(2) that assms(6) by (simp add: at_time_def)
  with first rest(1) show ?thesis by (intro exI[of _ ?s] exI[of _ "?s\<lparr>ext := e'\<rparr>"]) simp
qed

theorem failed_expire_blocks_client_witness:
  "\<exists>s1 t. post_login server_services demo_crypto demo_config demo_uuid (\<lambda>j. []) demo_request (login_body ''wrong-password'')
      (empty_app (quiet_server\<lparr>rs_script := [Answered 1, Answered 1, Lost 5 connection_lost False]\<rparr>)) = (Inl connection_lost, s1) \<and>
    logins_at demo_crypto demo_config demo_uuid (\<lambda>j. []) demo_request (map (\<lambda>i. (1000 + int i * 86400000, login_body ''wrong-password'')) [0..<10])
      s1 = (replicate 10 (Inr invalid_credentials), t) \<and>
    fst (post_login server_services demo_crypto demo_config demo_uuid (\<lambda>j. []) demo_request (login_body ''correct-horse-battery'')
      (t\<lparr>ext := at_time 1000000000000 (ext t)\<rparr>)) = Inr auth_rate_limited"
proof -
  let ?s = "empty_app (quiet_server\<lparr>rs_script := [Answered 1, Answered 1, Lost 5 connection_lost False]\<rparr>)"
  let ?body = "login_body ''wrong-password''"
  have unknown: "unknown_attempt (committed (pg ?s)) ?body"
    by (simp add: unknown_attempt_def loginSchema_def login_body_schema text_ok_def find_user_def empty_app_def empty_database_def)
  have start: "rs_script (ext ?s) = [Answered 1, Answered 1, Lost 5 connection_lost False]"
    "rs_data (ext ?s) (ip_key demo_request demo_config) = None" "pg_script (pg ?s) = []"
    by (simp_all add: empty_app_def demo_app_def api_state.extend_def demo_state_def quiet_server_def demo_world_def)
  let ?attempts = "map (\<lambda>i. (1000 + int i * 86400000, ?body)) [0..<10]"
  have many: "list_all (\<lambda>a. unknown_attempt (committed (pg ?s)) (snd a)) ?attempts" "int (length ?attempts) = failedLoginIpLimit demo_config"
    using unknown by (simp_all add: list_all_iff demo_config_def)
  have "loginSchema (login_body ''correct-horse-battery'') \<noteq> None" "length ?attempts = 10"
    by (simp_all add: loginSchema_def login_body_schema)
  with failed_expire_blocks_client_for_good[OF start unknown many, of demo_crypto demo_uuid "\<lambda>j. []"] show ?thesis
    by (simp del: upt_Suc upt_conv_Nil) blast
qed

end
