(* ===== verification/Refresh_Failure.thy ===== *)
theory Refresh_Failure
  imports Auth_Witnesses
begin

text \<open>
  A refresh whose second write fails: \<open>POST /v1/auth/refresh\<close> revokes the old token and stores the new
  one in two statements, without a transaction.
\<close>

lemma pool_ok:
  assumes "pg_script (pg s) = PgOk # fs" and "stmt (db_now (pg s)) (committed (pg s)) = Inr (a, d)"
  shows "on_pg (pg_pool stmt) s = (Inr a, s\<lparr>pg := (pg s)\<lparr>pg_script := fs, committed := d\<rparr>\<rparr>)"
  using assms by (simp add: on_pg_def pg_pool_def next_fate_def)

lemma pool_lost:
  "pg_script (pg s) = [PgFail e False] \<Longrightarrow> on_pg (pg_pool stmt) s = (Inl e, s\<lparr>pg := (pg s)\<lparr>pg_script := []\<rparr>\<rparr>)"
  by (simp add: on_pg_def pg_pool_def next_fate_def)

lemma lookup_ok:
  "pg_script (pg s) = PgOk # fs \<Longrightarrow> refresh_lookup A token s =
     (Inr (find_token (hashToken A token) (committed (pg s))), s\<lparr>pg := (pg s)\<lparr>pg_script := fs\<rparr>\<rparr>)"
  by (simp add: refresh_lookup_def pool_ok select_token_def)

text \<open>A refresh that fails between its two writes ends all sessions of the user: the token is revoked, no
  new one is stored, and the client gets an error; when it tries again with the only token it
  has, the retry is taken for a theft, and every token of the user, on all devices, is revoked.\<close>

theorem failed_rotation_ends_all_sessions:
  assumes "auth_ok cfg (committed (pg s))" and "pg_script (pg s) = [PgOk, PgOk, PgFail e False]"
    and "refreshSchema body = Some token" and "find_token (hashToken A token) (committed (pg s)) = Some (rt, email)"
    and "date_now S (ext s) < rt_expires_at rt" and "rt_revoked_at rt = None"
    and "jwt_sign A (access_claims \<lparr>user_id = rt_user_id rt, user_email = email\<rparr>) (jwtAccessSecret cfg) (accessTokenTtlSeconds cfg)
      (date_now S (ext s)) = Inr access"
  shows "\<exists>t u. post_refresh S A cfg uuid issues body s = (Inl e, t) \<and>
    post_refresh S A cfg uuid issues body t = (Inr refresh_token_reused, u) \<and>
    length (refresh_tokens (committed (pg u))) = length (refresh_tokens (committed (pg s))) \<and>
    (\<forall>x\<in>set (refresh_tokens (committed (pg u))). rt_user_id x = rt_user_id rt \<longrightarrow> rt_revoked_at x \<noteq> None)"
proof -
  let ?d = "committed (pg s)" and ?h = "hashToken A token"
  have in_table: "rt \<in> set (refresh_tokens ?d)" "rt_user_id rt \<in> us_id ` set (users ?d)" using find_token_row[OF assms(4)] by simp_all
  note canon = token_id_canonical[OF assms(1) in_table(1)] owner_canonical[OF assms(1) in_table(2)]
  let ?g = "\<lambda>x. if rt_id x = uuid_in (rt_id rt) then x\<lparr>rt_revoked_at := Some (db_now (pg s))\<rparr> else x"
  let ?d1 = "?d\<lparr>refresh_tokens := map ?g (refresh_tokens ?d)\<rparr>"
  define s1 where "s1 = s\<lparr>pg := (pg s)\<lparr>pg_script := [PgOk, PgFail e False]\<rparr>\<rparr>"
  define s2 where "s2 = s\<lparr>pg := (pg s)\<lparr>pg_script := [PgFail e False], committed := ?d1\<rparr>\<rparr>"
  define t where "t = s\<lparr>pg := (pg s)\<lparr>pg_script := [], committed := ?d1, uuids_used := uuids_used (pg s) + 2\<rparr>\<rparr>"
  have lookup: "refresh_lookup A token s = (Inr (Some (rt, email)), s1)" using lookup_ok[OF assms(2)] by (simp add: assms(4) s1_def)
  have "revoke_token (rt_id rt) (db_now (pg s1)) (committed (pg s1)) = Inr ((), ?d1)"
    by (simp add: revoke_token_def revoke_where_def s1_def)
  from pool_ok[of s1 "[PgFail e False]" "revoke_token (rt_id rt)", OF _ this]
  have revoke: "on_pg (pg_pool (revoke_token (rt_id rt))) s1 = (Inr (), s2)" by (simp add: s1_def s2_def)
  have tokens: "createTokens S A cfg uuid \<lparr>user_id = rt_user_id rt, user_email = email\<rparr> s2 = (Inl e, t)"
    using assms(7)
    by (simp add: createTokens_def js_now_def io_bind_apply lift_result_def newRefreshToken_def draw_run pool_lost s2_def)
      (simp add: t_def)
  have first: "post_refresh S A cfg uuid issues body s = (Inl e, t)"
    using lookup revoke tokens assms(3,5,6)
    by (simp add: post_refresh_def io_bind_apply refresh_finish_def js_now_def) (simp add: s1_def)
  have script: "pg_script (pg t) = []" by (simp add: t_def)
  have again: "find_token ?h (committed (pg t)) = Some (rt\<lparr>rt_revoked_at := Some (db_now (pg s))\<rparr>, email)"
    using revoked_row_found[OF assms(4) canon(1), of "db_now (pg s)" "[]"] by (simp add: t_def)
  let ?u = "t\<lparr>pg := (pg t)\<lparr>committed := (committed (pg t))\<lparr>refresh_tokens := map (\<lambda>x. if rt_user_id x = rt_user_id rt \<and>
      rt_revoked_at x = None then x\<lparr>rt_revoked_at := Some (db_now (pg t))\<rparr> else x) (refresh_tokens (committed (pg t)))\<rparr>\<rparr>\<rparr>"
  have "date_now S (ext t) < rt_expires_at rt" using assms(5) by (simp add: t_def)
  then have "post_refresh S A cfg uuid issues body t = (Inr refresh_token_reused, ?u)"
    using assms(3) again canon(2)
    by (simp add: post_refresh_def io_bind_apply refresh_finish_def js_now_def on_pg_pool_run[OF script] refresh_lookup_def
        select_token_def revoke_active_of_def revoke_where_def)
  with first show ?thesis by (intro exI[of _ t] exI[of _ ?u]) (auto simp: t_def)
qed

theorem failed_rotation_witness:
  "\<exists>t u. post_refresh stub_services demo_crypto demo_config demo_uuid (\<lambda>j. []) demo_refresh_body
      ((demo_auth (\<lambda>_. None))\<lparr>pg := (pg (demo_auth (\<lambda>_::string. None :: string option)))\<lparr>pg_script := [PgOk, PgOk, PgFail connection_lost False]\<rparr>\<rparr>) =
      (Inl connection_lost, t) \<and>
    post_refresh stub_services demo_crypto demo_config demo_uuid (\<lambda>j. []) demo_refresh_body t = (Inr refresh_token_reused, u)"
proof -
  let ?s0 = "demo_auth (\<lambda>_. None) :: (string \<Rightarrow> string option) app_state"
  let ?s = "?s0\<lparr>pg := (pg ?s0)\<lparr>pg_script := [PgOk, PgOk, PgFail connection_lost False]\<rparr>\<rparr>"
  have hyps: "auth_ok demo_config (committed (pg ?s))" "pg_script (pg ?s) = [PgOk, PgOk, PgFail connection_lost False]"
    "find_token (hashToken demo_crypto demo_token) (committed (pg ?s)) = Some (demo_token_row, ''a@b.c'')"
    "date_now stub_services (ext ?s) < rt_expires_at demo_token_row" "rt_revoked_at demo_token_row = None"
    by (simp_all add: demo_auth_ok demo_found) (simp_all add: stub_services_def demo_token_row_def)
  obtain access where "jwt_sign demo_crypto (access_claims \<lparr>user_id = rt_user_id demo_token_row, user_email = ''a@b.c''\<rparr>)
      (jwtAccessSecret demo_config) (accessTokenTtlSeconds demo_config) (date_now stub_services (ext ?s)) = Inr access"
    by (simp add: demo_crypto_def demo_sign_def)
  from failed_rotation_ends_all_sessions[OF hyps(1,2) demo_refresh_schema hyps(3-5) this, of demo_uuid "\<lambda>j. []"] show ?thesis by blast
qed

end
