(* ===== verification/Api_Process.thy ===== *)
theory Api_Process
  imports Request_Lifecycle
begin

text \<open>
  The process of the API service (\<open>packages/api-service/src/index.ts\<close>) from its start to its exit: the
  requests of \<open>Request_Lifecycle\<close> arrive and are answered, signals start \<open>shutdown\<close>, whose drain loop
  wakes every 250 milliseconds, and then closes the server, the pool and the Redis client.

  When \<open>app.close()\<close> of the web framework settles is a parameter, a condition on the open requests.
  A rejected promise nobody handles ends the process with exit code 1.
\<close>

section \<open>State\<close>

text \<open>Where the first call of \<open>shutdown\<close> stands: \<open>Draining deadline\<close> waits for its timer.\<close>

datatype api_stage = Serving | Draining int | Closing | EndingPool | Ended

record api_process =
  ap_process :: process
  ap_now :: int
  ap_stage :: api_stage
  ap_pool_open :: bool
  ap_redis_open :: bool
  ap_exit :: "int option"

definition api_started :: "int \<Rightarrow> api_process" where
  "api_started now = \<lparr>ap_process = process_start, ap_now = now, ap_stage = Serving, ap_pool_open = True,
     ap_redis_open = True, ap_exit = None\<rparr>"

section \<open>The shutdown\<close>

text \<open>The condition of the drain loop; after the loop \<open>app.close()\<close> is called.\<close>

definition drain_test :: "int \<Rightarrow> api_process \<Rightarrow> api_process" where
  "drain_test deadline st = st\<lparr>ap_stage :=
     (if 0 < activeRequests (life (ap_process st)) \<and> ap_now st < deadline then Draining deadline else Closing)\<rparr>"

text \<open>
  A signal: \<open>void shutdown(signal).then(() => process.exit(0))\<close>. The call returns at once when a
  shutdown is under way.
\<close>

definition receives_signal :: "api_config \<Rightarrow> api_process \<Rightarrow> api_process" where
  "receives_signal cfg st =
     (if shuttingDown (life (ap_process st)) then st\<lparr>ap_exit := Some 0\<rparr>
      else drain_test (ap_now st + shutdownDrainMs cfg)
        (st\<lparr>ap_process := (ap_process st)\<lparr>life := begin_shutdown (life (ap_process st))\<rparr>\<rparr>))"

definition server_closed :: "js_error + unit \<Rightarrow> api_process \<Rightarrow> api_process" where
  "server_closed r st = (case r of Inl e \<Rightarrow> st\<lparr>ap_exit := Some 1\<rparr> | Inr u \<Rightarrow> st\<lparr>ap_stage := EndingPool\<rparr>)"

definition pool_ended :: "js_error + unit \<Rightarrow> api_process \<Rightarrow> api_process" where
  "pool_ended r st = (case r of
     Inl e \<Rightarrow> st\<lparr>ap_exit := Some 1\<rparr>
   | Inr u \<Rightarrow> st\<lparr>ap_stage := Ended, ap_pool_open := False, ap_redis_open := False, ap_exit := Some 0\<rparr>)"

datatype api_event =
    Traffic process_event | Passes nat | SignalComes | TimerFires
  | CloseSettles "js_error + unit" | EndSettles "js_error + unit"

text \<open>Once \<open>app.close()\<close> is called no request reaches the hooks.\<close>

fun receivable :: "api_stage \<Rightarrow> process_event \<Rightarrow> bool" where
  "receivable stage (Arrives request) = (stage = Serving \<or> (\<exists>d. stage = Draining d))"
| "receivable stage (Responds i status) = True"
| "receivable stage Signal = False"

inductive api_step :: "(process \<Rightarrow> bool) \<Rightarrow> api_config \<Rightarrow> api_process \<Rightarrow> api_event \<Rightarrow> api_process \<Rightarrow> bool" for closable cfg where
  traffic: "ap_exit st = None \<Longrightarrow> receivable (ap_stage st) e \<Longrightarrow> process_step (ap_process st) e p \<Longrightarrow>
     api_step closable cfg st (Traffic e) (st\<lparr>ap_process := p\<rparr>)"
| passes: "ap_exit st = None \<Longrightarrow> api_step closable cfg st (Passes n) (st\<lparr>ap_now := ap_now st + int n\<rparr>)"
| signals: "ap_exit st = None \<Longrightarrow> api_step closable cfg st SignalComes (receives_signal cfg st)"
| wakes: "ap_exit st = None \<Longrightarrow> ap_stage st = Draining deadline \<Longrightarrow>
     api_step closable cfg st TimerFires (drain_test deadline st)"
| closes: "ap_exit st = None \<Longrightarrow> ap_stage st = Closing \<Longrightarrow> closable (ap_process st) \<Longrightarrow>
     api_step closable cfg st (CloseSettles r) (server_closed r st)"
| ends: "ap_exit st = None \<Longrightarrow> ap_stage st = EndingPool \<Longrightarrow> api_step closable cfg st (EndSettles r) (pool_ended r st)"

inductive api_run :: "(process \<Rightarrow> bool) \<Rightarrow> api_config \<Rightarrow> api_process \<Rightarrow> api_event list \<Rightarrow> api_process \<Rightarrow> bool" for closable cfg where
  starts: "api_run closable cfg st [] st"
| goes_on: "api_run closable cfg st es st1 \<Longrightarrow> api_step closable cfg st1 e st2 \<Longrightarrow> api_run closable cfg st (es @ [e]) st2"

lemma api_run_before:
  "api_run closable cfg st1 es st' \<Longrightarrow> api_step closable cfg st e st1 \<Longrightarrow> api_run closable cfg st (e # es) st'"
proof (induction rule: api_run.induct)
  case (starts st1)
  then show ?case using api_run.goes_on[OF api_run.starts] by fastforce
next
  case (goes_on st1 es st2 e' st3)
  then show ?case using api_run.goes_on[of closable cfg st "e # es" st2 e' st3] by simp
qed

definition signals_in :: "api_event list \<Rightarrow> nat" where
  "signals_in es = length (filter (\<lambda>e. e = SignalComes) es)"

lemma signals_in_simps [simp]:
  "signals_in [] = 0" "signals_in (es @ [e]) = signals_in es + (if e = SignalComes then 1 else 0)"
  by (simp_all add: signals_in_def)

section \<open>The invariant\<close>

text \<open>What holds while at most one signal has come.\<close>

definition closing_well :: "nat \<Rightarrow> api_process \<Rightarrow> bool" where
  "closing_well n st \<longleftrightarrow> process_ok (ap_process st) \<and> shuttingDown (life (ap_process st)) = (n = 1) \<and>
     (n = 0 \<longleftrightarrow> ap_stage st = Serving) \<and>
     (ap_stage st \<in> {EndingPool, Ended} \<longrightarrow> open_requests (ap_process st) = {}) \<and>
     (ap_exit st = Some 0 \<longrightarrow> ap_stage st = Ended) \<and> (ap_stage st = Ended \<longrightarrow> \<not> ap_pool_open st \<and> \<not> ap_redis_open st)"

lemma drain_test_fields [simp]:
  "ap_process (drain_test d st) = ap_process st" "ap_exit (drain_test d st) = ap_exit st" "ap_now (drain_test d st) = ap_now st"
  "ap_pool_open (drain_test d st) = ap_pool_open st" "ap_redis_open (drain_test d st) = ap_redis_open st"
  "ap_stage (drain_test d st) \<noteq> Serving" "ap_stage (drain_test d st) \<noteq> EndingPool" "ap_stage (drain_test d st) \<noteq> Ended"
  by (simp_all add: drain_test_def)

lemma process_step_shutting: "process_step p e q \<Longrightarrow> e \<noteq> Signal \<Longrightarrow> shuttingDown (life q) = shuttingDown (life p)"
  by (cases rule: process_step.cases) (auto simp: onRequest_def onResponse_def Let_def split: if_splits)

lemma responds_closes: "process_step p (Responds i status) q \<Longrightarrow> open_requests q \<subseteq> open_requests p"
  by (cases rule: process_step.cases) auto

lemma closing_well_step:
  assumes "api_step closable cfg st e st'" and "closing_well n st" and "\<And>p. closable p \<Longrightarrow> open_requests p = {}"
    and "e = SignalComes \<Longrightarrow> n = 0"
  shows "closing_well (n + (if e = SignalComes then 1 else 0)) st'"
  using assms(1)
proof (cases rule: api_step.cases)
  case (traffic e' p)
  have ok: "process_ok p" using process_ok_step[OF _ traffic(5)] assms(2) by (simp add: closing_well_def)
  have "e' \<noteq> Signal" using traffic(4) by auto
  from process_step_shutting[OF traffic(5) this] have same: "shuttingDown (life p) = shuttingDown (life (ap_process st))" .
  have "open_requests p = {}" if late: "ap_stage st \<in> {EndingPool, Ended}"
  proof (cases e')
    case (Responds i status)
    from responds_closes[OF traffic(5)[unfolded Responds]] late assms(2) show ?thesis by (auto simp: closing_well_def)
  qed (use traffic(4) late in auto)
  with ok same assms(2) traffic show ?thesis by (auto simp: closing_well_def)
next
  case (passes k)
  with assms(2) show ?thesis by (simp add: closing_well_def)
next
  case signals
  with assms(2,4) have "\<not> shuttingDown (life (ap_process st))" "n = 0" by (simp_all add: closing_well_def)
  moreover from this have "process_ok ((ap_process st)\<lparr>life := begin_shutdown (life (ap_process st))\<rparr>)"
    using process_ok_step[OF _ process_step.signal] assms(2) by (simp add: closing_well_def)
  ultimately show ?thesis using assms(2) signals by (simp add: closing_well_def receives_signal_def begin_shutdown_def)
next
  case (wakes deadline)
  with assms(2) show ?thesis by (auto simp: closing_well_def)
next
  case (closes r)
  with assms(2,3) show ?thesis by (auto simp: closing_well_def server_closed_def split: sum.splits)
next
  case (ends r)
  with assms(2) show ?thesis by (auto simp: closing_well_def pool_ended_def split: sum.splits)
qed

lemma closing_well_run:
  assumes "api_run closable cfg (api_started now) es st" and "signals_in es \<le> 1"
    and "\<And>p. closable p \<Longrightarrow> open_requests p = {}"
  shows "closing_well (signals_in es) st"
  using assms(1,2)
proof (induction "api_started now" es st rule: api_run.induct)
  case starts
  then show ?case
    by (simp add: closing_well_def api_started_def process_start_ok) (simp add: process_start_def createRequestLifecycleState_def)
next
  case (goes_on es st1 e st2)
  then have "closing_well (signals_in es) st1" by simp
  from closing_well_step[OF goes_on(3) this assms(3)] goes_on.prems show ?case by (auto split: if_splits)
qed

section \<open>Properties\<close>

text \<open>C33: One signal ends the service cleanly. Where the server closes only when no request is open (as the
  web framework documents), a process that got at most one signal exits with code 0 only after every
  request that arrived was answered, each admitted one counted in the metrics, and with the pool
  ended and Redis disconnected; the end of the drain time does not cut a request short.\<close>

theorem one_signal_ends_cleanly:
  assumes "api_run closable cfg (api_started now) es st" and "signals_in es \<le> 1"
    and "\<And>p. closable p \<Longrightarrow> open_requests p = {}" and "ap_exit st = Some 0"
  shows "signals_in es = 1 \<and> open_requests (ap_process st) = {} \<and>
    fst ` set (observed (life (ap_process st))) = admitted (ap_process st) \<and> \<not> ap_pool_open st \<and> \<not> ap_redis_open st"
proof -
  have "closing_well (signals_in es) st" by (rule closing_well_run[OF assms(1-3)])
  with assms(2,4) show ?thesis by (auto simp: closing_well_def process_ok_def)
qed

lemma first_arrival:
  "process_step process_start (Arrives request) (process_start\<lparr>life := createRequestLifecycleState\<lparr>activeRequests := 1,
     requestStart := {0}, inFlightGauge := 1\<rparr>, arrivals := 1, admitted := {0}, open_requests := {0}\<rparr>)"
  using process_step.admits[of process_start request]
  by (simp add: onRequest_def process_start_def createRequestLifecycleState_def Let_def)

text \<open>C34: A second signal ends the process at once: the call of \<open>shutdown\<close> it makes returns, because a shutdown
  is under way, and the process exits with code 0, although a request it admitted is open, the time
  for draining has not passed and neither the pool nor Redis is closed. So it goes for every
  configuration with a drain time and whatever the server does when it is closed.\<close>

theorem second_signal_cuts_requests:
  assumes "0 < shutdownDrainMs cfg"
  shows "\<exists>st. api_run closable cfg (api_started now) [Traffic (Arrives request), SignalComes, SignalComes] st \<and>
    ap_exit st = Some 0 \<and> open_requests (ap_process st) = {0} \<and> admitted (ap_process st) = {0} \<and>
    ap_stage st = Draining (now + shutdownDrainMs cfg) \<and> ap_now st = now \<and> ap_pool_open st \<and> ap_redis_open st"
proof -
  let ?p = "process_start\<lparr>life := createRequestLifecycleState\<lparr>activeRequests := 1, requestStart := {0}, inFlightGauge := 1\<rparr>,
    arrivals := 1, admitted := {0}, open_requests := {0}\<rparr>"
  let ?st1 = "(api_started now)\<lparr>ap_process := ?p\<rparr>"
  have "api_step closable cfg (api_started now) (Traffic (Arrives request)) ?st1"
    by (rule api_step.traffic) (simp_all add: api_started_def first_arrival[simplified])
  moreover have "api_step closable cfg ?st1 SignalComes (receives_signal cfg ?st1)"
    by (rule api_step.signals) (simp add: api_started_def)
  moreover have "api_step closable cfg (receives_signal cfg ?st1) SignalComes (receives_signal cfg (receives_signal cfg ?st1))"
    by (rule api_step.signals) (simp add: api_started_def receives_signal_def createRequestLifecycleState_def)
  ultimately have run: "api_run closable cfg (api_started now) [Traffic (Arrives request), SignalComes, SignalComes]
      (receives_signal cfg (receives_signal cfg ?st1))"
    by (blast intro: api_run_before api_run.starts)
  show ?thesis
    by (rule exI, rule conjI, rule run)
      (simp add: assms receives_signal_def drain_test_def begin_shutdown_def api_started_def createRequestLifecycleState_def)
qed

section \<open>Witnesses\<close>

definition quiet_close :: "process \<Rightarrow> bool" where
  "quiet_close p = (open_requests p = {})"

text \<open>A request arrives, the signal comes, the request is answered and the service ends.\<close>

definition served_and_ended :: api_process where
  "served_and_ended = \<lparr>ap_process = process_start\<lparr>life := createRequestLifecycleState\<lparr>shuttingDown := True, requestStart := {0},
       observed := [(0, 200)]\<rparr>, arrivals := 1, admitted := {0}\<rparr>,
     ap_now = 0, ap_stage = Ended, ap_pool_open = False, ap_redis_open = False, ap_exit = Some 0\<rparr>"

lemma served_run:
  "api_run quiet_close demo_config (api_started 0)
     [Traffic (Arrives plain_request), SignalComes, Traffic (Responds 0 200), TimerFires, CloseSettles (Inr ()), EndSettles (Inr ())]
     served_and_ended"
proof -
  let ?life = "createRequestLifecycleState\<lparr>activeRequests := 1, requestStart := {0}, inFlightGauge := 1\<rparr>"
  let ?p1 = "process_start\<lparr>life := ?life, arrivals := 1, admitted := {0}, open_requests := {0}\<rparr>"
  let ?p2 = "?p1\<lparr>life := ?life\<lparr>shuttingDown := True\<rparr>\<rparr>"
  let ?p3 = "process_start\<lparr>life := createRequestLifecycleState\<lparr>shuttingDown := True, requestStart := {0},
       observed := [(0, 200)]\<rparr>, arrivals := 1, admitted := {0}\<rparr>"
  let ?at = "\<lambda>p stage. (api_started 0)\<lparr>ap_process := p, ap_stage := stage\<rparr>"
  have p3: "process_step ?p2 (Responds 0 200) ?p3"
    using process_step.responds[of 0 ?p2 200] by (simp add: process_start_def onResponse_def createRequestLifecycleState_def Let_def)
  have "api_step quiet_close demo_config (api_started 0) (Traffic (Arrives plain_request)) (?at ?p1 Serving)"
    using api_step.traffic[of "api_started 0" "Arrives plain_request" ?p1] first_arrival[of plain_request] by (simp add: api_started_def)
  moreover have "api_step quiet_close demo_config (?at ?p1 Serving) SignalComes (?at ?p2 (Draining 30000))"
    using api_step.signals[of "?at ?p1 Serving" quiet_close demo_config]
    by (simp add: api_started_def receives_signal_def drain_test_def begin_shutdown_def createRequestLifecycleState_def demo_config_def)
  moreover have "api_step quiet_close demo_config (?at ?p2 (Draining 30000)) (Traffic (Responds 0 200)) (?at ?p3 (Draining 30000))"
    using api_step.traffic[of "?at ?p2 (Draining 30000)" "Responds 0 200" ?p3] p3 by (simp add: api_started_def)
  moreover have "api_step quiet_close demo_config (?at ?p3 (Draining 30000)) TimerFires (?at ?p3 Closing)"
    using api_step.wakes[of "?at ?p3 (Draining 30000)" 30000]
    by (simp add: api_started_def drain_test_def createRequestLifecycleState_def)
  moreover have "api_step quiet_close demo_config (?at ?p3 Closing) (CloseSettles (Inr ())) (?at ?p3 EndingPool)"
    using api_step.closes[of "?at ?p3 Closing" quiet_close demo_config "Inr ()"]
    by (simp add: api_started_def server_closed_def quiet_close_def process_start_def)
  moreover have "api_step quiet_close demo_config (?at ?p3 EndingPool) (EndSettles (Inr ())) served_and_ended"
    using api_step.ends[of "?at ?p3 EndingPool" quiet_close demo_config "Inr ()"]
    by (simp add: api_started_def pool_ended_def served_and_ended_def)
  ultimately show ?thesis by (blast intro: api_run_before api_run.starts)
qed

theorem one_signal_ends_cleanly_witness:
  "open_requests (ap_process served_and_ended) = {} \<and> \<not> ap_pool_open served_and_ended \<and>
     fst ` set (observed (life (ap_process served_and_ended))) = {0}"
proof -
  have "signals_in [Traffic (Arrives plain_request), SignalComes, Traffic (Responds 0 200), TimerFires, CloseSettles (Inr ()),
      EndSettles (Inr ())] \<le> 1" "\<And>p. quiet_close p \<Longrightarrow> open_requests p = {}" "ap_exit served_and_ended = Some 0"
    "admitted (ap_process served_and_ended) = {0}"
    by (simp_all add: signals_in_def quiet_close_def served_and_ended_def)
  with one_signal_ends_cleanly[OF served_run] show ?thesis by simp
qed

theorem second_signal_cuts_requests_witness:
  "\<exists>st. api_run quiet_close demo_config (api_started 0) [Traffic (Arrives plain_request), SignalComes, SignalComes] st \<and>
     ap_exit st = Some 0 \<and> open_requests (ap_process st) = {0} \<and> ap_stage st = Draining 30000"
  using second_signal_cuts_requests[of demo_config quiet_close 0 plain_request] by (auto simp: demo_config_def)

end
