(* ===== verification/Api_Boot.thy ===== *)
theory Api_Boot
  imports Api_Process Api_Config
begin

text \<open>
  The start of the API service: \<open>index.ts\<close> reads the configuration and makes the Postgres pool and the
  Redis client (\<open>dependencies.ts\<close>) before it listens. The options are what the libraries are given; the
  handler of connection errors of the Redis client is the one piece of code that runs later.
\<close>

section \<open>\<open>dependencies.ts\<close>\<close>

record pool_options =
  po_connectionString :: string
  po_max :: int
  po_statement_timeout :: int
  po_idle_in_transaction_session_timeout :: int
  po_connectionTimeoutMillis :: int

definition createDatabasePool :: "api_config \<Rightarrow> pool_options" where
  "createDatabasePool cfg = \<lparr>po_connectionString = databaseUrl cfg, po_max = dbPoolMax cfg,
     po_statement_timeout = dbStatementTimeoutMs cfg,
     po_idle_in_transaction_session_timeout = dbIdleInTransactionTimeoutMs cfg,
     po_connectionTimeoutMillis = dbConnectionTimeoutMs cfg\<rparr>"

record redis_options =
  ro_url :: string
  ro_enableOfflineQueue :: bool
  ro_maxRetriesPerRequest :: int
  ro_lazyConnect :: bool

definition createRedisClient :: "api_config \<Rightarrow> redis_options" where
  "createRedisClient cfg = \<lparr>ro_url = redisUrl cfg, ro_enableOfflineQueue = False, ro_maxRetriesPerRequest = 1, ro_lazyConnect = False\<rparr>"

text \<open>The handler of the client's \<open>error\<close> events.\<close>

definition redis_error :: "'e services \<Rightarrow> js_error \<Rightarrow> (('e, 'm) api_state_scheme, unit) io" where
  "redis_error S error = warnOncePerMinute S ''redis'' ''Redis connection error'' error"

section \<open>\<open>index.ts\<close>\<close>

record api_context =
  ac_config :: api_config
  ac_pool :: pool_options
  ac_redis :: redis_options
  ac_process :: api_process

text \<open>An environment \<open>loadConfig\<close> refuses ends the process before it listens.\<close>

definition api_boots :: "environment \<Rightarrow> int \<Rightarrow> js_error + api_context" where
  "api_boots env now = res_bind (loadConfig env) (\<lambda>cfg.
     Inr \<lparr>ac_config = cfg, ac_pool = createDatabasePool cfg, ac_redis = createRedisClient cfg, ac_process = api_started now\<rparr>)"

section \<open>\<open>app.ts\<close>: the OpenAPI document\<close>

text \<open>
  What the file system and the YAML library do are arguments; a document is taken as its JSON. An
  array passes the test, as \<open>typeof\<close> calls it an object.
\<close>

definition js_typeof_object :: "json \<Rightarrow> bool" where
  "js_typeof_object j = (case j of JNull \<Rightarrow> True | JArr xs \<Rightarrow> True | JObj ps \<Rightarrow> True | _ \<Rightarrow> False)"

definition loadOpenApiSpec :: "string \<Rightarrow> (string \<Rightarrow> js_error + string) \<Rightarrow> (string \<Rightarrow> js_error + json) \<Rightarrow> js_error + json" where
  "loadOpenApiSpec path readFileSync yaml_load = res_bind (readFileSync path) (\<lambda>raw. res_bind (yaml_load raw) (\<lambda>parsed.
     if \<not> js_typeof_object parsed \<or> parsed = JNull
     then Inl (JsError (''OpenAPI spec at '' @ path @ '' did not parse to an object'') None)
     else Inr parsed))"

text \<open>The awaits of the module: \<open>buildApp\<close> and then \<open>listen\<close>; a rejection of either ends the process.\<close>

definition app_built :: "js_error + json \<Rightarrow> api_context \<Rightarrow> js_error + api_context" where
  "app_built spec ctx = res_bind spec (\<lambda>document. Inr ctx)"

definition api_listens :: "environment \<Rightarrow> int \<Rightarrow> js_error + json \<Rightarrow> (int \<Rightarrow> js_error + unit) \<Rightarrow> js_error + api_context" where
  "api_listens env now spec listen = res_bind (res_bind (api_boots env now) (app_built spec)) (\<lambda>ctx.
     res_bind (listen (port (ac_config ctx))) (\<lambda>u. Inr ctx))"

section \<open>Properties\<close>

lemma res_bind_Inr: "res_bind m f = Inr b \<longleftrightarrow> (\<exists>a. m = Inr a \<and> f a = Inr b)"
  by (cases m) auto

lemma loadConfig_pool:
  assumes "loadConfig env = Inr cfg"
  shows "requiredEnv env ''DATABASE_URL'' = Inr (databaseUrl cfg) \<and> optionalIntEnv env ''DB_POOL_MAX'' 20 = Inr (dbPoolMax cfg) \<and>
    optionalIntEnv env ''DB_CONNECTION_TIMEOUT_MS'' 5000 = Inr (dbConnectionTimeoutMs cfg)"
  using assms unfolding loadConfig_def by (simp only: res_bind_Inr sum.inject) (elim exE conjE, hypsubst, simp)

text \<open>
  The service starts iff its four required variables are set and its numbers are numbers; it then
  serves nothing yet, and its pool is bounded and waits as the environment says.
\<close>

theorem api_boots_iff:
  "(\<exists>ctx. api_boots env now = Inr ctx) \<longleftrightarrow>
     list_all (\<lambda>name. \<not> env_blank (env name)) required_names \<and> list_all (int_ok env) int_names"
  unfolding list_all_iff loadConfig_ok_iff[symmetric] api_boots_def by (auto simp: res_bind_Inr_iff)

text \<open>
  The service listens iff moreover its document is an object or an array and the port is free; in
  particular a missing document keeps the whole service down, not just its documentation.
\<close>

theorem loadOpenApiSpec_ok_iff:
  "loadOpenApiSpec path readFileSync yaml_load = Inr document \<longleftrightarrow>
     (\<exists>raw. readFileSync path = Inr raw \<and> yaml_load raw = Inr document) \<and>
     ((\<exists>xs. document = JArr xs) \<or> (\<exists>ps. document = JObj ps))"
proof -
  have test: "\<not> (\<not> js_typeof_object p \<or> p = JNull) \<longleftrightarrow> (\<exists>xs. p = JArr xs) \<or> (\<exists>ps. p = JObj ps)" for p
    by (cases p) (simp_all add: js_typeof_object_def)
  have "(if b then Inl e else Inr p) = Inr q \<longleftrightarrow> \<not> b \<and> p = q" for b and e :: js_error and p q :: json by simp
  then show ?thesis by (simp only: loadOpenApiSpec_def res_bind_Inr test) metis
qed

theorem api_listens_iff:
  "(\<exists>ctx. api_listens env now spec listen = Inr ctx) \<longleftrightarrow> (\<exists>ctx document. api_boots env now = Inr ctx \<and> spec = Inr document \<and>
     listen (port (ac_config ctx)) = Inr ())"
  by (auto simp: api_listens_def app_built_def res_bind_Inr)

theorem api_boots_context:
  assumes "api_boots env now = Inr ctx"
  shows "optionalIntEnv env ''DB_POOL_MAX'' 20 = Inr (po_max (ac_pool ctx)) \<and>
    optionalIntEnv env ''DB_CONNECTION_TIMEOUT_MS'' 5000 = Inr (po_connectionTimeoutMillis (ac_pool ctx)) \<and>
    ap_stage (ac_process ctx) = Serving \<and> open_requests (ap_process (ac_process ctx)) = {}"
proof -
  from assms obtain cfg where cfg: "loadConfig env = Inr cfg" and ctx: "ctx = \<lparr>ac_config = cfg, ac_pool = createDatabasePool cfg,
      ac_redis = createRedisClient cfg, ac_process = api_started now\<rparr>"
    by (cases "loadConfig env") (simp_all add: api_boots_def)
  from loadConfig_pool[OF cfg] show ?thesis by (simp add: ctx createDatabasePool_def api_started_def process_start_def)
qed

section \<open>Errors of the Redis client\<close>

text \<open>A sequence of error events with the outside world at the time of each.\<close>

fun redis_errors :: "'e services \<Rightarrow> ('e \<times> js_error) list \<Rightarrow> ('e, 'm) api_state_scheme \<Rightarrow> ('e, 'm) api_state_scheme" where
  "redis_errors S [] s = s"
| "redis_errors S ((e, error) # rest) s = redis_errors S rest (snd (redis_error S error (s\<lparr>ext := e\<rparr>)))"

definition last_warning :: "('e, 'm) api_state_scheme \<Rightarrow> int" where
  "last_warning s = (case warn_timestamps s ''redis'' of None \<Rightarrow> 0 | Some t \<Rightarrow> t)"

lemma redis_error_step:
  "(if date_now S e - last_warning s < 60000
    then warn_log (snd (redis_error S error (s\<lparr>ext := e\<rparr>))) = warn_log s \<and> last_warning (snd (redis_error S error (s\<lparr>ext := e\<rparr>))) = last_warning s
    else warn_log (snd (redis_error S error (s\<lparr>ext := e\<rparr>))) = warn_log s @ [(err_message error, ''Redis connection error'')] \<and>
      last_warning (snd (redis_error S error (s\<lparr>ext := e\<rparr>))) = date_now S e)"
  by (simp add: redis_error_def warnOncePerMinute_def Let_def last_warning_def)

text \<open>However often the connection fails, the log gets at most one line a minute.\<close>

theorem redis_errors_logged_rarely:
  assumes "\<And>e error. (e, error) \<in> set errors \<Longrightarrow> date_now S e \<le> now" and "last_warning s \<le> now"
  shows "60000 * (int (length (warn_log (redis_errors S errors s))) - int (length (warn_log s))) \<le> now - last_warning s"
proof -
  have "60000 * (int (length (warn_log (redis_errors S errors s))) - int (length (warn_log s))) \<le>
      last_warning (redis_errors S errors s) - last_warning s \<and> last_warning (redis_errors S errors s) \<le> now"
    using assms
  proof (induction errors arbitrary: s)
    case (Cons a errors)
    obtain e error where a: "a = (e, error)" by fastforce
    let ?s = "snd (redis_error S error (s\<lparr>ext := e\<rparr>))"
    have now: "date_now S e \<le> now" using Cons.prems(1) a by auto
    note step = redis_error_step[of S e s error]
    have "last_warning ?s \<le> now" using step now Cons.prems(2) by (auto split: if_splits)
    then have "60000 * (int (length (warn_log (redis_errors S errors ?s))) - int (length (warn_log ?s))) \<le>
        last_warning (redis_errors S errors ?s) - last_warning ?s \<and> last_warning (redis_errors S errors ?s) \<le> now"
      by (intro Cons.IH) (use Cons.prems(1) in auto)
    moreover have "60000 * (int (length (warn_log ?s)) - int (length (warn_log s))) \<le> last_warning ?s - last_warning s"
      using step by (auto split: if_splits)
    ultimately show ?case by (simp add: a)
  qed simp
  then show ?thesis by linarith
qed

definition demo_redis_at :: "int \<Rightarrow> redis_server" where
  "demo_redis_at now = \<lparr>rs_data = (\<lambda>_. None), rs_now = now, rs_script = []\<rparr>"

theorem redis_errors_witness:
  "length (warn_log (redis_errors server_services (map (\<lambda>i. (demo_redis_at (30000 * int i), JsError ''ECONNREFUSED'' None)) [0..<5])
     (demo_state (demo_redis_at 0)))) \<le> 2"
proof -
  have "\<And>e error. (e, error) \<in> set (map (\<lambda>i. (demo_redis_at (30000 * int i), JsError ''ECONNREFUSED'' None)) [0..<5]) \<Longrightarrow>
      date_now server_services e \<le> 120000"
    by (auto simp: server_services_def demo_redis_at_def)
  moreover have "last_warning (demo_state (demo_redis_at 0)) \<le> 120000" by (simp add: last_warning_def demo_state_def)
  ultimately show ?thesis
    using redis_errors_logged_rarely[of "map (\<lambda>i. (demo_redis_at (30000 * int i), JsError ''ECONNREFUSED'' None)) [0..<5]"
        server_services 120000 "demo_state (demo_redis_at 0)"]
    by (simp add: last_warning_def) (simp add: demo_state_def)
qed

end
