(* ===== verification/Publisher_Process.thy ===== *)
theory Publisher_Process
  imports Outbox_Publisher Request_Lifecycle
begin

text \<open>
  The outbox publisher (\<open>packages/outbox-publisher/src/index.ts\<close>) in small steps: the poll, any number
  of readiness probes and of calls of \<open>shutdown\<close>, each suspended at its \<open>await\<close>s, over the variables
  \<open>connection\<close> and \<open>channel\<close> of the module and the connections it opened. What a poll does with
  its rows is \<open>Outbox_Publisher\<close>; here it is its calls of the broker and its end.

  A connection and its channel close when the broker or the network says so; the close handler of
  a connection clears both variables, whichever connection they hold. A rejected promise nobody
  handles ends the process with exit code 1.
\<close>

section \<open>State\<close>

datatype channel_state = NoChannel | ChannelOpen | ChannelClosed

record amqp_link =
  al_open :: bool
  al_channel :: channel_state

text \<open>A call of \<open>connectRabbit\<close>; connections are numbered in the order they were opened.\<close>

datatype connect_call = Dialling | Creating nat | Declaring nat | Got nat | Failed js_error

datatype poll_stage = AtDatabase | AtConnect connect_call | AtConfirm nat

datatype probe_stage = AtQuery | AtBroker bool connect_call | Answered response

datatype ending_stage = AwaitsPoll | ClosesApp | ClosesChannel nat | ClosesConnection nat | EndsPool

record publisher_process =
  pp_links :: "amqp_link list"
  pp_connection :: "nat option"
  pp_channel :: "nat option"
  pp_poll :: "poll_stage option"
  pp_timer :: bool
  pp_probes :: "probe_stage list"
  pp_shuttingDown :: bool
  pp_endings :: "ending_stage list"
  pp_pool_ended :: bool
  pp_exit :: "int option"

text \<open>After \<open>app.listen\<close> and \<open>schedulePoll\<close>.\<close>

definition publisher_started :: publisher_process where
  "publisher_started = \<lparr>pp_links = [], pp_connection = None, pp_channel = None, pp_poll = None, pp_timer = True,
     pp_probes = [], pp_shuttingDown = False, pp_endings = [], pp_pool_ended = False, pp_exit = None\<rparr>"

section \<open>\<open>connectRabbit\<close>\<close>

definition connect_begins :: "publisher_process \<Rightarrow> connect_call" where
  "connect_begins st = (case pp_channel st of Some c \<Rightarrow> Got c | None \<Rightarrow> Dialling)"

text \<open>The broker's answer to the step a call waits for; a closed connection answers nothing but errors.\<close>

definition connect_goes_on :: "js_error + unit \<Rightarrow> connect_call \<Rightarrow> publisher_process \<Rightarrow> (connect_call \<times> publisher_process) option" where
  "connect_goes_on result call st = (case (call, result) of
     (Dialling, Inl e) \<Rightarrow> Some (Failed e, st)
   | (Dialling, Inr u) \<Rightarrow> (let c = length (pp_links st) in
       Some (Creating c, st\<lparr>pp_links := pp_links st @ [\<lparr>al_open = True, al_channel = NoChannel\<rparr>], pp_connection := Some c\<rparr>))
   | (Creating c, Inl e) \<Rightarrow> Some (Failed e, st)
   | (Creating c, Inr u) \<Rightarrow> if al_open (pp_links st ! c)
       then Some (Declaring c, st\<lparr>pp_links := (pp_links st)[c := (pp_links st ! c)\<lparr>al_channel := ChannelOpen\<rparr>], pp_channel := Some c\<rparr>)
       else None
   | (Declaring c, Inl e) \<Rightarrow> Some (Failed e, st)
   | (Declaring c, Inr u) \<Rightarrow> if al_channel (pp_links st ! c) = ChannelOpen then Some (Got c, st) else None
   | _ \<Rightarrow> None)"

definition link_ends :: "nat \<Rightarrow> publisher_process \<Rightarrow> publisher_process" where
  "link_ends c st = st\<lparr>pp_links := (pp_links st)[c := \<lparr>al_open = False, al_channel = ChannelClosed\<rparr>],
     pp_connection := None, pp_channel := None\<rparr>"

definition channel_ends :: "nat \<Rightarrow> publisher_process \<Rightarrow> publisher_process" where
  "channel_ends c st = st\<lparr>pp_links := (pp_links st)[c := (pp_links st ! c)\<lparr>al_channel := ChannelClosed\<rparr>]\<rparr>"

section \<open>The poll\<close>

text \<open>\<open>schedulePoll\<close>.\<close>

definition poll_scheduled :: "publisher_process \<Rightarrow> publisher_process" where
  "poll_scheduled st = (if pp_shuttingDown st then st else st\<lparr>pp_timer := True\<rparr>)"

definition poll_starts :: "publisher_process \<Rightarrow> publisher_process option" where
  "poll_starts st = (if pp_timer st then Some (st\<lparr>pp_timer := False, pp_poll := Some AtDatabase\<rparr>) else None)"

text \<open>The next row: \<open>publish\<close> calls \<open>connectRabbit\<close>.\<close>

definition poll_publishes :: "publisher_process \<Rightarrow> publisher_process option" where
  "poll_publishes st = (if pp_poll st = Some AtDatabase then Some (st\<lparr>pp_poll := Some (AtConnect (connect_begins st))\<rparr>) else None)"

text \<open>
  \<open>publish\<close> goes on: with the channel it sends the message and waits for the confirm, unless the
  channel is closed; every error goes to the \<open>UPDATE\<close> of the row.
\<close>

definition poll_goes_on :: "js_error + unit \<Rightarrow> publisher_process \<Rightarrow> publisher_process option" where
  "poll_goes_on result st = (case pp_poll st of
     Some (AtConnect (Got c)) \<Rightarrow> Some (st\<lparr>pp_poll := Some (if al_channel (pp_links st ! c) = ChannelOpen then AtConfirm c else AtDatabase)\<rparr>)
   | Some (AtConnect (Failed e)) \<Rightarrow> Some (st\<lparr>pp_poll := Some AtDatabase\<rparr>)
   | Some (AtConnect call) \<Rightarrow> map_option (\<lambda>(call', st'). st'\<lparr>pp_poll := Some (AtConnect call')\<rparr>) (connect_goes_on result call st)
   | Some (AtConfirm c) \<Rightarrow> Some (st\<lparr>pp_poll := Some AtDatabase\<rparr>)
   | _ \<Rightarrow> None)"

text \<open>The poll settles; a rejection is handled only by a \<open>shutdown\<close> that waits for it.\<close>

definition poll_settles :: "js_error + unit \<Rightarrow> publisher_process \<Rightarrow> publisher_process option" where
  "poll_settles r st = (if pp_poll st \<noteq> Some AtDatabase then None
     else let st1 = poll_scheduled (st\<lparr>pp_poll := None\<rparr>) in
       Some (case r of Inl e \<Rightarrow> if AwaitsPoll \<in> set (pp_endings st) then st1 else st1\<lparr>pp_exit := Some 1\<rparr> | Inr u \<Rightarrow> st1))"

section \<open>\<open>GET /health/ready\<close>\<close>

definition ready_response :: "bool \<Rightarrow> bool \<Rightarrow> response" where
  "ready_response datastore broker =
     (let shown = (\<lambda>ok. JStr (if ok then ''ok'' else ''failed'')); ready = datastore \<and> broker in
      \<lparr>resp_status = if ready then 200 else 503,
       resp_body = JObj [(''status'', JStr (if ready then ''ready'' else ''not_ready'')),
         (''dependencies'', JObj [(''Datastore'', shown datastore), (''Message_Broker'', shown broker)])]\<rparr>)"

definition probe_goes_on :: "nat \<Rightarrow> js_error + unit \<Rightarrow> publisher_process \<Rightarrow> publisher_process option" where
  "probe_goes_on j result st =
     (if \<not> j < length (pp_probes st) then None
      else let at = (\<lambda>p st. st\<lparr>pp_probes := (pp_probes st)[j := p]\<rparr>) in
        (case pp_probes st ! j of
           AtQuery \<Rightarrow> Some (at (AtBroker (result = Inr ()) (connect_begins st)) st)
         | AtBroker datastore (Got c) \<Rightarrow> Some (at (Answered (ready_response datastore True)) st)
         | AtBroker datastore (Failed e) \<Rightarrow> Some (at (Answered (ready_response datastore False)) st)
         | AtBroker datastore call \<Rightarrow> map_option (\<lambda>(call', st'). at (AtBroker datastore call') st') (connect_goes_on result call st)
         | Answered r \<Rightarrow> None))"

section \<open>\<open>shutdown\<close>\<close>

definition ending_begins :: "publisher_process \<Rightarrow> publisher_process" where
  "ending_begins st = st\<lparr>pp_shuttingDown := True, pp_timer := False,
     pp_endings := pp_endings st @ [if pp_poll st = None then ClosesApp else AwaitsPoll]\<rparr>"

text \<open>\<open>channel?.close()\<close> and \<open>connection?.close()\<close> throw at once on what is closed: the call rejects.\<close>

definition ending_at :: "nat \<Rightarrow> ending_stage \<Rightarrow> publisher_process \<Rightarrow> publisher_process" where
  "ending_at j p st = st\<lparr>pp_endings := (pp_endings st)[j := p]\<rparr>"

definition to_connection :: "nat \<Rightarrow> publisher_process \<Rightarrow> publisher_process" where
  "to_connection j st = (case pp_connection st of
     None \<Rightarrow> ending_at j EndsPool st
   | Some c \<Rightarrow> if al_open (pp_links st ! c) then ending_at j (ClosesConnection c) st else st\<lparr>pp_exit := Some 1\<rparr>)"

definition to_channel :: "nat \<Rightarrow> publisher_process \<Rightarrow> publisher_process" where
  "to_channel j st = (case pp_channel st of
     None \<Rightarrow> to_connection j st
   | Some c \<Rightarrow> if al_channel (pp_links st ! c) = ChannelOpen then ending_at j (ClosesChannel c) st else st\<lparr>pp_exit := Some 1\<rparr>)"

definition ending_goes_on :: "nat \<Rightarrow> js_error + unit \<Rightarrow> publisher_process \<Rightarrow> publisher_process option" where
  "ending_goes_on j result st =
     (if \<not> j < length (pp_endings st) then None
      else (case pp_endings st ! j of
         AwaitsPoll \<Rightarrow> if pp_poll st = None then Some (ending_at j ClosesApp st) else None
       | ClosesApp \<Rightarrow> Some (case result of Inl e \<Rightarrow> st\<lparr>pp_exit := Some 1\<rparr> | Inr u \<Rightarrow> to_channel j st)
       | ClosesChannel c \<Rightarrow> Some (to_connection j (if result = Inr () then channel_ends c st else st))
       | ClosesConnection c \<Rightarrow> Some (ending_at j EndsPool (if result = Inr () then link_ends c st else st))
       | EndsPool \<Rightarrow> Some (case result of
           Inl e \<Rightarrow> st\<lparr>pp_exit := Some 1\<rparr>
         | Inr u \<Rightarrow> if pp_pool_ended st then st\<lparr>pp_exit := Some 1\<rparr> else st\<lparr>pp_pool_ended := True, pp_exit := Some 0\<rparr>)))"

section \<open>Runs\<close>

datatype publisher_event =
    TimerFires | PollPublishes | PollGoesOn "js_error + unit" | PollSettles "js_error + unit"
  | ProbeArrives | ProbeGoesOn nat "js_error + unit"
  | LinkDrops nat | ChannelDrops nat
  | SignalComes | EndingGoesOn nat "js_error + unit"

fun publisher_moves :: "publisher_event \<Rightarrow> publisher_process \<Rightarrow> publisher_process option" where
  "publisher_moves TimerFires st = poll_starts st"
| "publisher_moves PollPublishes st = poll_publishes st"
| "publisher_moves (PollGoesOn result) st = poll_goes_on result st"
| "publisher_moves (PollSettles r) st = poll_settles r st"
| "publisher_moves ProbeArrives st =
     (if set (pp_endings st) \<subseteq> {AwaitsPoll} then Some (st\<lparr>pp_probes := pp_probes st @ [AtQuery]\<rparr>) else None)"
| "publisher_moves (ProbeGoesOn j result) st = probe_goes_on j result st"
| "publisher_moves (LinkDrops c) st = (if c < length (pp_links st) \<and> al_open (pp_links st ! c) then Some (link_ends c st) else None)"
| "publisher_moves (ChannelDrops c) st =
     (if c < length (pp_links st) \<and> al_channel (pp_links st ! c) = ChannelOpen then Some (channel_ends c st) else None)"
| "publisher_moves SignalComes st = Some (ending_begins st)"
| "publisher_moves (EndingGoesOn j result) st = ending_goes_on j result st"

text \<open>Once \<open>app.close()\<close> is called no probe arrives; nothing runs after the exit.\<close>

definition publisher_step :: "publisher_event \<Rightarrow> publisher_process \<Rightarrow> publisher_process option" where
  "publisher_step e st = (if pp_exit st = None then publisher_moves e st else None)"

fun publisher_run :: "publisher_event list \<Rightarrow> publisher_process \<Rightarrow> publisher_process option" where
  "publisher_run [] st = Some st"
| "publisher_run (e # es) st = (case publisher_step e st of None \<Rightarrow> None | Some st1 \<Rightarrow> publisher_run es st1)"

lemma publisher_run_append:
  "publisher_run (es @ fs) st = (case publisher_run es st of None \<Rightarrow> None | Some st1 \<Rightarrow> publisher_run fs st1)"
  by (induction es arbitrary: st) (auto split: option.splits)

section \<open>The end of the process\<close>

text \<open>No poll starts once a shutdown is under way, and a shutdown that left its first \<open>await\<close> has seen the poll end.\<close>

definition ends_idle :: "publisher_process \<Rightarrow> bool" where
  "ends_idle st \<longleftrightarrow> pp_shuttingDown st = (pp_endings st \<noteq> []) \<and> (pp_shuttingDown st \<longrightarrow> \<not> pp_timer st) \<and>
     (pp_timer st \<longrightarrow> pp_poll st = None) \<and> (set (pp_endings st) \<subseteq> {AwaitsPoll} \<or> pp_poll st = None) \<and>
     (pp_exit st \<noteq> None \<longrightarrow> pp_poll st = None) \<and> (pp_exit st = Some 0 \<longrightarrow> pp_pool_ended st \<and> pp_shuttingDown st)"

lemma connect_frame:
  assumes "connect_goes_on result call st = Some (call', st')"
  shows "pp_poll st' = pp_poll st \<and> pp_timer st' = pp_timer st \<and> pp_probes st' = pp_probes st \<and>
    pp_shuttingDown st' = pp_shuttingDown st \<and> pp_endings st' = pp_endings st \<and> pp_pool_ended st' = pp_pool_ended st \<and> pp_exit st' = pp_exit st"
  using assms by (auto simp: connect_goes_on_def Let_def split: connect_call.splits sum.splits if_splits)

lemma poll_goes_on_frame:
  assumes "poll_goes_on result st = Some st'"
  shows "pp_poll st \<noteq> None \<and> pp_timer st' = pp_timer st \<and>
    pp_shuttingDown st' = pp_shuttingDown st \<and> pp_endings st' = pp_endings st \<and> pp_pool_ended st' = pp_pool_ended st \<and> pp_exit st' = pp_exit st"
  using assms by (auto simp: poll_goes_on_def split: option.splits poll_stage.splits connect_call.splits dest!: connect_frame)

lemma probe_goes_on_frame:
  assumes "probe_goes_on j result st = Some st'"
  shows "pp_poll st' = pp_poll st \<and> pp_timer st' = pp_timer st \<and>
    pp_shuttingDown st' = pp_shuttingDown st \<and> pp_endings st' = pp_endings st \<and> pp_pool_ended st' = pp_pool_ended st \<and> pp_exit st' = pp_exit st"
  using assms by (auto simp: probe_goes_on_def Let_def split: if_splits probe_stage.splits connect_call.splits dest!: connect_frame)

lemma ends_idle_frame:
  assumes "ends_idle st" and "pp_poll st' = pp_poll st" and "pp_timer st' = pp_timer st" and "pp_shuttingDown st' = pp_shuttingDown st"
    and "pp_endings st' = pp_endings st" and "pp_pool_ended st' = pp_pool_ended st" and "pp_exit st' = pp_exit st"
  shows "ends_idle st'"
  using assms(1) unfolding ends_idle_def assms(2-7) .

lemma idle_ending:
  assumes "ends_idle st" and "j < length (pp_endings st)" and "pp_poll st = None"
  shows "ends_idle (ending_at j p st)" and "ends_idle (st\<lparr>pp_exit := Some 1\<rparr>)"
  using assms by (auto simp: ends_idle_def ending_at_def)

lemma idle_to_connection:
  assumes "ends_idle st" and "j < length (pp_endings st)" and "pp_poll st = None"
  shows "ends_idle (to_connection j st)"
  using idle_ending[OF assms] by (simp add: to_connection_def split: option.splits)

lemma idle_to_channel:
  assumes "ends_idle st" and "j < length (pp_endings st)" and "pp_poll st = None"
  shows "ends_idle (to_channel j st)"
  using idle_ending[OF assms] idle_to_connection[OF assms] by (simp add: to_channel_def split: option.splits)

lemma idle_drops:
  assumes "ends_idle st"
  shows "ends_idle (link_ends c st)" and "ends_idle (channel_ends c st)"
  by (rule ends_idle_frame[OF assms]; simp add: link_ends_def channel_ends_def)+

lemma idle_ending_goes_on:
  assumes "ends_idle st" and "ending_goes_on j result st = Some st'"
  shows "ends_idle st'"
proof -
  have j: "j < length (pp_endings st)" using assms(2) by (simp add: ending_goes_on_def split: if_splits)
  show ?thesis
  proof (cases "pp_endings st ! j")
    case AwaitsPoll
    with assms j have "pp_poll st = None" "st' = ending_at j ClosesApp st" by (auto simp: ending_goes_on_def split: if_splits)
    then show ?thesis using idle_ending(1)[OF assms(1) j] by simp
  next
    case ClosesApp
    then have poll: "pp_poll st = None" using assms(1) nth_mem[OF j] by (auto simp: ends_idle_def)
    from ClosesApp assms(2) j idle_to_channel[OF assms(1) j poll] idle_ending(2)[OF assms(1) j poll] show ?thesis
      by (auto simp: ending_goes_on_def split: sum.splits)
  next
    case (ClosesChannel c)
    then have poll: "pp_poll st = None" using assms(1) nth_mem[OF j] by (auto simp: ends_idle_def)
    have "ends_idle (to_connection j (channel_ends c st))"
      by (rule idle_to_connection) (use j poll idle_drops[OF assms(1)] in \<open>simp_all add: channel_ends_def\<close>)
    with ClosesChannel assms(2) j idle_to_connection[OF assms(1) j poll] show ?thesis
      by (auto simp: ending_goes_on_def split: if_splits)
  next
    case (ClosesConnection c)
    then have poll: "pp_poll st = None" using assms(1) nth_mem[OF j] by (auto simp: ends_idle_def)
    have "ends_idle (ending_at j EndsPool (link_ends c st))"
      by (rule idle_ending(1)) (use j poll idle_drops[OF assms(1)] in \<open>simp_all add: link_ends_def\<close>)
    with ClosesConnection assms(2) j idle_ending(1)[OF assms(1) j poll] show ?thesis
      by (auto simp: ending_goes_on_def split: if_splits)
  next
    case EndsPool
    then have poll: "pp_poll st = None" using assms(1) nth_mem[OF j] by (auto simp: ends_idle_def)
    have "ends_idle (st\<lparr>pp_pool_ended := True, pp_exit := Some 0\<rparr>)" using assms(1) poll j by (auto simp: ends_idle_def)
    with EndsPool assms(2) j idle_ending(2)[OF assms(1) j poll] show ?thesis
      by (auto simp: ending_goes_on_def split: sum.splits if_splits)
  qed
qed

lemma ends_idle_step:
  assumes "publisher_step e st = Some st'" and "ends_idle st"
  shows "ends_idle st'"
proof -
  have running: "pp_exit st = None" and move: "publisher_moves e st = Some st'"
    using assms(1) by (auto simp: publisher_step_def split: if_splits)
  show ?thesis
  proof (cases e)
    case TimerFires
    with move assms(2) running show ?thesis by (auto simp: poll_starts_def ends_idle_def split: if_splits)
  next
    case PollPublishes
    with move assms(2) running show ?thesis by (auto simp: poll_publishes_def ends_idle_def split: if_splits)
  next
    case (PollGoesOn result)
    with move poll_goes_on_frame[of result st st'] assms(2) running show ?thesis by (auto simp: ends_idle_def)
  next
    case (PollSettles r)
    with move assms(2) running show ?thesis
      by (auto simp: poll_settles_def poll_scheduled_def ends_idle_def Let_def split: if_splits sum.splits)
  next
    case (ProbeGoesOn j result)
    with move have "probe_goes_on j result st = Some st'" by simp
    from probe_goes_on_frame[OF this] show ?thesis by (intro ends_idle_frame[OF assms(2)]) simp_all
  next
    case (LinkDrops c)
    with move assms(2) idle_drops show ?thesis by (auto split: if_splits)
  next
    case (ChannelDrops c)
    with move assms(2) idle_drops show ?thesis by (auto split: if_splits)
  next
    case (EndingGoesOn j result)
    with move assms(2) idle_ending_goes_on show ?thesis by simp
  qed (use move assms(2) running in \<open>auto simp: ends_idle_def ending_begins_def split: if_splits\<close>)
qed

lemma ends_idle_run: "publisher_run es st = Some st' \<Longrightarrow> ends_idle st \<Longrightarrow> ends_idle st'"
  by (induction es arbitrary: st) (auto split: option.splits dest: ends_idle_step)

lemma shutting_needs_signal:
  "publisher_step e st = Some st' \<Longrightarrow> e \<noteq> SignalComes \<Longrightarrow> pp_shuttingDown st' = pp_shuttingDown st"
  by (cases e)
    (auto simp: publisher_step_def poll_starts_def poll_publishes_def poll_settles_def poll_scheduled_def Let_def link_ends_def
      channel_ends_def ending_goes_on_def to_channel_def to_connection_def ending_at_def
      split: if_splits sum.splits ending_stage.splits option.splits dest: poll_goes_on_frame probe_goes_on_frame)

lemma signal_first: "publisher_run es st = Some st' \<Longrightarrow> pp_shuttingDown st' \<Longrightarrow> \<not> pp_shuttingDown st \<Longrightarrow> SignalComes \<in> set es"
  by (induction es arbitrary: st) (auto split: option.splits dest: shutting_needs_signal)

lemma started_idle: "ends_idle publisher_started"
  by (simp add: ends_idle_def publisher_started_def)

section \<open>Probes that overlap\<close>

text \<open>Probes that all saw no channel, each of which then opens a connection.\<close>

definition connected :: amqp_link where
  "connected = \<lparr>al_open = True, al_channel = ChannelOpen\<rparr>"

definition probed :: "nat \<Rightarrow> nat \<Rightarrow> publisher_process" where
  "probed n k = publisher_started\<lparr>pp_probes := replicate k (Answered (ready_response True True)) @ replicate (n - k) (AtBroker True Dialling),
     pp_links := replicate k connected, pp_connection := if k = 0 then None else Some (k - 1),
     pp_channel := if k = 0 then None else Some (k - 1)\<rparr>"

lemma probes_arrive:
  "publisher_run (replicate n ProbeArrives) (publisher_started\<lparr>pp_probes := ps\<rparr>) =
     Some (publisher_started\<lparr>pp_probes := ps @ replicate n AtQuery\<rparr>)"
proof (induction n arbitrary: ps)
  case (Suc n)
  have "publisher_step ProbeArrives (publisher_started\<lparr>pp_probes := ps\<rparr>) = Some (publisher_started\<lparr>pp_probes := ps @ [AtQuery]\<rparr>)"
    by (simp add: publisher_step_def publisher_started_def)
  with Suc show ?case by simp
qed simp

lemma probes_query:
  "k \<le> n \<Longrightarrow> publisher_run (map (\<lambda>j. ProbeGoesOn j (Inr ())) [0..<k]) (publisher_started\<lparr>pp_probes := replicate n AtQuery\<rparr>) =
     Some (publisher_started\<lparr>pp_probes := replicate k (AtBroker True Dialling) @ replicate (n - k) AtQuery\<rparr>)"
proof (induction k)
  case (Suc k)
  then obtain m where m: "n - k = Suc m" "n - Suc k = m" by (cases "n - k") auto
  have "k < n" using Suc.prems by simp
  then have "publisher_step (ProbeGoesOn k (Inr ())) (publisher_started\<lparr>pp_probes := replicate k (AtBroker True Dialling) @ replicate (n - k) AtQuery\<rparr>) =
      Some (publisher_started\<lparr>pp_probes := replicate (Suc k) (AtBroker True Dialling) @ replicate (n - Suc k) AtQuery\<rparr>)"
    unfolding m
    by (simp add: publisher_step_def publisher_started_def probe_goes_on_def nth_append list_update_append connect_begins_def
        replicate_append_same)
  with Suc show ?case by (simp add: publisher_run_append)
qed simp

lemma nth_last_replicate: "(x # replicate k x) ! k = x"
  using nth_replicate[of k "Suc k" x] by simp

lemma probe_connects:
  assumes "k < n"
  shows "publisher_run (replicate 4 (ProbeGoesOn k (Inr ()))) (probed n k) = Some (probed n (Suc k))"
proof -
  from assms obtain m where m: "n - k = Suc m" "n - Suc k = m" by (cases "n - k") auto
  show ?thesis
    unfolding probed_def m using assms
    by (simp add: numeral_eq_Suc publisher_step_def publisher_started_def probe_goes_on_def nth_append list_update_append
        connect_goes_on_def Let_def connected_def replicate_append_same nth_last_replicate)
qed

lemma probes_connect:
  "k \<le> n \<Longrightarrow> publisher_run (concat (map (\<lambda>j. replicate 4 (ProbeGoesOn j (Inr ()))) [0..<k])) (probed n 0) = Some (probed n k)"
proof (induction k)
  case (Suc k)
  then have "k < n" by simp
  from probe_connects[OF this] Suc show ?case by (simp add: publisher_run_append)
qed simp

definition overlapping_probes :: "nat \<Rightarrow> publisher_event list" where
  "overlapping_probes n = replicate n ProbeArrives @ map (\<lambda>j. ProbeGoesOn j (Inr ())) [0..<n] @
     concat (map (\<lambda>j. replicate 4 (ProbeGoesOn j (Inr ()))) [0..<n])"

lemma overlapping_probes_run: "publisher_run (overlapping_probes n) publisher_started = Some (probed n n)"
proof -
  have "publisher_started = publisher_started\<lparr>pp_probes := []\<rparr>" "publisher_started\<lparr>pp_probes := replicate n (AtBroker True Dialling)\<rparr> = probed n 0"
    by (simp_all add: publisher_started_def probed_def)
  then show ?thesis
    using probes_arrive[of n "[]"] probes_query[of n n] probes_connect[of n n]
    by (simp add: overlapping_probes_def publisher_run_append)
qed

lemma probed_shutdown:
  "publisher_run (SignalComes # replicate 4 (EndingGoesOn 0 (Inr ()))) (probed (Suc n) (Suc n)) =
     Some ((probed (Suc n) (Suc n))\<lparr>pp_links := replicate n connected @ [\<lparr>al_open = False, al_channel = ChannelClosed\<rparr>],
       pp_connection := None, pp_channel := None, pp_timer := False, pp_shuttingDown := True, pp_endings := [EndsPool],
       pp_pool_ended := True, pp_exit := Some 0\<rparr>)"
  by (simp add: numeral_eq_Suc publisher_step_def probed_def publisher_started_def ending_begins_def ending_goes_on_def
      to_channel_def to_connection_def ending_at_def channel_ends_def link_ends_def nth_append list_update_append connected_def
      replicate_append_same[symmetric])

section \<open>Properties\<close>

text \<open>C38: The publisher ends between polls. In every interleaving of polls, probes, lost connections and any
  number of signals, the process never exits while a poll is under way, so no message is sent whose
  row cannot be marked because of an exit; it exits with code 0 only after a signal and with the pool ended; and
  once a shutdown is under way no poll starts.\<close>

theorem publisher_ends_between_polls:
  assumes "publisher_run es publisher_started = Some st"
  shows "(pp_exit st \<noteq> None \<longrightarrow> pp_poll st = None) \<and>
    (pp_exit st = Some 0 \<longrightarrow> SignalComes \<in> set es \<and> pp_pool_ended st) \<and>
    (pp_shuttingDown st \<longrightarrow> publisher_step TimerFires st = None)"
proof -
  have idle: "ends_idle st" by (rule ends_idle_run[OF assms started_idle])
  have "SignalComes \<in> set es" if "pp_shuttingDown st"
    using assms that signal_first[of es publisher_started st] by (simp add: publisher_started_def)
  with idle show ?thesis by (auto simp: ends_idle_def publisher_step_def poll_starts_def)
qed

text \<open>Calls of \<open>connectRabbit\<close> that overlap each open a connection, and the variables keep the last: when
  \<open>n + 1\<close> readiness probes that saw no channel go on, and nothing fails, all are answered 200 and
  \<open>n + 1\<close> connections are open; a shutdown then closes one of them. When a connection the variables
  do not hold closes, its handler forgets the one they hold, although it is open.\<close>

theorem overlapping_connects_leak:
  "\<exists>es st st'. publisher_run es publisher_started = Some st \<and> SignalComes \<notin> set es \<and>
     pp_probes st = replicate (Suc n) (Answered (ready_response True True)) \<and>
     pp_links st = replicate (Suc n) \<lparr>al_open = True, al_channel = ChannelOpen\<rparr> \<and> pp_connection st = Some n \<and>
     publisher_run (SignalComes # replicate 4 (EndingGoesOn 0 (Inr ()))) st = Some st' \<and> pp_exit st' = Some 0 \<and>
     length (filter al_open (pp_links st')) = n \<and>
     (0 < n \<longrightarrow> (\<exists>u. publisher_step (LinkDrops 0) st = Some u \<and> pp_channel u = None \<and> pp_connection u = None \<and> al_open (pp_links u ! n)))"
proof -
  let ?st = "probed (Suc n) (Suc n)"
  let ?st' = "?st\<lparr>pp_links := replicate n connected @ [\<lparr>al_open = False, al_channel = ChannelClosed\<rparr>],
       pp_connection := None, pp_channel := None, pp_timer := False, pp_shuttingDown := True, pp_endings := [EndsPool],
       pp_pool_ended := True, pp_exit := Some 0\<rparr>"
  have "SignalComes \<notin> set (overlapping_probes (Suc n))" by (auto simp: overlapping_probes_def)
  moreover have "pp_probes ?st = replicate (Suc n) (Answered (ready_response True True))" "pp_connection ?st = Some n"
    "pp_links ?st = replicate (Suc n) \<lparr>al_open = True, al_channel = ChannelOpen\<rparr>"
    by (simp_all add: probed_def connected_def)
  moreover have "length (filter al_open (pp_links ?st')) = n" "pp_exit ?st' = Some 0" by (simp_all add: connected_def)
  moreover have "\<exists>u. publisher_step (LinkDrops 0) ?st = Some u \<and> pp_channel u = None \<and> pp_connection u = None \<and> al_open (pp_links u ! n)"
    if "0 < n"
    using that by (cases n) (simp_all add: publisher_step_def probed_def publisher_started_def link_ends_def connected_def nth_last_replicate)
  ultimately show ?thesis using overlapping_probes_run[of "Suc n"] probed_shutdown[of n] by blast
qed

section \<open>Witnesses\<close>

text \<open>A signal during a poll: the shutdown waits for it.\<close>

theorem publisher_ends_between_polls_witness:
  "\<exists>st. publisher_run [TimerFires, SignalComes, PollSettles (Inr ()), EndingGoesOn 0 (Inr ()), EndingGoesOn 0 (Inr ()), EndingGoesOn 0 (Inr ())]
     publisher_started = Some st \<and> pp_exit st = Some 0 \<and> pp_poll st = None \<and> pp_pool_ended st"
proof -
  let ?es = "[TimerFires, SignalComes, PollSettles (Inr ()), EndingGoesOn 0 (Inr ()), EndingGoesOn 0 (Inr ()), EndingGoesOn 0 (Inr ())]"
  have "\<exists>st. publisher_run ?es publisher_started = Some st \<and> pp_exit st = Some 0"
    by (simp add: publisher_step_def publisher_started_def poll_starts_def ending_begins_def poll_settles_def poll_scheduled_def
        ending_goes_on_def to_channel_def to_connection_def ending_at_def)
  then obtain st where "publisher_run ?es publisher_started = Some st" "pp_exit st = Some 0" by blast
  with publisher_ends_between_polls[of ?es st] show ?thesis by blast
qed

theorem overlapping_connects_leak_witness:
  "\<exists>es st. publisher_run es publisher_started = Some st \<and> length (filter al_open (pp_links st)) = 3 \<and> pp_connection st = Some 2"
  using overlapping_connects_leak[of 2] by fastforce

end
