(* ===== verification/Load_Scenarios.thy ===== *)
theory Load_Scenarios
  imports Seed_Properties
begin

text \<open>
  The load scenarios of \<open>packages/stress-tests/scenarios\<close> as clients of the API service: what each
  iteration sends and which checks it makes. The runner (k6) is outside: it calls the functions,
  draws the random numbers and takes the time; they are arguments here. A call of its
  HTTP client does not throw: when the network fails the response has status 0 and no body.
\<close>

section \<open>Calls\<close>

record k6_response =
  k6_status :: int
  k6_body :: "json option"
  k6_headers :: "string \<Rightarrow> string option"

definition no_response :: k6_response where
  "no_response = \<lparr>k6_status = 0, k6_body = None, k6_headers = (\<lambda>_. None)\<rparr>"

definition k6_response_of :: "http_reply \<times> 'e server \<Rightarrow> k6_response" where
  "k6_response_of rw = \<lparr>k6_status = rp_status (fst rw), k6_body = rp_body (fst rw),
     k6_headers = reply_headers (srv_app (snd rw))\<rparr>"

definition k6_call ::
  "'e api_env \<Rightarrow> fetch_fate \<Rightarrow> route \<Rightarrow> http_request \<Rightarrow> json \<Rightarrow> 'e server \<Rightarrow> (k6_response \<times> 'e server) option" where
  "k6_call E fate r request payload v = (case fate of
     Unreachable e \<Rightarrow> Some (no_response, v)
   | ReplyLost e \<Rightarrow> map_option (\<lambda>rw. (no_response, snd rw)) (serve E r request (Inr payload) v)
   | Delivered \<Rightarrow> map_option (\<lambda>rw. (k6_response_of rw, snd rw)) (serve E r request (Inr payload) v))"

definition k6_get :: "string \<Rightarrow> string \<Rightarrow> string \<Rightarrow> (string \<Rightarrow> header_value option) \<Rightarrow> http_request" where
  "k6_get ip url path headers =
     \<lparr>req_method = ''GET'', req_url = url, req_route = Some path, req_ip = ip, req_id = [],
      req_correlationId = None, req_headers = headers\<rparr>"

definition client_header :: "string \<Rightarrow> string \<Rightarrow> header_value option" where
  "client_header identity = [''x-load-test-client-id'' \<mapsto> HeaderOne identity]"

definition with_bearer :: "(string \<Rightarrow> header_value option) \<Rightarrow> json option \<Rightarrow> string \<Rightarrow> header_value option" where
  "with_bearer headers token = headers(''authorization'' \<mapsto> HeaderOne (''Bearer '' @ template_text token))"

section \<open>\<open>rate-limit-abuse.js\<close>\<close>

definition page_query :: json where
  "page_query = JObj [(''page'', JStr ''1''), (''pageSize'', JStr ''1'')]"

text \<open>\<open>Boolean(r.headers[name])\<close>; k6 shows the name of a header in its canonical spelling.\<close>

definition header_present :: "string \<Rightarrow> k6_response \<Rightarrow> bool" where
  "header_present name r = (case k6_headers r name of None \<Rightarrow> False | Some x \<Rightarrow> x \<noteq> [])"

definition abuse_checks :: "int \<Rightarrow> int \<Rightarrow> k6_response \<Rightarrow> (string \<times> bool) list" where
  "abuse_checks limit iter r =
     (if iter < limit then [(''under limit is ok'', k6_status r = 200)]
      else [(''over limit is 429'', k6_status r = 429),
            (''retry-after present'', header_present ''Retry-After'' r),
            (''limit header present'', header_present ''X-RateLimit-Limit'' r),
            (''remaining header present'', header_present ''X-RateLimit-Remaining'' r),
            (''reset header present'', header_present ''X-RateLimit-Reset'' r)])"

definition abuse_iteration ::
  "'e api_env \<Rightarrow> int \<Rightarrow> string \<Rightarrow> fetch_fate \<Rightarrow> int \<Rightarrow> 'e server \<Rightarrow> ((string \<times> bool) list \<times> 'e server) option" where
  "abuse_iteration E limit ip fate iter v =
     map_option (\<lambda>(r, w). (abuse_checks limit iter r, w))
       (k6_call E fate Orders_List
         (k6_get ip ''/v1/orders?page=1&pageSize=1'' ''/v1/orders'' (client_header ''rate-limit-abuse'')) page_query v)"

text \<open>One virtual user makes all iterations, one after another, from number \<open>iter\<close> on.\<close>

fun abuse_run ::
  "'e api_env \<Rightarrow> int \<Rightarrow> string \<Rightarrow> fetch_fate list \<Rightarrow> int \<Rightarrow> 'e server \<Rightarrow> ((string \<times> bool) list list \<times> 'e server) option" where
  "abuse_run E limit ip [] iter v = Some ([], v)"
| "abuse_run E limit ip (fate # fates) iter v =
     (case abuse_iteration E limit ip fate iter v of
        None \<Rightarrow> None
      | Some (checks, w) \<Rightarrow> map_option (\<lambda>(rest, u). (checks # rest, u)) (abuse_run E limit ip fates (iter + 1) w))"

section \<open>\<open>mixed-orders.js\<close>\<close>

definition mixed_order :: "string \<Rightarrow> string \<Rightarrow> int \<Rightarrow> json" where
  "mixed_order email article cents = JObj [(''customerEmail'', JStr email),
     (''items'', JArr [JObj [(''sku'', JStr article), (''quantity'', JNum 1), (''unitPriceCents'', JNum cents)]])]"

record mixed_data =
  mx_accessToken :: "json option"
  mx_orderIds :: "json option list"

definition bad_json :: js_error where
  "bad_json = JsError ''the body is null or not JSON'' None"

definition read_of_undefined :: js_error where
  "read_of_undefined = JsError ''Cannot read property of undefined or null'' None"

definition prop_of :: "string \<Rightarrow> json option \<Rightarrow> js_error + json option" where
  "prop_of name j = (case j of None \<Rightarrow> Inl read_of_undefined | Some JNull \<Rightarrow> Inl read_of_undefined | Some x \<Rightarrow> Inr (json_prop name x))"

definition k6_json :: "k6_response \<Rightarrow> js_error + json option" where
  "k6_json r = (case k6_body r of None \<Rightarrow> Inl bad_json | Some j \<Rightarrow> Inr (Some j))"

text \<open>\<open>response.json().order.id\<close>.\<close>

definition order_id_of :: "k6_response \<Rightarrow> js_error + json option" where
  "order_id_of r = res_bind (k6_json r) (\<lambda>j. res_bind (prop_of ''order'' j) (prop_of ''id''))"

fun mixed_setup_orders ::
  "'e api_env \<Rightarrow> string \<Rightarrow> json option \<Rightarrow> (nat \<Rightarrow> fetch_fate) \<Rightarrow> nat \<Rightarrow> nat \<Rightarrow> json option list \<Rightarrow> 'e server
     \<Rightarrow> ((js_error + json option list) \<times> 'e server) option" where
  "mixed_setup_orders E ip token fate index 0 ids v = Some (Inr ids, v)"
| "mixed_setup_orders E ip token fate index (Suc n) ids v =
     (case k6_call E (fate index) Orders_Create
         (seed_post ip ''/v1/orders'' (with_bearer (seed_headers ''mixed-setup'') token))
         (mixed_order (''buyer-'' @ int_to_string (int index) @ ''@example.com'') (''SKU-'' @ int_to_string (int index)) 1299) v of
        None \<Rightarrow> None
      | Some (r, w) \<Rightarrow>
          if k6_status r = 201
          then (case order_id_of r of
                  Inl e \<Rightarrow> Some (Inl e, w)
                | Inr i \<Rightarrow> mixed_setup_orders E ip token fate (index + 1) n (ids @ [i]) w)
          else mixed_setup_orders E ip token fate (index + 1) n ids w)"

definition mixed_setup ::
  "'e api_env \<Rightarrow> string \<Rightarrow> int \<Rightarrow> fetch_fate \<Rightarrow> (nat \<Rightarrow> fetch_fate) \<Rightarrow> 'e server
     \<Rightarrow> ((js_error + mixed_data) \<times> 'e server) option" where
  "mixed_setup E ip now fate fates v =
     (case k6_call E fate Auth_Register (seed_post ip ''/v1/auth/register'' (seed_headers ''mixed-setup''))
         (JObj [(''email'', JStr (''load-'' @ int_to_string now @ ''@example.com'')),
                (''password'', JStr ''correct-horse-battery-staple'')]) v of
        None \<Rightarrow> None
      | Some (r, w) \<Rightarrow>
          (case res_bind (k6_json r) (prop_of ''accessToken'') of
             Inl e \<Rightarrow> Some (Inl e, w)
           | Inr token \<Rightarrow> map_option (map_prod (map_sum id (\<lambda>ids. \<lparr>mx_accessToken = token, mx_orderIds = ids\<rparr>)) id)
               (mixed_setup_orders E ip token fates 0 50 [] w)))"

text \<open>
  One iteration: \<open>it_reads\<close> is \<open>Math.random() < 0.7\<close>, \<open>it_pick\<close> the random index, \<open>it_vu\<close> and
  \<open>it_iter\<close> the numbers of the virtual user and of its iteration.
\<close>

record mixed_turn =
  it_reads :: bool
  it_pick :: nat
  it_vu :: int
  it_iter :: int
  it_fate :: fetch_fate

definition turn_identity :: "mixed_turn \<Rightarrow> string" where
  "turn_identity it = ''mixed-'' @ int_to_string (it_vu it) @ ''-'' @ int_to_string (it_iter it)"

definition mixed_iteration ::
  "'e api_env \<Rightarrow> string \<Rightarrow> mixed_data \<Rightarrow> mixed_turn \<Rightarrow> 'e server \<Rightarrow> ((string \<times> bool) \<times> 'e server) option" where
  "mixed_iteration E ip dat it v =
     (if it_reads it \<and> mx_orderIds dat \<noteq> []
      then let orderId = template_text (mx_orderIds dat ! it_pick it) in
           map_option (\<lambda>(r, w). ((''get order ok'', k6_status r = 200), w))
             (k6_call E (it_fate it) (Order_Get orderId)
               (k6_get ip (''/v1/orders/'' @ orderId) ''/v1/orders/:id'' (client_header (turn_identity it))) JNull v)
      else map_option (\<lambda>(r, w). ((''create order ok'', k6_status r = 201), w))
             (k6_call E (it_fate it) Orders_Create
               (seed_post ip ''/v1/orders'' (with_bearer (seed_headers (turn_identity it)) (mx_accessToken dat)))
               (mixed_order (''buyer-'' @ int_to_string (it_vu it) @ ''-'' @ int_to_string (it_iter it) @ ''@example.com'')
                  (''SKU-'' @ int_to_string (it_vu it)) 1599) v))"

fun mixed_run ::
  "'e api_env \<Rightarrow> string \<Rightarrow> mixed_data \<Rightarrow> mixed_turn list \<Rightarrow> 'e server \<Rightarrow> ((string \<times> bool) list \<times> 'e server) option" where
  "mixed_run E ip dat [] v = Some ([], v)"
| "mixed_run E ip dat (it # its) v =
     (case mixed_iteration E ip dat it v of
        None \<Rightarrow> None
      | Some (c, w) \<Rightarrow> map_option (\<lambda>(cs, u). (c # cs, u)) (mixed_run E ip dat its w))"

section \<open>\<open>login-storm.js\<close>\<close>

record storm_data =
  ls_email :: string
  ls_password :: string

definition storm_setup ::
  "'e api_env \<Rightarrow> string \<Rightarrow> int \<Rightarrow> fetch_fate \<Rightarrow> 'e server \<Rightarrow> (((string \<times> bool) \<times> storm_data) \<times> 'e server) option" where
  "storm_setup E ip now fate v =
     (let dat = \<lparr>ls_email = ''login-'' @ int_to_string now @ ''@example.com'', ls_password = ''correct-horse-battery-staple''\<rparr> in
      map_option (\<lambda>(r, w). (((''registered login user'', k6_status r = 201), dat), w))
        (k6_call E fate Auth_Register (seed_post ip ''/v1/auth/register'' (seed_headers ''login-setup''))
          (JObj [(''email'', JStr (ls_email dat)), (''password'', JStr (ls_password dat))]) v))"

text \<open>\<open>valid\<close> is \<open>Math.random() < 0.8\<close>.\<close>

definition storm_iteration ::
  "'e api_env \<Rightarrow> string \<Rightarrow> storm_data \<Rightarrow> bool \<Rightarrow> int \<Rightarrow> int \<Rightarrow> fetch_fate \<Rightarrow> 'e server \<Rightarrow> ((string \<times> bool) \<times> 'e server) option" where
  "storm_iteration E ip dat valid vu iter fate v =
     (let suffix = int_to_string vu @ ''-'' @ int_to_string iter in
      map_option (\<lambda>(r, w). (if valid then (''valid login ok'', k6_status r = 200)
                            else (''invalid login rejected'', k6_status r = 401 \<or> k6_status r = 423), w))
        (k6_call E fate Auth_Login (seed_post ip ''/v1/auth/login'' (seed_headers (''login-'' @ suffix)))
          (JObj [(''email'', JStr (if valid then ls_email dat else ''invalid-'' @ suffix @ ''@example.com'')),
                 (''password'', JStr (if valid then ls_password dat else ''wrong-password-value''))]) v))"

section \<open>Requests without a token\<close>

lemma no_bearer [simp]:
  "bearer_user A cfg (k6_get ip url path (client_header identity)) now = None"
  "req_headers (k6_get ip url path headers) = headers" "req_url (k6_get ip url path headers) = url"
  by (simp_all add: bearer_user_def k6_get_def client_header_def)

lemma unread_order:
  assumes "k6_call E fate (Order_Get i) (k6_get ip url path (client_header identity)) payload v = Some (r, w)"
  shows "k6_status r \<noteq> 200"
proof (cases fate)
  case Delivered
  with assms obtain reply where run: "serve E (Order_Get i) (k6_get ip url path (client_header identity)) (Inr payload) v = Some (reply, w)"
    and r: "k6_status r = rp_status reply"
    by (auto simp: k6_call_def k6_response_of_def)
  have "rp_status reply \<in> {401, 429, 500, 503}" by (rule order_routes_need_token[OF _ run]) simp_all
  with r show ?thesis by auto
next
  case (Unreachable e)
  with assms show ?thesis by (auto simp: k6_call_def no_response_def)
next
  case (ReplyLost e)
  with assms show ?thesis by (auto simp: k6_call_def no_response_def)
qed

section \<open>The limiter at the service\<close>

lemma admitted_client [simp]:
  "getClientIdentifier (admitted_request E request s) cfg = getClientIdentifier request cfg"
proof -
  have "req_ip (admitted_request E request s) = req_ip request"
    by (simp add: admitted_request_def with_request_id_def Let_def)
  then show ?thesis by (simp only: getClientIdentifier_def admitted_request_simps)
qed

context redis_up
begin

text \<open>The headers the limiter sets.\<close>

lemma enforceRateLimit_headers:
  assumes "up (ext s)" and "\<not> rate_exempt (req_url request)" and "0 < rateLimitWindowSeconds cfg"
    and "rate_key S cfg request (ext s) = k" and "counts_only (store (ext s)) k"
  obtains s' ttl where "enforceRateLimit S cfg request s =
      (Inr (if rateLimitRequests cfg < count_at (store (ext s)) k + 1 then Some too_many_requests else None), s')"
    and "store (ext s') = (store (ext s))(k \<mapsto> int_to_string (count_at (store (ext s)) k + 1))" and "up (ext s')"
    and "reply_headers s' = (let shown = (reply_headers s)(''X-RateLimit-Limit'' \<mapsto> int_to_string (rateLimitRequests cfg),
        ''X-RateLimit-Remaining'' \<mapsto> int_to_string (max (rateLimitRequests cfg - (count_at (store (ext s)) k + 1)) 0),
        ''X-RateLimit-Reset'' \<mapsto> int_to_string (max ttl 1)) in
      if rateLimitRequests cfg < count_at (store (ext s)) k + 1 then shown(''Retry-After'' \<mapsto> int_to_string (max ttl 1)) else shown)"
proof -
  let ?n = "count_at (store (ext s)) k + 1"
  obtain e1 where e1: "await (ext_call (redis_incr S k)) s = (Inr ?n, s\<lparr>ext := e1\<rparr>)"
    "store e1 = (store (ext s))(k \<mapsto> int_to_string ?n)" "up e1"
    by (rule incr_eval[OF assms(1,5)])
  obtain e2 where e2: "(if ?n = 1 then await (ext_call (redis_expire S k (rateLimitWindowSeconds cfg)))
      else io_return ()) (s\<lparr>ext := e1\<rparr>) = (Inr (), s\<lparr>ext := e2\<rparr>)" "store e2 = store e1" "up e2"
    using e1(3) expire_eval[of "s\<lparr>ext := e1\<rparr>" "rateLimitWindowSeconds cfg" k] assms(3) by (cases "?n = 1") auto
  obtain t e3 where e3: "await (ext_call (redis_ttl S k)) (s\<lparr>ext := e2\<rparr>) = (Inr t, s\<lparr>ext := e3\<rparr>)"
    "store e3 = store e2" "up e3"
    using ttl_eval[of "s\<lparr>ext := e2\<rparr>" k] e2(3) by auto
  let ?out = "enforceRateLimit S cfg request s"
  have "fst ?out = Inr (if rateLimitRequests cfg < ?n then Some too_many_requests else None) \<and> ext (snd ?out) = e3 \<and>
    reply_headers (snd ?out) = (let shown = (reply_headers s)(''X-RateLimit-Limit'' \<mapsto> int_to_string (rateLimitRequests cfg),
        ''X-RateLimit-Remaining'' \<mapsto> int_to_string (max (rateLimitRequests cfg - ?n) 0),
        ''X-RateLimit-Reset'' \<mapsto> int_to_string (max t 1)) in
      if rateLimitRequests cfg < ?n then shown(''Retry-After'' \<mapsto> int_to_string (max t 1)) else shown)"
    using e1(1) e2(1) e3(1) assms(2,4)
    by (simp add: enforceRateLimit_def io_bind_apply io_catch_apply Let_def set_header_def del: if_image_distrib)
  with that[of "snd ?out" t] e1 e2 e3 show thesis by (simp add: prod_eq_iff)
qed

text \<open>A request without a token is counted, and answered 401, or 429 above the limit.\<close>

lemma tokenless_served:
  assumes "en_services E = S" and "en_config E = cfg" and "needs_user r" and "req_headers request ''authorization'' = None"
    and "\<not> shuttingDown (srv_life v)" and "up (ext (srv_app v))" and "\<not> rate_exempt (req_url request)"
    and "0 < rateLimitWindowSeconds cfg" and "rate_key S cfg request (ext (srv_app v)) = k"
    and "counts_only (store (ext (srv_app v))) k" and "n = count_at (store (ext (srv_app v))) k + 1"
  obtains reply w where "serve E r request (Inr input) v = Some (reply, w)"
    and "rp_status reply = (if rateLimitRequests cfg < n then 429 else 401)"
    and "\<not> shuttingDown (srv_life w)" and "up (ext (srv_app w))"
    and "store (ext (srv_app w)) = (store (ext (srv_app v)))(k \<mapsto> int_to_string n)"
    and "rateLimitRequests cfg < n \<Longrightarrow> (\<exists>x. reply_headers (srv_app w) ''Retry-After'' = Some x \<and> x \<noteq> []) \<and>
      (\<exists>x. reply_headers (srv_app w) ''X-RateLimit-Limit'' = Some x \<and> x \<noteq> []) \<and>
      (\<exists>x. reply_headers (srv_app w) ''X-RateLimit-Remaining'' = Some x \<and> x \<noteq> []) \<and>
      (\<exists>x. reply_headers (srv_app w) ''X-RateLimit-Reset'' = Some x \<and> x \<noteq> [])"
proof -
  let ?request = "admitted_request E request (srv_app v)" and ?s = "admitted_state E request (srv_app v)"
  have key: "rate_key S cfg ?request (ext ?s) = k"
    using assms(9) by (simp only: rate_key_def admitted_client admitted_state_simps)
  have hyps: "up (ext ?s)" "\<not> rate_exempt (req_url ?request)" "counts_only (store (ext ?s)) k" using assms(6,7,10) by simp_all
  obtain s' ttl where limit: "enforceRateLimit S cfg ?request ?s =
      (Inr (if rateLimitRequests cfg < n then Some too_many_requests else None), s')"
    "store (ext s') = (store (ext ?s))(k \<mapsto> int_to_string n)" "up (ext s')"
    and headers: "reply_headers s' = (let shown = (reply_headers ?s)(''X-RateLimit-Limit'' \<mapsto> int_to_string (rateLimitRequests cfg),
        ''X-RateLimit-Remaining'' \<mapsto> int_to_string (max (rateLimitRequests cfg - n) 0),
        ''X-RateLimit-Reset'' \<mapsto> int_to_string (max ttl 1)) in
      if rateLimitRequests cfg < n then shown(''Retry-After'' \<mapsto> int_to_string (max ttl 1)) else shown)"
    by (rule enforceRateLimit_headers[OF hyps(1,2) assms(8) key hyps(3)]) (simp add: assms(11))
  have auth: "authenticate S (en_auth E) cfg ?request s' = (Inr (Inl (unauthenticated_because ''Missing bearer token'')), s')"
    using assms(4) by (simp add: authenticate_def)
  let ?reply = "send_response (if rateLimitRequests cfg < n then too_many_requests else unauthenticated_because ''Missing bearer token'')"
  have run: "after_admission E r ?request (Inr input) ?s = Some (?reply, s')"
    using limit(1) auth assms(1-3) by (simp add: after_admission_def run_route_def)
  let ?w = "v\<lparr>srv_app := s', srv_life := onResponse (srv_arrivals v) (rp_status ?reply)
      ((srv_life v)\<lparr>activeRequests := activeRequests (srv_life v) + 1, requestStart := insert (srv_arrivals v) (requestStart (srv_life v)),
         inFlightGauge := inFlightGauge (srv_life v) + 1\<rparr>), srv_arrivals := srv_arrivals v + 1\<rparr>"
  show thesis
  proof (rule that[of ?reply ?w])
    show "serve E r request (Inr input) v = Some (?reply, ?w)" using run by (simp add: serve_admitted[OF assms(5)])
    show "rp_status ?reply = (if rateLimitRequests cfg < n then 429 else 401)"
      by (simp add: send_response_def too_many_requests_def unauthenticated_because_def error_response_def)
    show "\<not> shuttingDown (srv_life ?w)" using assms(5) by (simp add: onResponse_def Let_def)
  qed (use limit(2,3) headers in \<open>simp_all add: Let_def\<close>)
qed

end

text \<open>What the scenario sees.\<close>

definition abuse_outcome :: "int \<Rightarrow> int \<Rightarrow> (string \<times> bool) list" where
  "abuse_outcome limit iter = (if iter < limit then [(''under limit is ok'', False)]
     else [(''over limit is 429'', True), (''retry-after present'', True), (''limit header present'', True),
       (''remaining header present'', True), (''reset header present'', True)])"

definition abuse_request :: "string \<Rightarrow> http_request" where
  "abuse_request ip = k6_get ip ''/v1/orders?page=1&pageSize=1'' ''/v1/orders'' (client_header ''rate-limit-abuse'')"

context redis_up
begin

lemma abuse_run_outcome:
  assumes "en_services E = S" and "0 < rateLimitWindowSeconds (en_config E)"
    and "\<And>e. up e \<Longrightarrow> rate_key S (en_config E) (abuse_request ip) e = k"
    and "\<not> shuttingDown (srv_life v)" and "up (ext (srv_app v))" and "counts_only (store (ext (srv_app v))) k"
    and "count_at (store (ext (srv_app v))) k = iter"
  shows "\<exists>w. abuse_run E (rateLimitRequests (en_config E)) ip (replicate n Delivered) iter v =
    Some (map (\<lambda>i. abuse_outcome (rateLimitRequests (en_config E)) (iter + int i)) [0..<n], w)"
  using assms(4-7)
proof (induction n arbitrary: v iter)
  case (Suc n)
  let ?limit = "rateLimitRequests (en_config E)" and ?request = "abuse_request ip"
  have request: "req_headers ?request ''authorization'' = None" "\<not> rate_exempt (req_url ?request)"
    by (simp_all add: abuse_request_def client_header_def rate_exempt_def)
  have needs: "needs_user Orders_List" and count: "iter + 1 = count_at (store (ext (srv_app v))) k + 1"
    using Suc.prems(4) by simp_all
  obtain reply w where served: "serve E Orders_List ?request (Inr page_query) v = Some (reply, w)"
    "rp_status reply = (if ?limit < iter + 1 then 429 else 401)" "\<not> shuttingDown (srv_life w)" "up (ext (srv_app w))"
    "store (ext (srv_app w)) = (store (ext (srv_app v)))(k \<mapsto> int_to_string (iter + 1))"
    and headers: "?limit < iter + 1 \<Longrightarrow> (\<exists>x. reply_headers (srv_app w) ''Retry-After'' = Some x \<and> x \<noteq> []) \<and>
      (\<exists>x. reply_headers (srv_app w) ''X-RateLimit-Limit'' = Some x \<and> x \<noteq> []) \<and>
      (\<exists>x. reply_headers (srv_app w) ''X-RateLimit-Remaining'' = Some x \<and> x \<noteq> []) \<and>
      (\<exists>x. reply_headers (srv_app w) ''X-RateLimit-Reset'' = Some x \<and> x \<noteq> [])"
    by (rule tokenless_served[OF assms(1) refl needs request(1) Suc.prems(1,2) request(2) assms(2) assms(3)[OF Suc.prems(2)]
          Suc.prems(3) count]) blast
  have checks: "abuse_checks ?limit iter (k6_response_of (reply, w)) = abuse_outcome ?limit iter"
    using served(2) headers
    by (auto simp: abuse_checks_def abuse_outcome_def k6_response_of_def header_present_def)
  have counter: "counts_only (store (ext (srv_app w))) k" "count_at (store (ext (srv_app w))) k = iter + 1"
    by (auto simp: served(5) counts_only_def count_at_def)
  obtain u where "abuse_run E ?limit ip (replicate n Delivered) (iter + 1) w =
      Some (map (\<lambda>i. abuse_outcome ?limit (iter + 1 + int i)) [0..<n], u)"
    using Suc.IH[OF served(3,4) counter] by blast
  moreover have "map (\<lambda>i. abuse_outcome ?limit (iter + int i)) [0..<Suc n] =
      abuse_outcome ?limit iter # map (\<lambda>i. abuse_outcome ?limit (iter + 1 + int i)) [0..<n]"
    by (simp add: map_upt_Suc algebra_simps del: upt_Suc)
  ultimately show ?case
    using served(1) checks by (simp add: abuse_iteration_def k6_call_def abuse_request_def del: upt_Suc)
qed simp

end

section \<open>Properties\<close>

text \<open>The scenario \<open>mixed-orders.js\<close> never reads an order: it sends no token with its reads, and in every
  run, against a service in any state, with whatever account and orders its setup made and however
  the network fails, each iteration that reads fails its check \<open>get order ok\<close>.\<close>

theorem mixed_orders_never_reads:
  assumes "mixed_run E ip dat its v = Some (checks, w)" and "mx_orderIds dat \<noteq> []"
  shows "length checks = length its \<and>
    filter (\<lambda>c. fst c = ''get order ok'') checks = replicate (length (filter it_reads its)) (''get order ok'', False)"
  using assms(1)
proof (induction its arbitrary: v checks)
  case (Cons it its)
  then obtain c w1 cs where it: "mixed_iteration E ip dat it v = Some (c, w1)" and rest: "mixed_run E ip dat its w1 = Some (cs, w)"
    and checks: "checks = c # cs"
    by (auto split: option.splits)
  have "c = (''get order ok'', False)" if "it_reads it"
    using it that assms(2) by (auto simp: mixed_iteration_def Let_def dest: unread_order)
  moreover have "fst c = ''create order ok''" if "\<not> it_reads it"
    using it that by (auto simp: mixed_iteration_def)
  ultimately show ?case using Cons.IH[OF rest] by (cases "it_reads it") (auto simp: checks)
qed simp

text \<open>The scenario \<open>rate-limit-abuse.js\<close> against the limit it is made for: on an idle client, with Redis up
  and all iterations in one window of the limiter, the iterations above the limit find the 429
  and its four headers, and all iterations below the limit fail their check, because
  the list of orders needs a token the scenario does not send.\<close>

theorem abuse_scenario_fails_below_limit:
  assumes "redis_up (en_services E) store up" and "0 < rateLimitWindowSeconds (en_config E)"
    and "\<And>e. up e \<Longrightarrow> rate_key (en_services E) (en_config E) (abuse_request ip) e = k"
    and "\<not> shuttingDown (srv_life v)" and "up (ext (srv_app v))" and "store (ext (srv_app v)) k = None"
    and "limit = rateLimitRequests (en_config E)" and "0 \<le> limit"
  shows "\<exists>w. abuse_run E limit ip (replicate (nat (limit + 10)) Delivered) 0 v =
    Some (replicate (nat limit) [(''under limit is ok'', False)] @
      replicate 10 [(''over limit is 429'', True), (''retry-after present'', True), (''limit header present'', True),
        (''remaining header present'', True), (''reset header present'', True)], w)"
proof -
  let ?above = "[(''over limit is 429'', True), (''retry-after present'', True), (''limit header present'', True),
    (''remaining header present'', True), (''reset header present'', True)]"
  have idle: "counts_only (store (ext (srv_app v))) k" "count_at (store (ext (srv_app v))) k = 0"
    using assms(6) by (simp_all add: counts_only_def count_at_def)
  obtain w where run: "abuse_run E limit ip (replicate (nat (limit + 10)) Delivered) 0 v =
      Some (map (\<lambda>i. abuse_outcome limit (0 + int i)) [0..<nat (limit + 10)], w)"
    using redis_up.abuse_run_outcome[OF assms(1) refl assms(2-5) idle] unfolding assms(7) by blast
  have "map (\<lambda>i. abuse_outcome limit (0 + int i)) [0..<nat (limit + 10)] =
      replicate (nat limit) [(''under limit is ok'', False)] @ replicate 10 ?above"
  proof (rule nth_equalityI)
    fix i assume "i < length (map (\<lambda>i. abuse_outcome limit (0 + int i)) [0..<nat (limit + 10)])"
    then have "int i < limit + 10" by simp
    moreover have "i < nat limit \<longleftrightarrow> int i < limit" by linarith
    ultimately show "map (\<lambda>i. abuse_outcome limit (0 + int i)) [0..<nat (limit + 10)] ! i =
        (replicate (nat limit) [(''under limit is ok'', False)] @ replicate 10 ?above) ! i"
      by (simp add: abuse_outcome_def nth_append nth_replicate)
  qed (use assms(8) in \<open>simp add: nat_add_distrib\<close>)
  with run show ?thesis by auto
qed

section \<open>Witnesses\<close>

definition reading_turn :: mixed_turn where
  "reading_turn = \<lparr>it_reads = True, it_pick = 0, it_vu = 1, it_iter = 0, it_fate = Delivered\<rparr>"

definition demo_mixed :: mixed_data where
  "demo_mixed = \<lparr>mx_accessToken = None, mx_orderIds = [Some (JStr demo_id)]\<rparr>"

theorem mixed_orders_never_reads_witness:
  "\<exists>w. mixed_run demo_env ''10.0.0.1'' demo_mixed [reading_turn] demo_service = Some ([(''get order ok'', False)], w)"
proof -
  let ?request = "k6_get ''10.0.0.1'' (''/v1/orders/'' @ demo_id) ''/v1/orders/:id'' (client_header (turn_identity reading_turn))"
  obtain reply t where "after_admission demo_env (Order_Get demo_id) (admitted_request demo_env ?request (srv_app demo_service))
      (Inr JNull) (admitted_state demo_env ?request (srv_app demo_service)) = Some (reply, t)"
    using after_admission_returns[where E = demo_env and store = "\<lambda>m. m"] stub.redis_expiring_axioms
    by (fastforce simp: demo_config_def)
  then obtain w where "serve demo_env (Order_Get demo_id) ?request (Inr JNull) demo_service = Some (reply, w)"
    by (auto simp: serve_admitted)
  then obtain c where run: "mixed_run demo_env ''10.0.0.1'' demo_mixed [reading_turn] demo_service = Some ([c], w)"
    and name: "fst c = ''get order ok''"
    by (simp add: mixed_iteration_def demo_mixed_def reading_turn_def template_text_def k6_call_def)
  have "mx_orderIds demo_mixed \<noteq> []" by (simp add: demo_mixed_def)
  from mixed_orders_never_reads[OF run this] name have "c = (''get order ok'', False)" by (simp add: reading_turn_def)
  with run show ?thesis by blast
qed

definition server_env :: "redis_server api_env" where
  "server_env = \<lparr>en_services = server_services, en_auth = demo_crypto, en_config = demo_config, en_sha = demo_sha,
     en_uuid = demo_uuid, en_issues = (\<lambda>j. []), en_times = demo_times, en_query_ms = 5,
     en_odd_status = (\<lambda>j. Inl bad_status_code)\<rparr>"

definition quiet_service :: "redis_server server" where
  "quiet_service = \<lparr>srv_app = demo_app quiet_server, srv_life = createRequestLifecycleState, srv_arrivals = 0\<rparr>"

theorem abuse_scenario_witness:
  "\<exists>w. abuse_run server_env 100 ''10.0.0.1'' (replicate 110 Delivered) 0 quiet_service =
    Some (replicate 100 [(''under limit is ok'', False)] @
      replicate 10 [(''over limit is 429'', True), (''retry-after present'', True), (''limit header present'', True),
        (''remaining header present'', True), (''reset header present'', True)], w)"
proof -
  let ?k = "rate_key server_services demo_config (abuse_request ''10.0.0.1'') quiet_server"
  have env: "en_services server_env = server_services" "en_config server_env = demo_config" by (simp_all add: server_env_def)
  have up: "redis_up (en_services server_env) live (\<lambda>sv. rs_script sv = [] \<and> rs_now sv = 1000)"
    using server_at[of 1000] by (simp add: env)
  have key: "rate_key (en_services server_env) (en_config server_env) (abuse_request ''10.0.0.1'') e = ?k"
    if "rs_script e = [] \<and> rs_now e = 1000" for e
    using that by (simp add: env rate_key_def server_services_def quiet_server_def)
  have "0 < rateLimitWindowSeconds (en_config server_env)" "(100::int) = rateLimitRequests (en_config server_env)"
    by (simp_all add: env demo_config_def)
  moreover have "\<not> shuttingDown (srv_life quiet_service)"
    "rs_script (ext (srv_app quiet_service)) = [] \<and> rs_now (ext (srv_app quiet_service)) = 1000"
    "live (ext (srv_app quiet_service)) ?k = None"
    by (simp_all add: quiet_service_def createRequestLifecycleState_def demo_app_def api_state.extend_def demo_state_def
        quiet_server_def live_def)
  ultimately show ?thesis
    using abuse_scenario_fails_below_limit[OF up _ key, of quiet_service 100] by (simp)
qed

end
