(* ===== verification/Stack_Scripts.thy ===== *)
theory Stack_Scripts
  imports Shared_Lib
begin

text \<open>
  \<open>scripts/stack-up.mjs\<close> and \<open>scripts/stack-down.mjs\<close>: the command line, the docker commands they run
  and the exit code. What a command does is a parameter: its exit status (\<open>None\<close>: it was killed or
  could not start) and its output. Console output is left out.
\<close>

section \<open>\<open>stack-up.mjs\<close>\<close>

definition MAX_REPLICAS :: int where "MAX_REPLICAS = 16"

definition WAIT_TIMEOUT_SECONDS :: int where "WAIT_TIMEOUT_SECONDS = 180"

text \<open>\<open>argv[argv.indexOf("--replicas") + 1]\<close>, if the option is there.\<close>

fun replicasArg :: "string list \<Rightarrow> string option" where
  "replicasArg [] = None"
| "replicasArg (a # rest) = (if a = ''--replicas'' then (case rest of [] \<Rightarrow> None | b # _ \<Rightarrow> Some b) else replicasArg rest)"

definition parsed_replicas :: "string list \<Rightarrow> int option" where
  "parsed_replicas argv = (case parseInt (case replicasArg argv of None \<Rightarrow> [] | Some a \<Rightarrow> a) of
     None \<Rightarrow> None
   | Some n \<Rightarrow> if n < 1 \<or> MAX_REPLICAS < n then None else Some n)"

definition compose :: "string list" where
  "compose = [''compose'', ''--progress'', ''plain'', ''-f'', ''infra/docker-compose.yml'']"

type_synonym docker = "string list \<Rightarrow> int option \<times> string"

text \<open>\<open>runDocker\<close>: a command that fails ends the script. The second component lists the commands run.\<close>

definition runDocker :: "docker \<Rightarrow> string list \<Rightarrow> (string \<Rightarrow> int \<times> string list list) \<Rightarrow> int \<times> string list list" where
  "runDocker docker args rest =
     (case docker args of (status, stdout) \<Rightarrow>
        if status \<noteq> Some 0 then ((case status of None \<Rightarrow> 1 | Some c \<Rightarrow> c), [args])
        else (case rest stdout of (code, commands) \<Rightarrow> (code, args # commands)))"

definition up_command :: "int \<Rightarrow> string list" where
  "up_command replicas = compose @ [''up'', ''-d'', ''--build'', ''--wait'', ''--wait-timeout'', int_to_string WAIT_TIMEOUT_SECONDS,
     ''--scale'', ''api-service='' @ int_to_string replicas]"

definition stack_up :: "docker \<Rightarrow> string list \<Rightarrow> int \<times> string list list" where
  "stack_up docker argv = (case parsed_replicas argv of
     None \<Rightarrow> (1, [])
   | Some replicas \<Rightarrow>
       runDocker docker (up_command replicas) (\<lambda>_.
       runDocker docker (compose @ [''port'', ''postgres'', ''5432'']) (\<lambda>postgresPort.
       runDocker docker (compose @ [''port'', ''pgbouncer'', ''6432'']) (\<lambda>pgbouncerPort. (0, [])))))"

section \<open>\<open>stack-down.mjs\<close>\<close>

definition stack_down :: "docker \<Rightarrow> string list \<Rightarrow> int \<times> string list list" where
  "stack_down docker argv =
     (let args = [''compose'', ''-f'', ''infra/docker-compose.yml'', ''down''] @
        (if ''--volumes'' \<in> set argv \<or> ''-v'' \<in> set argv then [''-v''] else [])
      in ((case fst (docker args) of None \<Rightarrow> 1 | Some c \<Rightarrow> c), [args]))"

section \<open>Properties\<close>

text \<open>
  The stack is scaled to between one and sixteen replicas, the slots of the load balancer, or docker
  is not called at all; the script succeeds iff all three commands do.
\<close>

theorem stack_up_scales_within_slots:
  assumes "stack_up docker argv = (code, commands)"
  shows "(commands = [] \<and> code = 1 \<and> parsed_replicas argv = None) \<or>
    (\<exists>n. 1 \<le> n \<and> n \<le> 16 \<and> hd commands = up_command n \<and>
      (code = 0 \<longleftrightarrow> (\<forall>args\<in>{up_command n, compose @ [''port'', ''postgres'', ''5432''], compose @ [''port'', ''pgbouncer'', ''6432'']}.
        fst (docker args) = Some 0)))"
proof (cases "parsed_replicas argv")
  case None
  with assms show ?thesis by (simp add: stack_up_def)
next
  case (Some n)
  then have "1 \<le> n" "n \<le> 16" by (auto simp: parsed_replicas_def MAX_REPLICAS_def split: option.splits if_splits)
  moreover from assms Some have "hd commands = up_command n \<and>
      (code = 0 \<longleftrightarrow> (\<forall>args\<in>{up_command n, compose @ [''port'', ''postgres'', ''5432''], compose @ [''port'', ''pgbouncer'', ''6432'']}.
        fst (docker args) = Some 0))"
    by (auto simp: stack_up_def runDocker_def split: prod.splits if_splits option.splits)
  ultimately show ?thesis by blast
qed

text \<open>The volumes are removed only on request.\<close>

theorem stack_down_keeps_volumes:
  "snd (stack_down docker argv) = [args] \<Longrightarrow> ''-v'' \<in> set args \<longleftrightarrow> ''--volumes'' \<in> set argv \<or> ''-v'' \<in> set argv"
  by (auto simp: stack_down_def Let_def split: if_splits)

theorem stack_up_witness:
  "parsed_replicas [''--replicas'', ''3''] = Some 3 \<and> parsed_replicas [''--replicas'', ''17''] = None \<and> parsed_replicas [] = None"
proof -
  have "parseInt ''3'' = Some 3" "parseInt ''17'' = Some 17" "parseInt '''' = None" by code_simp+
  then show ?thesis by (simp add: parsed_replicas_def MAX_REPLICAS_def)
qed

end
