(* ===== verification/Spec2Isabelle.thy ===== *)
theory Spec2Isabelle
  imports Pagination System_History Auth_Witnesses Request_Lifecycle Cache_Transparency Migration_Properties
    Seed_Properties Worker_Process_Properties Idempotency_Steps
    Login_Overlap Login_Lockout Refresh_Failure Api_Boot Publisher_Process Load_Scenarios Stack_Scripts
begin

text \<open>
  A model of the order service of this repository: three Node.js services around one Postgres
  database, a Redis cache and a RabbitMQ broker, the scripts that migrate the database, load orders
  through the API and start the containers, and the load scenarios.

  \<^bold>\<open>The program.\<close> The API service (\<open>packages/api-service\<close>) creates, reads, lists and changes
  orders and manages users and their tokens. Creating an order writes the order, an audit row and
  an outbox row in one transaction. The outbox publisher (\<open>packages/outbox-publisher\<close>) polls the
  outbox and sends each event to an exchange with publisher confirms. The worker
  (\<open>packages/worker-service\<close>) consumes the events, drops duplicates by a table of processed ids,
  makes the notification, and requeues or dead-letters what fails. \<open>packages/shared\<close> holds the
  statuses, their transition table and the readers of environment variables.

  \<^bold>\<open>How code is modelled.\<close> An \<open>async\<close> function is a state transformer that ends in an error or a
  value (\<open>io\<close> in \<open>Ts_Prelude\<close>, with \<open>io_bind\<close> for \<open>await\<close> in sequence, \<open>io_catch\<close>, \<open>io_finally\<close>,
  \<open>io_all2\<close>); a rejection keeps the effects made before it. Values of type \<open>T\<close> that are stored or
  sent are their JSON (\<open>Js_Json\<close>). Texts are Latin-1 (\<open>Js_Text\<close>), numbers unbounded integers: the
  code counts cents, seconds and rows far below \<open>2^53\<close>; where a width matters (the columns
  \<open>integer\<close> and \<open>bigint\<close>) it is a check of the statement. Time is milliseconds.

  \<^bold>\<open>Theories.\<close>
  \<^item> \<open>Ts_Prelude\<close>, \<open>Js_Text\<close>, \<open>Js_Uri\<close>, \<open>Js_Json\<close>, \<open>Js_Date\<close>: computations with frame rules
    (\<open>keeps\<close>) and weakest preconditions (\<open>wp\<close>), and the parts of the JavaScript library the code
    uses. \<open>JSON_parse_stringify\<close> is the round trip all caches and messages rest on.
  \<^item> \<open>Shared_Lib\<close> (\<open>shared/src/index.ts\<close>), \<open>Api_Config\<close> (\<open>config.ts\<close>), \<open>Pagination\<close>.
  \<^item> \<open>Api_Context\<close> (\<open>utils/timeout.ts\<close>, \<open>warn-once.ts\<close>, \<open>http-errors.ts\<close>, \<open>types.ts\<close>), \<open>Http_Request\<close>: the state
    of a handler and the record \<open>services\<close> of the Redis commands and the clock. The locale
    \<open>redis_kv\<close> states what the commands do to the live keys, also when the answer is an error;
    \<open>redis_expiring\<close>, \<open>redis_prompt\<close> (answers within the timeout) and \<open>redis_up\<close> extend it.
    \<open>Redis_Model\<close> interprets them for the in-memory Redis of the unit tests and for a server with
    expiry times, delays, errors and lost answers.
  \<^item> \<open>Cache_Keys\<close>, \<open>Cache_Aside\<close>, \<open>Cache_Laws\<close> (\<open>utils/cache.ts\<close>); \<open>Idempotency\<close> (\<open>utils/idempotency.ts\<close>, a
    request as one step) and \<open>Idempotency_Process\<close> (overlapping requests with one key, suspended at their
    \<open>await\<close>s: no two of them work at the same time unless the claim expires), which
    \<open>Idempotency_Steps\<close> shows to refine it; \<open>Rate_Limit\<close>
    (\<open>middleware/rate-limit.ts\<close>).
  \<^item> \<open>Pg_Connection\<close>: a connection of the \<open>pg\<close> library over any tables, with transactions, failed
    transactions, failing statements and lost answers of COMMIT. \<open>Database\<close>: the tables of
    \<open>infra/postgres\<close>.
  \<^item> \<open>Order_Store\<close> (schemas and SQL), \<open>Order_Query\<close> (the list query), \<open>Order_Routes\<close> (the four
    handlers of \<open>routes/orders.routes.ts\<close>), \<open>Order_Laws\<close>, \<open>Order_Creation\<close> (the exact rows of a creation) and
    \<open>Order_Properties\<close> (atomic creation, the specification of PATCH, the audit invariant),
    \<open>Idempotent_Orders\<close> (the creation under an \<open>Idempotency-Key\<close>, over the locale of \<open>Idempotency\<close>), \<open>Order_Listing\<close> and \<open>List_Privacy\<close> (what a list
    shows, and to whom), \<open>Cache_Coherence\<close> and \<open>Cache_Transparency\<close> (when cached reads are fresh).
  \<^item> \<open>Auth_Store\<close>, \<open>Auth_Routes\<close> (\<open>routes/auth.routes.ts\<close>, \<open>middleware/authenticate.ts\<close>, \<open>utils/tokens.ts\<close>),
    \<open>Auth_Laws\<close>, \<open>Auth_Properties\<close>, \<open>Login_Properties\<close>, \<open>Auth_Witnesses\<close>. \<open>Login_Overlap\<close> splits the login at its
    password check and lets any number of attempts overlap; \<open>Login_Lockout\<close> and \<open>Refresh_Failure\<close> follow a
    failing \<open>EXPIRE\<close> and a rotation that fails half-way.
  \<^item> \<open>Request_Lifecycle\<close> (\<open>hooks/request-lifecycle.ts\<close>, \<open>request-state.ts\<close>, the health
    routes, request ids and CORS of \<open>app.ts\<close>). \<open>Api_Process\<close> (\<open>api-service/src/index.ts\<close>): the process with its
    requests, signals, drain loop and exit: one signal ends it cleanly, a second one cuts it off.
    \<open>Api_Boot\<close>: its start (\<open>dependencies.ts\<close>, the OpenAPI document, listening).
  \<^item> \<open>Api_Server\<close> (\<open>buildApp\<close> of \<open>app.ts\<close>): a whole request, from its arrival through the hooks, the rate
    limiter, the bearer check and its handler to its response, on every route. \<open>Api_Server_Laws\<close> and
    \<open>Api_Server_Properties\<close>: who changes orders, that every request is answered, payloads that do not
    parse.
  \<^item> \<open>Broker\<close>, \<open>Outbox_Publisher\<close>, \<open>Outbox_Laws\<close> (\<open>outbox-publisher/src/index.ts\<close>, a poll as
    one step); \<open>Publisher_Process\<close>: the publisher in small steps, with its readiness probes, connections
    and shutdowns. \<open>Worker_Service\<close>,
    \<open>Worker_Laws\<close>, \<open>Delivery_Pipeline\<close> (\<open>worker-service/src/index.ts\<close> and its queues, a delivery as one
    step). \<open>Worker_Process\<close>: the worker in small steps with its broker, overlapping deliveries, timers,
    lost connections, several reconnect loops, shutdown and restart; \<open>Worker_Process_Laws\<close>,
    \<open>Worker_Process_Care\<close> and \<open>Worker_Process_Properties\<close>: no event is notified twice, none is lost in
    careful runs, and two runs that lose one.
  \<^item> \<open>System_History\<close>: the API, the publisher and the worker over one database: no event of an order
    is lost, and a due event is notified.
  \<^item> \<open>Migrations\<close>, \<open>Migration_Laws\<close>, \<open>Migration_Properties\<close> (\<open>scripts/migrate.mjs\<close>).
  \<^item> \<open>Seed_Script\<close>, \<open>Seed_Properties\<close> (\<open>scripts/seed-orders.mjs\<close>): the load script as a client of
    \<open>Api_Server\<close>, its workers as an inductive step relation. \<open>Load_Scenarios\<close>
    (\<open>packages/stress-tests/scenarios\<close>): what the scenarios send and check. \<open>Stack_Scripts\<close>
    (\<open>scripts/stack-up.mjs\<close>, \<open>stack-down.mjs\<close>): the docker commands and exit codes.

  \<^bold>\<open>What is a parameter.\<close> Redis and the clock (\<open>services\<close>); which requests to Postgres fail, and
  whether a failed one took effect (\<open>pg_script\<close>); what the broker accepts (scripts of fates);
  SHA-256, argon2, JSON web tokens and random bytes (\<open>auth_lib\<close>, \<open>sha\<close>), the generator behind
  \<open>randomUUID\<close>; the texts of schema issues; the date-time syntax and the reading of times
  (\<open>time_texts\<close>); the directory of the migrations and the effect of their SQL (\<open>runner_env\<close>); what the
  web framework makes of a payload (an argument of the request); when the server of the
  framework has closed (\<open>closable\<close>), what docker does, the random draws of the scenarios. Their
  laws are named hypotheses, with an instance in the witnesses.

  \<^bold>\<open>The lemmas.\<close> Each handler has a \<open>wp\<close> lemma over its specification, valid for every script of
  failures; the invariants (\<open>orders_ok\<close>, \<open>auth_ok\<close>, \<open>lists_private\<close>, \<open>coherent\<close>,
  \<open>process_ok\<close>) are shown for every
  operation and lifted to histories, inductive relations whose steps are whole handlers and
  the changes of other services. Properties are numbered C1 to C40 where they are stated.

  \<^bold>\<open>Loops.\<close> \<open>withIdempotency\<close> and \<open>reconnect_from\<close> may run forever and are partial functions; that they
  return is proved (\<open>withIdempotency_returns\<close>, \<open>reconnectLoop_returns\<close>). \<open>deliveries\<close> of the
  worker has fuel, and \<open>poison_message_is_dead_lettered\<close> gives the number that is enough. The drain
  loop of the shutdown terminates by the distance to its deadline. A run of the load script has a
  bound on its steps (\<open>seed_run_ends\<close>).

  \<^bold>\<open>Not modelled.\<close> Metrics and log lines (except the warning table), the columns \<open>updated_at\<close> of tables
  no code reads, container and proxy configuration, the test suites, the stages and
  thresholds of the load scenarios and the generator of the slide deck, which hold no logic of the service; the text of the metrics
  endpoints, the plugins helmet and swagger. Handlers
  are atomic relative to each other, except where a property splits one (the two halves of a
  token refresh and of a login, the steps of a cached read, the commands under an idempotency key). A delivery of
  \<open>Worker_Service\<close> is one step; \<open>Worker_Process\<close> splits it. Outside the
  model are texts beyond Latin-1, JSON numbers with a fraction or an exponent, numbers of the
  environment with more than 308 digits (infinite for JavaScript), and
  notations of a UUID other than the hyphenated one.
\<close>

end
